(* ===== verification/Prelude.thy ===== *)
theory Prelude
  imports
    "HOL-Library.Word"
    "HOL-Library.Char_ord"
    "HOL-Library.List_Lexorder"
    "HOL-Library.Monad_Syntax"
    "HOL-Library.Code_Target_Nat"
begin

text \<open>
  Shared vocabulary of the development.

  Byte strings: Rust's \<^verbatim>\<open>[u8]\<close> and \<^verbatim>\<open>str\<close> are both modelled as \<^typ>\<open>string\<close>, a list of
  8-bit characters; a \<^verbatim>\<open>str\<close> is the UTF-8 byte sequence, so that lengths are byte lengths and the
  order of strings is the bytewise order of Rust's \<^verbatim>\<open>Ord\<close>.  Machine integers are words.

  The theory holds what the components use of the Rust standard library (slice and string
  splitting, trimming, radix printing and parsing, ordered maps and sets as sorted lists), the
  lemma collections of the development, and the two interfaces that several components share:
  ordered maps and partial codecs.
\<close>

type_synonym bytes = string
type_synonym u8 = "8 word"
type_synonym u16 = "16 word"
type_synonym u32 = "32 word"
type_synonym u64 = "64 word"

named_theorems wire_simps \<open>lexical facts about wire lines and tokens\<close>
named_theorems radix_simps \<open>printing and reading numbers\<close>
named_theorems bt_simps \<open>ordered maps and sets\<close>


section \<open>Results and partial functions\<close>

text \<open>\<^verbatim>\<open>Option::ok_or\<close> and \<^verbatim>\<open>Result::ok\<close>; \<open>Inl\<close> is the error.\<close>

definition ok_or :: "'a option \<Rightarrow> 'e \<Rightarrow> 'e + 'a" where
  "ok_or x e = (case x of None \<Rightarrow> Inl e | Some v \<Rightarrow> Inr v)"

definition res_ok :: "'e + 'a \<Rightarrow> 'a option" where
  "res_ok r = (case r of Inl _ \<Rightarrow> None | Inr v \<Rightarrow> Some v)"

definition is_ok :: "'e + 'a \<Rightarrow> bool" where
  "is_ok r = (case r of Inl _ \<Rightarrow> False | Inr _ \<Rightarrow> True)"

lemma ok_or_simps [simp]:
  "ok_or None e = Inl e" "ok_or (Some v) e = Inr v"
  by (simp_all add: ok_or_def)

lemma res_ok_simps [simp]:
  "res_ok (Inl e) = None" "res_ok (Inr v) = Some v"
  by (simp_all add: res_ok_def)

lemma ok_or_eq_Inr [simp]: "ok_or x e = Inr v \<longleftrightarrow> x = Some v"
  by (cases x) simp_all

lemma is_ok_simps [simp]: "\<not> is_ok (Inl e)" "is_ok (Inr v)"
  by (simp_all add: is_ok_def)

text \<open>The \<^verbatim>\<open>?\<close> operator: go on with the value, or return the error.\<close>

definition and_then :: "'e + 'a \<Rightarrow> ('a \<Rightarrow> 'e + 'b) \<Rightarrow> 'e + 'b" where
  "and_then r f = (case r of Inl e \<Rightarrow> Inl e | Inr x \<Rightarrow> f x)"

lemma and_then_simps [simp]: "and_then (Inl e) f = Inl e" "and_then (Inr x) f = f x"
  by (simp_all add: and_then_def)

lemma and_then_Inr: "and_then r f = Inr y \<longleftrightarrow> (\<exists>x. r = Inr x \<and> f x = Inr y)"
  by (cases r) simp_all

lemma and_then_cong [fundef_cong]:
  "r = r' \<Longrightarrow> (\<And>x. r' = Inr x \<Longrightarrow> f x = f' x) \<Longrightarrow> and_then r f = and_then r' f'"
  by (cases r') simp_all


section \<open>Splitting\<close>

text \<open>
  \<^verbatim>\<open>slice::split\<close>: the pieces between separators, at least one; a separator at either end gives an
  empty piece.
\<close>

fun split_on :: "('a \<Rightarrow> bool) \<Rightarrow> 'a list \<Rightarrow> 'a list list" where
  "split_on p [] = [[]]"
| "split_on p (x # xs) =
     (if p x then [] # split_on p xs
      else (case split_on p xs of [] \<Rightarrow> [[x]] | y # ys \<Rightarrow> (x # y) # ys))"

lemma set_map_filter_eq: "x \<in> set (List.map_filter f xs) \<longleftrightarrow> (\<exists>y \<in> set xs. f y = Some x)"
  by (induction xs) (auto split: option.splits)

lemma find_SomeD: "List.find P xs = Some x \<Longrightarrow> P x \<and> x \<in> set xs"
  by (induction xs) (auto split: if_splits)

lemma split_on_nonempty [simp]: "split_on p xs \<noteq> []"
  by (induction xs) (auto split: list.splits)

lemma split_on_no_sep: "(\<forall>x \<in> set xs. \<not> p x) \<Longrightarrow> split_on p xs = [xs]"
  by (induction xs) auto

lemma split_on_append_sep:
  "p s \<Longrightarrow> (\<forall>x \<in> set xs. \<not> p x) \<Longrightarrow> split_on p (xs @ s # ys) = xs # split_on p ys"
  by (induction xs) auto

lemma split_on_pieces: "xs \<in> set (split_on p ys) \<Longrightarrow> x \<in> set xs \<Longrightarrow> x \<in> set ys \<and> \<not> p x"
  by (induction ys arbitrary: xs) (fastforce split: list.splits if_splits)+

text \<open>One physical line: the text before the first newline, and what follows that newline.\<close>

definition break_line :: "bytes \<Rightarrow> bytes \<times> bytes" where
  "break_line buf =
     (takeWhile (\<lambda>c. c \<noteq> CHR 0x0A) buf, drop 1 (dropWhile (\<lambda>c. c \<noteq> CHR 0x0A) buf))"

lemma break_line_shorter:
  assumes "buf \<noteq> []"
  shows "length (snd (break_line buf)) < length buf"
proof -
  have "length (dropWhile (\<lambda>c. c \<noteq> CHR 0x0A) buf) \<le> length buf"
    by (rule length_dropWhile_le)
  moreover have "0 < length buf"
    using assms by simp
  ultimately show ?thesis
    unfolding break_line_def snd_conv length_drop by linarith
qed

lemma break_line_newline [wire_simps]:
  "CHR 0x0A \<notin> set l \<Longrightarrow> break_line (l @ CHR 0x0A # rest) = (l, rest)"
  by (induction l) (auto simp: break_line_def)

lemma break_line_last [wire_simps]: "CHR 0x0A \<notin> set l \<Longrightarrow> break_line l = (l, [])"
  by (induction l) (auto simp: break_line_def)

text \<open>\<^verbatim>\<open>strip_suffix\<close> and \<^verbatim>\<open>strip_prefix\<close>.\<close>

definition strip_prefix :: "'a list \<Rightarrow> 'a list \<Rightarrow> 'a list option" where
  "strip_prefix p xs = (if take (length p) xs = p then Some (drop (length p) xs) else None)"

definition strip_suffix :: "'a list \<Rightarrow> 'a list \<Rightarrow> 'a list option" where
  "strip_suffix s xs = map_option rev (strip_prefix (rev s) (rev xs))"

lemma strip_prefix_append [simp]: "strip_prefix p (p @ xs) = Some xs"
  by (simp add: strip_prefix_def)

lemma strip_prefix_SomeD: "strip_prefix p xs = Some ys \<Longrightarrow> xs = p @ ys"
  by (auto simp: strip_prefix_def split: if_splits)
     (metis append_take_drop_id)

lemma strip_suffix_append [simp]: "strip_suffix s (xs @ s) = Some xs"
  by (simp add: strip_suffix_def)

lemma strip_suffix_SomeD: "strip_suffix s xs = Some ys \<Longrightarrow> xs = ys @ s"
  by (auto simp: strip_suffix_def dest!: strip_prefix_SomeD) (metis rev_append rev_rev_ident)

text \<open>\<^verbatim>\<open>split_once\<close> and \<^verbatim>\<open>rsplit_once\<close> on one separator character.\<close>

definition split_once :: "char \<Rightarrow> string \<Rightarrow> (string \<times> string) option" where
  "split_once c xs =
     (case dropWhile (\<lambda>x. x \<noteq> c) xs of
        [] \<Rightarrow> None
      | _ # rest \<Rightarrow> Some (takeWhile (\<lambda>x. x \<noteq> c) xs, rest))"

definition rsplit_once :: "char \<Rightarrow> string \<Rightarrow> (string \<times> string) option" where
  "rsplit_once c xs = map_option (\<lambda>(a, b). (rev b, rev a)) (split_once c (rev xs))"

lemma split_once_append:
  assumes "c \<notin> set k"
  shows "split_once c (k @ c # v) = Some (k, v)"
proof -
  have "dropWhile (\<lambda>x. x \<noteq> c) (k @ c # v) = c # v"
    using assms by (induction k) auto
  moreover have "takeWhile (\<lambda>x. x \<noteq> c) (k @ c # v) = k"
    using assms by (induction k) auto
  ultimately show ?thesis by (simp add: split_once_def)
qed

lemma split_once_SomeD:
  "split_once c xs = Some (k, v) \<Longrightarrow> xs = k @ c # v \<and> c \<notin> set k"
proof (induction xs arbitrary: k)
  case Nil
  then show ?case by (simp add: split_once_def)
next
  case (Cons x xs)
  show ?case
  proof (cases "x = c")
    case True
    with Cons.prems show ?thesis by (simp add: split_once_def)
  next
    case False
    with Cons.prems obtain k' where "k = x # k'" and "split_once c xs = Some (k', v)"
      by (auto simp: split_once_def split: list.splits)
    with Cons.IH False show ?thesis by auto
  qed
qed


text \<open>
  \<^verbatim>\<open>str::lines\<close>: newline-terminated pieces without their ending (\<^verbatim>\<open>\n\<close> or \<^verbatim>\<open>\r\n\<close>); a last
  piece without a newline is kept as it is, carriage return included.
\<close>

definition drop_cr :: "bytes \<Rightarrow> bytes" where
  "drop_cr l = (if l \<noteq> [] \<and> last l = CHR 0x0D then butlast l else l)"

function str_lines :: "string \<Rightarrow> string list" where
  "str_lines s =
     (if s = [] then []
      else if CHR 0x0A \<in> set s then drop_cr (fst (break_line s)) # str_lines (snd (break_line s))
      else [s])"
  by pat_completeness auto
termination
  by (relation "measure length") (auto simp: break_line_shorter)

declare str_lines.simps [simp del]

lemma str_lines_Nil [simp]: "str_lines [] = []"
  by (simp add: str_lines.simps)

lemma drop_cr_id: "CHR 0x0D \<notin> set l \<Longrightarrow> drop_cr l = l"
  unfolding drop_cr_def by (metis last_in_set)

lemma str_lines_Cons:
  "CHR 0x0A \<notin> set l \<Longrightarrow> str_lines (l @ CHR 0x0A # rest) = drop_cr l # str_lines rest"
  by (subst str_lines.simps) (simp add: break_line_newline)

lemma str_lines_concat:
  "(\<forall>l \<in> set ls. CHR 0x0A \<notin> set l \<and> CHR 0x0D \<notin> set l) \<Longrightarrow>
   str_lines (concat (map (\<lambda>l. l @ [CHR 0x0A]) ls)) = ls"
  by (induction ls) (auto simp: str_lines_Cons drop_cr_id)


section \<open>Numbers as text\<close>

text \<open>Lower-case digits of a number in base \<open>b\<close>, as \<^verbatim>\<open>{}\<close> (ten) and \<^verbatim>\<open>{:x}\<close> (sixteen) print them.\<close>

definition digit_char :: "nat \<Rightarrow> char" where
  "digit_char d = (if d < 10 then char_of (48 + d) else char_of (87 + d))"

fun radix_str :: "nat \<Rightarrow> nat \<Rightarrow> string" where
  "radix_str b n =
     (if n < b \<or> b < 2 then [digit_char n]
      else radix_str b (n div b) @ [digit_char (n mod b)])"

declare radix_str.simps [simp del]

abbreviation dec_str :: "nat \<Rightarrow> string" where
  "dec_str \<equiv> radix_str 10"

abbreviation hex_str :: "nat \<Rightarrow> string" where
  "hex_str \<equiv> radix_str 16"

text \<open>\<^verbatim>\<open>char::to_digit\<close>: either letter case.\<close>

definition digit_of :: "nat \<Rightarrow> char \<Rightarrow> nat option" where
  "digit_of b c =
     (let n = of_char c :: nat;
          d = (if 48 \<le> n \<and> n \<le> 57 then n - 48
               else if 97 \<le> n \<and> n \<le> 122 then n - 87
               else if 65 \<le> n \<and> n \<le> 90 then n - 55 else 36)
      in if d < b then Some d else None)"

fun radix_acc :: "nat \<Rightarrow> nat \<Rightarrow> string \<Rightarrow> nat option" where
  "radix_acc b acc [] = Some acc"
| "radix_acc b acc (c # cs) =
     (case digit_of b c of None \<Rightarrow> None | Some d \<Rightarrow> radix_acc b (acc * b + d) cs)"

text \<open>
  \<^verbatim>\<open>uN::from_str_radix\<close> (and \<^verbatim>\<open>str::parse\<close> with base ten): one leading plus sign is accepted, the
  empty string and a lone sign are not, and a value of more than \<open>w\<close> bits is an error.
\<close>

definition from_str_radix :: "nat \<Rightarrow> nat \<Rightarrow> string \<Rightarrow> nat option" where
  "from_str_radix w b s =
     (let digits = (case s of c # cs \<Rightarrow> if c = CHR ''+'' \<and> cs \<noteq> [] then cs else s | [] \<Rightarrow> s)
      in if digits = [] then None
         else case radix_acc b 0 digits of
                None \<Rightarrow> None
              | Some v \<Rightarrow> if v < 2 ^ w then Some v else None)"

text \<open>\<^verbatim>\<open>str::parse::<i32>\<close>.\<close>

definition parse_i32 :: "string \<Rightarrow> int option" where
  "parse_i32 s =
     (case s of
        c # cs \<Rightarrow>
          if c = CHR ''-'' \<and> cs \<noteq> [] then
            (case radix_acc 10 0 cs of
               None \<Rightarrow> None
             | Some v \<Rightarrow> if v \<le> 2 ^ 31 then Some (- int v) else None)
          else map_option int (from_str_radix 31 10 s)
      | [] \<Rightarrow> None)"

lemma digit_of_less: "digit_of b c = Some d \<Longrightarrow> d < b"
  by (auto simp: digit_of_def Let_def split: if_splits)

lemma digit_of_digit_char [radix_simps]:
  assumes "d < b" "b \<le> 36"
  shows "digit_of b (digit_char d) = Some d"
proof -
  have "of_char (digit_char d) = (if d < 10 then 48 + d else 87 + d)"
    using assms by (simp add: digit_char_def)
  with assms show ?thesis
    by (auto simp: digit_of_def Let_def)
qed

lemma radix_acc_append:
  "radix_acc b acc (xs @ ys) =
     (case radix_acc b acc xs of None \<Rightarrow> None | Some v \<Rightarrow> radix_acc b v ys)"
  by (induction xs arbitrary: acc) (auto split: option.splits)

lemma radix_str_nonempty [simp]: "radix_str b n \<noteq> []"
  by (subst radix_str.simps) simp

lemma radix_acc_radix_str [radix_simps]:
  assumes "2 \<le> b" "b \<le> 36"
  shows "radix_acc b 0 (radix_str b n) = Some n"
  using assms
proof (induction b n rule: radix_str.induct)
  case (1 b n)
  show ?case
  proof (cases "n < b")
    case True
    with 1 show ?thesis by (subst radix_str.simps) (simp add: digit_of_digit_char)
  next
    case False
    with 1 have "radix_acc b 0 (radix_str b (n div b)) = Some (n div b)" by simp
    with False 1 show ?thesis
      by (subst radix_str.simps) (simp add: radix_acc_append digit_of_digit_char)
  qed
qed

definition is_alnum_char :: "char \<Rightarrow> bool" where
  "is_alnum_char c = (let n = of_char c :: nat in 48 \<le> n \<and> n \<le> 57 \<or> 97 \<le> n \<and> n \<le> 122)"

lemma digit_char_alnum: "d < 36 \<Longrightarrow> is_alnum_char (digit_char d)"
  by (auto simp: is_alnum_char_def digit_char_def Let_def)

lemma radix_str_alnum:
  assumes "2 \<le> b" "b \<le> 36" "c \<in> set (radix_str b n)"
  shows "is_alnum_char c"
  using assms
proof (induction b n rule: radix_str.induct)
  case (1 b n)
  show ?case
  proof (cases "n < b")
    case True
    with 1(2-4) have "c = digit_char n" by (subst (asm) radix_str.simps) simp
    with True 1(3) show ?thesis by (simp add: digit_char_alnum)
  next
    case False
    with 1(2-4) have "c \<in> set (radix_str b (n div b)) \<or> c = digit_char (n mod b)"
      by (subst (asm) radix_str.simps) auto
    moreover have "n mod b < b" using 1(2) by simp
    then have "n mod b < 36" using 1(3) by linarith
    ultimately show ?thesis
      using 1(1) False 1(2,3) digit_char_alnum [of "n mod b"] by auto
  qed
qed

lemma alnum_not_special [simp]:
  assumes "is_alnum_char c"
  shows "c \<noteq> CHR '' ''" "c \<noteq> CHR 0x09" "c \<noteq> CHR 0x0A" "c \<noteq> CHR 0x0D" "c \<noteq> CHR ''#''"
    "c \<noteq> CHR '':''" "c \<noteq> CHR ''+''" "c \<noteq> CHR ''-''"
  using assms by (auto simp: is_alnum_char_def Let_def)

lemma from_str_radix_radix_str [radix_simps]:
  assumes "2 \<le> b" "b \<le> 36" "n < 2 ^ w"
  shows "from_str_radix w b (radix_str b n) = Some n"
proof -
  obtain c cs where r: "radix_str b n = c # cs" by (cases "radix_str b n") auto
  have "is_alnum_char c" by (rule radix_str_alnum [OF assms(1,2), of c n]) (simp add: r)
  then have "c \<noteq> CHR ''+''" by simp
  moreover have "radix_acc b 0 (c # cs) = Some n"
    using radix_acc_radix_str [OF assms(1,2), of n] r by simp
  ultimately show ?thesis
    using assms(3) r by (simp add: from_str_radix_def Let_def del: radix_acc.simps)
qed


lemma unat_lt_u32: "unat (w :: u32) < 2 ^ 32"
  using unsigned_less [of w] by simp

lemma unat_lt_u64: "unat (w :: u64) < 2 ^ 64"
  using unsigned_less [of w] by simp

lemma of_nat_u64_inj:
  assumes "(of_nat a :: u64) = of_nat b" "a < 2 ^ 64" "b < 2 ^ 64"
  shows "a = b"
proof -
  have "unat (of_nat a :: u64) = unat (of_nat b :: u64)" using assms(1) by simp
  with assms(2,3) show ?thesis by (simp add: unat_of_nat)
qed

lemma ucast_ucast_u32 [simp]: "(ucast (ucast (w :: u32) :: u64) :: u32) = w"
  by (simp add: ucast_up_ucast_id is_up)

text \<open>\<^verbatim>\<open>checked_add\<close>, \<^verbatim>\<open>checked_mul\<close> and \<^verbatim>\<open>saturating_add\<close> on machine integers.\<close>

definition checked_add :: "'a::len word \<Rightarrow> 'a word \<Rightarrow> 'a word option" where
  "checked_add a b = (if unat a + unat b < 2 ^ LENGTH('a) then Some (a + b) else None)"

definition checked_mul :: "'a::len word \<Rightarrow> 'a word \<Rightarrow> 'a word option" where
  "checked_mul a b = (if unat a * unat b < 2 ^ LENGTH('a) then Some (a * b) else None)"

definition saturating_add :: "'a::len word \<Rightarrow> 'a word \<Rightarrow> 'a word" where
  "saturating_add a b = (case checked_add a b of Some c \<Rightarrow> c | None \<Rightarrow> - 1)"

lemma unat_checked_add: "checked_add a b = Some c \<Longrightarrow> unat c = unat a + unat b"
  by (auto simp: checked_add_def unat_word_ariths split: if_splits)

lemma unat_checked_mul: "checked_mul a b = Some c \<Longrightarrow> unat c = unat a * unat b"
  by (auto simp: checked_mul_def unat_word_ariths split: if_splits)

text \<open>Zero-padded printing, \<^verbatim>\<open>{:016x}\<close>.\<close>

definition pad_zero :: "nat \<Rightarrow> string \<Rightarrow> string" where
  "pad_zero w s = replicate (w - length s) (CHR ''0'') @ s"

lemma radix_acc_zeros: "1 \<le> b \<Longrightarrow> radix_acc b 0 (replicate k (CHR ''0'') @ s) = radix_acc b 0 s"
  by (induction k) (auto simp: digit_of_def Let_def)

lemma length_radix_str_le:
  "2 \<le> b \<Longrightarrow> n < b ^ k \<Longrightarrow> 0 < k \<Longrightarrow> length (radix_str b n) \<le> k"
proof (induction k arbitrary: n)
  case 0
  then show ?case by simp
next
  case (Suc k)
  show ?case
  proof (cases "n < b")
    case True
    then show ?thesis by (subst radix_str.simps) simp
  next
    case False
    with Suc.prems have "0 < k" by (cases k) auto
    moreover have "n div b < b ^ k"
      using Suc.prems by (simp add: less_mult_imp_div_less mult.commute)
    ultimately have "length (radix_str b (n div b)) \<le> k" using Suc by blast
    with False show ?thesis by (subst radix_str.simps) simp
  qed
qed

lemma length_pad_zero: "length s \<le> w \<Longrightarrow> length (pad_zero w s) = w"
  by (simp add: pad_zero_def)


section \<open>Unicode text\<close>

text \<open>
  \<^verbatim>\<open>str::from_utf8\<close>: the well-formed byte sequences of the Unicode standard (no overlong forms, no
  surrogates, nothing above U+10FFFF).
\<close>

abbreviation cont :: "char \<Rightarrow> bool" where
  "cont c \<equiv> 128 \<le> (of_char c :: nat) \<and> (of_char c :: nat) \<le> 191"

abbreviation byte_in :: "char \<Rightarrow> nat \<Rightarrow> nat \<Rightarrow> bool" where
  "byte_in c lo hi \<equiv> lo \<le> (of_char c :: nat) \<and> (of_char c :: nat) \<le> hi"

fun utf8_ok :: "bytes \<Rightarrow> bool" where
  "utf8_ok [] = True"
| "utf8_ok (a # rest) =
     (if byte_in a 0 127 then utf8_ok rest
      else (case rest of
        [] \<Rightarrow> False
      | b # rest2 \<Rightarrow>
          if byte_in a 194 223 then cont b \<and> utf8_ok rest2
          else (case rest2 of
            [] \<Rightarrow> False
          | c # rest3 \<Rightarrow>
              if byte_in a 224 224 then byte_in b 160 191 \<and> cont c \<and> utf8_ok rest3
              else if byte_in a 237 237 then byte_in b 128 159 \<and> cont c \<and> utf8_ok rest3
              else if byte_in a 225 239 then cont b \<and> cont c \<and> utf8_ok rest3
              else (case rest3 of
                [] \<Rightarrow> False
              | d # rest4 \<Rightarrow>
                  (byte_in a 240 240 \<and> byte_in b 144 191 \<or> byte_in a 241 243 \<and> cont b
                   \<or> byte_in a 244 244 \<and> byte_in b 128 143)
                  \<and> cont c \<and> cont d \<and> utf8_ok rest4))))"

lemma utf8_ok_ascii: "(\<forall>c \<in> set s. byte_in c 0 127) \<Longrightarrow> utf8_ok s"
  by (induction s) auto

lemma utf8_ok_ascii_append:
  "(\<forall>c \<in> set s. byte_in c 0 127) \<Longrightarrow> utf8_ok (s @ t) = utf8_ok t"
  by (induction s) auto

definition from_utf8 :: "bytes \<Rightarrow> string option" where
  "from_utf8 bs = (if utf8_ok bs then Some bs else None)"

text \<open>
  \<^verbatim>\<open>str::trim\<close> removes characters with the Unicode property White\_Space; these are their UTF-8
  encodings.  No encoding is a suffix of another character's, so trimming by byte suffixes is
  trimming by characters.
\<close>

definition white_space :: "bytes list" where
  "white_space =
     map (\<lambda>n. [char_of (n :: nat)]) [9, 10, 11, 12, 13, 32] @
     map (\<lambda>n. [CHR 0xC2, char_of (n :: nat)]) [133, 160] @
     [[CHR 0xE1, CHR 0x9A, CHR 0x80]] @
     map (\<lambda>n. [CHR 0xE2, CHR 0x80, char_of (n :: nat)])
       [128, 129, 130, 131, 132, 133, 134, 135, 136, 137, 138, 168, 169, 175] @
     [[CHR 0xE2, CHR 0x81, CHR 0x9F], [CHR 0xE3, CHR 0x80, CHR 0x80]]"

fun strip_any :: "bytes list \<Rightarrow> bytes \<Rightarrow> bytes option" where
  "strip_any [] s = None"
| "strip_any (p # ps) s =
     (case strip_prefix p s of Some r \<Rightarrow> if p = [] then strip_any ps s else Some r
      | None \<Rightarrow> strip_any ps s)"

lemma strip_any_shorter: "strip_any ps s = Some r \<Longrightarrow> length r < length s"
  by (induction ps) (auto split: option.splits if_splits dest!: strip_prefix_SomeD)

function strip_all :: "bytes list \<Rightarrow> bytes \<Rightarrow> bytes" where
  "strip_all ps s = (case strip_any ps s of None \<Rightarrow> s | Some r \<Rightarrow> strip_all ps r)"
  by pat_completeness auto
termination
  by (relation "measure (\<lambda>(ps, s). length s)") (auto dest: strip_any_shorter)

declare strip_all.simps [simp del]

definition trim_start :: "string \<Rightarrow> string" where
  "trim_start s = strip_all white_space s"

definition trim_end :: "string \<Rightarrow> string" where
  "trim_end s = rev (strip_all (map rev white_space) (rev s))"

definition trim :: "string \<Rightarrow> string" where
  "trim s = trim_end (trim_start s)"

lemma strip_all_stop: "strip_any ps (strip_all ps s) = None"
proof (induction ps s rule: strip_all.induct)
  case (1 ps s)
  then show ?case
    by (cases "strip_any ps s") (simp_all add: strip_all.simps [of ps s])
qed

lemma strip_all_id: "strip_any ps s = None \<Longrightarrow> strip_all ps s = s"
  by (simp add: strip_all.simps)

lemma strip_all_suffix: "\<exists>p. s = p @ strip_all ps s"
proof (induction ps s rule: strip_all.induct)
  case (1 ps s)
  show ?case
  proof (cases "strip_any ps s")
    case (Some r)
    have "\<exists>p. s = p @ r" using Some
      by (induction ps) (auto split: option.splits if_splits dest!: strip_prefix_SomeD)
    with 1 [OF Some] Some show ?thesis
      by (simp add: strip_all.simps [of ps s]) (metis append_assoc)
  qed (simp add: strip_all.simps [of ps s])
qed

lemma strip_any_prefix: "strip_any ps (a @ b) = None \<Longrightarrow> strip_any ps a = None"
proof (induction ps)
  case (Cons p ps)
  have "strip_prefix p a = Some r \<Longrightarrow> strip_prefix p (a @ b) = Some (r @ b)" for r
    by (auto dest!: strip_prefix_SomeD)
  with Cons show ?case by (fastforce split: option.splits if_splits)
qed simp

lemma trim_idem [simp]: "trim (trim s) = trim s"
proof -
  let ?w = "map rev white_space"
  let ?t = "trim_start s"
  obtain p where "rev ?t = p @ strip_all ?w (rev ?t)" using strip_all_suffix by blast
  then have t: "?t = trim s @ rev p"
    by (metis rev_append rev_rev_ident trim_def trim_end_def)
  have "strip_any white_space ?t = None"
    unfolding trim_start_def by (rule strip_all_stop)
  then have "strip_any white_space (trim s @ rev p) = None" by (simp only: t)
  then have "trim_start (trim s) = trim s"
    unfolding trim_start_def by (rule strip_all_id [OF strip_any_prefix])
  moreover have "strip_any ?w (rev (trim s)) = None"
    unfolding trim_def trim_end_def rev_rev_ident by (rule strip_all_stop)
  then have "trim_end (trim s) = trim s"
    unfolding trim_end_def by (simp only: strip_all_id rev_rev_ident)
  ultimately show ?thesis
    unfolding trim_def [of "trim s"] by simp
qed

text \<open>A text that starts and ends with a visible ASCII character is its own trimmed form.\<close>

lemma strip_any_None:
  "(\<forall>p \<in> set ps. strip_prefix p s = None) \<Longrightarrow> strip_any ps s = None"
  by (induction ps) auto

lemma strip_prefix_hd_None: "strip_prefix (q # qs) (c # cs) = None" if "q \<noteq> c"
  using that by (simp add: strip_prefix_def)

definition is_visible :: "char \<Rightarrow> bool" where
  "is_visible c = byte_in c 33 126"

definition to_ascii_lowercase :: "string \<Rightarrow> string" where
  "to_ascii_lowercase = map (\<lambda>c. if byte_in c 65 90 then char_of ((of_char c :: nat) + 32) else c)"

definition is_ascii_digit :: "char \<Rightarrow> bool" where
  "is_ascii_digit c = byte_in c 48 57"

definition is_ascii_alpha :: "char \<Rightarrow> bool" where
  "is_ascii_alpha c = (byte_in c 65 90 \<or> byte_in c 97 122)"

definition is_ascii_alnum :: "char \<Rightarrow> bool" where
  "is_ascii_alnum c = (is_ascii_digit c \<or> is_ascii_alpha c)"

definition is_ascii_hexdigit :: "char \<Rightarrow> bool" where
  "is_ascii_hexdigit c = (is_ascii_digit c \<or> byte_in c 65 70 \<or> byte_in c 97 102)"

definition is_ascii_whitespace :: "char \<Rightarrow> bool" where
  "is_ascii_whitespace c = (c \<in> {CHR '' '', CHR 0x09, CHR 0x0A, CHR 0x0C, CHR 0x0D})"

definition is_ascii_control :: "char \<Rightarrow> bool" where
  "is_ascii_control c = (byte_in c 0 31 \<or> byte_in c 127 127)"

text \<open>
  \<^verbatim>\<open>chars().any(char::is_control)\<close> on UTF-8 bytes: the ASCII controls and U+0080 to U+009F, which are
  encoded as C2 80 to C2 9F.
\<close>

fun any_control :: "string \<Rightarrow> bool" where
  "any_control [] = False"
| "any_control (c # cs) =
     (is_ascii_control c
      \<or> (c = CHR 0xC2 \<and> (case cs of d # _ \<Rightarrow> byte_in d 128 159 | [] \<Rightarrow> False))
      \<or> any_control cs)"

text \<open>\<^verbatim>\<open>split_whitespace().next()\<close>: the first run of characters that are not Unicode white space.\<close>

fun word_prefix :: "string \<Rightarrow> string" where
  "word_prefix [] = []"
| "word_prefix (c # cs) = (if strip_any white_space (c # cs) = None then c # word_prefix cs else [])"

definition first_word :: "string \<Rightarrow> string option" where
  "first_word s = (let t = trim_start s in if t = [] then None else Some (word_prefix t))"

definition split_ascii_whitespace :: "string \<Rightarrow> string list" where
  "split_ascii_whitespace s = filter (\<lambda>w. w \<noteq> []) (split_on is_ascii_whitespace s)"


section \<open>Partial codecs\<close>

text \<open>
  An encoder and a decoder agree on a domain.  The laws are the round trip; what every such pair
  gives its clients is proved once here: encodings of different values differ, and a decoder that
  accepts only encodings is exactly the inverse.
\<close>

locale partial_codec =
  fixes enc :: "'a \<Rightarrow> 'w" and dec :: "'w \<Rightarrow> 'a option" and dom_ok :: "'a \<Rightarrow> bool"
  assumes dec_enc: "dom_ok x \<Longrightarrow> dec (enc x) = Some x"
begin

lemma enc_inj: "dom_ok x \<Longrightarrow> dom_ok y \<Longrightarrow> enc x = enc y \<Longrightarrow> x = y"
  by (metis dec_enc option.inject)

lemma dec_enc_iff: "dom_ok x \<Longrightarrow> dec (enc x) = Some y \<longleftrightarrow> y = x"
  by (auto simp: dec_enc)

lemma dec_surj: "dom_ok x \<Longrightarrow> \<exists>w. dec w = Some x"
  using dec_enc by blast

end

end
