(* ===== verification/Hook_Ids.thy ===== *)
theory Hook_Ids
  imports Prelude
begin

unbundle bit_operations_syntax

text \<open>
  The hook registry shared by all backends (\<^verbatim>\<open>crates/protocol/src/generated/hook_ids.rs\<close>): hook ids,
  their wire bits and config names, the per-backend ownership masks, status error codes and
  backend ids.
\<close>

section \<open>Hooks\<close>

datatype hook =
    FibRouteSeqShow
  | Ipv6RouteSeqShow
  | RtnlFillIfinfo
  | InetFillIfaddr
  | Inet6FillIfaddr
  | DevIoctl
  | SockIoctl
  | FibDumpInfo
  | Rt6FillNode
  | FibNlFillRule
  | LsposedLinkProperties
  | LsposedNetworkCapabilities
  | LsposedNetworkInfo
  | LsposedNetwork
  | LsposedConnectivityResult
  | LsposedConnectivityCallback
  | LsposedConnectivityNetwork
  | LsposedPackageVisibility
  | ZygiskIoctl
  | ZygiskGetifaddrs
  | ZygiskOpenat
  | ZygiskRecvmsg
  | ZygiskRecv
  | ZygiskRecvfrom
  | ZygiskRecvfromChk
  | SocketBindInterface
  | ZygiskSetsockopt
  | FilesystemIfacePaths

fun hook_id :: "hook \<Rightarrow> nat" where
  "hook_id FibRouteSeqShow = 0"
| "hook_id Ipv6RouteSeqShow = 1"
| "hook_id RtnlFillIfinfo = 2"
| "hook_id InetFillIfaddr = 3"
| "hook_id Inet6FillIfaddr = 4"
| "hook_id DevIoctl = 5"
| "hook_id SockIoctl = 6"
| "hook_id FibDumpInfo = 7"
| "hook_id Rt6FillNode = 8"
| "hook_id FibNlFillRule = 9"
| "hook_id LsposedLinkProperties = 10"
| "hook_id LsposedNetworkCapabilities = 11"
| "hook_id LsposedNetworkInfo = 12"
| "hook_id LsposedNetwork = 13"
| "hook_id LsposedConnectivityResult = 14"
| "hook_id LsposedConnectivityCallback = 15"
| "hook_id LsposedConnectivityNetwork = 16"
| "hook_id LsposedPackageVisibility = 17"
| "hook_id ZygiskIoctl = 18"
| "hook_id ZygiskGetifaddrs = 19"
| "hook_id ZygiskOpenat = 20"
| "hook_id ZygiskRecvmsg = 21"
| "hook_id ZygiskRecv = 22"
| "hook_id ZygiskRecvfrom = 23"
| "hook_id ZygiskRecvfromChk = 24"
| "hook_id SocketBindInterface = 25"
| "hook_id ZygiskSetsockopt = 26"
| "hook_id FilesystemIfacePaths = 27"

text \<open>\<^verbatim>\<open>Hook::bit\<close>: bit N of the wire mask is hook N.\<close>

definition hook_bit :: "hook \<Rightarrow> u32" where
  "hook_bit h = push_bit (hook_id h) 1"

fun hook_name :: "hook \<Rightarrow> string" where
  "hook_name FibRouteSeqShow = ''fib_route_seq_show''"
| "hook_name Ipv6RouteSeqShow = ''ipv6_route_seq_show''"
| "hook_name RtnlFillIfinfo = ''rtnl_fill_ifinfo''"
| "hook_name InetFillIfaddr = ''inet_fill_ifaddr''"
| "hook_name Inet6FillIfaddr = ''inet6_fill_ifaddr''"
| "hook_name DevIoctl = ''dev_ioctl''"
| "hook_name SockIoctl = ''sock_ioctl''"
| "hook_name FibDumpInfo = ''fib_dump_info''"
| "hook_name Rt6FillNode = ''rt6_fill_node''"
| "hook_name FibNlFillRule = ''fib_nl_fill_rule''"
| "hook_name LsposedLinkProperties = ''lsposed_link_properties''"
| "hook_name LsposedNetworkCapabilities = ''lsposed_network_capabilities''"
| "hook_name LsposedNetworkInfo = ''lsposed_network_info''"
| "hook_name LsposedNetwork = ''lsposed_network''"
| "hook_name LsposedConnectivityResult = ''lsposed_connectivity_result''"
| "hook_name LsposedConnectivityCallback = ''lsposed_connectivity_callback''"
| "hook_name LsposedConnectivityNetwork = ''lsposed_connectivity_network''"
| "hook_name LsposedPackageVisibility = ''lsposed_package_visibility''"
| "hook_name ZygiskIoctl = ''zygisk_ioctl''"
| "hook_name ZygiskGetifaddrs = ''zygisk_getifaddrs''"
| "hook_name ZygiskOpenat = ''zygisk_openat''"
| "hook_name ZygiskRecvmsg = ''zygisk_recvmsg''"
| "hook_name ZygiskRecv = ''zygisk_recv''"
| "hook_name ZygiskRecvfrom = ''zygisk_recvfrom''"
| "hook_name ZygiskRecvfromChk = ''zygisk_recvfrom_chk''"
| "hook_name SocketBindInterface = ''socket_bind_interface''"
| "hook_name ZygiskSetsockopt = ''zygisk_setsockopt''"
| "hook_name FilesystemIfacePaths = ''filesystem_iface_paths''"

definition hook_from_name :: "string \<Rightarrow> hook option" where
  "hook_from_name name =
     (if name = ''fib_route_seq_show'' then Some FibRouteSeqShow
      else if name = ''ipv6_route_seq_show'' then Some Ipv6RouteSeqShow
      else if name = ''rtnl_fill_ifinfo'' then Some RtnlFillIfinfo
      else if name = ''inet_fill_ifaddr'' then Some InetFillIfaddr
      else if name = ''inet6_fill_ifaddr'' then Some Inet6FillIfaddr
      else if name = ''dev_ioctl'' then Some DevIoctl
      else if name = ''sock_ioctl'' then Some SockIoctl
      else if name = ''fib_dump_info'' then Some FibDumpInfo
      else if name = ''rt6_fill_node'' then Some Rt6FillNode
      else if name = ''fib_nl_fill_rule'' then Some FibNlFillRule
      else if name = ''lsposed_link_properties'' then Some LsposedLinkProperties
      else if name = ''lsposed_network_capabilities'' then Some LsposedNetworkCapabilities
      else if name = ''lsposed_network_info'' then Some LsposedNetworkInfo
      else if name = ''lsposed_network'' then Some LsposedNetwork
      else if name = ''lsposed_connectivity_result'' then Some LsposedConnectivityResult
      else if name = ''lsposed_connectivity_callback'' then Some LsposedConnectivityCallback
      else if name = ''lsposed_connectivity_network'' then Some LsposedConnectivityNetwork
      else if name = ''lsposed_package_visibility'' then Some LsposedPackageVisibility
      else if name = ''zygisk_ioctl'' then Some ZygiskIoctl
      else if name = ''zygisk_getifaddrs'' then Some ZygiskGetifaddrs
      else if name = ''zygisk_openat'' then Some ZygiskOpenat
      else if name = ''zygisk_recvmsg'' then Some ZygiskRecvmsg
      else if name = ''zygisk_recv'' then Some ZygiskRecv
      else if name = ''zygisk_recvfrom'' then Some ZygiskRecvfrom
      else if name = ''zygisk_recvfrom_chk'' then Some ZygiskRecvfromChk
      else if name = ''socket_bind_interface'' then Some SocketBindInterface
      else if name = ''zygisk_setsockopt'' then Some ZygiskSetsockopt
      else if name = ''filesystem_iface_paths'' then Some FilesystemIfacePaths
      else None)"

definition all_hooks :: "hook list" where
  "all_hooks =
     [FibRouteSeqShow,
      Ipv6RouteSeqShow,
      RtnlFillIfinfo,
      InetFillIfaddr,
      Inet6FillIfaddr,
      DevIoctl,
      SockIoctl,
      FibDumpInfo,
      Rt6FillNode,
      FibNlFillRule,
      LsposedLinkProperties,
      LsposedNetworkCapabilities,
      LsposedNetworkInfo,
      LsposedNetwork,
      LsposedConnectivityResult,
      LsposedConnectivityCallback,
      LsposedConnectivityNetwork,
      LsposedPackageVisibility,
      ZygiskIoctl,
      ZygiskGetifaddrs,
      ZygiskOpenat,
      ZygiskRecvmsg,
      ZygiskRecv,
      ZygiskRecvfrom,
      ZygiskRecvfromChk,
      SocketBindInterface,
      ZygiskSetsockopt,
      FilesystemIfacePaths]"

definition HOOK_COUNT :: nat where
  "HOOK_COUNT = 28"

definition KERNEL_HOOK_MASK :: u32 where
  "KERNEL_HOOK_MASK = 0x20003ff"

definition KMOD_HOOK_MASK :: u32 where
  "KMOD_HOOK_MASK = 0x8000000"

definition KPM_HOOK_MASK :: u32 where
  "KPM_HOOK_MASK = 0x8000000"

definition BUILTIN_HOOK_MASK :: u32 where
  "BUILTIN_HOOK_MASK = 0x8000000"

definition ZYGISK_HOOK_MASK :: u32 where
  "ZYGISK_HOOK_MASK = 0xdfc0000"

definition LSPOSED_HOOK_MASK :: u32 where
  "LSPOSED_HOOK_MASK = 0x3fc00"

lemmas hook_masks = KERNEL_HOOK_MASK_def KMOD_HOOK_MASK_def KPM_HOOK_MASK_def
  BUILTIN_HOOK_MASK_def ZYGISK_HOOK_MASK_def LSPOSED_HOOK_MASK_def


section \<open>Status codes and backends\<close>

datatype status_error =
    Ok | UnsupportedKver | ConflictingBackend | SymbolResolutionFailed | PartialHooks

fun status_error_code :: "status_error \<Rightarrow> u32" where
  "status_error_code Ok = 0"
| "status_error_code UnsupportedKver = 1"
| "status_error_code ConflictingBackend = 2"
| "status_error_code SymbolResolutionFailed = 3"
| "status_error_code PartialHooks = 4"

datatype backend = Kmod | Kpm | Zygisk | Lsposed | Builtin

fun backend_id :: "backend \<Rightarrow> u32" where
  "backend_id Kmod = 0"
| "backend_id Kpm = 1"
| "backend_id Zygisk = 2"
| "backend_id Lsposed = 3"
| "backend_id Builtin = 4"


section \<open>Facts\<close>

lemma hook_name_roundtrip: "hook_from_name (hook_name h) = Some h"
  by (cases h) (simp_all add: hook_from_name_def)

lemma hook_from_name_Some: "hook_from_name s = Some h \<Longrightarrow> s = hook_name h"
  by (auto simp: hook_from_name_def split: if_splits)

text \<open>The name table is a codec for hooks.\<close>

interpretation hook_names: partial_codec hook_name hook_from_name "\<lambda>_. True"
  by unfold_locales (rule hook_name_roundtrip)

lemma set_all_hooks: "set all_hooks = UNIV"
proof -
  have "h \<in> set all_hooks" for h
    by (cases h) (simp_all add: all_hooks_def)
  then show ?thesis by auto
qed

lemma hook_id_less: "hook_id h < 28"
  by (cases h) simp_all

lemma hook_id_inj: "hook_id h = hook_id g \<Longrightarrow> h = g"
  by (cases h; cases g) simp_all

lemma bit_hook_bit: "bit (hook_bit h) n \<longleftrightarrow> n = hook_id h"
  using hook_id_less [of h] by (auto simp: hook_bit_def bit_simps)

lemma hook_bit_nonzero: "hook_bit h \<noteq> 0"
  by (metis bit_0_eq bit_hook_bit bot_apply bot_bool_def)

text \<open>The ownership masks partition the registry as the backends read it.\<close>

lemma hook_masks_disjoint:
  "KERNEL_HOOK_MASK AND LSPOSED_HOOK_MASK = 0"
  "KERNEL_HOOK_MASK AND KMOD_HOOK_MASK = 0"
  "ZYGISK_HOOK_MASK AND LSPOSED_HOOK_MASK = 0"
  by (simp_all add: hook_masks)

lemma hook_masks_cover:
  "KERNEL_HOOK_MASK OR KMOD_HOOK_MASK OR ZYGISK_HOOK_MASK OR LSPOSED_HOOK_MASK = mask HOOK_COUNT"
  by (simp add: hook_masks HOOK_COUNT_def mask_eq_exp_minus_1)

end
