(* ===== verification/Ordered_Maps.thy ===== *)
theory Ordered_Maps
  imports Prelude
begin

text \<open>
  \<^verbatim>\<open>BTreeMap\<close> and \<^verbatim>\<open>BTreeSet\<close> of the Rust standard library: association lists and lists that are
  strictly ascending in their keys, which is the order in which the code iterates over them.  The
  interface the components rely on is the locale \<open>ordered_map\<close>, interpreted here by these lists.
\<close>

section \<open>The interface\<close>

locale ordered_map =
  fixes wf :: "'m \<Rightarrow> bool"
    and empty :: "'m"
    and get :: "'m \<Rightarrow> 'k \<Rightarrow> 'v option"
    and insert :: "'k \<Rightarrow> 'v \<Rightarrow> 'm \<Rightarrow> 'm"
    and remove :: "'k \<Rightarrow> 'm \<Rightarrow> 'm"
  assumes wf_empty: "wf empty"
    and wf_insert: "wf m \<Longrightarrow> wf (insert k v m)"
    and wf_remove: "wf m \<Longrightarrow> wf (remove k m)"
    and get_empty: "get empty k = None"
    and get_insert: "wf m \<Longrightarrow> get (insert k v m) k' = (if k' = k then Some v else get m k')"
    and get_remove: "wf m \<Longrightarrow> get (remove k m) k' = (if k' = k then None else get m k')"
    and ext: "wf m \<Longrightarrow> wf m' \<Longrightarrow> (\<And>k. get m k = get m' k) \<Longrightarrow> m = m'"
begin

text \<open>Writes to different keys commute; a write hides every earlier write of its key.\<close>

lemma insert_commute:
  "wf m \<Longrightarrow> k \<noteq> k' \<Longrightarrow> insert k v (insert k' v' m) = insert k' v' (insert k v m)"
  by (rule ext) (auto simp: wf_insert get_insert)

lemma insert_insert: "wf m \<Longrightarrow> insert k v (insert k v' m) = insert k v m"
  by (rule ext) (auto simp: wf_insert get_insert)

lemma insert_remove_commute:
  "wf m \<Longrightarrow> k \<noteq> k' \<Longrightarrow> insert k v (remove k' m) = remove k' (insert k v m)"
  by (rule ext) (auto simp: wf_insert wf_remove get_insert get_remove)

lemma insert_remove: "wf m \<Longrightarrow> insert k v (remove k m) = insert k v m"
  by (rule ext) (auto simp: wf_insert wf_remove get_insert get_remove)

lemma remove_insert: "wf m \<Longrightarrow> remove k (insert k v m) = remove k m"
  by (rule ext) (auto simp: wf_insert wf_remove get_insert get_remove)

lemma remove_commute: "wf m \<Longrightarrow> remove k (remove k' m) = remove k' (remove k m)"
  by (rule ext) (auto simp: wf_remove get_remove)

lemma insert_same: "wf m \<Longrightarrow> get m k = Some v \<Longrightarrow> insert k v m = m"
  by (rule ext) (auto simp: wf_insert get_insert)

lemma remove_absent: "wf m \<Longrightarrow> get m k = None \<Longrightarrow> remove k m = m"
  by (rule ext) (auto simp: wf_remove get_remove)

text \<open>Setting a key to an optional value, and the commutation that follows.\<close>

lemma put_commute:
  assumes "wf m" "k \<noteq> k'"
  shows "(case v of None \<Rightarrow> remove k | Some x \<Rightarrow> insert k x)
           ((case v' of None \<Rightarrow> remove k' | Some x \<Rightarrow> insert k' x) m) =
         (case v' of None \<Rightarrow> remove k' | Some x \<Rightarrow> insert k' x)
           ((case v of None \<Rightarrow> remove k | Some x \<Rightarrow> insert k x) m)"
  using assms by (auto simp: insert_commute insert_remove_commute remove_commute split: option.split)

end


section \<open>Sorted association lists\<close>

type_synonym ('k, 'v) bmap = "('k \<times> 'v) list"

definition bt_wf :: "('k::linorder, 'v) bmap \<Rightarrow> bool" where
  "bt_wf m = sorted_wrt (<) (map fst m)"

abbreviation bt_get :: "('k, 'v) bmap \<Rightarrow> 'k \<Rightarrow> 'v option" where
  "bt_get \<equiv> map_of"

primrec bt_insert :: "'k::linorder \<Rightarrow> 'v \<Rightarrow> ('k, 'v) bmap \<Rightarrow> ('k, 'v) bmap" where
  "bt_insert k v [] = [(k, v)]"
| "bt_insert k v (e # es) =
     (if k < fst e then (k, v) # e # es
      else if k = fst e then (k, v) # es
      else e # bt_insert k v es)"

definition bt_remove :: "'k \<Rightarrow> ('k, 'v) bmap \<Rightarrow> ('k, 'v) bmap" where
  "bt_remove k m = filter (\<lambda>e. fst e \<noteq> k) m"

definition bt_keys :: "('k, 'v) bmap \<Rightarrow> 'k list" where
  "bt_keys m = map fst m"

definition bt_contains :: "('k, 'v) bmap \<Rightarrow> 'k \<Rightarrow> bool" where
  "bt_contains m k = (bt_get m k \<noteq> None)"

text \<open>\<^verbatim>\<open>entry(k).or_insert(d)\<close> followed by an update in place.\<close>

definition bt_update :: "'k::linorder \<Rightarrow> 'v \<Rightarrow> ('v \<Rightarrow> 'v) \<Rightarrow> ('k, 'v) bmap \<Rightarrow> ('k, 'v) bmap" where
  "bt_update k d f m = bt_insert k (f (case bt_get m k of None \<Rightarrow> d | Some v \<Rightarrow> v)) m"

text \<open>\<^verbatim>\<open>collect::<BTreeMap>\<close>: later pairs replace earlier ones.\<close>

definition bt_of_list :: "('k::linorder \<times> 'v) list \<Rightarrow> ('k, 'v) bmap" where
  "bt_of_list xs = fold (\<lambda>(k, v). bt_insert k v) xs []"

lemma bt_wf_simps [simp]:
  "bt_wf []"
  "bt_wf (e # es) \<longleftrightarrow> (\<forall>x \<in> set es. fst e < fst x) \<and> bt_wf es"
  by (auto simp: bt_wf_def)

lemma set_bt_insert_subset: "set (bt_insert k v m) \<subseteq> insert (k, v) (set m)"
  by (induction m) auto

lemma fst_bt_insert: "fst ` set (bt_insert k v m) = insert k (fst ` set m)"
  by (induction m) auto

lemma bt_wf_insert [simp, intro]: "bt_wf m \<Longrightarrow> bt_wf (bt_insert k v m)"
proof (induction m)
  case Nil
  then show ?case by simp
next
  case (Cons e es)
  then show ?case
    using set_bt_insert_subset [of k v es] by force
qed

lemma bt_get_insert: "bt_get (bt_insert k v m) k' = (if k' = k then Some v else bt_get m k')"
  if "bt_wf m"
  using that by (induction m) auto

lemma bt_wf_filter: "bt_wf m \<Longrightarrow> bt_wf (filter P m)"
  by (induction m) auto

lemma bt_wf_remove [simp, intro]: "bt_wf m \<Longrightarrow> bt_wf (bt_remove k m)"
  by (simp add: bt_remove_def bt_wf_filter)

lemma bt_get_remove: "bt_get (bt_remove k m) k' = (if k' = k then None else bt_get m k')"
  by (induction m) (auto simp: bt_remove_def)

lemma bt_get_None_iff: "bt_get m k = None \<longleftrightarrow> k \<notin> fst ` set m"
  by (rule map_of_eq_None_iff)

lemma bt_wf_distinct: "bt_wf m \<Longrightarrow> distinct (map fst m)"
  by (induction m) auto

lemma bt_get_iff: "bt_wf m \<Longrightarrow> bt_get m k = Some v \<longleftrightarrow> (k, v) \<in> set m"
  by (simp add: bt_wf_distinct)

lemma bt_get_below: "bt_wf m \<Longrightarrow> \<forall>x \<in> set m. k < fst x \<Longrightarrow> bt_get m k = None"
  by (auto simp: bt_get_None_iff)

lemma bt_as_map:
  assumes "bt_wf m"
  shows "map (\<lambda>k. (k, the (bt_get m k))) (map fst m) = m"
proof -
  have "map (\<lambda>e. (fst e, the (bt_get m (fst e)))) m = map (\<lambda>e. e) m"
  proof (rule map_cong [OF refl])
    fix e
    assume "e \<in> set m"
    then have "bt_get m (fst e) = Some (snd e)"
      using assms by (simp add: bt_get_iff)
    then show "(fst e, the (bt_get m (fst e))) = e" by simp
  qed
  then show ?thesis by (simp add: comp_def)
qed

lemma bt_ext:
  fixes m m' :: "('k::linorder, 'v) bmap"
  assumes "bt_wf m" "bt_wf m'" "\<And>k. bt_get m k = bt_get m' k"
  shows "m = m'"
proof -
  have "fst ` set m = fst ` set m'"
    using assms(3) bt_get_None_iff by (metis (no_types, opaque_lifting) subsetI subset_antisym)
  then have "map fst m = map fst m'"
    using assms(1,2) by (intro sorted_distinct_set_unique) (auto simp: bt_wf_def strict_sorted_iff)
  then show ?thesis
    using bt_as_map [OF assms(1)] bt_as_map [OF assms(2)] assms(3) by simp
qed

interpretation bt: ordered_map bt_wf "[] :: ('k::linorder, 'v) bmap" bt_get bt_insert bt_remove
  by unfold_locales (auto simp: bt_get_insert bt_get_remove intro: bt_ext)

lemmas bt_map_simps [bt_simps] = bt_get_insert bt_get_remove bt_wf_insert bt_wf_remove

text \<open>Insertion by position, as an array does it.\<close>

lemma bt_insert_at:
  assumes "\<forall>e \<in> set xs. fst e < k" "\<forall>e \<in> set ys. k < fst e"
  shows "bt_insert k v (xs @ ys) = xs @ (k, v) # ys"
  using assms
proof (induction xs)
  case Nil
  then show ?case by (cases ys) auto
next
  case (Cons e xs)
  then show ?case by (auto simp: less_imp_neq)
qed

lemma bt_insert_replace:
  "bt_wf m \<Longrightarrow> i < length m \<Longrightarrow> fst (m ! i) = k \<Longrightarrow> bt_insert k v m = m[i := (k, v)]"
proof (induction m arbitrary: i)
  case Nil
  then show ?case by simp
next
  case (Cons e m)
  show ?case
  proof (cases i)
    case 0
    with Cons.prems show ?thesis by simp
  next
    case (Suc j)
    with Cons.prems have "fst e < k" by (auto dest: nth_mem)
    with Suc Cons show ?thesis by auto
  qed
qed

lemma bt_get_nth: "bt_wf m \<Longrightarrow> i < length m \<Longrightarrow> bt_get m (fst (m ! i)) = Some (snd (m ! i))"
  by (simp add: bt_get_iff)

lemma length_bt_insert:
  "bt_wf m \<Longrightarrow> length (bt_insert k v m) = (if bt_get m k = None then Suc (length m) else length m)"
proof (induction m)
  case Nil
  then show ?case by simp
next
  case (Cons e m)
  then show ?case
    using bt_get_below [of m k] by (auto dest: order.strict_trans)
qed

lemma bt_wf_update [simp, intro]: "bt_wf m \<Longrightarrow> bt_wf (bt_update k d f m)"
  by (simp add: bt_update_def)

lemma bt_get_update [bt_simps]:
  "bt_wf m \<Longrightarrow> bt_get (bt_update k d f m) k' =
     (if k' = k then Some (f (case bt_get m k of None \<Rightarrow> d | Some v \<Rightarrow> v)) else bt_get m k')"
  by (simp add: bt_update_def bt_get_insert)

lemma bt_wf_of_list_aux: "bt_wf m \<Longrightarrow> bt_wf (fold (\<lambda>(k, v). bt_insert k v) xs m)"
  by (induction xs arbitrary: m) auto

lemma bt_wf_of_list [simp, intro]: "bt_wf (bt_of_list xs)"
  by (simp add: bt_of_list_def bt_wf_of_list_aux)

lemma bt_of_list_aux:
  "bt_wf m \<Longrightarrow> bt_get (fold (\<lambda>(k, v). bt_insert k v) xs m) k =
     (case bt_get (rev xs) k of None \<Rightarrow> bt_get m k | Some v \<Rightarrow> Some v)"
  by (induction xs arbitrary: m)
     (auto simp: bt_get_insert map_add_def split: option.splits)

lemma bt_get_of_list [bt_simps]: "bt_get (bt_of_list xs) k = bt_get (rev xs) k"
  by (simp add: bt_of_list_def bt_of_list_aux split: option.split)

lemma bt_of_list_wf: "bt_wf m \<Longrightarrow> bt_of_list m = m"
proof (rule bt_ext)
  fix k
  assume "bt_wf m"
  then have "distinct (map fst m)" by (rule bt_wf_distinct)
  then have "\<And>v. map_of (rev m) k = Some v \<longleftrightarrow> map_of m k = Some v"
    by (simp add: rev_map [symmetric])
  then have "map_of (rev m) k = map_of m k"
    by (metis option.exhaust)
  then show "bt_get (bt_of_list m) k = bt_get m k"
    by (simp add: bt_get_of_list)
qed simp_all


section \<open>Sorted sets\<close>

text \<open>\<^verbatim>\<open>BTreeSet\<close> as the ascending list of its elements.\<close>

definition bs_wf :: "'a::linorder list \<Rightarrow> bool" where
  "bs_wf s = sorted_wrt (<) s"

definition bs_of_list :: "'a::linorder list \<Rightarrow> 'a list" where
  "bs_of_list xs = remdups_adj (sort xs)"

definition bs_insert :: "'a::linorder \<Rightarrow> 'a list \<Rightarrow> 'a list" where
  "bs_insert x s = (if x \<in> set s then s else insort x s)"

definition bs_remove :: "'a \<Rightarrow> 'a list \<Rightarrow> 'a list" where
  "bs_remove x s = filter (\<lambda>y. y \<noteq> x) s"

lemma bs_wf_iff: "bs_wf s \<longleftrightarrow> sorted s \<and> distinct s"
  by (simp add: bs_wf_def strict_sorted_iff)

lemma sorted_remdups_adj_strict: "sorted xs \<Longrightarrow> distinct (remdups_adj xs)"
  by (induction xs rule: remdups_adj.induct) (auto simp: less_le)

lemma bs_wf_of_list [simp, intro]: "bs_wf (bs_of_list xs)"
  by (simp add: bs_wf_iff bs_of_list_def sorted_remdups_adj_strict sorted_remdups_adj)

lemma set_bs_of_list [simp]: "set (bs_of_list xs) = set xs"
  by (simp add: bs_of_list_def)

lemma bs_ext: "bs_wf s \<Longrightarrow> bs_wf t \<Longrightarrow> set s = set t \<Longrightarrow> s = t"
  by (simp add: bs_wf_iff sorted_distinct_set_unique)

lemma bs_of_list_id: "bs_wf s \<Longrightarrow> bs_of_list s = s"
  by (rule bs_ext) simp_all

lemma bs_wf_insert [simp, intro]: "bs_wf s \<Longrightarrow> bs_wf (bs_insert x s)"
  by (auto simp: bs_insert_def bs_wf_iff sorted_insort distinct_insort)

lemma set_bs_insert [simp]: "set (bs_insert x s) = insert x (set s)"
  by (auto simp: bs_insert_def set_insort_key)

lemma bs_wf_remove [simp, intro]: "bs_wf s \<Longrightarrow> bs_wf (bs_remove x s)"
  by (simp add: bs_remove_def bs_wf_iff sorted_filter [where f = id, simplified])

lemma set_bs_remove [simp]: "set (bs_remove x s) = set s - {x}"
  by (auto simp: bs_remove_def)

end
