(* ===== verification/Wire.thy ===== *)
theory Wire
  imports Hook_Ids Ordered_Maps
begin

text \<open>
  The control and telemetry wire between Core and the native backends
  (\<^verbatim>\<open>crates/protocol/src/lib.rs\<close>): the lexical layer, the versioned header, the \<^verbatim>\<open>config\<close> reader
  with its sorted target table and \<^verbatim>\<open>end\<close> count, the \<^verbatim>\<open>status\<close> reader, and the writers.
\<close>

section \<open>Data\<close>

definition CONTROL_VERSION :: u32 where
  "CONTROL_VERSION = 2"

definition TELEMETRY_VERSION :: u32 where
  "TELEMETRY_VERSION = 1"

definition KPM_ARGS_LEN :: nat where
  "KPM_ARGS_LEN = 1024"

definition MAX_TARGET_UIDS :: nat where
  "MAX_TARGET_UIDS = 160"

datatype kind = Config | Stats | Status

fun current_version :: "kind \<Rightarrow> u32" where
  "current_version Config = CONTROL_VERSION"
| "current_version Stats = TELEMETRY_VERSION"
| "current_version Status = TELEMETRY_VERSION"

record target =
  tg_uid :: u32
  tg_hookmask :: u32

record config =
  cfg_debug :: "bool option"
  cfg_default_mask :: u32
  cfg_targets :: "target list"

record stat_entry =
  se_uid :: u32
  se_hook_id :: u32
  se_count :: u64

record status =
  stt_backend :: u32
  stt_kver :: u32
  stt_hooks :: u32
  stt_error :: u32

text \<open>\<^verbatim>\<open>Status::allows_configuration\<close>.\<close>

definition allows_configuration :: "status \<Rightarrow> bool" where
  "allows_configuration s =
     (stt_error s = status_error_code Ok \<or> stt_error s = status_error_code PartialHooks)"


section \<open>Lexical helpers\<close>

definition is_sep :: "char \<Rightarrow> bool" where
  "is_sep b = (b = CHR '' '' \<or> b = CHR 0x09)"

definition is_ascii_printable :: "char \<Rightarrow> bool" where
  "is_ascii_printable b = byte_in b 0x20 0x7e"

text \<open>The physical lines of a buffer, each without its newline and one trailing carriage return.\<close>

function wire_lines :: "bytes \<Rightarrow> bytes list" where
  "wire_lines buf =
     (if buf = [] then []
      else drop_cr (fst (break_line buf)) # wire_lines (snd (break_line buf)))"
  by pat_completeness auto
termination
  by (relation "measure length") (auto simp: break_line_shorter)

declare wire_lines.simps [simp del]

definition significant :: "bytes \<Rightarrow> bytes option" where
  "significant line =
     (if list_ex (\<lambda>b. \<not> is_ascii_printable b \<and> b \<noteq> CHR 0x09) line then None
      else case dropWhile is_sep line of
             [] \<Rightarrow> None
           | b # rest \<Rightarrow> if b = CHR ''#'' then None else Some (b # rest))"

definition is_ignorable :: "bytes \<Rightarrow> bool" where
  "is_ignorable line =
     (case dropWhile is_sep line of [] \<Rightarrow> True | b # _ \<Rightarrow> b = CHR ''#'')"

definition tokens :: "bytes \<Rightarrow> bytes list" where
  "tokens line = filter (\<lambda>t. t \<noteq> []) (split_on is_sep line)"

definition hex_digit :: "char \<Rightarrow> u64 option" where
  "hex_digit c =
     (let n = of_char c :: nat
      in if 48 \<le> n \<and> n \<le> 57 then Some (of_nat (n - 48))
         else if 97 \<le> n \<and> n \<le> 102 then Some (of_nat (n - 97 + 10))
         else if 65 \<le> n \<and> n \<le> 70 then Some (of_nat (n - 65 + 10))
         else None)"

fun parse_hex_loop :: "u64 \<Rightarrow> u64 \<Rightarrow> bytes \<Rightarrow> u64 option" where
  "parse_hex_loop mx v [] = Some v"
| "parse_hex_loop mx v (c # cs) =
     (case hex_digit c of
        None \<Rightarrow> None
      | Some d \<Rightarrow>
          if (mx - d) div 16 < v then None
          else parse_hex_loop mx (v * 16 + d) cs)"

definition parse_hex_bare :: "bytes \<Rightarrow> nat \<Rightarrow> u64 option" where
  "parse_hex_bare tok bits =
     (if tok = [] then None
      else parse_hex_loop (if 64 \<le> bits then 0xFFFFFFFFFFFFFFFF else 0xFFFFFFFF) 0 tok)"

fun parse_decimal_loop :: "u32 \<Rightarrow> bytes \<Rightarrow> u32 option" where
  "parse_decimal_loop v [] = Some v"
| "parse_decimal_loop v (c # cs) =
     (if is_ascii_digit c then
        do {
          m \<leftarrow> checked_mul v 10;
          v' \<leftarrow> checked_add m (of_nat (of_char c - 48));
          parse_decimal_loop v' cs
        }
      else None)"

definition parse_decimal :: "bytes \<Rightarrow> u32 option" where
  "parse_decimal tok = (if tok = [] then None else parse_decimal_loop 0 tok)"


section \<open>Header\<close>

definition kind_of_token :: "bytes \<Rightarrow> kind option" where
  "kind_of_token t =
     (if t = ''config'' then Some Config
      else if t = ''stats'' then Some Stats
      else if t = ''status'' then Some Status
      else None)"

text \<open>The first significant line: \<^verbatim>\<open>vpnhide <version> <kind>\<close>, under the per-kind version fuse.\<close>

definition header_kind :: "bytes \<Rightarrow> kind option" where
  "header_kind content =
     (case tokens content of
        tag # ver # kd # _ \<Rightarrow>
          if tag \<noteq> ''vpnhide'' then None
          else do {
            v \<leftarrow> parse_decimal ver;
            k \<leftarrow> kind_of_token kd;
            if v = current_version k then Some k else None
          }
      | _ \<Rightarrow> None)"

function parse_header :: "bytes \<Rightarrow> (kind \<times> bytes) option" where
  "parse_header buf =
     (if buf = [] then None
      else let line = drop_cr (fst (break_line buf)); rest = snd (break_line buf)
           in if is_ignorable line then parse_header rest
              else do {
                content \<leftarrow> significant line;
                k \<leftarrow> header_kind content;
                Some (k, rest)
              })"
  by pat_completeness auto
termination
  by (relation "measure length") (auto simp: break_line_shorter)

declare parse_header.simps [simp del]

definition peek_kind :: "bytes \<Rightarrow> kind option" where
  "peek_kind buf = map_option fst (parse_header buf)"


section \<open>Status reader\<close>

record status_fields =
  sf_backend :: "u32 option"
  sf_kver :: "u32 option"
  sf_hooks :: "u32 option"
  sf_error :: "u32 option"

definition default_status_fields :: status_fields where
  "default_status_fields =
     \<lparr>sf_backend = None, sf_kver = None, sf_hooks = None, sf_error = None\<rparr>"

text \<open>\<^verbatim>\<open>StatusFields::complete\<close>.\<close>

definition complete :: "status_fields \<Rightarrow> status option" where
  "complete f =
     do {
       b \<leftarrow> sf_backend f;
       k \<leftarrow> sf_kver f;
       h \<leftarrow> sf_hooks f;
       e \<leftarrow> sf_error f;
       Some \<lparr>stt_backend = b, stt_kver = k, stt_hooks = h, stt_error = e\<rparr>
     }"

definition parse_hex_prefixed :: "bytes \<Rightarrow> nat \<Rightarrow> u64 option" where
  "parse_hex_prefixed v bits =
     (case strip_prefix ''0x'' v of
        Some h \<Rightarrow> parse_hex_bare h bits
      | None \<Rightarrow>
          (case strip_prefix ''0X'' v of
             Some h \<Rightarrow> parse_hex_bare h bits
           | None \<Rightarrow> None))"

definition set_status_field :: "bytes \<Rightarrow> u32 \<Rightarrow> status_fields \<Rightarrow> status_fields" where
  "set_status_field key v f =
     (if key = ''backend'' then f\<lparr>sf_backend := Some v\<rparr>
      else if key = ''kver'' then f\<lparr>sf_kver := Some v\<rparr>
      else if key = ''hooks'' then f\<lparr>sf_hooks := Some v\<rparr>
      else if key = ''error'' then f\<lparr>sf_error := Some v\<rparr>
      else f)"

text \<open>The record loop; a line that opens the next block ends it.\<close>

fun status_records :: "status_fields \<Rightarrow> bytes list \<Rightarrow> status_fields option" where
  "status_records f [] = Some f"
| "status_records f (line # rest) =
     (case tokens line of
        [] \<Rightarrow> None
      | key # words \<Rightarrow>
          if key = ''vpnhide'' then Some f
          else (case words of
                  [w] \<Rightarrow>
                    (case parse_hex_prefixed w 32 of
                       None \<Rightarrow> status_records f rest
                     | Some v \<Rightarrow> status_records (set_status_field key (ucast v) f) rest)
                | _ \<Rightarrow> status_records f rest))"

definition parse_status_fields :: "bytes \<Rightarrow> status_fields option" where
  "parse_status_fields buf =
     do {
       (k, rest) \<leftarrow> parse_header buf;
       if k \<noteq> Status then None
       else status_records default_status_fields (List.map_filter significant (wire_lines rest))
     }"


section \<open>Config reader\<close>

text \<open>\<^verbatim>\<open>slice::binary_search_by_key\<close> of the standard library; \<open>Inr\<close> is a match, \<open>Inl\<close> an insertion point.\<close>

function bsearch_loop :: "'k::linorder \<Rightarrow> ('a \<Rightarrow> 'k) \<Rightarrow> 'a list \<Rightarrow> nat \<Rightarrow> nat \<Rightarrow> nat" where
  "bsearch_loop key f xs base sz =
     (if sz \<le> 1 then base
      else let half = sz div 2; mid = base + half
           in bsearch_loop key f xs (if key < f (xs ! mid) then base else mid) (sz - half))"
  by pat_completeness auto
termination
  by (relation "measure (\<lambda>(_, _, _, _, sz). sz)") auto

declare bsearch_loop.simps [simp del]

definition binary_search_by_key :: "'k::linorder \<Rightarrow> ('a \<Rightarrow> 'k) \<Rightarrow> 'a list \<Rightarrow> nat + nat" where
  "binary_search_by_key key f xs =
     (if xs = [] then Inl 0
      else let base = bsearch_loop key f xs 0 (length xs)
           in if f (xs ! base) = key then Inr base
              else Inl (base + (if f (xs ! base) < key then 1 else 0)))"

text \<open>\<open>None\<close> is the source's \<^verbatim>\<open>false\<close>: the table is full and the uid is new.\<close>

definition set_target :: "target list \<Rightarrow> u32 \<Rightarrow> u32 \<Rightarrow> target list option" where
  "set_target targets uid hookmask =
     (case binary_search_by_key uid tg_uid targets of
        Inr i \<Rightarrow> Some (targets[i := (targets ! i)\<lparr>tg_hookmask := hookmask\<rparr>])
      | Inl i \<Rightarrow>
          if MAX_TARGET_UIDS \<le> length targets then None
          else Some (take i targets @ \<lparr>tg_uid = uid, tg_hookmask = hookmask\<rparr> # drop i targets))"

record config_scan =
  cs_cfg :: config
  cs_uids_seen :: u64
  cs_declared :: "u64 option"

fun scan_uids :: "u32 \<Rightarrow> bytes list \<Rightarrow> config_scan \<Rightarrow> config_scan option" where
  "scan_uids m [] s = Some s"
| "scan_uids m (tok # toks) s =
     do {
       uid \<leftarrow> parse_hex_bare tok 32;
       targets \<leftarrow> set_target (cfg_targets (cs_cfg s)) (ucast uid) m;
       scan_uids m toks
         (s\<lparr>cs_uids_seen := cs_uids_seen s + 1,
            cs_cfg := (cs_cfg s)\<lparr>cfg_targets := targets\<rparr>\<rparr>)
     }"

definition scan_record :: "bytes \<Rightarrow> config_scan \<Rightarrow> config_scan option" where
  "scan_record content s =
     (case tokens content of
        [] \<Rightarrow> Some s
      | key # args \<Rightarrow>
          if key = ''debug'' then
            (case args of
               [] \<Rightarrow> Some s
             | flag # _ \<Rightarrow>
                 if flag = ''0'' then Some (s\<lparr>cs_cfg := (cs_cfg s)\<lparr>cfg_debug := Some False\<rparr>\<rparr>)
                 else if flag = ''1'' then Some (s\<lparr>cs_cfg := (cs_cfg s)\<lparr>cfg_debug := Some True\<rparr>\<rparr>)
                 else Some s)
          else if key = ''default'' then
            (case args of
               [] \<Rightarrow> Some s
             | tok # _ \<Rightarrow>
                 (case parse_hex_bare tok 32 of
                    None \<Rightarrow> Some s
                  | Some m \<Rightarrow> Some (s\<lparr>cs_cfg := (cs_cfg s)\<lparr>cfg_default_mask := ucast m\<rparr>\<rparr>)))
          else if key = ''targets'' then
            (case args of
               [] \<Rightarrow> Some s
             | tok # uids \<Rightarrow>
                 (case parse_hex_bare tok 32 of
                    None \<Rightarrow> Some s
                  | Some m \<Rightarrow> scan_uids (ucast m) uids s))
          else if key = ''end'' then
            (case args of
               [] \<Rightarrow> Some s
             | tok # _ \<Rightarrow>
                 (case parse_hex_bare tok 32 of
                    None \<Rightarrow> Some s
                  | Some v \<Rightarrow> Some (s\<lparr>cs_declared := Some v\<rparr>)))
          else Some s)"

fun scan_lines :: "bytes list \<Rightarrow> config_scan \<Rightarrow> config_scan option" where
  "scan_lines [] s = Some s"
| "scan_lines (line # rest) s =
     (case significant line of
        None \<Rightarrow> scan_lines rest s
      | Some content \<Rightarrow>
          (case scan_record content s of
             None \<Rightarrow> None
           | Some s' \<Rightarrow> scan_lines rest s'))"

definition init_scan :: config_scan where
  "init_scan =
     \<lparr>cs_cfg = \<lparr>cfg_debug = None, cfg_default_mask = 0, cfg_targets = []\<rparr>,
      cs_uids_seen = 0, cs_declared = None\<rparr>"

definition parse_config :: "bytes \<Rightarrow> config option" where
  "parse_config buf =
     do {
       (k, rest) \<leftarrow> parse_header buf;
       if k \<noteq> Config then None
       else do {
         s \<leftarrow> scan_lines (wire_lines rest) init_scan;
         declared \<leftarrow> cs_declared s;
         if declared = cs_uids_seen s then Some (cs_cfg s) else None
       }
     }"


section \<open>Writers\<close>

abbreviation nl :: "bytes \<Rightarrow> bytes" where
  "nl l \<equiv> l @ [CHR 0x0A]"

definition hex_u32 :: "u32 \<Rightarrow> bytes" where
  "hex_u32 w = hex_str (unat w)"

definition hex_u64 :: "u64 \<Rightarrow> bytes" where
  "hex_u64 w = hex_str (unat w)"

definition group_uids :: "target list \<Rightarrow> u32 \<Rightarrow> u32 list" where
  "group_uids targets m = sort (map tg_uid (filter (\<lambda>t. tg_hookmask t = m) targets))"

definition group_line :: "target list \<Rightarrow> u32 \<Rightarrow> bytes" where
  "group_line targets m =
     ''targets '' @ hex_u32 m @ concat (map (\<lambda>u. CHR '' '' # hex_u32 u) (group_uids targets m))"

definition format_config :: "bool \<Rightarrow> u32 \<Rightarrow> target list \<Rightarrow> bytes" where
  "format_config debug default_mask targets =
     (let masks = remdups_adj (sort (map tg_hookmask targets));
          count = sum_list (map (\<lambda>m. length (group_uids targets m)) masks)
      in nl (''vpnhide '' @ dec_str (unat CONTROL_VERSION) @ '' config'')
         @ (if debug then nl ''debug 1'' else nl ''debug 0'')
         @ (if default_mask \<noteq> 0 then nl (''default '' @ hex_u32 default_mask) else [])
         @ concat (map (\<lambda>m. nl (group_line targets m)) masks)
         @ nl (''end '' @ hex_str count))"

definition stats_cell :: "stat_entry \<Rightarrow> bytes" where
  "stats_cell e = '' 0x'' @ hex_u32 (se_hook_id e) @ '':0x'' @ hex_u64 (se_count e)"

function stats_rows :: "stat_entry list \<Rightarrow> bytes list" where
  "stats_rows [] = []"
| "stats_rows (e # es) =
     (''0x'' @ hex_u32 (se_uid e)
        @ concat (map stats_cell (e # takeWhile (\<lambda>x. se_uid x = se_uid e) es)))
     # stats_rows (dropWhile (\<lambda>x. se_uid x = se_uid e) es)"
  by pat_completeness auto
termination
  by (relation "measure length") (auto simp: le_imp_less_Suc length_dropWhile_le)

definition format_stats :: "stat_entry list \<Rightarrow> bytes" where
  "format_stats entries =
     nl (''vpnhide '' @ dec_str (unat TELEMETRY_VERSION) @ '' stats'')
     @ concat (map nl (stats_rows entries))"

definition format_status :: "status \<Rightarrow> bytes" where
  "format_status s =
     nl (''vpnhide '' @ dec_str (unat TELEMETRY_VERSION) @ '' status'')
     @ nl (''backend 0x'' @ hex_u32 (stt_backend s))
     @ nl (''kver 0x'' @ hex_u32 (stt_kver s))
     @ nl (''hooks 0x'' @ hex_u32 (stt_hooks s))
     @ nl (''error 0x'' @ hex_u32 (stt_error s))"

fun clamp_back :: "bytes \<Rightarrow> nat \<Rightarrow> nat" where
  "clamp_back buf 0 = 0"
| "clamp_back buf (Suc p) = (if buf ! p = CHR 0x0A then Suc p else clamp_back buf p)"

definition clamp_to_line :: "bytes \<Rightarrow> nat \<Rightarrow> nat" where
  "clamp_to_line buf outlen =
     (if length buf \<le> outlen then length buf
      else let p = clamp_back buf outlen in if 0 < p then p - 1 else 0)"

end
