(* ===== verification/Wire_Facts.thy ===== *)
theory Wire_Facts
  imports Wire
begin

text \<open>
  Lemmas about the wire: numbers as tokens, token and line structure of what the writers emit, the
  sorted target table behind \<open>set_target\<close>, and the scan of a written config.
\<close>

section \<open>Numbers\<close>

lemma hex_digit_eq: "hex_digit c = map_option of_nat (digit_of 16 c)"
  by (auto simp: hex_digit_def digit_of_def Let_def)

lemma radix_acc_ge: "1 \<le> b \<Longrightarrow> radix_acc b acc cs = Some n \<Longrightarrow> acc \<le> n"
proof (induction cs arbitrary: acc)
  case Nil
  then show ?case by simp
next
  case (Cons c cs)
  then obtain d where "radix_acc b (acc * b + d) cs = Some n"
    by (auto split: option.splits)
  with Cons.IH Cons.prems(1) have "acc * b + d \<le> n" by blast
  moreover have "acc \<le> acc * b" using Cons.prems(1) by simp
  ultimately show ?case by linarith
qed

text \<open>The overflow test of \<^verbatim>\<open>parse_hex_bare\<close>, on machine words.\<close>

lemma hex_overflow_test:
  fixes mx v d :: u64
  assumes "unat d < 16" "15 \<le> unat mx"
  shows "(mx - d) div 16 < v \<longleftrightarrow> unat mx < unat v * 16 + unat d"
proof -
  have le: "d \<le> mx"
    using assms by (simp add: word_le_nat_alt)
  have "unat ((mx - d) div 16) = (unat mx - unat d) div 16"
    using le by (simp add: unat_div unat_sub)
  then have "(mx - d) div 16 < v \<longleftrightarrow> (unat mx - unat d) div 16 < unat v"
    by (simp add: word_less_nat_alt)
  also have "\<dots> \<longleftrightarrow> unat mx < unat v * 16 + unat d"
    using le by (auto simp: word_le_nat_alt div_less_iff_less_mult)
  finally show ?thesis .
qed

lemma unat_hex_step:
  fixes mx v d :: u64
  assumes "unat v * 16 + unat d \<le> unat mx"
  shows "unat (v * 16 + d) = unat v * 16 + unat d"
proof -
  have "unat v * 16 + unat d < 2 ^ 64"
    using assms unat_lt_u64 [of mx] by simp
  then show ?thesis
    by (simp add: unat_word_ariths mod_add_left_eq)
qed

lemma parse_hex_loop_eq:
  assumes "15 \<le> unat mx" "unat v \<le> unat mx"
  shows "parse_hex_loop mx v cs =
     (case radix_acc 16 (unat v) cs of
        None \<Rightarrow> None
      | Some n \<Rightarrow> if n \<le> unat mx then Some (of_nat n) else None)"
  using assms(2)
proof (induction cs arbitrary: v)
  case Nil
  then show ?case by simp
next
  case (Cons c cs)
  show ?case
  proof (cases "digit_of 16 c")
    case None
    then show ?thesis by (simp add: hex_digit_eq)
  next
    case (Some d)
    then have d: "d < 16" by (rule digit_of_less)
    then have ud: "unat (of_nat d :: u64) = d" by (simp add: unat_of_nat)
    show ?thesis
    proof (cases "unat mx < unat v * 16 + d")
      case True
      have "\<not> n \<le> unat mx" if "radix_acc 16 (unat v * 16 + d) cs = Some n" for n
        using radix_acc_ge [OF _ that] True by simp
      with True Some d assms(1) show ?thesis
        by (auto simp: hex_digit_eq hex_overflow_test ud split: option.split)
    next
      case False
      then have "unat (v * 16 + of_nat d) = unat v * 16 + d"
        using unat_hex_step [of v "of_nat d" mx] ud by simp
      with False Some d assms(1) Cons.IH [of "v * 16 + of_nat d"] show ?thesis
        by (simp add: hex_digit_eq hex_overflow_test ud)
    qed
  qed
qed

definition hex_limit :: "nat \<Rightarrow> nat" where
  "hex_limit bits = (if 64 \<le> bits then 2 ^ 64 else 2 ^ 32)"

lemma parse_hex_bare_eq:
  "parse_hex_bare tok bits =
     (if tok = [] then None
      else case radix_acc 16 0 tok of
             None \<Rightarrow> None
           | Some n \<Rightarrow> if n < hex_limit bits then Some (of_nat n) else None)"
  by (auto simp: parse_hex_bare_def parse_hex_loop_eq hex_limit_def split: option.split)

lemma parse_hex_bare_u32 [radix_simps, simp]: "parse_hex_bare (hex_u32 w) 32 = Some (ucast w)"
  using unat_lt_u32 [of w]
  by (simp add: parse_hex_bare_eq hex_u32_def radix_acc_radix_str hex_limit_def)

lemma parse_hex_bare_u64 [radix_simps, simp]: "parse_hex_bare (hex_u64 w) 64 = Some w"
  using unat_lt_u64 [of w]
  by (simp add: parse_hex_bare_eq hex_u64_def radix_acc_radix_str hex_limit_def)

lemma parse_hex_bare_nat [radix_simps]:
  "n < 2 ^ 32 \<Longrightarrow> parse_hex_bare (hex_str n) 32 = Some (of_nat n)"
  by (simp add: parse_hex_bare_eq radix_acc_radix_str hex_limit_def)

text \<open>Hexadecimal text is a nonempty token: no separator, newline or comment mark.\<close>

lemma hex_u32_alnum: "c \<in> set (hex_u32 w) \<Longrightarrow> is_alnum_char c"
  unfolding hex_u32_def by (rule radix_str_alnum) simp_all

lemma hex_u64_alnum: "c \<in> set (hex_u64 w) \<Longrightarrow> is_alnum_char c"
  unfolding hex_u64_def by (rule radix_str_alnum) simp_all

lemma hex_str_alnum: "c \<in> set (hex_str n) \<Longrightarrow> is_alnum_char c"
  by (rule radix_str_alnum) simp_all

lemma hex_u_nonempty [simp]: "hex_u32 w \<noteq> []" "hex_u64 v \<noteq> []"
  by (simp_all add: hex_u32_def hex_u64_def)


section \<open>Tokens\<close>

definition is_token :: "bytes \<Rightarrow> bool" where
  "is_token t = (t \<noteq> [] \<and> (\<forall>c \<in> set t. is_visible c))"

lemma visible_not_sep: "is_visible c \<Longrightarrow> \<not> is_sep c"
  by (auto simp: is_visible_def is_sep_def)

lemma visible_printable: "is_visible c \<Longrightarrow> is_ascii_printable c"
  by (auto simp: is_visible_def is_ascii_printable_def)

lemma visible_not_newline: "is_visible c \<Longrightarrow> c \<noteq> CHR 0x0A \<and> c \<noteq> CHR 0x0D"
  by (auto simp: is_visible_def)

lemma alnum_visible: "is_alnum_char c \<Longrightarrow> is_visible c"
  by (auto simp: is_alnum_char_def is_visible_def Let_def)

lemma is_token_hex [simp]: "is_token (hex_u32 w)" "is_token (hex_u64 v)" "is_token (hex_str n)"
  by (auto simp: is_token_def alnum_visible hex_u32_alnum hex_u64_alnum hex_str_alnum)

lemma tokens_single: "is_token t \<Longrightarrow> tokens t = [t]"
  by (simp add: tokens_def is_token_def split_on_no_sep visible_not_sep)

lemma tokens_Cons:
  assumes "is_token t"
  shows "tokens (t @ CHR '' '' # rest) = t # tokens rest"
proof -
  have "split_on is_sep (t @ CHR '' '' # rest) = t # split_on is_sep rest"
    using assms by (intro split_on_append_sep) (auto simp: is_token_def visible_not_sep, simp add: is_sep_def)
  with assms show ?thesis by (simp add: tokens_def is_token_def)
qed

lemma tokens_sep_Cons: "is_sep c \<Longrightarrow> tokens (c # rest) = tokens rest"
  by (simp add: tokens_def)

text \<open>A line of words separated by single blanks.\<close>

fun unwords :: "bytes list \<Rightarrow> bytes" where
  "unwords [] = []"
| "unwords [t] = t"
| "unwords (t # ts) = t @ CHR '' '' # unwords ts"

lemma tokens_unwords: "(\<forall>t \<in> set ts. is_token t) \<Longrightarrow> tokens (unwords ts) = ts"
  by (induction ts rule: unwords.induct)
     (auto simp: tokens_single tokens_Cons, simp add: tokens_def)

lemma unwords_Cons:
  "unwords (t # ts) = t @ concat (map (\<lambda>u. CHR '' '' # u) ts)"
  by (induction ts arbitrary: t) auto

lemma set_unwords: "c \<in> set (unwords ts) \<Longrightarrow> c = CHR '' '' \<or> (\<exists>t \<in> set ts. c \<in> set t)"
  by (induction ts rule: unwords.induct) auto

text \<open>A written line: nonempty words of visible characters, not opening with a comment mark.\<close>

definition is_record :: "bytes list \<Rightarrow> bool" where
  "is_record ts = (ts \<noteq> [] \<and> (\<forall>t \<in> set ts. is_token t) \<and> hd (hd ts) \<noteq> CHR ''#'')"

lemma unwords_printable:
  assumes "is_record ts" "c \<in> set (unwords ts)"
  shows "is_ascii_printable c" "c \<noteq> CHR 0x0A" "c \<noteq> CHR 0x0D"
proof -
  from set_unwords [OF assms(2)] assms(1) have "c = CHR '' '' \<or> is_visible c"
    by (auto simp: is_record_def is_token_def)
  then show "is_ascii_printable c" "c \<noteq> CHR 0x0A" "c \<noteq> CHR 0x0D"
    by (auto simp: is_ascii_printable_def is_visible_def)
qed

lemma unwords_hd:
  assumes "is_record ts"
  obtains c cs where "unwords ts = c # cs" "\<not> is_sep c" "c \<noteq> CHR ''#''"
proof -
  from assms obtain c cs us where "ts = (c # cs) # us" "is_visible c" "c \<noteq> CHR ''#''"
    by (auto simp: is_record_def is_token_def neq_Nil_conv)
  then show ?thesis
    using that by (cases us) (auto simp: visible_not_sep)
qed

lemma significant_unwords [wire_simps]:
  assumes "is_record ts"
  shows "significant (unwords ts) = Some (unwords ts)"
proof -
  have p: "\<not> list_ex (\<lambda>b. \<not> is_ascii_printable b \<and> b \<noteq> CHR 0x09) (unwords ts)"
    using unwords_printable(1) [OF assms] by (auto simp: list_ex_iff)
  obtain c cs where "unwords ts = c # cs" "\<not> is_sep c" "c \<noteq> CHR ''#''"
    using assms by (rule unwords_hd)
  with p show ?thesis
    unfolding significant_def by simp
qed

lemma not_ignorable_unwords [wire_simps]: "is_record ts \<Longrightarrow> \<not> is_ignorable (unwords ts)"
  by (erule unwords_hd) (simp add: is_ignorable_def)

lemma drop_cr_unwords [wire_simps]: "is_record ts \<Longrightarrow> drop_cr (unwords ts) = unwords ts"
  using unwords_printable(3) by (auto intro!: drop_cr_id)

lemma tokens_record [wire_simps]: "is_record ts \<Longrightarrow> tokens (unwords ts) = ts"
  by (simp add: tokens_unwords is_record_def)



section \<open>Lines\<close>

lemma wire_lines_Nil [simp]: "wire_lines [] = []"
  by (simp add: wire_lines.simps)

lemma wire_lines_Cons:
  "CHR 0x0A \<notin> set l \<Longrightarrow> wire_lines (l @ CHR 0x0A # rest) = drop_cr l # wire_lines rest"
  by (subst wire_lines.simps) (simp add: break_line_newline)

lemma wire_lines_last: "l \<noteq> [] \<Longrightarrow> CHR 0x0A \<notin> set l \<Longrightarrow> wire_lines l = [drop_cr l]"
  by (subst wire_lines.simps) (simp add: break_line_last)

lemma record_no_newline: "is_record ts \<Longrightarrow> CHR 0x0A \<notin> set (unwords ts)"
  using unwords_printable(2) by blast

lemma wire_lines_record [wire_simps]:
  "is_record ts \<Longrightarrow> wire_lines (nl (unwords ts) @ rest) = unwords ts # wire_lines rest"
  by (simp add: wire_lines_Cons record_no_newline drop_cr_unwords)

lemma wire_lines_records_append:
  "(\<forall>ts \<in> set tss. is_record ts) \<Longrightarrow>
   wire_lines (concat (map (\<lambda>ts. nl (unwords ts)) tss) @ rest) =
   map unwords tss @ wire_lines rest"
  by (induction tss) (auto simp: wire_lines_Cons record_no_newline drop_cr_unwords)

lemma wire_lines_records:
  "(\<forall>ts \<in> set tss. is_record ts) \<Longrightarrow>
   wire_lines (concat (map (\<lambda>ts. nl (unwords ts)) tss)) = map unwords tss"
  using wire_lines_records_append [of tss "[]"] by simp

lemma parse_header_record:
  assumes "is_record ts"
  shows "parse_header (nl (unwords ts) @ rest) =
    (case header_kind (unwords ts) of None \<Rightarrow> None | Some k \<Rightarrow> Some (k, rest))"
  using assms
  by (subst parse_header.simps)
     (simp add: break_line_newline record_no_newline drop_cr_unwords not_ignorable_unwords
        significant_unwords split: option.split)


section \<open>The sorted target table\<close>

text \<open>
  \<open>set_target\<close> keeps an array sorted by uid with binary search; it refines insertion into an
  ordered map from uids to masks.
\<close>

definition target_map :: "target list \<Rightarrow> (u32, u32) bmap" where
  "target_map ts = map (\<lambda>t. (tg_uid t, tg_hookmask t)) ts"

definition targets_wf :: "target list \<Rightarrow> bool" where
  "targets_wf ts = (bt_wf (target_map ts) \<and> length ts \<le> MAX_TARGET_UIDS)"

lemma length_target_map [simp]: "length (target_map ts) = length ts"
  by (simp add: target_map_def)

lemma fst_target_map [simp]: "fst ` set (target_map ts) = tg_uid ` set ts"
  by (force simp: target_map_def)

lemma target_map_inj: "target_map xs = target_map ys \<Longrightarrow> xs = ys"
proof (induction xs arbitrary: ys)
  case Nil
  then show ?case by (simp add: target_map_def)
next
  case (Cons x xs)
  then show ?case by (cases ys) (auto simp: target_map_def)
qed

lemma bsearch_loop_inv:
  assumes "sorted_wrt (\<lambda>a b. f a < f b) xs"
    and "1 \<le> sz" "base + sz \<le> length xs"
    and "base = 0 \<or> f (xs ! base) \<le> key"
    and "\<forall>j. base + sz \<le> j \<and> j < length xs \<longrightarrow> key < f (xs ! j)"
  shows "let b = bsearch_loop key f xs base sz
    in b < length xs \<and> (b = 0 \<or> f (xs ! b) \<le> key) \<and> (\<forall>j. b < j \<and> j < length xs \<longrightarrow> key < f (xs ! j))"
  using assms
proof (induction key f xs base sz rule: bsearch_loop.induct)
  case (1 key f xs base sz)
  show ?case
  proof (cases "sz \<le> 1")
    case True
    with "1.prems" show ?thesis
      by (subst bsearch_loop.simps) (auto simp: Let_def)
  next
    case False
    define mid where "mid = base + sz div 2"
    define base' where "base' = (if key < f (xs ! mid) then base else mid)"
    have mid: "mid < length xs" "base \<le> mid"
      using "1.prems"(3) False by (auto simp: mid_def)
    have mono: "f (xs ! mid) \<le> f (xs ! j)" if "mid \<le> j" "j < length xs" for j
      using "1.prems"(1) that by (cases "mid = j") (auto simp: sorted_wrt_iff_nth_less less_imp_le)
    have step: "bsearch_loop key f xs base sz = bsearch_loop key f xs base' (sz - sz div 2)"
      using False by (subst bsearch_loop.simps) (simp add: Let_def mid_def base'_def)
    have "\<forall>j. base' + (sz - sz div 2) \<le> j \<and> j < length xs \<longrightarrow> key < f (xs ! j)"
    proof (cases "key < f (xs ! mid)")
      case True
      then have "mid \<le> base' + (sz - sz div 2)" by (auto simp: base'_def mid_def)
      with True mono show ?thesis by (meson order.strict_trans2 order.trans)
    next
      case False
      then have "base' + (sz - sz div 2) = base + sz" by (auto simp: base'_def mid_def)
      with "1.prems"(5) show ?thesis by simp
    qed
    moreover have "base' = 0 \<or> f (xs ! base') \<le> key"
      using "1.prems"(4) by (auto simp: base'_def)
    moreover have "1 \<le> sz - sz div 2" "base' + (sz - sz div 2) \<le> length xs"
      using "1.prems"(3) False by (auto simp: base'_def mid_def)
    ultimately show ?thesis
      using "1.IH" [OF False refl refl "1.prems"(1), folded mid_def, folded base'_def]
      unfolding step by blast
  qed
qed

lemma binary_search_by_key_correct:
  assumes "sorted_wrt (\<lambda>a b. f a < f b) xs"
  shows "case binary_search_by_key key f xs of
      Inr i \<Rightarrow> i < length xs \<and> f (xs ! i) = key
    | Inl i \<Rightarrow> i \<le> length xs \<and> (\<forall>j < i. f (xs ! j) < key)
        \<and> (\<forall>j. i \<le> j \<and> j < length xs \<longrightarrow> key < f (xs ! j))"
proof (cases "xs = []")
  case True
  then show ?thesis by (simp add: binary_search_by_key_def)
next
  case False
  define b where "b = bsearch_loop key f xs 0 (length xs)"
  have "1 \<le> length xs" using False by (cases xs) auto
  then have b: "b < length xs" "b = 0 \<or> f (xs ! b) \<le> key"
    "\<forall>j. b < j \<and> j < length xs \<longrightarrow> key < f (xs ! j)"
    using bsearch_loop_inv [OF assms, of "length xs" 0 key]
    by (simp_all add: b_def Let_def not_less [symmetric])
  have below: "f (xs ! j) < f (xs ! b)" if "j < b" for j
    using assms that b(1) by (auto simp: sorted_wrt_iff_nth_less)
  show ?thesis
  proof (cases "f (xs ! b) = key")
    case True
    with b False show ?thesis by (simp add: binary_search_by_key_def Let_def b_def [symmetric])
  next
    case neq: False
    show ?thesis
    proof (cases "f (xs ! b) < key")
      case True
      have "f (xs ! j) < key" if "j < Suc b" for j
        using below [of j] True that by (cases "j = b") auto
      with True b False neq show ?thesis
        by (simp add: binary_search_by_key_def Let_def b_def [symmetric])
    next
      case gt: False
      with neq b(2) have "b = 0" by auto
      have "key < f (xs ! j)" if "j < length xs" for j
        using b(3) gt neq that \<open>b = 0\<close> by (cases "j = 0") (auto simp: not_less le_less)
      with gt b False neq \<open>b = 0\<close> show ?thesis
        by (simp add: binary_search_by_key_def Let_def b_def [symmetric])
    qed
  qed
qed

lemma target_map_sorted: "bt_wf (target_map ts) \<longleftrightarrow> sorted_wrt (\<lambda>a b. tg_uid a < tg_uid b) ts"
  by (simp add: bt_wf_def target_map_def sorted_wrt_map)

lemma nth_target_map: "i < length ts \<Longrightarrow> target_map ts ! i = (tg_uid (ts ! i), tg_hookmask (ts ! i))"
  by (simp add: target_map_def)

theorem set_target_refines:
  assumes "bt_wf (target_map ts)"
  shows "set_target ts u m =
    (if bt_get (target_map ts) u = None \<and> MAX_TARGET_UIDS \<le> length ts then None
     else Some (map (\<lambda>(u, m). \<lparr>tg_uid = u, tg_hookmask = m\<rparr>) (bt_insert u m (target_map ts))))"
proof -
  let ?mk = "\<lambda>(u, m). \<lparr>tg_uid = u, tg_hookmask = m\<rparr>"
  have inv: "map ?mk (target_map xs) = xs" for xs
    by (simp add: target_map_def comp_def map_idI)
  note bs = binary_search_by_key_correct [OF assms [unfolded target_map_sorted], of u]
  show ?thesis
  proof (cases "binary_search_by_key u tg_uid ts")
    case (Inr i)
    with bs have i: "i < length ts" "tg_uid (ts ! i) = u" by simp_all
    then have "bt_get (target_map ts) u = Some (tg_hookmask (ts ! i))"
      using bt_get_nth [OF assms, of i] by (simp add: nth_target_map)
    moreover have "bt_insert u m (target_map ts) = (target_map ts)[i := (u, m)]"
      using i by (intro bt_insert_replace [OF assms]) (simp_all add: nth_target_map)
    moreover have upd: "(ts ! i)\<lparr>tg_hookmask := m\<rparr> = \<lparr>tg_uid = u, tg_hookmask = m\<rparr>"
      using i(2) by (cases "ts ! i") simp
    have "set_target ts u m = Some (ts[i := \<lparr>tg_uid = u, tg_hookmask = m\<rparr>])"
      unfolding set_target_def Inr sum.case upd ..
    ultimately show ?thesis
      using inv by (simp add: map_update)
  next
    case (Inl i)
    with bs have i: "i \<le> length ts" "\<forall>j < i. tg_uid (ts ! j) < u"
      "\<forall>j. i \<le> j \<and> j < length ts \<longrightarrow> u < tg_uid (ts ! j)" by simp_all
    have lo: "\<forall>e \<in> set (take i ts). tg_uid e < u"
      using i(1,2) by (auto simp: in_set_conv_nth)
    have hi: "\<forall>e \<in> set (drop i ts). u < tg_uid e"
      using i(1,3) by (auto simp: in_set_conv_nth)
    have "u \<notin> tg_uid ` set ts"
    proof
      assume "u \<in> tg_uid ` set ts"
      then obtain t where "t \<in> set (take i ts) \<union> set (drop i ts)" "tg_uid t = u"
        by (auto simp: set_append [symmetric] simp del: set_append)
      with lo hi show False by auto
    qed
    then have "bt_get (target_map ts) u = None"
      by (simp add: bt_get_None_iff)
    moreover have "bt_insert u m (target_map (take i ts) @ target_map (drop i ts)) =
        target_map (take i ts) @ (u, m) # target_map (drop i ts)"
      using lo hi by (intro bt_insert_at) (auto simp: target_map_def)
    then have "bt_insert u m (target_map ts) =
        target_map (take i ts) @ (u, m) # target_map (drop i ts)"
      by (simp add: target_map_def flip: map_append)
    ultimately show ?thesis
      using Inl inv by (simp add: set_target_def)
  qed
qed

end
