(* ===== verification/Config_Wire.thy ===== *)
theory Config_Wire
  imports Wire_Facts
begin

text \<open>
  The \<^verbatim>\<open>config\<close> payload end to end: what \<open>format_config\<close> writes, \<open>parse_config\<close> reads back exactly,
  and no proper prefix of it is ever read as a smaller policy.
\<close>

section \<open>Written records\<close>

definition mask_list :: "target list \<Rightarrow> u32 list" where
  "mask_list ts = remdups_adj (sort (map tg_hookmask ts))"

definition group_record :: "target list \<Rightarrow> u32 \<Rightarrow> bytes list" where
  "group_record ts m = ''targets'' # hex_u32 m # map hex_u32 (group_uids ts m)"

definition policy_records :: "bool \<Rightarrow> u32 \<Rightarrow> target list \<Rightarrow> bytes list list" where
  "policy_records debug dm ts =
     [''vpnhide'', ''2'', ''config''] # [''debug'', if debug then ''1'' else ''0'']
     # (if dm \<noteq> 0 then [[''default'', hex_u32 dm]] else []) @ map (group_record ts) (mask_list ts)"

definition end_record :: "target list \<Rightarrow> bytes list" where
  "end_record ts = [''end'', hex_str (length ts)]"

lemma distinct_mask_list: "distinct (mask_list ts)"
  by (simp add: mask_list_def sorted_remdups_adj_strict)

lemma set_mask_list: "set (mask_list ts) = tg_hookmask ` set ts"
  by (simp add: mask_list_def)

lemma sum_groups:
  assumes "distinct ms" "f ` set ts \<subseteq> set ms"
  shows "sum_list (map (\<lambda>m. length (filter (\<lambda>t. f t = m) ts)) ms) = length ts"
  using assms(2)
proof (induction ts)
  case Nil
  then show ?case by (simp add: sum_list_0)
next
  case (Cons t ts)
  have "sum_list (map (\<lambda>m. length (filter (\<lambda>x. f x = m) (t # ts))) ms) =
      sum_list (map (\<lambda>m. (if f t = m then 1 else 0) + length (filter (\<lambda>x. f x = m) ts)) ms)"
    by (intro arg_cong [where f = sum_list] map_cong) auto
  also have "\<dots> = sum_list (map (\<lambda>m. if f t = m then 1 else 0) ms) + length ts"
    using Cons by (simp add: sum_list_addf)
  also have "sum_list (map (\<lambda>m. if f t = m then 1 else (0::nat)) ms) = 1"
    using Cons.prems assms(1) by (simp add: sum_list_distinct_conv_sum_set)
  finally show ?case by simp
qed

lemma length_group_uids: "length (group_uids ts m) = length (filter (\<lambda>t. tg_hookmask t = m) ts)"
  by (simp add: group_uids_def)

lemma count_groups: "sum_list (map (\<lambda>m. length (group_uids ts m)) (mask_list ts)) = length ts"
  unfolding length_group_uids
  by (rule sum_groups) (simp_all add: distinct_mask_list set_mask_list)

lemma dec_str_versions: "dec_str (unat CONTROL_VERSION) = ''2''" "dec_str (unat TELEMETRY_VERSION) = ''1''"
  by code_simp+

lemma group_line_eq: "group_line ts m = unwords (group_record ts m)"
  by (simp add: group_line_def group_record_def unwords_Cons comp_def)

lemma format_config_records:
  "format_config debug dm ts =
     concat (map (\<lambda>r. nl (unwords r)) (policy_records debug dm ts)) @ nl (unwords (end_record ts))"
  by (simp add: format_config_def Let_def mask_list_def [symmetric] count_groups policy_records_def
      end_record_def dec_str_versions group_line_eq comp_def)

lemma is_record_policy: "r \<in> set (policy_records debug dm ts) \<Longrightarrow> is_record r"
  by (auto simp: policy_records_def is_record_def group_record_def is_token_def
      simp flip: is_token_def) (auto simp: is_token_def is_visible_def)

lemma is_record_end: "is_record (end_record ts)"
  by (simp add: end_record_def is_record_def) (simp add: is_token_def is_visible_def)


section \<open>Scanning written records\<close>

definition targets_of :: "(u32, u32) bmap \<Rightarrow> target list" where
  "targets_of m = map (\<lambda>(u, m). \<lparr>tg_uid = u, tg_hookmask = m\<rparr>) m"

lemma target_map_targets_of [simp]: "target_map (targets_of m) = m"
  by (simp add: target_map_def targets_of_def comp_def case_prod_beta')

lemma targets_of_target_map [simp]: "targets_of (target_map ts) = ts"
  by (simp add: target_map_def targets_of_def comp_def map_idI)

lemma length_targets_of [simp]: "length (targets_of m) = length m"
  by (simp add: targets_of_def)

lemma set_target_targets_of:
  "bt_wf m \<Longrightarrow> set_target (targets_of m) u h =
     (if bt_get m u = None \<and> MAX_TARGET_UIDS \<le> length m then None
      else Some (targets_of (bt_insert u h m)))"
  by (simp add: set_target_refines) (simp add: targets_of_def)

definition put_pairs :: "(u32 \<times> u32) list \<Rightarrow> (u32, u32) bmap \<Rightarrow> (u32, u32) bmap" where
  "put_pairs ps m = fold (\<lambda>(k, v). bt_insert k v) ps m"

lemma put_pairs_simps [simp]:
  "put_pairs [] m = m" "put_pairs ((k, v) # ps) m = put_pairs ps (bt_insert k v m)"
  "put_pairs (ps @ qs) m = put_pairs qs (put_pairs ps m)"
  by (simp_all add: put_pairs_def)

lemma bt_wf_put_pairs [simp]: "bt_wf m \<Longrightarrow> bt_wf (put_pairs ps m)"
  by (simp add: put_pairs_def bt_wf_of_list_aux)

lemma length_put_pairs_ge: "bt_wf m \<Longrightarrow> length m \<le> length (put_pairs ps m)"
proof (induction ps arbitrary: m)
  case Nil
  then show ?case by simp
next
  case (Cons p ps)
  then have "length (bt_insert (fst p) (snd p) m) \<le> length (put_pairs (p # ps) m)"
    by (cases p) simp
  moreover have "length m \<le> length (bt_insert (fst p) (snd p) m)"
    using Cons.prems by (simp add: length_bt_insert)
  ultimately show ?case by linarith
qed

text \<open>A scan state with a given table and count; everything else as in \<open>s\<close>.\<close>

definition at_table :: "config_scan \<Rightarrow> (u32, u32) bmap \<Rightarrow> nat \<Rightarrow> config_scan" where
  "at_table s m k = s\<lparr>cs_uids_seen := of_nat k, cs_cfg := (cs_cfg s)\<lparr>cfg_targets := targets_of m\<rparr>\<rparr>"

lemma scan_uids_step:
  assumes "bt_wf m" "\<not> (bt_get m u = None \<and> MAX_TARGET_UIDS \<le> length m)"
  shows "scan_uids h (hex_u32 u # toks) (at_table s m k) =
    scan_uids h toks (at_table s (bt_insert u h m) (Suc k))"
proof -
  have "set_target (targets_of m) u h = Some (targets_of (bt_insert u h m))"
    using assms by (auto simp: set_target_targets_of)
  then show ?thesis by (simp add: at_table_def add.commute)
qed

lemma scan_uids_hex:
  assumes "bt_wf m" "length (put_pairs (map (\<lambda>u. (u, h)) us) m) \<le> MAX_TARGET_UIDS"
  shows "scan_uids h (map hex_u32 us) (at_table s m k) =
    Some (at_table s (put_pairs (map (\<lambda>u. (u, h)) us) m) (k + length us))"
  using assms
proof (induction us arbitrary: m k)
  case Nil
  then show ?case by simp
next
  case (Cons u us)
  have fits: "\<not> (bt_get m u = None \<and> MAX_TARGET_UIDS \<le> length m)"
  proof
    assume "bt_get m u = None \<and> MAX_TARGET_UIDS \<le> length m"
    then have "MAX_TARGET_UIDS < length (bt_insert u h m)"
      using Cons.prems(1) by (simp add: length_bt_insert)
    also have "\<dots> \<le> length (put_pairs (map (\<lambda>u. (u, h)) us) (bt_insert u h m))"
      using Cons.prems(1) by (simp add: length_put_pairs_ge)
    finally show False using Cons.prems(2) by simp
  qed
  have "scan_uids h (map hex_u32 us) (at_table s (bt_insert u h m) (Suc k)) =
      Some (at_table s (put_pairs (map (\<lambda>u. (u, h)) us) (bt_insert u h m)) (Suc k + length us))"
    using Cons.prems by (intro Cons.IH) simp_all
  with scan_uids_step [OF Cons.prems(1) fits] show ?case
    by (simp del: scan_uids.simps)
qed

definition group_pairs :: "target list \<Rightarrow> u32 \<Rightarrow> (u32 \<times> u32) list" where
  "group_pairs ts m = map (\<lambda>u. (u, m)) (group_uids ts m)"

definition all_pairs :: "target list \<Rightarrow> (u32 \<times> u32) list" where
  "all_pairs ts = concat (map (group_pairs ts) (mask_list ts))"

lemma scan_record_unwords:
  "is_record r \<Longrightarrow> scan_lines (unwords r # ls) s =
     (case scan_record (unwords r) s of None \<Rightarrow> None | Some s' \<Rightarrow> scan_lines ls s')"
  by (simp add: significant_unwords)

lemma scan_group:
  assumes "bt_wf m" "length (put_pairs (group_pairs ts h) m) \<le> MAX_TARGET_UIDS"
  shows "scan_record (unwords (group_record ts h)) (at_table s m k) =
    Some (at_table s (put_pairs (group_pairs ts h) m) (k + length (group_pairs ts h)))"
proof -
  have "is_record (group_record ts h)"
    by (auto simp: group_record_def is_record_def) (simp add: is_token_def is_visible_def)
  then have "tokens (unwords (group_record ts h)) = ''targets'' # hex_u32 h # map hex_u32 (group_uids ts h)"
    by (metis tokens_record group_record_def)
  with scan_uids_hex [of m h "group_uids ts h" s k] assms show ?thesis
    by (simp add: scan_record_def group_pairs_def)
qed

lemma scan_groups:
  assumes "bt_wf m" "length (put_pairs (concat (map (group_pairs ts) hs)) m) \<le> MAX_TARGET_UIDS"
  shows "scan_lines (map (\<lambda>h. unwords (group_record ts h)) hs @ ls) (at_table s m k) =
    scan_lines ls (at_table s (put_pairs (concat (map (group_pairs ts) hs)) m)
      (k + length (concat (map (group_pairs ts) hs))))"
  using assms
proof (induction hs arbitrary: m k)
  case Nil
  then show ?case by simp
next
  case (Cons h hs)
  have r: "is_record (group_record ts h)"
    by (auto simp: group_record_def is_record_def) (simp add: is_token_def is_visible_def)
  have "length (put_pairs (group_pairs ts h) m) \<le> MAX_TARGET_UIDS"
    using Cons.prems length_put_pairs_ge [of "put_pairs (group_pairs ts h) m"]
    by (simp) (meson bt_wf_put_pairs le_trans)
  with Cons.prems have "scan_record (unwords (group_record ts h)) (at_table s m k) =
      Some (at_table s (put_pairs (group_pairs ts h) m) (k + length (group_pairs ts h)))"
    by (intro scan_group)
  with Cons r show ?case
    by (simp add: significant_unwords add.assoc)
qed



section \<open>Round trip\<close>

lemma set_all_pairs: "set (all_pairs ts) = set (target_map ts)"
  by (force simp: all_pairs_def group_pairs_def group_uids_def set_mask_list target_map_def)

lemma length_all_pairs: "length (all_pairs ts) = length ts"
  by (simp add: all_pairs_def group_pairs_def length_concat comp_def count_groups)

lemma distinct_all_pairs:
  assumes "distinct (map tg_uid ts)"
  shows "distinct (map fst (all_pairs ts))"
proof (rule card_distinct)
  have "card (set (map fst (all_pairs ts))) = card (tg_uid ` set ts)"
    by (simp add: set_all_pairs)
  also have "\<dots> = length ts"
    using distinct_card [OF assms] by simp
  finally show "card (set (map fst (all_pairs ts))) = length (map fst (all_pairs ts))"
    by (simp add: length_all_pairs)
qed

lemma put_all_pairs:
  assumes "distinct (map tg_uid ts)"
  shows "put_pairs (all_pairs ts) [] = target_map (sort_key tg_uid ts)"
proof (rule bt_ext)
  let ?S = "sort_key tg_uid ts"
  have d: "distinct (map tg_uid ?S)"
    using assms by (metis card_distinct distinct_card length_map length_sort list.set_map set_sort)
  then show wf: "bt_wf (target_map ?S)"
    using sorted_sort_key [of tg_uid ts]
    by (simp add: bt_wf_def target_map_def comp_def strict_sorted_iff)
  show "bt_wf (put_pairs (all_pairs ts) [])" by simp
  fix k
  have p: "distinct (map fst (rev (all_pairs ts)))"
    using distinct_all_pairs [OF assms] by (simp add: rev_map [symmetric])
  have "bt_get (put_pairs (all_pairs ts) []) k = bt_get (rev (all_pairs ts)) k"
    using bt_get_of_list [of "all_pairs ts" k] by (simp add: put_pairs_def bt_of_list_def)
  also have "\<dots> = bt_get (target_map ?S) k"
  proof -
    have "bt_get (rev (all_pairs ts)) k = Some v \<longleftrightarrow> bt_get (target_map ?S) k = Some v" for v
      using map_of_eq_Some_iff [OF p] bt_get_iff [OF wf]
      by (simp add: set_all_pairs) (simp add: target_map_def)
    then show ?thesis by (metis option.exhaust)
  qed
  finally show "bt_get (put_pairs (all_pairs ts) []) k = bt_get (target_map ?S) k" .
qed

lemma header_kind_config [simp]: "header_kind (unwords [''vpnhide'', ''2'', ''config'']) = Some Config"
  by code_simp

lemma scan_policy:
  assumes "length (put_pairs (all_pairs ts) []) \<le> MAX_TARGET_UIDS"
  shows "scan_lines (map unwords (tl (policy_records debug dm ts)) @ ls) init_scan =
    scan_lines ls
      (at_table (init_scan\<lparr>cs_cfg := \<lparr>cfg_debug = Some debug, cfg_default_mask = dm, cfg_targets = []\<rparr>\<rparr>)
        (put_pairs (all_pairs ts) []) (length ts))"
proof -
  let ?dbg = "[''debug'', if debug then ''1'' else ''0'']"
  let ?s = "init_scan\<lparr>cs_cfg := \<lparr>cfg_debug = Some debug, cfg_default_mask = dm, cfg_targets = []\<rparr>\<rparr>"
  have rd: "is_record ?dbg" and rm: "is_record [''default'', hex_u32 dm]"
    by (simp_all add: is_record_def) (simp_all add: is_token_def is_visible_def)
  have "tokens (unwords ?dbg) = ?dbg" "tokens (unwords [''default'', hex_u32 dm]) = [''default'', hex_u32 dm]"
    using tokens_record [OF rd] tokens_record [OF rm] by (simp_all only:)
  then have d: "scan_record (unwords ?dbg) init_scan =
        Some (init_scan\<lparr>cs_cfg := (cs_cfg init_scan)\<lparr>cfg_debug := Some debug\<rparr>\<rparr>)"
    and m: "scan_record (unwords [''default'', hex_u32 dm]) s =
        Some (s\<lparr>cs_cfg := (cs_cfg s)\<lparr>cfg_default_mask := dm\<rparr>\<rparr>)" for s
    unfolding scan_record_def by simp_all
  have "scan_lines (map unwords (tl (policy_records debug dm ts)) @ ls) init_scan =
      scan_lines (map (\<lambda>h. unwords (group_record ts h)) (mask_list ts) @ ls) (at_table ?s [] 0)"
    using d m significant_unwords [OF rd] significant_unwords [OF rm]
    by (simp add: policy_records_def comp_def init_scan_def at_table_def targets_of_def
        del: unwords.simps)
  with scan_groups [of "[]" ts "mask_list ts" ls ?s 0] assms show ?thesis
    by (simp add: all_pairs_def [symmetric] length_all_pairs)
qed

lemma scan_end:
  assumes "length ts < 2 ^ 32"
  shows "scan_lines [unwords (end_record ts)] s = Some (s\<lparr>cs_declared := Some (of_nat (length ts))\<rparr>)"
proof -
  have "tokens (unwords (end_record ts)) = end_record ts"
    by (rule tokens_record [OF is_record_end])
  then have "scan_record (unwords (end_record ts)) s =
      Some (s\<lparr>cs_declared := Some (of_nat (length ts))\<rparr>)"
    using assms by (simp add: scan_record_def end_record_def parse_hex_bare_nat del: unwords.simps)
  then show ?thesis
    by (simp add: significant_unwords is_record_end)
qed

lemma parse_header_format_config:
  "parse_header (format_config debug dm ts) =
     Some (Config, concat (map (\<lambda>r. nl (unwords r)) (tl (policy_records debug dm ts)))
                   @ nl (unwords (end_record ts)))"
proof -
  have "is_record [''vpnhide'', ''2'', ''config'']"
    by (simp add: is_record_def is_token_def is_visible_def)
  from parse_header_record [OF this] show ?thesis
    by (simp add: format_config_records policy_records_def del: unwords.simps)
qed

lemma parse_format_config:
  assumes "distinct (map tg_uid ts)" "length ts \<le> MAX_TARGET_UIDS"
  shows "parse_config (format_config debug dm ts) =
    Some \<lparr>cfg_debug = Some debug, cfg_default_mask = dm, cfg_targets = sort_key tg_uid ts\<rparr>"
proof -
  have put: "put_pairs (all_pairs ts) [] = target_map (sort_key tg_uid ts)"
    by (rule put_all_pairs [OF assms(1)])
  have recs: "\<forall>r \<in> set (tl (policy_records debug dm ts)). is_record r"
    using is_record_policy by (metis list.set_sel(2) list.sel(2) empty_iff list.set(1))
  have small: "length ts < 2 ^ 32"
    using assms(2) by (simp add: MAX_TARGET_UIDS_def)
  have "wire_lines (nl (unwords (end_record ts))) = [unwords (end_record ts)]"
    using wire_lines_record [OF is_record_end, of ts "[]"] by simp
  then show ?thesis
    using assms(2) small
    by (simp add: parse_config_def parse_header_format_config wire_lines_records_append [OF recs]
        scan_policy put scan_end del: scan_lines.simps) (simp add: at_table_def init_scan_def)
qed

text \<open>
  C5.  Writing a policy and reading it back is exact: for at most 160 distinct target uids the
  parsed config has the written debug flag and default mask, and the targets in ascending uid
  order, each with its mask.  Nothing is dropped, merged or invented.
\<close>

theorem config_roundtrip:
  assumes "distinct (map tg_uid ts)" "length ts \<le> MAX_TARGET_UIDS"
  shows "parse_config (format_config debug dm ts) =
    Some \<lparr>cfg_debug = Some debug, cfg_default_mask = dm, cfg_targets = sort_key tg_uid ts\<rparr>"
  using assms by (rule parse_format_config)

theorem config_roundtrip_witness:
  "parse_config (format_config False 3
      [\<lparr>tg_uid = 0x2947, tg_hookmask = 4\<rparr>, \<lparr>tg_uid = 0x27fa, tg_hookmask = 0x3ff\<rparr>]) =
   Some \<lparr>cfg_debug = Some False, cfg_default_mask = 3,
         cfg_targets = [\<lparr>tg_uid = 0x27fa, tg_hookmask = 0x3ff\<rparr>, \<lparr>tg_uid = 0x2947, tg_hookmask = 4\<rparr>]\<rparr>"
  using config_roundtrip
    [of "[\<lparr>tg_uid = 0x2947, tg_hookmask = 4\<rparr>, \<lparr>tg_uid = 0x27fa, tg_hookmask = 0x3ff\<rparr>]" False 3]
  by (simp add: MAX_TARGET_UIDS_def)



section \<open>Truncation fails closed\<close>

definition opens_end :: "bytes \<Rightarrow> bool" where
  "opens_end line = (\<exists>c ts. significant line = Some c \<and> tokens c = ''end'' # ts)"

lemma scan_uids_declared: "scan_uids m toks s = Some s' \<Longrightarrow> cs_declared s' = cs_declared s"
  by (induction toks arbitrary: s) (auto split: bind_splits)

lemma scan_record_declared:
  "scan_record c s = Some s' \<Longrightarrow> \<not> (\<exists>ts. tokens c = ''end'' # ts) \<Longrightarrow> cs_declared s' = cs_declared s"
  by (auto simp: scan_record_def split: list.splits if_splits option.splits dest: scan_uids_declared)

lemma scan_lines_declared:
  "scan_lines ls s = Some s' \<Longrightarrow> (\<forall>l \<in> set ls. \<not> opens_end l) \<Longrightarrow> cs_declared s' = cs_declared s"
proof (induction ls arbitrary: s)
  case Nil
  then show ?case by simp
next
  case (Cons l ls)
  then show ?case
    by (auto simp: opens_end_def split: option.splits dest: scan_record_declared)
qed

lemma parse_header_rest_lines:
  "parse_header buf = Some (k, rest) \<Longrightarrow> \<exists>ls. wire_lines buf = ls @ wire_lines rest"
proof (induction buf rule: parse_header.induct)
  case (1 buf)
  have ne: "buf \<noteq> []"
    using "1.prems" by (subst (asm) parse_header.simps) auto
  then have step: "wire_lines buf = drop_cr (fst (break_line buf)) # wire_lines (snd (break_line buf))"
    by (subst wire_lines.simps) simp
  show ?case
  proof (cases "is_ignorable (drop_cr (fst (break_line buf)))")
    case True
    then have "parse_header (snd (break_line buf)) = Some (k, rest)"
      using "1.prems" ne by (subst (asm) parse_header.simps) (simp add: Let_def)
    with "1.IH" [OF ne refl refl True] step show ?thesis by (metis append_Cons)
  next
    case False
    then have "rest = snd (break_line buf)"
      using "1.prems" ne
      by (subst (asm) parse_header.simps) (auto simp: Let_def split: bind_splits)
    with step show ?thesis by (metis append_Cons append_Nil)
  qed
qed

lemma no_end_rejected:
  assumes "\<forall>l \<in> set (wire_lines buf). \<not> opens_end l"
  shows "parse_config buf = None"
proof (cases "parse_header buf")
  case None
  then show ?thesis by (simp add: parse_config_def)
next
  case (Some p)
  obtain k rest where p: "p = (k, rest)" by force
  then obtain ls where "wire_lines buf = ls @ wire_lines rest"
    using parse_header_rest_lines Some by blast
  with assms have no: "\<forall>l \<in> set (wire_lines rest). \<not> opens_end l" by simp
  have "cs_declared s = None" if "scan_lines (wire_lines rest) init_scan = Some s" for s
    using scan_lines_declared [OF that no] by (simp add: init_scan_def)
  then show ?thesis
    using Some p by (auto simp: parse_config_def split: bind_splits)
qed

text \<open>The first character of a line decides whether it can be an \<^verbatim>\<open>end\<close> record.\<close>

lemma tokens_first_char:
  assumes "\<not> is_sep c" "tokens (c # cs) = t # ts"
  shows "hd t = c"
proof -
  obtain y ys where "split_on is_sep cs = y # ys"
    by (cases "split_on is_sep cs") auto
  with assms show ?thesis by (auto simp: tokens_def)
qed

lemma opens_end_first_char:
  assumes "\<not> is_sep c" "c \<noteq> CHR ''e''"
  shows "\<not> opens_end (c # cs)"
  using assms tokens_first_char [OF assms(1), of cs]
  by (auto simp: opens_end_def significant_def split: if_splits)

lemma opens_end_Nil: "\<not> opens_end []"
  by (simp add: opens_end_def significant_def)

text \<open>Every line of a prefix is a prefix of a line.\<close>

lemma lines_of_prefix:
  assumes "\<forall>l \<in> set ls. CHR 0x0A \<notin> set l \<and> CHR 0x0D \<notin> set l"
    "l' \<in> set (wire_lines (take n (concat (map nl ls))))"
  shows "\<exists>l \<in> set ls. \<exists>i. l' = take i l"
  using assms
proof (induction ls arbitrary: n)
  case Nil
  then show ?case by simp
next
  case (Cons l ls)
  have l: "CHR 0x0A \<notin> set l" "CHR 0x0D \<notin> set l" using Cons.prems(1) by auto
  show ?case
  proof (cases "n \<le> length l")
    case True
    then have t: "take n (concat (map nl (l # ls))) = take n l" by simp
    have "CHR 0x0A \<notin> set (take n l)" "CHR 0x0D \<notin> set (take n l)"
      using l by (auto dest: in_set_takeD)
    with Cons.prems(2) t have "l' = take n l"
      by (cases "take n l = []") (auto simp: wire_lines_last drop_cr_id simp del: take_eq_Nil)
    then show ?thesis by auto
  next
    case False
    then obtain k where k: "n = Suc (length l + k)"
      using less_iff_Suc_add not_le by blast
    then have "take n (concat (map nl (l # ls))) = l @ CHR 0x0A # take k (concat (map nl ls))"
      by simp
    with l Cons.prems(2) have "l' = l \<or> l' \<in> set (wire_lines (take k (concat (map nl ls))))"
      by (simp add: wire_lines_Cons drop_cr_id)
    then show ?thesis
      using Cons.IH [of k] Cons.prems(1) by (auto intro: exI [of _ "length l"])
  qed
qed

lemma policy_first_char:
  assumes "r \<in> set (policy_records debug dm ts)"
  shows "\<exists>c cs. unwords r = c # cs \<and> \<not> is_sep c \<and> c \<noteq> CHR ''e''"
  using assms by (auto simp: policy_records_def group_record_def is_sep_def)

lemma policy_line_not_end:
  assumes "r \<in> set (policy_records debug dm ts)"
  shows "\<not> opens_end (take i (unwords r))"
  using policy_first_char [OF assms] by (cases i) (auto simp: opens_end_Nil opens_end_first_char)

lemma hex_prefix_smaller:
  assumes "0 < i" "i < length (hex_str n)" "radix_acc 16 0 (take i (hex_str n)) = Some v"
  shows "v < n"
proof -
  obtain c cs where d: "drop i (hex_str n) = c # cs"
    using assms(2) by (cases "drop i (hex_str n)") auto
  have "radix_acc 16 0 (take i (hex_str n) @ drop i (hex_str n)) = Some n"
    by (simp only: append_take_drop_id) (simp add: radix_acc_radix_str)
  then have "radix_acc 16 v (c # cs) = Some n"
    unfolding radix_acc_append d assms(3) by simp
  then obtain e where "radix_acc 16 (v * 16 + e) cs = Some n"
    by (auto split: option.splits)
  then have "v * 16 \<le> n" using radix_acc_ge [of 16 "v * 16 + e" cs n] by simp
  moreover have "16 \<le> n"
  proof (rule ccontr)
    assume "\<not> 16 \<le> n"
    then have "length (hex_str n) = 1" by (subst radix_str.simps) simp
    with assms show False by simp
  qed
  ultimately show ?thesis by linarith
qed

lemma take_end_record:
  assumes "j < length (unwords (end_record ts))" "4 < j"
  obtains i where "take j (unwords (end_record ts)) = unwords [''end'', take i (hex_str (length ts))]"
    "0 < i" "i < length (hex_str (length ts))"
proof -
  have "unwords (end_record ts) = ''end '' @ hex_str (length ts)"
    by (simp add: end_record_def)
  with assms that [of "j - 4"] show ?thesis
    by (auto simp: take_Cons' numeral_eq_Suc)
qed

text \<open>Scanning a cut \<^verbatim>\<open>end\<close> line never declares the true count.\<close>

lemma scan_cut_end:
  assumes j: "j < length (unwords (end_record ts))" and n: "length ts < 2 ^ 32"
    and s: "cs_declared s = None"
    and scan: "scan_lines [take j (unwords (end_record ts))] s = Some s'"
  shows "cs_declared s' \<noteq> Some (of_nat (length ts)) \<and> cs_uids_seen s' = cs_uids_seen s"
proof (cases "4 < j")
  case True
  with j obtain i where i: "take j (unwords (end_record ts)) = unwords [''end'', take i (hex_str (length ts))]"
    "0 < i" "i < length (hex_str (length ts))"
    by (rule take_end_record)
  let ?t = "take i (hex_str (length ts))"
  have "is_token ?t"
    using i(2,3) is_token_hex(3) [of "length ts"] by (auto simp: is_token_def dest: in_set_takeD)
  then have r: "is_record [''end'', ?t]"
    by (simp add: is_record_def) (simp add: is_token_def is_visible_def)
  have "scan_record (unwords [''end'', ?t]) s = Some s'"
    using scan i(1) significant_unwords [OF r] by (simp del: unwords.simps split: option.splits)
  moreover have "tokens (unwords [''end'', ?t]) = [''end'', ?t]" by (rule tokens_record [OF r])
  ultimately have s': "s' = (case parse_hex_bare ?t 32 of None \<Rightarrow> s | Some v \<Rightarrow> s\<lparr>cs_declared := Some v\<rparr>)"
    by (simp add: scan_record_def del: unwords.simps split: option.splits)
  have "v \<noteq> of_nat (length ts)" if "parse_hex_bare ?t 32 = Some v" for v
  proof -
    from that i(2,3) obtain w where w: "radix_acc 16 0 ?t = Some w" "v = of_nat w"
      by (auto simp: parse_hex_bare_eq split: option.splits if_splits)
    from hex_prefix_smaller [OF i(2,3) w(1)] n w(2) of_nat_u64_inj [of w "length ts"]
    show ?thesis by auto
  qed
  with s s' show ?thesis by (auto split: option.splits)
next
  case False
  then consider "j = 0" | "j = 1" | "j = 2" | "j = 3" | "j = 4" by linarith
  then have "scan_lines [take j (unwords (end_record ts))] s = Some s"
    by cases (simp_all add: end_record_def significant_def tokens_def is_sep_def scan_record_def
        is_ascii_printable_def)
  with scan s show ?thesis by simp
qed


lemma scan_uids_seen:
  "scan_uids m toks s = Some s' \<Longrightarrow> cs_uids_seen s' = cs_uids_seen s + of_nat (length toks)"
  by (induction toks arbitrary: s) (auto split: bind_splits simp: algebra_simps)

lemma scan_lines_append:
  "scan_lines (xs @ ys) s = (case scan_lines xs s of None \<Rightarrow> None | Some s' \<Rightarrow> scan_lines ys s')"
  by (induction xs arbitrary: s) (auto split: option.splits)

lemma scan_lines_append_Some:
  assumes "scan_lines (xs @ ys) s = Some s'"
  obtains a where "scan_lines xs s = Some a" "scan_lines ys a = Some s'"
  using assms by (simp add: scan_lines_append split: option.splits)

lemma scan_lines_record_Some:
  assumes "is_record r" "scan_lines (unwords r # ls) s = Some s'"
  obtains a where "scan_record (unwords r) s = Some a" "scan_lines ls a = Some s'"
  using assms by (simp add: scan_record_unwords del: scan_lines.simps split: option.splits)

text \<open>However a table fills up, a scan that survives the written groups has counted every uid.\<close>

lemma scan_policy_seen:
  assumes "scan_lines (map unwords (tl (policy_records debug dm ts))) init_scan = Some s"
  shows "cs_uids_seen s = of_nat (length ts) \<and> cs_declared s = None"
proof -
  have grp: "scan_lines (map (\<lambda>h. unwords (group_record ts h)) hs) a = Some b \<Longrightarrow>
      cs_uids_seen b = cs_uids_seen a + of_nat (length (concat (map (group_pairs ts) hs)))" for hs a b
  proof (induction hs arbitrary: a)
    case Nil
    then show ?case by simp
  next
    case (Cons h hs)
    have r: "is_record (group_record ts h)"
      by (auto simp: group_record_def is_record_def) (simp add: is_token_def is_visible_def)
    then obtain c where c: "scan_record (unwords (group_record ts h)) a = Some c"
      "scan_lines (map (\<lambda>h. unwords (group_record ts h)) hs) c = Some b"
      using Cons.prems by (auto simp: significant_unwords split: option.splits)
    have "tokens (unwords (group_record ts h)) = ''targets'' # hex_u32 h # map hex_u32 (group_uids ts h)"
      using tokens_record [OF r] by (simp only: group_record_def)
    then have "cs_uids_seen c = cs_uids_seen a + of_nat (length (group_uids ts h))"
      using c(1) scan_uids_seen by (fastforce simp: scan_record_def)
    with Cons.IH [OF c(2)] show ?case by (simp add: group_pairs_def)
  qed
  have seen: "scan_record (unwords r) a = Some b \<Longrightarrow> cs_uids_seen b = cs_uids_seen a"
    if "is_record r" "hd r \<noteq> ''targets''" for r a b
    using that tokens_record [OF that(1)]
    by (cases r) (auto simp: scan_record_def split: list.splits if_splits option.splits)
  have rd: "is_record [''debug'', if debug then ''1'' else ''0'']" "is_record [''default'', hex_u32 dm]"
    by (simp_all add: is_record_def) (simp_all add: is_token_def is_visible_def)
  let ?g = "map (\<lambda>h. unwords (group_record ts h)) (mask_list ts)"
  let ?df = "if dm \<noteq> 0 then [unwords [''default'', hex_u32 dm]] else []"
  have "map unwords (tl (policy_records debug dm ts)) =
      unwords [''debug'', if debug then ''1'' else ''0''] # ?df @ ?g"
    by (simp add: policy_records_def comp_def del: unwords.simps)
  then have "scan_lines (unwords [''debug'', if debug then ''1'' else ''0''] # ?df @ ?g) init_scan = Some s"
    using assms by (simp only:)
  then obtain a where a: "scan_record (unwords [''debug'', if debug then ''1'' else ''0'']) init_scan = Some a"
    "scan_lines (?df @ ?g) a = Some s"
    by (rule scan_lines_record_Some [OF rd(1)])
  from a(2) obtain b where b: "scan_lines ?df a = Some b" "scan_lines ?g b = Some s"
    by (rule scan_lines_append_Some)
  have "cs_uids_seen b = cs_uids_seen a"
  proof (cases "dm = 0")
    case False
    then have "scan_record (unwords [''default'', hex_u32 dm]) a = Some b"
      using b(1) scan_record_unwords [OF rd(2), of "[]" a]
      by (simp del: unwords.simps split: option.splits)
    with seen [OF rd(2)] show ?thesis by simp
  qed (use b in simp)
  moreover have "cs_uids_seen a = cs_uids_seen init_scan"
    using seen [OF rd(1) _ a(1)] by simp
  ultimately have "cs_uids_seen s = cs_uids_seen init_scan + of_nat (length (all_pairs ts))"
    using grp [OF b(2)] by (simp add: all_pairs_def)
  moreover have "cs_declared s = None"
  proof -
    have "\<not> opens_end (unwords r)" if "r \<in> set (policy_records debug dm ts)" for r
      using policy_line_not_end [OF that, of "length (unwords r)"] by simp
    moreover have "set (tl (policy_records debug dm ts)) \<subseteq> set (policy_records debug dm ts)"
      by (simp add: policy_records_def subset_insertI)
    ultimately have "\<forall>l \<in> set (map unwords (tl (policy_records debug dm ts))). \<not> opens_end l"
      by (auto simp del: unwords.simps)
    from scan_lines_declared [OF assms this] show ?thesis by (simp add: init_scan_def)
  qed
  ultimately show ?thesis by (simp add: init_scan_def length_all_pairs)
qed


text \<open>
  C4.  A cut payload fails closed.  Whatever proper prefix of a written policy arrives (only the
  final newline may be missing), \<open>parse_config\<close> rejects it: a truncated target list is never
  applied as a smaller policy.
\<close>

theorem truncated_config_rejected:
  assumes n: "n + 1 < length (format_config debug dm ts)" and ts: "length ts < 2 ^ 32"
  shows "parse_config (take n (format_config debug dm ts)) = None"
proof -
  let ?pre = "concat (map nl (map unwords (policy_records debug dm ts)))"
  let ?e = "unwords (end_record ts)"
  have fmt: "format_config debug dm ts = ?pre @ nl ?e"
    by (simp add: format_config_records comp_def)
  have clean: "\<forall>l \<in> set (map unwords (policy_records debug dm ts)). CHR 0x0A \<notin> set l \<and> CHR 0x0D \<notin> set l"
    using unwords_printable(2,3) is_record_policy by fastforce
  show ?thesis
  proof (cases "n \<le> length ?pre")
    case True
    then have "take n (format_config debug dm ts) = take n ?pre" by (simp add: fmt)
    moreover have "\<not> opens_end l" if "l \<in> set (wire_lines (take n ?pre))" for l
      using lines_of_prefix [OF clean that] policy_line_not_end by auto
    ultimately show ?thesis using no_end_rejected by simp
  next
    case False
    then obtain j where j: "n = length ?pre + j" "0 < j"
      by (metis add_diff_inverse_nat less_imp_le_nat not_le zero_less_diff)
    with n have je: "j < length ?e" by (simp add: fmt)
    have ej: "CHR 0x0A \<notin> set (take j ?e)" "CHR 0x0D \<notin> set (take j ?e)" "take j ?e \<noteq> []"
      using unwords_printable(2,3) [OF is_record_end, of _ ts] je j(2) by (auto dest: in_set_takeD)
    have "take n (format_config debug dm ts) = ?pre @ take j ?e"
      using j je by (simp add: fmt)
    also have "\<dots> = nl (unwords [''vpnhide'', ''2'', ''config''])
        @ concat (map (\<lambda>r. nl (unwords r)) (tl (policy_records debug dm ts))) @ take j ?e"
      by (simp add: policy_records_def comp_def del: unwords.simps)
    finally have cut: "take n (format_config debug dm ts) = nl (unwords [''vpnhide'', ''2'', ''config''])
        @ concat (map (\<lambda>r. nl (unwords r)) (tl (policy_records debug dm ts))) @ take j ?e" .
    have hdr: "is_record [''vpnhide'', ''2'', ''config'']"
      by (simp add: is_record_def is_token_def is_visible_def)
    have recs: "\<forall>r \<in> set (tl (policy_records debug dm ts)). is_record r"
      using is_record_policy by (metis list.set_sel(2) list.sel(2) empty_iff list.set(1))
    have lines: "wire_lines (concat (map (\<lambda>r. nl (unwords r)) (tl (policy_records debug dm ts))) @ take j ?e) =
        map unwords (tl (policy_records debug dm ts)) @ [take j ?e]"
      using ej by (simp add: wire_lines_records_append [OF recs] wire_lines_last drop_cr_id)
    have "cs_declared s \<noteq> Some (cs_uids_seen s)"
      if "scan_lines (map unwords (tl (policy_records debug dm ts)) @ [take j ?e]) init_scan = Some s" for s
    proof -
      from that obtain a where a: "scan_lines (map unwords (tl (policy_records debug dm ts))) init_scan = Some a"
        "scan_lines [take j ?e] a = Some s"
        by (rule scan_lines_append_Some)
      from scan_policy_seen [OF a(1)] scan_cut_end [OF je ts _ a(2)] show ?thesis by simp
    qed
    moreover have "parse_header (take n (format_config debug dm ts)) = Some (Config,
        concat (map (\<lambda>r. nl (unwords r)) (tl (policy_records debug dm ts))) @ take j ?e)"
      unfolding cut parse_header_record [OF hdr] header_kind_config by simp
    ultimately show ?thesis
      by (auto simp: parse_config_def lines simp del: scan_lines.simps split: bind_splits)
  qed
qed


theorem truncated_config_rejected_witness:
  "parse_config (take 30 (format_config True 0 [\<lparr>tg_uid = 0x2947, tg_hookmask = 4\<rparr>])) = None"
proof (rule truncated_config_rejected)
  show "30 + 1 < length (format_config True 0 [\<lparr>tg_uid = 0x2947, tg_hookmask = 4\<rparr>])"
    by code_simp
qed simp


section \<open>What any accepted payload satisfies\<close>

text \<open>
  The table stays sorted, duplicate free and within its capacity whatever bytes arrive, because
  \<open>set_target\<close> is the only writer.
\<close>

lemma targets_wf_set_target:
  assumes "targets_wf ts" "set_target ts u h = Some ts'"
  shows "targets_wf ts'"
  using assms set_target_targets_of [of "target_map ts" u h]
  by (auto simp: targets_wf_def length_bt_insert split: if_splits)

lemma targets_wf_scan_uids:
  "targets_wf (cfg_targets (cs_cfg s)) \<Longrightarrow> scan_uids m toks s = Some s' \<Longrightarrow>
   targets_wf (cfg_targets (cs_cfg s'))"
proof (induction toks arbitrary: s)
  case Nil
  then show ?case by simp
next
  case (Cons t toks)
  from Cons.prems(2) obtain u ts where st: "set_target (cfg_targets (cs_cfg s)) (ucast (u :: u64)) m = Some ts"
    "scan_uids m toks (s\<lparr>cs_uids_seen := cs_uids_seen s + 1, cs_cfg := (cs_cfg s)\<lparr>cfg_targets := ts\<rparr>\<rparr>) = Some s'"
    by (auto split: bind_splits)
  from targets_wf_set_target [OF Cons.prems(1) st(1)] show ?case
    by (intro Cons.IH [OF _ st(2)]) simp
qed

lemma targets_wf_scan_record:
  "targets_wf (cfg_targets (cs_cfg s)) \<Longrightarrow> scan_record c s = Some s' \<Longrightarrow>
   targets_wf (cfg_targets (cs_cfg s'))"
  by (auto simp: scan_record_def split: list.splits if_splits option.splits dest: targets_wf_scan_uids)

lemma targets_wf_scan_lines:
  "targets_wf (cfg_targets (cs_cfg s)) \<Longrightarrow> scan_lines ls s = Some s' \<Longrightarrow>
   targets_wf (cfg_targets (cs_cfg s'))"
  by (induction ls arbitrary: s) (auto split: option.splits dest: targets_wf_scan_record)

lemma parse_config_targets_wf:
  assumes "parse_config buf = Some c"
  shows "targets_wf (cfg_targets c)"
proof -
  from assms obtain rest s where "scan_lines (wire_lines rest) init_scan = Some s" "c = cs_cfg s"
    by (auto simp: parse_config_def split: bind_splits if_splits)
  moreover have "targets_wf (cfg_targets (cs_cfg init_scan))"
    by (simp add: init_scan_def targets_wf_def target_map_def bt_wf_def)
  ultimately show ?thesis using targets_wf_scan_lines by blast
qed

lemma format_two_targets:
  "parse_config (format_config False 3
      [\<lparr>tg_uid = 0x2947, tg_hookmask = 4\<rparr>, \<lparr>tg_uid = 0x27fa, tg_hookmask = 0x3ff\<rparr>]) =
   Some \<lparr>cfg_debug = Some False, cfg_default_mask = 3,
         cfg_targets = [\<lparr>tg_uid = 0x27fa, tg_hookmask = 0x3ff\<rparr>, \<lparr>tg_uid = 0x2947, tg_hookmask = 4\<rparr>]\<rparr>"
  using parse_format_config
    [of "[\<lparr>tg_uid = 0x2947, tg_hookmask = 4\<rparr>, \<lparr>tg_uid = 0x27fa, tg_hookmask = 0x3ff\<rparr>]" False 3]
  by (simp add: MAX_TARGET_UIDS_def)

text \<open>
   Whatever bytes are accepted, the resulting target table is strictly ascending in uid and
  holds at most 160 entries, so the kernel hooks may binary-search it.
\<close>

theorem parsed_config_table:
  assumes "parse_config buf = Some c"
  shows "sorted_wrt (\<lambda>a b. tg_uid a < tg_uid b) (cfg_targets c) \<and> length (cfg_targets c) \<le> MAX_TARGET_UIDS"
  using parse_config_targets_wf [OF assms]
  by (simp add: targets_wf_def bt_wf_def target_map_def sorted_wrt_map comp_def)

theorem parsed_config_table_witness:
  "sorted_wrt (\<lambda>a b. tg_uid a < tg_uid b)
     [\<lparr>tg_uid = 0x27fa, tg_hookmask = 0x3ff\<rparr>, \<lparr>tg_uid = 0x2947, tg_hookmask = 4\<rparr>]
   \<and> length [\<lparr>tg_uid = 0x27fa, tg_hookmask = 0x3ff\<rparr>, \<lparr>tg_uid = 0x2947, tg_hookmask = 4\<rparr>] \<le> MAX_TARGET_UIDS"
  using parsed_config_table [OF format_two_targets] by simp

end
