(* ===== verification/Zygisk_Activation.thy ===== *)
theory Zygisk_Activation
  imports Config_Wire
begin

text \<open>
  The authorization envelope Core publishes for the bundled Zygisk image
  (\<^verbatim>\<open>crates/protocol/src/zygisk_activation.rs\<close>): which manifest may receive one, and the envelope's
  encoder, decoder and policy gate.  The envelope binds a control payload to one boot and one
  generation.
\<close>

section \<open>Definitions\<close>

definition MAX_BYTES :: nat where
  "MAX_BYTES = 64 * 1024"

definition MANAGED_MODULE_ID :: string where
  "MANAGED_MODULE_ID = ''vpnhide_zygisk_runtime''"

definition PROJECTION_PROTOCOL :: u32 where
  "PROJECTION_PROTOCOL = 1"

definition MAX_MODULE_PROP_BYTES :: nat where
  "MAX_MODULE_PROP_BYTES = 8192"

definition HEADER :: string where
  "HEADER = ''vpnhide zygisk-activation 1''"

datatype recipient = Legacy | Authorized | Managed

record manifest_slots =
  ms_id :: "string option"
  ms_control :: "string option"
  ms_activation :: "string option"
  ms_projection :: "string option"

text \<open>One \<^verbatim>\<open>key=value\<close> line; \<open>None\<close> is a repeated key.\<close>

definition manifest_line :: "string \<Rightarrow> manifest_slots \<Rightarrow> manifest_slots option" where
  "manifest_line line m =
     (case split_once CHR ''='' line of
        None \<Rightarrow> Some m
      | Some (key, val) \<Rightarrow>
          if key = ''id'' then
            (if ms_id m \<noteq> None then None else Some (m\<lparr>ms_id := Some val\<rparr>))
          else if key = ''vpnhideControl'' then
            (if ms_control m \<noteq> None then None else Some (m\<lparr>ms_control := Some val\<rparr>))
          else if key = ''vpnhideActivation'' then
            (if ms_activation m \<noteq> None then None else Some (m\<lparr>ms_activation := Some val\<rparr>))
          else if key = ''vpnhideProjection'' then
            (if ms_projection m \<noteq> None then None else Some (m\<lparr>ms_projection := Some val\<rparr>))
          else Some m)"

fun manifest_lines :: "string list \<Rightarrow> manifest_slots \<Rightarrow> manifest_slots option" where
  "manifest_lines [] m = Some m"
| "manifest_lines (l # ls) m = do { m' \<leftarrow> manifest_line l m; manifest_lines ls m' }"

definition starts_with :: "string \<Rightarrow> string \<Rightarrow> bool" where
  "starts_with p s = (strip_prefix p s \<noteq> None)"

definition recipient_of_slots :: "manifest_slots \<Rightarrow> recipient option" where
  "recipient_of_slots m =
     (if m = \<lparr>ms_id = Some ''vpnhide_zygisk'', ms_control = Some ''2'', ms_activation = None, ms_projection = None\<rparr>
      then Some Legacy
      else if m = \<lparr>ms_id = Some ''vpnhide_core'', ms_control = Some ''2'', ms_activation = Some ''1'', ms_projection = None\<rparr>
      then Some Authorized
      else if m = \<lparr>ms_id = Some MANAGED_MODULE_ID, ms_control = Some ''2'', ms_activation = Some ''1'', ms_projection = Some ''1''\<rparr>
      then Some Managed
      else None)"

definition recipient_from_manifest :: "bytes \<Rightarrow> recipient option" where
  "recipient_from_manifest buf =
     (if MAX_MODULE_PROP_BYTES < length buf then None
      else do {
        manifest \<leftarrow> from_utf8 buf;
        m \<leftarrow> manifest_lines (filter (\<lambda>l. \<not> starts_with ''#'' l) (map trim (str_lines manifest)))
               \<lparr>ms_id = None, ms_control = None, ms_activation = None, ms_projection = None\<rparr>;
        recipient_of_slots m
      })"

record authorization =
  au_boot_id :: string
  au_generation :: u64
  au_wire :: string

definition valid_boot :: "string \<Rightarrow> bool" where
  "valid_boot v =
     (length v = 36 \<and>
      list_all (\<lambda>(i, c). if i \<in> {8, 13, 18, 23} then c = CHR ''-''
                         else is_ascii_digit c \<or> byte_in c 97 102)
        (List.enumerate 0 v))"

definition encode :: "authorization \<Rightarrow> string option" where
  "encode a =
     (if \<not> valid_boot (au_boot_id a) \<or> au_generation a = 0 \<or> parse_config (au_wire a) = None then None
      else let v = HEADER @ [CHR 0x0A] @ ''boot '' @ au_boot_id a @ [CHR 0x0A]
                   @ ''generation '' @ dec_str (unat (au_generation a)) @ [CHR 0x0A] @ au_wire a
           in if length v \<le> MAX_BYTES then Some v else None)"

text \<open>\<^verbatim>\<open>str::splitn\<close>: at most \<open>n\<close> pieces, the last one the unsplit remainder.\<close>

fun splitn :: "nat \<Rightarrow> char \<Rightarrow> string \<Rightarrow> string list" where
  "splitn 0 c s = []"
| "splitn (Suc 0) c s = [s]"
| "splitn (Suc (Suc n)) c s =
     (case split_once c s of None \<Rightarrow> [s] | Some (a, b) \<Rightarrow> a # splitn (Suc n) c b)"

definition decode :: "bytes \<Rightarrow> string \<Rightarrow> authorization option" where
  "decode buf current_boot =
     (if MAX_BYTES < length buf \<or> \<not> valid_boot current_boot then None
      else do {
        text \<leftarrow> from_utf8 buf;
        case splitn 4 CHR 0x0A text of
          [h, b, g, wire] \<Rightarrow>
            if h \<noteq> HEADER then None
            else do {
              boot \<leftarrow> strip_prefix ''boot '' b;
              if boot \<noteq> current_boot then None
              else do {
                raw_generation \<leftarrow> strip_prefix ''generation '' g;
                generation \<leftarrow> from_str_radix 64 10 raw_generation;
                if generation = 0 \<or> dec_str generation \<noteq> raw_generation then None
                else do {
                  c \<leftarrow> parse_config wire;
                  Some \<lparr>au_boot_id = boot, au_generation = of_nat generation, au_wire = wire\<rparr>
                }
              }
            }
        | _ \<Rightarrow> None
      })"

definition policy :: "authorization \<Rightarrow> u32 \<Rightarrow> config option" where
  "policy a allowed_hooks =
     do {
       c \<leftarrow> parse_config (au_wire a);
       if cfg_default_mask c \<noteq> 0 \<or> list_ex (\<lambda>t. and (tg_hookmask t) (not allowed_hooks) \<noteq> 0) (cfg_targets c)
       then None else Some c
     }"

definition matches :: "authorization \<Rightarrow> u64 \<Rightarrow> string \<Rightarrow> bool" where
  "matches a generation wire = (au_generation a = generation \<and> au_wire a = wire)"


section \<open>The envelope is canonical\<close>

lemma split_once_iff:
  "split_once c s = Some (a, b) \<longleftrightarrow> s = a @ c # b \<and> c \<notin> set a"
  using split_once_append [of c a b] split_once_SomeD [of c s a b] by auto

lemma splitn_4:
  "splitn 4 c s = [p, q, r, t] \<longleftrightarrow> s = p @ c # q @ c # r @ c # t \<and> c \<notin> set p \<and> c \<notin> set q \<and> c \<notin> set r"
proof
  assume "splitn 4 c s = [p, q, r, t]"
  then show "s = p @ c # q @ c # r @ c # t \<and> c \<notin> set p \<and> c \<notin> set q \<and> c \<notin> set r"
    by (auto simp: numeral_eq_Suc split_once_iff split: option.splits)
next
  assume "s = p @ c # q @ c # r @ c # t \<and> c \<notin> set p \<and> c \<notin> set q \<and> c \<notin> set r"
  then show "splitn 4 c s = [p, q, r, t]"
    by (simp add: numeral_eq_Suc split_once_append)
qed

lemma valid_boot_no_newline: "valid_boot v \<Longrightarrow> CHR 0x0A \<notin> set v"
proof
  assume v: "valid_boot v" "CHR 0x0A \<in> set v"
  then obtain i where "i < length v" "v ! i = CHR 0x0A" by (auto simp: in_set_conv_nth)
  then have "(i, CHR 0x0A) \<in> set (List.enumerate 0 v)"
    by (auto simp: in_set_enumerate_eq)
  with v(1) show False
    by (auto simp: valid_boot_def list_all_iff is_ascii_digit_def split: if_splits)
qed

lemma dec_str_no_newline: "CHR 0x0A \<notin> set (dec_str n)"
  using radix_str_alnum [of 10 _ n] by (auto simp: is_alnum_char_def Let_def dest!: meta_spec [of _ "CHR 0x0A"])

lemma split_envelope:
  assumes "valid_boot boot"
  shows "splitn 4 CHR 0x0A text = [HEADER, ''boot '' @ boot, ''generation '' @ dec_str g, wire] \<longleftrightarrow>
    text = HEADER @ [CHR 0x0A] @ ''boot '' @ boot @ [CHR 0x0A] @ ''generation '' @ dec_str g @ [CHR 0x0A] @ wire"
  unfolding splitn_4 using valid_boot_no_newline [OF assms] dec_str_no_newline [of g]
  by (auto simp: HEADER_def)


lemma from_str_radix_less: "from_str_radix w b s = Some n \<Longrightarrow> n < 2 ^ w"
  by (auto simp: from_str_radix_def Let_def split: if_splits option.splits)

lemma decode_encode:
  assumes "encode a = Some buf" "utf8_ok buf"
  shows "decode buf (au_boot_id a) = Some a"
proof -
  have ok: "valid_boot (au_boot_id a)" "au_generation a \<noteq> 0" "length buf \<le> MAX_BYTES"
    and buf: "buf = HEADER @ [CHR 0x0A] @ ''boot '' @ au_boot_id a @ [CHR 0x0A]
      @ ''generation '' @ dec_str (unat (au_generation a)) @ [CHR 0x0A] @ au_wire a"
    and wire: "parse_config (au_wire a) \<noteq> None"
    using assms(1) by (auto simp: encode_def Let_def split: if_splits)
  from buf split_envelope [OF ok(1)]
  have s: "splitn 4 CHR 0x0A buf = [HEADER, ''boot '' @ au_boot_id a,
      ''generation '' @ dec_str (unat (au_generation a)), au_wire a]"
    by (simp only:)
  have "from_str_radix 64 10 (dec_str (unat (au_generation a))) = Some (unat (au_generation a))"
    using unat_lt_u64 by (intro from_str_radix_radix_str) simp_all
  moreover have "unat (au_generation a) \<noteq> 0" using ok(2) by (simp add: unsigned_eq_0_iff)
  ultimately show ?thesis
    using ok wire assms(2) by (auto simp: decode_def from_utf8_def s simp del: append.simps split: bind_splits)
qed

lemma encode_decode:
  assumes "decode buf boot = Some a"
  shows "encode a = Some buf \<and> boot = au_boot_id a \<and> utf8_ok buf"
proof -
  from assms have utf: "utf8_ok buf" and len: "length buf \<le> MAX_BYTES" and vb: "valid_boot boot"
    by (auto simp: decode_def from_utf8_def split: if_splits)
  from assms obtain h b g wire where s: "splitn 4 CHR 0x0A buf = [h, b, g, wire]"
    by (auto simp: decode_def from_utf8_def split: if_splits list.splits)
  from assms obtain n where n: "h = HEADER" "b = ''boot '' @ boot" "g = ''generation '' @ dec_str n"
    "from_str_radix 64 10 (dec_str n) = Some n" "n \<noteq> 0" "parse_config wire \<noteq> None"
    "a = \<lparr>au_boot_id = boot, au_generation = of_nat n, au_wire = wire\<rparr>"
    by (auto simp: decode_def from_utf8_def s split: bind_splits if_splits dest!: strip_prefix_SomeD)
  have small: "n < 2 ^ 64" using n(4) by (rule from_str_radix_less)
  then have "unat (of_nat n :: u64) = n" by (simp add: unat_of_nat)
  moreover have "buf = HEADER @ [CHR 0x0A] @ ''boot '' @ boot @ [CHR 0x0A] @ ''generation '' @ dec_str n @ [CHR 0x0A] @ wire"
    using s split_envelope [OF vb] by (simp only: n)
  moreover have "(of_nat n :: u64) \<noteq> 0"
    using small n(5) by (metis calculation(1) unat_0)
  ultimately show ?thesis
    using n(6) vb len utf by (simp add: encode_def Let_def n(7))
qed

text \<open>
  C26.  The envelope reader accepts exactly what the writer produces: bytes decode under a boot id
  if and only if they are the encoding of the decoded authorization, for that very boot.  No other
  spelling, no other boot and no zero generation is accepted, and nothing is altered in transit.
\<close>

theorem authorization_codec:
  "decode buf boot = Some a \<longleftrightarrow> encode a = Some buf \<and> boot = au_boot_id a \<and> utf8_ok buf"
  using decode_encode encode_decode by blast

interpretation envelope: partial_codec "\<lambda>a. the (encode a)" "\<lambda>buf. decode buf boot"
    "\<lambda>a. au_boot_id a = boot \<and> (\<exists>buf. encode a = Some buf \<and> utf8_ok buf)" for boot
  by unfold_locales (use decode_encode in auto)

text \<open>
   Consuming an authorization never widens it: the policy handed to a process is the enclosed
  payload itself, for at most 160 uids, with no default mask and no hook outside the image's own.
\<close>

theorem policy_within_image:
  assumes "policy a allowed = Some c"
  shows "parse_config (au_wire a) = Some c \<and> cfg_default_mask c = 0
    \<and> length (cfg_targets c) \<le> MAX_TARGET_UIDS
    \<and> (\<forall>t \<in> set (cfg_targets c). \<forall>n < 32. bit (tg_hookmask t) n \<longrightarrow> bit allowed n)"
proof -
  from assms have c: "parse_config (au_wire a) = Some c" "cfg_default_mask c = 0"
    "\<forall>t \<in> set (cfg_targets c). and (tg_hookmask t) (not allowed) = 0"
    by (auto simp: policy_def list_ex_iff split: bind_splits if_splits)
  have "bit allowed n" if "t \<in> set (cfg_targets c)" "n < 32" "bit (tg_hookmask t) n" for t n
  proof -
    have "\<not> bit (and (tg_hookmask t) (not allowed)) n" using c(3) that(1) by simp
    with that show ?thesis by (simp add: bit_simps)
  qed
  with c parse_config_targets_wf [OF c(1)] show ?thesis by (auto simp: targets_wf_def)
qed


theorem policy_within_image_witness:
  "let a = \<lparr>au_boot_id = ''00000000-0000-0000-0000-000000000000'', au_generation = 4,
            au_wire = format_config True 0 [\<lparr>tg_uid = 0x2947, tg_hookmask = 0x40000\<rparr>]\<rparr>;
       c = \<lparr>cfg_debug = Some True, cfg_default_mask = 0, cfg_targets = [\<lparr>tg_uid = 0x2947, tg_hookmask = 0x40000\<rparr>]\<rparr>
   in policy a ZYGISK_HOOK_MASK = Some c \<and> parse_config (au_wire a) = Some c
      \<and> length (cfg_targets c) \<le> MAX_TARGET_UIDS"
proof -
  have "parse_config (format_config True 0 [\<lparr>tg_uid = 0x2947, tg_hookmask = 0x40000\<rparr>]) =
      Some \<lparr>cfg_debug = Some True, cfg_default_mask = 0, cfg_targets = [\<lparr>tg_uid = 0x2947, tg_hookmask = 0x40000\<rparr>]\<rparr>"
    using parse_format_config [of "[\<lparr>tg_uid = 0x2947, tg_hookmask = 0x40000\<rparr>]" True 0]
    by (simp add: MAX_TARGET_UIDS_def)
  then have p: "policy \<lparr>au_boot_id = ''00000000-0000-0000-0000-000000000000'', au_generation = 4,
            au_wire = format_config True 0 [\<lparr>tg_uid = 0x2947, tg_hookmask = 0x40000\<rparr>]\<rparr> ZYGISK_HOOK_MASK =
      Some \<lparr>cfg_debug = Some True, cfg_default_mask = 0, cfg_targets = [\<lparr>tg_uid = 0x2947, tg_hookmask = 0x40000\<rparr>]\<rparr>"
    by (simp add: policy_def ZYGISK_HOOK_MASK_def)
  from p policy_within_image [OF p] show ?thesis unfolding Let_def by blast
qed

end
