(* ===== verification/Package_Inventory.thy ===== *)
theory Package_Inventory
  imports Ordered_Maps
begin

text \<open>
  PackageManager text observations (\<^verbatim>\<open>crates/native-policy/src/package_inventory.rs\<close>): package rows,
  the uid map Core resolves targets with, and the per-user display inventory with its completeness
  markers.
\<close>

section \<open>Definitions\<close>

definition PM_USERS_STATUS :: string where
  "PM_USERS_STATUS = ''__VPNHIDE_PM_USERS_STATUS__:''"

definition PM_USER_BEGIN :: string where
  "PM_USER_BEGIN = ''__VPNHIDE_PM_USER_BEGIN__:''"

definition PM_USER_END :: string where
  "PM_USER_END = ''__VPNHIDE_PM_USER_END__:''"

definition MAX_OBSERVATION_BYTES :: nat where
  "MAX_OBSERVATION_BYTES = 32 * 1024 * 1024"

definition UIDS_PER_USER :: u32 where
  "UIDS_PER_USER = 100000"

record package_row =
  pr_package_name :: string
  pr_apk_path :: "string option"
  pr_uids :: "u32 list"

text \<open>\<^verbatim>\<open>str::rsplit_once\<close> with a string pattern.\<close>

fun rsplit_once_str :: "string \<Rightarrow> string \<Rightarrow> (string \<times> string) option" where
  "rsplit_once_str p [] = map_option (Pair []) (strip_prefix p [])"
| "rsplit_once_str p (c # cs) =
     (case rsplit_once_str p cs of
        Some (a, b) \<Rightarrow> Some (c # a, b)
      | None \<Rightarrow> map_option (Pair []) (strip_prefix p (c # cs)))"

text \<open>\<^verbatim>\<open>str::parse::<u32>\<close> restricted to nonnegative 32-bit signed values.\<close>

definition parse_u32 :: "string \<Rightarrow> u32 option" where
  "parse_u32 s = map_option of_nat (from_str_radix 32 10 s)"

definition parse_uid :: "string \<Rightarrow> u32 option" where
  "parse_uid s = do { v \<leftarrow> parse_u32 s; if v \<le> 0x7FFFFFFF then Some v else None }"

definition parse_package_row :: "string \<Rightarrow> package_row option" where
  "parse_package_row line =
     do {
       body \<leftarrow> strip_prefix ''package:'' (trim line);
       (pkg, uids) \<leftarrow> rsplit_once_str '' uid:'' body;
       let package = trim pkg;
       let (path, name) =
         (case rsplit_once CHR ''='' package of
            None \<Rightarrow> (None, package)
          | Some (p, n) \<Rightarrow> (if trim p = [] then None else Some (trim p), trim n));
       if name = [] then None
       else do {
         let us = bs_of_list (List.map_filter (\<lambda>v. parse_uid (trim v)) (split_on (\<lambda>c. c = CHR '','') uids));
         if us = [] then None
         else Some \<lparr>pr_package_name = name, pr_apk_path = path, pr_uids = us\<rparr>
       }
     }"

datatype inventory_error = InputTooLarge

definition bounded :: "string \<Rightarrow> inventory_error + unit" where
  "bounded raw = (if MAX_OBSERVATION_BYTES < length raw then Inl InputTooLarge else Inr ())"

definition pm_lines :: "string \<Rightarrow> string list" where
  "pm_lines raw = split_on (\<lambda>c. c = CHR 0x0A \<or> c = CHR 0x0D) raw"

definition add_row :: "package_row \<Rightarrow> (string, u32 list) bmap \<Rightarrow> (string, u32 list) bmap" where
  "add_row r m = bt_update (pr_package_name r) [] (fold bs_insert (pr_uids r)) m"

definition parse_uid_map :: "string \<Rightarrow> inventory_error + (string, u32 list) bmap" where
  "parse_uid_map raw =
     (case bounded raw of
        Inl e \<Rightarrow> Inl e
      | Inr _ \<Rightarrow> Inr (fold add_row (List.map_filter parse_package_row (pm_lines raw)) []))"

record package_entry =
  pe_apk_path :: "string option"
  pe_uids_by_user :: "(u32, u32 list) bmap"

record package_inventory =
  pi_packages :: "(string, package_entry) bmap"
  pi_failed_user_ids :: "u32 list"
  pi_user_list_complete :: bool

definition default_entry :: package_entry where
  "default_entry = \<lparr>pe_apk_path = None, pe_uids_by_user = []\<rparr>"

record scan_state =
  sc_packages :: "(string, package_entry) bmap"
  sc_statuses :: "(u32, int) bmap"
  sc_current_user :: "u32 option"

definition push_uid :: "u32 option \<Rightarrow> u32 \<Rightarrow> (u32, u32 list) bmap \<Rightarrow> (u32, u32 list) bmap" where
  "push_uid current_user uid m =
     bt_update (case current_user of Some u \<Rightarrow> u | None \<Rightarrow> uid div UIDS_PER_USER) [] (\<lambda>us. us @ [uid]) m"

definition scan_row :: "u32 option \<Rightarrow> package_row \<Rightarrow> package_entry \<Rightarrow> package_entry" where
  "scan_row current_user row e =
     \<lparr>pe_apk_path = (if pe_apk_path e = None then pr_apk_path row else pe_apk_path e),
      pe_uids_by_user = fold (push_uid current_user) (pr_uids row) (pe_uids_by_user e)\<rparr>"

definition scan_end_marker :: "string \<Rightarrow> scan_state \<Rightarrow> (u32, int) bmap" where
  "scan_end_marker raw s =
     (case split_once CHR '':'' raw of
        Some (i, st) \<Rightarrow>
          (case (parse_u32 i, parse_i32 st) of
             (Some ident, Some status) \<Rightarrow>
               if sc_current_user s = Some ident then bt_insert ident status (sc_statuses s)
               else sc_statuses s
           | _ \<Rightarrow> sc_statuses s)
      | None \<Rightarrow> sc_statuses s)"

definition scan_pm_line :: "string \<Rightarrow> scan_state \<Rightarrow> scan_state" where
  "scan_pm_line line s =
     (case strip_prefix PM_USER_BEGIN line of
        Some raw \<Rightarrow>
          (let current_user = parse_uid (trim raw)
           in s\<lparr>sc_current_user := current_user,
                sc_statuses := (case current_user of
                                  Some u \<Rightarrow> bt_remove u (sc_statuses s)
                                | None \<Rightarrow> sc_statuses s)\<rparr>)
      | None \<Rightarrow>
          (case strip_prefix PM_USER_END line of
             Some raw \<Rightarrow> s\<lparr>sc_statuses := scan_end_marker raw s, sc_current_user := None\<rparr>
           | None \<Rightarrow>
               (case parse_package_row line of
                  None \<Rightarrow> s
                | Some row \<Rightarrow>
                    s\<lparr>sc_packages := bt_update (pr_package_name row) default_entry
                        (scan_row (sc_current_user s) row) (sc_packages s)\<rparr>)))"

definition scan_pm :: "string \<Rightarrow> scan_state" where
  "scan_pm raw =
     fold scan_pm_line (pm_lines raw) \<lparr>sc_packages = [], sc_statuses = [], sc_current_user = None\<rparr>"

definition finish_entry :: "package_entry \<Rightarrow> package_entry" where
  "finish_entry e = e\<lparr>pe_uids_by_user := map (\<lambda>(u, us). (u, remdups_adj (sort us))) (pe_uids_by_user e)\<rparr>"

definition users_status_line :: "string \<Rightarrow> bool" where
  "users_status_line line =
     (do {
        v \<leftarrow> strip_prefix PM_USERS_STATUS line;
        (_, status) \<leftarrow> rsplit_once CHR '':'' v;
        parse_i32 (trim status)
      } = Some 0)"

definition parse_inventory ::
    "string \<Rightarrow> string \<Rightarrow> u32 list \<Rightarrow> inventory_error + package_inventory" where
  "parse_inventory packages_raw users_raw expected_users =
     (case bounded packages_raw of
        Inl e \<Rightarrow> Inl e
      | Inr _ \<Rightarrow>
          (case bounded users_raw of
             Inl e \<Rightarrow> Inl e
           | Inr _ \<Rightarrow>
               (let s = scan_pm packages_raw
                in Inr \<lparr>pi_packages = map (\<lambda>(p, e). (p, finish_entry e)) (sc_packages s),
                        pi_failed_user_ids =
                          bs_of_list (filter (\<lambda>u. bt_get (sc_statuses s) u \<noteq> Some 0) expected_users),
                        pi_user_list_complete =
                          (expected_users \<noteq> [] \<and> list_ex users_status_line (pm_lines users_raw))\<rparr>)))"


section \<open>The uid map\<close>

definition row_lists :: "package_row list \<Rightarrow> string \<Rightarrow> u32 \<Rightarrow> bool" where
  "row_lists rows k u = (\<exists>r \<in> set rows. pr_package_name r = k \<and> u \<in> set (pr_uids r))"

lemma parse_uid_bound: "parse_uid s = Some v \<Longrightarrow> v \<le> 0x7FFFFFFF"
  by (auto simp: parse_uid_def split: bind_splits if_splits)

lemma parse_package_row_uids:
  "parse_package_row l = Some r \<Longrightarrow> pr_uids r \<noteq> [] \<and> (\<forall>u \<in> set (pr_uids r). u \<le> 0x7FFFFFFF)"
  by (auto simp: parse_package_row_def Let_def set_map_filter_eq dest: parse_uid_bound
      split: bind_splits if_splits option.splits prod.splits)

lemma set_fold_bs_insert [simp]: "set (fold bs_insert us s) = set us \<union> set s"
  by (induction us arbitrary: s) auto

lemma bs_wf_fold_insert [simp]: "bs_wf s \<Longrightarrow> bs_wf (fold bs_insert us s)"
  by (induction us arbitrary: s) auto

text \<open>The meaning of a uid map: the uids it lists for a package.\<close>

definition map_lists :: "(string, u32 list) bmap \<Rightarrow> string \<Rightarrow> u32 \<Rightarrow> bool" where
  "map_lists m k u = (\<exists>us. bt_get m k = Some us \<and> u \<in> set us)"

definition uid_map_wf :: "(string, u32 list) bmap \<Rightarrow> bool" where
  "uid_map_wf m = (bt_wf m \<and> (\<forall>k us. bt_get m k = Some us \<longrightarrow> bs_wf us \<and> us \<noteq> []))"

lemma uid_map_wf_add_row:
  assumes "uid_map_wf m" "pr_uids r \<noteq> []"
  shows "uid_map_wf (add_row r m)"
proof -
  have "fold bs_insert (pr_uids r) us \<noteq> []" for us :: "u32 list"
    using assms(2) by (metis Un_empty set_empty set_fold_bs_insert)
  with assms show ?thesis
    by (auto simp: uid_map_wf_def add_row_def bt_get_update bs_wf_def split: option.splits
        intro: bs_wf_fold_insert [unfolded bs_wf_def])
qed

lemma map_lists_add_row:
  "bt_wf m \<Longrightarrow> map_lists (add_row r m) k u =
     (map_lists m k u \<or> pr_package_name r = k \<and> u \<in> set (pr_uids r))"
  by (cases "bt_get m k") (auto simp: map_lists_def add_row_def bt_get_update)

lemma fold_add_row:
  "uid_map_wf m \<Longrightarrow> (\<forall>r \<in> set rows. pr_uids r \<noteq> []) \<Longrightarrow>
   uid_map_wf (fold add_row rows m) \<and>
   (\<forall>k u. map_lists (fold add_row rows m) k u = (map_lists m k u \<or> row_lists rows k u))"
proof (induction rows arbitrary: m)
  case Nil
  then show ?case by (simp add: row_lists_def)
next
  case (Cons r rows)
  have "uid_map_wf (add_row r m)" using Cons.prems by (simp add: uid_map_wf_add_row)
  moreover have "bt_wf m" using Cons.prems(1) by (simp add: uid_map_wf_def)
  ultimately show ?case
    using Cons.IH [of "add_row r m"] Cons.prems(2) by (auto simp: map_lists_add_row row_lists_def)
qed

text \<open>
   The uid map is exactly the union of the rows: a package is listed with a uid if and only if
  some line of the observation names both, whatever the order and repetition of the lines.  Every
  uid list is nonempty, ascending and duplicate free, and an oversized observation is the only error.
\<close>

theorem parse_uid_map_exact:
  assumes "length raw \<le> MAX_OBSERVATION_BYTES"
  shows "\<exists>m. parse_uid_map raw = Inr m \<and> bt_wf m
    \<and> (\<forall>k us. bt_get m k = Some us \<longrightarrow> us \<noteq> [] \<and> sorted_wrt (<) us)
    \<and> (\<forall>k u. (\<exists>us. bt_get m k = Some us \<and> u \<in> set us) \<longleftrightarrow>
         (\<exists>line \<in> set (pm_lines raw). \<exists>r. parse_package_row line = Some r
            \<and> pr_package_name r = k \<and> u \<in> set (pr_uids r)))"
proof -
  let ?rows = "List.map_filter parse_package_row (pm_lines raw)"
  have rows: "r \<in> set ?rows \<longleftrightarrow> (\<exists>line \<in> set (pm_lines raw). parse_package_row line = Some r)" for r
    by (simp add: set_map_filter_eq)
  then have "\<forall>r \<in> set ?rows. pr_uids r \<noteq> []"
    using parse_package_row_uids by blast
  then have m: "uid_map_wf (fold add_row ?rows [])"
    "\<forall>k u. map_lists (fold add_row ?rows []) k u = row_lists ?rows k u"
    using fold_add_row [of "[]" ?rows] by (simp_all add: uid_map_wf_def map_lists_def)
  moreover have "parse_uid_map raw = Inr (fold add_row ?rows [])"
    using assms by (simp add: parse_uid_map_def bounded_def)
  ultimately show ?thesis
    unfolding uid_map_wf_def bs_wf_def map_lists_def row_lists_def
    by (intro exI [of _ "fold add_row ?rows []"]) (use rows in blast)
qed

theorem parse_uid_map_exact_witness:
  "\<exists>m. parse_uid_map ''package:a.b uid:10123,1010123'' = Inr m \<and> bt_wf m"
  using parse_uid_map_exact [of "''package:a.b uid:10123,1010123''"] by (auto simp: MAX_OBSERVATION_BYTES_def)


section \<open>Completeness of a profile scan\<close>

definition is_begin :: "u32 \<Rightarrow> string \<Rightarrow> bool" where
  "is_begin u l = (case strip_prefix PM_USER_BEGIN l of
     None \<Rightarrow> False | Some raw \<Rightarrow> parse_uid (trim raw) = Some u)"

definition is_marker :: "string \<Rightarrow> bool" where
  "is_marker l = (strip_prefix PM_USER_BEGIN l \<noteq> None \<or> strip_prefix PM_USER_END l \<noteq> None)"

definition is_ok_end :: "u32 \<Rightarrow> string \<Rightarrow> bool" where
  "is_ok_end u l = (case strip_prefix PM_USER_END l of
     None \<Rightarrow> False
   | Some raw \<Rightarrow> (case split_once CHR '':'' raw of
       None \<Rightarrow> False
     | Some (i, st) \<Rightarrow> parse_u32 i = Some u \<and> parse_i32 st = Some 0))"

definition open_section :: "string list \<Rightarrow> u32 \<Rightarrow> bool" where
  "open_section ls u = (\<exists>pre b mid. ls = pre @ b # mid \<and> is_begin u b \<and> (\<forall>l \<in> set mid. \<not> is_marker l))"

definition closed_section :: "string list \<Rightarrow> u32 \<Rightarrow> bool" where
  "closed_section ls u = (\<exists>pre b mid e post. ls = pre @ b # mid @ e # post \<and> is_begin u b
     \<and> (\<forall>l \<in> set mid. \<not> is_marker l) \<and> is_ok_end u e \<and> (\<forall>l \<in> set post. \<not> is_begin u l))"

definition scan_inv :: "string list \<Rightarrow> scan_state \<Rightarrow> bool" where
  "scan_inv ls s = (bt_wf (sc_statuses s)
     \<and> (\<forall>u. sc_current_user s = Some u \<longrightarrow> open_section ls u)
     \<and> (\<forall>u. bt_get (sc_statuses s) u = Some 0 \<longrightarrow> closed_section ls u))"

lemma open_section_snoc: "open_section ls u \<Longrightarrow> \<not> is_marker l \<Longrightarrow> open_section (ls @ [l]) u"
  unfolding open_section_def
proof (elim exE conjE)
  fix pre b mid
  assume "ls = pre @ b # mid" "is_begin u b" "\<forall>l \<in> set mid. \<not> is_marker l" "\<not> is_marker l"
  then show "\<exists>pre b mid. ls @ [l] = pre @ b # mid \<and> is_begin u b \<and> (\<forall>l \<in> set mid. \<not> is_marker l)"
    by (intro exI [of _ pre] exI [of _ b] exI [of _ "mid @ [l]"]) auto
qed

lemma closed_section_snoc: "closed_section ls u \<Longrightarrow> \<not> is_begin u l \<Longrightarrow> closed_section (ls @ [l]) u"
  unfolding closed_section_def
proof (elim exE conjE)
  fix pre b mid e post
  assume "ls = pre @ b # mid @ e # post" "is_begin u b" "\<forall>l \<in> set mid. \<not> is_marker l" "is_ok_end u e"
    "\<forall>l \<in> set post. \<not> is_begin u l" "\<not> is_begin u l"
  then show "\<exists>pre b mid e post. ls @ [l] = pre @ b # mid @ e # post \<and> is_begin u b
     \<and> (\<forall>l \<in> set mid. \<not> is_marker l) \<and> is_ok_end u e \<and> (\<forall>l \<in> set post. \<not> is_begin u l)"
    by (intro exI [of _ pre] exI [of _ b] exI [of _ mid] exI [of _ e] exI [of _ "post @ [l]"]) auto
qed

lemma closes_section:
  "open_section ls u \<Longrightarrow> is_ok_end u l \<Longrightarrow> closed_section (ls @ [l]) u"
  unfolding open_section_def closed_section_def
proof (elim exE conjE)
  fix pre b mid
  assume "ls = pre @ b # mid" "is_begin u b" "\<forall>l \<in> set mid. \<not> is_marker l" "is_ok_end u l"
  then show "\<exists>pre b mid e post. ls @ [l] = pre @ b # mid @ e # post \<and> is_begin u b
     \<and> (\<forall>l \<in> set mid. \<not> is_marker l) \<and> is_ok_end u e \<and> (\<forall>l \<in> set post. \<not> is_begin u l)"
    by (intro exI [of _ pre] exI [of _ b] exI [of _ mid] exI [of _ l] exI [of _ "[]"]) auto
qed

lemma scan_inv_begin:
  assumes "scan_inv ls s" "strip_prefix PM_USER_BEGIN l = Some raw"
  shows "scan_inv (ls @ [l]) (scan_pm_line l s)"
proof -
  have "open_section (ls @ [l]) u" if "is_begin u l" for u
    using that unfolding open_section_def by (intro exI [of _ ls] exI [of _ l] exI [of _ "[]"]) simp
  moreover have "closed_section (ls @ [l]) u" if "closed_section ls u" "parse_uid (trim raw) \<noteq> Some u" for u
    using that assms(2) by (intro closed_section_snoc) (simp_all add: is_begin_def)
  ultimately show ?thesis
    using assms by (auto simp: scan_inv_def scan_pm_line_def Let_def bt_get_remove is_begin_def split: option.splits if_splits)
qed

lemma scan_inv_end:
  assumes "scan_inv ls s" "strip_prefix PM_USER_BEGIN l = None" "strip_prefix PM_USER_END l = Some raw"
  shows "scan_inv (ls @ [l]) (scan_pm_line l s)"
proof -
  have keep: "closed_section (ls @ [l]) u" if "bt_get (sc_statuses s) u = Some 0" for u
    using assms that by (intro closed_section_snoc) (simp_all add: scan_inv_def is_begin_def)
  have "closed_section (ls @ [l]) u" if u: "bt_get (scan_end_marker raw s) u = Some 0" for u
  proof (cases "bt_get (sc_statuses s) u = Some 0")
    case False
    with u assms(1) have "sc_current_user s = Some u" "is_ok_end u l"
      by (auto simp: scan_end_marker_def is_ok_end_def assms(3) scan_inv_def bt_get_insert
          split: option.splits prod.splits if_splits)
    with assms(1) show ?thesis by (auto simp: scan_inv_def intro: closes_section)
  qed (rule keep)
  moreover have "bt_wf (scan_end_marker raw s)"
    using assms(1) by (auto simp: scan_end_marker_def scan_inv_def split: option.splits)
  ultimately show ?thesis
    using assms(2,3) by (simp add: scan_inv_def scan_pm_line_def)
qed

lemma scan_inv_row:
  assumes "scan_inv ls s" "\<not> is_marker l"
  shows "scan_inv (ls @ [l]) (scan_pm_line l s)"
proof -
  have "\<not> is_begin u l" for u using assms(2) by (simp add: is_marker_def is_begin_def)
  moreover have "sc_statuses (scan_pm_line l s) = sc_statuses s" "sc_current_user (scan_pm_line l s) = sc_current_user s"
    using assms(2) by (auto simp: scan_pm_line_def is_marker_def split: option.splits)
  ultimately show ?thesis
    using assms by (auto simp: scan_inv_def intro: open_section_snoc closed_section_snoc)
qed

lemma scan_inv_scan: "scan_inv ls (fold scan_pm_line ls \<lparr>sc_packages = [], sc_statuses = [], sc_current_user = None\<rparr>)"
proof (induction ls rule: rev_induct)
  case Nil
  then show ?case by (simp add: scan_inv_def)
next
  case (snoc l ls)
  then show ?case
    using scan_inv_begin scan_inv_end scan_inv_row
    by (cases "strip_prefix PM_USER_BEGIN l"; cases "strip_prefix PM_USER_END l") (auto simp: is_marker_def)
qed

text \<open>
   A profile counts as scanned only on explicit evidence: if an expected user is not reported
  as failed, the observation contains that user's BEGIN marker, a following END marker of the same
  user with exit status 0 and no marker in between, and no later BEGIN for it, so a truncated retry
  never inherits an earlier success.
\<close>

theorem scanned_user_has_end:
  assumes "parse_inventory raw users_raw expected = Inr i" "u \<in> set expected"
    "u \<notin> set (pi_failed_user_ids i)"
  shows "\<exists>pre b mid e post. pm_lines raw = pre @ b # mid @ e # post
    \<and> is_begin u b \<and> (\<forall>l \<in> set mid. \<not> is_marker l) \<and> is_ok_end u e \<and> (\<forall>l \<in> set post. \<not> is_begin u l)"
proof -
  have "bt_get (sc_statuses (scan_pm raw)) u = Some 0"
    using assms by (auto simp: parse_inventory_def Let_def split: sum.splits)
  with scan_inv_scan [of "pm_lines raw"] have "closed_section (pm_lines raw) u"
    by (simp add: scan_inv_def scan_pm_def)
  then show ?thesis by (simp add: closed_section_def)
qed


lemma scan_one_user:
  "parse_inventory (PM_USER_BEGIN @ ''0'' @ [CHR 0x0A] @ PM_USER_END @ ''0:0'') [] [0] =
   Inr \<lparr>pi_packages = [], pi_failed_user_ids = [], pi_user_list_complete = False\<rparr>"
  by code_simp

theorem scanned_user_has_end_witness:
  "\<exists>pre b mid e post. pm_lines (PM_USER_BEGIN @ ''0'' @ [CHR 0x0A] @ PM_USER_END @ ''0:0'') = pre @ b # mid @ e # post
    \<and> is_begin 0 b \<and> is_ok_end 0 e"
  using scanned_user_has_end [OF scan_one_user, of 0] by simp blast

end
