(* ===== verification/Native_Policy.thy ===== *)
theory Native_Policy
  imports Zygisk_Activation Package_Inventory "HOL-Library.Product_Lexorder"
begin

text \<open>
  The native policy (\<^verbatim>\<open>crates/native-policy/src/lib.rs\<close>): which hooks a selection asks of a backend
  family, the target set a configuration projects to over a package inventory, its capacity, and the
  projected control payload.
\<close>

section \<open>Definitions\<close>

definition APP_PACKAGE :: string where
  "APP_PACKAGE = ''dev.okhsunrog.vpnhide''"

definition PER_USER_RANGE :: u32 where
  "PER_USER_RANGE = UIDS_PER_USER"

definition is_app_uid :: "u32 \<Rightarrow> bool" where
  "is_app_uid uid = (10000 \<le> uid mod PER_USER_RANGE)"

record native_selection_detail =
  nsd_enabled :: bool
  nsd_kernel :: "string list option"
  nsd_zygisk :: "string list option"

datatype native_selection =
    Enabled bool
  | Hooks "string list"
  | Detailed native_selection_detail

datatype native_hook_family = FamKmod | FamKpm | FamBuiltin | FamZygisk

record limits =
  lim_target_uids :: nat
  lim_wire_bytes :: nat

fun family_limits :: "native_hook_family \<Rightarrow> limits" where
  "family_limits FamKpm = \<lparr>lim_target_uids = MAX_TARGET_UIDS, lim_wire_bytes = KPM_ARGS_LEN - 1\<rparr>"
| "family_limits FamKmod = \<lparr>lim_target_uids = MAX_TARGET_UIDS, lim_wire_bytes = 4096\<rparr>"
| "family_limits FamBuiltin = \<lparr>lim_target_uids = MAX_TARGET_UIDS, lim_wire_bytes = 4096\<rparr>"
| "family_limits FamZygisk = \<lparr>lim_target_uids = MAX_TARGET_UIDS, lim_wire_bytes = MAX_BYTES - 128\<rparr>"

record usage =
  us_target_uids :: nat
  us_wire_bytes :: nat
  us_limits :: limits

definition fits :: "usage \<Rightarrow> bool" where
  "fits u = (us_target_uids u \<le> lim_target_uids (us_limits u) \<and> us_wire_bytes u \<le> lim_wire_bytes (us_limits u))"

subsection \<open>Hook sets\<close>

type_synonym hook_set = u32

definition from_names :: "string list \<Rightarrow> hook_set" where
  "from_names names = fold (\<lambda>h hooks. or hooks (hook_bit h)) (List.map_filter hook_from_name names) 0"

definition without :: "hook_set \<Rightarrow> hook \<Rightarrow> hook_set" where
  "without s h = and s (not (hook_bit h))"

definition restricted_to :: "hook_set \<Rightarrow> hook_set \<Rightarrow> hook_set" where
  "restricted_to s owner = and s owner"

fun full_set :: "native_hook_family \<Rightarrow> hook_set" where
  "full_set FamKmod = or KERNEL_HOOK_MASK KMOD_HOOK_MASK"
| "full_set FamKpm = or KERNEL_HOOK_MASK KPM_HOOK_MASK"
| "full_set FamBuiltin = or KERNEL_HOOK_MASK BUILTIN_HOOK_MASK"
| "full_set FamZygisk = ZYGISK_HOOK_MASK"

definition filesystem_gated_in_mask :: "native_hook_family \<Rightarrow> bool" where
  "filesystem_gated_in_mask f = (f = FamBuiltin \<or> f = FamZygisk)"

definition then_some :: "hook_set \<Rightarrow> hook_set option" where
  "then_some s = (if s \<noteq> 0 then Some s else None)"

fun hooks :: "native_selection \<Rightarrow> native_hook_family \<Rightarrow> hook_set option" where
  "hooks (Enabled b) family = (if b then Some (full_set family) else None)"
| "hooks (Hooks names) family =
     (if names = [] then None
      else then_some (if family = FamZygisk then full_set family
                      else restricted_to (from_names names) (full_set family)))"
| "hooks (Detailed d) family =
     (if \<not> nsd_enabled d then None
      else case (if family = FamZygisk then nsd_zygisk d else nsd_kernel d) of
             None \<Rightarrow> Some (full_set family)
           | Some names \<Rightarrow> then_some (restricted_to (from_names names) (full_set family)))"

subsection \<open>Projection\<close>

type_synonym selections = "(string, native_selection) bmap"
type_synonym packages = "(string, u32 list) bmap"
type_synonym target_set = "(u32, hook_set \<times> string list) bmap"

definition effective_hooks :: "native_selection \<Rightarrow> native_hook_family \<Rightarrow> bool \<Rightarrow> hook_set option" where
  "effective_hooks selection family filesystem_enabled =
     do {
       hs \<leftarrow> hooks selection family;
       then_some (if filesystem_gated_in_mask family \<and> \<not> filesystem_enabled
                  then without hs FilesystemIfacePaths else hs)
     }"

definition required_hooks :: "selections \<Rightarrow> native_hook_family \<Rightarrow> bool \<Rightarrow> u32" where
  "required_hooks selections family filesystem_enabled =
     (let mask = fold (\<lambda>h m. or m h)
            (List.map_filter (\<lambda>(_, s). effective_hooks s family filesystem_enabled) selections) 0
      in if filesystem_enabled then mask else and mask (not (hook_bit FilesystemIfacePaths)))"

definition bits_or_zero :: "hook_set option \<Rightarrow> u32" where
  "bits_or_zero h = (case h of None \<Rightarrow> 0 | Some b \<Rightarrow> b)"

definition is_reduction ::
    "selections \<Rightarrow> bool \<Rightarrow> selections \<Rightarrow> bool \<Rightarrow> native_hook_family \<Rightarrow> bool" where
  "is_reduction before before_filesystem after after_filesystem family =
     list_all (\<lambda>(package, selection).
        let nxt = bits_or_zero (effective_hooks selection family after_filesystem);
            previous = bits_or_zero (Option.bind (bt_get before package)
                         (\<lambda>s. effective_hooks s family before_filesystem))
        in and nxt (not previous) = 0) after"

definition add_target :: "u32 \<Rightarrow> hook_set \<Rightarrow> string \<Rightarrow> target_set \<Rightarrow> target_set" where
  "add_target uid hs pkg by_uid =
     bt_update uid (hs, []) (\<lambda>(h, ps). (or h hs, bs_insert pkg ps)) by_uid"

definition package_uids :: "packages \<Rightarrow> string \<Rightarrow> u32 list" where
  "package_uids packages pkg = (case bt_get packages pkg of None \<Rightarrow> [] | Some us \<Rightarrow> us)"

definition add_selection ::
    "packages \<Rightarrow> native_hook_family \<Rightarrow> bool \<Rightarrow> string \<times> native_selection \<Rightarrow> target_set \<Rightarrow> target_set" where
  "add_selection packages family filesystem_enabled e by_uid =
     (let pkg = fst e in
      case effective_hooks (snd e) family filesystem_enabled of
        None \<Rightarrow> by_uid
      | Some hs \<Rightarrow>
          if pkg = APP_PACKAGE then
            (case List.find (\<lambda>uid. uid < PER_USER_RANGE \<and> is_app_uid uid) (package_uids packages pkg) of
               None \<Rightarrow> by_uid
             | Some uid \<Rightarrow> add_target uid hs pkg by_uid)
          else fold (\<lambda>uid m. if \<not> is_app_uid uid then m else add_target uid hs pkg m)
                 (package_uids packages pkg) by_uid)"

definition native_target_set ::
    "selections \<Rightarrow> packages \<Rightarrow> native_hook_family \<Rightarrow> bool \<Rightarrow> target_set" where
  "native_target_set selections packages family filesystem_enabled =
     fold (add_selection packages family filesystem_enabled) selections []"

definition targets_of_set :: "target_set \<Rightarrow> target list" where
  "targets_of_set m = map (\<lambda>(uid, hs, _). \<lparr>tg_uid = uid, tg_hookmask = hs\<rparr>) m"

definition policy_usage ::
    "bool \<Rightarrow> selections \<Rightarrow> packages \<Rightarrow> native_hook_family \<Rightarrow> bool \<Rightarrow> usage" where
  "policy_usage debug selections packages family filesystem_enabled =
     (let targets = targets_of_set (native_target_set selections packages family filesystem_enabled)
      in \<lparr>us_target_uids = length targets, us_wire_bytes = length (format_config debug 0 targets),
          us_limits = family_limits family\<rparr>)"

record capacity_package =
  cp_package :: string
  cp_uids :: "u32 list"

record native_capacity_exceeded =
  nce_total :: nat
  nce_capacity :: nat
  nce_packages :: "capacity_package list"

text \<open>\<^verbatim>\<open>saturating_sub\<close> is subtraction on the naturals.\<close>

definition overflow :: "native_capacity_exceeded \<Rightarrow> nat" where
  "overflow e = nce_total e - nce_capacity e"

definition per_package :: "target_set \<Rightarrow> (string, u32 list) bmap" where
  "per_package by_uid =
     fold (\<lambda>(uid, _, pkgs) m. fold (\<lambda>pkg. bt_update pkg [] (\<lambda>us. us @ [uid])) pkgs m) by_uid []"

definition capacity_packages :: "target_set \<Rightarrow> capacity_package list" where
  "capacity_packages by_uid =
     sort_key (\<lambda>p. (- int (length (cp_uids p)), cp_package p))
       (map (\<lambda>(p, us). \<lparr>cp_package = p, cp_uids = us\<rparr>) (per_package by_uid))"

definition project_native ::
    "bool \<Rightarrow> selections \<Rightarrow> packages \<Rightarrow> native_hook_family \<Rightarrow> bool \<Rightarrow> native_capacity_exceeded + string" where
  "project_native debug selections packages family filesystem_enabled =
     (let by_uid = native_target_set selections packages family filesystem_enabled
      in if MAX_TARGET_UIDS < length by_uid
         then Inl \<lparr>nce_total = length by_uid, nce_capacity = MAX_TARGET_UIDS,
                   nce_packages = capacity_packages by_uid\<rparr>
         else Inr (format_config debug 0 (targets_of_set by_uid)))"


section \<open>The target set declaratively\<close>

text \<open>What one selected package contributes to the target set.\<close>

definition contributed_uids :: "packages \<Rightarrow> string \<Rightarrow> u32 list" where
  "contributed_uids packages pkg =
     (if pkg = APP_PACKAGE
      then (case List.find (\<lambda>uid. uid < PER_USER_RANGE \<and> is_app_uid uid) (package_uids packages pkg) of
              None \<Rightarrow> [] | Some uid \<Rightarrow> [uid])
      else filter is_app_uid (package_uids packages pkg))"

definition contributes ::
    "selections \<Rightarrow> packages \<Rightarrow> native_hook_family \<Rightarrow> bool \<Rightarrow> u32 \<Rightarrow> string \<Rightarrow> hook_set \<Rightarrow> bool" where
  "contributes selections packages family fs uid pkg hs =
     (\<exists>s. bt_get selections pkg = Some s \<and> effective_hooks s family fs = Some hs
        \<and> uid \<in> set (contributed_uids packages pkg))"

type_synonym contribution = "u32 \<times> hook_set \<times> string"

definition contributions :: "packages \<Rightarrow> native_hook_family \<Rightarrow> bool \<Rightarrow> selections \<Rightarrow> contribution list" where
  "contributions packages family fs selections =
     concat (map (\<lambda>(pkg, s). case effective_hooks s family fs of
                    None \<Rightarrow> []
                  | Some hs \<Rightarrow> map (\<lambda>u. (u, hs, pkg)) (contributed_uids packages pkg)) selections)"

lemma fold_if_filter:
  "fold (\<lambda>x m. if \<not> P x then m else f x m) xs m = fold f (filter P xs) m"
  by (induction xs arbitrary: m) auto

lemma add_selection_contributions:
  "add_selection packages family fs (pkg, s) m =
     fold (\<lambda>(u, hs, p). add_target u hs p)
       (case effective_hooks s family fs of
          None \<Rightarrow> [] | Some hs \<Rightarrow> map (\<lambda>u. (u, hs, pkg)) (contributed_uids packages pkg)) m"
  by (auto simp: add_selection_def contributed_uids_def fold_if_filter fold_map comp_def split: option.split)

lemma native_target_set_contributions:
  "native_target_set selections packages family fs =
     fold (\<lambda>(u, hs, p). add_target u hs p) (contributions packages family fs selections) []"
proof -
  have "fold (add_selection packages family fs) xs m =
      fold (\<lambda>(u, hs, p). add_target u hs p) (contributions packages family fs xs) m" for xs m
    by (induction xs arbitrary: m) (auto simp: contributions_def add_selection_contributions)
  then show ?thesis by (simp add: native_target_set_def)
qed

text \<open>A table that records a list of contributions.\<close>

definition records :: "contribution list \<Rightarrow> target_set \<Rightarrow> bool" where
  "records cs m = (bt_wf m \<and> (\<forall>uid.
     (bt_get m uid = None \<longleftrightarrow> (\<forall>hs p. (uid, hs, p) \<notin> set cs)) \<and>
     (\<forall>msk ps. bt_get m uid = Some (msk, ps) \<longrightarrow>
        bs_wf ps \<and> set ps = {p. \<exists>hs. (uid, hs, p) \<in> set cs}
        \<and> (\<forall>n. bit msk n \<longleftrightarrow> (\<exists>hs p. (uid, hs, p) \<in> set cs \<and> bit hs n)))))"


lemma recordsD:
  assumes "records cs m"
  shows "bt_wf m"
    and "bt_get m uid = None \<longleftrightarrow> (\<forall>hs p. (uid, hs, p) \<notin> set cs)"
    and "bt_get m uid = Some (msk, ps) \<Longrightarrow> bs_wf ps"
    and "bt_get m uid = Some (msk, ps) \<Longrightarrow> set ps = {p. \<exists>hs. (uid, hs, p) \<in> set cs}"
    and "bt_get m uid = Some (msk, ps) \<Longrightarrow> bit msk n \<longleftrightarrow> (\<exists>hs p. (uid, hs, p) \<in> set cs \<and> bit hs n)"
  using assms unfolding records_def by blast+

lemma records_Nil: "records [] []"
  by (simp add: records_def)

lemma records_add:
  assumes r: "records cs m"
  shows "records (cs @ [(u, hs, pkg)]) (add_target u hs pkg m)"
  unfolding records_def
proof (intro conjI allI impI)
  let ?m = "add_target u hs pkg m"
  let ?cs = "cs @ [(u, hs, pkg)]"
  have wf: "bt_wf m" using r by (rule recordsD(1))
  then show "bt_wf ?m" by (simp add: add_target_def)
  have new: "bt_get ?m u = Some (case bt_get m u of None \<Rightarrow> (hs, bs_insert pkg []) | Some (h, ps) \<Rightarrow> (or h hs, bs_insert pkg ps))"
    using wf by (auto simp: add_target_def bt_get_update split: option.splits)
  have old: "bt_get ?m v = bt_get m v" if "v \<noteq> u" for v
    using wf that by (simp add: add_target_def bt_get_update)
  fix uid
  show "(bt_get ?m uid = None) = (\<forall>hs' p. (uid, hs', p) \<notin> set ?cs)"
    using new old recordsD(2) [OF r, of uid] by (cases "uid = u") auto
  fix msk ps
  assume g: "bt_get ?m uid = Some (msk, ps)"
  consider (same) "uid \<noteq> u" "bt_get m uid = Some (msk, ps)"
    | (fresh) "uid = u" "bt_get m u = None" "msk = hs" "ps = bs_insert pkg []"
    | (merged) h qs where "uid = u" "bt_get m u = Some (h, qs)" "msk = or h hs" "ps = bs_insert pkg qs"
    using g new old by (cases "uid = u"; cases "bt_get m u") auto
  then have "bs_wf ps \<and> set ps = {p. \<exists>hs'. (uid, hs', p) \<in> set ?cs}
      \<and> (\<forall>n. bit msk n = (\<exists>hs' p. (uid, hs', p) \<in> set ?cs \<and> bit hs' n))"
  proof cases
    case same
    with recordsD(3-5) [OF r same(2)] show ?thesis by simp
  next
    case fresh
    with recordsD(2) [OF r, of u] show ?thesis by (auto simp: bs_wf_def bs_insert_def)
  next
    case merged
    with recordsD(3-5) [OF r merged(2)] show ?thesis by (auto simp: bit_or_iff)
  qed
  then show "bs_wf ps" "set ps = {p. \<exists>hs'. (uid, hs', p) \<in> set ?cs}"
    "\<And>n. bit msk n = (\<exists>hs' p. (uid, hs', p) \<in> set ?cs \<and> bit hs' n)" by blast+
qed

lemma records_fold: "records (cs @ xs) (fold (\<lambda>(u, hs, p). add_target u hs p) xs m)" if "records cs m"
  using that
proof (induction xs arbitrary: cs m)
  case (Cons x xs)
  obtain u hs p where "x = (u, hs, p)" by (cases x)
  with Cons.IH [OF records_add [OF Cons.prems, of u hs p]] show ?case by simp
qed simp

lemma records_native_target_set:
  "records (contributions packages family fs selections) (native_target_set selections packages family fs)"
  using records_fold [OF records_Nil] by (simp add: native_target_set_contributions)

lemma bt_wf_native_target_set: "bt_wf (native_target_set selections packages family fs)"
  by (rule recordsD(1) [OF records_native_target_set])

lemma contributions_iff:
  assumes "bt_wf selections"
  shows "(uid, hs, pkg) \<in> set (contributions packages family fs selections) \<longleftrightarrow>
    contributes selections packages family fs uid pkg hs"
proof -
  have "(uid, hs, pkg) \<in> set (contributions packages family fs xs) \<longleftrightarrow>
      (\<exists>s. (pkg, s) \<in> set xs \<and> effective_hooks s family fs = Some hs \<and> uid \<in> set (contributed_uids packages pkg))" for xs
    by (induction xs) (auto simp: contributions_def split: option.splits)
  then show ?thesis by (simp add: contributes_def bt_get_iff [OF assms])
qed

lemma contributed_uids_app:
  assumes "uid \<in> set (contributed_uids packages pkg)"
  shows "is_app_uid uid"
    and "pkg = APP_PACKAGE \<Longrightarrow> uid < PER_USER_RANGE \<and> contributed_uids packages pkg = [uid]"
proof -
  let ?f = "List.find (\<lambda>uid. uid < PER_USER_RANGE \<and> is_app_uid uid) (package_uids packages pkg)"
  consider "pkg \<noteq> APP_PACKAGE" | (self) "pkg = APP_PACKAGE" "?f = Some uid"
    using assms by (cases ?f) (auto simp: contributed_uids_def split: if_splits)
  then have "is_app_uid uid \<and> (pkg = APP_PACKAGE \<longrightarrow> uid < PER_USER_RANGE \<and> contributed_uids packages pkg = [uid])"
  proof cases
    case self
    with find_SomeD [OF self(2)] show ?thesis by (simp add: contributed_uids_def)
  qed (use assms in \<open>simp add: contributed_uids_def\<close>)
  then show "is_app_uid uid"
    and "pkg = APP_PACKAGE \<Longrightarrow> uid < PER_USER_RANGE \<and> contributed_uids packages pkg = [uid]"
    by blast+
qed

text \<open>
   The target set is exactly what the policy says, independently of how packages share uids: a
  uid is a target if and only if some selected package with effective hooks contributes it, its mask
  is the union of what those packages ask for, and its package list names exactly them.
\<close>

theorem native_target_set_exact:
  assumes "bt_wf selections"
  shows "case bt_get (native_target_set selections packages family fs) uid of
      None \<Rightarrow> \<nexists>pkg hs. contributes selections packages family fs uid pkg hs
    | Some (msk, pkgs) \<Rightarrow>
        set pkgs = {pkg. \<exists>hs. contributes selections packages family fs uid pkg hs} \<and> pkgs \<noteq> []
        \<and> (\<forall>n. bit msk n = (\<exists>pkg hs. contributes selections packages family fs uid pkg hs \<and> bit hs n))"
proof -
  note r = recordsD [OF records_native_target_set [of packages family fs selections],
      unfolded contributions_iff [OF assms]]
  show ?thesis
  proof (cases "bt_get (native_target_set selections packages family fs) uid")
    case None
    with r(2) [of uid] show ?thesis by simp
  next
    case (Some e)
    obtain msk pkgs where e: "e = (msk, pkgs)" by force
    with Some have g: "bt_get (native_target_set selections packages family fs) uid = Some (msk, pkgs)" by simp
    have "pkgs \<noteq> []" using r(2) [of uid] r(4) [OF g] g by auto
    with r(4,5) [OF g] Some e show ?thesis by auto
  qed
qed

text \<open>
   Only app uids are ever targeted, and the app's own package occupies at most one slot, in the
  main profile: no platform identity below the app range and no clone of the manager reaches a
  backend.
\<close>

theorem native_targets_are_app_uids:
  assumes "bt_wf selections"
    "bt_get (native_target_set selections packages family fs) uid = Some (msk, pkgs)"
  shows "is_app_uid uid \<and> (APP_PACKAGE \<in> set pkgs \<longrightarrow> uid < PER_USER_RANGE
    \<and> (\<forall>uid' msk' pkgs'. bt_get (native_target_set selections packages family fs) uid' = Some (msk', pkgs')
          \<and> APP_PACKAGE \<in> set pkgs' \<longrightarrow> uid' = uid))"
proof -
  note r = recordsD [OF records_native_target_set [of packages family fs selections],
      unfolded contributions_iff [OF assms(1)]]
  have app: "is_app_uid u" if "contributes selections packages family fs u p h" for u p h
    using that contributed_uids_app(1) by (auto simp: contributes_def)
  have self: "u < PER_USER_RANGE \<and> u = v"
    if "contributes selections packages family fs u APP_PACKAGE h" "contributes selections packages family fs v APP_PACKAGE k" for u v h k
    using that contributed_uids_app(2) [of _ packages APP_PACKAGE] by (fastforce simp: contributes_def)
  obtain p h where "contributes selections packages family fs uid p h"
    using r(2) [of uid] assms(2) by auto
  then have "is_app_uid uid" by (rule app)
  moreover have "\<exists>h. contributes selections packages family fs u APP_PACKAGE h"
    if "bt_get (native_target_set selections packages family fs) u = Some (m, ps)" "APP_PACKAGE \<in> set ps" for u m ps
    using r(4) [OF that(1)] that(2) by auto
  ultimately show ?thesis using assms(2) self by blast
qed


lemma native_target_set_example:
  "native_target_set [(''a.b'', Enabled True), (APP_PACKAGE, Enabled True)] [(''a.b'', [1000, 10123]), (APP_PACKAGE, [10200, 1010200])] FamKmod True =
    [(10123, or KERNEL_HOOK_MASK KMOD_HOOK_MASK, [''a.b'']), (10200, or KERNEL_HOOK_MASK KMOD_HOOK_MASK, [APP_PACKAGE])]"
  by code_simp

theorem native_target_set_exact_witness:
  "case bt_get (native_target_set [(''a.b'', Enabled True)] [(''a.b'', [1000, 10123])] FamKpm True) 1000 of
      None \<Rightarrow> \<nexists>pkg hs. contributes [(''a.b'', Enabled True)] [(''a.b'', [1000, 10123])] FamKpm True 1000 pkg hs
    | Some (msk, pkgs) \<Rightarrow>
        set pkgs = {pkg. \<exists>hs. contributes [(''a.b'', Enabled True)] [(''a.b'', [1000, 10123])] FamKpm True 1000 pkg hs} \<and> pkgs \<noteq> []
        \<and> (\<forall>n. bit msk n = (\<exists>pkg hs. contributes [(''a.b'', Enabled True)] [(''a.b'', [1000, 10123])] FamKpm True 1000 pkg hs \<and> bit hs n))"
  by (rule native_target_set_exact) simp

theorem native_targets_are_app_uids_witness:
  "is_app_uid 10200 \<and> (10200 :: u32) < PER_USER_RANGE"
proof -
  have "bt_wf [(''a.b'', Enabled True), (APP_PACKAGE, Enabled True)]"
    by (simp add: APP_PACKAGE_def)
  moreover have "bt_get (native_target_set [(''a.b'', Enabled True), (APP_PACKAGE, Enabled True)]
      [(''a.b'', [1000, 10123]), (APP_PACKAGE, [10200, 1010200])] FamKmod True) 10200 =
      Some (or KERNEL_HOOK_MASK KMOD_HOOK_MASK, [APP_PACKAGE])"
    unfolding native_target_set_example by simp
  ultimately have "is_app_uid 10200 \<and> (APP_PACKAGE \<in> set [APP_PACKAGE] \<longrightarrow> (10200 :: u32) < PER_USER_RANGE)"
    by (blast dest: native_targets_are_app_uids)
  then show ?thesis by simp
qed


section \<open>The projected payload\<close>

lemma sort_targets_of_set:
  assumes "bt_wf m"
  shows "distinct (map tg_uid (targets_of_set m))" "sort_key tg_uid (targets_of_set m) = targets_of_set m"
proof -
  have u: "map tg_uid (targets_of_set m) = map fst m"
    by (simp add: targets_of_set_def comp_def case_prod_beta')
  then show "distinct (map tg_uid (targets_of_set m))" using bt_wf_distinct [OF assms] by simp
  show "sort_key tg_uid (targets_of_set m) = targets_of_set m"
    using assms by (intro sort_key_id_if_sorted) (simp add: u bt_wf_def strict_sorted_iff)
qed

lemma length_targets_of_set: "length (targets_of_set m) = length m"
  by (simp add: targets_of_set_def)

lemma project_faithful_Inr:
  assumes "project_native debug selections packages family fs = Inr wire"
  shows "parse_config wire = Some \<lparr>cfg_debug = Some debug, cfg_default_mask = 0,
        cfg_targets = targets_of_set (native_target_set selections packages family fs)\<rparr>"
  using assms sort_targets_of_set [OF bt_wf_native_target_set [of selections packages family fs]]
    parse_format_config [of "targets_of_set (native_target_set selections packages family fs)" debug 0]
  by (auto simp: project_native_def Let_def length_targets_of_set split: if_splits)

text \<open>
  C2.  Projection is complete and faithful end to end: it succeeds exactly when the target set fits
  the backends, and then the payload, as a backend's own parser reads it, carries the debug flag, no
  default mask and precisely the target set, uid by uid; nothing is truncated.
\<close>

theorem project_native_faithful:
  "case project_native debug selections packages family fs of
     Inl e \<Rightarrow> nce_total e = length (native_target_set selections packages family fs)
       \<and> MAX_TARGET_UIDS < nce_total e \<and> 0 < overflow e
   | Inr wire \<Rightarrow> parse_config wire = Some \<lparr>cfg_debug = Some debug, cfg_default_mask = 0,
        cfg_targets = targets_of_set (native_target_set selections packages family fs)\<rparr>"
  using project_faithful_Inr [of debug selections packages family fs]
  by (auto simp: project_native_def Let_def overflow_def)

subsection \<open>The capacity report\<close>

lemma per_package_inner:
  "bt_wf m \<Longrightarrow> bt_wf (fold (\<lambda>pkg. bt_update pkg [] (\<lambda>us. us @ [uid])) pkgs m)
   \<and> map_lists (fold (\<lambda>pkg. bt_update pkg [] (\<lambda>us. us @ [uid])) pkgs m) k u =
       (map_lists m k u \<or> u = uid \<and> k \<in> set pkgs)"
proof (induction pkgs arbitrary: m)
  case (Cons p pkgs)
  have "map_lists (bt_update p [] (\<lambda>us. us @ [uid]) m) k u = (map_lists m k u \<or> u = uid \<and> k = p)"
    using Cons.prems by (cases "bt_get m k") (auto simp: map_lists_def bt_get_update)
  with Cons show ?case by auto
qed simp

lemma per_package_outer:
  "bt_wf m \<Longrightarrow>
   bt_wf (fold (\<lambda>(uid, _, pkgs) m. fold (\<lambda>pkg. bt_update pkg [] (\<lambda>us. us @ [uid])) pkgs m) es m)
   \<and> map_lists (fold (\<lambda>(uid, _, pkgs) m. fold (\<lambda>pkg. bt_update pkg [] (\<lambda>us. us @ [uid])) pkgs m) es m) k u =
       (map_lists m k u \<or> (\<exists>h pkgs. (u, h, pkgs) \<in> set es \<and> k \<in> set pkgs))"
proof (induction es arbitrary: m)
  case (Cons e es)
  obtain uid h pkgs where e: "e = (uid, h, pkgs)" by (cases e)
  show ?case
    using Cons.IH [of "fold (\<lambda>pkg. bt_update pkg [] (\<lambda>us. us @ [uid])) pkgs m"]
      per_package_inner [OF Cons.prems, of uid pkgs k u] per_package_inner [OF Cons.prems, of uid pkgs]
    by (auto simp: e)
qed simp

text \<open>
  C35.  A refused projection tells the user everything: the report lists a uid under a package
  exactly when that package put it in the target set, with the packages in descending order of how
  many uids they take.
\<close>

theorem capacity_report_complete:
  assumes "project_native debug selections packages family fs = Inl e"
  shows "((\<exists>p \<in> set (nce_packages e). cp_package p = pkg \<and> uid \<in> set (cp_uids p)) \<longleftrightarrow>
      (\<exists>h pkgs. bt_get (native_target_set selections packages family fs) uid = Some (h, pkgs) \<and> pkg \<in> set pkgs))
    \<and> sorted_wrt (\<lambda>p q. length (cp_uids q) \<le> length (cp_uids p)) (nce_packages e)"
proof -
  let ?m = "native_target_set selections packages family fs"
  have e: "nce_packages e = capacity_packages ?m"
    using assms by (auto simp: project_native_def Let_def split: if_splits)
  have pp: "bt_wf (per_package ?m)"
    "map_lists (per_package ?m) pkg uid = (\<exists>h pkgs. (uid, h, pkgs) \<in> set ?m \<and> pkg \<in> set pkgs)"
    using per_package_outer [of "[]" ?m] by (simp_all add: per_package_def map_lists_def)
  have "(\<exists>p \<in> set (nce_packages e). cp_package p = pkg \<and> uid \<in> set (cp_uids p)) \<longleftrightarrow> map_lists (per_package ?m) pkg uid"
    using bt_get_iff [OF pp(1)] by (force simp: e capacity_packages_def map_lists_def)
  moreover have "bt_get ?m uid = Some v \<longleftrightarrow> (uid, v) \<in> set ?m" for v
    by (rule bt_get_iff [OF bt_wf_native_target_set])
  moreover have "sorted_wrt (\<lambda>p q. length (cp_uids q) \<le> length (cp_uids p)) (nce_packages e)"
  proof -
    have "sorted (map (\<lambda>p. (- int (length (cp_uids p)), cp_package p)) (nce_packages e))"
      by (simp add: e capacity_packages_def)
    then have "sorted_wrt (\<lambda>p q. (- int (length (cp_uids p)), cp_package p) \<le> (- int (length (cp_uids q)), cp_package q)) (nce_packages e)"
      by (simp add: sorted_map)
    then show ?thesis by (rule sorted_wrt_mono_rel [rotated]) (auto simp: less_eq_prod_simp)
  qed
  ultimately show ?thesis using pp(2) by simp
qed


text \<open>One package with one uid more than a backend can hold.\<close>

lemma contributes_single:
  assumes "u \<in> set us" "is_app_uid u"
  shows "contributes [(''a.b'', Enabled True)] [(''a.b'', us)] FamKpm True u ''a.b'' (full_set FamKpm)"
  using assms by (simp add: contributes_def contributed_uids_def package_uids_def APP_PACKAGE_def
      effective_hooks_def filesystem_gated_in_mask_def then_some_def KERNEL_HOOK_MASK_def KPM_HOOK_MASK_def)

lemma overfull_example:
  "MAX_TARGET_UIDS < length (native_target_set [(''a.b'', Enabled True)] [(''a.b'', map of_nat [10000..<10161])] FamKpm True)"
proof -
  let ?S = "[(''a.b'', Enabled True)]"
  let ?P = "[(''a.b'', map of_nat [10000..<10161] :: u32 list)]"
  let ?m = "native_target_set ?S ?P FamKpm True"
  have "(of_nat n :: u32) \<in> fst ` set ?m" if "n \<in> {10000..<10161}" for n
  proof -
    have "is_app_uid (of_nat n)"
    proof -
      have "unat (of_nat n :: u32) = n" using that by (simp add: unat_of_nat)
      then show ?thesis
        using that by (simp add: is_app_uid_def PER_USER_RANGE_def UIDS_PER_USER_def word_le_nat_alt unat_mod)
    qed
    moreover have "(of_nat n :: u32) \<in> set (map of_nat [10000..<10161])"
      using that by (simp only: set_map set_upt image_eqI)
    ultimately have "contributes ?S ?P FamKpm True (of_nat n) ''a.b'' (full_set FamKpm)"
      by (intro contributes_single)
    then have "bt_get ?m (of_nat n) \<noteq> None"
      using recordsD(2) [OF records_native_target_set [of ?P FamKpm True ?S]]
      by (subst (asm) contributions_iff [symmetric]) auto
    then show ?thesis by (simp add: bt_get_None_iff)
  qed
  then have "(of_nat :: nat \<Rightarrow> u32) ` {10000..<10161} \<subseteq> fst ` set ?m" by blast
  moreover have "card ((of_nat :: nat \<Rightarrow> u32) ` {10000..<10161}) = 161"
  proof -
    have "inj_on (of_nat :: nat \<Rightarrow> u32) {10000..<10161}"
    proof (rule inj_onI)
      fix a b :: nat
      assume ab: "a \<in> {10000..<10161}" "b \<in> {10000..<10161}" and eq: "(of_nat a :: u32) = of_nat b"
      from ab have "unat (of_nat a :: u32) = a" "unat (of_nat b :: u32) = b" by (simp_all add: unat_of_nat)
      with eq show "a = b" by metis
    qed
    then show ?thesis by (simp add: card_image)
  qed
  ultimately have "161 \<le> card (fst ` set ?m)"
    by (metis card_mono finite_imageI finite_set)
  also have "\<dots> \<le> length ?m"
    using card_length [of "map fst ?m"] by (simp only: set_map length_map)
  finally have "160 < length ?m" by linarith
  then show ?thesis by (simp only: MAX_TARGET_UIDS_def)
qed


theorem capacity_report_complete_witness:
  "\<exists>e. project_native False [(''a.b'', Enabled True)] [(''a.b'', map of_nat [10000..<10161])] FamKpm True = Inl e
    \<and> sorted_wrt (\<lambda>p q. length (cp_uids q) \<le> length (cp_uids p)) (nce_packages e)"
proof -
  obtain e where e: "project_native False [(''a.b'', Enabled True)] [(''a.b'', map of_nat [10000..<10161])] FamKpm True = Inl e"
    using overfull_example unfolding project_native_def Let_def by metis
  with capacity_report_complete [OF e] show ?thesis by blast
qed



section \<open>Capacity, coverage and reductions\<close>

text \<open>
   A previewed draft that fits can be activated: if the usage of a configuration fits its
  family's limits, projection succeeds with a payload of that size; for the Zygisk family the
  payload also fits the authorization envelope of any boot and nonzero generation.
\<close>

theorem fitting_usage_projects:
  assumes "fits (policy_usage debug selections packages family fs)"
  shows "\<exists>wire. project_native debug selections packages family fs = Inr wire
    \<and> length wire = us_wire_bytes (policy_usage debug selections packages family fs)
    \<and> (family = FamZygisk \<and> valid_boot boot \<and> g \<noteq> 0 \<longrightarrow>
         (\<exists>v. encode \<lparr>au_boot_id = boot, au_generation = g, au_wire = wire\<rparr> = Some v))"
proof -
  let ?m = "native_target_set selections packages family fs"
  let ?wire = "format_config debug 0 (targets_of_set ?m)"
  have small: "length ?m \<le> MAX_TARGET_UIDS" "length ?wire \<le> lim_wire_bytes (family_limits family)"
    using assms by (cases family; simp add: fits_def policy_usage_def Let_def length_targets_of_set)+
  then have proj: "project_native debug selections packages family fs = Inr ?wire"
    by (simp add: project_native_def Let_def)
  moreover have "length ?wire = us_wire_bytes (policy_usage debug selections packages family fs)"
    by (simp add: policy_usage_def Let_def)
  moreover have "\<exists>v. encode \<lparr>au_boot_id = boot, au_generation = g, au_wire = ?wire\<rparr> = Some v"
    if "family = FamZygisk" "valid_boot boot" "g \<noteq> 0"
  proof -
    have "length (dec_str (unat g)) \<le> 20"
      using unat_lt_u64 [of g] by (intro length_radix_str_le) simp_all
    moreover have "length boot = 36" using that(2) by (simp add: valid_boot_def)
    moreover have "parse_config ?wire \<noteq> None"
      using project_faithful_Inr [OF proj] by simp
    ultimately show ?thesis
      using that small(2) by (simp add: encode_def Let_def HEADER_def MAX_BYTES_def)
  qed
  ultimately show ?thesis by blast
qed


theorem fitting_usage_projects_witness:
  "\<exists>wire v. project_native False [(''a.b'', Enabled True)] [(''a.b'', [10123])] FamZygisk True = Inr wire
    \<and> encode \<lparr>au_boot_id = ''01234567-89ab-cdef-0123-456789abcdef'', au_generation = 7, au_wire = wire\<rparr> = Some v"
proof -
  have "fits (policy_usage False [(''a.b'', Enabled True)] [(''a.b'', [10123])] FamZygisk True)"
    by code_simp
  moreover have "valid_boot ''01234567-89ab-cdef-0123-456789abcdef''" by code_simp
  ultimately show ?thesis
    using fitting_usage_projects [of False "[(''a.b'', Enabled True)]" "[(''a.b'', [10123])]" FamZygisk True
        "''01234567-89ab-cdef-0123-456789abcdef''" 7] by force
qed

subsection \<open>Reductions\<close>

lemma effective_hooks_nonzero: "effective_hooks s family fs = Some h \<Longrightarrow> h \<noteq> 0"
  by (auto simp: effective_hooks_def then_some_def split: bind_splits if_splits)

lemma and_not_zeroD: "and a (not b) = 0 \<Longrightarrow> bit (a :: u32) n \<Longrightarrow> bit b n"
proof (rule ccontr)
  assume a: "and a (not b) = 0" "bit a n" "\<not> bit b n"
  have "n < 32" using bit_imp_le_length [OF a(2)] by simp
  with a(2,3) have "bit (and a (not b)) n" by (simp add: bit_simps)
  with a(1) show False by simp
qed

lemma contributes_reduction:
  assumes wf: "bt_wf after" and red: "is_reduction before bfs after afs family"
    and c: "contributes after packages family afs uid pkg h"
  shows "\<exists>h'. contributes before packages family bfs uid pkg h' \<and> (\<forall>n. bit h n \<longrightarrow> bit h' n)"
proof -
  from c obtain s where s: "bt_get after pkg = Some s" "effective_hooks s family afs = Some h"
    "uid \<in> set (contributed_uids packages pkg)" by (auto simp: contributes_def)
  let ?prev = "Option.bind (bt_get before pkg) (\<lambda>s. effective_hooks s family bfs)"
  have z: "and h (not (bits_or_zero ?prev)) = 0"
    using red bt_get_iff [OF wf, of pkg s] s(1,2)
    by (auto simp: is_reduction_def list_all_iff bits_or_zero_def Let_def)
  have "?prev \<noteq> None"
    using z effective_hooks_nonzero [OF s(2)] by (auto simp: bits_or_zero_def split: option.splits)
  then obtain h' where h': "?prev = Some h'" by blast
  then have "contributes before packages family bfs uid pkg h'"
    using s(3) by (auto simp: contributes_def split: bind_splits)
  with z and_not_zeroD [of h h'] h' show ?thesis by (auto simp: bits_or_zero_def)
qed

text \<open>
   A reduction really only removes protection: when an edit is judged a reduction, every uid
  targeted after it was targeted before it, on the same inventory, with at least the same hooks.
\<close>

theorem reduction_shrinks_targets:
  assumes "bt_wf before" "bt_wf after" "is_reduction before bfs after afs family"
    "bt_get (native_target_set after packages family afs) uid = Some (m, ps)"
  shows "\<exists>m' ps'. bt_get (native_target_set before packages family bfs) uid = Some (m', ps')
    \<and> set ps \<subseteq> set ps' \<and> and m (not m') = 0"
proof -
  note a = recordsD [OF records_native_target_set [of packages family afs after],
      unfolded contributions_iff [OF assms(2)]]
  note b = recordsD [OF records_native_target_set [of packages family bfs before],
      unfolded contributions_iff [OF assms(1)]]
  note shrink = contributes_reduction [OF assms(2,3)]
  obtain p h where "contributes after packages family afs uid p h"
    using a(2) [of uid] assms(4) by auto
  then obtain h' where "contributes before packages family bfs uid p h'" using shrink by blast
  then obtain m' ps' where g: "bt_get (native_target_set before packages family bfs) uid = Some (m', ps')"
    using b(2) [of uid] by (cases "bt_get (native_target_set before packages family bfs) uid") auto
  have "set ps \<subseteq> set ps'"
    using a(4) [OF assms(4)] b(4) [OF g] shrink by blast
  moreover have "bit m' n" if "bit m n" for n
    using that a(5) [OF assms(4)] b(5) [OF g] shrink by blast
  then have "and m (not m') = 0"
    by (intro bit_word_eqI) (auto simp: bit_simps)
  ultimately show ?thesis using g by blast
qed

text \<open>
   Required coverage never falls short of the targets: every hook any uid is targeted with is
  among the hooks required of the installation, except the optional filesystem hook while that
  feature is off.
\<close>

theorem required_hooks_cover_targets:
  assumes "bt_wf selections"
    "bt_get (native_target_set selections packages family fs) uid = Some (m, ps)" "bit m n"
  shows "bit (required_hooks selections family fs) n \<or> \<not> fs \<and> n = hook_id FilesystemIfacePaths"
proof -
  obtain p h where "contributes selections packages family fs uid p h" "bit h n"
    using recordsD(5) [OF records_native_target_set assms(2)] assms(3)
    by (auto simp: contributions_iff [OF assms(1)])
  then obtain s where s: "(p, s) \<in> set selections" "effective_hooks s family fs = Some h"
    using bt_get_iff [OF assms(1)] by (auto simp: contributes_def)
  have or_fold: "bit (fold (\<lambda>h m. or m h) hs z) n \<longleftrightarrow> bit z n \<or> (\<exists>h \<in> set hs. bit h n)" for hs and z :: u32
    by (induction hs arbitrary: z) (auto simp: bit_or_iff)
  have "h \<in> set (List.map_filter (\<lambda>(_, s). effective_hooks s family fs) selections)"
    using s by (force simp: set_map_filter_eq)
  then have "bit (fold (\<lambda>h m. or m h) (List.map_filter (\<lambda>(_, s). effective_hooks s family fs) selections) 0) n"
    using or_fold \<open>bit h n\<close> by blast
  moreover have "n < 32" using bit_imp_le_length [OF assms(3)] by simp
  ultimately show ?thesis
    by (auto simp: required_hooks_def Let_def bit_and_iff bit_not_iff bit_hook_bit)
qed

theorem reduction_shrinks_targets_witness:
  "\<exists>m' ps'. bt_get (native_target_set [(''a.b'', Enabled True)] [(''a.b'', [10123])] FamKpm True) 10123 = Some (m', ps')
    \<and> set [''a.b''] \<subseteq> set ps' \<and> and (hook_bit DevIoctl) (not m') = 0"
proof (rule reduction_shrinks_targets)
  show "is_reduction [(''a.b'', Enabled True)] True [(''a.b'', Hooks [''dev_ioctl''])] True FamKpm"
    by code_simp
  show "bt_get (native_target_set [(''a.b'', Hooks [''dev_ioctl''])] [(''a.b'', [10123])] FamKpm True) 10123 =
      Some (hook_bit DevIoctl, [''a.b''])"
    by code_simp
qed simp_all

theorem required_hooks_cover_targets_witness:
  "bit (required_hooks [(''a.b'', Hooks [''dev_ioctl''])] FamKpm True) (hook_id DevIoctl)"
proof -
  have "bt_get (native_target_set [(''a.b'', Hooks [''dev_ioctl''])] [(''a.b'', [10123])] FamKpm True) 10123 =
      Some (hook_bit DevIoctl, [''a.b''])"
    by code_simp
  from required_hooks_cover_targets [OF _ this, of "hook_id DevIoctl"] show ?thesis
    by (auto simp: bit_hook_bit)
qed

end
