(* ===== verification/Telemetry.thy ===== *)
theory Telemetry
  imports Wire_Facts
begin

text \<open>
  The telemetry payloads (\<^verbatim>\<open>crates/protocol/src/telemetry.rs\<close> and the \<^verbatim>\<open>status\<close> reader of
  \<^verbatim>\<open>lib.rs\<close>): counter intervals, display metadata, the tolerant and the strict \<^verbatim>\<open>stats\<close> readers and
  the extraction of one block of a concatenated read.
\<close>

section \<open>Definitions\<close>

definition MAX_TELEMETRY_BYTES :: nat where
  "MAX_TELEMETRY_BYTES = 1024 * 1024"

definition MAX_STATS_CELLS :: nat where
  "MAX_STATS_CELLS = 16384"

datatype counter_interval = Unavailable | Reset | Count u64

definition counter_change :: "u64 \<Rightarrow> u64 option \<Rightarrow> bool \<Rightarrow> counter_interval" where
  "counter_change current baseline captured =
     (if \<not> captured then Unavailable
      else case baseline of
             Some b \<Rightarrow> if current < b then Reset else Count (current - b)
           | None \<Rightarrow> Count (current - 0))"

definition metadata_line :: "string \<Rightarrow> (string \<times> string) option" where
  "metadata_line line =
     do {
       l \<leftarrow> strip_prefix ''meta '' (trim line);
       let (key, val) = (case split_once CHR '' '' l of Some kv \<Rightarrow> kv | None \<Rightarrow> (l, []));
       if trim key \<noteq> [] then Some (key, val) else None
     }"

definition metadata :: "string \<Rightarrow> (string, string) bmap" where
  "metadata raw =
     (if MAX_TELEMETRY_BYTES < length raw then []
      else bt_of_list (List.map_filter metadata_line (str_lines raw)))"

definition display_cell :: "u32 \<Rightarrow> bytes \<Rightarrow> stat_entry option" where
  "display_cell uid word =
     (case split_on (\<lambda>b. b = CHR '':'') word of
        [h, c] \<Rightarrow>
          do {
            hook_id \<leftarrow> parse_hex_prefixed h 32;
            count \<leftarrow> parse_hex_prefixed c 64;
            Some \<lparr>se_uid = uid, se_hook_id = ucast hook_id, se_count = count\<rparr>
          }
      | _ \<Rightarrow> None)"

definition display_row :: "bytes \<Rightarrow> stat_entry list" where
  "display_row line =
     (case tokens line of
        [] \<Rightarrow> []
      | u # words \<Rightarrow>
          (case parse_hex_prefixed u 32 of
             None \<Rightarrow> []
           | Some uid \<Rightarrow> List.map_filter (display_cell (ucast uid)) words))"

definition display_stats :: "bytes \<Rightarrow> stat_entry list option" where
  "display_stats buf =
     (if MAX_TELEMETRY_BYTES < length buf then None
      else do {
        (k, rest) \<leftarrow> parse_header buf;
        if k \<noteq> Stats then None
        else Some (concat (map display_row (List.map_filter significant (wire_lines rest))))
      })"

text \<open>The block a line opens, whatever its version.\<close>

definition classify :: "string \<Rightarrow> kind option" where
  "classify line =
     do {
       content \<leftarrow> significant line;
       case tokens content of
         tag # ver # kd # _ \<Rightarrow>
           if tag \<noteq> ''vpnhide'' then None
           else do { v \<leftarrow> parse_decimal ver; kind_of_token kd }
       | _ \<Rightarrow> None
     }"

definition opens_block :: "string \<Rightarrow> bool" where
  "opens_block line =
     (case significant line of
        None \<Rightarrow> False
      | Some content \<Rightarrow> (case tokens content of [] \<Rightarrow> False | t # _ \<Rightarrow> t = ''vpnhide''))"

fun join :: "string \<Rightarrow> string list \<Rightarrow> string" where
  "join sep [] = []"
| "join sep [x] = x"
| "join sep (x # xs) = x @ sep @ join sep xs"

definition extract_block :: "string \<Rightarrow> kind \<Rightarrow> string option" where
  "extract_block raw k =
     (if MAX_TELEMETRY_BYTES < length raw then None
      else let ls = map drop_cr (split_on (\<lambda>b. b = CHR 0x0A) raw)
           in case dropWhile (\<lambda>l. classify l \<noteq> Some k) ls of
                [] \<Rightarrow> None
              | l # rest \<Rightarrow> Some (join [CHR 0x0A] (l # takeWhile (\<lambda>x. \<not> opens_block x) rest)))"

text \<open>\<^verbatim>\<open>u64::from_str_radix\<close> after a mandatory \<^verbatim>\<open>0x\<close>, and the narrowing \<^verbatim>\<open>u32::try_from\<close>.\<close>

definition stats_hex :: "string \<Rightarrow> u64 option" where
  "stats_hex s = do { h \<leftarrow> strip_prefix ''0x'' s; n \<leftarrow> from_str_radix 64 16 h; Some (of_nat n) }"

definition try_u32 :: "u64 \<Rightarrow> u32 option" where
  "try_u32 v = (if unat v < 2 ^ 32 then Some (ucast v) else None)"

record stats_state =
  ss_rows :: "stat_entry list"
  ss_seen :: "(u32 \<times> u32) list"

definition stats_word :: "u32 \<Rightarrow> string \<Rightarrow> stats_state \<Rightarrow> stats_state option" where
  "stats_word uid word s =
     do {
       (hook, cnt) \<leftarrow> split_once CHR '':'' word;
       h \<leftarrow> stats_hex hook;
       hook_id \<leftarrow> try_u32 h;
       count \<leftarrow> stats_hex cnt;
       if count = 0 \<or> (uid, hook_id) \<in> set (ss_seen s) \<or> MAX_STATS_CELLS \<le> length (ss_rows s)
       then None
       else Some \<lparr>ss_rows = ss_rows s @ [\<lparr>se_uid = uid, se_hook_id = hook_id, se_count = count\<rparr>],
                  ss_seen = (uid, hook_id) # ss_seen s\<rparr>
     }"

fun stats_words :: "u32 \<Rightarrow> string list \<Rightarrow> stats_state \<Rightarrow> stats_state option" where
  "stats_words uid [] s = Some s"
| "stats_words uid (w # ws) s = do { s' \<leftarrow> stats_word uid w s; stats_words uid ws s' }"

definition stats_line :: "string \<Rightarrow> stats_state \<Rightarrow> stats_state option" where
  "stats_line line s =
     (case split_ascii_whitespace line of
        [] \<Rightarrow> None
      | u # words \<Rightarrow>
          do {
            v \<leftarrow> stats_hex u;
            uid \<leftarrow> try_u32 v;
            s' \<leftarrow> stats_words uid words s;
            if words = [] then None else Some s'
          })"

fun stats_lines :: "string \<Rightarrow> bool \<Rightarrow> string list \<Rightarrow> stats_state \<Rightarrow> (bool \<times> stats_state) option" where
  "stats_lines header found [] s = Some (found, s)"
| "stats_lines header found (l # ls) s =
     (if l = header then (if found then None else stats_lines header True ls s)
      else if \<not> found then stats_lines header found ls s
      else do { s' \<leftarrow> stats_line l s; stats_lines header found ls s' })"

definition stats_header :: string where
  "stats_header = ''vpnhide '' @ dec_str (unat TELEMETRY_VERSION) @ '' stats''"

definition parse_stats :: "bytes \<Rightarrow> stat_entry list option" where
  "parse_stats buf =
     (if MAX_TELEMETRY_BYTES < length buf \<or> buf = [] \<or> last buf \<noteq> CHR 0x0A then None
      else do {
        text \<leftarrow> from_utf8 buf;
        (found, s) \<leftarrow> stats_lines stats_header False (str_lines text) \<lparr>ss_rows = [], ss_seen = []\<rparr>;
        if found then Some (ss_rows s) else None
      })"


section \<open>Status round trip\<close>

definition status_record :: "bytes \<Rightarrow> u32 \<Rightarrow> bytes list" where
  "status_record key v = [key, ''0x'' @ hex_u32 v]"

definition status_record_list :: "status \<Rightarrow> bytes list list" where
  "status_record_list s =
     [status_record ''backend'' (stt_backend s), status_record ''kver'' (stt_kver s),
      status_record ''hooks'' (stt_hooks s), status_record ''error'' (stt_error s)]"

definition fields_of :: "status \<Rightarrow> status_fields" where
  "fields_of s = \<lparr>sf_backend = Some (stt_backend s), sf_kver = Some (stt_kver s),
                  sf_hooks = Some (stt_hooks s), sf_error = Some (stt_error s)\<rparr>"

lemma complete_fields_of [simp]: "complete (fields_of s) = Some s"
  by (simp add: complete_def fields_of_def)

lemma telemetry_version_str [simp]: "dec_str (unat TELEMETRY_VERSION) = ''1''"
  by code_simp

lemma format_status_records:
  "format_status s = nl (unwords [''vpnhide'', ''1'', ''status''])
     @ concat (map (\<lambda>r. nl (unwords r)) (status_record_list s))"
  by (simp add: format_status_def status_record_list_def status_record_def)

lemma is_token_prefixed [simp]:
  "is_token (''0x'' @ hex_u32 w)" "is_token (''0x'' @ hex_u64 v)"
  using is_token_hex(1) [of w] is_token_hex(2) [of v] by (auto simp: is_token_def is_visible_def)

lemma parse_hex_prefixed_hex [simp]:
  "parse_hex_prefixed (''0x'' @ hex_u32 w) 32 = Some (ucast w)"
  "parse_hex_prefixed (''0x'' @ hex_u64 v) 64 = Some v"
  by (simp_all add: parse_hex_prefixed_def del: append.simps)

lemma is_record_header: "is_record [''vpnhide'', ''1'', ''status'']" "is_record [''vpnhide'', ''1'', ''stats'']"
  by (simp_all add: is_record_def is_token_def is_visible_def)

lemma header_kind_telemetry [simp]:
  "header_kind (unwords [''vpnhide'', ''1'', ''status'']) = Some Status"
  "header_kind (unwords [''vpnhide'', ''1'', ''stats'']) = Some Stats"
  by code_simp+

lemma map_filter_records:
  "(\<forall>r \<in> set rs. is_record r) \<Longrightarrow> List.map_filter significant (map unwords rs @ ls)
     = map unwords rs @ List.map_filter significant ls"
  by (induction rs) (auto simp: significant_unwords)

lemma is_record_status: "r \<in> set (status_record_list s) \<Longrightarrow> is_record r"
  by (auto simp: status_record_list_def status_record_def is_record_def simp del: append.simps)
     (auto simp: is_token_def is_visible_def)

lemma status_records_status_record:
  assumes "is_token key" "hd key \<noteq> CHR ''#''" "key \<noteq> ''vpnhide''"
  shows "status_records f (unwords (status_record key v) # ls) =
    status_records (set_status_field key v f) ls"
proof -
  have "is_record (status_record key v)"
    using assms by (simp add: status_record_def is_record_def del: append.simps)
  from tokens_record [OF this] have "tokens (unwords (status_record key v)) = [key, ''0x'' @ hex_u32 v]"
    by (simp only: status_record_def)
  with assms(3) show ?thesis by (simp del: append.simps)
qed

lemma status_records_written:
  "status_records default_status_fields (map unwords (status_record_list s) @ ls) =
   status_records (fields_of s) ls"
  by (simp add: status_record_list_def status_records_status_record is_token_def is_visible_def
      del: status_records.simps)
     (simp add: default_status_fields_def set_status_field_def fields_of_def)

lemma parse_status_written:
  "parse_status_fields (format_status s @ rest) =
   status_records (fields_of s) (List.map_filter significant (wire_lines rest))"
proof -
  have r: "\<forall>r \<in> set (status_record_list s). is_record r" using is_record_status by blast
  have "parse_header (format_status s @ rest) =
      Some (Status, concat (map (\<lambda>r. nl (unwords r)) (status_record_list s)) @ rest)"
    using parse_header_record [OF is_record_header(1),
        of "concat (map (\<lambda>r. nl (unwords r)) (status_record_list s)) @ rest"]
    by (simp only: format_status_records append_assoc header_kind_telemetry option.case)
  then show ?thesis
    by (simp add: parse_status_fields_def wire_lines_records_append [OF r] map_filter_records [OF r]
        status_records_written)
qed

text \<open>
   A backend's status block is read back exactly, alone or followed by any block that opens
  with the \<^verbatim>\<open>vpnhide\<close> tag (one proc read returns status and stats together): the reader stops at the
  next header and every field of the observation is present.
\<close>

theorem status_roundtrip:
  assumes "rest = [] \<or> (\<exists>ws more. rest = nl (unwords (''vpnhide'' # ws)) @ more \<and> (\<forall>w \<in> set ws. is_token w))"
  shows "Option.bind (parse_status_fields (format_status s @ rest)) complete = Some s"
  using assms
proof
  assume "rest = []"
  then show ?thesis by (simp add: parse_status_written del: append_Nil2)
next
  assume "\<exists>ws more. rest = nl (unwords (''vpnhide'' # ws)) @ more \<and> (\<forall>w \<in> set ws. is_token w)"
  then obtain ws more where rest: "rest = nl (unwords (''vpnhide'' # ws)) @ more"
    and ws: "\<forall>w \<in> set ws. is_token w" by blast
  have r: "is_record (''vpnhide'' # ws)"
    using ws by (auto simp: is_record_def) (simp add: is_token_def is_visible_def)
  show ?thesis
    unfolding parse_status_written rest wire_lines_record [OF r]
    by (simp add: significant_unwords [OF r] tokens_record [OF r] del: unwords.simps)
qed


theorem status_roundtrip_witness:
  "Option.bind (parse_status_fields (format_status \<lparr>stt_backend = 1, stt_kver = 0x60c, stt_hooks = 0x3ff, stt_error = 0\<rparr>
       @ nl (unwords (''vpnhide'' # [''1'', ''stats''])))) complete =
   Some \<lparr>stt_backend = 1, stt_kver = 0x60c, stt_hooks = 0x3ff, stt_error = 0\<rparr>"
proof (rule status_roundtrip, rule disjI2, intro exI conjI)
  show "nl (unwords (''vpnhide'' # [''1'', ''stats''])) = nl (unwords (''vpnhide'' # [''1'', ''stats''])) @ []"
    by simp
qed (simp add: is_token_def is_visible_def)


section \<open>Stats round trips\<close>

definition stats_cell_word :: "stat_entry \<Rightarrow> bytes" where
  "stats_cell_word e = ''0x'' @ hex_u32 (se_hook_id e) @ '':0x'' @ hex_u64 (se_count e)"

text \<open>The rows of \<open>format_stats\<close>: maximal runs of entries with the same uid.\<close>

function stats_groups :: "stat_entry list \<Rightarrow> (u32 \<times> stat_entry list) list" where
  "stats_groups [] = []"
| "stats_groups (e # es) =
     (se_uid e, e # takeWhile (\<lambda>x. se_uid x = se_uid e) es)
     # stats_groups (dropWhile (\<lambda>x. se_uid x = se_uid e) es)"
  by pat_completeness auto
termination
  by (relation "measure length") (auto simp: le_imp_less_Suc length_dropWhile_le)

definition stats_record :: "u32 \<times> stat_entry list \<Rightarrow> bytes list" where
  "stats_record g = (''0x'' @ hex_u32 (fst g)) # map stats_cell_word (snd g)"

lemma stats_rows_groups: "stats_rows es = map (\<lambda>g. unwords (stats_record g)) (stats_groups es)"
proof -
  have cell: "stats_cell = (\<lambda>e. CHR '' '' # stats_cell_word e)"
    by (auto simp: stats_cell_def stats_cell_word_def)
  show ?thesis
    by (induction es rule: stats_rows.induct) (simp_all add: stats_record_def unwords_Cons cell comp_def)
qed

lemma concat_stats_groups: "concat (map snd (stats_groups es)) = es"
  by (induction es rule: stats_groups.induct) simp_all

lemma stats_groups_uid:
  "g \<in> set (stats_groups es) \<Longrightarrow> snd g \<noteq> [] \<and> (\<forall>e \<in> set (snd g). se_uid e = fst g)"
proof (induction es rule: stats_groups.induct)
  case (2 e es)
  from "2.prems" consider "g = (se_uid e, e # takeWhile (\<lambda>x. se_uid x = se_uid e) es)"
    | "g \<in> set (stats_groups (dropWhile (\<lambda>x. se_uid x = se_uid e) es))"
    unfolding stats_groups.simps by auto
  then show ?case
  proof cases
    case 1
    have "\<forall>x \<in> set (takeWhile (\<lambda>x. se_uid x = se_uid e) es). se_uid x = se_uid e"
      using set_takeWhileD by fast
    then show ?thesis unfolding 1 fst_conv snd_conv list.set(2) by blast
  qed (rule "2.IH")
qed simp

lemma is_token_cell [simp]: "is_token (stats_cell_word e)"
  using is_token_hex(1) [of "se_hook_id e"] is_token_hex(2) [of "se_count e"]
  by (auto simp: stats_cell_word_def is_token_def is_visible_def)

lemma is_record_stats: "is_record (stats_record g)"
  by (auto simp: stats_record_def is_record_def simp del: append.simps)

lemma format_stats_records:
  "format_stats es = nl (unwords [''vpnhide'', ''1'', ''stats''])
     @ concat (map (\<lambda>r. nl (unwords r)) (map stats_record (stats_groups es)))"
  by (simp add: format_stats_def stats_rows_groups comp_def)

lemma hex_no_colon: "CHR '':'' \<notin> set (''0x'' @ hex_u32 w)" "CHR '':'' \<notin> set (''0x'' @ hex_u64 v)"
  using hex_u32_alnum [of _ w] hex_u64_alnum [of _ v] by (auto simp: is_alnum_char_def Let_def dest!: meta_spec [of _ "CHR '':''"])

lemma stats_cell_word_eq:
  "stats_cell_word e = (''0x'' @ hex_u32 (se_hook_id e)) @ CHR '':'' # (''0x'' @ hex_u64 (se_count e))"
  by (simp add: stats_cell_word_def)

lemma split_cell_word:
  "split_on (\<lambda>b. b = CHR '':'') (stats_cell_word e) =
     [''0x'' @ hex_u32 (se_hook_id e), ''0x'' @ hex_u64 (se_count e)]"
proof -
  have "split_on (\<lambda>b. b = CHR '':'') (stats_cell_word e) =
      (''0x'' @ hex_u32 (se_hook_id e)) # split_on (\<lambda>b. b = CHR '':'') (''0x'' @ hex_u64 (se_count e))"
    unfolding stats_cell_word_eq using hex_no_colon by (intro split_on_append_sep) auto
  also have "split_on (\<lambda>b. b = CHR '':'') (''0x'' @ hex_u64 (se_count e)) = [''0x'' @ hex_u64 (se_count e)]"
    using hex_no_colon by (intro split_on_no_sep) auto
  finally show ?thesis .
qed

lemma display_cell_word: "display_cell (se_uid e) (stats_cell_word e) = Some e"
  by (simp add: display_cell_def split_cell_word del: append.simps)

lemma display_row_written:
  assumes "g \<in> set (stats_groups es)"
  shows "display_row (unwords (stats_record g)) = snd g"
proof -
  have "tokens (unwords (stats_record g)) = (''0x'' @ hex_u32 (fst g)) # map stats_cell_word (snd g)"
    using tokens_record [OF is_record_stats, of g] by (simp only: stats_record_def)
  moreover have "List.map_filter (display_cell (fst g)) (map stats_cell_word l) = l"
    if "\<forall>e \<in> set l. se_uid e = fst g" for l
    using that
  proof (induction l)
    case (Cons e l)
    then show ?case using display_cell_word [of e] by simp
  qed simp
  ultimately show ?thesis
    using stats_groups_uid [OF assms] by (simp add: display_row_def del: append.simps)
qed

text \<open>
   The tolerant display reader loses nothing a backend writes: whatever entries a backend
  reports, in any order and with repeated cells, the reader returns exactly them in order, as long
  as the payload is within the byte bound.
\<close>

theorem display_stats_roundtrip:
  assumes "length (format_stats es) \<le> MAX_TELEMETRY_BYTES"
  shows "display_stats (format_stats es) = Some es"
proof -
  let ?rs = "map stats_record (stats_groups es)"
  have r: "\<forall>r \<in> set ?rs. is_record r" using is_record_stats by auto
  have "parse_header (format_stats es) = Some (Stats, concat (map (\<lambda>r. nl (unwords r)) ?rs))"
    using parse_header_record [OF is_record_header(2), of "concat (map (\<lambda>r. nl (unwords r)) ?rs)"]
    by (simp only: format_stats_records append_assoc header_kind_telemetry option.case)
  moreover have "List.map_filter significant (wire_lines (concat (map (\<lambda>r. nl (unwords r)) ?rs))) = map unwords ?rs"
    using map_filter_records [OF r, of "[]"] by (simp only: wire_lines_records [OF r] append_Nil2) simp
  moreover have "concat (map display_row (map unwords ?rs)) = es"
    using display_row_written concat_stats_groups [of es]
    by (simp add: comp_def cong: map_cong)
  ultimately show ?thesis
    using assms by (simp add: display_stats_def)
qed

theorem display_stats_roundtrip_witness:
  "display_stats (format_stats [\<lparr>se_uid = 0x2947, se_hook_id = 1, se_count = 7\<rparr>, \<lparr>se_uid = 0x2947, se_hook_id = 1, se_count = 0\<rparr>]) =
   Some [\<lparr>se_uid = 0x2947, se_hook_id = 1, se_count = 7\<rparr>, \<lparr>se_uid = 0x2947, se_hook_id = 1, se_count = 0\<rparr>]"
proof (rule display_stats_roundtrip)
  show "length (format_stats [\<lparr>se_uid = 0x2947, se_hook_id = 1, se_count = 7\<rparr>, \<lparr>se_uid = 0x2947, se_hook_id = 1, se_count = 0\<rparr>])
     \<le> MAX_TELEMETRY_BYTES"
    by code_simp
qed



subsection \<open>The strict reader\<close>

lemma split_on_cong: "(\<forall>x \<in> set xs. p x = q x) \<Longrightarrow> split_on p xs = split_on q xs"
  by (induction xs) auto

lemma split_ascii_whitespace_record:
  assumes "is_record r"
  shows "split_ascii_whitespace (unwords r) = r"
proof -
  have "is_ascii_whitespace c = is_sep c" if "c \<in> set (unwords r)" for c
    using unwords_printable [OF assms that]
    by (auto simp: is_ascii_whitespace_def is_sep_def is_ascii_printable_def)
  then have "split_ascii_whitespace (unwords r) = tokens (unwords r)"
    by (simp add: split_ascii_whitespace_def tokens_def split_on_cong [of "unwords r" is_ascii_whitespace is_sep])
  with tokens_record [OF assms] show ?thesis by simp
qed

lemma stats_hex_written [simp]:
  "stats_hex (''0x'' @ hex_u32 w) = Some (ucast w)" "stats_hex (''0x'' @ hex_u64 v) = Some v"
proof -
  have "unat w < 2 ^ 64" using unat_lt_u32 [of w] by simp
  then show "stats_hex (''0x'' @ hex_u32 w) = Some (ucast w)" "stats_hex (''0x'' @ hex_u64 v) = Some v"
    using unat_lt_u64 [of v]
    by (simp_all add: stats_hex_def hex_u32_def hex_u64_def from_str_radix_radix_str unsigned_ucast_eq
        del: append.simps)
qed

lemma try_u32_ucast [simp]: "try_u32 (ucast (w :: u32)) = Some w"
  using unat_lt_u32 [of w] by (simp add: try_u32_def unsigned_ucast_eq take_bit_nat_eq_self)

text \<open>The reader state after a list of accepted entries.\<close>

definition stats_after :: "stat_entry list \<Rightarrow> stats_state" where
  "stats_after es = \<lparr>ss_rows = es, ss_seen = rev (map (\<lambda>e. (se_uid e, se_hook_id e)) es)\<rparr>"

definition cells_ok :: "stat_entry list \<Rightarrow> bool" where
  "cells_ok es = (distinct (map (\<lambda>e. (se_uid e, se_hook_id e)) es)
     \<and> (\<forall>e \<in> set es. se_count e \<noteq> 0) \<and> length es \<le> MAX_STATS_CELLS)"

lemma cells_ok_append: "cells_ok (xs @ ys) \<Longrightarrow> cells_ok xs"
  by (simp add: cells_ok_def)

lemma stats_word_written:
  assumes "cells_ok (es @ [e])"
  shows "stats_word (se_uid e) (stats_cell_word e) (stats_after es) = Some (stats_after (es @ [e]))"
proof -
  have "split_once CHR '':'' (stats_cell_word e) = Some (''0x'' @ hex_u32 (se_hook_id e), ''0x'' @ hex_u64 (se_count e))"
    unfolding stats_cell_word_eq using hex_no_colon by (intro split_once_append)
  moreover have "(se_uid e, se_hook_id e) \<notin> set (ss_seen (stats_after es))"
    using assms by (auto simp: cells_ok_def stats_after_def)
  ultimately show ?thesis
    using assms by (simp add: stats_word_def cells_ok_def del: append.simps) (simp add: stats_after_def)
qed

lemma stats_words_written:
  "cells_ok (es @ gs) \<Longrightarrow> (\<forall>e \<in> set gs. se_uid e = u) \<Longrightarrow>
   stats_words u (map stats_cell_word gs) (stats_after es) = Some (stats_after (es @ gs))"
proof (induction gs arbitrary: es)
  case (Cons e gs)
  have "cells_ok (es @ [e])" using Cons.prems(1) cells_ok_append [of "es @ [e]" gs] by simp
  with Cons.prems stats_word_written [of es e] Cons.IH [of "es @ [e]"] show ?case by simp
qed simp

lemma stats_line_written:
  assumes "cells_ok (es @ snd g)" "snd g \<noteq> []" "\<forall>e \<in> set (snd g). se_uid e = fst g"
  shows "stats_line (unwords (stats_record g)) (stats_after es) = Some (stats_after (es @ snd g))"
proof -
  have "split_ascii_whitespace (unwords (stats_record g)) = (''0x'' @ hex_u32 (fst g)) # map stats_cell_word (snd g)"
    using split_ascii_whitespace_record [OF is_record_stats, of g] by (simp only: stats_record_def)
  with assms stats_words_written [of es "snd g" "fst g"] show ?thesis
    by (simp add: stats_line_def del: append.simps)
qed


lemma stats_line_not_header: "unwords (stats_record g) \<noteq> stats_header"
  by (simp add: stats_record_def stats_header_def unwords_Cons)

lemma stats_lines_written:
  assumes "cells_ok (es @ concat (map snd gs))"
    "\<forall>g \<in> set gs. snd g \<noteq> [] \<and> (\<forall>e \<in> set (snd g). se_uid e = fst g)"
  shows "stats_lines stats_header True (map (\<lambda>g. unwords (stats_record g)) gs) (stats_after es) =
    Some (True, stats_after (es @ concat (map snd gs)))"
  using assms
proof (induction gs arbitrary: es)
  case (Cons g gs)
  have "cells_ok (es @ snd g)"
    using Cons.prems(1) cells_ok_append [of "es @ snd g" "concat (map snd gs)"] by simp
  with Cons.prems(2) have "stats_line (unwords (stats_record g)) (stats_after es) = Some (stats_after (es @ snd g))"
    by (intro stats_line_written) simp_all
  moreover have "stats_lines stats_header True (map (\<lambda>g. unwords (stats_record g)) gs) (stats_after (es @ snd g)) =
      Some (True, stats_after (es @ concat (map snd (g # gs))))"
    using Cons.IH [of "es @ snd g"] Cons.prems by simp
  ultimately show ?case
    using stats_line_not_header [of g] by simp
qed simp

lemma stats_lines_skip:
  "stats_header \<notin> set pre \<Longrightarrow> stats_lines stats_header False (pre @ ls) s = stats_lines stats_header False ls s"
  by (induction pre) auto

lemma record_ascii: "is_record r \<Longrightarrow> \<forall>c \<in> set (nl (unwords r)). byte_in c 0 127"
  using unwords_printable(1) by (fastforce simp: is_ascii_printable_def)

lemma last_concat_nl: "ls \<noteq> [] \<Longrightarrow> last (concat (map nl ls)) = CHR 0x0A"
  by (induction ls rule: rev_induct) simp_all

lemma parse_stats_records:
  assumes "\<forall>r \<in> set pre. is_record r" "stats_header \<notin> set (map unwords pre)" "cells_ok es"
    and len: "length (concat (map (\<lambda>r. nl (unwords r)) pre) @ format_stats es) \<le> MAX_TELEMETRY_BYTES"
  shows "parse_stats (concat (map (\<lambda>r. nl (unwords r)) pre) @ format_stats es) = Some es"
proof -
  let ?hdr = "[''vpnhide'', ''1'', ''stats'']"
  let ?rs = "pre @ ?hdr # map stats_record (stats_groups es)"
  let ?buf = "concat (map (\<lambda>r. nl (unwords r)) pre) @ format_stats es"
  have buf: "?buf = concat (map nl (map unwords ?rs))"
    by (simp add: format_stats_records comp_def del: unwords.simps)
  have recs: "\<forall>r \<in> set ?rs. is_record r"
    using assms(1) is_record_stats is_record_header(2) by auto
  have "\<forall>l \<in> set (map unwords ?rs). CHR 0x0A \<notin> set l \<and> CHR 0x0D \<notin> set l"
    unfolding set_map using recs unwords_printable(2,3) by blast
  then have lines: "str_lines ?buf = map unwords ?rs"
    unfolding buf by (rule str_lines_concat)
  have "\<forall>c \<in> set ?buf. byte_in c 0 127"
    unfolding buf using recs record_ascii by (simp only: set_concat set_map comp_def) blast
  then have utf: "from_utf8 ?buf = Some ?buf"
    by (simp only: from_utf8_def utf8_ok_ascii if_True)
  have hdr: "unwords ?hdr = stats_header" by (simp add: stats_header_def)
  have "stats_lines stats_header False (map unwords ?rs) (stats_after []) = Some (True, stats_after es)"
    using stats_lines_written [of "[]" "stats_groups es"] stats_groups_uid [of _ es] assms(2,3)
      stats_lines_skip [OF assms(2)]
    by (simp only: map_append list.map stats_lines.simps hdr if_True if_False
        concat_stats_groups append_Nil map_map comp_def) auto
  moreover have "?buf \<noteq> []" "last ?buf = CHR 0x0A"
    by (simp_all add: format_stats_def last_concat_nl)
  ultimately show ?thesis
    using len by (simp add: parse_stats_def utf lines stats_after_def)
qed

text \<open>
  C36.  The strict reader qualifies exactly what a backend writes: with distinct cells, nonzero
  counters and at most 16384 of them, one proc read of status and stats blocks (or of stats alone)
  yields exactly the written entries, in order.
\<close>

theorem parse_stats_roundtrip:
  assumes "distinct (map (\<lambda>e. (se_uid e, se_hook_id e)) es)" "\<forall>e \<in> set es. se_count e \<noteq> 0"
    "length es \<le> MAX_STATS_CELLS" "length (format_status st @ format_stats es) \<le> MAX_TELEMETRY_BYTES"
  shows "parse_stats (format_status st @ format_stats es) = Some es \<and> parse_stats (format_stats es) = Some es"
proof -
  have c: "cells_ok es" using assms(1-3) by (simp add: cells_ok_def)
  let ?pre = "[''vpnhide'', ''1'', ''status''] # status_record_list st"
  have "format_status st = concat (map (\<lambda>r. nl (unwords r)) ?pre)"
    by (simp add: format_status_records del: unwords.simps)
  moreover have "\<forall>r \<in> set ?pre. is_record r"
    using is_record_status is_record_header(1) by auto
  moreover have "stats_header \<notin> set (map unwords ?pre)"
    by (simp add: stats_header_def status_record_list_def status_record_def)
  ultimately have "parse_stats (format_status st @ format_stats es) = Some es"
    using parse_stats_records [of ?pre es] c assms(4) by simp
  moreover have "parse_stats (format_stats es) = Some es"
    using parse_stats_records [of "[]" es] c assms(4) by simp
  ultimately show ?thesis by simp
qed


theorem parse_stats_roundtrip_witness:
  "parse_stats (format_status \<lparr>stt_backend = 1, stt_kver = 0x60c, stt_hooks = 0x3ff, stt_error = 0\<rparr>
      @ format_stats [\<lparr>se_uid = 0x2947, se_hook_id = 1, se_count = 7\<rparr>, \<lparr>se_uid = 0x2947, se_hook_id = 2, se_count = 1\<rparr>]) =
   Some [\<lparr>se_uid = 0x2947, se_hook_id = 1, se_count = 7\<rparr>, \<lparr>se_uid = 0x2947, se_hook_id = 2, se_count = 1\<rparr>]"
proof -
  let ?es = "[\<lparr>se_uid = 0x2947, se_hook_id = 1, se_count = 7\<rparr>, \<lparr>se_uid = 0x2947, se_hook_id = 2, se_count = 1\<rparr>]"
  let ?st = "\<lparr>stt_backend = 1, stt_kver = 0x60c, stt_hooks = 0x3ff, stt_error = 0\<rparr>"
  have "length (format_status ?st @ format_stats ?es) \<le> MAX_TELEMETRY_BYTES"
    by code_simp
  then show ?thesis
    using parse_stats_roundtrip [of ?es ?st] by (simp add: MAX_STATS_CELLS_def)
qed


subsection \<open>What any accepted capture satisfies\<close>

definition stats_inv :: "stats_state \<Rightarrow> bool" where
  "stats_inv s = (cells_ok (ss_rows s) \<and> set (ss_seen s) = (\<lambda>e. (se_uid e, se_hook_id e)) ` set (ss_rows s))"

lemma stats_inv_word: "stats_inv s \<Longrightarrow> stats_word u w s = Some s' \<Longrightarrow> stats_inv s'"
  by (auto simp: stats_word_def stats_inv_def cells_ok_def split: bind_splits if_splits)

lemma stats_inv_words: "stats_inv s \<Longrightarrow> stats_words u ws s = Some s' \<Longrightarrow> stats_inv s'"
  by (induction ws arbitrary: s) (auto split: bind_splits dest: stats_inv_word)

lemma stats_inv_line: "stats_inv s \<Longrightarrow> stats_line l s = Some s' \<Longrightarrow> stats_inv s'"
  by (auto simp: stats_line_def split: list.splits bind_splits if_splits dest: stats_inv_words)

lemma stats_inv_lines:
  "stats_inv s \<Longrightarrow> stats_lines h f ls s = Some (f', s') \<Longrightarrow> stats_inv s'"
  by (induction ls arbitrary: f s) (auto split: bind_splits if_splits dest: stats_inv_line)

text \<open>
   Whatever bytes the strict reader accepts, the capture it returns names every (uid, hook) cell
  at most once, holds no zero counter and at most 16384 cells, and the bytes end with a complete
  line (a cut capture has no final newline and is refused).
\<close>

theorem parse_stats_sound:
  assumes "parse_stats buf = Some es"
  shows "distinct (map (\<lambda>e. (se_uid e, se_hook_id e)) es) \<and> (\<forall>e \<in> set es. se_count e \<noteq> 0)
    \<and> length es \<le> MAX_STATS_CELLS \<and> last buf = CHR 0x0A \<and> length buf \<le> MAX_TELEMETRY_BYTES"
proof -
  from assms obtain f s where s: "stats_lines stats_header False (str_lines buf) \<lparr>ss_rows = [], ss_seen = []\<rparr> = Some (f, s)"
    "es = ss_rows s" "last buf = CHR 0x0A" "length buf \<le> MAX_TELEMETRY_BYTES"
    by (auto simp: parse_stats_def from_utf8_def split: bind_splits if_splits)
  have "stats_inv s"
    by (rule stats_inv_lines [OF _ s(1)]) (simp add: stats_inv_def cells_ok_def)
  with s show ?thesis by (simp add: stats_inv_def cells_ok_def)
qed

theorem parse_stats_sound_witness:
  "let es = [\<lparr>se_uid = 0x2947, se_hook_id = 1, se_count = 7\<rparr>]
   in distinct (map (\<lambda>e. (se_uid e, se_hook_id e)) es) \<and> (\<forall>e \<in> set es. se_count e \<noteq> 0)
      \<and> length es \<le> MAX_STATS_CELLS \<and> last (format_stats es) = CHR 0x0A
      \<and> length (format_stats es) \<le> MAX_TELEMETRY_BYTES"
  unfolding Let_def
proof (rule parse_stats_sound)
  let ?es = "[\<lparr>se_uid = 0x2947, se_hook_id = 1, se_count = 7\<rparr>]"
  have "length (format_stats ?es) \<le> MAX_TELEMETRY_BYTES" by code_simp
  then show "parse_stats (format_stats ?es) = Some ?es"
    using parse_stats_records [of "[]" ?es] by (simp add: cells_ok_def MAX_STATS_CELLS_def)
qed


section \<open>One block of a concatenated read\<close>

lemma split_on_newline_records:
  "(\<forall>r \<in> set rs. is_record r) \<Longrightarrow>
   map drop_cr (split_on (\<lambda>b. b = CHR 0x0A) (concat (map (\<lambda>r. nl (unwords r)) rs))) = map unwords rs @ [[]]"
proof (induction rs)
  case (Cons r rs)
  have "split_on (\<lambda>b. b = CHR 0x0A) (unwords r @ CHR 0x0A # concat (map (\<lambda>r. nl (unwords r)) rs)) =
      unwords r # split_on (\<lambda>b. b = CHR 0x0A) (concat (map (\<lambda>r. nl (unwords r)) rs))"
    using Cons.prems record_no_newline by (intro split_on_append_sep) auto
  with Cons show ?case by (simp add: drop_cr_unwords)
qed (simp add: drop_cr_def)

lemma join_lines: "join [CHR 0x0A] (ls @ [[]]) = concat (map nl ls)"
proof (induction ls)
  case (Cons l ls)
  then show ?case by (cases "ls @ [[]]") simp_all
qed simp

lemma join_nl: "nl (join [CHR 0x0A] (l # ls)) = nl l @ concat (map nl ls)"
  by (induction ls arbitrary: l) simp_all

lemma opens_block_record: "is_record r \<Longrightarrow> opens_block (unwords r) = (hd r = ''vpnhide'')"
  by (cases r) (auto simp: opens_block_def significant_unwords tokens_record is_record_def simp del: unwords.simps)

lemma classify_header [simp]:
  "classify (unwords [''vpnhide'', ''1'', ''status'']) = Some Status"
  "classify (unwords [''vpnhide'', ''1'', ''stats'']) = Some Stats"
  by code_simp+

lemma classify_not_block:
  assumes "is_record r" "hd r \<noteq> ''vpnhide''"
  shows "classify (unwords r) = None"
  using assms by (cases r) (auto simp: classify_def significant_unwords tokens_record simp del: unwords.simps split: list.splits)


text \<open>
   The two blocks of one proc read separate cleanly: extracting \<^verbatim>\<open>stats\<close> gives exactly the stats
  payload the backend wrote, and extracting \<^verbatim>\<open>status\<close> gives the status payload up to its final
  newline, so neither block can lend records to the other.
\<close>

theorem extract_block_splits:
  assumes "length (format_status st @ format_stats es) \<le> MAX_TELEMETRY_BYTES"
  shows "extract_block (format_status st @ format_stats es) Stats = Some (format_stats es)
    \<and> map_option nl (extract_block (format_status st @ format_stats es) Status) = Some (format_status st)"
proof -
  let ?h1 = "[''vpnhide'', ''1'', ''status'']"
  let ?h2 = "[''vpnhide'', ''1'', ''stats'']"
  let ?r1 = "status_record_list st"
  let ?r2 = "map stats_record (stats_groups es)"
  let ?buf = "format_status st @ format_stats es"
  have recs: "\<forall>r \<in> set (?h1 # ?r1 @ ?h2 # ?r2). is_record r"
    using is_record_status is_record_header is_record_stats by auto
  have "?buf = concat (map (\<lambda>r. nl (unwords r)) (?h1 # ?r1 @ ?h2 # ?r2))"
    by (simp add: format_status_records format_stats_records del: unwords.simps)
  then have ls: "map drop_cr (split_on (\<lambda>b. b = CHR 0x0A) ?buf) =
      unwords ?h1 # map unwords ?r1 @ unwords ?h2 # map unwords ?r2 @ [[]]"
    using split_on_newline_records [OF recs] by (simp del: unwords.simps)
  have b1: "\<forall>l \<in> set (map unwords ?r1). \<not> opens_block l \<and> classify l = None"
    using recs opens_block_record classify_not_block
    by (auto simp: status_record_list_def status_record_def simp del: unwords.simps)
  have b2: "\<forall>l \<in> set (map unwords ?r2 @ [[]]). \<not> opens_block l"
    using recs opens_block_record
    by (auto simp: stats_record_def opens_block_def significant_def simp del: unwords.simps)
  have h2: "opens_block (unwords ?h2)"
    by (simp only: opens_block_record [OF is_record_header(2)] list.sel)
  have t2: "takeWhile (\<lambda>x. \<not> opens_block x) (map unwords ?r2 @ [[]]) = map unwords ?r2 @ [[]]"
    unfolding takeWhile_eq_all_conv using b2 by blast
  have "dropWhile (\<lambda>l. classify l \<noteq> Some Stats)
      (unwords ?h1 # map unwords ?r1 @ unwords ?h2 # map unwords ?r2 @ [[]]) = unwords ?h2 # map unwords ?r2 @ [[]]"
    using b1 by (simp add: dropWhile_append3 del: unwords.simps)
  then have "extract_block ?buf Stats = Some (join [CHR 0x0A] ((unwords ?h2 # map unwords ?r2) @ [[]]))"
    using assms by (simp only: extract_block_def ls Let_def list.case t2 append_Cons) simp
  then have "extract_block ?buf Stats = Some (format_stats es)"
    by (simp only: join_lines) (simp add: format_stats_records comp_def)
  moreover have "takeWhile (\<lambda>x. \<not> opens_block x) (map unwords ?r1 @ unwords ?h2 # map unwords ?r2 @ [[]]) = map unwords ?r1"
    using b1 h2 by (simp add: takeWhile_append del: unwords.simps)
  then have "extract_block ?buf Status = Some (join [CHR 0x0A] (unwords ?h1 # map unwords ?r1))"
    using assms by (simp add: extract_block_def ls del: unwords.simps)
  ultimately show ?thesis
    by (simp add: join_nl format_status_records comp_def del: join.simps)
qed


theorem extract_block_splits_witness:
  "let st = \<lparr>stt_backend = 1, stt_kver = 0x60c, stt_hooks = 0x3ff, stt_error = 0\<rparr>;
       es = [\<lparr>se_uid = 0x2947, se_hook_id = 1, se_count = 7\<rparr>]
   in extract_block (format_status st @ format_stats es) Stats = Some (format_stats es)
      \<and> map_option nl (extract_block (format_status st @ format_stats es) Status) = Some (format_status st)"
  unfolding Let_def by (rule extract_block_splits) code_simp


section \<open>Counter intervals and clamping\<close>

text \<open>A reported count is exact in the naturals: no wrap-around is ever inferred.\<close>

lemma counter_change_exact:
  "counter_change cur base captured = Count d \<Longrightarrow>
   captured \<and> unat d + unat (case base of None \<Rightarrow> 0 | Some b \<Rightarrow> b) = unat cur"
  by (auto simp: counter_change_def unat_sub_if' word_less_nat_alt not_less split: option.splits if_splits)

lemma clamp_back_le: "clamp_back buf n \<le> n"
  by (induction n) (auto simp: le_SucI)

lemma clamp_back_newline:
  "0 < clamp_back buf n \<Longrightarrow> buf ! (clamp_back buf n - 1) = CHR 0x0A"
  by (induction n) (auto split: if_splits)

lemma wire_lines_append_newline:
  "wire_lines (l @ CHR 0x0A # r) = wire_lines (nl l) @ wire_lines r"
proof (induction l rule: wire_lines.induct)
  case (1 l)
  show ?case
  proof (cases "CHR 0x0A \<in> set l")
    case True
    then obtain a b where l: "l = a @ CHR 0x0A # b" "CHR 0x0A \<notin> set a" by (metis split_list_first)
    then have "wire_lines (b @ CHR 0x0A # r) = wire_lines (nl b) @ wire_lines r"
      using "1" by (simp add: break_line_newline)
    with l show ?thesis by (simp add: wire_lines_Cons)
  next
    case False
    then show ?thesis using wire_lines_Cons [of l "[]"] wire_lines_Cons [of l r] by simp
  qed
qed

lemma wire_lines_cut: "\<exists>ls. wire_lines (nl l) = wire_lines l @ ls"
proof (induction l rule: wire_lines.induct)
  case (1 l)
  show ?case
  proof (cases "CHR 0x0A \<in> set l")
    case True
    then obtain a b where l: "l = a @ CHR 0x0A # b" "CHR 0x0A \<notin> set a" by (metis split_list_first)
    then have "\<exists>ls. wire_lines (nl b) = wire_lines b @ ls"
      using "1" by (simp add: break_line_newline)
    with l show ?thesis by (simp add: wire_lines_Cons)
  next
    case False
    then show ?thesis using wire_lines_Cons [of l "[]"] by (cases "l = []") (simp_all add: wire_lines_last)
  qed
qed

text \<open>
   Clamping a snapshot for a single-buffer transport never exceeds the buffer and never cuts a
  record: the lines of the clamped payload are exactly the first lines of the full one, and a
  payload that fits is untouched.
\<close>

theorem clamp_to_line_whole_lines:
  "clamp_to_line buf outlen \<le> min outlen (length buf)
   \<and> (length buf \<le> outlen \<longrightarrow> clamp_to_line buf outlen = length buf)
   \<and> (\<exists>rest. wire_lines buf = wire_lines (take (clamp_to_line buf outlen) buf) @ rest)"
proof (cases "length buf \<le> outlen")
  case True
  then show ?thesis by (simp add: clamp_to_line_def)
next
  case False
  define p where "p = clamp_back buf outlen"
  have p: "p \<le> outlen" "clamp_to_line buf outlen = p - 1"
    using False clamp_back_le [of buf outlen] by (simp_all add: p_def clamp_to_line_def Let_def)
  have "\<exists>rest. wire_lines buf = wire_lines (take (p - 1) buf) @ rest"
  proof (cases "0 < p")
    case True
    then have "buf ! (p - 1) = CHR 0x0A" unfolding p_def by (rule clamp_back_newline)
    moreover have "p - 1 < length buf" using p False by linarith
    ultimately have "buf = take (p - 1) buf @ CHR 0x0A # drop (Suc (p - 1)) buf"
      using id_take_nth_drop by metis
    with wire_lines_append_newline [of "take (p - 1) buf"] wire_lines_cut [of "take (p - 1) buf"]
    show ?thesis by (metis append_assoc)
  qed simp
  with p False show ?thesis by simp
qed

theorem clamp_to_line_whole_lines_witness:
  "clamp_to_line (nl ''ab'' @ ''cd'') 4 \<le> 4
   \<and> (\<exists>rest. wire_lines (nl ''ab'' @ ''cd'') =
         wire_lines (take (clamp_to_line (nl ''ab'' @ ''cd'') 4) (nl ''ab'' @ ''cd'')) @ rest)"
  using clamp_to_line_whole_lines [of "nl ''ab'' @ ''cd''" 4] by (auto simp only: min.bounded_iff)

end
