(* ===== verification/Canonical_Config.thy ===== *)
theory Canonical_Config
  imports Ordered_Maps
begin

text \<open>
  The canonical configuration (\<^verbatim>\<open>crates/core-rpc/src/config.rs\<close>) and the vocabulary of typed edits
  (\<^verbatim>\<open>crates/core-rpc/src/edit.rs\<close>), with the well-formedness the disk codec guarantees: details of a
  role that is off are absent, and an app without any role is not listed.
\<close>

section \<open>Configuration\<close>

datatype port_protocol = Both | Tcp | Udp

record port_rule =
  rule_protocol :: port_protocol
  rule_start :: u16
  rule_end :: u16

record port_policy =
  pp_mode :: string
  pp_preset :: "string option"
  pp_rules :: "port_rule list"

record native_role =
  nr_enabled :: bool
  nr_kernel :: "string list option"
  nr_zygisk :: "string list option"

record app_config =
  ac_java :: bool
  ac_java_hooks :: "string list option"
  ac_native :: native_role
  ac_app_hiding :: bool
  ac_ports :: bool
  ac_port_policy :: "port_policy option"
  ac_hidden :: bool

record settings =
  st_remember_superkey :: bool
  st_optional_features :: "string list"
  st_auto_hide_vpn_services :: bool
  st_auto_hide_vpn_name :: bool
  st_auto_hide_excluded_packages :: "string list"
  st_auto_hidden_packages :: "string list"

record canonical_config =
  cc_version :: u32
  cc_debug :: bool
  cc_debug_switch :: bool
  cc_apps :: "(string, app_config) bmap"
  cc_settings :: settings

definition default_settings :: settings where
  "default_settings =
     \<lparr>st_remember_superkey = False, st_optional_features = [], st_auto_hide_vpn_services = True,
      st_auto_hide_vpn_name = False, st_auto_hide_excluded_packages = [], st_auto_hidden_packages = []\<rparr>"

definition default_canonical :: canonical_config where
  "default_canonical =
     \<lparr>cc_version = 1, cc_debug = False, cc_debug_switch = False, cc_apps = [], cc_settings = default_settings\<rparr>"

definition default_native :: native_role where
  "default_native = \<lparr>nr_enabled = False, nr_kernel = None, nr_zygisk = None\<rparr>"

definition default_app :: app_config where
  "default_app =
     \<lparr>ac_java = False, ac_java_hooks = None, ac_native = default_native, ac_app_hiding = False,
      ac_ports = False, ac_port_policy = None, ac_hidden = False\<rparr>"


section \<open>Edits\<close>

datatype config_toggle =
  Filesystem | Debug | DebugSwitch | RememberSuperkey | AutoHideServices | AutoHideName

datatype config_set_field = OptionalFeatures | AutoHideExcludedPackages | AutoHiddenPackages

datatype config_app_field = Java | Native | AppHiding | Ports | Hidden

datatype config_edit =
    Batch "config_edit list"
  | Toggle config_toggle bool
  | SettingSet config_set_field "string list"
  | App string config_app_field app_config
  | RemoveApp string
  | Replace canonical_config
  | RepairActivation

definition MAX_BATCH_EDITS :: nat where
  "MAX_BATCH_EDITS = 4096"

text \<open>An app with no role at all is dropped.\<close>

definition has_any_role :: "app_config \<Rightarrow> bool" where
  "has_any_role a = (ac_java a \<or> nr_enabled (ac_native a) \<or> ac_app_hiding a \<or> ac_ports a \<or> ac_hidden a)"


section \<open>Well-formedness\<close>

definition app_wf :: "app_config \<Rightarrow> bool" where
  "app_wf a = ((ac_java a \<or> ac_java_hooks a = None) \<and> (ac_ports a \<or> ac_port_policy a = None)
     \<and> (nr_enabled (ac_native a) \<or> ac_native a = default_native))"

definition settings_wf :: "settings \<Rightarrow> bool" where
  "settings_wf s = (bs_wf (st_optional_features s) \<and> bs_wf (st_auto_hide_excluded_packages s)
     \<and> bs_wf (st_auto_hidden_packages s))"

definition config_wf :: "canonical_config \<Rightarrow> bool" where
  "config_wf c = (bt_wf (cc_apps c) \<and> settings_wf (cc_settings c)
     \<and> (\<forall>p a. bt_get (cc_apps c) p = Some a \<longrightarrow> app_wf a \<and> has_any_role a))"

fun edit_wf :: "config_edit \<Rightarrow> bool" where
  "edit_wf (Batch es) = list_all edit_wf es"
| "edit_wf (SettingSet f vs) = bs_wf vs"
| "edit_wf (App p f v) = app_wf v"
| "edit_wf (Replace c) = config_wf c"
| "edit_wf _ = True"

text \<open>The roles of an app, listed or not.\<close>

definition app_of :: "canonical_config \<Rightarrow> string \<Rightarrow> app_config" where
  "app_of c p = (case bt_get (cc_apps c) p of None \<Rightarrow> default_app | Some a \<Rightarrow> a)"

lemma default_app_facts [simp]: "app_wf default_app" "\<not> has_any_role default_app"
  by (simp_all add: app_wf_def default_app_def has_any_role_def default_native_def)

lemma no_role_default: "app_wf a \<Longrightarrow> \<not> has_any_role a \<Longrightarrow> a = default_app"
  by (auto simp: app_wf_def has_any_role_def default_app_def intro: app_config.equality)

lemma app_wf_app_of: "config_wf c \<Longrightarrow> app_wf (app_of c p)"
  by (auto simp: config_wf_def app_of_def split: option.split)

lemma listed_not_default: "config_wf c \<Longrightarrow> bt_get (cc_apps c) p \<noteq> Some default_app"
  unfolding config_wf_def using default_app_facts(2) by blast

text \<open>A well-formed configuration is determined by its switches, its sets and the roles of each app.\<close>

lemma config_ext:
  assumes "config_wf c" "config_wf d"
    and "cc_version c = cc_version d" "cc_debug c = cc_debug d" "cc_debug_switch c = cc_debug_switch d"
    and "cc_settings c = cc_settings d" and app: "\<And>p. app_of c p = app_of d p"
  shows "c = d"
proof -
  have "bt_get (cc_apps c) p = bt_get (cc_apps d) p" for p
    using listed_not_default [OF assms(1), of p] listed_not_default [OF assms(2), of p] app [of p]
    by (auto simp: app_of_def split: option.splits)
  then have "cc_apps c = cc_apps d"
    using assms(1,2) by (intro bt_ext) (simp_all add: config_wf_def)
  with assms(3-6) show ?thesis by (simp add: canonical_config.equality)
qed

end
