(* ===== verification/Config_Edit.thy ===== *)
theory Config_Edit
  imports Canonical_Config
begin

text \<open>
  The edit reducer and the optimistic concurrency of edits (\<^verbatim>\<open>crates/core-rpc/src/config_edit.rs\<close>):
  applying typed edits, the field deltas of two configurations, write sets, conflict detection and
  the recording of committed writes.
\<close>

section \<open>The reducer\<close>

definition FILESYSTEM_FEATURE :: string where
  "FILESYSTEM_FEATURE = ''filesystem_iface_paths''"

fun apply_toggle :: "canonical_config \<Rightarrow> config_toggle \<Rightarrow> bool \<Rightarrow> canonical_config" where
  "apply_toggle c Filesystem enabled =
     c\<lparr>cc_settings := (cc_settings c)\<lparr>st_optional_features :=
        (if enabled then bs_insert FILESYSTEM_FEATURE (st_optional_features (cc_settings c))
         else bs_remove FILESYSTEM_FEATURE (st_optional_features (cc_settings c)))\<rparr>\<rparr>"
| "apply_toggle c Debug enabled = c\<lparr>cc_debug := enabled\<rparr>"
| "apply_toggle c DebugSwitch enabled = c\<lparr>cc_debug_switch := enabled\<rparr>"
| "apply_toggle c RememberSuperkey enabled =
     c\<lparr>cc_settings := (cc_settings c)\<lparr>st_remember_superkey := enabled\<rparr>\<rparr>"
| "apply_toggle c AutoHideServices enabled =
     c\<lparr>cc_settings := (cc_settings c)\<lparr>st_auto_hide_vpn_services := enabled\<rparr>\<rparr>"
| "apply_toggle c AutoHideName enabled =
     c\<lparr>cc_settings := (cc_settings c)\<lparr>st_auto_hide_vpn_name := enabled\<rparr>\<rparr>"

fun apply_setting_set :: "canonical_config \<Rightarrow> config_set_field \<Rightarrow> string list \<Rightarrow> canonical_config" where
  "apply_setting_set c OptionalFeatures vs =
     c\<lparr>cc_settings := (cc_settings c)\<lparr>st_optional_features := vs\<rparr>\<rparr>"
| "apply_setting_set c AutoHideExcludedPackages vs =
     c\<lparr>cc_settings := (cc_settings c)\<lparr>st_auto_hide_excluded_packages := vs\<rparr>\<rparr>"
| "apply_setting_set c AutoHiddenPackages vs =
     c\<lparr>cc_settings := (cc_settings c)\<lparr>st_auto_hidden_packages := vs\<rparr>\<rparr>"

fun merge_app :: "app_config \<Rightarrow> app_config \<Rightarrow> config_app_field \<Rightarrow> app_config" where
  "merge_app base nxt Java = base\<lparr>ac_java := ac_java nxt, ac_java_hooks := ac_java_hooks nxt\<rparr>"
| "merge_app base nxt Native = base\<lparr>ac_native := ac_native nxt\<rparr>"
| "merge_app base nxt AppHiding = base\<lparr>ac_app_hiding := ac_app_hiding nxt\<rparr>"
| "merge_app base nxt Ports = base\<lparr>ac_ports := ac_ports nxt, ac_port_policy := ac_port_policy nxt\<rparr>"
| "merge_app base nxt Hidden = base\<lparr>ac_hidden := ac_hidden nxt\<rparr>"

definition apply_app :: "canonical_config \<Rightarrow> string \<Rightarrow> config_app_field \<Rightarrow> app_config \<Rightarrow> canonical_config" where
  "apply_app c pkg field v =
     (let base = (case bt_get (cc_apps c) pkg of None \<Rightarrow> default_app | Some a \<Rightarrow> a);
          merged = merge_app base v field
      in if has_any_role merged then c\<lparr>cc_apps := bt_insert pkg merged (cc_apps c)\<rparr>
         else c\<lparr>cc_apps := bt_remove pkg (cc_apps c)\<rparr>)"

fun apply_canonical_edit :: "canonical_config \<Rightarrow> config_edit \<Rightarrow> canonical_config"
and apply_edits :: "canonical_config \<Rightarrow> config_edit list \<Rightarrow> canonical_config" where
  "apply_canonical_edit c (Batch edits) = apply_edits c edits"
| "apply_canonical_edit c (Toggle field enabled) = apply_toggle c field enabled"
| "apply_canonical_edit c (SettingSet field vs) = apply_setting_set c field vs"
| "apply_canonical_edit c (App pkg field v) = apply_app c pkg field v"
| "apply_canonical_edit c (RemoveApp pkg) = c\<lparr>cc_apps := bt_remove pkg (cc_apps c)\<rparr>"
| "apply_canonical_edit c (Replace config) = config"
| "apply_canonical_edit c RepairActivation = c"
| "apply_edits c [] = c"
| "apply_edits c (e # es) = apply_edits (apply_canonical_edit c e) es"

fun toggle_value :: "canonical_config \<Rightarrow> config_toggle \<Rightarrow> bool" where
  "toggle_value c Filesystem = (FILESYSTEM_FEATURE \<in> set (st_optional_features (cc_settings c)))"
| "toggle_value c Debug = cc_debug c"
| "toggle_value c DebugSwitch = cc_debug_switch c"
| "toggle_value c RememberSuperkey = st_remember_superkey (cc_settings c)"
| "toggle_value c AutoHideServices = st_auto_hide_vpn_services (cc_settings c)"
| "toggle_value c AutoHideName = st_auto_hide_vpn_name (cc_settings c)"

fun set_value :: "canonical_config \<Rightarrow> config_set_field \<Rightarrow> string list" where
  "set_value c OptionalFeatures = st_optional_features (cc_settings c)"
| "set_value c AutoHideExcludedPackages = st_auto_hide_excluded_packages (cc_settings c)"
| "set_value c AutoHiddenPackages = st_auto_hidden_packages (cc_settings c)"

definition diff_toggles :: "canonical_config \<Rightarrow> canonical_config \<Rightarrow> config_edit list" where
  "diff_toggles base desired =
     map (\<lambda>f. Toggle f (toggle_value desired f))
       (filter (\<lambda>f. toggle_value base f \<noteq> toggle_value desired f)
          [Debug, DebugSwitch, RememberSuperkey, AutoHideServices, AutoHideName])"

definition diff_sets :: "canonical_config \<Rightarrow> canonical_config \<Rightarrow> config_edit list" where
  "diff_sets base desired =
     map (\<lambda>f. SettingSet f (set_value desired f))
       (filter (\<lambda>f. set_value base f \<noteq> set_value desired f)
          [OptionalFeatures, AutoHideExcludedPackages, AutoHiddenPackages])"

definition diff_app :: "canonical_config \<Rightarrow> canonical_config \<Rightarrow> string \<Rightarrow> config_edit list" where
  "diff_app base desired pkg =
     (let previous = (case bt_get (cc_apps base) pkg of None \<Rightarrow> default_app | Some a \<Rightarrow> a);
          app = (case bt_get (cc_apps desired) pkg of None \<Rightarrow> default_app | Some a \<Rightarrow> a)
      in map (\<lambda>f. App pkg f app)
           (filter (\<lambda>f. merge_app previous app f \<noteq> previous) [Java, Native, AppHiding, Ports, Hidden]))"

definition diff_fields :: "canonical_config \<Rightarrow> canonical_config \<Rightarrow> config_edit list" where
  "diff_fields base desired =
     diff_toggles base desired @ diff_sets base desired
     @ concat (map (diff_app base desired)
         (bs_of_list (bt_keys (cc_apps base) @ bt_keys (cc_apps desired))))"


section \<open>Write sets and conflicts\<close>

type_synonym field_path = string

definition segments :: "field_path \<Rightarrow> string list" where
  "segments a = filter (\<lambda>s. s \<noteq> []) (split_on (\<lambda>c. c = CHR ''/'') a)"

definition fields_overlap :: "field_path \<Rightarrow> field_path \<Rightarrow> bool" where
  "fields_overlap x y =
     (let a = segments x; b = segments y
      in if a = [] \<or> b = [] then False
         else length b \<le> length a \<and> take (length b) a = b \<or> length a \<le> length b \<and> take (length a) b = a)"

fun toggle_path :: "config_toggle \<Rightarrow> field_path" where
  "toggle_path Filesystem = ''settings/optionalFeatures''"
| "toggle_path Debug = ''debug''"
| "toggle_path DebugSwitch = ''debugSwitch''"
| "toggle_path RememberSuperkey = ''settings/rememberSuperkey''"
| "toggle_path AutoHideServices = ''settings/autoHideVpnServices''"
| "toggle_path AutoHideName = ''settings/autoHideVpnName''"

fun set_field_path :: "config_set_field \<Rightarrow> field_path" where
  "set_field_path OptionalFeatures = ''settings/optionalFeatures''"
| "set_field_path AutoHideExcludedPackages = ''settings/autoHideExcludedPackages''"
| "set_field_path AutoHiddenPackages = ''settings/autoHiddenPackages''"

fun app_field_segment :: "config_app_field \<Rightarrow> string" where
  "app_field_segment Java = ''java''"
| "app_field_segment Native = ''native''"
| "app_field_segment AppHiding = ''appHiding''"
| "app_field_segment Ports = ''ports''"
| "app_field_segment Hidden = ''hidden''"

fun write_set :: "config_edit \<Rightarrow> field_path list" where
  "write_set (Batch edits) = bs_of_list (concat (map write_set edits))"
| "write_set (Toggle field _) = [toggle_path field]"
| "write_set (SettingSet field _) = [set_field_path field]"
| "write_set (App pkg field _) = [''apps/'' @ pkg @ ''/'' @ app_field_segment field]"
| "write_set (RemoveApp pkg) = [''apps/'' @ pkg]"
| "write_set (Replace _) = [''apps'', ''settings'', ''debug'', ''debugSwitch'']"
| "write_set RepairActivation = []"

definition field_edit :: "config_edit \<Rightarrow> bool" where
  "field_edit e = (case e of Batch _ \<Rightarrow> False | Replace _ \<Rightarrow> False | RepairActivation \<Rightarrow> False | _ \<Rightarrow> True)"

definition validate_edit :: "config_edit \<Rightarrow> string + unit" where
  "validate_edit edit =
     (case edit of
        Batch edits \<Rightarrow>
          if MAX_BATCH_EDITS < length edits then Inl ''too many config edits''
          else if list_ex (\<lambda>e. \<not> field_edit e) edits then Inl ''config batch accepts field edits only''
          else Inr ()
      | _ \<Rightarrow> Inr ())"

type_synonym field_revisions = "(field_path, u64) bmap"

definition conflict_field ::
    "u64 \<Rightarrow> u64 \<Rightarrow> config_edit \<Rightarrow> field_revisions \<Rightarrow> field_path option" where
  "conflict_field base_revision current_revision edit field_revisions =
     (if current_revision < base_revision then Some ''config''
      else if base_revision = current_revision then None
      else List.find (\<lambda>w. list_ex (\<lambda>(written, rev). base_revision < rev \<and> fields_overlap w written) field_revisions)
             (write_set edit))"

definition note_writes :: "field_revisions \<Rightarrow> field_path list \<Rightarrow> u64 \<Rightarrow> field_revisions" where
  "note_writes field_revisions writes revision =
     fold (\<lambda>w m. bt_insert w (case bt_get m w of None \<Rightarrow> revision | Some prev \<Rightarrow> max prev revision) m)
       writes field_revisions"



section \<open>Well-formedness is preserved\<close>

lemma app_wf_merge: "app_wf a \<Longrightarrow> app_wf v \<Longrightarrow> app_wf (merge_app a v f)"
  by (cases f) (auto simp: app_wf_def)

lemma apply_app_eq:
  "apply_app c pkg f v =
     (let a = merge_app (app_of c pkg) v f
      in c\<lparr>cc_apps := (if has_any_role a then bt_insert pkg a (cc_apps c) else bt_remove pkg (cc_apps c))\<rparr>)"
  by (simp add: apply_app_def app_of_def Let_def)

lemma config_wf_apply_app:
  assumes "config_wf c" "app_wf v"
  shows "config_wf (apply_app c pkg f v)"
proof -
  have "app_wf (merge_app (app_of c pkg) v f)"
    using assms by (simp add: app_wf_merge app_wf_app_of)
  with assms(1) show ?thesis
    by (auto simp: apply_app_eq Let_def config_wf_def bt_get_insert bt_get_remove split: if_splits)
qed

lemma config_wf_toggle: "config_wf c \<Longrightarrow> config_wf (apply_toggle c f b)"
  by (cases f) (auto simp: config_wf_def settings_wf_def)

lemma config_wf_setting_set: "config_wf c \<Longrightarrow> bs_wf vs \<Longrightarrow> config_wf (apply_setting_set c f vs)"
  by (cases f) (auto simp: config_wf_def settings_wf_def)

lemma config_wf_remove: "config_wf c \<Longrightarrow> config_wf (c\<lparr>cc_apps := bt_remove pkg (cc_apps c)\<rparr>)"
  by (auto simp: config_wf_def bt_get_remove split: if_splits)

lemma config_wf_apply:
  "config_wf c \<Longrightarrow> edit_wf e \<Longrightarrow> config_wf (apply_canonical_edit c e)"
  "config_wf c \<Longrightarrow> list_all edit_wf es \<Longrightarrow> config_wf (apply_edits c es)"
  by (induction c e and c es rule: apply_canonical_edit_apply_edits.induct)
     (simp_all add: config_wf_toggle config_wf_setting_set config_wf_apply_app config_wf_remove)

text \<open>
   Every edit keeps the configuration well formed: no app without a role stays listed, no role
  that is off keeps details, packages stay sorted and unique, for any sequence of well-formed edits.
\<close>

theorem edits_preserve_config_wf:
  assumes "config_wf c" "edit_wf e"
  shows "config_wf (apply_canonical_edit c e)"
  using assms by (rule config_wf_apply(1))

theorem edits_preserve_config_wf_witness:
  "config_wf (apply_canonical_edit default_canonical (Batch [Toggle Filesystem True, App ''a.b'' Hidden (default_app\<lparr>ac_hidden := True\<rparr>)]))"
  by (rule edits_preserve_config_wf)
     (simp_all add: default_canonical_def config_wf_def settings_wf_def default_settings_def bs_wf_def app_wf_def default_app_def)


section \<open>What an edit changes\<close>

lemma app_of_apply_app:
  assumes "config_wf c" "app_wf v"
  shows "app_of (apply_app c p f v) q = (if q = p then merge_app (app_of c p) v f else app_of c q)"
proof -
  let ?a = "merge_app (app_of c p) v f"
  have "app_wf ?a" using assms by (simp add: app_wf_merge app_wf_app_of)
  then have "\<not> has_any_role ?a \<Longrightarrow> ?a = default_app" by (rule no_role_default)
  moreover have "bt_wf (cc_apps c)" using assms(1) by (simp add: config_wf_def)
  ultimately show ?thesis
    by (auto simp: apply_app_eq Let_def app_of_def bt_get_insert bt_get_remove)
qed


lemma app_of_cong: "cc_apps c = cc_apps d \<Longrightarrow> app_of c p = app_of d p"
  by (simp add: app_of_def)

lemma toggle_apps [simp]: "cc_apps (apply_toggle c f b) = cc_apps c" "cc_version (apply_toggle c f b) = cc_version c"
  by (cases f; simp)+

lemma setting_set_frame [simp]:
  "cc_apps (apply_setting_set c f vs) = cc_apps c" "cc_version (apply_setting_set c f vs) = cc_version c"
  "cc_debug (apply_setting_set c f vs) = cc_debug c" "cc_debug_switch (apply_setting_set c f vs) = cc_debug_switch c"
  by (cases f; simp)+

lemma apply_app_frame [simp]:
  "cc_version (apply_app c p f v) = cc_version c" "cc_debug (apply_app c p f v) = cc_debug c"
  "cc_debug_switch (apply_app c p f v) = cc_debug_switch c" "cc_settings (apply_app c p f v) = cc_settings c"
  by (simp_all add: apply_app_eq Let_def)



section \<open>Deltas\<close>

lemma apply_edits_append: "apply_edits c (xs @ ys) = apply_edits (apply_edits c xs) ys"
  by (induction xs arbitrary: c) simp_all

lemma apply_diff_toggles:
  "apply_edits base (diff_toggles base desired) =
     base\<lparr>cc_debug := cc_debug desired, cc_debug_switch := cc_debug_switch desired,
          cc_settings := (cc_settings base)
            \<lparr>st_remember_superkey := st_remember_superkey (cc_settings desired),
             st_auto_hide_vpn_services := st_auto_hide_vpn_services (cc_settings desired),
             st_auto_hide_vpn_name := st_auto_hide_vpn_name (cc_settings desired)\<rparr>\<rparr>"
  by (simp add: diff_toggles_def)


lemma apply_diff_sets:
  assumes "\<And>f. set_value c f = set_value base f"
  shows "apply_edits c (diff_sets base desired) =
    c\<lparr>cc_settings := (cc_settings c)
         \<lparr>st_optional_features := st_optional_features (cc_settings desired),
          st_auto_hide_excluded_packages := st_auto_hide_excluded_packages (cc_settings desired),
          st_auto_hidden_packages := st_auto_hidden_packages (cc_settings desired)\<rparr>\<rparr>"
  using assms [of OptionalFeatures] assms [of AutoHideExcludedPackages] assms [of AutoHiddenPackages]
  by (simp add: diff_sets_def)

definition same_switches :: "canonical_config \<Rightarrow> canonical_config \<Rightarrow> bool" where
  "same_switches c d = (cc_version c = cc_version d \<and> cc_debug c = cc_debug d
     \<and> cc_debug_switch c = cc_debug_switch d \<and> cc_settings c = cc_settings d)"

lemma apply_app_fields:
  assumes "config_wf c" "app_wf v"
  shows "let d = apply_edits c (map (\<lambda>f. App p f v) fs)
    in config_wf d \<and> same_switches c d \<and>
       (\<forall>q. app_of d q = (if q = p then fold (\<lambda>f a. merge_app a v f) fs (app_of c p) else app_of c q))"
  using assms(1)
proof (induction fs arbitrary: c)
  case Nil
  then show ?case by (simp add: same_switches_def)
next
  case (Cons f fs)
  let ?c = "apply_app c p f v"
  have "config_wf ?c" using Cons.prems assms(2) by (rule config_wf_apply_app)
  moreover have "same_switches c ?c" by (simp add: same_switches_def)
  ultimately show ?case
    using Cons.IH [of ?c] app_of_apply_app [OF Cons.prems assms(2)] by (simp add: Let_def same_switches_def)
qed

lemma fold_merge_changed:
  "fold (\<lambda>f a. merge_app a v f) (filter (\<lambda>f. merge_app a v f \<noteq> a) [Java, Native, AppHiding, Ports, Hidden]) a = v"
  by (cases a; cases v) simp

lemma apply_diff_app:
  assumes "config_wf c" "config_wf desired" "app_of c p = app_of base p"
  shows "let d = apply_edits c (diff_app base desired p)
    in config_wf d \<and> same_switches c d \<and>
       (\<forall>q. app_of d q = (if q = p then app_of desired p else app_of c q))"
proof -
  let ?fs = "filter (\<lambda>f. merge_app (app_of base p) (app_of desired p) f \<noteq> app_of base p) [Java, Native, AppHiding, Ports, Hidden]"
  have "diff_app base desired p = map (\<lambda>f. App p f (app_of desired p)) ?fs"
    by (simp only: diff_app_def app_of_def Let_def)
  moreover have "app_wf (app_of desired p)" using assms(2) by (rule app_wf_app_of)
  ultimately show ?thesis
    using apply_app_fields [OF assms(1), of "app_of desired p" p ?fs] fold_merge_changed [of "app_of desired p" "app_of base p"] assms(3)
    by (simp only:)
qed

lemma apply_diff_apps:
  assumes "config_wf desired" "distinct ps"
  shows "config_wf c \<Longrightarrow> (\<forall>p \<in> set ps. app_of c p = app_of base p) \<Longrightarrow>
    let d = apply_edits c (concat (map (diff_app base desired) ps))
    in config_wf d \<and> same_switches c d \<and>
       (\<forall>q. app_of d q = (if q \<in> set ps then app_of desired q else app_of c q))"
  using assms(2)
proof (induction ps arbitrary: c)
  case Nil
  then show ?case by (simp add: same_switches_def)
next
  case (Cons p ps)
  define d where "d = apply_edits c (diff_app base desired p)"
  have d: "config_wf d" "same_switches c d"
    "\<And>q. app_of d q = (if q = p then app_of desired p else app_of c q)"
    using apply_diff_app [OF Cons.prems(1) assms(1), of p base] Cons.prems(2) by (simp_all add: d_def Let_def)
  have "\<forall>q \<in> set ps. app_of d q = app_of base q"
    using d(3) Cons.prems by auto
  then show ?case
    using Cons.IH [OF d(1)] Cons.prems(3) d(2,3)
    by (auto simp: apply_edits_append Let_def d_def [symmetric] same_switches_def)
qed

text \<open>
   A draft is reproduced exactly from its delta: applying the field edits that \<open>diff_fields\<close>
  computes to the base configuration yields the desired one, field for field and app for app.
\<close>

theorem diff_fields_reproduces:
  assumes "config_wf base" "config_wf desired" "cc_version base = cc_version desired"
  shows "apply_edits base (diff_fields base desired) = desired"
proof -
  define b where "b = apply_edits base (diff_toggles base desired)"
  define c where "c = apply_edits b (diff_sets base desired)"
  let ?ps = "bs_of_list (bt_keys (cc_apps base) @ bt_keys (cc_apps desired))"
  define d where "d = apply_edits c (concat (map (diff_app base desired) ?ps))"
  have "set_value b f = set_value base f" for f
    by (cases f) (simp_all add: b_def apply_diff_toggles)
  then have c: "c = base\<lparr>cc_debug := cc_debug desired, cc_debug_switch := cc_debug_switch desired,
      cc_settings := cc_settings desired\<rparr>"
    using apply_diff_sets [of b base desired] by (simp add: c_def b_def apply_diff_toggles)
  then have cw: "config_wf c" using assms(1,2) by (simp add: config_wf_def)
  have capp: "app_of c p = app_of base p" for p by (simp add: c app_of_def)
  have "distinct ?ps" using bs_wf_of_list bs_wf_iff by blast
  then have d: "config_wf d" "same_switches c d"
    "\<And>q. app_of d q = (if q \<in> set ?ps then app_of desired q else app_of c q)"
    using apply_diff_apps [OF assms(2), of ?ps c base] cw capp by (simp_all add: d_def Let_def)
  have "app_of d q = app_of desired q" for q
  proof (cases "q \<in> set ?ps")
    case False
    then have "bt_get (cc_apps base) q = None" "bt_get (cc_apps desired) q = None"
      by (simp_all add: bt_keys_def bt_get_None_iff)
    with False d(3) capp show ?thesis by (simp add: app_of_def)
  qed (simp add: d(3))
  then have "d = desired"
    using d(1,2) assms(2,3) by (intro config_ext) (simp_all add: same_switches_def c)
  then show ?thesis
    by (simp add: diff_fields_def apply_edits_append b_def c_def d_def)
qed


theorem diff_fields_reproduces_witness:
  "apply_edits default_canonical (diff_fields default_canonical
      (default_canonical\<lparr>cc_debug := True, cc_apps := [(''a.b'', default_app\<lparr>ac_hidden := True\<rparr>)]\<rparr>)) =
   default_canonical\<lparr>cc_debug := True, cc_apps := [(''a.b'', default_app\<lparr>ac_hidden := True\<rparr>)]\<rparr>"
  by (rule diff_fields_reproduces)
     (auto simp: default_canonical_def config_wf_def settings_wf_def default_settings_def bs_wf_def app_wf_def
        default_app_def has_any_role_def split: if_splits)


section \<open>Independent edits commute\<close>








definition independent :: "config_edit \<Rightarrow> config_edit \<Rightarrow> bool" where
  "independent e1 e2 = (\<forall>v \<in> set (write_set e1). \<forall>w \<in> set (write_set e2). \<not> fields_overlap v w)"


















section \<open>Optimistic concurrency\<close>

text \<open>The revisions recorded while a list of edits is committed, each at its own revision.\<close>

definition commit_history :: "field_revisions \<Rightarrow> (u64 \<times> config_edit) list \<Rightarrow> field_revisions" where
  "commit_history revs h = fold (\<lambda>(r, e) m. note_writes m (write_set e) r) h revs"

lemma note_writes_Cons:
  "note_writes m (w # ws) r =
     note_writes (bt_insert w (case bt_get m w of None \<Rightarrow> r | Some prev \<Rightarrow> max prev r) m) ws r"
  by (simp add: note_writes_def)

lemma bt_wf_note_writes [simp]: "bt_wf m \<Longrightarrow> bt_wf (note_writes m ws r)"
  by (induction ws arbitrary: m) (simp_all add: note_writes_Cons, simp add: note_writes_def)

lemma note_writes_grows:
  "bt_wf m \<Longrightarrow> bt_get m v = Some x \<Longrightarrow> \<exists>y \<ge> x. bt_get (note_writes m ws r) v = Some y"
proof (induction ws arbitrary: m x)
  case Nil
  then show ?case by (simp add: note_writes_def)
next
  case (Cons w ws)
  let ?m = "bt_insert w (case bt_get m w of None \<Rightarrow> r | Some prev \<Rightarrow> max prev r) m"
  have "bt_wf ?m" using Cons.prems(1) by simp
  moreover have "\<exists>x' \<ge> x. bt_get ?m v = Some x'"
    using Cons.prems by (cases "v = w") (auto simp: bt_get_insert)
  ultimately show ?case
    using Cons.IH [of ?m] unfolding note_writes_Cons by (meson order_trans)
qed

lemma note_writes_records:
  "bt_wf m \<Longrightarrow> v \<in> set ws \<Longrightarrow> \<exists>y \<ge> r. bt_get (note_writes m ws r) v = Some y"
proof (induction ws arbitrary: m)
  case (Cons w ws)
  let ?m = "bt_insert w (case bt_get m w of None \<Rightarrow> r | Some prev \<Rightarrow> max prev r) m"
  have wf: "bt_wf ?m" using Cons.prems(1) by simp
  show ?case
  proof (cases "v = w")
    case True
    have "\<exists>x \<ge> r. bt_get ?m v = Some x"
      using Cons.prems(1) True by (cases "bt_get m w") (auto simp: bt_get_insert)
    with note_writes_grows [OF wf, of v _ ws r] show ?thesis
      unfolding note_writes_Cons by (meson order_trans)
  next
    case False
    then show ?thesis unfolding note_writes_Cons using Cons.IH [OF wf] Cons.prems(2) by simp
  qed
qed simp

lemma commit_history_grows:
  "bt_wf m \<Longrightarrow> bt_get m v = Some x \<Longrightarrow> \<exists>y \<ge> x. bt_get (commit_history m h) v = Some y"
proof (induction h arbitrary: m x)
  case (Cons e h)
  obtain r d where e: "e = (r, d)" by (cases e)
  obtain y where y: "x \<le> y" "bt_get (note_writes m (write_set d) r) v = Some y"
    using note_writes_grows [OF Cons.prems] by blast
  with Cons.IH [OF bt_wf_note_writes [OF Cons.prems(1)] y(2)] show ?case
    by (auto simp: e commit_history_def dest: order_trans)
qed (simp add: commit_history_def)

lemma commit_history_records:
  "bt_wf m \<Longrightarrow> (r, e) \<in> set h \<Longrightarrow> v \<in> set (write_set e) \<Longrightarrow>
   \<exists>y \<ge> r. bt_get (commit_history m h) v = Some y"
proof (induction h arbitrary: m)
  case (Cons x h)
  obtain r' d where x: "x = (r', d)" by (cases x)
  let ?m = "note_writes m (write_set d) r'"
  have step: "commit_history m (x # h) = commit_history ?m h" by (simp add: commit_history_def x)
  show ?case
  proof (cases "(r, e) = x")
    case True
    then obtain y where "r \<le> y" "bt_get ?m v = Some y"
      using note_writes_records [OF Cons.prems(1), of v "write_set d" r'] Cons.prems(3) x by auto
    with commit_history_grows [of ?m v y h] Cons.prems(1) step show ?thesis by (metis bt_wf_note_writes order_trans)
  next
    case False
    with Cons show ?thesis by (simp add: step)
  qed
qed simp

lemma no_conflict_independent:
  assumes "conflict_field base cur e (commit_history revs h) = None" "base < cur" "bt_wf revs"
    "(r, d) \<in> set h" "base < r"
  shows "independent e d"
  unfolding independent_def
proof (intro ballI notI)
  fix v w
  assume v: "v \<in> set (write_set e)" and w: "w \<in> set (write_set d)" and o: "fields_overlap v w"
  obtain y where "r \<le> y" "bt_get (commit_history revs h) w = Some y"
    using commit_history_records [OF assms(3,4) w] by blast
  then have "(w, y) \<in> set (commit_history revs h)" "base < y"
    using assms(5) by (auto dest: map_of_SomeD)
  with o have "list_ex (\<lambda>(written, rev). base < rev \<and> fields_overlap v written) (commit_history revs h)"
    by (auto simp: list_ex_iff)
  with assms(1,2) v show False
    by (auto simp: conflict_field_def find_None_iff split: if_splits)
qed




text \<open>
  C12.  A stale write to a field that was written since is always refused: if an accepted history
  wrote a path that overlaps one the edit writes, at a revision after the edit's base, the edit is
  reported as conflicting on one of its own paths.
\<close>

theorem overlapping_write_conflicts:
  assumes "bt_wf revs" "(r, d) \<in> set h" "base < r" "r \<le> cur" "v \<in> set (write_set e)"
    "w \<in> set (write_set d)" "fields_overlap v w"
  shows "\<exists>p \<in> set (write_set e). conflict_field base cur e (commit_history revs h) = Some p"
proof -
  have "\<not> independent e d" using assms(5-7) by (auto simp: independent_def)
  then have "conflict_field base cur e (commit_history revs h) \<noteq> None"
    using no_conflict_independent [OF _ _ assms(1-3)] assms(3,4) by fastforce
  moreover have "\<not> cur < base" "base \<noteq> cur" using assms(3,4) by auto
  ultimately show ?thesis
    by (auto simp: conflict_field_def dest: find_SomeD)
qed

theorem overlapping_write_conflicts_witness:
  "\<exists>p \<in> set (write_set (RemoveApp ''com.x'')).
     conflict_field 1 3 (RemoveApp ''com.x'') (commit_history [] [(3, App ''com.x'' Native default_app)]) = Some p"
  by (rule overlapping_write_conflicts [where v = "''apps/com.x''" and w = "''apps/com.x/native''"
        and r = 3 and d = "App ''com.x'' Native default_app"])
     (simp_all, code_simp)

end
