(* ===== verification/Port_Policy.thy ===== *)
theory Port_Policy
  imports Canonical_Config "HOL-Library.Product_Lexorder"
begin

text \<open>
  Port policies (\<^verbatim>\<open>crates/core-rpc/src/port_policy.rs\<close>): the preset catalog, rule validation,
  normalization of rule lists and the agent's textual intents.
\<close>

section \<open>Definitions\<close>

definition COMMON_PROXY_PRESET :: string where
  "COMMON_PROXY_PRESET = ''common_proxy''"

record port_policy_preset =
  ppp_id :: string
  ppp_rules :: "port_rule list"

definition presets :: "port_policy_preset list" where
  "presets =
     [\<lparr>ppp_id = COMMON_PROXY_PRESET,
       ppp_rules = map (\<lambda>(s, e). \<lparr>rule_protocol = Both, rule_start = s, rule_end = e\<rparr>)
         [(1080, 1080), (7890, 7892), (8080, 8080), (8888, 8888), (9050, 9050), (9090, 9090),
          (9150, 9150), (10808, 10808)]\<rparr>]"

definition preset_policy :: "string \<Rightarrow> port_policy option" where
  "preset_policy ident =
     map_option (\<lambda>p. \<lparr>pp_mode = ''preset'', pp_preset = Some (ppp_id p), pp_rules = ppp_rules p\<rparr>)
       (List.find (\<lambda>p. ppp_id p = ident) presets)"

fun protocol_rank :: "port_protocol \<Rightarrow> nat" where
  "protocol_rank Both = 0" | "protocol_rank Tcp = 1" | "protocol_rank Udp = 2"

definition rule_key :: "port_rule \<Rightarrow> u16 \<times> u16 \<times> nat" where
  "rule_key r = (rule_start r, rule_end r, protocol_rank (rule_protocol r))"

definition normalize_rules :: "port_rule list \<Rightarrow> port_rule list" where
  "normalize_rules rules = remdups_adj (sort_key rule_key rules)"

text \<open>\<^verbatim>\<open>u16::try_from\<close> of a signed value, without zero.\<close>

definition port_number :: "int \<Rightarrow> u16 option" where
  "port_number n = (if 0 \<le> n \<and> n < 65536 \<and> n \<noteq> 0 then Some (of_int n) else None)"

definition protocol_of :: "string \<Rightarrow> port_protocol" where
  "protocol_of s = (if s = ''tcp'' then Tcp else if s = ''udp'' then Udp else Both)"

definition rule :: "string \<Rightarrow> int \<Rightarrow> int \<Rightarrow> string + port_rule" where
  "rule protocol start finish =
     (case port_number start of
        None \<Rightarrow> Inl ''Port start must be 1..65535''
      | Some s \<Rightarrow>
          (case port_number finish of
             None \<Rightarrow> Inl ''Port end must be 1..65535''
           | Some e \<Rightarrow>
               if e < s then Inl ''Port start must not be greater than end''
               else Inr \<lparr>rule_protocol = protocol_of protocol, rule_start = s, rule_end = e\<rparr>))"

record port_rule_intent =
  pri_protocol :: string
  pri_start :: int
  pri_end :: int

definition intent_rule :: "port_rule_intent \<Rightarrow> string + port_rule" where
  "intent_rule r = rule (to_ascii_lowercase (trim (pri_protocol r))) (pri_start r) (pri_end r)"

fun collect_rules :: "port_rule_intent list \<Rightarrow> string + port_rule list" where
  "collect_rules [] = Inr []"
| "collect_rules (r # rs) =
     (case intent_rule r of
        Inl e \<Rightarrow> Inl e
      | Inr x \<Rightarrow> (case collect_rules rs of Inl e \<Rightarrow> Inl e | Inr xs \<Rightarrow> Inr (x # xs)))"

definition parse_agent_intent ::
    "string \<Rightarrow> string option \<Rightarrow> port_rule_intent list \<Rightarrow> string + port_policy option" where
  "parse_agent_intent mode preset rules =
     (let m = to_ascii_lowercase (trim mode)
      in if m = ''all'' then Inr None
         else if m = ''preset'' then
           (case preset of
              None \<Rightarrow> Inl ''Port preset is required''
            | Some ident \<Rightarrow>
                (case preset_policy ident of
                   None \<Rightarrow> Inl (''Unknown port preset: '' @ ident)
                 | Some p \<Rightarrow> Inr (Some p)))
         else if rules = [] then Inl ''Custom port policy requires at least one rule''
         else (case collect_rules rules of
                 Inl e \<Rightarrow> Inl e
               | Inr xs \<Rightarrow> Inr (Some \<lparr>pp_mode = ''custom'', pp_preset = None, pp_rules = normalize_rules xs\<rparr>)))"


section \<open>Validity and normalization\<close>

definition rule_valid :: "port_rule \<Rightarrow> bool" where
  "rule_valid r = (rule_start r \<noteq> 0 \<and> rule_start r \<le> rule_end r)"

lemma rule_key_inj: "rule_key r = rule_key s \<Longrightarrow> r = s"
  by (cases "rule_protocol r"; cases "rule_protocol s") (auto simp: rule_key_def intro: port_rule.equality)

lemma of_int_u16:
  assumes "0 \<le> n" "n < 65536"
  shows "uint (of_int n :: u16) = n"
  using assms by (simp add: uint_word_of_int)

lemma rule_Inr:
  assumes "rule p s e = Inr r"
  shows "rule_valid r" "uint (rule_start r) = s" "uint (rule_end r) = e" "rule_protocol r = protocol_of p"
proof -
  from assms have r: "0 < s" "s < 65536" "0 < e" "e < 65536" "\<not> (of_int e :: u16) < of_int s"
    "r = \<lparr>rule_protocol = protocol_of p, rule_start = of_int s, rule_end = of_int e\<rparr>"
    by (auto simp: rule_def port_number_def split: option.splits if_splits)
  then show "uint (rule_start r) = s" "uint (rule_end r) = e" "rule_protocol r = protocol_of p"
    by (simp_all add: of_int_u16)
  with r show "rule_valid r" by (auto simp: rule_valid_def not_less)
qed

lemma rule_complete:
  assumes "0 < s" "s \<le> e" "e < 65536"
  shows "rule p s e = Inr \<lparr>rule_protocol = protocol_of p, rule_start = of_int s, rule_end = of_int e\<rparr>"
  using assms of_int_u16 [of s] of_int_u16 [of e]
  by (simp add: rule_def port_number_def word_less_def)

lemma set_normalize_rules [simp]: "set (normalize_rules rs) = set rs"
  by (simp add: normalize_rules_def)

lemma sorted_normalize_rules: "sorted_wrt (\<lambda>a b. rule_key a < rule_key b) (normalize_rules rs)"
proof -
  have "sorted_wrt (\<lambda>a b. rule_key a < rule_key b) (remdups_adj xs)" if "sorted (map rule_key xs)" for xs
    using that
  proof (induction xs rule: remdups_adj.induct)
    case (3 x y xs)
    show ?case
    proof (cases "x = y")
      case False
      have "rule_key x < rule_key y" using 3 False rule_key_inj by (auto simp: less_le)
      with 3 False show ?thesis by (auto dest: less_le_trans)
    qed (use 3 in simp)
  qed simp_all
  then show ?thesis by (simp add: normalize_rules_def)
qed

lemma normalize_rules_nonempty [simp]: "normalize_rules rs = [] \<longleftrightarrow> rs = []"
  by (metis set_empty set_normalize_rules)

lemma strict_distinct: "sorted_wrt (\<lambda>a b. f a < f b) xs \<Longrightarrow> distinct xs"
  for f :: "'a \<Rightarrow> 'b::linorder"
  by (induction xs) auto

lemma normalize_rules_idem: "normalize_rules (normalize_rules rs) = normalize_rules rs"
proof -
  have s: "sorted_wrt (\<lambda>a b. rule_key a < rule_key b) (normalize_rules rs)" by (rule sorted_normalize_rules)
  then have "sorted (map rule_key (normalize_rules rs))"
    by (auto simp: sorted_map intro: sorted_wrt_mono_rel [OF _ s])
  moreover have "distinct (normalize_rules rs)"
    by (rule strict_distinct [OF s])
  ultimately show ?thesis
    by (simp add: normalize_rules_def sort_key_id_if_sorted remdups_adj_distinct)
qed

lemma collect_rules_Inr:
  "collect_rules rs = Inr xs \<Longrightarrow> list_all2 (\<lambda>r x. intent_rule r = Inr x) rs xs"
  by (induction rs arbitrary: xs) (auto split: sum.splits)


lemma preset_rules_valid: "preset_policy ident = Some p \<Longrightarrow> pp_rules p \<noteq> [] \<and> list_all rule_valid (pp_rules p)
    \<and> normalize_rules (pp_rules p) = pp_rules p"
  by (auto simp: preset_policy_def presets_def rule_valid_def normalize_rules_def rule_key_def split: if_splits)

text \<open>
   Whatever the agent asks for, an accepted port policy blocks only real port ranges: it has at
  least one rule, every rule is a nonempty range within 1..65535, the rules are in canonical strict
  order (so normalizing again changes nothing), and for a custom intent they are exactly the
  requested ranges, with every unacceptable range refusing the whole intent.
\<close>

theorem agent_intent_sound:
  assumes "parse_agent_intent mode preset rules = Inr (Some p)"
  shows "pp_rules p \<noteq> [] \<and> (\<forall>r \<in> set (pp_rules p). 1 \<le> uint (rule_start r) \<and> uint (rule_start r) \<le> uint (rule_end r))
    \<and> normalize_rules (pp_rules p) = pp_rules p
    \<and> (pp_mode p = ''custom'' \<longrightarrow>
         set (pp_rules p) = {r. \<exists>i \<in> set rules. intent_rule i = Inr r}
         \<and> (\<forall>i \<in> set rules. 1 \<le> pri_start i \<and> pri_start i \<le> pri_end i \<and> pri_end i \<le> 65535))"
proof -
  have valid: "1 \<le> uint (rule_start r) \<and> uint (rule_start r) \<le> uint (rule_end r)" if "rule_valid r" for r
  proof -
    have "0 \<le> uint (rule_start r)" "uint (rule_start r) \<noteq> 0"
      using that by (simp_all add: rule_valid_def unsigned_eq_0_iff)
    then have "1 \<le> uint (rule_start r)" by linarith
    with that show ?thesis by (simp add: rule_valid_def word_le_def)
  qed
  consider (preset) ident where "preset_policy ident = Some p"
    | (custom) xs where "collect_rules rules = Inr xs" "rules \<noteq> []"
        "p = \<lparr>pp_mode = ''custom'', pp_preset = None, pp_rules = normalize_rules xs\<rparr>"
    using assms by (auto simp: parse_agent_intent_def Let_def split: if_splits option.splits sum.splits)
  then show ?thesis
  proof cases
    case preset
    then have "pp_mode p = ''preset''" by (auto simp: preset_policy_def)
    with preset_rules_valid [OF preset] valid show ?thesis by (auto simp: list_all_iff)
  next
    case custom
    have l2: "list_all2 (\<lambda>r x. intent_rule r = Inr x) rules xs"
      using custom(1) by (rule collect_rules_Inr)
    have set_xs: "set xs = {r. \<exists>i \<in> set rules. intent_rule i = Inr r}"
      using l2 by (induction rules xs rule: list_all2_induct) auto
    have "xs \<noteq> []" using l2 custom(2) by auto
    moreover have "rule_valid r" if "r \<in> set xs" for r
      using that rule_Inr(1) by (auto simp: set_xs intent_rule_def)
    moreover have "1 \<le> pri_start i \<and> pri_start i \<le> pri_end i \<and> pri_end i \<le> 65535" if "i \<in> set rules" for i
    proof -
      from l2 that obtain r where "intent_rule i = Inr r"
        by (auto simp: list_all2_conv_all_nth in_set_conv_nth)
      then have r: "rule_valid r" "uint (rule_start r) = pri_start i" "uint (rule_end r) = pri_end i"
        using rule_Inr by (simp_all add: intent_rule_def)
      have "uint (rule_end r) < 2 ^ 16" using unsigned_less [of "rule_end r"] by simp
      with r valid [OF r(1)] show ?thesis by simp
    qed
    ultimately show ?thesis
      using valid set_xs by (auto simp: custom(3) normalize_rules_idem)
  qed
qed

theorem agent_intent_sound_witness:
  "\<exists>p. parse_agent_intent '' Custom'' None [\<lparr>pri_protocol = ''TCP '', pri_start = 80, pri_end = 81\<rparr>] = Inr (Some p)
     \<and> normalize_rules (pp_rules p) = pp_rules p"
proof -
  have "parse_agent_intent '' Custom'' None [\<lparr>pri_protocol = ''TCP '', pri_start = 80, pri_end = 81\<rparr>] =
      Inr (Some \<lparr>pp_mode = ''custom'', pp_preset = None,
        pp_rules = [\<lparr>rule_protocol = Tcp, rule_start = 80, rule_end = 81\<rparr>]\<rparr>)"
    by code_simp
  from agent_intent_sound [OF this] this show ?thesis by blast
qed

end
