(* ===== verification/Canonical_Codec.thy ===== *)
theory Canonical_Codec
  imports Config_Edit Port_Policy
begin

text \<open>
  The disk and interchange codec of the canonical configuration
  (\<^verbatim>\<open>crates/core-rpc/src/canonical.rs\<close>): JSON values, the shape check, decoding and encoding, import
  normalization, and the admission check of a candidate configuration
  (\<^verbatim>\<open>validate_candidate\<close> of \<^verbatim>\<open>config_edit.rs\<close>).  The text layer of \<^verbatim>\<open>serde_json\<close> is a parameter: a
  reader \<open>from_str\<close> and a writer \<open>to_string\<close>.
\<close>

section \<open>JSON values\<close>

datatype json_number = PosInt u64 | NegInt int | Float string

datatype json =
    JNull
  | JBool bool
  | JNumber json_number
  | JString string
  | JArray "json list"
  | JObject "(string \<times> json) list"

definition json_get :: "json \<Rightarrow> string \<Rightarrow> json option" where
  "json_get v key = (case v of JObject m \<Rightarrow> bt_get m key | _ \<Rightarrow> None)"

definition as_u64 :: "json \<Rightarrow> u64 option" where
  "as_u64 v = (case v of JNumber (PosInt n) \<Rightarrow> Some n | _ \<Rightarrow> None)"

definition as_bool :: "json \<Rightarrow> bool option" where
  "as_bool v = (case v of JBool b \<Rightarrow> Some b | _ \<Rightarrow> None)"

definition as_str :: "json \<Rightarrow> string option" where
  "as_str v = (case v of JString s \<Rightarrow> Some s | _ \<Rightarrow> None)"

definition as_array :: "json \<Rightarrow> json list option" where
  "as_array v = (case v of JArray a \<Rightarrow> Some a | _ \<Rightarrow> None)"

definition as_object :: "json \<Rightarrow> (string, json) bmap option" where
  "as_object v = (case v of JObject m \<Rightarrow> Some m | _ \<Rightarrow> None)"

lemmas json_simps = json_get_def as_u64_def as_bool_def as_str_def as_array_def as_object_def

definition is_boolean :: "json \<Rightarrow> bool" where
  "is_boolean v = (as_bool v \<noteq> None)"

definition is_string :: "json \<Rightarrow> bool" where
  "is_string v = (as_str v \<noteq> None)"

definition is_object :: "json \<Rightarrow> bool" where
  "is_object v = (as_object v \<noteq> None)"


section \<open>Decoding\<close>

definition MAX_CONFIG_BYTES :: nat where
  "MAX_CONFIG_BYTES = 512 * 1024"

datatype config_load = Absent | Present canonical_config | UnsupportedVersion u32

datatype codec_error = ConfigParse | InvalidField string | ImportTooLarge | ImportUnsupported

definition bool_at :: "json \<Rightarrow> string \<Rightarrow> bool \<Rightarrow> bool" where
  "bool_at v key d = (case Option.bind (json_get v key) as_bool of None \<Rightarrow> d | Some b \<Rightarrow> b)"

definition opt_bool_at :: "json option \<Rightarrow> string \<Rightarrow> bool option" where
  "opt_bool_at v key = do { x \<leftarrow> v; y \<leftarrow> json_get x key; as_bool y }"

definition clean_strings :: "json list \<Rightarrow> string list" where
  "clean_strings arr = filter (\<lambda>s. s \<noteq> []) (map trim (List.map_filter as_str arr))"

definition string_list :: "json option \<Rightarrow> string list option" where
  "string_list v = do { x \<leftarrow> v; arr \<leftarrow> as_array x; Some (clean_strings arr) }"

definition string_set_at :: "json option \<Rightarrow> string \<Rightarrow> string list" where
  "string_set_at v key =
     (case do { x \<leftarrow> v; y \<leftarrow> json_get x key; as_array y } of
        None \<Rightarrow> []
      | Some a \<Rightarrow> bs_of_list (clean_strings a))"

definition hook_role :: "json option \<Rightarrow> bool \<times> string list option" where
  "hook_role v =
     (case v of
        Some (JBool b) \<Rightarrow> (b, None)
      | Some (JArray _) \<Rightarrow>
          (case string_list v of
             Some h \<Rightarrow> if h \<noteq> [] then (True, Some h) else (False, None)
           | None \<Rightarrow> (False, None))
      | _ \<Rightarrow> (False, None))"

definition native_role_from_disk :: "json option \<Rightarrow> native_role" where
  "native_role_from_disk v =
     (case v of
        Some (JObject m) \<Rightarrow>
          (if (case Option.bind (bt_get m ''enabled'') as_bool of None \<Rightarrow> True | Some b \<Rightarrow> b)
           then \<lparr>nr_enabled = True, nr_kernel = string_list (bt_get m ''kernel''),
                 nr_zygisk = string_list (bt_get m ''zygisk'')\<rparr>
           else default_native)
      | _ \<Rightarrow>
          (let (enabled, hks) = hook_role v
           in if enabled then \<lparr>nr_enabled = True, nr_kernel = hks, nr_zygisk = None\<rparr>
              else default_native))"

definition try_i64 :: "u64 \<Rightarrow> int option" where
  "try_i64 n = (if uint n < 2 ^ 63 then Some (uint n) else None)"

definition port_rule_from_disk :: "(string, json) bmap \<Rightarrow> port_rule option" where
  "port_rule_from_disk m =
     do {
       start \<leftarrow> Option.bind (bt_get m ''start'') as_u64;
       finish \<leftarrow> (case bt_get m ''end'' of Some v \<Rightarrow> as_u64 v | None \<Rightarrow> Some start);
       s \<leftarrow> try_i64 start;
       e \<leftarrow> try_i64 finish;
       res_ok (rule (case Option.bind (bt_get m ''protocol'') as_str of None \<Rightarrow> ''both'' | Some p \<Rightarrow> p) s e)
     }"

fun port_rules_from_disk :: "json list \<Rightarrow> port_rule list option" where
  "port_rules_from_disk [] = Some []"
| "port_rules_from_disk (r # rs) =
     do {
       m \<leftarrow> as_object r;
       x \<leftarrow> port_rule_from_disk m;
       xs \<leftarrow> port_rules_from_disk rs;
       Some (x # xs)
     }"

definition port_policy_from_disk :: "json option \<Rightarrow> port_policy option" where
  "port_policy_from_disk v =
     do {
       x \<leftarrow> v;
       m \<leftarrow> as_object x;
       rs \<leftarrow> bt_get m ''rules'';
       rules_json \<leftarrow> as_array rs;
       if rules_json = [] then None
       else do {
         rules \<leftarrow> port_rules_from_disk rules_json;
         let mode = (case Option.bind (bt_get m ''mode'') as_str of None \<Rightarrow> ''custom'' | Some s \<Rightarrow> s);
         let preset = (case Option.bind (bt_get m ''preset'') as_str of
                         None \<Rightarrow> None | Some s \<Rightarrow> if trim s = [] then None else Some (trim s));
         Some \<lparr>pp_mode = mode, pp_preset = preset, pp_rules = rules\<rparr>
       }
     }"

definition app_from_disk :: "json \<Rightarrow> app_config" where
  "app_from_disk v =
     (let (java, java_hooks) = hook_role (json_get v ''java'');
          ports_requested = bool_at v ''ports'' False;
          policy_present = (case json_get v ''portPolicy'' of None \<Rightarrow> False | Some p \<Rightarrow> p \<noteq> JNull);
          policy = (if ports_requested \<and> policy_present
                    then port_policy_from_disk (json_get v ''portPolicy'') else None);
          ports = (ports_requested \<and> (\<not> policy_present \<or> policy \<noteq> None))
      in \<lparr>ac_java = java, ac_java_hooks = java_hooks,
          ac_native = native_role_from_disk (json_get v ''native''),
          ac_app_hiding = bool_at v ''appHiding'' False, ac_ports = ports, ac_port_policy = policy,
          ac_hidden = bool_at v ''hidden'' False\<rparr>)"

definition apps_from_disk :: "json \<Rightarrow> (string, app_config) bmap" where
  "apps_from_disk root =
     (case Option.bind (json_get root ''apps'') as_object of
        None \<Rightarrow> []
      | Some m \<Rightarrow> bt_of_list (filter (\<lambda>(p, a). has_any_role a) (map (\<lambda>(p, v). (p, app_from_disk v)) m)))"

definition settings_from_disk :: "json option \<Rightarrow> settings" where
  "settings_from_disk s =
     \<lparr>st_remember_superkey = (case opt_bool_at s ''rememberSuperkey'' of
         None \<Rightarrow> st_remember_superkey default_settings | Some b \<Rightarrow> b),
      st_optional_features = string_set_at s ''optionalFeatures'',
      st_auto_hide_vpn_services = (case opt_bool_at s ''autoHideVpnServices'' of
         None \<Rightarrow> st_auto_hide_vpn_services default_settings | Some b \<Rightarrow> b),
      st_auto_hide_vpn_name = (case opt_bool_at s ''autoHideVpnName'' of
         None \<Rightarrow> st_auto_hide_vpn_name default_settings | Some b \<Rightarrow> b),
      st_auto_hide_excluded_packages = string_set_at s ''autoHideExcludedPackages'',
      st_auto_hidden_packages = string_set_at s ''autoHiddenPackages''\<rparr>"

definition from_disk :: "json \<Rightarrow> canonical_config option" where
  "from_disk root =
     (let version = (ucast (case Option.bind (json_get root ''version'') as_u64 of None \<Rightarrow> 1 | Some n \<Rightarrow> n) :: u32);
          debug = bool_at root ''debug'' False
      in if 1 < version then None
         else Some \<lparr>cc_version = version, cc_debug = debug, cc_debug_switch = bool_at root ''debugSwitch'' debug,
                    cc_apps = apps_from_disk root, cc_settings = settings_from_disk (json_get root ''settings'')\<rparr>)"


section \<open>The shape check\<close>

fun check :: "json \<Rightarrow> string list \<Rightarrow> (json \<Rightarrow> bool) \<Rightarrow> codec_error + unit" where
  "check v [] accepts = Inr ()"
| "check v (key # keys) accepts =
     (case json_get v key of
        None \<Rightarrow> check v keys accepts
      | Some x \<Rightarrow> if \<not> accepts x then Inl (InvalidField key) else check v keys accepts)"

definition then_check :: "'e + unit \<Rightarrow> 'e + unit \<Rightarrow> 'e + unit" where
  "then_check a b = (case a of Inl e \<Rightarrow> Inl e | Inr _ \<Rightarrow> b)"

definition strings :: "json \<Rightarrow> bool" where
  "strings v = (case as_array v of None \<Rightarrow> False | Some a \<Rightarrow> list_all is_string a)"

definition role :: "json \<Rightarrow> bool" where
  "role v = (is_boolean v \<or> strings v)"

definition check_native :: "json option \<Rightarrow> codec_error + unit" where
  "check_native v =
     (case v of
        None \<Rightarrow> Inr ()
      | Some native \<Rightarrow>
          if is_object native then
            then_check (check native [''enabled''] is_boolean)
              (check native [''kernel'', ''zygisk''] (\<lambda>x. x = JNull \<or> strings x))
          else if \<not> role native then Inl (InvalidField ''native'') else Inr ())"

fun check_rules :: "json list \<Rightarrow> codec_error + unit" where
  "check_rules [] = Inr ()"
| "check_rules (r # rs) =
     then_check (check r [''protocol''] (\<lambda>v. as_str v \<in> {Some ''tcp'', Some ''udp'', Some ''both''}))
       (check_rules rs)"

definition check_policy :: "json option \<Rightarrow> codec_error + unit" where
  "check_policy v =
     (case v of
        None \<Rightarrow> Inr ()
      | Some policy \<Rightarrow>
          if policy = JNull then Inr ()
          else if port_policy_from_disk (Some policy) = None then Inl (InvalidField ''portPolicy'')
          else then_check (check policy [''mode''] is_string)
            (then_check (check policy [''preset''] (\<lambda>x. x = JNull \<or> is_string x))
              (check_rules (case Option.bind (json_get policy ''rules'') as_array of None \<Rightarrow> [] | Some a \<Rightarrow> a))))"

definition check_app :: "json \<Rightarrow> codec_error + unit" where
  "check_app app =
     (if \<not> is_object app then Inl (InvalidField ''app'')
      else then_check (check app [''java''] role)
        (then_check (check app [''appHiding'', ''ports'', ''hidden''] is_boolean)
          (then_check (check_native (json_get app ''native'')) (check_policy (json_get app ''portPolicy'')))))"

fun check_apps :: "(string \<times> json) list \<Rightarrow> codec_error + unit" where
  "check_apps [] = Inr ()"
| "check_apps ((_, a) # as) = then_check (check_app a) (check_apps as)"

definition check_settings :: "json option \<Rightarrow> codec_error + unit" where
  "check_settings v =
     (case v of
        None \<Rightarrow> Inr ()
      | Some s \<Rightarrow>
          then_check (check s [''rememberSuperkey'', ''autoHideVpnServices'', ''autoHideVpnName''] is_boolean)
            (check s [''optionalFeatures'', ''autoHideExcludedPackages'', ''autoHiddenPackages''] strings))"

definition disk_version :: "json \<Rightarrow> codec_error + u32" where
  "disk_version root =
     (case json_get root ''version'' of
        None \<Rightarrow> Inr 1
      | Some v \<Rightarrow>
          (case as_u64 v of
             None \<Rightarrow> Inl (InvalidField ''version'')
           | Some n \<Rightarrow> if unat n < 2 ^ 32 then Inr (ucast n) else Inl (InvalidField ''version'')))"

definition validate_disk_shape :: "json \<Rightarrow> codec_error + u32" where
  "validate_disk_shape root =
     (if \<not> is_object root then Inl (InvalidField ''root'')
      else case disk_version root of
        Inl e \<Rightarrow> Inl e
      | Inr version \<Rightarrow>
          if 1 < version then Inr version
          else case
            then_check (check root [''debug'', ''debugSwitch''] is_boolean)
              (then_check (check root [''apps'', ''settings''] is_object)
                (then_check (check_settings (json_get root ''settings''))
                  (check_apps (case Option.bind (json_get root ''apps'') as_object of None \<Rightarrow> [] | Some m \<Rightarrow> m))))
          of Inl e \<Rightarrow> Inl e | Inr _ \<Rightarrow> Inr version)"

definition parse_status :: "(string \<Rightarrow> json option) \<Rightarrow> string \<Rightarrow> codec_error + config_load" where
  "parse_status from_str raw =
     (if trim raw = [] then Inr Absent
      else case from_str raw of
        None \<Rightarrow> Inl ConfigParse
      | Some root \<Rightarrow>
          (case validate_disk_shape root of
             Inl e \<Rightarrow> Inl e
           | Inr version \<Rightarrow>
               if 1 < version then Inr (UnsupportedVersion version)
               else (case from_disk root of
                       Some cfg \<Rightarrow> Inr (Present cfg)
                     | None \<Rightarrow> Inr (UnsupportedVersion version))))"


section \<open>Encoding\<close>

definition json_strings :: "string list \<Rightarrow> json" where
  "json_strings h = JArray (map JString h)"

fun hook_role_value :: "bool \<Rightarrow> string list option \<Rightarrow> json" where
  "hook_role_value False _ = JBool False"
| "hook_role_value True None = JBool True"
| "hook_role_value True (Some h) = json_strings h"

definition opt_field :: "string \<Rightarrow> json option \<Rightarrow> (string \<times> json) list" where
  "opt_field key v = (case v of None \<Rightarrow> [] | Some x \<Rightarrow> [(key, x)])"

definition native_role_value :: "native_role \<Rightarrow> json" where
  "native_role_value n =
     (if \<not> nr_enabled n then JBool False
      else if nr_kernel n = None \<and> nr_zygisk n = None then JBool True
      else JObject (bt_of_list ([(''enabled'', JBool True)]
             @ opt_field ''kernel'' (map_option json_strings (nr_kernel n))
             @ opt_field ''zygisk'' (map_option json_strings (nr_zygisk n)))))"

fun protocol_value :: "port_protocol \<Rightarrow> string" where
  "protocol_value Both = ''both''" | "protocol_value Tcp = ''tcp''" | "protocol_value Udp = ''udp''"

definition port_rule_value :: "port_rule \<Rightarrow> json" where
  "port_rule_value r =
     JObject (bt_of_list ([(''protocol'', JString (protocol_value (rule_protocol r))),
                           (''start'', JNumber (PosInt (ucast (rule_start r))))]
       @ (if rule_end r \<noteq> rule_start r then [(''end'', JNumber (PosInt (ucast (rule_end r))))] else [])))"

definition port_policy_value :: "port_policy \<Rightarrow> json" where
  "port_policy_value p =
     JObject (bt_of_list ([(''mode'', JString (pp_mode p))]
       @ (case pp_preset p of None \<Rightarrow> [] | Some s \<Rightarrow> if s \<noteq> [] then [(''preset'', JString s)] else [])
       @ [(''rules'', JArray (map port_rule_value (pp_rules p)))]))"

definition app_to_disk :: "app_config \<Rightarrow> json" where
  "app_to_disk a =
     JObject (bt_of_list ([(''java'', hook_role_value (ac_java a) (ac_java_hooks a)),
         (''native'', native_role_value (ac_native a)), (''appHiding'', JBool (ac_app_hiding a)),
         (''ports'', JBool (ac_ports a))]
       @ (if ac_ports a then opt_field ''portPolicy'' (map_option port_policy_value (ac_port_policy a)) else [])
       @ (if ac_hidden a then [(''hidden'', JBool True)] else [])))"

definition to_disk :: "canonical_config \<Rightarrow> json" where
  "to_disk c =
     (let s = cc_settings c
      in JObject (bt_of_list
        [(''version'', JNumber (PosInt (ucast (cc_version c)))), (''debug'', JBool (cc_debug c)),
         (''debugSwitch'', JBool (cc_debug_switch c)),
         (''apps'', JObject (bt_of_list (map (\<lambda>(p, a). (p, app_to_disk a)) (filter (\<lambda>(p, a). has_any_role a) (cc_apps c))))),
         (''settings'', JObject (bt_of_list
            [(''rememberSuperkey'', JBool (st_remember_superkey s)),
             (''optionalFeatures'', json_strings (st_optional_features s)),
             (''autoHideVpnServices'', JBool (st_auto_hide_vpn_services s)),
             (''autoHideVpnName'', JBool (st_auto_hide_vpn_name s)),
             (''autoHideExcludedPackages'', json_strings (st_auto_hide_excluded_packages s)),
             (''autoHiddenPackages'', json_strings (st_auto_hidden_packages s))]))]))"

definition to_json_string :: "(json \<Rightarrow> string) \<Rightarrow> canonical_config \<Rightarrow> string" where
  "to_json_string to_string c = to_string (to_disk c)"

definition normalize_port_policy :: "port_policy \<Rightarrow> port_policy" where
  "normalize_port_policy p =
     p\<lparr>pp_mode := (if pp_mode p \<noteq> ''preset'' then ''custom'' else pp_mode p),
       pp_rules := normalize_rules (pp_rules p)\<rparr>"

definition normalize_interchange :: "canonical_config \<Rightarrow> canonical_config" where
  "normalize_interchange c =
     c\<lparr>cc_apps := map (\<lambda>(p, a). (p, a\<lparr>ac_port_policy := map_option normalize_port_policy (ac_port_policy a)\<rparr>)) (cc_apps c)\<rparr>"

definition parse_import :: "(string \<Rightarrow> json option) \<Rightarrow> string \<Rightarrow> codec_error + canonical_config" where
  "parse_import from_str raw =
     (if MAX_CONFIG_BYTES < length raw then Inl ImportTooLarge
      else case parse_status from_str raw of
        Inl e \<Rightarrow> Inl e
      | Inr l \<Rightarrow>
          (case l of
             Present c \<Rightarrow> if cc_version c = 1 then Inr (normalize_interchange c) else Inl ImportUnsupported
           | _ \<Rightarrow> Inl ImportUnsupported))"

text \<open>\<^verbatim>\<open>serde_json::to_vec\<close> of the RPC shape is the parameter \<open>rpc_len\<close>, its length.\<close>

definition validate_candidate ::
    "(string \<Rightarrow> json option) \<Rightarrow> (json \<Rightarrow> string) \<Rightarrow> (canonical_config \<Rightarrow> string + nat) \<Rightarrow> canonical_config \<Rightarrow> string + unit" where
  "validate_candidate from_str to_string rpc_len c =
     (if cc_version c \<noteq> 1 then Inl ''unsupported canonical config version''
      else let text = to_json_string to_string c
      in if MAX_CONFIG_BYTES < length text then Inl ''canonical config exceeds 512 KiB''
      else case rpc_len c of
        Inl e \<Rightarrow> Inl e
      | Inr n \<Rightarrow>
          if MAX_CONFIG_BYTES < n then Inl ''canonical RPC config exceeds 512 KiB''
          else if parse_status from_str text = Inr (Present c) then Inr ()
          else Inl ''config does not round-trip through the canonical codec'')"



section \<open>Configurations the codec represents\<close>

definition clean :: "string \<Rightarrow> bool" where
  "clean s = (trim s = s \<and> s \<noteq> [])"

definition policy_disk_wf :: "port_policy \<Rightarrow> bool" where
  "policy_disk_wf p = (pp_rules p \<noteq> [] \<and> list_all rule_valid (pp_rules p)
     \<and> (\<forall>s. pp_preset p = Some s \<longrightarrow> clean s))"

definition app_disk_wf :: "app_config \<Rightarrow> bool" where
  "app_disk_wf a = (app_wf a
     \<and> (\<forall>h. ac_java_hooks a = Some h \<longrightarrow> h \<noteq> [] \<and> list_all clean h)
     \<and> (\<forall>h. nr_kernel (ac_native a) = Some h \<longrightarrow> list_all clean h)
     \<and> (\<forall>h. nr_zygisk (ac_native a) = Some h \<longrightarrow> list_all clean h)
     \<and> (\<forall>p. ac_port_policy a = Some p \<longrightarrow> policy_disk_wf p))"

definition disk_wf :: "canonical_config \<Rightarrow> bool" where
  "disk_wf c = (config_wf c \<and> cc_version c \<le> 1
     \<and> list_all clean (st_optional_features (cc_settings c))
     \<and> list_all clean (st_auto_hide_excluded_packages (cc_settings c))
     \<and> list_all clean (st_auto_hidden_packages (cc_settings c))
     \<and> (\<forall>p a. bt_get (cc_apps c) p = Some a \<longrightarrow> app_disk_wf a))"


section \<open>Encode, then decode\<close>

lemma json_get_obj [simp]: "json_get (JObject (bt_of_list kvs)) k = map_of (rev kvs) k"
  by (simp add: json_get_def bt_get_of_list)

lemma clean_strings_id: "list_all clean h \<Longrightarrow> clean_strings (map JString h) = h"
  by (induction h) (auto simp: clean_strings_def as_str_def clean_def)

lemma string_list_strings: "list_all clean h \<Longrightarrow> string_list (Some (json_strings h)) = Some h"
  by (simp add: string_list_def json_strings_def as_array_def clean_strings_id)

lemma hook_role_roundtrip:
  assumes "java \<or> hks = None" "\<forall>h. hks = Some h \<longrightarrow> h \<noteq> [] \<and> list_all clean h"
  shows "hook_role (Some (hook_role_value java hks)) = (java, hks)"
proof (cases hks)
  case (Some h)
  with assms have "java" "h \<noteq> []" "string_list (Some (json_strings h)) = Some h"
    by (simp_all add: string_list_strings)
  with Some show ?thesis by (simp add: hook_role_def json_strings_def)
qed (cases java; simp add: hook_role_def)

lemma native_role_roundtrip:
  assumes "nr_enabled n \<or> n = default_native" "\<forall>h. nr_kernel n = Some h \<longrightarrow> list_all clean h"
    "\<forall>h. nr_zygisk n = Some h \<longrightarrow> list_all clean h"
  shows "native_role_from_disk (Some (native_role_value n)) = n"
proof (cases "nr_enabled n")
  case False
  with assms show ?thesis by (simp add: native_role_value_def native_role_from_disk_def hook_role_def)
next
  case True
  show ?thesis
  proof (cases "nr_kernel n = None \<and> nr_zygisk n = None")
    case True
    with \<open>nr_enabled n\<close> show ?thesis
      by (simp add: native_role_value_def native_role_from_disk_def hook_role_def)
  next
    case False
    have "string_list (map_option json_strings k) = k" if "\<forall>h. k = Some h \<longrightarrow> list_all clean h" for k
      using that by (cases k) (simp_all add: string_list_strings, simp add: string_list_def)
    with assms have "string_list (map_option json_strings (nr_kernel n)) = nr_kernel n"
      "string_list (map_option json_strings (nr_zygisk n)) = nr_zygisk n" by blast+
    with False \<open>nr_enabled n\<close> show ?thesis
      by (cases "nr_kernel n"; cases "nr_zygisk n")
         (auto simp: native_role_value_def native_role_from_disk_def bt_get_of_list opt_field_def as_bool_def)
  qed
qed

lemma port_rule_roundtrip:
  assumes "rule_valid r"
  shows "as_object (port_rule_value r) \<noteq> None"
    "Option.bind (as_object (port_rule_value r)) port_rule_from_disk = Some r"
proof -
  have u: "uint (ucast w :: u64) = uint w" "uint w < 65536" for w :: u16
  proof -
    show "uint w < 65536" using uint_lt2p [of w] by simp
    then have "take_bit 64 (uint w) = uint w" by (intro take_bit_int_eq_self) simp_all
    then show "uint (ucast w :: u64) = uint w" by (simp add: unsigned_ucast_eq)
  qed
  have s: "try_i64 (ucast w) = Some (uint w)" for w :: u16
    using u [of w] by (simp add: try_i64_def)
  have "0 < uint (rule_start r)" "uint (rule_start r) \<le> uint (rule_end r)"
    using assms uint_nonnegative by (auto simp: rule_valid_def word_le_def less_le unsigned_eq_0_iff)
  then have "rule (protocol_value (rule_protocol r)) (uint (rule_start r)) (uint (rule_end r)) = Inr r"
    using rule_complete [of "uint (rule_start r)" "uint (rule_end r)"] u(2)
    by (cases "rule_protocol r") (simp_all add: protocol_of_def)
  with s show "Option.bind (as_object (port_rule_value r)) port_rule_from_disk = Some r"
    by (cases "rule_end r = rule_start r")
       (simp_all add: port_rule_value_def as_object_def port_rule_from_disk_def bt_get_of_list as_u64_def as_str_def)
qed (simp add: port_rule_value_def as_object_def)

lemma port_rules_roundtrip: "list_all rule_valid rs \<Longrightarrow> port_rules_from_disk (map port_rule_value rs) = Some rs"
proof (induction rs)
  case (Cons r rs)
  then show ?case using port_rule_roundtrip [of r] by (auto split: bind_splits)
qed simp

lemma port_policy_roundtrip:
  assumes "policy_disk_wf p"
  shows "port_policy_from_disk (Some (port_policy_value p)) = Some p"
proof -
  have "port_rules_from_disk (map port_rule_value (pp_rules p)) = Some (pp_rules p)" "pp_rules p \<noteq> []"
    using assms by (simp_all add: policy_disk_wf_def port_rules_roundtrip)
  with assms show ?thesis
    by (cases "pp_preset p")
       (auto simp: port_policy_from_disk_def port_policy_value_def as_object_def bt_get_of_list
          as_array_def as_str_def policy_disk_wf_def clean_def)
qed

lemma app_roundtrip:
  assumes "app_disk_wf a"
  shows "app_from_disk (app_to_disk a) = a"
proof -
  have java: "hook_role (Some (hook_role_value (ac_java a) (ac_java_hooks a))) = (ac_java a, ac_java_hooks a)"
    using assms by (intro hook_role_roundtrip) (auto simp: app_disk_wf_def app_wf_def)
  have native: "native_role_from_disk (Some (native_role_value (ac_native a))) = ac_native a"
    using assms by (intro native_role_roundtrip) (auto simp: app_disk_wf_def app_wf_def)
  show ?thesis
  proof (cases "ac_port_policy a")
    case None
    then show ?thesis
      by (simp add: app_from_disk_def app_to_disk_def java native opt_field_def bool_at_def as_bool_def Let_def)
  next
    case (Some p)
    with assms have "ac_ports a" "port_policy_from_disk (Some (port_policy_value p)) = Some p"
      by (auto simp: app_disk_wf_def app_wf_def port_policy_roundtrip)
    moreover have "port_policy_value p \<noteq> JNull" by (simp add: port_policy_value_def)
    ultimately show ?thesis
      by (simp add: app_from_disk_def app_to_disk_def java native opt_field_def bool_at_def as_bool_def Let_def Some)
  qed
qed


lemma string_set_roundtrip:
  "bs_wf s \<Longrightarrow> list_all clean s \<Longrightarrow> json_get v k = Some (json_strings s) \<Longrightarrow> string_set_at (Some v) k = s"
  by (simp add: string_set_at_def json_strings_def as_array_def clean_strings_id bs_of_list_id)

lemma apps_roundtrip:
  assumes "disk_wf c"
  shows "apps_from_disk (to_disk c) = cc_apps c"
proof -
  let ?A = "cc_apps c"
  have wf: "bt_wf ?A" and roles: "\<forall>(p, a) \<in> set ?A. has_any_role a \<and> app_disk_wf a"
    using assms bt_get_iff [of ?A] by (auto simp: disk_wf_def config_wf_def)
  have all: "filter (\<lambda>(p, a). has_any_role a) ?A = ?A"
    using roles by (intro filter_True) auto
  have m: "bt_wf (map (\<lambda>(p, a). (p, app_to_disk a)) ?A)"
    using wf by (simp add: bt_wf_def comp_def case_prod_beta')
  have "map (\<lambda>(p, v). (p, app_from_disk v)) (map (\<lambda>(p, a). (p, app_to_disk a)) ?A) = ?A"
    using roles by (auto simp: app_roundtrip intro!: map_idI)
  then show ?thesis
    by (simp add: apps_from_disk_def to_disk_def Let_def as_object_def all bt_of_list_wf [OF m] bt_of_list_wf [OF wf])
qed

lemma settings_roundtrip:
  assumes "disk_wf c"
  shows "settings_from_disk (json_get (to_disk c) ''settings'') = cc_settings c"
  using assms
  by (simp add: settings_from_disk_def to_disk_def Let_def opt_bool_at_def as_bool_def string_set_roundtrip
      disk_wf_def config_wf_def settings_wf_def)

lemma from_disk_to_disk:
  assumes "disk_wf c"
  shows "from_disk (to_disk c) = Some c"
proof -
  have v: "\<not> 1 < cc_version c" using assms by (simp add: disk_wf_def not_less)
  have "json_get (to_disk c) ''version'' = Some (JNumber (PosInt (ucast (cc_version c))))"
    "json_get (to_disk c) ''debug'' = Some (JBool (cc_debug c))"
    "json_get (to_disk c) ''debugSwitch'' = Some (JBool (cc_debug_switch c))"
    by (simp_all add: to_disk_def Let_def)
  with v show ?thesis
    by (simp add: from_disk_def as_u64_def bool_at_def as_bool_def Let_def apps_roundtrip [OF assms]
        settings_roundtrip [OF assms])
qed

subsection \<open>Encoded configurations pass the shape check\<close>

lemma then_check_Inr [simp]: "then_check a b = Inr () \<longleftrightarrow> a = Inr () \<and> b = Inr ()"
  by (cases a) (auto simp: then_check_def)

lemma strings_json_strings [simp]: "strings (json_strings h)" "\<not> is_object (json_strings h)"
  by (simp_all add: strings_def json_strings_def as_array_def list_all_iff is_string_def as_str_def is_object_def as_object_def)

lemma role_value [simp]: "role (hook_role_value b h)"
  by (cases "(b, h)" rule: hook_role_value.cases) (auto simp: role_def is_boolean_def as_bool_def)

lemma check_native_value: "check_native (Some (native_role_value n)) = Inr ()"
  by (cases "nr_kernel n"; cases "nr_zygisk n")
     (auto simp: check_native_def native_role_value_def is_object_def as_object_def role_def is_boolean_def
        as_bool_def opt_field_def split: if_splits)

lemma check_rules_values: "check_rules (map port_rule_value rs) = Inr ()"
proof (induction rs)
  case (Cons r rs)
  then show ?case by (cases "rule_protocol r") (simp_all add: port_rule_value_def as_str_def)
qed simp

lemma check_policy_value: "policy_disk_wf p \<Longrightarrow> check_policy (Some (port_policy_value p)) = Inr ()"
  using port_policy_roundtrip [of p]
  by (auto simp: check_policy_def) (auto simp: port_policy_value_def is_string_def as_str_def as_array_def
      check_rules_values split: option.splits)

lemma check_policy_None: "check_policy None = Inr ()"
  by (simp add: check_policy_def)

lemma check_app_value:
  assumes "app_disk_wf a"
  shows "check_app (app_to_disk a) = Inr ()"
proof -
  have "check_policy (json_get (app_to_disk a) ''portPolicy'') = Inr ()"
    using assms by (cases "ac_port_policy a")
      (auto simp: app_to_disk_def opt_field_def app_disk_wf_def check_policy_value check_policy_None)
  moreover have "check_native (json_get (app_to_disk a) ''native'') = Inr ()"
    by (auto simp: app_to_disk_def opt_field_def check_native_value split: option.splits)
  ultimately show ?thesis
    by (auto simp: check_app_def) (auto simp: app_to_disk_def is_object_def as_object_def opt_field_def is_boolean_def as_bool_def
        split: option.splits)
qed


lemma check_apps_Inr: "(\<forall>(p, v) \<in> set m. check_app v = Inr ()) \<Longrightarrow> check_apps m = Inr ()"
  by (induction m) auto

lemma validate_to_disk:
  assumes "disk_wf c"
  shows "validate_disk_shape (to_disk c) = Inr (cc_version c)"
proof -
  let ?apps = "bt_of_list (map (\<lambda>(p, a). (p, app_to_disk a)) (filter (\<lambda>(p, a). has_any_role a) (cc_apps c)))"
  have "set (bt_of_list kvs) \<subseteq> set kvs" for kvs :: "(string \<times> json) list"
  proof
    fix e
    assume "e \<in> set (bt_of_list kvs)"
    then have "bt_get (bt_of_list kvs) (fst e) = Some (snd e)" by (simp add: bt_get_iff)
    then show "e \<in> set kvs" by (auto simp: bt_get_of_list dest: map_of_SomeD)
  qed
  moreover have "app_disk_wf a" if "(p, a) \<in> set (cc_apps c)" for p a
    using assms that bt_get_iff [of "cc_apps c" p a] by (auto simp: disk_wf_def config_wf_def)
  ultimately have "\<forall>(p, v) \<in> set ?apps. check_app v = Inr ()"
    using check_app_value by fastforce
  then have apps: "check_apps ?apps = Inr ()" by (rule check_apps_Inr)
  have ver: "disk_version (to_disk c) = Inr (cc_version c)"
  proof -
    have "unat (ucast (cc_version c) :: u64) < 2 ^ 32"
      using unat_lt_u32 [of "cc_version c"] by (simp add: unsigned_ucast_eq take_bit_nat_eq_self)
    then show ?thesis by (simp add: disk_version_def to_disk_def Let_def as_u64_def)
  qed
  show ?thesis
    unfolding validate_disk_shape_def ver
    using apps
    by (simp add: to_disk_def Let_def is_object_def as_object_def is_boolean_def as_bool_def check_settings_def
        then_check_def split: sum.splits)
qed

text \<open>
  C17.  The disk codec is faithful: every representable configuration, once encoded, passes the
  shape check and decodes to itself, so what Core commits is exactly what it, the activator and
  the Java side read back.
\<close>

theorem canonical_disk_roundtrip:
  assumes "disk_wf c"
  shows "validate_disk_shape (to_disk c) = Inr (cc_version c) \<and> from_disk (to_disk c) = Some c"
  using assms by (simp add: validate_to_disk from_disk_to_disk)

theorem canonical_disk_roundtrip_witness:
  "validate_disk_shape (to_disk (default_canonical\<lparr>cc_apps := [(''a.b'', default_app\<lparr>ac_ports := True\<rparr>)]\<rparr>)) = Inr 1
   \<and> from_disk (to_disk (default_canonical\<lparr>cc_apps := [(''a.b'', default_app\<lparr>ac_ports := True\<rparr>)]\<rparr>)) =
     Some (default_canonical\<lparr>cc_apps := [(''a.b'', default_app\<lparr>ac_ports := True\<rparr>)]\<rparr>)"
proof -
  let ?c = "default_canonical\<lparr>cc_apps := [(''a.b'', default_app\<lparr>ac_ports := True\<rparr>)]\<rparr>"
  have "disk_wf ?c"
    by (auto simp: default_canonical_def disk_wf_def config_wf_def settings_wf_def default_settings_def bs_wf_def
        app_wf_def default_app_def app_disk_wf_def has_any_role_def default_native_def split: if_splits)
  from canonical_disk_roundtrip [OF this] show ?thesis by (simp add: default_canonical_def)
qed



section \<open>Decode, then encode\<close>

lemma clean_clean_strings: "list_all clean (clean_strings a)"
  by (auto simp: clean_strings_def list_all_iff clean_def)

lemma string_list_clean: "string_list v = Some h \<Longrightarrow> list_all clean h"
  by (auto simp: string_list_def clean_clean_strings split: bind_splits)

lemma hook_role_wf:
  assumes "hook_role v = (j, h)"
  shows "(j \<or> h = None) \<and> (\<forall>x. h = Some x \<longrightarrow> x \<noteq> [] \<and> list_all clean x)"
  using assms by (auto simp: hook_role_def split: option.splits json.splits if_splits dest: string_list_clean)

lemma native_role_cases:
  "native_role_from_disk v = default_native
   \<or> (\<exists>a b. native_role_from_disk v = \<lparr>nr_enabled = True, nr_kernel = string_list a, nr_zygisk = string_list b\<rparr>)
   \<or> (\<exists>h. hook_role v = (True, h) \<and> native_role_from_disk v = \<lparr>nr_enabled = True, nr_kernel = h, nr_zygisk = None\<rparr>)"
  unfolding native_role_from_disk_def by (auto split: option.splits json.splits prod.splits)

lemma native_role_wf:
  "nr_enabled (native_role_from_disk v) \<or> native_role_from_disk v = default_native"
  "nr_kernel (native_role_from_disk v) = Some h \<Longrightarrow> list_all clean h"
  "nr_zygisk (native_role_from_disk v) = Some h \<Longrightarrow> list_all clean h"
  using native_role_cases [of v]
  by (auto simp: default_native_def dest: string_list_clean hook_role_wf)

lemma port_rules_wf: "port_rules_from_disk js = Some rs \<Longrightarrow> list_all rule_valid rs \<and> length rs = length js"
proof (induction js arbitrary: rs)
  case (Cons j js)
  have "rule_valid r" if "port_rule_from_disk m = Some r" for m r
    using that rule_Inr(1) by (auto simp: port_rule_from_disk_def res_ok_def split: bind_splits sum.splits)
  with Cons show ?case by (auto split: bind_splits)
qed simp

lemma port_policy_wf:
  assumes "port_policy_from_disk v = Some p"
  shows "policy_disk_wf p"
proof -
  from assms obtain js where js: "js \<noteq> []" "port_rules_from_disk js = Some (pp_rules p)"
    by (auto simp: port_policy_from_disk_def Let_def split: bind_splits if_splits)
  moreover have "\<forall>s. pp_preset p = Some s \<longrightarrow> clean s"
    using assms by (auto simp: port_policy_from_disk_def Let_def clean_def split: bind_splits if_splits option.splits)
  moreover have "pp_rules p \<noteq> []"
    using port_rules_wf [OF js(2)] js(1) by auto
  ultimately show ?thesis using port_rules_wf [OF js(2)] by (simp add: policy_disk_wf_def)
qed

lemma app_from_disk_wf: "app_disk_wf (app_from_disk v)"
proof -
  obtain j h where r: "hook_role (json_get v ''java'') = (j, h)" by force
  have "app_wf (app_from_disk v)"
    using hook_role_wf [OF r] native_role_wf(1) by (auto simp: app_from_disk_def app_wf_def Let_def r)
  moreover have "\<forall>p. ac_port_policy (app_from_disk v) = Some p \<longrightarrow> policy_disk_wf p"
    by (auto simp: app_from_disk_def Let_def r dest: port_policy_wf)
  ultimately show ?thesis
    using hook_role_wf [OF r] native_role_wf(2,3) [of "json_get v ''native''"]
    by (auto simp: app_disk_wf_def) (simp_all add: app_from_disk_def Let_def r)
qed

lemma apps_from_disk_wf:
  "bt_wf (apps_from_disk root)"
  "bt_get (apps_from_disk root) p = Some a \<Longrightarrow> app_disk_wf a \<and> has_any_role a"
proof -
  show "bt_wf (apps_from_disk root)"
    by (simp add: apps_from_disk_def split: option.split)
  show "bt_get (apps_from_disk root) p = Some a \<Longrightarrow> app_disk_wf a \<and> has_any_role a"
    by (auto simp: apps_from_disk_def bt_get_of_list app_from_disk_wf split: option.splits dest!: map_of_SomeD)
qed

lemma string_set_at_wf: "bs_wf (string_set_at v k)" "list_all clean (string_set_at v k)"
  using clean_clean_strings by (auto simp: string_set_at_def list_all_iff bs_wf_def split: option.split
      intro: bs_wf_of_list [unfolded bs_wf_def])

lemma from_disk_wf:
  assumes "from_disk root = Some c"
  shows "disk_wf c"
proof -
  have c: "cc_apps c = apps_from_disk root" "cc_settings c = settings_from_disk (json_get root ''settings'')" "cc_version c \<le> 1"
    using assms by (auto simp: from_disk_def Let_def not_less split: if_splits)
  have "settings_wf (cc_settings c)" "list_all clean (st_optional_features (cc_settings c))"
    "list_all clean (st_auto_hide_excluded_packages (cc_settings c))" "list_all clean (st_auto_hidden_packages (cc_settings c))"
    using string_set_at_wf by (simp_all add: c settings_from_disk_def settings_wf_def)
  moreover have "\<forall>p a. bt_get (cc_apps c) p = Some a \<longrightarrow> app_disk_wf a \<and> app_wf a \<and> has_any_role a"
    using apps_from_disk_wf(2) by (auto simp: c app_disk_wf_def)
  ultimately show ?thesis
    using c apps_from_disk_wf(1) by (simp add: disk_wf_def config_wf_def)
qed

text \<open>
   Whatever JSON is decoded, the result is a representable configuration: well formed, with
  trimmed nonempty names, details only where their role is on and only valid port ranges; encoding
  and decoding it again changes nothing.  A malformed port policy disables the role instead of
  widening it.
\<close>

theorem from_disk_normal_form:
  assumes "from_disk root = Some c"
  shows "disk_wf c \<and> from_disk (to_disk c) = Some c"
  using from_disk_wf [OF assms] by (simp add: from_disk_to_disk)

theorem from_disk_normal_form_witness:
  "\<exists>c. from_disk (JObject [(''apps'', JObject [(''a.b'', JObject [(''java'', JArray [JString '' x ''])])])]) = Some c \<and> disk_wf c"
proof -
  have "from_disk (JObject [(''apps'', JObject [(''a.b'', JObject [(''java'', JArray [JString '' x ''])])])]) \<noteq> None"
    by (simp add: from_disk_def json_simps Let_def)
  with from_disk_normal_form show ?thesis by blast
qed



section \<open>Admission and import\<close>

text \<open>
   Admission of a candidate is exact: with a JSON library that reads back what it wrote for this
  value, a candidate is accepted if and only if it has schema version 1, is representable on disk,
  and both encodings fit 512 KiB; so no client can commit a value that a later load would change.
\<close>

theorem validate_candidate_exact:
  assumes read_back: "from_str (to_string (to_disk c)) = Some (to_disk c)"
    and not_blank: "trim (to_string (to_disk c)) \<noteq> []"
  shows "validate_candidate from_str to_string rpc_len c = Inr () \<longleftrightarrow>
    cc_version c = 1 \<and> disk_wf c \<and> length (to_string (to_disk c)) \<le> MAX_CONFIG_BYTES
    \<and> (\<exists>n. rpc_len c = Inr n \<and> n \<le> MAX_CONFIG_BYTES)"
proof -
  have "parse_status from_str (to_string (to_disk c)) = Inr (Present c) \<longleftrightarrow> disk_wf c"
  proof
    assume "disk_wf c"
    then have "validate_disk_shape (to_disk c) = Inr (cc_version c)" "from_disk (to_disk c) = Some c" "\<not> 1 < cc_version c"
      by (simp_all add: validate_to_disk from_disk_to_disk disk_wf_def not_less)
    then show "parse_status from_str (to_string (to_disk c)) = Inr (Present c)"
      by (simp add: parse_status_def assms)
  next
    assume "parse_status from_str (to_string (to_disk c)) = Inr (Present c)"
    then have "from_disk (to_disk c) = Some c"
      by (auto simp: parse_status_def assms split: sum.splits if_splits option.splits)
    then show "disk_wf c" by (rule from_disk_wf)
  qed
  then show ?thesis
    by (auto simp: validate_candidate_def to_json_string_def Let_def split: sum.splits if_splits)
qed

theorem validate_candidate_exact_witness:
  "validate_candidate (\<lambda>s. if s = ''{}'' then Some (to_disk default_canonical) else None) (\<lambda>_. ''{}'') (\<lambda>_. Inr 2)
     default_canonical = Inr ()"
proof -
  have "disk_wf default_canonical"
    by (simp add: default_canonical_def disk_wf_def config_wf_def settings_wf_def default_settings_def bs_wf_def)
  moreover have "trim ''{}'' \<noteq> []" by code_simp
  ultimately show ?thesis
    using validate_candidate_exact [of "\<lambda>s. if s = ''{}'' then Some (to_disk default_canonical) else None" "\<lambda>_. ''{}''"
        default_canonical "\<lambda>_. Inr 2"]
    by (simp add: default_canonical_def MAX_CONFIG_BYTES_def)
qed

lemma normalize_policy_wf: "policy_disk_wf p \<Longrightarrow> policy_disk_wf (normalize_port_policy p)"
  by (simp add: policy_disk_wf_def normalize_port_policy_def list_all_iff)

lemma normalize_policy_idem: "normalize_port_policy (normalize_port_policy p) = normalize_port_policy p"
  by (simp add: normalize_port_policy_def normalize_rules_idem)

lemma bt_get_map_values: "bt_get (map (\<lambda>(p, a). (p, f a)) m) k = map_option f (bt_get m k)"
  by (induction m) auto

lemma normalize_app_wf:
  assumes "app_disk_wf a"
  shows "app_disk_wf (a\<lparr>ac_port_policy := map_option normalize_port_policy (ac_port_policy a)\<rparr>)"
  using assms normalize_policy_wf by (auto simp: app_disk_wf_def app_wf_def)

lemma normalize_interchange_wf:
  assumes "disk_wf c"
  shows "disk_wf (normalize_interchange c)"
proof -
  let ?n = "\<lambda>a. a\<lparr>ac_port_policy := map_option normalize_port_policy (ac_port_policy a)\<rparr>"
  have "bt_wf (map (\<lambda>(p, a). (p, f a)) m) = bt_wf m" for f :: "app_config \<Rightarrow> app_config" and m :: "(string, app_config) bmap"
    by (simp add: bt_wf_def comp_def case_prod_beta')
  moreover have "app_disk_wf a \<and> app_wf a \<and> has_any_role a" if "bt_get (map (\<lambda>(p, a). (p, ?n a)) (cc_apps c)) p = Some a" for p a
  proof -
    from that obtain b where b: "bt_get (cc_apps c) p = Some b" "a = ?n b"
      by (auto simp: bt_get_map_values)
    with assms have "app_disk_wf b" "has_any_role b" by (auto simp: disk_wf_def config_wf_def)
    then have "app_disk_wf (?n b)" "has_any_role (?n b)"
      by (simp_all only: normalize_app_wf) (simp add: has_any_role_def)
    then show ?thesis unfolding b(2) using app_disk_wf_def by blast
  qed
  ultimately show ?thesis
    using assms by (simp add: disk_wf_def config_wf_def normalize_interchange_def)
qed

text \<open>
   An import never turns damaged input into an empty replacement: it succeeds only for text
  within the bound that the JSON reader accepts, with the documented shape and schema version 1, and
  the imported configuration is representable and already in interchange normal form.
\<close>

theorem parse_import_sound:
  assumes "parse_import from_str raw = Inr c"
  shows "length raw \<le> MAX_CONFIG_BYTES \<and> cc_version c = 1 \<and> disk_wf c \<and> normalize_interchange c = c
    \<and> (\<exists>root d. from_str raw = Some root \<and> is_ok (validate_disk_shape root) \<and> from_disk root = Some d
         \<and> c = normalize_interchange d)"
proof -
  from assms obtain d where d: "length raw \<le> MAX_CONFIG_BYTES" "parse_status from_str raw = Inr (Present d)"
    "cc_version d = 1" "c = normalize_interchange d"
    by (auto simp: parse_import_def not_less split: if_splits sum.splits config_load.splits)
  from d(2) obtain root v where r: "from_str raw = Some root" "validate_disk_shape root = Inr v" "from_disk root = Some d"
    by (auto simp: parse_status_def split: if_splits sum.splits option.splits)
  have "normalize_interchange c = c"
    by (auto simp: d(4) normalize_interchange_def comp_def case_prod_beta' option.map_comp normalize_policy_idem)
  with d r normalize_interchange_wf [OF from_disk_wf [OF r(3)]] show ?thesis
    by (simp add: normalize_interchange_def)
qed

theorem parse_import_sound_witness:
  "\<exists>c. parse_import (\<lambda>_. Some (to_disk default_canonical)) ''{}'' = Inr c \<and> disk_wf c \<and> cc_version c = 1"
proof -
  have w: "disk_wf default_canonical"
    by (simp add: default_canonical_def disk_wf_def config_wf_def settings_wf_def default_settings_def bs_wf_def)
  have "trim ''{}'' \<noteq> []" by code_simp
  with w have "parse_import (\<lambda>_. Some (to_disk default_canonical)) ''{}'' = Inr (normalize_interchange default_canonical)"
    by (simp add: parse_import_def parse_status_def validate_to_disk from_disk_to_disk MAX_CONFIG_BYTES_def)
       (simp add: default_canonical_def)
  from this parse_import_sound [OF this] show ?thesis by blast
qed

end
