(* ===== verification/Machines.thy ===== *)
theory Machines
  imports Prelude
begin

text \<open>
  Event-driven state machines.  A component gives its total step function and an invariant that
  every event keeps; runs then keep it.  The extension adds a rank that never decreases, which is
  how one-shot transitions are shown to happen at most once.
\<close>

locale machine =
  fixes step :: "'s \<Rightarrow> 'e \<Rightarrow> 's"
    and inv :: "'s \<Rightarrow> bool"
  assumes inv_step: "inv s \<Longrightarrow> inv (step s e)"
begin

lemma inv_run: "inv s \<Longrightarrow> inv (foldl step s es)"
  by (induction es arbitrary: s) (auto intro: inv_step)

end

locale ranked_machine = machine +
  fixes rank :: "'a \<Rightarrow> nat"
  assumes rank_step: "inv s \<Longrightarrow> rank s \<le> rank (step s e)"
begin

lemma rank_run: "inv s \<Longrightarrow> rank s \<le> rank (foldl step s es)"
proof (induction es arbitrary: s)
  case (Cons e es)
  then have "rank s \<le> rank (step s e)" "rank (step s e) \<le> rank (foldl step (step s e) es)"
    by (simp_all add: rank_step inv_step)
  then show ?case by simp
qed simp

text \<open>Events that strictly raise the rank from below \<open>k\<close> to \<open>k\<close> or more: at most one in any run.\<close>

definition crosses :: "nat \<Rightarrow> 'a \<Rightarrow> 'b \<Rightarrow> bool" where
  "crosses k s e = (rank s < k \<and> k \<le> rank (step s e))"

fun crossings :: "nat \<Rightarrow> 'a \<Rightarrow> 'b list \<Rightarrow> nat" where
  "crossings k s [] = 0"
| "crossings k s (e # es) = (if crosses k s e then 1 else 0) + crossings k (step s e) es"

lemma no_crossings_above: "inv s \<Longrightarrow> k \<le> rank s \<Longrightarrow> crossings k s es = 0"
proof (induction es arbitrary: s)
  case (Cons e es)
  have "k \<le> rank (step s e)" using Cons.prems rank_step le_trans by blast
  with Cons show ?case by (simp add: crosses_def inv_step)
qed simp

lemma crossings_le_1: "inv s \<Longrightarrow> crossings k s es \<le> 1"
proof (induction es arbitrary: s)
  case (Cons e es)
  show ?case
  proof (cases "crosses k s e")
    case True
    then have "crossings k (step s e) es = 0"
      using Cons.prems by (intro no_crossings_above) (simp_all add: inv_step crosses_def)
    then show ?thesis by simp
  qed (use Cons in \<open>simp add: inv_step\<close>)
qed simp

end

end
