(* ===== verification/Reset_Session.thy ===== *)
theory Reset_Session
  imports Machines
begin

text \<open>
  The client side of a device reset (\<^verbatim>\<open>crates/maintenance-model/src/lib.rs\<close>): a session persisted
  across client crashes that allocates an operation, submits it once and then only reconciles its
  receipt.
\<close>

section \<open>Definitions\<close>

definition RESET_SCHEMA :: u32 where
  "RESET_SCHEMA = 1"

datatype reset_status =
  StAllocated | StAccepted | StRunning | StConfirmed | StFailedKnown | StUnknown | StNotFound | StRejected

record reset_reply =
  rr_schema :: u32
  rr_boot_id :: "string option"
  rr_epoch :: "u64 option"
  rr_operation :: "u64 option"
  rr_status :: reset_status

record device_identity =
  di_serial :: string
  di_boot_id :: string

definition device_validate :: "device_identity \<Rightarrow> string + unit" where
  "device_validate d =
     (if di_serial d = [] \<or> 128 < length (di_serial d)
         \<or> \<not> list_all (\<lambda>b. is_ascii_alnum b \<or> b \<in> set ''._:-'') (di_serial d)
      then Inl ''invalid explicit ADB serial''
      else if length (di_boot_id d) \<noteq> 36
         \<or> \<not> list_all (\<lambda>(i, b). if i \<in> {8, 13, 18, 23} then b = CHR ''-'' else is_ascii_hexdigit b)
              (List.enumerate 0 (di_boot_id d))
      then Inl ''invalid device boot identity''
      else Inr ())"

datatype reset_phase = Prepared | Allocated | SubmitIntent | Waiting | Confirmed | FailedKnown | Unknown

record reset_session =
  rs_schema :: u32
  rs_device :: device_identity
  rs_operation :: "u64 option"
  rs_phase :: reset_phase


definition session_validate :: "reset_session \<Rightarrow> string + unit" where
  "session_validate s =
     (case device_validate (rs_device s) of
        Inl e \<Rightarrow> Inl e
      | Inr _ \<Rightarrow>
          if rs_schema s \<noteq> RESET_SCHEMA \<or> rs_operation s = Some 0
             \<or> ((rs_phase s = Prepared) \<noteq> (rs_operation s = None))
          then Inl ''invalid reset session'' else Inr ())"

definition positive :: "u64 option \<Rightarrow> bool" where
  "positive v = (case v of None \<Rightarrow> False | Some n \<Rightarrow> 0 < n)"

text \<open>The operations update the session in place; on an error it is returned as it was.\<close>

definition allocated :: "reset_session \<Rightarrow> reset_reply \<Rightarrow> (string + unit) \<times> reset_session" where
  "allocated s reply =
     (if rs_phase s \<noteq> Prepared \<or> rr_schema reply \<noteq> RESET_SCHEMA \<or> rr_status reply \<noteq> StAllocated
         \<or> \<not> positive (rr_epoch reply) \<or> \<not> positive (rr_operation reply)
         \<or> rr_boot_id reply \<noteq> Some (di_boot_id (rs_device s))
      then (Inl ''allocation was not confirmed'', s)
      else (Inr (), s\<lparr>rs_operation := rr_operation reply, rs_phase := Allocated\<rparr>))"

definition begin_submit :: "reset_session \<Rightarrow> device_identity \<Rightarrow> (string + u64) \<times> reset_session" where
  "begin_submit s device =
     (case session_validate s of
        Inl e \<Rightarrow> (Inl e, s)
      | Inr _ \<Rightarrow>
          if rs_device s \<noteq> device \<or> rs_phase s \<noteq> Allocated
          then (Inl ''reset submission requires the exact prepared device/boot and unused intent'', s)
          else (ok_or (rs_operation s) ''operation missing'', s\<lparr>rs_phase := SubmitIntent\<rparr>))"

definition submitted :: "reset_phase \<Rightarrow> bool" where
  "submitted p = (p = SubmitIntent \<or> p = Waiting \<or> p = Unknown)"

definition observe :: "reset_session \<Rightarrow> reset_reply \<Rightarrow> (string + unit) \<times> reset_session" where
  "observe s reply =
     (case session_validate s of
        Inl e \<Rightarrow> (Inl e, s)
      | Inr _ \<Rightarrow>
          if \<not> submitted (rs_phase s) \<or> rr_schema reply \<noteq> RESET_SCHEMA \<or> rr_operation reply \<noteq> rs_operation s
             \<or> rr_boot_id reply \<noteq> Some (di_boot_id (rs_device s))
             \<or> (rr_status reply \<noteq> StUnknown \<and> \<not> positive (rr_epoch reply))
          then (Inl ''receipt does not identify the submitted reset'', s)
          else (case rr_status reply of
                  StConfirmed \<Rightarrow> (Inr (), s\<lparr>rs_phase := Confirmed\<rparr>)
                | StFailedKnown \<Rightarrow> (Inr (), s\<lparr>rs_phase := FailedKnown\<rparr>)
                | StRejected \<Rightarrow> (Inr (), s\<lparr>rs_phase := FailedKnown\<rparr>)
                | StAccepted \<Rightarrow> (Inr (), s\<lparr>rs_phase := Waiting\<rparr>)
                | StRunning \<Rightarrow> (Inr (), s\<lparr>rs_phase := Waiting\<rparr>)
                | StUnknown \<Rightarrow> (Inr (), s\<lparr>rs_phase := Unknown\<rparr>)
                | StNotFound \<Rightarrow> (Inr (), s\<lparr>rs_phase := Unknown\<rparr>)
                | StAllocated \<Rightarrow> (Inl ''allocation is not reset completion'', s)))"

definition lost_reply :: "reset_session \<Rightarrow> (string + unit) \<times> reset_session" where
  "lost_reply s =
     (if \<not> submitted (rs_phase s) then (Inl ''no submitted reset to reconcile'', s)
      else (Inr (), s\<lparr>rs_phase := Unknown\<rparr>))"

definition recheck_confirmation :: "reset_session \<Rightarrow> (string + unit) \<times> reset_session" where
  "recheck_confirmation s =
     (if rs_phase s \<noteq> Confirmed then (Inl ''no confirmation to recheck'', s)
      else (Inr (), s\<lparr>rs_phase := Waiting\<rparr>))"


section \<open>Runs\<close>

datatype reset_event =
    EvAllocated reset_reply
  | EvSubmit device_identity
  | EvObserve reset_reply
  | EvLost
  | EvRecheck

fun session_step :: "reset_session \<Rightarrow> reset_event \<Rightarrow> reset_session" where
  "session_step s (EvAllocated r) = snd (allocated s r)"
| "session_step s (EvSubmit d) = snd (begin_submit s d)"
| "session_step s (EvObserve r) = snd (observe s r)"
| "session_step s EvLost = snd (lost_reply s)"
| "session_step s EvRecheck = snd (recheck_confirmation s)"

definition session_rank :: "reset_session \<Rightarrow> nat" where
  "session_rank s = (case rs_phase s of Prepared \<Rightarrow> 0 | Allocated \<Rightarrow> 1 | _ \<Rightarrow> 2)"


definition session_ok :: "reset_session \<Rightarrow> bool" where
  "session_ok s = (session_validate s = Inr ())"

lemma session_ok_iff:
  "session_ok s \<longleftrightarrow> device_validate (rs_device s) = Inr () \<and> rs_schema s = RESET_SCHEMA
     \<and> rs_operation s \<noteq> Some 0 \<and> (rs_phase s = Prepared \<longleftrightarrow> rs_operation s = None)"
  by (auto simp: session_ok_def session_validate_def split: sum.splits if_splits)

lemmas session_ops = allocated_def begin_submit_def observe_def lost_reply_def recheck_confirmation_def

lemma session_ok_step: "session_ok s \<Longrightarrow> session_ok (session_step s e)"
  by (cases e) (auto simp: session_ops session_ok_iff positive_def submitted_def
      split: sum.splits option.splits reset_status.splits)

lemma session_rank_step: "session_ok s \<Longrightarrow> session_rank s \<le> session_rank (session_step s e)"
  by (cases e) (auto simp: session_ops session_rank_def submitted_def split: sum.splits reset_status.splits reset_phase.splits)

interpretation reset: ranked_machine session_step session_ok session_rank
  by unfold_locales (fact session_ok_step session_rank_step)+











text \<open>
   A reset is only ever confirmed by evidence: a session becomes \<open>Confirmed\<close> solely by
  observing a receipt with status confirmed, a live epoch, this session's operation and this boot;
  in particular an allocation reply, a lost reply or a receipt of another boot never completes it.
\<close>

theorem reset_confirmation_evidence:
  assumes "rs_phase s \<noteq> Confirmed" "rs_phase (session_step s e) = Confirmed"
  shows "\<exists>r. e = EvObserve r \<and> rr_status r = StConfirmed \<and> positive (rr_epoch r) \<and> rr_schema r = RESET_SCHEMA
    \<and> rr_operation r = rs_operation s \<and> rr_boot_id r = Some (di_boot_id (rs_device s)) \<and> submitted (rs_phase s)"
  using assms by (cases e) (auto simp: session_ops split: sum.splits reset_status.splits if_splits)

theorem reset_confirmation_evidence_witness:
  "\<exists>r. EvObserve \<lparr>rr_schema = 1, rr_boot_id = Some ''01234567-89ab-cdef-0123-456789abcdef'', rr_epoch = Some 1,
        rr_operation = Some 9, rr_status = StConfirmed\<rparr> = EvObserve r \<and> rr_status r = StConfirmed"
proof -
  let ?s = "\<lparr>rs_schema = 1, rs_device = \<lparr>di_serial = ''emulator-5554'', di_boot_id = ''01234567-89ab-cdef-0123-456789abcdef''\<rparr>,
      rs_operation = Some 9, rs_phase = Waiting\<rparr>"
  let ?r = "\<lparr>rr_schema = 1, rr_boot_id = Some ''01234567-89ab-cdef-0123-456789abcdef'', rr_epoch = Some 1,
      rr_operation = Some 9, rr_status = StConfirmed\<rparr>"
  have "rs_phase (session_step ?s (EvObserve ?r)) = Confirmed" by code_simp
  with reset_confirmation_evidence [of ?s "EvObserve ?r"] show ?thesis by auto
qed

end
