(* ===== verification/Operation_Plan.thy ===== *)
theory Operation_Plan
  imports Canonical_Config Machines
begin

text \<open>
  Phase plans of Core commands (\<^verbatim>\<open>crates/core-daemon/src/operation.rs\<close>): which phases a command runs
  and the loop that dispatches them.  The phase runner and the phase hook are interfaces of the
  source; here they are functions on an arbitrary world.  The dispatch fence
  (\<^verbatim>\<open>FenceOnlyHook\<close> of \<^verbatim>\<open>server.rs\<close>) and the admission ticket (\<^verbatim>\<open>command_engine.rs\<close>) complete the
  picture of who may start an effect.
\<close>

section \<open>Plans\<close>

datatype config_phase = Persist | Secret | Cleanup | PNative | PPorts | Maintenance

datatype phase_outcome = NotAttempted | Running | OConfirmed | OFailedKnown | OUnknown

record phase_record =
  phr_phase :: config_phase
  phr_outcome :: phase_outcome

datatype plan_kind =
    PersistOnly | PersistThenNative | PersistThenPorts | PersistThenNativeThenPorts
  | NativeOnly | PortsOnly | NativeThenPorts

fun plan_of_kind :: "plan_kind \<Rightarrow> config_phase list" where
  "plan_of_kind PersistOnly = [Persist]"
| "plan_of_kind PersistThenNative = [Persist, PNative]"
| "plan_of_kind PersistThenPorts = [Persist, PPorts]"
| "plan_of_kind PersistThenNativeThenPorts = [Persist, PNative, PPorts]"
| "plan_of_kind NativeOnly = [PNative]"
| "plan_of_kind PortsOnly = [PPorts]"
| "plan_of_kind NativeThenPorts = [PNative, PPorts]"

definition plan_for :: "bool \<Rightarrow> config_phase list" where
  "plan_for native = plan_of_kind (if native then PersistThenNative else PersistOnly)"

record plan_outcome =
  po_phases :: "phase_record list"
  po_settled :: phase_outcome
  po_persisted :: bool


section \<open>Running a plan\<close>

text \<open>
  A runner performs one phase; a hook's \<open>before\<close> and \<open>after\<close> return \<open>Some\<close> outcome where the source
  returns \<^verbatim>\<open>Err\<close>.
\<close>

type_synonym 'w runner = "config_phase \<Rightarrow> canonical_config \<Rightarrow> 'w \<Rightarrow> phase_outcome \<times> 'w"

record 'w phase_hook =
  hook_before :: "config_phase \<Rightarrow> 'w \<Rightarrow> phase_outcome option \<times> 'w"
  hook_after :: "config_phase \<Rightarrow> phase_outcome \<Rightarrow> 'w \<Rightarrow> phase_outcome option \<times> 'w"

definition dispatch ::
    "'w runner \<Rightarrow> 'w phase_hook option \<Rightarrow> canonical_config \<Rightarrow> bool \<Rightarrow> config_phase \<Rightarrow> 'w \<Rightarrow> phase_outcome \<times> 'w" where
  "dispatch runner hook candidate changed phase w =
     (if phase = Persist \<and> \<not> changed then (OConfirmed, w)
      else case hook of
        None \<Rightarrow> runner phase candidate w
      | Some h \<Rightarrow>
          (case hook_before h phase w of
             (Some fail, w1) \<Rightarrow> (fail, w1)
           | (None, w1) \<Rightarrow>
               (let (outcome, w2) = runner phase candidate w1
                in case hook_after h phase outcome w2 of
                     (Some uncertain, w3) \<Rightarrow> (uncertain, w3)
                   | (None, w3) \<Rightarrow> (outcome, w3))))"

definition settle :: "phase_outcome \<Rightarrow> phase_outcome \<Rightarrow> phase_outcome" where
  "settle settled outcome =
     (if outcome \<noteq> OConfirmed
         \<and> (outcome = OUnknown \<or> settled = OConfirmed \<or> (outcome = OFailedKnown \<and> settled \<noteq> OUnknown))
      then outcome else settled)"

definition stops :: "config_phase \<Rightarrow> phase_outcome \<Rightarrow> bool" where
  "stops phase outcome =
     (outcome \<noteq> OConfirmed \<and> \<not> (outcome = OFailedKnown \<and> (phase = PNative \<or> phase = PPorts)))"

fun run_phases ::
    "'w runner \<Rightarrow> 'w phase_hook option \<Rightarrow> canonical_config \<Rightarrow> bool \<Rightarrow> config_phase list \<Rightarrow>
     phase_outcome \<Rightarrow> bool \<Rightarrow> 'w \<Rightarrow> plan_outcome \<times> 'w" where
  "run_phases runner hook candidate changed [] settled persisted w =
     (\<lparr>po_phases = [], po_settled = settled, po_persisted = persisted\<rparr>, w)"
| "run_phases runner hook candidate changed (phase # rest) settled persisted w =
     (let (outcome, w1) = dispatch runner hook candidate changed phase w;
          persisted1 = (if phase = Persist \<and> outcome = OConfirmed then changed else persisted);
          settled1 = settle settled outcome;
          rec = \<lparr>phr_phase = phase, phr_outcome = outcome\<rparr>
      in if stops phase outcome
         then (\<lparr>po_phases = rec # map (\<lambda>p. \<lparr>phr_phase = p, phr_outcome = NotAttempted\<rparr>) rest,
                po_settled = settled1, po_persisted = persisted1\<rparr>, w1)
         else let (out, w2) = run_phases runner hook candidate changed rest settled1 persisted1 w1
              in (out\<lparr>po_phases := rec # po_phases out\<rparr>, w2))"

definition run_plan_hooked ::
    "config_phase list \<Rightarrow> canonical_config \<Rightarrow> bool \<Rightarrow> 'w runner \<Rightarrow> 'w phase_hook option \<Rightarrow> 'w \<Rightarrow> plan_outcome \<times> 'w" where
  "run_plan_hooked plan candidate changed runner hook w =
     run_phases runner hook candidate changed plan OConfirmed False w"

definition run_plan ::
    "config_phase list \<Rightarrow> canonical_config \<Rightarrow> bool \<Rightarrow> 'w runner \<Rightarrow> 'w \<Rightarrow> plan_outcome \<times> 'w" where
  "run_plan plan candidate changed runner w = run_plan_hooked plan candidate changed runner None w"


section \<open>What a plan records\<close>


lemma run_phases_stop:
  assumes "dispatch runner hook c changed p w = (res, w1)" "stops p res"
  shows "run_phases runner hook c changed (p # plan) settled persisted w =
    (\<lparr>po_phases = \<lparr>phr_phase = p, phr_outcome = res\<rparr> # map (\<lambda>q. \<lparr>phr_phase = q, phr_outcome = NotAttempted\<rparr>) plan,
      po_settled = settle settled res,
      po_persisted = (if p = Persist \<and> res = OConfirmed then changed else persisted)\<rparr>, w1)"
  using assms by (simp add: Let_def)

lemma run_phases_go:
  assumes "dispatch runner hook c changed p w = (res, w1)" "\<not> stops p res"
    "run_phases runner hook c changed plan (settle settled res)
       (if p = Persist \<and> res = OConfirmed then changed else persisted) w1 = (out, w2)"
  shows "run_phases runner hook c changed (p # plan) settled persisted w =
    (out\<lparr>po_phases := \<lparr>phr_phase = p, phr_outcome = res\<rparr> # po_phases out\<rparr>, w2)"
  using assms by (simp add: Let_def)

text \<open>One step of the loop, as a case rule: it stopped at the head or went on to the rest.\<close>

lemma run_phases_ConsE:
  assumes "run_phases runner hook c changed (p # plan) settled persisted w = (out, w2)"
  obtains (stop) res where "dispatch runner hook c changed p w = (res, w2)" "stops p res"
      "po_phases out = \<lparr>phr_phase = p, phr_outcome = res\<rparr> # map (\<lambda>q. \<lparr>phr_phase = q, phr_outcome = NotAttempted\<rparr>) plan"
      "po_settled out = settle settled res"
      "po_persisted out = (if p = Persist \<and> res = OConfirmed then changed else persisted)"
    | (go) res w1 out1 where "dispatch runner hook c changed p w = (res, w1)" "\<not> stops p res"
      "run_phases runner hook c changed plan (settle settled res)
         (if p = Persist \<and> res = OConfirmed then changed else persisted) w1 = (out1, w2)"
      "po_phases out = \<lparr>phr_phase = p, phr_outcome = res\<rparr> # po_phases out1"
      "po_settled out = po_settled out1" "po_persisted out = po_persisted out1"
proof -
  obtain res w1 where d: "dispatch runner hook c changed p w = (res, w1)" by force
  show thesis
  proof (cases "stops p res")
    case True
    with assms run_phases_stop [OF d True] show thesis by (intro stop) (auto simp: d)
  next
    case False
    obtain out1 w3 where r: "run_phases runner hook c changed plan (settle settled res)
        (if p = Persist \<and> res = OConfirmed then changed else persisted) w1 = (out1, w3)" by force
    with assms run_phases_go [OF d False r] show thesis by (intro go [OF d False]) auto
  qed
qed

text \<open>How far a plan got, read off its outcomes.\<close>

fun orderly :: "phase_record list \<Rightarrow> bool" where
  "orderly [] = True"
| "orderly (r # rs) =
     (if phr_outcome r = OConfirmed
         \<or> (phr_outcome r = OFailedKnown \<and> (phr_phase r = PNative \<or> phr_phase r = PPorts))
      then orderly rs else list_all (\<lambda>q. phr_outcome q = NotAttempted) rs)"

declare orderly.simps(2) [simp del]

lemma orderly_Cons [simp]:
  "orderly (r # rs) =
     (if stops (phr_phase r) (phr_outcome r) then list_all (\<lambda>q. phr_outcome q = NotAttempted) rs else orderly rs)"
  by (auto simp: orderly.simps(2) stops_def)


lemma settle_simps [simp]:
  "settle s OConfirmed = s" "settle s OUnknown = OUnknown" "settle OConfirmed r = r"
  "settle OFailedKnown OFailedKnown = OFailedKnown"
  by (auto simp: settle_def)













text \<open>
   Native and Ports are independent and a no-op edit writes nothing: running the full plan
  without a change never calls the runner for Persist, and after a confirmed Persist a known
  failure of Native still runs Ports, in the world Native left.
\<close>

theorem native_failure_still_runs_ports:
  assumes "changed \<Longrightarrow> runner Persist candidate w = (OConfirmed, w1)" "\<not> changed \<Longrightarrow> w1 = w"
    and "runner PNative candidate w1 = (OFailedKnown, w2)" "runner PPorts candidate w2 = (res, w3)"
  shows "run_plan (plan_of_kind PersistThenNativeThenPorts) candidate changed runner w =
    (\<lparr>po_phases = [\<lparr>phr_phase = Persist, phr_outcome = OConfirmed\<rparr>,
                    \<lparr>phr_phase = PNative, phr_outcome = OFailedKnown\<rparr>,
                    \<lparr>phr_phase = PPorts, phr_outcome = res\<rparr>],
      po_settled = settle OFailedKnown res, po_persisted = changed\<rparr>, w3)"
proof -
  have "dispatch runner None candidate changed Persist w = (OConfirmed, w1)"
    using assms(1,2) by (cases changed) (simp_all add: dispatch_def)
  with assms(3,4) show ?thesis
    by (cases "stops PPorts res")
       (auto simp: run_plan_def run_plan_hooked_def stops_def Let_def dispatch_def [of _ _ _ _ PNative]
         dispatch_def [of _ _ _ _ PPorts])
qed

theorem native_failure_still_runs_ports_witness:
  "run_plan (plan_of_kind PersistThenNativeThenPorts) default_canonical False
     (\<lambda>p c n. if p = PNative then (OFailedKnown, n + 1) else (OConfirmed, n + 10)) (0 :: nat) =
   (\<lparr>po_phases = [\<lparr>phr_phase = Persist, phr_outcome = OConfirmed\<rparr>,
                   \<lparr>phr_phase = PNative, phr_outcome = OFailedKnown\<rparr>,
                   \<lparr>phr_phase = PPorts, phr_outcome = OConfirmed\<rparr>],
     po_settled = OFailedKnown, po_persisted = False\<rparr>, 11)"
  using native_failure_still_runs_ports
    [of False "\<lambda>p c n. if p = PNative then (OFailedKnown, n + 1) else (OConfirmed, n + 10)"
      default_canonical "0 :: nat" 0 1 OConfirmed 11] by simp


section \<open>The dispatch fence\<close>

text \<open>
  A hook that only observes the world and lets a phase through in allowed worlds.  Its clients: the
  runner is only ever called in an allowed world, so a property the runner keeps there survives the
  plan.
\<close>

locale phase_guard =
  fixes hook :: "'w phase_hook" and allowed :: "'w \<Rightarrow> bool"
  assumes before_keeps: "snd (hook_before hook p w) = w"
    and after_keeps: "snd (hook_after hook p r w) = w"
    and before_allowed: "fst (hook_before hook p w) = None \<Longrightarrow> allowed w"
begin

lemma dispatch_keeps:
  assumes keep: "\<And>p v. P v \<Longrightarrow> allowed v \<Longrightarrow> P (snd (runner p c v))" and "P w"
    and d: "dispatch runner (Some hook) c changed p w = (res, w1)"
  shows "P w1"
proof (cases "p = Persist \<and> \<not> changed")
  case True
  with d \<open>P w\<close> show ?thesis by (auto simp: dispatch_def)
next
  case False
  obtain b where b: "hook_before hook p w = (b, w)" using before_keeps [of p w] by (metis prod.collapse)
  show ?thesis
  proof (cases b)
    case None
    obtain r v where r: "runner p c w = (r, v)" by force
    obtain a where a: "hook_after hook p r v = (a, v)" using after_keeps [of p r v] by (metis prod.collapse)
    have "w1 = v" using d False b None r a by (auto simp: dispatch_def split: option.splits)
    moreover have "P v" using keep [OF \<open>P w\<close> before_allowed [of p w], of p] b None r by simp
    ultimately show ?thesis by simp
  next
    case (Some f)
    with d False b \<open>P w\<close> show ?thesis by (auto simp: dispatch_def)
  qed
qed

lemma run_phases_keeps:
  assumes keep: "\<And>p v. P v \<Longrightarrow> allowed v \<Longrightarrow> P (snd (runner p c v))"
  shows "run_phases runner (Some hook) c changed plan settled persisted w = (out, w2) \<Longrightarrow> P w \<Longrightarrow> P w2"
proof (induction plan arbitrary: settled persisted w out)
  case (Cons p plan)
  from Cons.prems(1) show ?case
  proof (cases rule: run_phases_ConsE)
    case (stop res)
    show ?thesis by (rule dispatch_keeps [of P runner, OF keep Cons.prems(2) stop(1)])
  next
    case (go res w1 out1)
    show ?thesis
      by (rule Cons.IH [OF go(3) dispatch_keeps [of P runner, OF keep Cons.prems(2) go(1)]])
  qed
qed simp

end

text \<open>
  \<^verbatim>\<open>FenceOnlyHook\<close>: \<open>load\<close> reads the shared dispatch fence.  The test-only delay and crash points of
  the source have no effect in production builds.
\<close>

definition fence_only_hook :: "('w \<Rightarrow> u64) \<Rightarrow> u64 \<Rightarrow> 'w phase_hook" where
  "fence_only_hook load ticket =
     \<lparr>hook_before = (\<lambda>p w. (if load w \<noteq> ticket then Some OFailedKnown else None, w)),
      hook_after = (\<lambda>p r w. (None, w))\<rparr>"

interpretation fence: phase_guard "fence_only_hook load ticket" "\<lambda>w. load w = ticket" for load ticket
  by unfold_locales (auto simp: fence_only_hook_def split: if_splits)

text \<open>
   A superseded operation has no effect: when the dispatch fence has moved past an operation's
  ticket, running its plan leaves the world exactly as it was, whatever the runner would do; and
  any property the runner keeps while the fence is held survives a plan that loses the fence midway.
\<close>

theorem fenced_plan_inert:
  assumes "run_plan_hooked plan candidate changed runner (Some (fence_only_hook load ticket)) w = (out, w2)"
  shows "(load w \<noteq> ticket \<longrightarrow> w2 = w)
    \<and> (\<forall>P. P w \<and> (\<forall>p v. P v \<and> load v = ticket \<longrightarrow> P (snd (runner p candidate v))) \<longrightarrow> P w2)"
proof -
  have keeps: "P w2" if "P w" "\<And>p v. P v \<Longrightarrow> load v = ticket \<Longrightarrow> P (snd (runner p candidate v))" for P
    by (rule fence.run_phases_keeps [of P load ticket runner candidate, OF that(2) assms [unfolded run_plan_hooked_def] that(1)])
  have "w2 = w" if "load w \<noteq> ticket" using keeps [of "\<lambda>v. v = w"] that by blast
  with keeps show ?thesis by blast
qed

theorem fenced_plan_inert_witness:
  "snd (run_plan_hooked (plan_of_kind PersistThenNative) default_canonical True
     (\<lambda>p c (f, n). (OConfirmed, (f, n + 1))) (Some (fence_only_hook fst 7)) (8 :: u64, 0 :: nat)) = (8, 0)"
  using fenced_plan_inert [of "plan_of_kind PersistThenNative" default_canonical True
      "\<lambda>p c (f, n). (OConfirmed, (f, n + 1))" fst 7 "(8 :: u64, 0 :: nat)", OF prod.collapse [symmetric]]
  by simp

end
