(* ===== verification/Admission.thy ===== *)
theory Admission
  imports Machines
begin

text \<open>
  Queue admission (\<^verbatim>\<open>crates/core-daemon/src/command_engine.rs\<close>): the ticket a caller shares with the
  command writer, and what a caller reports when its wait ends.  Its operations are atomic
  compare-exchanges on one cell, so a concurrent execution is a sequence of them.
\<close>

section \<open>Definitions\<close>

text \<open>Instants are nanoseconds of the monotonic clock; 0, 1 and 2 are queued, started and cancelled.\<close>

definition QUEUE_WAIT :: nat where
  "QUEUE_WAIT = 2000000000"

record admission_ticket =
  at_state :: u8
  at_deadline :: nat
  at_preparation :: bool

definition ticket_new :: "nat \<Rightarrow> nat \<Rightarrow> admission_ticket" where
  "ticket_new now deadline = \<lparr>at_state = 0, at_deadline = min deadline (now + QUEUE_WAIT), at_preparation = False\<rparr>"

definition after_preparation :: "nat \<Rightarrow> nat \<Rightarrow> admission_ticket" where
  "after_preparation now deadline = (ticket_new now deadline)\<lparr>at_preparation := True\<rparr>"

definition compare_exchange :: "u8 \<Rightarrow> u8 \<Rightarrow> admission_ticket \<Rightarrow> bool \<times> admission_ticket" where
  "compare_exchange old new t = (if at_state t = old then (True, t\<lparr>at_state := new\<rparr>) else (False, t))"

definition ticket_cancel :: "admission_ticket \<Rightarrow> admission_ticket" where
  "ticket_cancel t = snd (compare_exchange 0 2 t)"

text \<open>\<open>token\<close>: the shared preparation token is cancelled at this moment.\<close>

definition ticket_start :: "nat \<Rightarrow> bool \<Rightarrow> admission_ticket \<Rightarrow> bool \<times> admission_ticket" where
  "ticket_start now token t =
     compare_exchange 0 1 (if at_deadline t \<le> now \<or> (at_preparation t \<and> token) then ticket_cancel t else t)"

record native_capacity_package =
  ncp_package :: string
  ncp_uids :: "u32 list"

record native_capacity_report =
  ncr_total :: u32
  ncr_capacity :: u32
  ncr_packages :: "native_capacity_package list"

datatype submit_error =
    Conflict string | IdReused | Expired | Busy | Unavailable | Rejected string
  | NativeCapacityExceeded native_capacity_report




section \<open>Executions\<close>

datatype ticket_event = TStart nat bool | TCancel

fun ticket_step :: "admission_ticket \<Rightarrow> ticket_event \<Rightarrow> admission_ticket" where
  "ticket_step t (TStart now token) = snd (ticket_start now token t)"
| "ticket_step t TCancel = ticket_cancel t"

fun grants :: "admission_ticket \<Rightarrow> ticket_event list \<Rightarrow> nat" where
  "grants t [] = 0"
| "grants t (e # es) =
     (case e of TStart now token \<Rightarrow> if fst (ticket_start now token t) then 1 else 0 | TCancel \<Rightarrow> 0)
     + grants (ticket_step t e) es"



lemmas ticket_ops = ticket_cancel_def ticket_start_def compare_exchange_def






lemma grants_append: "grants t (es @ fs) = grants t es + grants (foldl ticket_step t es) fs"
  by (induction es arbitrary: t) simp_all

lemma ticket_new_queued [simp]: "at_state (ticket_new now d) = 0" "at_state (after_preparation now d) = 0"
  by (simp_all add: ticket_new_def after_preparation_def)




lemma ticket_step_const [simp]:
  "at_deadline (ticket_step t e) = at_deadline t" "at_preparation (ticket_step t e) = at_preparation t"
  by (cases e; simp add: ticket_ops)+

lemma ticket_run_const:
  "at_deadline (foldl ticket_step t es) = at_deadline t" "at_preparation (foldl ticket_step t es) = at_preparation t"
  by (induction es arbitrary: t) simp_all

lemma start_granted:
  "fst (ticket_start now token t) \<Longrightarrow> now < at_deadline t \<and> \<not> (at_preparation t \<and> token)"
  by (rule ccontr) (auto simp: ticket_ops not_less split: if_splits)

text \<open>
   The budget is real: no execution is granted at or after the deadline, which is at most two
  seconds after the ticket was made, nor once the preparation it belongs to has been cancelled.
\<close>

theorem grant_within_budget:
  assumes "t = ticket_new made d \<or> t = after_preparation made d"
    and "fst (ticket_start now token (foldl ticket_step t es))"
  shows "now < d \<and> now < made + QUEUE_WAIT \<and> \<not> (at_preparation t \<and> token)"
proof -
  let ?u = "foldl ticket_step t es"
  have "at_deadline ?u = min d (made + QUEUE_WAIT)" "at_preparation ?u = at_preparation t"
    using assms(1) by (auto simp: ticket_run_const ticket_new_def after_preparation_def)
  with start_granted [OF assms(2)] show ?thesis by simp
qed

theorem grant_within_budget_witness:
  "(3 :: nat) < 5 \<and> 3 < 0 + QUEUE_WAIT \<and> \<not> (at_preparation (after_preparation 0 5) \<and> False)"
proof -
  have "fst (ticket_start 3 False (foldl ticket_step (after_preparation 0 5) []))" by code_simp
  with grant_within_budget [of "after_preparation 0 5" 0 5 3 False "[]"] show ?thesis by blast
qed

end
