(* ===== verification/Compaction.thy ===== *)
theory Compaction
  imports Prelude
begin

text \<open>
  In-place compaction of a buffer of records.  A loop walks the buffer with a read and a write
  position, copies kept records towards the front and never looks back.  The interface states one
  turn of such a loop and how the buffer divides into records; its clients get the effect of the
  whole run.
\<close>

section \<open>Slices\<close>

text \<open>\<^verbatim>\<open>slice::copy_within(a..b, dst)\<close>, in range.\<close>

definition copy_within :: "'a list \<Rightarrow> nat \<Rightarrow> nat \<Rightarrow> nat \<Rightarrow> 'a list" where
  "copy_within data a b dst = take dst data @ take (b - a) (drop a data) @ drop (dst + (b - a)) data"

text \<open>\<^verbatim>\<open>Iterator::position\<close>.\<close>

fun position :: "('a \<Rightarrow> bool) \<Rightarrow> 'a list \<Rightarrow> nat option" where
  "position p [] = None"
| "position p (x # xs) = (if p x then Some 0 else map_option Suc (position p xs))"

lemma position_Some: "position p xs = Some n \<Longrightarrow> n < length xs \<and> p (xs ! n) \<and> (\<forall>i < n. \<not> p (xs ! i))"
  by (induction xs arbitrary: n) (auto simp: nth_Cons split: if_splits nat.splits)

lemma position_None: "position p xs = None \<longleftrightarrow> (\<forall>x \<in> set xs. \<not> p x)"
  by (induction xs) auto

lemma position_append: "\<forall>x \<in> set xs. \<not> p x \<Longrightarrow> position p (xs @ ys) = map_option ((+) (length xs)) (position p ys)"
proof (induction xs)
  case (Cons x xs)
  then show ?case by (cases "position p ys") auto
qed (cases "position p ys"; simp)

lemma position_takeWhile: "take (case position p xs of Some n \<Rightarrow> n | None \<Rightarrow> length xs) xs = takeWhile (\<lambda>x. \<not> p x) xs"
  by (induction xs) (auto split: option.splits)

lemma copy_within_same: "r + n \<le> length data \<Longrightarrow> copy_within data r (r + n) r = data"
  by (simp add: copy_within_def) (metis append_take_drop_id drop_drop add.commute)

lemma length_copy_within: "w \<le> r \<Longrightarrow> r + n \<le> length data \<Longrightarrow> length (copy_within data r (r + n) w) = length data"
  by (simp add: copy_within_def)

lemma take_copy_within:
  "w \<le> r \<Longrightarrow> r + n \<le> length data \<Longrightarrow> take (w + n) (copy_within data r (r + n) w) = take w data @ take n (drop r data)"
  by (simp add: copy_within_def)

lemma drop_copy_within:
  assumes "w \<le> r" "r + n \<le> length data"
  shows "drop (r + n) (copy_within data r (r + n) w) = drop (r + n) data"
proof -
  have "drop (r + n) (copy_within data r (r + n) w) = drop (r + n - (w + n)) (drop (w + n) data)"
    using assms by (simp add: copy_within_def)
  also have "\<dots> = drop (r + n) data" using assms by (simp add: add.commute)
  finally show ?thesis .
qed


section \<open>The loop\<close>

text \<open>
  \<open>frame\<close> is the length of the first record of what is left, \<open>None\<close> at the end; \<open>loop\<close> returns the
  buffer, the position it stopped reading at and the write position; \<open>records\<close> is the reference
  division of a buffer into records and a rest that is none.
\<close>

locale compactor =
  fixes frame :: "bytes \<Rightarrow> nat option"
    and hide :: "bytes \<Rightarrow> bool"
    and loop :: "bytes \<Rightarrow> nat \<Rightarrow> nat \<Rightarrow> bytes \<times> nat \<times> nat"
    and records :: "bytes \<Rightarrow> bytes list \<times> bytes"
  assumes frame_bounds: "frame xs = Some n \<Longrightarrow> 0 < n \<and> n \<le> length xs"
    and loop_stop: "frame (drop r data) = None \<Longrightarrow> loop data r w = (data, r, w)"
    and loop_step: "w \<le> r \<Longrightarrow> frame (drop r data) = Some n \<Longrightarrow> loop data r w =
      (if hide (take n (drop r data)) then loop data (r + n) w
       else loop (if w \<noteq> r then copy_within data r (r + n) w else data) (r + n) (w + n))"
    and records_stop: "frame xs = None \<Longrightarrow> records xs = ([], xs)"
    and records_step: "frame xs = Some n \<Longrightarrow>
      records xs = (take n xs # fst (records (drop n xs)), snd (records (drop n xs)))"
begin

definition kept :: "bytes \<Rightarrow> bytes" where
  "kept xs = concat (filter (\<lambda>f. \<not> hide f) (fst (records xs)))"

lemma kept_step: "frame xs = Some n \<Longrightarrow> kept xs = (if hide (take n xs) then [] else take n xs) @ kept (drop n xs)"
  by (simp add: kept_def records_step)

text \<open>The write position stays behind the read position, and everything ahead is still the input.\<close>

lemma loop_compacts:
  assumes "w \<le> r" "r \<le> length data" "loop data r w = (data', r', w')"
  shows "length data' = length data \<and> w' \<le> r' \<and> r' \<le> length data
    \<and> take w' data' = take w data @ kept (drop r data) \<and> drop r' data' = snd (records (drop r data))"
  using assms
proof (induction "length data - r" arbitrary: data r w rule: less_induct)
  case less
  show ?case
  proof (cases "frame (drop r data)")
    case None
    with less.prems loop_stop [OF None, of w] records_stop [OF None] show ?thesis by (auto simp: kept_def)
  next
    case (Some n)
    then have n: "0 < n" "r + n \<le> length data" using frame_bounds [OF Some] less.prems(2) by auto
    define data1 where "data1 = (if w \<noteq> r then copy_within data r (r + n) w else data)"
    have c: "data1 = copy_within data r (r + n) w" using copy_within_same [OF n(2)] by (simp add: data1_def)
    have l1: "length data1 = length data" and t1: "take (w + n) data1 = take w data @ take n (drop r data)"
      and d1: "drop (r + n) data1 = drop (r + n) data"
      unfolding c using less.prems(1) n(2)
      by (simp_all add: length_copy_within take_copy_within drop_copy_within)
    note k = kept_step [OF Some] and rs = records_step [OF Some]
    show ?thesis
    proof (cases "hide (take n (drop r data))")
      case True
      then have "loop data (r + n) w = (data', r', w')"
        using loop_step [OF less.prems(1) Some] less.prems(3) by simp
      with less.hyps [of data "r + n" w] less.prems(1) n True show ?thesis
        by (simp add: k rs add.commute)
    next
      case False
      then have "loop data1 (r + n) (w + n) = (data', r', w')"
        using loop_step [OF less.prems(1) Some] less.prems(3) by (simp add: data1_def)
      with less.hyps [of data1 "r + n" "w + n"] less.prems(1) n False l1 t1 d1 show ?thesis
        by (simp add: k rs add.commute)
    qed
  qed
qed

lemma records_concat: "concat (fst (records xs)) @ snd (records xs) = xs"
proof (induction "length xs" arbitrary: xs rule: less_induct)
  case less
  show ?case
  proof (cases "frame xs")
    case None
    then show ?thesis by (simp add: records_stop)
  next
    case (Some n)
    then have "length (drop n xs) < length xs" using frame_bounds [OF Some] by auto
    from less.hyps [OF this] Some show ?thesis by (simp add: records_step)
  qed
qed

lemma records_frames: "f \<in> set (fst (records xs)) \<Longrightarrow> \<exists>ys. frame ys = Some (length f) \<and> take (length f) ys = f"
proof (induction "length xs" arbitrary: xs rule: less_induct)
  case less
  then obtain n where n: "frame xs = Some n" by (cases "frame xs") (auto simp: records_stop)
  show ?case
  proof (cases "f = take n xs")
    case True
    with n frame_bounds [OF n] show ?thesis by (intro exI [of _ xs]) simp
  next
    case False
    with less.prems n have f: "f \<in> set (fst (records (drop n xs)))" by (simp add: records_step)
    have "length (drop n xs) < length xs" using frame_bounds [OF n] by auto
    from less.hyps [OF this f] show ?thesis .
  qed
qed

end

text \<open>
  Records that stay records: one that is followed by something is recognised whatever follows.
  Then a compacted buffer divides into exactly the kept records, and compacting it again changes
  nothing.
\<close>

locale stable_compactor = compactor +
  assumes frame_stable: "frame (f @ xs) = Some (length f) \<Longrightarrow> xs \<noteq> [] \<Longrightarrow> frame (f @ ys) = Some (length f)"
begin

lemma records_kept:
  "records (kept xs @ snd (records xs)) = (filter (\<lambda>f. \<not> hide f) (fst (records xs)), snd (records xs))"
proof (induction "length xs" arbitrary: xs rule: less_induct)
  case less
  show ?case
  proof (cases "frame xs")
    case None
    then show ?thesis by (simp add: records_stop kept_def)
  next
    case (Some n)
    let ?f = "take n xs" and ?rest = "drop n xs"
    have n: "0 < n" "n \<le> length xs" using frame_bounds [OF Some] by auto
    have IH: "records (kept ?rest @ snd (records ?rest)) = (filter (\<lambda>f. \<not> hide f) (fst (records ?rest)), snd (records ?rest))"
      using less.hyps [of ?rest] n by simp
    show ?thesis
    proof (cases "hide ?f")
      case True
      with IH show ?thesis by (simp add: kept_step [OF Some] records_step [OF Some])
    next
      case False
      have "frame (?f @ (kept ?rest @ snd (records ?rest))) = Some n"
      proof (cases "?rest = []")
        case True
        have "frame [] = None" using frame_bounds [of "[]"] by (cases "frame []") auto
        then have "kept ?rest @ snd (records ?rest) = []" unfolding True by (simp add: kept_def records_stop)
        with True Some show ?thesis by simp
      next
        case False
        with frame_stable [of ?f ?rest] Some n show ?thesis by simp
      qed
      from records_step [OF this] IH n False show ?thesis
        by (simp add: kept_step [OF Some] records_step [OF Some])
    qed
  qed
qed

lemma kept_idem: "kept (kept xs @ snd (records xs)) = kept xs"
  by (simp add: kept_def [of "kept xs @ snd (records xs)"] records_kept) (simp add: kept_def)

end

end
