(* ===== verification/Iface_Names.thy ===== *)
theory Iface_Names
  imports Prelude "HOL-Library.Sublist"
begin

text \<open>
  VPN interface names: the generated rules (\<^verbatim>\<open>zygisk/src/generated/iface_lists.rs\<close>, the same text as
  \<^verbatim>\<open>crates/checks/src/generated/iface_lists.rs\<close>) and the entry point for fixed-size kernel name
  buffers (\<^verbatim>\<open>zygisk/src/filter.rs\<close>).
\<close>

section \<open>Definitions\<close>

text \<open>\<^verbatim>\<open>u8::to_ascii_lowercase\<close>.\<close>

definition ascii_lower :: "char \<Rightarrow> char" where
  "ascii_lower c = (if byte_in c 65 90 then char_of ((of_char c :: nat) + 32) else c)"

definition starts_with_ci :: "bytes \<Rightarrow> bytes \<Rightarrow> bool" where
  "starts_with_ci name prfx =
     (if length name < length prfx then False
      else list_all (\<lambda>(i, p). ascii_lower (name ! i) = p) (List.enumerate 0 prfx))"

definition starts_with_then_digits_ci :: "bytes \<Rightarrow> bytes \<Rightarrow> bool" where
  "starts_with_then_digits_ci name prfx =
     (if \<not> starts_with_ci name prfx then False
      else (let rest = drop (length prfx) name in rest \<noteq> [] \<and> list_all is_ascii_digit rest))"

definition equals_ci :: "bytes \<Rightarrow> bytes \<Rightarrow> bool" where
  "equals_ci name other =
     (if length name \<noteq> length other then False
      else list_all (\<lambda>(a, b). ascii_lower a = b) (zip name other))"

definition contains_ci :: "bytes \<Rightarrow> bytes \<Rightarrow> bool" where
  "contains_ci haystack needle =
     (if needle = [] then True
      else if length haystack < length needle then False
      else list_ex (\<lambda>start. list_all (\<lambda>(a, b). ascii_lower a = ascii_lower b)
                              (zip (take (length needle) (drop start haystack)) needle))
             [0..<length haystack - length needle + 1])"

definition matches_vpn :: "bytes \<Rightarrow> bool" where
  "matches_vpn name =
     (if name = [] then False
      else if equals_ci name ''tunl0'' then False
      else if equals_ci name ''gre0'' then False
      else if equals_ci name ''gretap0'' then False
      else if starts_with_ci name ''tun'' then True
      else if starts_with_ci name ''tap'' then True
      else if starts_with_ci name ''wg'' then True
      else if starts_with_ci name ''ppp'' then True
      else if starts_with_ci name ''ipsec'' then True
      else if starts_with_ci name ''xfrm'' then True
      else if starts_with_ci name ''utun'' then True
      else if starts_with_ci name ''l2tp'' then True
      else if starts_with_ci name ''gre'' then True
      else if starts_with_ci name ''tailscale'' then True
      else if starts_with_ci name ''zt'' then True
      else if starts_with_ci name ''he-ipv6'' then True
      else if contains_ci name ''vpn'' then True
      else if starts_with_then_digits_ci name ''if'' then True
      else False)"

text \<open>The name in a fixed-size buffer ends at the first NUL.\<close>

definition is_vpn_iface_bytes :: "bytes \<Rightarrow> bool" where
  "is_vpn_iface_bytes name = matches_vpn (takeWhile (\<lambda>b. b \<noteq> CHR 0x00) name)"


section \<open>What the rules say\<close>

abbreviation lower :: "bytes \<Rightarrow> bytes" where
  "lower \<equiv> map ascii_lower"

lemma lower_of_upper: "byte_in c 65 90 \<Longrightarrow> of_char (ascii_lower c) = (of_char c + 32 :: nat)"
  by (simp add: ascii_lower_def of_char_of take_bit_eq_mod)

lemma ascii_lower_idem [simp]: "ascii_lower (ascii_lower c) = ascii_lower c"
proof (cases "byte_in c 65 90")
  case True
  with lower_of_upper [OF True] have "\<not> byte_in (ascii_lower c) 65 90" by simp
  then show ?thesis unfolding ascii_lower_def [of "ascii_lower c"] by (simp only: if_False)
qed (auto simp: ascii_lower_def)

lemma ascii_lower_digit [simp]: "is_ascii_digit (ascii_lower c) = is_ascii_digit c"
proof (cases "byte_in c 65 90")
  case True
  with lower_of_upper [OF True] show ?thesis by (simp add: is_ascii_digit_def)
qed (auto simp: ascii_lower_def)

lemma prefix_take_iff: "prefix p xs \<longleftrightarrow> length p \<le> length xs \<and> take (length p) xs = p"
  by (metis append_eq_conv_conj append_take_drop_id prefix_def prefix_length_le)

lemma starts_with_ci_iff: "starts_with_ci name p \<longleftrightarrow> prefix p (lower name)"
proof (cases "length name < length p")
  case False
  then have "take (length p) (lower name) = p \<longleftrightarrow> (\<forall>i < length p. ascii_lower (name ! i) = p ! i)"
    by (simp add: list_eq_iff_nth_eq)
  with False show ?thesis
    by (simp add: starts_with_ci_def list_all_length nth_enumerate_eq prefix_take_iff not_less)
qed (simp add: starts_with_ci_def prefix_take_iff)

lemma equals_ci_iff: "equals_ci name p \<longleftrightarrow> lower name = p"
  by (auto simp: equals_ci_def list_all_length list_eq_iff_nth_eq)

lemma starts_with_then_digits_ci_iff:
  "starts_with_then_digits_ci name p \<longleftrightarrow> (\<exists>ds. lower name = p @ ds \<and> ds \<noteq> [] \<and> list_all is_ascii_digit ds)"
proof -
  have d: "list_all is_ascii_digit (map ascii_lower xs) = list_all is_ascii_digit xs" for xs
    by (simp add: list.pred_map comp_def)
  have "starts_with_then_digits_ci name p \<longleftrightarrow> prefix p (lower name)
      \<and> drop (length p) (lower name) \<noteq> [] \<and> list_all is_ascii_digit (drop (length p) (lower name))"
    unfolding drop_map d by (simp add: starts_with_then_digits_ci_def starts_with_ci_iff Let_def)
  then show ?thesis by (metis append_eq_conv_conj prefix_def)
qed

lemma contains_ci_iff:
  assumes "lower needle = needle"
  shows "contains_ci h needle \<longleftrightarrow> sublist needle (lower h)"
proof -
  have win: "list_all (\<lambda>(a, b). ascii_lower a = ascii_lower b) (zip (take (length needle) (drop s h)) needle)
      \<longleftrightarrow> lower (take (length needle) (drop s h)) = needle"
    if "s + length needle \<le> length h" for s
  proof -
    have n: "ascii_lower (needle ! i) = needle ! i" if "i < length needle" for i
      using assms that by (metis nth_map)
    then show ?thesis using that by (auto simp: list_all_length list_eq_iff_nth_eq)
  qed
  have starts: "s \<in> set [0..<length h - length needle + 1] \<longleftrightarrow> s + length needle \<le> length h"
    if "\<not> length h < length needle" for s
    using that by auto
  have "sublist needle (lower h) \<longleftrightarrow>
      (\<exists>s. s + length needle \<le> length h \<and> lower (take (length needle) (drop s h)) = needle)"
  proof
    assume "sublist needle (lower h)"
    then obtain ps ss where e: "lower h = ps @ needle @ ss" by (auto simp: sublist_def)
    then have "length ps + length needle \<le> length h"
      by (metis (no_types, lifting) append_assoc length_append length_map le_add1)
    moreover have "lower (take (length needle) (drop (length ps) h)) = needle"
      by (simp add: take_map [symmetric] drop_map [symmetric] e)
    ultimately show "\<exists>s. s + length needle \<le> length h \<and> lower (take (length needle) (drop s h)) = needle" by blast
  next
    assume "\<exists>s. s + length needle \<le> length h \<and> lower (take (length needle) (drop s h)) = needle"
    then obtain s where "lower (take (length needle) (drop s h)) = needle" by blast
    then have "lower h = lower (take s h) @ needle @ lower (drop (length needle) (drop s h))"
      by (metis append_take_drop_id map_append)
    then show "sublist needle (lower h)" by (auto simp: sublist_def)
  qed
  then show ?thesis
    using win starts by (cases "needle = []") (auto simp: contains_ci_def list_ex_iff simp del: upt_Suc set_upt)
qed

definition vpn_prefixes :: "bytes list" where
  "vpn_prefixes = [''tun'', ''tap'', ''wg'', ''ppp'', ''ipsec'', ''xfrm'', ''utun'', ''l2tp'', ''gre'', ''tailscale'',
     ''zt'', ''he-ipv6'']"

text \<open>
   The decision list computes the intended rule set: ignoring ASCII case, a name is a VPN
  interface when it starts with one of the tunnel prefixes, contains ``vpn'' or is ``if'' followed
  by digits only, except for the three kernel fallback devices; so the answer never depends on
  letter case.
\<close>

theorem matches_vpn_iff:
  "matches_vpn name = (lower name \<notin> {''tunl0'', ''gre0'', ''gretap0''}
     \<and> ((\<exists>p \<in> set vpn_prefixes. prefix p (lower name)) \<or> sublist ''vpn'' (lower name)
        \<or> (\<exists>ds. lower name = ''if'' @ ds \<and> ds \<noteq> [] \<and> list_all is_ascii_digit ds)))"
proof (cases "name = []")
  case True
  then show ?thesis by (simp add: matches_vpn_def vpn_prefixes_def)
next
  case False
  have v: "contains_ci name ''vpn'' \<longleftrightarrow> sublist ''vpn'' (lower name)"
    by (rule contains_ci_iff) code_simp
  from False show ?thesis
    unfolding matches_vpn_def v starts_with_ci_iff equals_ci_iff starts_with_then_digits_ci_iff
    by (simp add: vpn_prefixes_def)
qed

end
