(* ===== verification/Netlink_Wire.thy ===== *)
theory Netlink_Wire
  imports Prelude
begin

text \<open>
  Bounded native-endian netlink framing of the read-only probes (\<^verbatim>\<open>crates/checks/src/netlink_wire.rs\<close>).
  Every supported Android target is little-endian.  Offsets are \<^typ>\<open>nat\<close>: they never exceed the
  buffer's length plus a 32-bit field, which a 64-bit \<^verbatim>\<open>usize\<close> holds.
\<close>

section \<open>Definitions\<close>

datatype probe_error = Errno int | Timeout | Malformed | TooLarge | Unsupported

text \<open>\<^verbatim>\<open>from_ne_bytes\<close>.\<close>

definition ne_word :: "bytes \<Rightarrow> 'a::len word" where
  "ne_word bs = horner_sum of_char 256 bs"

text \<open>\<^verbatim>\<open>bytes.get(at..at + n)\<close>.\<close>

definition slice_at :: "bytes \<Rightarrow> nat \<Rightarrow> nat \<Rightarrow> bytes option" where
  "slice_at bs at n = (if at + n \<le> length bs then Some (take n (drop at bs)) else None)"

definition u16_at :: "bytes \<Rightarrow> nat \<Rightarrow> probe_error + u16" where
  "u16_at bs at = ok_or (map_option ne_word (slice_at bs at 2)) Malformed"

definition u32_at :: "bytes \<Rightarrow> nat \<Rightarrow> probe_error + u32" where
  "u32_at bs at = ok_or (map_option ne_word (slice_at bs at 4)) Malformed"

text \<open>\<^verbatim>\<open>(length + 3) & !3\<close>.\<close>

definition align4 :: "nat \<Rightarrow> nat" where
  "align4 n = (n + 3) div 4 * 4"

record message =
  msg_kind :: u16
  msg_flags :: u16
  msg_sequence :: u32
  msg_body :: bytes

record frames =
  fr_bytes :: bytes
  fr_at :: nat
  fr_failed :: bool

definition frames_new :: "bytes \<Rightarrow> probe_error + frames" where
  "frames_new bs =
     (if bs = [] \<or> 1024 * 1024 < length bs then Inl Malformed
      else Inr \<lparr>fr_bytes = bs, fr_at = 0, fr_failed = False\<rparr>)"

definition decode_frame :: "bytes \<Rightarrow> nat \<Rightarrow> probe_error + (message \<times> nat)" where
  "decode_frame bs at =
     and_then (u32_at bs at) (\<lambda>len.
       let n = unat len
       in if n < 16 \<or> length bs - at < n then Inl Malformed
          else if length bs - at < align4 n then Inl Malformed
          else and_then (u16_at bs (at + 4)) (\<lambda>kind.
               and_then (u16_at bs (at + 6)) (\<lambda>flags.
               and_then (u32_at bs (at + 8)) (\<lambda>sequence.
               Inr (\<lparr>msg_kind = kind, msg_flags = flags, msg_sequence = sequence,
                     msg_body = take (n - 16) (drop (at + 16) bs)\<rparr>, align4 n)))))"

definition frames_next :: "frames \<Rightarrow> (probe_error + message) option \<times> frames" where
  "frames_next f =
     (if fr_failed f \<or> fr_at f = length (fr_bytes f) then (None, f)
      else (case decode_frame (fr_bytes f) (fr_at f) of
              Inl e \<Rightarrow> (Some (Inl e), f\<lparr>fr_failed := True\<rparr>)
            | Inr (m, aligned) \<Rightarrow> (Some (Inr m), f\<lparr>fr_at := fr_at f + aligned\<rparr>)))"

lemma decode_frame_Inr:
  "decode_frame bs at = Inr (m, n) \<longleftrightarrow>
     at + 12 \<le> length bs \<and> n = align4 (unat (ne_word (take 4 (drop at bs)) :: u32))
     \<and> 16 \<le> unat (ne_word (take 4 (drop at bs)) :: u32) \<and> at + n \<le> length bs
     \<and> unat (ne_word (take 4 (drop at bs)) :: u32) \<le> length bs - at
     \<and> m = \<lparr>msg_kind = ne_word (take 2 (drop (at + 4) bs)), msg_flags = ne_word (take 2 (drop (at + 6) bs)),
            msg_sequence = ne_word (take 4 (drop (at + 8) bs)),
            msg_body = take (unat (ne_word (take 4 (drop at bs)) :: u32) - 16) (drop (at + 16) bs)\<rparr>"
  by (auto simp: decode_frame_def u32_at_def u16_at_def slice_at_def Let_def align4_def)

lemma align4_ge: "n \<le> align4 n" "16 \<le> n \<Longrightarrow> 16 \<le> align4 n"
  by (auto simp: align4_def)

lemma decode_frame_progress: "decode_frame bs at = Inr (m, n) \<Longrightarrow> 16 \<le> n \<and> at + n \<le> length bs"
  using align4_ge(2) by (auto simp: decode_frame_Inr)

lemma frames_next_Inr:
  "frames_next f = (Some (Inr m), f') \<longleftrightarrow>
     \<not> fr_failed f \<and> fr_at f \<noteq> length (fr_bytes f)
     \<and> (\<exists>n. decode_frame (fr_bytes f) (fr_at f) = Inr (m, n) \<and> f' = f\<lparr>fr_at := fr_at f + n\<rparr>)"
  by (auto simp: frames_next_def split: sum.splits)

lemma frames_next_progress:
  "frames_next f = (Some (Inr m), f') \<Longrightarrow> length (fr_bytes f') - fr_at f' < length (fr_bytes f) - fr_at f"
  by (auto simp: frames_next_Inr dest!: decode_frame_progress)

function drain_frames :: "frames \<Rightarrow> probe_error + message list" where
  "drain_frames f =
     (case frames_next f of
        (None, _) \<Rightarrow> Inr []
      | (Some (Inl e), _) \<Rightarrow> Inl e
      | (Some (Inr m), f') \<Rightarrow> and_then (drain_frames f') (\<lambda>ms. Inr (m # ms)))"
  by auto

termination
  by (relation "measure (\<lambda>f. length (fr_bytes f) - fr_at f)")
     (auto dest!: sym [of _ "frames_next _"] frames_next_progress)

definition messages :: "bytes \<Rightarrow> probe_error + message list" where
  "messages bs = and_then (frames_new bs) drain_frames"

record attribute =
  at_kind :: u16
  at_value :: bytes

function attributes_from :: "bytes \<Rightarrow> nat \<Rightarrow> probe_error + attribute list" where
  "attributes_from bs at =
     (if at < length bs then
        and_then (u16_at bs at) (\<lambda>len.
          let n = unat len
          in if n < 4 \<or> length bs - at < n then Inl Malformed
             else if length bs - at < align4 n then Inl Malformed
             else and_then (u16_at bs (at + 2)) (\<lambda>kind.
                  and_then (attributes_from bs (at + align4 n)) (\<lambda>rest.
                  Inr (\<lparr>at_kind = kind, at_value = take (n - 4) (drop (at + 4) bs)\<rparr> # rest))))
      else Inr [])"
  by auto

termination
proof (relation "measure (\<lambda>(bs, at). length bs - at)")
  fix bs :: bytes and at n and len :: u16 and kind
  assume "at < length bs" "n = unat len" "\<not> (n < 4 \<or> length bs - at < n)" "\<not> length bs - at < align4 n"
  moreover have "n \<le> align4 n" by (rule align4_ge)
  ultimately show "((bs, at + align4 n), bs, at) \<in> measure (\<lambda>(bs, at). length bs - at)" by auto
qed simp

definition attributes :: "bytes \<Rightarrow> probe_error + attribute list" where
  "attributes bs = attributes_from bs 0"

declare drain_frames.simps [simp del] attributes_from.simps [simp del]

definition interface_name :: "bytes \<Rightarrow> probe_error + string" where
  "interface_name value =
     (if value = [] \<or> last value \<noteq> CHR 0x00 then Inl Malformed
      else (let name = butlast value
            in if name = [] \<or> 15 < length name \<or> \<not> list_all (\<lambda>c. byte_in c 0 127) name
                  \<or> list_ex is_ascii_control name
               then Inl Malformed else Inr name))"


section \<open>Dumps\<close>

record dump =
  du_sequence :: u32
  du_data_kind :: u16
  du_done :: bool
  du_failed :: bool

definition dump_new :: "u32 \<Rightarrow> u16 \<Rightarrow> dump" where
  "dump_new sequence data_kind =
     \<lparr>du_sequence = sequence, du_data_kind = data_kind, du_done = False, du_failed = False\<rparr>"

text \<open>\<^verbatim>\<open>i32::checked_neg\<close> restricted to positive results: a kernel error code.\<close>

definition errno_of :: "u32 \<Rightarrow> probe_error + int" where
  "errno_of w = (let e = - sint w in if 0 < e \<and> e \<noteq> 2 ^ 31 then Inr e else Inl Malformed)"

text \<open>The data callback keeps what it has collected also when it fails.\<close>

type_synonym 's sink = "bytes \<Rightarrow> 's \<Rightarrow> (probe_error + unit) \<times> 's"

function consume_frames ::
    "'s sink \<Rightarrow> nat \<Rightarrow> frames \<Rightarrow> dump \<Rightarrow> 's \<Rightarrow> (probe_error + bool) \<times> dump \<times> 's" where
  "consume_frames data len f d s =
     (case frames_next f of
        (None, _) \<Rightarrow> (Inr (du_done d), d, s)
      | (Some (Inl e), _) \<Rightarrow> (Inl e, d, s)
      | (Some (Inr m), f') \<Rightarrow>
          if msg_sequence m \<noteq> du_sequence d \<or> and (msg_flags m) 0x10 \<noteq> 0 then (Inl Malformed, d, s)
          else if msg_kind m = 3 then
            (if fr_at f' \<noteq> len \<or> \<not> (length (msg_body m) = 0 \<or> length (msg_body m) = 4)
                \<or> (length (msg_body m) = 4 \<and> u32_at (msg_body m) 0 \<noteq> Inr 0)
             then (Inl Malformed, d, s)
             else consume_frames data len f' (d\<lparr>du_done := True\<rparr>) s)
          else if msg_kind m = 2 then
            (case and_then (u32_at (msg_body m) 0) errno_of of
               Inr e \<Rightarrow> (Inl (Errno e), d, s)
             | Inl e \<Rightarrow> (Inl e, d, s))
          else if msg_kind m = du_data_kind d then
            (case data (msg_body m) s of
               (Inl e, s') \<Rightarrow> (Inl e, d, s')
             | (Inr _, s') \<Rightarrow> consume_frames data len f' d s')
          else (Inl Malformed, d, s))"
  by (auto split: prod.splits)

termination
  by (relation "measure (\<lambda>(data, len, f, d, s). length (fr_bytes f) - fr_at f)")
     (auto dest!: sym [of _ "frames_next _"] frames_next_progress)

declare consume_frames.simps [simp del]

definition consume_inner :: "dump \<Rightarrow> bytes \<Rightarrow> 's sink \<Rightarrow> 's \<Rightarrow> (probe_error + bool) \<times> dump \<times> 's" where
  "consume_inner d bs data s =
     (case frames_new bs of
        Inl e \<Rightarrow> (Inl e, d, s)
      | Inr f \<Rightarrow> consume_frames data (length bs) f d s)"

definition consume :: "dump \<Rightarrow> bytes \<Rightarrow> 's sink \<Rightarrow> 's \<Rightarrow> (probe_error + bool) \<times> dump \<times> 's" where
  "consume d bs data s =
     (if du_done d \<or> du_failed d then (Inl Malformed, d, s)
      else (case consume_inner d bs data s of
              (Inl e, d', s') \<Rightarrow> (Inl e, d'\<lparr>du_failed := True\<rparr>, s')
            | (Inr b, d', s') \<Rightarrow> (Inr b, d', s')))"

definition acknowledgement :: "bytes \<Rightarrow> bytes \<Rightarrow> probe_error + unit" where
  "acknowledgement bs request =
     (if length request < 16 then Inl Malformed
      else and_then (u32_at request 0) (\<lambda>declared.
        if unat declared \<noteq> length request then Inl Malformed
        else and_then (messages bs) (\<lambda>fs.
          case fs of
            [m] \<Rightarrow>
              and_then (u32_at request 8) (\<lambda>sequence.
                if msg_kind m \<noteq> 2 \<or> msg_sequence m \<noteq> sequence \<or> and (msg_flags m) 0x10 \<noteq> 0
                   \<or> length (msg_body m) < 20 \<or> take 16 (drop 4 (msg_body m)) \<noteq> take 16 request
                then Inl Malformed
                else and_then (u32_at (msg_body m) 0) (\<lambda>code.
                       if code = 0 then Inr ()
                       else and_then (errno_of code) (\<lambda>e. Inl (Errno e))))
          | _ \<Rightarrow> Inl Malformed)))"

end
