(* ===== verification/Netlink_Filter.thy ===== *)
theory Netlink_Filter
  imports Compaction Iface_Names Netlink_Wire
begin

text \<open>
  The in-process filter for netlink dumps (\<^verbatim>\<open>zygisk/src/filter.rs\<close>): it walks a received buffer message
  by message and compacts away the links, addresses, routes and policy rules that reveal a VPN.
\<close>

section \<open>Definitions\<close>

definition NLMSG_HDRLEN :: nat where
  "NLMSG_HDRLEN = 16"

definition RTMSG_HDRLEN :: nat where
  "RTMSG_HDRLEN = 12"

definition RTM_NEWLINK :: u16 where
  "RTM_NEWLINK = 16"

definition RTM_NEWADDR :: u16 where
  "RTM_NEWADDR = 20"

definition RTM_NEWROUTE :: u16 where
  "RTM_NEWROUTE = 24"

definition RTM_NEWRULE :: u16 where
  "RTM_NEWRULE = 32"

definition RTA_OIF :: u16 where
  "RTA_OIF = 4"

definition FRA_IIFNAME :: u16 where
  "FRA_IIFNAME = 3"

definition FRA_TABLE :: u16 where
  "FRA_TABLE = 15"

definition FRA_OIFNAME :: u16 where
  "FRA_OIFNAME = 17"

definition FRA_UID_RANGE :: u16 where
  "FRA_UID_RANGE = 20"

definition read_u32_ne :: "bytes \<Rightarrow> nat \<Rightarrow> u32 option" where
  "read_u32_ne data off = map_option ne_word (slice_at data off 4)"

definition read_u16_ne :: "bytes \<Rightarrow> nat \<Rightarrow> u16 option" where
  "read_u16_ne data off = map_option ne_word (slice_at data off 2)"

definition nlmsg_align :: "nat \<Rightarrow> nat" where
  "nlmsg_align len = (len + 4 - 1) div 4 * 4"

definition rta_align :: "nat \<Rightarrow> nat" where
  "rta_align len = (len + 4 - 1) div 4 * 4"

lemma aligns: "nlmsg_align n = align4 n" "rta_align n = align4 n"
  by (simp_all add: nlmsg_align_def rta_align_def align4_def)

lemma attr_progress: "\<not> (n < 4 \<or> l < pos + n) \<Longrightarrow> l - (pos + rta_align n) < l - pos"
  by (auto simp: rta_align_def)

function route_oif_from :: "bytes \<Rightarrow> nat \<Rightarrow> u32 option" where
  "route_oif_from msg pos =
     (if pos + 4 \<le> length msg then
        (case read_u16_ne msg pos of
           None \<Rightarrow> None
         | Some len \<Rightarrow>
             (case read_u16_ne msg (pos + 2) of
                None \<Rightarrow> None
              | Some rta_type \<Rightarrow>
                  (let rta_len = unat len
                   in if rta_len < 4 \<or> length msg < pos + rta_len then None
                      else if rta_type = RTA_OIF \<and> 8 \<le> rta_len then read_u32_ne msg (pos + 4)
                      else route_oif_from msg (pos + rta_align rta_len))))
      else None)"
  by auto

termination
  by (relation "measure (\<lambda>(msg, pos). length msg - pos)") (auto intro!: attr_progress)

definition route_oif :: "bytes \<Rightarrow> u32 option" where
  "route_oif msg = route_oif_from msg (NLMSG_HDRLEN + RTMSG_HDRLEN)"

record rule_scan =
  rs_table :: u32
  rs_uid_lo :: u32
  rs_uid_hi :: u32
  rs_has_uidrange :: bool
  rs_names_vpn :: bool

definition rule_attribute :: "u16 \<Rightarrow> bytes \<Rightarrow> rule_scan \<Rightarrow> rule_scan" where
  "rule_attribute rta_type payload s =
     (if (rta_type = FRA_IIFNAME \<or> rta_type = FRA_OIFNAME) \<and> payload \<noteq> [] then
        (if is_vpn_iface_bytes payload then s\<lparr>rs_names_vpn := True\<rparr> else s)
      else if rta_type = FRA_TABLE \<and> 4 \<le> length payload then
        s\<lparr>rs_table := (case read_u32_ne payload 0 of Some t \<Rightarrow> t | None \<Rightarrow> rs_table s)\<rparr>
      else if rta_type = FRA_UID_RANGE \<and> 8 \<le> length payload then
        (case (read_u32_ne payload 0, read_u32_ne payload 4) of
           (Some lo, Some hi) \<Rightarrow> s\<lparr>rs_uid_lo := lo, rs_uid_hi := hi, rs_has_uidrange := True\<rparr>
         | _ \<Rightarrow> s)
      else s)"

function rule_scan_from :: "bytes \<Rightarrow> nat \<Rightarrow> rule_scan \<Rightarrow> rule_scan" where
  "rule_scan_from msg pos s =
     (if pos + 4 \<le> length msg then
        (case (read_u16_ne msg pos, read_u16_ne msg (pos + 2)) of
           (Some len, Some rta_type) \<Rightarrow>
             (let rta_len = unat len
              in if rta_len < 4 \<or> length msg < pos + rta_len then s
                 else rule_scan_from msg (pos + rta_align rta_len)
                        (rule_attribute rta_type (take (rta_len - 4) (drop (pos + 4) msg)) s))
         | _ \<Rightarrow> s)
      else s)"
  by auto

termination
  by (relation "measure (\<lambda>(msg, pos, s). length msg - pos)") (auto intro!: attr_progress)

definition rule_verdict :: "rule_scan \<Rightarrow> u32 \<Rightarrow> bool" where
  "rule_verdict s vpn_uid =
     (if rs_names_vpn s then True
      else rs_has_uidrange s \<and> rs_uid_lo s \<le> vpn_uid \<and> vpn_uid \<le> rs_uid_hi s
        \<and> \<not> (rs_uid_lo s = 0 \<and> rs_uid_hi s = - 1)
        \<and> rs_table s \<noteq> 254 \<and> rs_table s \<noteq> 255 \<and> rs_table s \<noteq> 253 \<and> 100 < rs_table s)"

definition rule_hides_vpn :: "bytes \<Rightarrow> u32 \<Rightarrow> bool" where
  "rule_hides_vpn msg vpn_uid =
     (let table = (if NLMSG_HDRLEN + 4 < length msg then of_char (msg ! (NLMSG_HDRLEN + 4)) else 0)
      in rule_verdict
           (rule_scan_from msg (NLMSG_HDRLEN + RTMSG_HDRLEN)
              \<lparr>rs_table = table, rs_uid_lo = 0, rs_uid_hi = 0, rs_has_uidrange = False, rs_names_vpn = False\<rparr>)
           vpn_uid)"

text \<open>Whether the message of \<open>nlmsg_len\<close> bytes at the start of \<open>rest\<close> is hidden.\<close>

definition nl_hide :: "u32 list \<Rightarrow> u32 \<Rightarrow> u16 \<Rightarrow> nat \<Rightarrow> bytes \<Rightarrow> bool" where
  "nl_hide vpn_indices vpn_uid nlmsg_type nlmsg_len rest =
     (if (nlmsg_type = RTM_NEWLINK \<or> nlmsg_type = RTM_NEWADDR) \<and> NLMSG_HDRLEN + 8 \<le> nlmsg_len then
        (case read_u32_ne rest (NLMSG_HDRLEN + 4) of Some i \<Rightarrow> i | None \<Rightarrow> 0) \<in> set vpn_indices
      else if nlmsg_type = RTM_NEWROUTE \<and> NLMSG_HDRLEN + RTMSG_HDRLEN \<le> nlmsg_len then
        (case route_oif (take nlmsg_len rest) of Some oif \<Rightarrow> oif \<in> set vpn_indices | None \<Rightarrow> False)
      else if nlmsg_type = RTM_NEWRULE \<and> NLMSG_HDRLEN + RTMSG_HDRLEN \<le> nlmsg_len then
        rule_hides_vpn (take nlmsg_len rest) vpn_uid
      else False)"

function netlink_loop :: "u32 list \<Rightarrow> u32 \<Rightarrow> nat \<Rightarrow> bytes \<Rightarrow> nat \<Rightarrow> nat \<Rightarrow> bytes \<times> nat \<times> nat" where
  "netlink_loop vpn_indices vpn_uid len data read_pos write_pos =
     (if read_pos + NLMSG_HDRLEN \<le> len then
        (case read_u32_ne data read_pos of
           None \<Rightarrow> (data, read_pos, write_pos)
         | Some nlmsg_len_raw \<Rightarrow>
             (let nlmsg_len = unat nlmsg_len_raw
              in if nlmsg_len < NLMSG_HDRLEN \<or> len < read_pos + nlmsg_len then (data, read_pos, write_pos)
                 else (let aligned_len = min (nlmsg_align nlmsg_len) (len - read_pos)
                       in case read_u16_ne data (read_pos + 4) of
                            None \<Rightarrow> (data, read_pos, write_pos)
                          | Some nlmsg_type \<Rightarrow>
                              if \<not> nl_hide vpn_indices vpn_uid nlmsg_type nlmsg_len (drop read_pos data) then
                                netlink_loop vpn_indices vpn_uid len
                                  (if write_pos \<noteq> read_pos
                                   then copy_within data read_pos (read_pos + aligned_len) write_pos else data)
                                  (read_pos + aligned_len) (write_pos + aligned_len)
                              else netlink_loop vpn_indices vpn_uid len data (read_pos + aligned_len) write_pos)))
      else (data, read_pos, write_pos))"
  by auto

termination
  by (relation "measure (\<lambda>(vi, uid, len, data, r, w). len - r)") (auto simp: NLMSG_HDRLEN_def nlmsg_align_def)

definition filter_netlink_dump :: "bytes \<Rightarrow> u32 list \<Rightarrow> u32 \<Rightarrow> bytes \<times> nat" where
  "filter_netlink_dump data vpn_indices vpn_uid =
     (if length data < NLMSG_HDRLEN then (data, length data)
      else (let len = length data;
                (data1, read_pos, write_pos) = netlink_loop vpn_indices vpn_uid len data 0 0
            in if read_pos < len then
                 (if write_pos \<noteq> read_pos then copy_within data1 read_pos len write_pos else data1,
                  write_pos + (len - read_pos))
               else (data1, write_pos)))"

declare route_oif_from.simps [simp del] rule_scan_from.simps [simp del] netlink_loop.simps [simp del]


section \<open>Compaction of messages\<close>

text \<open>The length field and the type of a message, and the bytes it takes in a buffer.\<close>

definition nl_len :: "bytes \<Rightarrow> nat" where
  "nl_len f = unat (ne_word (take 4 f) :: u32)"

definition nl_type :: "bytes \<Rightarrow> u16" where
  "nl_type f = ne_word (take 2 (drop 4 f))"

definition nl_frame :: "bytes \<Rightarrow> nat option" where
  "nl_frame xs =
     (if 16 \<le> length xs \<and> 16 \<le> nl_len xs \<and> nl_len xs \<le> length xs
      then Some (min (align4 (nl_len xs)) (length xs)) else None)"

definition hides_frame :: "u32 list \<Rightarrow> u32 \<Rightarrow> bytes \<Rightarrow> bool" where
  "hides_frame vpn_indices vpn_uid f = nl_hide vpn_indices vpn_uid (nl_type f) (nl_len f) f"

lemma nl_frame_bounds: "nl_frame xs = Some n \<Longrightarrow> 16 \<le> n \<and> n \<le> length xs \<and> nl_len xs \<le> n"
  using align4_ge [of "nl_len xs"] by (auto simp: nl_frame_def split: if_splits)

function nl_records :: "bytes \<Rightarrow> bytes list \<times> bytes" where
  "nl_records xs =
     (case nl_frame xs of
        None \<Rightarrow> ([], xs)
      | Some n \<Rightarrow> (let (fs, rest) = nl_records (drop n xs) in (take n xs # fs, rest)))"
  by auto

termination
  by (relation "measure length") (auto dest: nl_frame_bounds)

declare nl_records.simps [simp del]

lemma nl_header: "16 \<le> length f \<Longrightarrow> nl_len (f @ xs) = nl_len f \<and> nl_type (f @ xs) = nl_type f"
  by (simp add: nl_len_def nl_type_def)

lemma nl_header_take: "16 \<le> n \<Longrightarrow> n \<le> length xs \<Longrightarrow> nl_len (take n xs) = nl_len xs \<and> nl_type (take n xs) = nl_type xs"
  by (metis append_take_drop_id length_take min_absorb2 nl_header)

text \<open>The verdict only looks at the message itself.\<close>

lemma nl_hide_take:
  assumes "nlmsg_len \<le> n" "n \<le> length xs"
  shows "nl_hide vi uid ty nlmsg_len (take n xs) = nl_hide vi uid ty nlmsg_len xs"
proof -
  have "take nlmsg_len (take n xs) = take nlmsg_len xs" using assms(1) by (simp add: min_absorb1)
  moreover have "NLMSG_HDRLEN + 8 \<le> nlmsg_len \<Longrightarrow>
      read_u32_ne (take n xs) (NLMSG_HDRLEN + 4) = read_u32_ne xs (NLMSG_HDRLEN + 4)"
    using assms by (auto simp: read_u32_ne_def slice_at_def NLMSG_HDRLEN_def take_drop min_absorb1)
  ultimately show ?thesis by (simp add: nl_hide_def)
qed

lemma nl_frame_stop_loop:
  "nl_frame (drop r data) = None \<Longrightarrow> netlink_loop vi uid (length data) data r w = (data, r, w)"
  by (subst netlink_loop.simps)
     (auto simp: nl_frame_def NLMSG_HDRLEN_def read_u32_ne_def slice_at_def nl_len_def Let_def split: if_splits)

lemma nl_frame_step_loop:
  assumes "w \<le> r" and n: "nl_frame (drop r data) = Some n"
  shows "netlink_loop vi uid (length data) data r w =
    (if hides_frame vi uid (take n (drop r data)) then netlink_loop vi uid (length data) data (r + n) w
     else netlink_loop vi uid (length (if w \<noteq> r then copy_within data r (r + n) w else data))
            (if w \<noteq> r then copy_within data r (r + n) w else data) (r + n) (w + n))"
proof -
  let ?xs = "drop r data"
  have b: "16 \<le> n" "n \<le> length ?xs" "nl_len ?xs \<le> n" using nl_frame_bounds [OF n] by auto
  then have rn: "r + n \<le> length data" by auto
  have l: "length (copy_within data r (r + n) w) = length data" using assms(1) rn by (rule length_copy_within)
  have h: "hides_frame vi uid (take n ?xs) = nl_hide vi uid (nl_type ?xs) (nl_len ?xs) ?xs"
    using nl_header_take [OF b(1,2)] nl_hide_take [OF b(3,2)] by (simp add: hides_frame_def)
  have m: "min (nlmsg_align (nl_len ?xs)) (length data - r) = n"
    and g: "\<not> (nl_len ?xs < NLMSG_HDRLEN \<or> length data < r + nl_len ?xs)" "r + NLMSG_HDRLEN \<le> length data"
    using n by (auto simp: nl_frame_def aligns NLMSG_HDRLEN_def split: if_splits)
  have r1: "read_u32_ne data r = Some (ne_word (take 4 ?xs))" "unat (ne_word (take 4 ?xs) :: u32) = nl_len ?xs"
    using b rn by (auto simp: read_u32_ne_def slice_at_def nl_len_def)
  have r2: "read_u16_ne data (r + 4) = Some (nl_type ?xs)"
    using b rn by (auto simp: read_u16_ne_def slice_at_def nl_type_def add.commute)
  show ?thesis
    unfolding h if_distrib [of length] l
    by (subst netlink_loop.simps) (simp only: g r1 r2 m Let_def option.case if_True if_False if_not_P cong: if_cong, simp)
qed

interpretation nl: stable_compactor nl_frame "hides_frame vi uid"
    "\<lambda>data. netlink_loop vi uid (length data) data" nl_records for vi uid
proof
  fix xs :: bytes and n
  show "nl_frame xs = Some n \<Longrightarrow> 0 < n \<and> n \<le> length xs" by (auto dest: nl_frame_bounds)
  show "nl_frame xs = None \<Longrightarrow> nl_records xs = ([], xs)" by (simp add: nl_records.simps)
  show "nl_frame xs = Some n \<Longrightarrow> nl_records xs = (take n xs # fst (nl_records (drop n xs)), snd (nl_records (drop n xs)))"
    by (subst nl_records.simps) (simp add: split_def Let_def)
next
  fix f xs ys :: bytes
  assume f: "nl_frame (f @ xs) = Some (length f)" and xs: "xs \<noteq> []"
  then have "16 \<le> length f" "nl_len f \<le> length f" "16 \<le> nl_len f" "align4 (nl_len f) = length f"
    using nl_frame_bounds [OF f] nl_header [of f xs] by (auto simp: nl_frame_def min_def split: if_splits)
  then show "nl_frame (f @ ys) = Some (length f)"
    using nl_header [of f ys] by (simp add: nl_frame_def)
qed (fact nl_frame_stop_loop nl_frame_step_loop)+

lemma filter_netlink_short:
  assumes "length data < 16"
  shows "filter_netlink_dump data vi uid = (data, length data)" "nl.kept vi uid data @ snd (nl_records data) = data"
proof -
  have "nl_frame data = None" using assms by (simp add: nl_frame_def)
  then show "nl.kept vi uid data @ snd (nl_records data) = data" by (simp add: nl.kept_def nl.records_stop)
qed (use assms in \<open>simp add: filter_netlink_dump_def NLMSG_HDRLEN_def\<close>)

lemma filter_netlink_dump_correct:
  assumes "filter_netlink_dump data vi uid = (out, k)"
  shows "length out = length data \<and> k \<le> length data
    \<and> take k out = nl.kept vi uid data @ snd (nl_records data)"
proof (cases "length data < 16")
  case True
  with assms show ?thesis by (auto simp: filter_netlink_short)
next
  case False
  obtain d r w where l: "netlink_loop vi uid (length data) data 0 0 = (d, r, w)" by (metis prod_cases3)
  have c: "length d = length data" "w \<le> r" "r \<le> length data" "take w d = nl.kept vi uid data"
    "drop r d = snd (nl_records data)"
    using nl.loop_compacts [of 0 0 data vi uid d r w] l by auto
  define n where "n = length data - r"
  have n: "length data = r + n" "length d = r + n" using c(1,3) by (simp_all add: n_def)
  have e: "out = copy_within d r (r + n) w \<and> k = w + n"
  proof (cases "r < length data")
    case True
    with False have "filter_netlink_dump data vi uid =
        (if w \<noteq> r then copy_within d r (length data) w else d, w + (length data - r))"
      by (simp add: filter_netlink_dump_def NLMSG_HDRLEN_def l Let_def)
    with assms copy_within_same [of r n d] n show ?thesis by auto
  next
    case F: False
    with c(3) have "n = 0" "r = length data" by (simp_all add: n_def)
    with assms False F show ?thesis
      by (simp add: filter_netlink_dump_def NLMSG_HDRLEN_def l copy_within_def)
  qed
  have "take n (drop r d) = drop r d" using n by simp
  with e c n show ?thesis by (simp add: length_copy_within take_copy_within)
qed


section \<open>What a reader of the filtered dump sees\<close>

definition visible_dump :: "bytes \<Rightarrow> u32 list \<Rightarrow> u32 \<Rightarrow> bytes" where
  "visible_dump data vi uid = (let (out, n) = filter_netlink_dump data vi uid in take n out)"

lemma visible_dump_eq: "visible_dump data vi uid = nl.kept vi uid data @ snd (nl_records data)"
  using filter_netlink_dump_correct [of data vi uid] by (simp add: visible_dump_def split: prod.split)

lemma records_visible:
  "nl_records (visible_dump data vi uid) =
     (filter (\<lambda>f. \<not> hides_frame vi uid f) (fst (nl_records data)), snd (nl_records data))"
  by (simp add: visible_dump_eq nl.records_kept)

text \<open>
  C3.  Filtering a netlink dump is exact: the buffer keeps its size, the valid part divides into
  exactly the messages that do not reveal a VPN, unchanged and in order, followed by the same
  unparsed rest; messages of any other type (dump end and errors among them) are never touched;
  and filtering twice is filtering once.
\<close>

theorem filter_netlink_exact:
  "length (fst (filter_netlink_dump data vi uid)) = length data
   \<and> snd (filter_netlink_dump data vi uid) \<le> length data
   \<and> nl_records (visible_dump data vi uid) =
        (filter (\<lambda>f. \<not> hides_frame vi uid f) (fst (nl_records data)), snd (nl_records data))
   \<and> visible_dump (visible_dump data vi uid) vi uid = visible_dump data vi uid
   \<and> filter (\<lambda>f. nl_type f \<notin> {RTM_NEWLINK, RTM_NEWADDR, RTM_NEWROUTE, RTM_NEWRULE}) (fst (nl_records (visible_dump data vi uid)))
      = filter (\<lambda>f. nl_type f \<notin> {RTM_NEWLINK, RTM_NEWADDR, RTM_NEWROUTE, RTM_NEWRULE}) (fst (nl_records data))"
proof -
  have "visible_dump (visible_dump data vi uid) vi uid = visible_dump data vi uid"
    unfolding visible_dump_eq [of "visible_dump data vi uid"] records_visible snd_conv
    by (simp add: visible_dump_eq nl.kept_idem)
  moreover have "filter (\<lambda>f. nl_type f \<notin> {RTM_NEWLINK, RTM_NEWADDR, RTM_NEWROUTE, RTM_NEWRULE})
      (filter (\<lambda>f. \<not> hides_frame vi uid f) (fst (nl_records data))) =
      filter (\<lambda>f. nl_type f \<notin> {RTM_NEWLINK, RTM_NEWADDR, RTM_NEWROUTE, RTM_NEWRULE}) (fst (nl_records data))"
    unfolding filter_filter by (rule filter_cong) (auto simp: hides_frame_def nl_hide_def)
  ultimately show ?thesis
    using filter_netlink_dump_correct [OF prod.collapse [symmetric], of data vi uid] records_visible [of data vi uid]
    by simp
qed

text \<open>The strict probe parser reads the same messages.\<close>

definition message_of :: "bytes \<Rightarrow> message" where
  "message_of f =
     \<lparr>msg_kind = nl_type f, msg_flags = ne_word (take 2 (drop 6 f)), msg_sequence = ne_word (take 4 (drop 8 f)),
      msg_body = take (nl_len f - 16) (drop 16 f)\<rparr>"

lemma message_of_take:
  assumes "16 \<le> n" "nl_len xs \<le> n" "n \<le> length xs"
  shows "message_of (take n xs) = message_of xs"
proof -
  have "nl_len (take n xs) = nl_len xs" "nl_type (take n xs) = nl_type xs"
    using nl_header_take assms by auto
  then show ?thesis using assms by (simp add: message_of_def take_drop min_absorb1)
qed

lemma decode_frame_nl:
  assumes "decode_frame bs at = Inr (m, n)"
  shows "nl_frame (drop at bs) = Some n" "m = message_of (take n (drop at bs))"
proof -
  let ?xs = "drop at bs"
  have d: "at + 12 \<le> length bs" "n = align4 (nl_len ?xs)" "16 \<le> nl_len ?xs" "at + n \<le> length bs"
    "nl_len ?xs \<le> length bs - at" and m: "m = message_of ?xs"
    using assms unfolding decode_frame_Inr
    by (auto simp: nl_len_def nl_type_def message_of_def add.commute)
  have n: "16 \<le> n" "nl_len ?xs \<le> n" "n \<le> length ?xs" using d align4_ge [of "nl_len ?xs"] by auto
  show "nl_frame ?xs = Some n" using d n by (auto simp: nl_frame_def)
  show "m = message_of (take n ?xs)" using m message_of_take [OF n] by simp
qed

text \<open>Every message the strict parser hands out is one of the buffer's records.\<close>

lemma frames_next_record:
  assumes "frames_next f = (Some (Inr m), f')" "fr_at f \<le> length (fr_bytes f)"
  shows "\<exists>r \<in> set (fst (nl_records (drop (fr_at f) (fr_bytes f)))). m = message_of r
      \<and> set (fst (nl_records (drop (fr_at f') (fr_bytes f')))) \<subseteq> set (fst (nl_records (drop (fr_at f) (fr_bytes f))))
      \<and> fr_bytes f' = fr_bytes f \<and> fr_at f' \<le> length (fr_bytes f')"
proof -
  obtain n where d: "decode_frame (fr_bytes f) (fr_at f) = Inr (m, n)" and f': "f' = f\<lparr>fr_at := fr_at f + n\<rparr>"
    using assms(1) by (auto simp: frames_next_Inr)
  have "nl_records (drop (fr_at f) (fr_bytes f)) =
      (take n (drop (fr_at f) (fr_bytes f)) # fst (nl_records (drop (fr_at f + n) (fr_bytes f))),
       snd (nl_records (drop (fr_at f + n) (fr_bytes f))))"
    using nl.records_step [OF decode_frame_nl(1) [OF d]] by (simp add: add.commute)
  then show ?thesis using decode_frame_nl(2) [OF d] decode_frame_progress [OF d] f' by auto
qed

end
