(* ===== verification/Proc_Filter.thy ===== *)
theory Proc_Filter
  imports Compaction Iface_Names
begin

text \<open>
  The in-process filters for \<^verbatim>\<open>/proc/net\<close> text (\<^verbatim>\<open>zygisk/src/filter.rs\<close>): a shared line compactor and
  one predicate per file, which drops the lines that name a VPN interface or carry a VPN address.
\<close>

section \<open>Definitions\<close>

function compact_loop :: "(bytes \<Rightarrow> bool) \<Rightarrow> nat \<Rightarrow> bytes \<Rightarrow> nat \<Rightarrow> nat \<Rightarrow> bytes \<times> nat \<times> nat" where
  "compact_loop hide len data read_pos write_pos =
     (if read_pos < len then
        (let line_end = (case position (\<lambda>b. b = CHR 0x0A) (drop read_pos data) of
                           None \<Rightarrow> len | Some p \<Rightarrow> read_pos + p + 1);
             line_len = line_end - read_pos
         in if \<not> hide (take line_len (drop read_pos data)) then
              compact_loop hide len (if write_pos \<noteq> read_pos then copy_within data read_pos line_end write_pos else data)
                line_end (write_pos + line_len)
            else compact_loop hide len data line_end write_pos)
      else (data, read_pos, write_pos))"
  by auto

termination
  by (relation "measure (\<lambda>(hide, len, data, r, w). len - r)") (auto split: option.splits)

definition compact_lines :: "bytes \<Rightarrow> (bytes \<Rightarrow> bool) \<Rightarrow> bytes \<times> nat" where
  "compact_lines data hide =
     (let (data', _, write_pos) = compact_loop hide (length data) data 0 0 in (data', write_pos))"

definition route_hides :: "bytes \<Rightarrow> bool" where
  "route_hides line =
     (let field_len = (case position (\<lambda>b. b = CHR 0x09 \<or> b = CHR 0x0A) line of Some p \<Rightarrow> p | None \<Rightarrow> length line);
          ifname = take field_len line
      in ifname \<noteq> [] \<and> is_vpn_iface_bytes ifname)"

definition filter_route_buf :: "bytes \<Rightarrow> bytes \<times> nat" where
  "filter_route_buf data = compact_lines data route_hides"

definition trim_ws :: "char \<Rightarrow> bool" where
  "trim_ws b = (b = CHR '' '' \<or> b = CHR 0x09 \<or> b = CHR 0x0A \<or> b = CHR 0x0D)"

definition trim_ascii_ws :: "bytes \<Rightarrow> bytes" where
  "trim_ascii_ws s = rev (dropWhile trim_ws (rev (dropWhile trim_ws s)))"

definition dev_hides :: "bytes \<Rightarrow> bool" where
  "dev_hides line =
     (case position (\<lambda>b. b = CHR '':'') line of
        None \<Rightarrow> False
      | Some colon \<Rightarrow> (let name = trim_ascii_ws (take colon line) in name \<noteq> [] \<and> is_vpn_iface_bytes name))"

definition filter_dev_buf :: "bytes \<Rightarrow> bytes \<times> nat" where
  "filter_dev_buf data = compact_lines data dev_hides"

definition extract_last_field :: "bytes \<Rightarrow> bytes" where
  "extract_last_field line =
     (let body = rev (dropWhile (\<lambda>b. b = CHR 0x0A \<or> b = CHR '' '' \<or> b = CHR 0x09) (rev line))
      in rev (takeWhile (\<lambda>b. \<not> (b = CHR '' '' \<or> b = CHR 0x09)) (rev body)))"

definition last_field_hides :: "bytes \<Rightarrow> bool" where
  "last_field_hides line = (let ifname = extract_last_field line in ifname \<noteq> [] \<and> is_vpn_iface_bytes ifname)"

definition filter_by_last_field :: "bytes \<Rightarrow> bytes \<times> nat" where
  "filter_by_last_field data = compact_lines data last_field_hides"

definition filter_ipv6_route_buf :: "bytes \<Rightarrow> bytes \<times> nat" where
  "filter_ipv6_route_buf data = filter_by_last_field data"

definition filter_if_inet6_buf :: "bytes \<Rightarrow> bytes \<times> nat" where
  "filter_if_inet6_buf data = filter_by_last_field data"

definition find_colon_space :: "bytes \<Rightarrow> nat option" where
  "find_colon_space line = position (\<lambda>(a, b). a = CHR '':'' \<and> b = CHR '' '') (zip line (drop 1 line))"

text \<open>One hexadecimal digit, upper or lower case.\<close>

definition hex_digit :: "char \<Rightarrow> u32 option" where
  "hex_digit b =
     (if byte_in b 48 57 then Some (of_char b - 48)
      else if byte_in b 65 70 then Some (of_char b - 65 + 10)
      else if byte_in b 97 102 then Some (of_char b - 97 + 10)
      else None)"

text \<open>\<^verbatim>\<open>checked_shl(4)\<close> only fails for shifts of 32 or more; high bits leave the word.\<close>

fun parse_hex_from :: "u32 \<Rightarrow> bytes \<Rightarrow> u32 option" where
  "parse_hex_from val [] = Some val"
| "parse_hex_from val (b # bs) =
     (case hex_digit b of None \<Rightarrow> None | Some d \<Rightarrow> parse_hex_from (or (push_bit 4 val) d) bs)"

definition parse_hex_u32 :: "bytes \<Rightarrow> u32 option" where
  "parse_hex_u32 hex = parse_hex_from 0 hex"

definition parse_hex_addr6 :: "bytes \<Rightarrow> (u32 \<times> u32 \<times> u32 \<times> u32) option" where
  "parse_hex_addr6 hex =
     (if length hex \<noteq> 32 then None
      else do {
        a \<leftarrow> parse_hex_u32 (take 8 hex);
        b \<leftarrow> parse_hex_u32 (take 8 (drop 8 hex));
        c \<leftarrow> parse_hex_u32 (take 8 (drop 16 hex));
        d \<leftarrow> parse_hex_u32 (take 8 (drop 24 hex));
        Some (a, b, c, d)
      })"

definition tcp_hides :: "'a list \<Rightarrow> nat \<Rightarrow> (bytes \<Rightarrow> 'a option) \<Rightarrow> bytes \<Rightarrow> bool" where
  "tcp_hides vpn_addrs hex_len parse line =
     (case find_colon_space line of
        None \<Rightarrow> False
      | Some colon_pos \<Rightarrow>
          (let addr_start = colon_pos + 2
           in if addr_start + hex_len \<le> length line then
                (case parse (take hex_len (drop addr_start line)) of
                   Some addr \<Rightarrow> addr \<in> set vpn_addrs
                 | None \<Rightarrow> False)
              else False))"

definition filter_tcp_addr :: "bytes \<Rightarrow> 'a list \<Rightarrow> nat \<Rightarrow> (bytes \<Rightarrow> 'a option) \<Rightarrow> bytes \<times> nat" where
  "filter_tcp_addr data vpn_addrs hex_len parse = compact_lines data (tcp_hides vpn_addrs hex_len parse)"

text \<open>\<open>n_addrs\<close> is at most the array's length, else the slice panics (\<open>None\<close>).\<close>

definition MAX_VPN_ADDRS :: nat where
  "MAX_VPN_ADDRS = 16"

definition filter_tcp4_buf :: "bytes \<Rightarrow> u32 list \<Rightarrow> nat \<Rightarrow> (bytes \<times> nat) option" where
  "filter_tcp4_buf data vpn_addrs n_addrs =
     (if data = [] \<or> n_addrs = 0 then Some (data, length data)
      else if length vpn_addrs < n_addrs then None
      else Some (filter_tcp_addr data (take n_addrs vpn_addrs) 8 parse_hex_u32))"

definition filter_tcp6_buf :: "bytes \<Rightarrow> (u32 \<times> u32 \<times> u32 \<times> u32) list \<Rightarrow> nat \<Rightarrow> (bytes \<times> nat) option" where
  "filter_tcp6_buf data vpn_addrs n_addrs =
     (if data = [] \<or> n_addrs = 0 then Some (data, length data)
      else if length vpn_addrs < n_addrs then None
      else Some (filter_tcp_addr data (take n_addrs vpn_addrs) 32 parse_hex_addr6))"


section \<open>Compaction of lines\<close>

text \<open>The line at the start of a buffer, with its newline.\<close>

definition line_span :: "bytes \<Rightarrow> nat" where
  "line_span xs = (case position (\<lambda>b. b = CHR 0x0A) xs of None \<Rightarrow> length xs | Some p \<Rightarrow> p + 1)"

lemma line_span_bounds: "xs \<noteq> [] \<Longrightarrow> 0 < line_span xs \<and> line_span xs \<le> length xs"
  by (auto simp: line_span_def split: option.splits dest: position_Some)

text \<open>The lines of a text, each with its newline.\<close>

function raw_lines :: "bytes \<Rightarrow> bytes list" where
  "raw_lines xs = (if xs = [] then [] else take (line_span xs) xs # raw_lines (drop (line_span xs) xs))"
  by auto

termination
  by (relation "measure length") (auto dest: line_span_bounds)

declare compact_loop.simps [simp del] raw_lines.simps [simp del]

definition line_frame :: "bytes \<Rightarrow> nat option" where
  "line_frame xs = (if xs = [] then None else Some (line_span xs))"

lemma line_span_append: "xs \<noteq> [] \<Longrightarrow> line_span (f @ xs) = length f \<Longrightarrow> f \<noteq> [] \<Longrightarrow> line_span (f @ ys) = length f"
proof -
  assume a: "xs \<noteq> []" "line_span (f @ xs) = length f" "f \<noteq> []"
  have "\<exists>x \<in> set f. x = CHR 0x0A"
  proof (rule ccontr)
    assume n: "\<not> ?thesis"
    then have "position (\<lambda>b. b = CHR 0x0A) (f @ xs) = map_option ((+) (length f)) (position (\<lambda>b. b = CHR 0x0A) xs)"
      by (intro position_append) auto
    with a show False by (auto simp: line_span_def split: option.splits)
  qed
  moreover have "position p (f @ zs) = position p f" if "\<exists>x \<in> set f. p x" for p zs and f :: bytes
    using that by (induction f) fastforce+
  ultimately show ?thesis using a by (auto simp: line_span_def position_None split: option.splits)
qed

interpretation lines: stable_compactor line_frame hide "\<lambda>data. compact_loop hide (length data) data" "\<lambda>xs. (raw_lines xs, [])" for hide
proof
  fix xs :: bytes and n
  show "line_frame xs = Some n \<Longrightarrow> 0 < n \<and> n \<le> length xs"
    using line_span_bounds by (auto simp: line_frame_def split: if_splits)
  show "line_frame xs = None \<Longrightarrow> (raw_lines xs, []) = ([], xs)"
    by (auto simp: line_frame_def raw_lines.simps [of "[]"] split: if_splits)
  show "line_frame xs = Some n \<Longrightarrow>
      (raw_lines xs, []) = (take n xs # fst (raw_lines (drop n xs), []), snd (raw_lines (drop n xs), []))"
    by (auto simp: line_frame_def raw_lines.simps [of xs] split: if_splits)
next
  fix data r w n
  show "line_frame (drop r data) = None \<Longrightarrow> compact_loop hide (length data) data r w = (data, r, w)"
    by (simp add: line_frame_def compact_loop.simps split: if_splits)
  assume w: "w \<le> r" and n: "line_frame (drop r data) = Some n"
  then have r: "r < length data" "n = line_span (drop r data)" by (auto simp: line_frame_def split: if_splits)
  then have "r + n \<le> length data" using line_span_bounds [of "drop r data"] by auto
  with w have l: "length (copy_within data r (r + n) w) = length data" by (rule length_copy_within)
  have "(case position (\<lambda>b. b = CHR 0x0A) (drop r data) of None \<Rightarrow> length data | Some p \<Rightarrow> r + p + 1) = r + n"
    using r by (simp add: line_span_def split: option.splits)
  with r(1) l show "compact_loop hide (length data) data r w =
      (if hide (take n (drop r data)) then compact_loop hide (length data) data (r + n) w
       else compact_loop hide (length (if w \<noteq> r then copy_within data r (r + n) w else data))
              (if w \<noteq> r then copy_within data r (r + n) w else data) (r + n) (w + n))"
    by (subst compact_loop.simps) (simp add: Let_def)
next
  fix f xs ys :: bytes
  show "line_frame (f @ xs) = Some (length f) \<Longrightarrow> xs \<noteq> [] \<Longrightarrow> line_frame (f @ ys) = Some (length f)"
    using line_span_append [of xs f ys] line_span_bounds [of "f @ xs"] by (auto simp: line_frame_def split: if_splits)
qed

lemma compact_lines_correct:
  assumes "compact_lines data hide = (data', n)"
  shows "length data' = length data" "n \<le> length data"
    "take n data' = concat (filter (\<lambda>l. \<not> hide l) (raw_lines data))"
  using assms lines.loop_compacts [of 0 0 data hide data'] unfolding compact_lines_def
  by (auto simp: lines.kept_def split: prod.splits)


section \<open>What a reader sees\<close>

text \<open>The bytes a filtered read leaves: the buffer up to the returned length.\<close>

definition visible :: "bytes \<times> nat \<Rightarrow> bytes" where
  "visible r = take (snd r) (fst r)"

lemma visible_compact_lines: "visible (compact_lines data hide) = concat (filter (\<lambda>l. \<not> hide l) (raw_lines data))"
  using compact_lines_correct(3) [of data hide] by (cases "compact_lines data hide") (simp add: visible_def)

lemma raw_lines_visible: "raw_lines (visible (compact_lines data hide)) = filter (\<lambda>l. \<not> hide l) (raw_lines data)"
  using lines.records_kept [of hide data] by (simp add: visible_compact_lines lines.kept_def)

text \<open>
  C27.  Filtering is exact: for any line predicate the compactor leaves, in the space of the input,
  exactly the lines the predicate does not hide, byte for byte and in order; the result reads back
  as those lines, and filtering it again removes nothing more.
\<close>

theorem compact_lines_exact:
  "snd (compact_lines data hide) \<le> length (fst (compact_lines data hide))
   \<and> length (fst (compact_lines data hide)) = length data
   \<and> raw_lines (visible (compact_lines data hide)) = filter (\<lambda>l. \<not> hide l) (raw_lines data)
   \<and> visible (compact_lines (visible (compact_lines data hide)) hide) = visible (compact_lines data hide)"
proof -
  have "visible (compact_lines (visible (compact_lines data hide)) hide) = visible (compact_lines data hide)"
    unfolding visible_compact_lines [of "visible (compact_lines data hide)"] raw_lines_visible
    by (simp add: visible_compact_lines)
  moreover have "snd (compact_lines data hide) \<le> length (fst (compact_lines data hide))"
      "length (fst (compact_lines data hide)) = length data"
    using compact_lines_correct(1,2) [OF prod.collapse [symmetric], of data hide] by simp_all
  ultimately show ?thesis using raw_lines_visible by blast
qed

text \<open>The kernel's line formats.\<close>

lemma route_hides_line:
  assumes "CHR 0x09 \<notin> set name" "CHR 0x0A \<notin> set name"
  shows "route_hides (name @ CHR 0x09 # rest) = (name \<noteq> [] \<and> is_vpn_iface_bytes name)"
proof -
  have "position (\<lambda>b. b = CHR 0x09 \<or> b = CHR 0x0A) (name @ CHR 0x09 # rest) = Some (length name)"
    using assms by (subst position_append) auto
  then show ?thesis by (simp add: route_hides_def Let_def)
qed

lemma trim_ascii_ws_word:
  assumes "list_all trim_ws sp" "name = [] \<or> (\<not> trim_ws (hd name) \<and> \<not> trim_ws (last name))"
  shows "trim_ascii_ws (sp @ name) = name"
proof -
  have "dropWhile trim_ws (sp @ name) = name"
    using assms by (subst dropWhile_append2) (auto simp: list_all_iff, cases name, auto)
  then have "trim_ascii_ws (sp @ name) = rev (dropWhile trim_ws (rev name))" by (simp add: trim_ascii_ws_def)
  also have "\<dots> = name"
  proof (cases name rule: rev_cases)
    case (snoc ys y)
    with assms show ?thesis by simp
  qed simp
  finally show ?thesis .
qed

lemma dev_hides_line:
  assumes "list_all (\<lambda>c. c = CHR '' '') sp" "CHR '':'' \<notin> set name" "list_all (\<lambda>c. \<not> trim_ws c) name"
  shows "dev_hides (sp @ name @ CHR '':'' # rest) = (name \<noteq> [] \<and> is_vpn_iface_bytes name)"
proof -
  have "x \<noteq> CHR '':''" if "x \<in> set (sp @ name)" for x
  proof (cases "x \<in> set name")
    case False
    with that assms(1) have "x = CHR '' ''" by (simp only: list_all_iff set_append Un_iff simp_thms)
    then show ?thesis by simp
  qed (use assms(2) in blast)
  then have "position (\<lambda>b. b = CHR '':'') ((sp @ name) @ CHR '':'' # rest) = Some (length (sp @ name))"
    by (subst position_append) auto
  moreover have "trim_ascii_ws (sp @ name) = name"
  proof (rule trim_ascii_ws_word)
    show "list_all trim_ws sp" using assms(1) by (rule list.pred_mono_strong) (simp add: trim_ws_def)
    show "name = [] \<or> (\<not> trim_ws (hd name) \<and> \<not> trim_ws (last name))"
      using assms(3) unfolding list_all_iff by (metis last_in_set list.set_sel(1))
  qed
  ultimately show ?thesis by (simp add: dev_hides_def Let_def)
qed

lemma last_field_line:
  assumes "name \<noteq> []" "list_all (\<lambda>c. c \<noteq> CHR '' '' \<and> c \<noteq> CHR 0x09 \<and> c \<noteq> CHR 0x0A) name"
  shows "extract_last_field (pre @ CHR '' '' # name @ [CHR 0x0A]) = name"
proof -
  obtain ys y where n: "name = ys @ [y]" using assms(1) by (cases name rule: rev_cases) auto
  with assms(2) have "dropWhile (\<lambda>b. b = CHR 0x0A \<or> b = CHR '' '' \<or> b = CHR 0x09) (rev (pre @ CHR '' '' # name @ [CHR 0x0A]))
      = rev name @ CHR '' '' # rev pre" by simp
  moreover have "takeWhile (\<lambda>b. \<not> (b = CHR '' '' \<or> b = CHR 0x09)) (rev name @ CHR '' '' # rev pre) = rev name"
    using assms(2) by (subst takeWhile_append2) (auto simp: list_all_iff)
  ultimately show ?thesis by (simp add: extract_last_field_def Let_def)
qed

text \<open>Hexadecimal addresses: the parser is the base 16 value, wrapped to 32 bits.\<close>

lemma hex_digit_of: "hex_digit b = map_option of_nat (digit_of 16 b)"
proof -
  have "(of_char b :: u32) = of_nat (of_char b)" by (simp add: of_nat_of_char)
  then show ?thesis by (auto simp: hex_digit_def digit_of_def Let_def of_nat_diff)
qed

lemma shift_in_digit:
  assumes "d < 16"
  shows "or (push_bit 4 (of_nat v)) (of_nat d) = (of_nat (v * 16 + d) :: u32)"
proof -
  have d: "(of_nat d :: u32) = take_bit 4 (of_nat d)"
  proof -
    have "take_bit 4 d = d" using assms by (simp add: take_bit_nat_eq_self)
    then show ?thesis by (metis of_nat_take_bit)
  qed
  have "and (push_bit 4 (of_nat v)) (of_nat d) = (0 :: u32)"
    by (subst d) (auto intro!: bit_eqI simp: bit_simps)
  then have "or (push_bit 4 (of_nat v)) (of_nat d) = push_bit 4 (of_nat v) + (of_nat d :: u32)"
    by (simp add: disjunctive_add_eq_or)
  then show ?thesis by (simp add: push_bit_eq_mult mult.commute)
qed

lemma parse_hex_from_radix: "parse_hex_from (of_nat v) bs = map_option of_nat (radix_acc 16 v bs)"
proof (induction bs arbitrary: v)
  case (Cons b bs)
  show ?case
  proof (cases "digit_of 16 b")
    case (Some d)
    with Cons.IH [of "v * 16 + d"] shift_in_digit [OF digit_of_less [OF Some], of v]
    show ?thesis by (simp add: hex_digit_of)
  qed (simp add: hex_digit_of)
qed simp

lemma parse_hex_u32_radix: "parse_hex_u32 bs = map_option of_nat (radix_acc 16 0 bs)"
  using parse_hex_from_radix [of 0 bs] by (simp add: parse_hex_u32_def)

lemma find_colon_space_at:
  assumes "CHR '':'' \<notin> set pre"
  shows "find_colon_space (pre @ CHR '':'' # CHR '' '' # rest) = Some (length pre)"
  using assms
proof (induction pre)
  case (Cons c pre)
  then show ?case by (cases pre) (auto simp: find_colon_space_def)
qed (simp add: find_colon_space_def)

lemma tcp_hides_line:
  assumes "CHR '':'' \<notin> set slot" "length hex = n"
  shows "tcp_hides addrs n parse (slot @ CHR '':'' # CHR '' '' # hex @ rest) =
    (case parse hex of Some a \<Rightarrow> a \<in> set addrs | None \<Rightarrow> False)"
  using assms by (simp add: tcp_hides_def find_colon_space_at Let_def split: option.splits)

text \<open>
   Each \<^verbatim>\<open>/proc/net\<close> filter hides exactly the right lines of the kernel's formats: \<^verbatim>\<open>route\<close> lines by
  their first field, \<^verbatim>\<open>dev\<close> lines by the name before the colon, \<^verbatim>\<open>ipv6_route\<close> and \<^verbatim>\<open>if_inet6\<close> lines by
  their last field, and \<^verbatim>\<open>tcp\<close> lines by the value of the eight hexadecimal digits of their local
  address.
\<close>

theorem proc_line_formats:
  assumes "name \<noteq> []" "list_all (\<lambda>c. \<not> trim_ws c \<and> c \<noteq> CHR '':'') name"
    and "list_all (\<lambda>c. c = CHR '' '') sp" "CHR '':'' \<notin> set slot" "length hex = 8"
  shows "route_hides (name @ CHR 0x09 # rest) = is_vpn_iface_bytes name
    \<and> dev_hides (sp @ name @ CHR '':'' # rest) = is_vpn_iface_bytes name
    \<and> last_field_hides (rest @ CHR '' '' # name @ [CHR 0x0A]) = is_vpn_iface_bytes name
    \<and> tcp_hides addrs 8 parse_hex_u32 (slot @ CHR '':'' # CHR '' '' # hex @ rest) =
        (\<exists>v. radix_acc 16 0 hex = Some v \<and> of_nat v \<in> set addrs)"
proof -
  have n: "CHR 0x09 \<notin> set name" "CHR 0x0A \<notin> set name" "CHR '':'' \<notin> set name" "list_all (\<lambda>c. \<not> trim_ws c) name"
    "list_all (\<lambda>c. c \<noteq> CHR '' '' \<and> c \<noteq> CHR 0x09 \<and> c \<noteq> CHR 0x0A) name"
    using assms(2) by (auto simp: list_all_iff trim_ws_def)
  have "last_field_hides (rest @ CHR '' '' # name @ [CHR 0x0A]) = is_vpn_iface_bytes name"
    using last_field_line [OF assms(1) n(5), of rest] assms(1) by (simp add: last_field_hides_def)
  moreover have "tcp_hides addrs 8 parse_hex_u32 (slot @ CHR '':'' # CHR '' '' # hex @ rest) =
      (\<exists>v. radix_acc 16 0 hex = Some v \<and> of_nat v \<in> set addrs)"
    using tcp_hides_line [OF assms(4,5), of addrs parse_hex_u32 rest]
    by (auto simp: parse_hex_u32_radix split: option.splits)
  ultimately show ?thesis
    using route_hides_line [OF n(1,2)] dev_hides_line [OF assms(3) n(3,4)] assms(1) by blast
qed

theorem proc_line_formats_witness:
  "route_hides (''tun0'' @ CHR 0x09 # ''00000000'') = is_vpn_iface_bytes ''tun0''
   \<and> dev_hides ('' '' @ ''tun0'' @ CHR '':'' # ''00000000'') = is_vpn_iface_bytes ''tun0''"
proof -
  have a: "list_all (\<lambda>c. \<not> trim_ws c \<and> c \<noteq> CHR '':'') ''tun0''" by code_simp
  show ?thesis
    using proc_line_formats [OF _ a, of "'' ''" "''   0''" "''0100007F''" "''00000000''" "[]"] by simp
qed

end
