(* ===== verification/Route_Probe.thy ===== *)
theory Route_Probe
  imports Netlink_Filter Proc_Filter
begin

text \<open>
  The route collectors that check whether a VPN route is still visible
  (\<^verbatim>\<open>crates/checks/src/route.rs\<close>, with the observation types of \<^verbatim>\<open>crates/diagnostic-model/src/route.rs\<close>):
  netlink route dumps and the two \<^verbatim>\<open>/proc/net\<close> route tables.  The last section reads a filtered dump
  with them.
\<close>

section \<open>Observations\<close>

definition MAX_ROUTES :: nat where
  "MAX_ROUTES = 2048"

datatype route_surface = NetlinkIpv4 | NetlinkIpv6 | ProcIpv4 | ProcIpv6

fun address_bytes :: "route_surface \<Rightarrow> nat" where
  "address_bytes NetlinkIpv4 = 4"
| "address_bytes ProcIpv4 = 4"
| "address_bytes NetlinkIpv6 = 16"
| "address_bytes ProcIpv6 = 16"

definition surface_netlink :: "route_surface \<Rightarrow> bool" where
  "surface_netlink s = (s = NetlinkIpv4 \<or> s = NetlinkIpv6)"

record observed_route =
  or_destination :: bytes
  or_prefix :: u8
  or_source :: "bytes option"
  or_source_prefix :: u8
  or_output_index :: "u32 option"
  or_output_name :: "string option"
  or_table :: "u32 option"
  or_protocol :: "u8 option"
  or_scope :: "u8 option"
  or_kind :: "u8 option"
  or_metric :: u32
  or_gateway :: "bytes option"
  or_flags :: u32

definition none_or :: "('a \<Rightarrow> bool) \<Rightarrow> 'a option \<Rightarrow> bool" where
  "none_or P x = (case x of None \<Rightarrow> True | Some v \<Rightarrow> P v)"

definition route_valid :: "observed_route \<Rightarrow> route_surface \<Rightarrow> bool" where
  "route_valid r surface =
     (let len = address_bytes surface
      in length (or_destination r) = len
         \<and> unat (or_prefix r) \<le> len * 8
         \<and> none_or (\<lambda>v. length v = len) (or_source r)
         \<and> unat (or_source_prefix r) \<le> len * 8
         \<and> (or_source_prefix r = 0 \<or> or_source r \<noteq> None)
         \<and> none_or (\<lambda>v. length v = len) (or_gateway r)
         \<and> none_or (\<lambda>i. 0 < i \<and> i \<le> 0x7FFFFFFF) (or_output_index r)
         \<and> none_or (\<lambda>s. s \<noteq> [] \<and> length s \<le> 15 \<and> list_all (\<lambda>c. byte_in c 0 127) s
                        \<and> \<not> list_ex (\<lambda>b. is_ascii_whitespace b \<or> is_ascii_control b) s)
             (or_output_name r))"

definition push_route :: "observed_route \<Rightarrow> route_surface \<Rightarrow> observed_route list \<Rightarrow> (probe_error + unit) \<times> observed_route list" where
  "push_route row surface rows =
     (if \<not> route_valid row surface then (Inl Malformed, rows)
      else if MAX_ROUTES \<le> length rows then (Inl TooLarge, rows)
      else (Inr (), rows @ [row]))"


section \<open>Netlink rows\<close>

record route_fields =
  rf_destination :: "bytes option"
  rf_source :: "bytes option"
  rf_output :: "u32 option"
  rf_table :: "u32 option"
  rf_metric :: "u32 option"
  rf_gateway :: "bytes option"

definition route_attribute :: "nat \<Rightarrow> attribute \<Rightarrow> route_fields \<Rightarrow> probe_error + route_fields" where
  "route_attribute len a f =
     (let k = at_kind a; v = at_value a
      in if k = 1 \<or> k = 2 \<or> k = 5 then
           (if length v \<noteq> len then Inl Malformed
            else if k = 1 then (if rf_destination f \<noteq> None then Inl Malformed else Inr (f\<lparr>rf_destination := Some v\<rparr>))
            else if k = 2 then (if rf_source f \<noteq> None then Inl Malformed else Inr (f\<lparr>rf_source := Some v\<rparr>))
            else (if rf_gateway f \<noteq> None then Inl Malformed else Inr (f\<lparr>rf_gateway := Some v\<rparr>)))
         else if k = 4 \<or> k = 6 \<or> k = 15 then
           (if length v \<noteq> 4 then Inl Malformed
            else and_then (u32_at v 0) (\<lambda>n.
              if k = 4 then (if rf_output f \<noteq> None then Inl Malformed else Inr (f\<lparr>rf_output := Some n\<rparr>))
              else if k = 6 then (if rf_metric f \<noteq> None then Inl Malformed else Inr (f\<lparr>rf_metric := Some n\<rparr>))
              else (if rf_table f \<noteq> None then Inl Malformed else Inr (f\<lparr>rf_table := Some n\<rparr>))))
         else Inr f)"

fun route_attributes :: "nat \<Rightarrow> attribute list \<Rightarrow> route_fields \<Rightarrow> probe_error + route_fields" where
  "route_attributes len [] f = Inr f"
| "route_attributes len (a # as) f = and_then (route_attribute len a f) (route_attributes len as)"

definition netlink_row :: "bytes \<Rightarrow> route_surface \<Rightarrow> probe_error + observed_route" where
  "netlink_row body surface =
     (if \<not> surface_netlink surface \<or> length body < 12 then Inl Malformed
      else (let len = address_bytes surface;
                family = (if len = 4 then 2 else 10);
                byte = (\<lambda>i. of_char (body ! i) :: u8)
            in if byte 0 \<noteq> family \<or> len * 8 < unat (byte 1) \<or> len * 8 < unat (byte 2) then Inl Malformed
               else and_then (attributes (drop 12 body)) (\<lambda>as.
                    and_then (route_attributes len as
                      \<lparr>rf_destination = None, rf_source = None, rf_output = None, rf_table = None, rf_metric = None,
                       rf_gateway = None\<rparr>) (\<lambda>f.
                    and_then (case rf_destination f of
                                Some v \<Rightarrow> Inr v
                              | None \<Rightarrow> if byte 1 = 0 then Inr (replicate len (CHR 0x00)) else Inl Malformed) (\<lambda>destination.
                    and_then (u32_at body 8) (\<lambda>flags.
                    let row = \<lparr>or_destination = destination, or_prefix = byte 1, or_source = rf_source f,
                               or_source_prefix = byte 2, or_output_index = rf_output f, or_output_name = None,
                               or_table = Some (case rf_table f of Some t \<Rightarrow> t | None \<Rightarrow> ucast (byte 4)),
                               or_protocol = Some (byte 5), or_scope = Some (byte 6), or_kind = Some (byte 7),
                               or_metric = (case rf_metric f of Some m \<Rightarrow> m | None \<Rightarrow> 0),
                               or_gateway = rf_gateway f, or_flags = flags\<rparr>
                    in if \<not> route_valid row surface then Inl Malformed else Inr row))))))"

record route_dump =
  rd_wire :: dump
  rd_rows :: "observed_route list"
  rd_surface :: route_surface

definition route_dump_new :: "route_surface \<Rightarrow> route_dump" where
  "route_dump_new surface = \<lparr>rd_wire = dump_new 1 24, rd_rows = [], rd_surface = surface\<rparr>"

definition route_sink :: "route_surface \<Rightarrow> observed_route list sink" where
  "route_sink surface body rows =
     (case netlink_row body surface of Inl e \<Rightarrow> (Inl e, rows) | Inr row \<Rightarrow> push_route row surface rows)"

definition route_dump_consume :: "route_dump \<Rightarrow> bytes \<Rightarrow> (probe_error + bool) \<times> route_dump" where
  "route_dump_consume d bs =
     (let (res, wire, rows) = consume (rd_wire d) bs (route_sink (rd_surface d)) (rd_rows d)
      in (res, d\<lparr>rd_wire := wire, rd_rows := rows\<rparr>))"


section \<open>Proc rows\<close>

definition hex_field :: "string \<Rightarrow> nat \<Rightarrow> probe_error + u32" where
  "hex_field value len =
     (if length value \<noteq> len \<or> \<not> list_all is_ascii_hexdigit value then Inl Malformed
      else ok_or (map_option of_nat (from_str_radix 32 16 value)) Malformed)"

fun map_result :: "('a \<Rightarrow> 'e + 'b) \<Rightarrow> 'a list \<Rightarrow> 'e + 'b list" where
  "map_result f [] = Inr []"
| "map_result f (x # xs) = and_then (f x) (\<lambda>y. and_then (map_result f xs) (\<lambda>ys. Inr (y # ys)))"

definition ipv6_field :: "string \<Rightarrow> probe_error + bytes" where
  "ipv6_field value =
     (if length value \<noteq> 32 \<or> \<not> list_all (\<lambda>c. byte_in c 0 127) value then Inl Malformed
      else map_result (\<lambda>i. and_then (hex_field (take 2 (drop (i * 2) value)) 2) (\<lambda>v. Inr (char_of (unat v)))) [0..<16])"

text \<open>\<^verbatim>\<open>u32::to_ne_bytes\<close>, and \<^verbatim>\<open>from_be_bytes\<close> of the same.\<close>

definition to_ne_bytes :: "u32 \<Rightarrow> bytes" where
  "to_ne_bytes v = map (\<lambda>i. char_of (unat v div 256 ^ i)) [0..<4]"

definition from_be_bytes :: "bytes \<Rightarrow> u32" where
  "from_be_bytes bs = ne_word (rev bs)"

definition leading_ones :: "u32 \<Rightarrow> nat" where
  "leading_ones w = length (takeWhile (\<lambda>i. bit w i) (rev [0..<32]))"

definition parse_u64 :: "string \<Rightarrow> u64 option" where
  "parse_u64 s = map_option of_nat (from_str_radix 64 10 s)"

definition proc_row :: "string \<Rightarrow> route_surface \<Rightarrow> probe_error + observed_route" where
  "proc_row line surface =
     (let f = split_ascii_whitespace line
      in case surface of
           ProcIpv4 \<Rightarrow>
             (if length f \<noteq> 11 then Inl Malformed
              else (let address = (\<lambda>i. and_then (hex_field (f ! i) 8) (\<lambda>v. Inr (to_ne_bytes v)))
                    in and_then (address 7) (\<lambda>mask_bytes.
                       let m = from_be_bytes mask_bytes; prefix = leading_ones m
                       in if m \<noteq> (if prefix = 0 then 0 else push_bit (32 - prefix) (- 1)) then Inl Malformed
                          else if \<not> list_all (\<lambda>i. parse_u64 (f ! i) \<noteq> None) [4, 5, 8, 9, 10] then Inl Malformed
                          else and_then (address 1) (\<lambda>destination.
                               and_then (ok_or (map_option of_nat (from_str_radix 32 10 (f ! 6))) Malformed) (\<lambda>metric.
                               and_then (address 2) (\<lambda>gateway.
                               and_then (if 4 \<le> length (f ! 3) \<and> length (f ! 3) \<le> 8
                                         then hex_field (f ! 3) (length (f ! 3)) else Inl Malformed) (\<lambda>flags.
                               Inr \<lparr>or_destination = destination, or_prefix = of_nat prefix, or_source = None,
                                    or_source_prefix = 0, or_output_index = None, or_output_name = Some (f ! 0),
                                    or_table = None, or_protocol = None, or_scope = None, or_kind = None,
                                    or_metric = metric, or_gateway = Some gateway, or_flags = flags\<rparr>)))))))
         | ProcIpv6 \<Rightarrow>
             (if length f \<noteq> 10 then Inl Malformed
              else and_then (hex_field (f ! 6) 8) (\<lambda>_.
                   and_then (hex_field (f ! 7) 8) (\<lambda>_.
                   and_then (ipv6_field (f ! 0)) (\<lambda>destination.
                   and_then (hex_field (f ! 1) 2) (\<lambda>prefix.
                   and_then (ipv6_field (f ! 2)) (\<lambda>source.
                   and_then (hex_field (f ! 3) 2) (\<lambda>source_prefix.
                   and_then (hex_field (f ! 5) 8) (\<lambda>metric.
                   and_then (ipv6_field (f ! 4)) (\<lambda>gateway.
                   and_then (hex_field (f ! 8) 8) (\<lambda>flags.
                   if 255 < prefix \<or> 255 < source_prefix then Inl Malformed
                   else Inr \<lparr>or_destination = destination, or_prefix = ucast prefix, or_source = Some source,
                             or_source_prefix = ucast source_prefix, or_output_index = None,
                             or_output_name = Some (f ! 9), or_table = None, or_protocol = None, or_scope = None,
                             or_kind = None, or_metric = metric, or_gateway = Some gateway, or_flags = flags\<rparr>))))))))))
         | _ \<Rightarrow> Inl Malformed)"

definition proc_line :: "bytes \<Rightarrow> probe_error + string" where
  "proc_line line =
     (if utf8_ok line then Inr (rev (dropWhile (\<lambda>c. c = CHR 0x0D \<or> c = CHR 0x0A) (rev line))) else Inl Malformed)"

fun push_lines :: "route_surface \<Rightarrow> bytes list \<Rightarrow> observed_route list \<Rightarrow> (probe_error + unit) \<times> observed_route list" where
  "push_lines surface [] rows = (Inr (), rows)"
| "push_lines surface (l # ls) rows =
     (case and_then (proc_line l) (\<lambda>line. proc_row line surface) of
        Inl e \<Rightarrow> (Inl e, rows)
      | Inr row \<Rightarrow>
          (case push_route row surface rows of
             (Inl e, rows1) \<Rightarrow> (Inl e, rows1)
           | (Inr _, rows1) \<Rightarrow> push_lines surface ls rows1))"

definition route_header :: "string list" where
  "route_header = [''Iface'', ''Destination'', ''Gateway'', ''Flags'', ''RefCnt'', ''Use'', ''Metric'', ''Mask'', ''MTU'',
     ''Window'', ''IRTT'']"

definition proc_rows :: "bytes \<Rightarrow> route_surface \<Rightarrow> observed_route list \<Rightarrow> (probe_error + unit) \<times> observed_route list" where
  "proc_rows bs surface rows =
     (if surface = ProcIpv4 then
        (case raw_lines bs of
           [] \<Rightarrow> (Inl Malformed, rows)
         | l # ls \<Rightarrow>
             (case proc_line l of
                Inl e \<Rightarrow> (Inl e, rows)
              | Inr h \<Rightarrow> if split_ascii_whitespace h \<noteq> route_header then (Inl Malformed, rows)
                         else push_lines surface ls rows))
      else push_lines surface (raw_lines bs) rows)"


section \<open>Rows are valid and bounded\<close>

definition rows_ok :: "route_surface \<Rightarrow> observed_route list \<Rightarrow> bool" where
  "rows_ok surface rows = (length rows \<le> MAX_ROUTES \<and> list_all (\<lambda>r. route_valid r surface) rows)"

lemma push_route_ok: "rows_ok surface rows \<Longrightarrow> push_route row surface rows = (res, rows') \<Longrightarrow> rows_ok surface rows'"
  by (auto simp: push_route_def rows_ok_def split: if_splits)

lemma route_sink_ok: "rows_ok surface rows \<Longrightarrow> route_sink surface body rows = (res, rows') \<Longrightarrow> rows_ok surface rows'"
  by (auto simp: route_sink_def push_route_ok split: sum.splits)

text \<open>The rows a netlink probe collects, as a fold over the data messages it got to.\<close>

lemma consume_frames_cases:
  assumes "consume_frames data len f d s = (out, d', s')"
  obtains (halt) "s' = s"
    | (finish) m f' where "frames_next f = (Some (Inr m), f')"
        "consume_frames data len f' (d\<lparr>du_done := True\<rparr>) s = (out, d', s')"
    | (fail) m f' e where "frames_next f = (Some (Inr m), f')" "msg_kind m = du_data_kind d"
        "data (msg_body m) s = (Inl e, s')"
    | (item) m f' s1 where "frames_next f = (Some (Inr m), f')" "msg_kind m = du_data_kind d"
        "data (msg_body m) s = (Inr (), s1)" "consume_frames data len f' d s1 = (out, d', s')"
proof (cases "frames_next f")
  case (Pair x f')
  show thesis
  proof (cases "\<exists>m. x = Some (Inr m)")
    case True
    then obtain m where m: "x = Some (Inr m)" by blast
    obtain r s1 where r: "data (msg_body m) s = (r, s1)" by force
    show thesis
      using assms Pair m r finish [of m f'] fail [of m f'] item [of m f' s1] halt
      by (subst (asm) consume_frames.simps) (auto split: if_splits sum.splits)
  next
    case False
    with assms Pair halt show thesis
      by (subst (asm) consume_frames.simps) (auto split: option.splits sum.splits)
  qed
qed

definition data_bodies :: "bytes \<Rightarrow> u16 \<Rightarrow> bytes set" where
  "data_bodies xs k = {msg_body (message_of r) | r. r \<in> set (fst (nl_records xs)) \<and> nl_type r = k}"

lemma consume_frames_fold:
  assumes "consume_frames data len f d s = (out, d', s')" "fr_at f \<le> length (fr_bytes f)"
  shows "\<exists>bodies. s' = fold (\<lambda>b s. snd (data b s)) bodies s
    \<and> set bodies \<subseteq> data_bodies (drop (fr_at f) (fr_bytes f)) (du_data_kind d)"
  using assms
proof (induction "length (fr_bytes f) - fr_at f" arbitrary: f d s rule: less_induct)
  case less
  have step: "msg_kind m = du_data_kind d \<Longrightarrow> msg_body m \<in> data_bodies (drop (fr_at f) (fr_bytes f)) (du_data_kind d)"
    "data_bodies (drop (fr_at f') (fr_bytes f')) k \<subseteq> data_bodies (drop (fr_at f) (fr_bytes f)) k"
    "fr_at f' \<le> length (fr_bytes f')"
    if "frames_next f = (Some (Inr m), f')" for m f' k
    using frames_next_record [OF that less.prems(2)] by (auto simp: data_bodies_def message_of_def)
  from less.prems(1) show ?case
  proof (cases rule: consume_frames_cases)
    case halt
    then show ?thesis by (intro exI [of _ "[]"]) simp
  next
    case (finish m f')
    from less.hyps [OF frames_next_progress [OF finish(1)] finish(2) step(3) [OF finish(1)]] step(2) [OF finish(1)]
    show ?thesis by fastforce
  next
    case (fail m f' e)
    then show ?thesis using step(1) [OF fail(1,2)] by (intro exI [of _ "[msg_body m]"]) simp
  next
    case (item m f' s1)
    from less.hyps [OF frames_next_progress [OF item(1)] item(4) step(3) [OF item(1)]]
    obtain bodies where b: "s' = fold (\<lambda>b s. snd (data b s)) bodies s1"
      "set bodies \<subseteq> data_bodies (drop (fr_at f') (fr_bytes f')) (du_data_kind d)" by blast
    with step(1) [OF item(1,2)] step(2) [OF item(1), of "du_data_kind d"] item(3) show ?thesis
      by (intro exI [of _ "msg_body m # bodies"]) auto
  qed
qed

lemma consume_fold:
  assumes "consume d bs data s = (out, d', s')"
  shows "\<exists>bodies. s' = fold (\<lambda>b s. snd (data b s)) bodies s \<and> set bodies \<subseteq> data_bodies bs (du_data_kind d)"
proof (cases "du_done d \<or> du_failed d \<or> frames_new bs = Inl Malformed")
  case True
  with assms have "s' = s" by (auto simp: consume_def consume_inner_def split: if_splits)
  then show ?thesis by (intro exI [of _ "[]"]) simp
next
  case False
  then have f: "frames_new bs = Inr \<lparr>fr_bytes = bs, fr_at = 0, fr_failed = False\<rparr>"
    by (auto simp: frames_new_def split: if_splits)
  obtain o1 d1 where "consume_frames data (length bs) \<lparr>fr_bytes = bs, fr_at = 0, fr_failed = False\<rparr> d s = (o1, d1, s')"
    using assms False f by (auto simp: consume_def consume_inner_def split: prod.splits sum.splits)
  from consume_frames_fold [OF this] show ?thesis by simp
qed


section \<open>A filtered route dump shows no VPN route\<close>

text \<open>The filter's attribute walk and the probe's agree wherever the probe accepts the attributes.\<close>

definition oif_of :: "attribute list \<Rightarrow> u32 option" where
  "oif_of as = map_option (\<lambda>a. ne_word (take 4 (at_value a))) (List.find (\<lambda>a. at_kind a = 4 \<and> 4 \<le> length (at_value a)) as)"

lemma attributes_from_step:
  assumes "at < length bs" "attributes_from bs at = Inr as"
  obtains n rest where "n = unat (ne_word (take 2 (drop at bs)) :: u16)" "4 \<le> n" "at + align4 n \<le> length bs"
    "n \<le> length bs - at" "at + 4 \<le> length bs" "attributes_from bs (at + align4 n) = Inr rest"
    "as = \<lparr>at_kind = ne_word (take 2 (drop (at + 2) bs)), at_value = take (n - 4) (drop (at + 4) bs)\<rparr> # rest"
proof -
  have "and_then (u16_at bs at) (\<lambda>len.
          let n = unat len
          in if n < 4 \<or> length bs - at < n then Inl Malformed
             else if length bs - at < align4 n then Inl Malformed
             else and_then (u16_at bs (at + 2)) (\<lambda>kind.
                  and_then (attributes_from bs (at + align4 n)) (\<lambda>rest.
                  Inr (\<lparr>at_kind = kind, at_value = take (n - 4) (drop (at + 4) bs)\<rparr> # rest)))) = Inr as"
    using assms attributes_from.simps [of bs at] by simp
  with assms(1) that show thesis
    by (auto simp: and_then_Inr u16_at_def slice_at_def Let_def split: if_splits)
qed

lemma oif_of_Cons:
  "oif_of (\<lparr>at_kind = t, at_value = v\<rparr> # as) = (if t = 4 \<and> 4 \<le> length v then Some (ne_word (take 4 v)) else oif_of as)"
  by (simp add: oif_of_def)

lemma route_oif_step:
  assumes "pos + 4 \<le> length msg" "read_u16_ne msg pos = Some len" "read_u16_ne msg (pos + 2) = Some t"
    "n = unat len" "4 \<le> n" "pos + n \<le> length msg"
  shows "route_oif_from msg pos =
    (if t = 4 \<and> 8 \<le> n then read_u32_ne msg (pos + 4) else route_oif_from msg (pos + align4 n))"
  by (subst route_oif_from.simps) (use assms in \<open>simp add: Let_def RTA_OIF_def aligns\<close>)

lemma route_oif_attributes:
  "attributes_from (drop k msg) at = Inr as \<Longrightarrow> k \<le> length msg \<Longrightarrow> route_oif_from msg (k + at) = oif_of as"
proof (induction "length msg - at" arbitrary: at as rule: less_induct)
  case less
  show ?case
  proof (cases "at < length (drop k msg)")
    case False
    then have "as = []" using less.prems(1) by (subst (asm) attributes_from.simps) simp
    moreover have "\<not> k + at + 4 \<le> length msg" using False less.prems(2) by simp
    ultimately show ?thesis by (subst route_oif_from.simps) (simp add: oif_of_def)
  next
    case True
    from True less.prems(1) obtain n rest where n: "n = unat (ne_word (take 2 (drop at (drop k msg))) :: u16)" "4 \<le> n"
      "at + align4 n \<le> length (drop k msg)" "n \<le> length (drop k msg) - at" "at + 4 \<le> length (drop k msg)"
      and rest: "attributes_from (drop k msg) (at + align4 n) = Inr rest"
      and as: "as = \<lparr>at_kind = ne_word (take 2 (drop (at + 2) (drop k msg))),
                     at_value = take (n - 4) (drop (at + 4) (drop k msg))\<rparr> # rest"
      by (rule attributes_from_step)
    have IH: "route_oif_from msg (k + (at + align4 n)) = oif_of rest"
      using less.hyps [OF _ rest less.prems(2)] n align4_ge [of n] by simp
    have r: "read_u16_ne msg (k + at) = Some (ne_word (take 2 (drop at (drop k msg))))"
      "read_u16_ne msg (k + at + 2) = Some (ne_word (take 2 (drop (at + 2) (drop k msg))))"
      "8 \<le> n \<Longrightarrow> read_u32_ne msg (k + at + 4) = Some (ne_word (take 4 (take (n - 4) (drop (at + 4) (drop k msg)))))"
      using n less.prems(2) by (auto simp: read_u16_ne_def read_u32_ne_def slice_at_def ac_simps min_def)
    have g: "k + at + 4 \<le> length msg" "\<not> (n < 4 \<or> length msg < k + at + n)" using n less.prems(2) by auto
    have l: "4 \<le> length (take (n - 4) (drop (at + 4) (drop k msg))) \<longleftrightarrow> 8 \<le> n" using n by auto
    have "route_oif_from msg (k + at) = (if ne_word (take 2 (drop (at + 2) (drop k msg))) = (4 :: u16) \<and> 8 \<le> n
        then read_u32_ne msg (k + at + 4) else route_oif_from msg (k + at + align4 n))"
      using g by (intro route_oif_step [OF _ r(1,2) n(1,2)]) auto
    then show ?thesis
      unfolding as oif_of_Cons l using r(3) IH by (simp only: add.assoc if_P if_False split: if_split) blast
  qed
qed

lemma route_attribute_output:
  "route_attribute len a f = Inr f' \<Longrightarrow>
   rf_output f' = (if at_kind a = 4 then Some (ne_word (at_value a)) else rf_output f)
   \<and> (at_kind a = 4 \<longrightarrow> length (at_value a) = 4 \<and> rf_output f = None)"
  by (auto simp: route_attribute_def Let_def and_then_Inr u32_at_def slice_at_def split: if_splits)

lemma route_attributes_output:
  "route_attributes len as f = Inr f' \<Longrightarrow> rf_output f' = (case rf_output f of Some i \<Rightarrow> Some i | None \<Rightarrow> oif_of as)"
proof (induction as arbitrary: f)
  case (Cons a as)
  then obtain f1 where f1: "route_attribute len a f = Inr f1" "route_attributes len as f1 = Inr f'"
    by (auto simp: and_then_Inr)
  from Cons.IH [OF f1(2)] route_attribute_output [OF f1(1)] show ?case
    by (auto simp: oif_of_def split: option.splits if_splits)
qed (simp add: oif_of_def split: option.splits)

lemma netlink_row_output:
  assumes "netlink_row body surface = Inr row"
  shows "12 \<le> length body \<and> (\<exists>as. attributes (drop 12 body) = Inr as \<and> or_output_index row = oif_of as)"
proof -
  from assms obtain as f where a: "12 \<le> length body" "attributes (drop 12 body) = Inr as"
    "route_attributes (address_bytes surface) as
       \<lparr>rf_destination = None, rf_source = None, rf_output = None, rf_table = None, rf_metric = None, rf_gateway = None\<rparr> = Inr f"
    "or_output_index row = rf_output f"
    by (auto simp: netlink_row_def Let_def and_then_Inr split: if_splits)
  with route_attributes_output [OF a(3)] show ?thesis by auto
qed

text \<open>A data message of a route dump that was not hidden carries no VPN output interface.\<close>

lemma kept_route_output:
  assumes r: "r \<in> set (fst (nl_records data))" "nl_type r = RTM_NEWROUTE" "\<not> hides_frame vi uid r"
    and row: "netlink_row (msg_body (message_of r)) surface = Inr row" and i: "or_output_index row = Some i"
  shows "i \<notin> set vi"
proof -
  obtain ys where "nl_frame ys = Some (length r)" "take (length r) ys = r" using nl.records_frames [OF r(1)] by blast
  with nl_frame_bounds [of ys "length r"] nl_header_take [of "length r" ys]
  have len: "16 \<le> length r" "nl_len r \<le> length r" by auto
  let ?msg = "take (nl_len r) r"
  obtain as where as: "12 \<le> length (msg_body (message_of r))" "attributes (drop 12 (msg_body (message_of r))) = Inr as"
    "oif_of as = Some i"
    using netlink_row_output [OF row] i by auto
  have body: "drop 12 (msg_body (message_of r)) = drop 28 ?msg"
    by (simp add: message_of_def drop_take add.commute)
  have n: "28 \<le> nl_len r" using as(1) len by (auto simp: message_of_def)
  then have "route_oif ?msg = Some i"
    using route_oif_attributes [of 28 ?msg 0 as] as(2,3) len
    by (simp add: attributes_def body route_oif_def NLMSG_HDRLEN_def RTMSG_HDRLEN_def)
  with r(2,3) n show ?thesis
    by (auto simp: hides_frame_def nl_hide_def NLMSG_HDRLEN_def RTMSG_HDRLEN_def RTM_NEWROUTE_def RTM_NEWLINK_def RTM_NEWADDR_def)
qed

lemma push_route_rows: "push_route row surface rows = (res, rows') \<Longrightarrow> set rows' \<subseteq> insert row (set rows)"
  by (auto simp: push_route_def split: if_splits)

text \<open>The invariant of the rows a probe collects from a filtered buffer.\<close>

definition vpn_free :: "u32 list \<Rightarrow> observed_route list \<Rightarrow> bool" where
  "vpn_free vi rows = (\<forall>row \<in> set rows. \<forall>i. or_output_index row = Some i \<longrightarrow> i \<notin> set vi)"

lemma route_sink_vpn_free:
  assumes "vpn_free vi rows" "body \<in> data_bodies (visible_dump data vi uid) RTM_NEWROUTE"
  shows "vpn_free vi (snd (route_sink surface body rows))"
proof (cases "netlink_row body surface")
  case (Inl e)
  with assms(1) show ?thesis by (simp add: route_sink_def)
next
  case (Inr row)
  obtain r where r: "r \<in> set (fst (nl_records data))" "nl_type r = RTM_NEWROUTE" "\<not> hides_frame vi uid r"
    "body = msg_body (message_of r)"
    using assms(2) by (auto simp: data_bodies_def records_visible)
  have "i \<notin> set vi" if "or_output_index row = Some i" for i
    by (rule kept_route_output [OF r(1-3) Inr [unfolded r(4)] that])
  then show ?thesis
    using assms(1) push_route_rows [OF prod.collapse [symmetric], of row surface rows]
    unfolding vpn_free_def route_sink_def Inr sum.case by blast
qed

lemma fold_route_sink:
  "set bodies \<subseteq> data_bodies (visible_dump data vi uid) RTM_NEWROUTE \<Longrightarrow> vpn_free vi rows \<Longrightarrow> rows_ok surface rows \<Longrightarrow>
   vpn_free vi (fold (\<lambda>b s. snd (route_sink surface b s)) bodies rows)
   \<and> rows_ok surface (fold (\<lambda>b s. snd (route_sink surface b s)) bodies rows)"
proof (induction bodies arbitrary: rows)
  case (Cons b bodies)
  have "vpn_free vi (snd (route_sink surface b rows))"
    using Cons.prems by (intro route_sink_vpn_free) auto
  moreover have "rows_ok surface (snd (route_sink surface b rows))"
    by (rule route_sink_ok [OF Cons.prems(3) prod.collapse [symmetric]])
  ultimately show ?case using Cons by simp
qed simp

text \<open>
  C1.  Hiding works end to end: a route probe that reads a filtered dump never observes a route
  whose output interface is one of the hidden indices, whatever bytes the kernel delivered and
  however the read ends; every row it does observe is valid for its surface and the row bound
  holds.
\<close>

theorem filtered_route_probe_sees_no_vpn:
  assumes "route_dump_consume (route_dump_new surface) (visible_dump data vpn_indices uid) = (res, d)"
  shows "(\<forall>row \<in> set (rd_rows d). \<forall>i \<in> set vpn_indices. or_output_index row \<noteq> Some i)
    \<and> length (rd_rows d) \<le> MAX_ROUTES \<and> list_all (\<lambda>r. route_valid r surface) (rd_rows d)"
proof -
  obtain wire rows where c: "consume (dump_new 1 24) (visible_dump data vpn_indices uid) (route_sink surface) [] = (res, wire, rows)"
    and d: "rd_rows d = rows"
    using assms by (auto simp: route_dump_consume_def route_dump_new_def Let_def split: prod.splits)
  from consume_fold [OF c] obtain bodies where b: "rows = fold (\<lambda>b s. snd (route_sink surface b s)) bodies []"
    "set bodies \<subseteq> data_bodies (visible_dump data vpn_indices uid) RTM_NEWROUTE"
    by (auto simp: dump_new_def RTM_NEWROUTE_def)
  have "vpn_free vpn_indices [] \<and> rows_ok surface []" by (simp add: vpn_free_def rows_ok_def)
  with fold_route_sink [OF b(2), of "[]" surface] b(1) d show ?thesis
    by (auto simp: vpn_free_def rows_ok_def)
qed

text \<open>One IPv4 default route over interface 7, then the end of the dump.\<close>

definition vpn_route_dump :: bytes where
  "vpn_route_dump = map char_of ([36, 0, 0, 0, 24, 0, 2, 0, 1, 0, 0, 0, 0, 0, 0, 0,
     2, 0, 0, 0, 254, 3, 0, 1, 0, 0, 0, 0, 8, 0, 4, 0, 7, 0, 0, 0,
     20, 0, 0, 0, 3, 0, 2, 0, 1, 0, 0, 0, 0, 0, 0, 0, 0, 0, 0, 0] :: nat list)"

theorem filtered_route_probe_sees_no_vpn_witness:
  "list_all (\<lambda>r. or_output_index r \<noteq> Some 7)
     (rd_rows (snd (route_dump_consume (route_dump_new NetlinkIpv4) (visible_dump vpn_route_dump [7] 10001))))"
  using filtered_route_probe_sees_no_vpn [OF prod.collapse [symmetric], of NetlinkIpv4 vpn_route_dump "[7]" 10001]
  by (simp add: list_all_iff)

text \<open>Unfiltered, the same probe reads that route; filtered, it reads an empty table to its end.\<close>

lemma vpn_route_dump_seen:
  "map or_output_index (rd_rows (snd (route_dump_consume (route_dump_new NetlinkIpv4) vpn_route_dump))) = [Some 7]"
  by code_simp

lemma vpn_route_dump_filtered:
  "let r = route_dump_consume (route_dump_new NetlinkIpv4) (visible_dump vpn_route_dump [7] 10001)
   in fst r = Inr True \<and> rd_rows (snd r) = []"
  by code_simp

end
