(* ===== verification/Kernel_Payloads.thy ===== *)
theory Kernel_Payloads
  imports Wire Ordered_Maps
begin

text \<open>
  Which kernel module payload a device may use.  The bundle manifest
  (\<^verbatim>\<open>crates/artifact-model/src/manifest.rs\<close>) and its validation; the passive KMI evidence of
  \<^verbatim>\<open>crates/core-daemon/src/payloads/kmi.rs\<close>: release strings, the quorum of live modules, and the
  candidates that remain; and the retained selection evidence record
  (\<^verbatim>\<open>crates/core-rpc/src/selection_evidence.rs\<close>).  Errors are the messages of the source.
\<close>

section \<open>The manifest\<close>

definition MANIFEST_VERSION :: u32 where
  "MANIFEST_VERSION = 1"

definition MAX_PAYLOAD_BYTES :: u64 where
  "MAX_PAYLOAD_BYTES = 128 * 1024 * 1024"

definition MAX_BUNDLE_BYTES :: u64 where
  "MAX_BUNDLE_BYTES = 256 * 1024 * 1024"

definition KMIS :: "string list" where
  "KMIS = [''android12-5.10'', ''android13-5.10'', ''android13-5.15'', ''android14-5.15'',
           ''android14-6.1'', ''android15-6.6'', ''android16-6.12'']"

datatype abi = Arm64 | Arm32

fun zygisk_library_name :: "abi \<Rightarrow> string" where
  "zygisk_library_name Arm64 = ''arm64-v8a.so''"
| "zygisk_library_name Arm32 = ''armeabi-v7a.so''"

datatype payload_kind = PkKmod string | PkKpm | PkZygisk abi

fun relative_path :: "payload_kind \<Rightarrow> string + string" where
  "relative_path (PkKmod kmi) =
     (if kmi \<in> set KMIS then Inr (''payloads/kmod/'' @ kmi @ ''/vpnhide_kmod.ko'')
      else Inl ''unsupported bundle KMI'')"
| "relative_path PkKpm = Inr ''payloads/kpm/arm64/vpnhide.kpm''"
| "relative_path (PkZygisk abi) = Inr (''payloads/zygisk/'' @ zygisk_library_name abi)"

record payload =
  pl_implementation :: payload_kind
  pl_version :: string
  pl_source_commit :: string
  pl_sha256 :: string
  pl_bytes :: u64
  pl_control_version :: u32
  pl_preflight_protocol :: "u32 option"
  pl_init_contract :: "u32 option"

record manifest =
  mf_schema :: u32
  mf_bundle_commit :: string
  mf_payloads :: "payload list"

definition lower_hex :: "string \<Rightarrow> nat \<Rightarrow> bool" where
  "lower_hex value len = (length value = len \<and> list_all (\<lambda>c. is_ascii_digit c \<or> byte_in c 97 102) value)"

fun is_kmod :: "payload_kind \<Rightarrow> bool" where
  "is_kmod (PkKmod _) = True"
| "is_kmod _ = False"

definition contract_refused :: "payload_kind \<Rightarrow> u32 option \<Rightarrow> bool" where
  "contract_refused kind p = (case p of None \<Rightarrow> False | Some n \<Rightarrow> n \<noteq> 1 \<or> \<not> is_kmod kind)"

definition payload_refused :: "payload \<Rightarrow> bool" where
  "payload_refused p =
     (pl_version p = [] \<or> 128 < length (pl_version p) \<or> any_control (pl_version p)
      \<or> \<not> lower_hex (pl_source_commit p) 40 \<or> \<not> lower_hex (pl_sha256 p) 64
      \<or> pl_control_version p \<noteq> CONTROL_VERSION
      \<or> pl_bytes p = 0 \<or> MAX_PAYLOAD_BYTES < pl_bytes p
      \<or> contract_refused (pl_implementation p) (pl_init_contract p)
      \<or> contract_refused (pl_implementation p) (pl_preflight_protocol p))"

fun validate_payloads :: "payload list \<Rightarrow> string list \<Rightarrow> u64 \<Rightarrow> string + u64" where
  "validate_payloads [] paths acc = Inr acc"
| "validate_payloads (p # ps) paths acc =
     and_then (relative_path (pl_implementation p)) (\<lambda>path.
       if path \<in> set paths then Inl ''duplicate payload identity''
       else if payload_refused p then Inl ''invalid payload metadata or control contract''
       else and_then (ok_or (checked_add acc (pl_bytes p)) ''size overflow'')
              (validate_payloads ps (bs_insert path paths)))"

definition manifest_validate :: "manifest \<Rightarrow> string + unit" where
  "manifest_validate m =
     (if mf_schema m \<noteq> MANIFEST_VERSION \<or> \<not> lower_hex (mf_bundle_commit m) 40
      then Inl ''invalid bundle schema or source identity''
      else if mf_payloads m = [] \<or> length KMIS + 3 < length (mf_payloads m)
      then Inl ''invalid payload count''
      else and_then (validate_payloads (mf_payloads m) [] 0) (\<lambda>bytes.
             if MAX_BUNDLE_BYTES < bytes then Inl ''bundle exceeds budget'' else Inr ()))"

definition require_complete :: "manifest \<Rightarrow> string + unit" where
  "require_complete m =
     and_then (manifest_validate m) (\<lambda>_.
       if length (mf_payloads m) \<noteq> length KMIS + 3 then Inl ''incomplete unified bundle'' else Inr ())"


section \<open>Release strings\<close>

record linux_series =
  ls_major :: u32
  ls_minor :: u32

definition parse_u32 :: "string \<Rightarrow> u32 option" where
  "parse_u32 s = map_option of_nat (from_str_radix 32 10 s)"

definition series :: "string \<Rightarrow> linux_series option" where
  "series release =
     (if 256 < length release \<or> list_ex is_ascii_control release then None
      else
        (let version = hd (split_on (\<lambda>c. c = CHR ''-'') release);
             parts = split_on (\<lambda>c. c = CHR ''.'') version
         in if length parts < 2 \<or> 3 < length parts
               \<or> list_ex (\<lambda>p. p = [] \<or> 5 < length p \<or> \<not> list_all is_ascii_digit p) parts
            then None
            else do {
              major \<leftarrow> parse_u32 (parts ! 0);
              minor \<leftarrow> parse_u32 (parts ! 1);
              Some \<lparr>ls_major = major, ls_minor = minor\<rparr>
            }))"

definition is_android_hint :: "string \<Rightarrow> bool" where
  "is_android_hint p =
     (case strip_prefix ''android'' p of None \<Rightarrow> False | Some n \<Rightarrow> n \<noteq> [] \<and> list_all is_ascii_digit n)"

definition release_hints :: "string \<Rightarrow> linux_series option \<times> string option \<times> bool" where
  "release_hints release =
     (let hints = filter is_android_hint (drop 1 (split_on (\<lambda>c. c = CHR ''-'') release));
          release_hint =
            (case (series release, hints) of
               (Some s, [hint]) \<Rightarrow> Some (hint @ ''-'' @ dec_str (unat (ls_major s)) @ ''.'' @ dec_str (unat (ls_minor s)))
             | _ \<Rightarrow> None)
      in (series release, release_hint, 1 < length hints))"


section \<open>Candidates\<close>

record kmi_candidate =
  kc_payload_index :: nat
  kc_kmi :: string
  kc_matches_release_hint :: bool

record kmi_resolution =
  kr_series :: "linux_series option"
  kr_release_hint :: "string option"
  kr_conflicting_hints :: bool
  kr_module_hint :: "string option"
  kr_candidates :: "kmi_candidate list"

definition candidate_of ::
    "linux_series option \<Rightarrow> string option \<Rightarrow> nat \<times> payload \<Rightarrow> kmi_candidate option" where
  "candidate_of ser release_hint ip =
     (case pl_implementation (snd ip) of
        PkKmod kmi \<Rightarrow>
          (case split_once (CHR ''-'') kmi of
             None \<Rightarrow> None
           | Some (_, version) \<Rightarrow>
               if ser \<noteq> None \<and> series version = ser
               then Some \<lparr>kc_payload_index = fst ip, kc_kmi = kmi,
                          kc_matches_release_hint = (release_hint = Some kmi)\<rparr>
               else None)
      | _ \<Rightarrow> None)"

definition resolve :: "manifest \<Rightarrow> string \<Rightarrow> string + kmi_resolution" where
  "resolve m release =
     and_then (manifest_validate m) (\<lambda>_.
       let (ser, release_hint, conflicting) = release_hints release;
           candidates = List.map_filter (candidate_of ser release_hint) (enumerate 0 (mf_payloads m))
       in Inr \<lparr>kr_series = ser, kr_release_hint = release_hint, kr_conflicting_hints = conflicting,
               kr_module_hint = None, kr_candidates = sort_key kc_kmi candidates\<rparr>)"

text \<open>A module is its name, the hash of its file, and its vermagic string.\<close>

type_synonym module_fact = "string \<times> string \<times> string"

record hint_scan =
  hs_hints :: "string list"
  hs_names :: "string list"
  hs_hashes :: "string list"
  hs_conflicting :: bool

definition dash_name :: "string \<Rightarrow> string" where
  "dash_name = map (\<lambda>c. if c = CHR ''-'' then CHR ''_'' else c)"

definition module_step :: "linux_series option \<Rightarrow> module_fact \<Rightarrow> hint_scan \<Rightarrow> hint_scan" where
  "module_step ser m s =
     (let (name, hash, vermagic) = m in
      case first_word vermagic of
        None \<Rightarrow> s
      | Some release \<Rightarrow>
          (let (module_series, hint, module_conflict) = release_hints release
           in if module_series \<noteq> ser \<or> module_conflict then s\<lparr>hs_conflicting := True\<rparr>
              else case hint of
                None \<Rightarrow> s
              | Some h \<Rightarrow> s\<lparr>hs_hints := bs_insert h (hs_hints s),
                            hs_names := bs_insert (dash_name name) (hs_names s),
                            hs_hashes := bs_insert hash (hs_hashes s)\<rparr>))"

definition module_hints :: "string \<Rightarrow> bool \<Rightarrow> module_fact list \<Rightarrow> string option \<times> bool" where
  "module_hints release whole modules =
     (let (ser, uname_hint, conflicting0) = release_hints release;
          s = fold (module_step ser) modules
                \<lparr>hs_hints = [], hs_names = [], hs_hashes = [], hs_conflicting = conflicting0\<rparr>;
          conflicting = (hs_conflicting s \<or> 1 < length (hs_hints s)
             \<or> list_ex (\<lambda>hint. case uname_hint of None \<Rightarrow> False | Some u \<Rightarrow> u \<noteq> hint) (hs_hints s));
          hint = (if \<not> conflicting \<and> whole \<and> 2 \<le> length (hs_names s) \<and> 2 \<le> length (hs_hashes s)
                  then (case hs_hints s of [] \<Rightarrow> None | h # _ \<Rightarrow> Some h) else None)
      in (hint, conflicting))"

record module_metadata =
  mm_name :: string
  mm_vermagic :: string
  mm_srcversion :: "string option"
  mm_build_id :: "u8 list option"

record bound_module =
  bm_source :: string
  bm_sha256 :: string
  bm_metadata :: module_metadata

record observation =
  ob_modules :: "bound_module list"
  ob_unbound_files :: nat
  ob_incomplete :: bool

definition bound_fact :: "bound_module \<Rightarrow> module_fact" where
  "bound_fact m = (mm_name (bm_metadata m), bm_sha256 m, mm_vermagic (bm_metadata m))"

definition resolve_with_modules :: "manifest \<Rightarrow> string \<Rightarrow> observation \<Rightarrow> string + kmi_resolution" where
  "resolve_with_modules m release observed =
     and_then (resolve m release) (\<lambda>result.
       let (hint, conflicting) = module_hints release (\<not> ob_incomplete observed) (map bound_fact (ob_modules observed));
           result = result\<lparr>kr_conflicting_hints := kr_conflicting_hints result \<or> conflicting\<rparr>
       in Inr (case hint of
                 None \<Rightarrow> result
               | Some h \<Rightarrow> result\<lparr>kr_candidates := filter (\<lambda>c. kc_kmi c = h) (kr_candidates result),
                                  kr_module_hint := Some h\<rparr>))"


section \<open>Retained evidence\<close>

definition MAX_NATIVE_MODULE_EVIDENCE :: nat where
  "MAX_NATIVE_MODULE_EVIDENCE = 32"

record native_module_evidence =
  me_source :: string
  me_sha256 :: string
  me_name :: string
  me_vermagic :: string
  me_srcversion :: "string option"
  me_build_id :: string

text \<open>\<^verbatim>\<open>NativeBackend\<close> of the Core RPC.\<close>

datatype native_backend = NbKmod | NbBuiltin | NbKpm | NbZygisk

datatype selection_decision =
    Candidate native_backend | ReconcileResident native_backend | BlockedOwnership | NoEligibleCandidate

record selection_evidence =
  se_boot_id :: string
  se_observed_at_boot_ms :: "u64 option"
  se_kernel_release :: string
  se_kernel_machine :: string
  se_core_abi :: string
  se_manifest_sha256 :: string
  se_manifest_file_sha256 :: string
  se_source_commit :: string
  se_candidate_kmis :: "string list"
  se_uname_hint :: "string option"
  se_module_hint :: "string option"
  se_conflicting_hints :: bool
  se_modules :: "native_module_evidence list"
  se_inventory_complete :: bool
  se_unbound_files :: u32
  se_decision :: selection_decision

definition bounded_text :: "string \<Rightarrow> nat \<Rightarrow> bool" where
  "bounded_text value limit = (length value \<le> limit \<and> \<not> list_ex is_ascii_control value)"

definition hex_bytes :: "string \<Rightarrow> nat \<Rightarrow> bool" where
  "hex_bytes value n = (length value = n * 2 \<and> list_all (\<lambda>c. is_ascii_digit c \<or> byte_in c 97 102) value)"

definition module_evidence_valid :: "native_module_evidence \<Rightarrow> bool" where
  "module_evidence_valid m =
     (bounded_text (me_source m) 640 \<and> hex_bytes (me_sha256 m) 32
      \<and> me_name m \<noteq> [] \<and> bounded_text (me_name m) 63 \<and> bounded_text (me_vermagic m) 1024
      \<and> (case me_srcversion m of None \<Rightarrow> True
         | Some v \<Rightarrow> v \<noteq> [] \<and> length v \<le> 64 \<and> list_all is_ascii_hexdigit v)
      \<and> 4 \<le> length (me_build_id m) div 2 \<and> length (me_build_id m) div 2 \<le> 64
      \<and> length (me_build_id m) mod 2 = 0
      \<and> list_all (\<lambda>c. is_ascii_digit c \<or> byte_in c 97 102) (me_build_id m))"

definition evidence_valid :: "selection_evidence \<Rightarrow> bool" where
  "evidence_valid e =
     (se_boot_id e \<noteq> [] \<and> bounded_text (se_boot_id e) 128
      \<and> bounded_text (se_kernel_release e) 256 \<and> bounded_text (se_kernel_machine e) 256
      \<and> se_core_abi e \<in> {''arm32'', ''arm64''}
      \<and> hex_bytes (se_manifest_sha256 e) 32 \<and> hex_bytes (se_manifest_file_sha256 e) 32
      \<and> hex_bytes (se_source_commit e) 20
      \<and> length (se_candidate_kmis e) \<le> 32 \<and> list_all (\<lambda>v. bounded_text v 64) (se_candidate_kmis e)
      \<and> list_all (\<lambda>v. case v of None \<Rightarrow> True | Some t \<Rightarrow> bounded_text t 64) [se_uname_hint e, se_module_hint e]
      \<and> length (se_modules e) \<le> MAX_NATIVE_MODULE_EVIDENCE
      \<and> list_all module_evidence_valid (se_modules e))"

definition evidence_fact :: "native_module_evidence \<Rightarrow> module_fact" where
  "evidence_fact m = (me_name m, me_sha256 m, me_vermagic m)"

definition corroborates_record :: "selection_evidence \<Rightarrow> bool" where
  "corroborates_record e =
     (let (hint, conflicting) = module_hints (se_kernel_release e) (se_inventory_complete e)
                                  (map evidence_fact (se_modules e))
      in \<not> conflicting \<and> hint \<noteq> None \<and> hint = se_module_hint e)"

definition supersedes_conflict :: "selection_evidence \<Rightarrow> selection_evidence \<Rightarrow> bool" where
  "supersedes_conflict current previous =
     (se_boot_id previous \<noteq> se_boot_id current \<or> \<not> se_conflicting_hints previous
      \<or> (\<not> se_conflicting_hints current \<and> corroborates_record current))"


section \<open>The quorum\<close>

text \<open>
  What one live module says: it contradicts the running kernel, or it votes for one KMI.
\<close>

definition contradicts :: "linux_series option \<Rightarrow> module_fact \<Rightarrow> bool" where
  "contradicts ser m =
     (\<exists>r. first_word (snd (snd m)) = Some r
          \<and> (fst (release_hints r) \<noteq> ser \<or> snd (snd (release_hints r))))"

definition votes :: "linux_series option \<Rightarrow> module_fact \<Rightarrow> string \<Rightarrow> bool" where
  "votes ser m h = (\<exists>r. first_word (snd (snd m)) = Some r \<and> release_hints r = (ser, Some h, False))"

lemma module_step_effect:
  "hs_conflicting (module_step ser m s) = (hs_conflicting s \<or> contradicts ser m)"
  "set (hs_hints (module_step ser m s)) = set (hs_hints s) \<union> {h. votes ser m h}"
  "set (hs_names (module_step ser m s)) = set (hs_names s) \<union> {dash_name (fst m) |h. votes ser m h}"
  "set (hs_hashes (module_step ser m s)) = set (hs_hashes s) \<union> {fst (snd m) |h. votes ser m h}"
  by (cases m; cases "first_word (snd (snd m))";
      auto simp: module_step_def contradicts_def votes_def Let_def split: prod.splits option.splits)+

definition scan_wf :: "hint_scan \<Rightarrow> bool" where
  "scan_wf s = (bs_wf (hs_hints s) \<and> bs_wf (hs_names s) \<and> bs_wf (hs_hashes s))"

lemma module_step_wf: "scan_wf s \<Longrightarrow> scan_wf (module_step ser m s)"
  by (cases m) (auto simp: scan_wf_def module_step_def Let_def split: prod.splits option.splits)

lemma module_scan_effect:
  "hs_conflicting (fold (module_step ser) ms s) = (hs_conflicting s \<or> (\<exists>m\<in>set ms. contradicts ser m))"
  "set (hs_hints (fold (module_step ser) ms s)) = set (hs_hints s) \<union> {h. \<exists>m\<in>set ms. votes ser m h}"
  "set (hs_names (fold (module_step ser) ms s)) =
     set (hs_names s) \<union> {n. \<exists>m\<in>set ms. \<exists>h. votes ser m h \<and> n = dash_name (fst m)}"
  "set (hs_hashes (fold (module_step ser) ms s)) =
     set (hs_hashes s) \<union> {n. \<exists>m\<in>set ms. \<exists>h. votes ser m h \<and> n = fst (snd m)}"
  by (induction ms arbitrary: s) (auto simp: module_step_effect)

lemma module_scan_wf: "scan_wf s \<Longrightarrow> scan_wf (fold (module_step ser) ms s)"
  by (induction ms arbitrary: s) (simp_all add: module_step_wf)

lemma bs_two: "bs_wf s \<Longrightarrow> 2 \<le> length s \<longleftrightarrow> (\<exists>x\<in>set s. \<exists>y\<in>set s. x \<noteq> y)"
proof -
  assume "bs_wf s"
  then have d: "distinct s" by (simp add: bs_wf_iff)
  show ?thesis
  proof
    assume "2 \<le> length s"
    then have "0 < length s" "1 < length s" by linarith+
    moreover from this d have "s ! 0 \<noteq> s ! 1" by (simp only: nth_eq_iff_index_eq)
    ultimately show "\<exists>x\<in>set s. \<exists>y\<in>set s. x \<noteq> y" using nth_mem by blast
  next
    assume "\<exists>x\<in>set s. \<exists>y\<in>set s. x \<noteq> y"
    then obtain x y where "x \<in> set s" "y \<in> set s" "x \<noteq> y" by blast
    then show "2 \<le> length s" by (cases s; cases "tl s") auto
  qed
qed

definition uname_of :: "string \<Rightarrow> string option" where
  "uname_of release = fst (snd (release_hints release))"

definition voters :: "string \<Rightarrow> module_fact list \<Rightarrow> (module_fact \<times> string) set" where
  "voters release ms = {(m, h). m \<in> set ms \<and> votes (series release) m h}"

lemma release_hints_series: "fst (release_hints release) = series release"
  by (simp add: release_hints_def Let_def)

text \<open>
  The module quorum, exactly.  The evidence conflicts iff the running release itself names two
  Android branches, or some live module contradicts the kernel series, or two modules vote for
  different KMIs, or one votes against the release's own hint.  A KMI is named iff nothing
  conflicts, the inventory was complete, and it got votes from at least two names and two files.
\<close>

theorem module_hints_exact:
  "snd (module_hints release whole ms) =
     (snd (snd (release_hints release))
      \<or> (\<exists>m\<in>set ms. contradicts (series release) m)
      \<or> (\<exists>(m, h)\<in>voters release ms. \<exists>(m', h')\<in>voters release ms. h \<noteq> h')
      \<or> (\<exists>(m, h)\<in>voters release ms. \<exists>u. uname_of release = Some u \<and> u \<noteq> h))
   \<and> (fst (module_hints release whole ms) = Some kmi) =
     (\<not> snd (module_hints release whole ms) \<and> whole
      \<and> (\<exists>(m, h)\<in>voters release ms. h = kmi)
      \<and> (\<exists>(m, h)\<in>voters release ms. \<exists>(m', h')\<in>voters release ms. dash_name (fst m) \<noteq> dash_name (fst m'))
      \<and> (\<exists>(m, h)\<in>voters release ms. \<exists>(m', h')\<in>voters release ms. fst (snd m) \<noteq> fst (snd m')))"
proof -
  obtain ser u c0 where rh: "release_hints release = (ser, u, c0)" by (metis prod_cases3)
  have ser: "ser = series release" using release_hints_series [of release] rh by simp
  define s where "s = fold (module_step ser) ms
    \<lparr>hs_hints = [], hs_names = [], hs_hashes = [], hs_conflicting = c0\<rparr>"
  have wf: "bs_wf (hs_hints s)" "bs_wf (hs_names s)" "bs_wf (hs_hashes s)"
    using module_scan_wf [of "\<lparr>hs_hints = [], hs_names = [], hs_hashes = [], hs_conflicting = c0\<rparr>" ser ms]
    by (simp_all add: s_def scan_wf_def bs_wf_def)
  note eff = module_scan_effect [of ser ms "\<lparr>hs_hints = [], hs_names = [], hs_hashes = [], hs_conflicting = c0\<rparr>",
      folded s_def, simplified]
  have hints: "set (hs_hints s) = snd ` voters release ms"
    and names: "set (hs_names s) = (\<lambda>(m, h). dash_name (fst m)) ` voters release ms"
    and hashes: "set (hs_hashes s) = (\<lambda>(m, h). fst (snd m)) ` voters release ms"
    by (force simp: eff voters_def ser)+
  have two: "1 < length (hs_hints s) \<longleftrightarrow> (\<exists>(m, h)\<in>voters release ms. \<exists>(m', h')\<in>voters release ms. h \<noteq> h')"
    using bs_two [OF wf(1)] unfolding hints by (simp add: split_def Suc_le_eq numeral_2_eq_2)
  have conf: "snd (module_hints release whole ms) \<longleftrightarrow>
     c0 \<or> (\<exists>m\<in>set ms. contradicts ser m) \<or> 1 < length (hs_hints s)
      \<or> (\<exists>h\<in>set (hs_hints s). \<exists>w. u = Some w \<and> w \<noteq> h)"
    by (auto simp: module_hints_def rh Let_def s_def [symmetric] eff(1) list_ex_iff split: option.splits)
  have c1: "snd (module_hints release whole ms) \<longleftrightarrow> snd (snd (release_hints release))
      \<or> (\<exists>m\<in>set ms. contradicts (series release) m)
      \<or> (\<exists>(m, h)\<in>voters release ms. \<exists>(m', h')\<in>voters release ms. h \<noteq> h')
      \<or> (\<exists>(m, h)\<in>voters release ms. \<exists>u. uname_of release = Some u \<and> u \<noteq> h)"
    unfolding conf two hints by (auto simp: rh ser uname_of_def split_def)
  have "fst (module_hints release whole ms) = Some kmi \<longleftrightarrow>
      \<not> snd (module_hints release whole ms) \<and> whole \<and> 2 \<le> length (hs_names s) \<and> 2 \<le> length (hs_hashes s)
      \<and> (\<exists>hs. hs_hints s = kmi # hs)"
    by (auto simp: module_hints_def rh Let_def s_def [symmetric] split: list.splits)
  moreover have "(\<exists>hs. hs_hints s = kmi # hs) \<longleftrightarrow> kmi \<in> set (hs_hints s)"
    if "\<not> snd (module_hints release whole ms)"
  proof -
    have "length (hs_hints s) \<le> 1" using that conf by auto
    then show ?thesis by (cases "hs_hints s") auto
  qed
  ultimately have "fst (module_hints release whole ms) = Some kmi \<longleftrightarrow>
      \<not> snd (module_hints release whole ms) \<and> whole \<and> kmi \<in> set (hs_hints s)
      \<and> 2 \<le> length (hs_names s) \<and> 2 \<le> length (hs_hashes s)" by blast
  also have "kmi \<in> set (hs_hints s) \<longleftrightarrow> (\<exists>(m, h)\<in>voters release ms. h = kmi)"
    unfolding hints by (force simp: split_def)
  also have "2 \<le> length (hs_names s) \<longleftrightarrow>
      (\<exists>(m, h)\<in>voters release ms. \<exists>(m', h')\<in>voters release ms. dash_name (fst m) \<noteq> dash_name (fst m'))"
    unfolding bs_two [OF wf(2)] names by (simp add: split_def)
  also have "2 \<le> length (hs_hashes s) \<longleftrightarrow>
      (\<exists>(m, h)\<in>voters release ms. \<exists>(m', h')\<in>voters release ms. fst (snd m) \<noteq> fst (snd m'))"
    unfolding bs_two [OF wf(3)] hashes by (simp add: split_def)
  finally show ?thesis using c1 by blast
qed


section \<open>What a validated manifest guarantees\<close>

definition closed_identities :: "payload_kind set" where
  "closed_identities = PkKmod ` set KMIS \<union> {PkKpm, PkZygisk Arm64, PkZygisk Arm32}"

lemma relative_path_closed: "relative_path k = Inr path \<Longrightarrow> k \<in> closed_identities"
  by (cases k; auto simp: closed_identities_def split: if_splits) (metis abi.exhaust)

lemma finite_closed_identities: "finite closed_identities"
  by (simp add: closed_identities_def)

lemma card_closed_identities: "card closed_identities = length KMIS + 3"
proof -
  let ?ids = "map PkKmod KMIS @ [PkKpm, PkZygisk Arm64, PkZygisk Arm32]"
  have "card (set ?ids) = length ?ids" by (rule distinct_card) (simp add: KMIS_def)
  moreover have "closed_identities = set ?ids" by (auto simp: closed_identities_def)
  ultimately show ?thesis by simp
qed

lemma validate_payloads_Inr:
  assumes "validate_payloads ps paths acc = Inr bytes"
  shows "(\<forall>p\<in>set ps. \<not> payload_refused p \<and> (\<exists>path. relative_path (pl_implementation p) = Inr path \<and> path \<notin> set paths))
       \<and> distinct (map pl_implementation ps)
       \<and> unat bytes = unat acc + (\<Sum>p\<leftarrow>ps. unat (pl_bytes p))"
  using assms
proof (induction ps arbitrary: paths acc)
  case Nil
  then show ?case by simp
next
  case (Cons p ps)
  from Cons.prems obtain path acc' where p: "relative_path (pl_implementation p) = Inr path" "path \<notin> set paths"
      "\<not> payload_refused p" "checked_add acc (pl_bytes p) = Some acc'"
      "validate_payloads ps (bs_insert path paths) acc' = Inr bytes"
    by (auto simp: and_then_Inr ok_or_eq_Inr split: if_splits)
  have "unat acc' = unat acc + unat (pl_bytes p)" using p(4) by (rule unat_checked_add)
  with p Cons.IH [OF p(5)] show ?case by auto
qed

lemma manifest_validate_Inr:
  assumes "manifest_validate m = Inr ()"
  shows "list_all (\<lambda>p. \<not> payload_refused p) (mf_payloads m)"
    "pl_implementation ` set (mf_payloads m) \<subseteq> closed_identities"
    "distinct (map pl_implementation (mf_payloads m))"
    "(\<Sum>p\<leftarrow>mf_payloads m. unat (pl_bytes p)) \<le> unat MAX_BUNDLE_BYTES"
proof -
  from assms obtain bytes where v: "validate_payloads (mf_payloads m) [] 0 = Inr bytes" "\<not> MAX_BUNDLE_BYTES < bytes"
    by (auto simp: manifest_validate_def and_then_Inr split: if_splits)
  note f = validate_payloads_Inr [OF v(1)]
  show "list_all (\<lambda>p. \<not> payload_refused p) (mf_payloads m)" using f by (simp add: list_all_iff)
  show "pl_implementation ` set (mf_payloads m) \<subseteq> closed_identities" using f relative_path_closed by blast
  show "distinct (map pl_implementation (mf_payloads m))" using f by simp
  show "(\<Sum>p\<leftarrow>mf_payloads m. unat (pl_bytes p)) \<le> unat MAX_BUNDLE_BYTES"
    using f v(2) by (simp add: not_less word_le_nat_alt)
qed

definition sample_payload :: "payload_kind \<Rightarrow> payload" where
  "sample_payload k =
     \<lparr>pl_implementation = k, pl_version = ''1.0'', pl_source_commit = replicate 40 (CHR ''a''),
      pl_sha256 = replicate 64 (CHR ''b''), pl_bytes = 1, pl_control_version = 2,
      pl_preflight_protocol = None, pl_init_contract = None\<rparr>"

definition sample_manifest :: manifest where
  "sample_manifest =
     \<lparr>mf_schema = 1, mf_bundle_commit = replicate 40 (CHR ''c''),
      mf_payloads = map sample_payload (map PkKmod KMIS @ [PkKpm, PkZygisk Arm64, PkZygisk Arm32])\<rparr>"

text \<open>
  Uniqueness and the closed identity set establish completeness: a manifest accepted as
  complete carries every supported KMI, the KPM and both Zygisk libraries, each exactly once, with
  no refused metadata, within the bundle budget (the checked total never wraps).
\<close>

theorem complete_manifest_closed:
  assumes "require_complete m = Inr ()"
  shows "pl_implementation ` set (mf_payloads m) = closed_identities
       \<and> distinct (map pl_implementation (mf_payloads m))
       \<and> list_all (\<lambda>p. \<not> payload_refused p) (mf_payloads m)
       \<and> (\<Sum>p\<leftarrow>mf_payloads m. unat (pl_bytes p)) \<le> 256 * 1024 * 1024"
proof -
  from assms have v: "manifest_validate m = Inr ()" and len: "length (mf_payloads m) = length KMIS + 3"
    by (auto simp: require_complete_def and_then_Inr split: if_splits)
  note f = manifest_validate_Inr [OF v]
  have "card (pl_implementation ` set (mf_payloads m)) = length KMIS + 3"
    using distinct_card [OF f(3)] len by simp
  with f(2) have "pl_implementation ` set (mf_payloads m) = closed_identities"
    by (intro card_subset_eq) (simp_all add: card_closed_identities finite_closed_identities)
  with f show ?thesis by (simp add: MAX_BUNDLE_BYTES_def)
qed

theorem complete_manifest_closed_witness:
  "require_complete sample_manifest = Inr ()
   \<and> pl_implementation ` set (mf_payloads sample_manifest) = closed_identities"
proof -
  have c: "require_complete sample_manifest = Inr ()" by code_simp
  with complete_manifest_closed [OF c] show ?thesis by simp
qed


section \<open>What a resolution offers\<close>

lemma candidate_ofD:
  assumes "candidate_of ser rh (i, p) = Some c"
  shows "kc_payload_index c = i" "pl_implementation p = PkKmod (kc_kmi c)"
    "\<exists>branch version. split_once (CHR ''-'') (kc_kmi c) = Some (branch, version) \<and> series version = ser" "ser \<noteq> None"
    "kc_matches_release_hint c = (rh = Some (kc_kmi c))"
  using assms by (auto simp: candidate_of_def split: payload_kind.splits option.splits prod.splits if_splits)

lemma set_map_filter_enumerate:
  "c \<in> set (List.map_filter f (enumerate 0 ps)) \<Longrightarrow> \<exists>i < length ps. f (i, ps ! i) = Some c"
  by (auto simp: set_map_filter_eq in_set_enumerate_eq)

lemma distinct_candidates:
  assumes "distinct (map pl_implementation ps)"
  shows "distinct (map kc_kmi (List.map_filter (candidate_of ser rh) (enumerate n ps)))"
  using assms
proof (induction ps arbitrary: n)
  case Nil
  then show ?case by (simp add: List.map_filter_simps)
next
  case (Cons p ps)
  have "kc_kmi c \<noteq> kc_kmi d"
    if "candidate_of ser rh (n, p) = Some c" "d \<in> set (List.map_filter (candidate_of ser rh) (enumerate (Suc n) ps))" for c d
  proof -
    from that(2) obtain i q where q: "q \<in> set ps" "candidate_of ser rh (i, q) = Some d"
      by (auto simp: set_map_filter_eq enumerate_eq_zip dest!: set_zip_rightD)
    show ?thesis using candidate_ofD(2) [OF that(1)] candidate_ofD(2) [OF q(2)] q(1) Cons.prems by (auto simp: rev_image_eqI)
  qed
  with Cons show ?case by (fastforce simp: List.map_filter_simps split: option.splits)
qed

lemma resolve_candidates:
  assumes "resolve m release = Inr r"
  shows "distinct (map kc_kmi (kr_candidates r))"
    "c \<in> set (kr_candidates r) \<Longrightarrow>
       kc_payload_index c < length (mf_payloads m)
       \<and> candidate_of (series release) (uname_of release) (kc_payload_index c, mf_payloads m ! kc_payload_index c) = Some c"
    "kr_module_hint r = None" "kr_conflicting_hints r = snd (snd (release_hints release))"
    "distinct (map pl_implementation (mf_payloads m))"
    "pl_implementation ` set (mf_payloads m) \<subseteq> closed_identities"
proof -
  obtain ser u c0 where rh: "release_hints release = (ser, u, c0)" by (metis prod_cases3)
  have ser: "ser = series release" "u = uname_of release"
    using release_hints_series [of release] rh by (simp_all add: uname_of_def)
  from assms have v: "manifest_validate m = Inr ()"
    and r: "r = \<lparr>kr_series = ser, kr_release_hint = u, kr_conflicting_hints = c0, kr_module_hint = None,
        kr_candidates = sort_key kc_kmi (List.map_filter (candidate_of ser u) (enumerate 0 (mf_payloads m)))\<rparr>"
    by (auto simp: resolve_def and_then_Inr rh)
  note f = manifest_validate_Inr [OF v]
  show "distinct (map pl_implementation (mf_payloads m))" "pl_implementation ` set (mf_payloads m) \<subseteq> closed_identities"
    by (rule f)+
  show "distinct (map kc_kmi (kr_candidates r))"
    using distinct_candidates [OF f(3), of ser u 0] by (simp add: r distinct_map)
  show "kc_payload_index c < length (mf_payloads m)
       \<and> candidate_of (series release) (uname_of release) (kc_payload_index c, mf_payloads m ! kc_payload_index c) = Some c"
    if "c \<in> set (kr_candidates r)"
  proof -
    from that obtain i where i: "i < length (mf_payloads m)" "candidate_of ser u (i, mf_payloads m ! i) = Some c"
      using set_map_filter_enumerate [of c "candidate_of ser u" "mf_payloads m"] by (auto simp: r)
    with candidate_ofD(1) [OF i(2)] show ?thesis by (simp add: ser)
  qed
  show "kr_module_hint r = None" "kr_conflicting_hints r = snd (snd (release_hints release))"
    by (simp_all add: r rh)
qed

lemma filter_single:
  "distinct (map f xs) \<Longrightarrow> c \<in> set xs \<Longrightarrow> filter (\<lambda>x. f x = f c) xs = [c]"
  by (induction xs) (auto simp: filter_empty_conv rev_image_eqI)

text \<open>
  A resolution only offers what the manifest holds.  Every candidate points at a kernel module
  payload of the validated manifest, of a supported KMI of the running kernel's series; no KMI is
  offered twice; and once live modules name a KMI, nothing conflicts and that KMI is the only one
  left.
\<close>

theorem kernel_candidates_sound:
  assumes "resolve_with_modules m release observed = Inr r" "c \<in> set (kr_candidates r)"
  shows "kc_payload_index c < length (mf_payloads m)
       \<and> pl_implementation (mf_payloads m ! kc_payload_index c) = PkKmod (kc_kmi c)
       \<and> kc_kmi c \<in> set KMIS
       \<and> (\<exists>branch version. split_once (CHR ''-'') (kc_kmi c) = Some (branch, version)
            \<and> series version = series release \<and> series release \<noteq> None)
       \<and> distinct (map kc_kmi (kr_candidates r))
       \<and> (kr_module_hint r = None
          \<or> kr_module_hint r = Some (kc_kmi c) \<and> kr_candidates r = [c] \<and> \<not> kr_conflicting_hints r)"
proof -
  obtain hint cf where mh: "module_hints release (\<not> ob_incomplete observed) (map bound_fact (ob_modules observed)) = (hint, cf)"
    by (metis prod.exhaust)
  obtain r0 where r0: "resolve m release = Inr r0"
    and r: "r = (case hint of None \<Rightarrow> r0\<lparr>kr_conflicting_hints := kr_conflicting_hints r0 \<or> cf\<rparr>
      | Some h \<Rightarrow> r0\<lparr>kr_conflicting_hints := kr_conflicting_hints r0 \<or> cf,
          kr_candidates := filter (\<lambda>c. kc_kmi c = h) (kr_candidates r0), kr_module_hint := Some h\<rparr>)"
    using assms(1) by (auto simp: resolve_with_modules_def and_then_Inr mh Let_def cong: option.case_cong)
  note f = resolve_candidates [OF r0]
  have c0: "c \<in> set (kr_candidates r0)" using assms(2) by (auto simp: r split: option.splits)
  note c = f(2) [OF c0]
  note d = candidate_ofD [OF conjunct2 [OF c]]
  have "PkKmod (kc_kmi c) \<in> closed_identities" using f(6) d(2) c by (metis image_subset_iff nth_mem)
  then have kmi: "kc_kmi c \<in> set KMIS" by (auto simp: closed_identities_def)
  have named: "kr_module_hint r = Some (kc_kmi c) \<and> kr_candidates r = [c] \<and> \<not> kr_conflicting_hints r"
    if h: "hint = Some h" for h
  proof -
    have "\<not> cf" using mh h by (auto simp: module_hints_def Let_def split_def split: if_splits)
    moreover have "\<not> snd (snd (release_hints release))"
      using mh \<open>\<not> cf\<close> by (auto simp: module_hints_def Let_def split_def module_scan_effect)
    moreover have "kc_kmi c = h" using assms(2) h by (auto simp: r)
    ultimately show ?thesis using h c0 f(1,4) filter_single [of kc_kmi "kr_candidates r0" c] by (simp add: r)
  qed
  have "distinct (map kc_kmi (kr_candidates r))"
    using f(1) by (auto simp: r distinct_map_filter split: option.splits)
  moreover have "kr_module_hint r = None" if "hint = None" using that f(3) by (simp add: r)
  ultimately show ?thesis using c d kmi named by (cases hint) blast+
qed

definition sample_module :: "string \<Rightarrow> string \<Rightarrow> bound_module" where
  "sample_module name sha =
     \<lparr>bm_source = ''/vendor/'' @ name, bm_sha256 = sha,
      bm_metadata = \<lparr>mm_name = name, mm_vermagic = ''5.10.101-android13-4-g0 SMP'', mm_srcversion = None,
                     mm_build_id = None\<rparr>\<rparr>"

definition small_manifest :: manifest where
  "small_manifest =
     \<lparr>mf_schema = 1, mf_bundle_commit = replicate 40 (CHR ''c''),
      mf_payloads = map (\<lambda>k. sample_payload (PkKmod k)) [''android12-5.10'', ''android13-5.10'']\<rparr>"

text \<open>A 5.10 kernel without an Android hint: two modules single out one of its two KMIs.\<close>

theorem kernel_candidates_sound_witness:
  "resolve_with_modules small_manifest ''5.10.101''
     \<lparr>ob_modules = [sample_module ''a'' ''1'', sample_module ''b'' ''2''], ob_unbound_files = 0, ob_incomplete = False\<rparr>
   = Inr \<lparr>kr_series = Some \<lparr>ls_major = 5, ls_minor = 10\<rparr>, kr_release_hint = None, kr_conflicting_hints = False,
          kr_module_hint = Some ''android13-5.10'',
          kr_candidates = [\<lparr>kc_payload_index = 1, kc_kmi = ''android13-5.10'', kc_matches_release_hint = False\<rparr>]\<rparr>
   \<and> pl_implementation (mf_payloads small_manifest ! 1) = PkKmod ''android13-5.10''"
proof -
  have r: "resolve_with_modules small_manifest ''5.10.101''
     \<lparr>ob_modules = [sample_module ''a'' ''1'', sample_module ''b'' ''2''], ob_unbound_files = 0, ob_incomplete = False\<rparr>
   = Inr \<lparr>kr_series = Some \<lparr>ls_major = 5, ls_minor = 10\<rparr>, kr_release_hint = None, kr_conflicting_hints = False,
          kr_module_hint = Some ''android13-5.10'',
          kr_candidates = [\<lparr>kc_payload_index = 1, kc_kmi = ''android13-5.10'', kc_matches_release_hint = False\<rparr>]\<rparr>"
    by code_simp
  from kernel_candidates_sound [OF r, of "\<lparr>kc_payload_index = 1, kc_kmi = ''android13-5.10'', kc_matches_release_hint = False\<rparr>"] r
  show ?thesis by simp
qed

end
