(* ===== verification/Migration_Policy.thy ===== *)
theory Migration_Policy
  imports Canonical_Config
begin

text \<open>
  Migration from 0.x (\<^verbatim>\<open>crates/migration-policy/src/lib.rs\<close>): interpreting the seven legacy list files
  and merging what they select into a canonical configuration.
\<close>

section \<open>Definitions\<close>

definition USER_RANGE :: u32 where
  "USER_RANGE = 100000"

datatype source_role = SrcKmod | SrcKpm | SrcZygisk | SrcJava | SrcPorts | SrcHidden | SrcObserverUids

text \<open>The declaration order, which a \<^verbatim>\<open>BTreeMap\<close> keyed by roles iterates in.\<close>

fun role_index :: "source_role \<Rightarrow> nat" where
  "role_index SrcKmod = 0"
| "role_index SrcKpm = 1"
| "role_index SrcZygisk = 2"
| "role_index SrcJava = 3"
| "role_index SrcPorts = 4"
| "role_index SrcHidden = 5"
| "role_index SrcObserverUids = 6"

lemma role_index_inj: "role_index a = role_index b \<longleftrightarrow> a = b"
  by (cases a; cases b) simp_all

instantiation source_role :: linorder
begin

definition less_eq_source_role :: "source_role \<Rightarrow> source_role \<Rightarrow> bool" where
  "less_eq_source_role a b = (role_index a \<le> role_index b)"

definition less_source_role :: "source_role \<Rightarrow> source_role \<Rightarrow> bool" where
  "less_source_role a b = (role_index a < role_index b)"

instance
  by standard (auto simp: less_eq_source_role_def less_source_role_def role_index_inj)

end

definition all_roles :: "source_role list" where
  "all_roles = [SrcKmod, SrcKpm, SrcZygisk, SrcJava, SrcPorts, SrcHidden, SrcObserverUids]"

fun source_path :: "source_role \<Rightarrow> string" where
  "source_path SrcKmod = ''data/adb/vpnhide_kmod/targets.txt''"
| "source_path SrcKpm = ''data/adb/vpnhide_kpm/targets.txt''"
| "source_path SrcZygisk = ''data/adb/vpnhide_zygisk/targets.txt''"
| "source_path SrcJava = ''data/adb/vpnhide_lsposed/targets.txt''"
| "source_path SrcPorts = ''data/adb/vpnhide_ports/observers.txt''"
| "source_path SrcHidden = ''data/system/vpnhide_hidden_pkgs.txt''"
| "source_path SrcObserverUids = ''data/system/vpnhide_observer_uids.txt''"

fun source_section :: "source_role \<Rightarrow> string" where
  "source_section SrcKmod = ''legacy_kmod_targets''"
| "source_section SrcKpm = ''legacy_kpm_targets''"
| "source_section SrcZygisk = ''legacy_zygisk_targets''"
| "source_section SrcJava = ''legacy_lsposed_targets''"
| "source_section SrcPorts = ''legacy_ports_observers''"
| "source_section SrcHidden = ''legacy_hidden_pkgs''"
| "source_section SrcObserverUids = ''legacy_observer_uids''"

record legacy_roles =
  lr_java :: bool
  lr_native :: bool
  lr_app_hiding :: bool
  lr_ports :: bool
  lr_hidden :: bool

definition no_roles :: legacy_roles where
  "no_roles = \<lparr>lr_java = False, lr_native = False, lr_app_hiding = False, lr_ports = False, lr_hidden = False\<rparr>"

record legacy_candidate =
  lc_roles :: "(string, legacy_roles) bmap"
  lc_unresolved_observer_uids :: "u32 list"
  lc_invalid_lines :: u32
  lc_complete :: bool

definition fully_interpreted :: "legacy_candidate \<Rightarrow> bool" where
  "fully_interpreted c = (lc_complete c \<and> lc_invalid_lines c = 0 \<and> lc_unresolved_observer_uids c = [])"

definition role_covered :: "legacy_roles \<Rightarrow> app_config \<Rightarrow> bool" where
  "role_covered role a =
     ((\<not> lr_java role \<or> ac_java a) \<and> (\<not> lr_native role \<or> nr_enabled (ac_native a))
      \<and> (\<not> lr_app_hiding role \<or> ac_app_hiding a) \<and> (\<not> lr_ports role \<or> ac_ports a)
      \<and> (\<not> lr_hidden role \<or> ac_hidden a))"

definition covered_by :: "legacy_candidate \<Rightarrow> canonical_config \<Rightarrow> bool" where
  "covered_by c config =
     (fully_interpreted c
      \<and> list_all (\<lambda>(pkg, role). case bt_get (cc_apps config) pkg of None \<Rightarrow> False | Some a \<Rightarrow> role_covered role a)
          (lc_roles c))"

datatype import_mode = ModeMerge | ModeReplace | ModeBootstrap

definition valid_package :: "string \<Rightarrow> bool" where
  "valid_package pkg =
     ((case pkg of c # _ \<Rightarrow> is_ascii_alpha c | [] \<Rightarrow> False) \<and> CHR ''.'' \<in> set pkg
      \<and> list_all (\<lambda>part. part \<noteq> [] \<and> list_all (\<lambda>b. is_ascii_alnum b \<or> b = CHR ''_'') part)
          (split_on (\<lambda>c. c = CHR ''.'') pkg))"

definition legacy_lines :: "string \<Rightarrow> string list" where
  "legacy_lines raw =
     filter (\<lambda>line. line \<noteq> [] \<and> (case line of c # _ \<Rightarrow> c \<noteq> CHR ''#'' | [] \<Rightarrow> True)) (map trim (str_lines raw))"

definition saturating_inc :: "u32 \<Rightarrow> u32" where
  "saturating_inc v = (if v = - 1 then v else v + 1)"

fun mark_role :: "source_role \<Rightarrow> legacy_roles \<Rightarrow> legacy_roles" where
  "mark_role SrcKmod r = r\<lparr>lr_native := True\<rparr>"
| "mark_role SrcKpm r = r\<lparr>lr_native := True\<rparr>"
| "mark_role SrcZygisk r = r\<lparr>lr_native := True\<rparr>"
| "mark_role SrcJava r = r\<lparr>lr_java := True\<rparr>"
| "mark_role SrcPorts r = r\<lparr>lr_ports := True\<rparr>"
| "mark_role SrcHidden r = r\<lparr>lr_hidden := True\<rparr>"
| "mark_role SrcObserverUids r = r"

text \<open>The state of the first pass: the candidate and the observer uids read so far.\<close>

definition parse_line :: "source_role \<Rightarrow> string \<Rightarrow> legacy_candidate \<times> u32 list \<Rightarrow> legacy_candidate \<times> u32 list" where
  "parse_line role line st =
     (let (c, uids) = st
      in if role = SrcObserverUids then
           (case map_option of_nat (from_str_radix 32 10 line) of
              Some uid \<Rightarrow>
                if uid \<noteq> (- 1 :: u32) then (c, bs_insert uid uids)
                else (c\<lparr>lc_invalid_lines := saturating_inc (lc_invalid_lines c)\<rparr>, uids)
            | None \<Rightarrow> (c\<lparr>lc_invalid_lines := saturating_inc (lc_invalid_lines c)\<rparr>, uids))
         else if \<not> valid_package line then (c\<lparr>lc_invalid_lines := saturating_inc (lc_invalid_lines c)\<rparr>, uids)
         else (c\<lparr>lc_roles := bt_update line no_roles (mark_role role) (lc_roles c)\<rparr>, uids))"

definition parse_source :: "source_role \<times> string \<Rightarrow> legacy_candidate \<times> u32 list \<Rightarrow> legacy_candidate \<times> u32 list" where
  "parse_source = (\<lambda>(role, raw). fold (parse_line role) (legacy_lines raw))"

definition match_uid :: "(string, u32 list) bmap \<Rightarrow> u32 \<Rightarrow> string list" where
  "match_uid packages uid =
     (let exact = map fst (filter (\<lambda>(_, uids). uid \<in> set uids) packages)
      in if exact = []
         then map fst (filter (\<lambda>(_, uids). list_ex (\<lambda>known. known mod USER_RANGE = uid mod USER_RANGE) uids) packages)
         else exact)"

definition resolve_uid :: "(string, u32 list) bmap \<Rightarrow> u32 \<Rightarrow> legacy_candidate \<Rightarrow> legacy_candidate" where
  "resolve_uid packages uid c =
     (let matched = match_uid packages uid;
          c1 = (if matched = [] then c\<lparr>lc_unresolved_observer_uids := lc_unresolved_observer_uids c @ [uid]\<rparr> else c)
      in c1\<lparr>lc_roles := fold (\<lambda>pkg. bt_update pkg no_roles (lr_app_hiding_update (\<lambda>_. True))) matched (lc_roles c1)\<rparr>)"

definition parse :: "(source_role, string) bmap \<Rightarrow> (string, u32 list) bmap \<Rightarrow> bool \<Rightarrow> legacy_candidate" where
  "parse sources packages inventory_complete =
     (let init = \<lparr>lc_roles = [], lc_unresolved_observer_uids = [], lc_invalid_lines = 0,
                  lc_complete = list_all (bt_contains sources) all_roles\<rparr>;
          (c, observer_uids) = fold parse_source sources (init, []);
          c1 = (if observer_uids \<noteq> [] \<and> \<not> inventory_complete then c\<lparr>lc_complete := False\<rparr> else c)
      in fold (resolve_uid packages) observer_uids c1)"

definition has_user_apps :: "canonical_config \<Rightarrow> string \<Rightarrow> bool" where
  "has_user_apps config self_package =
     list_ex (\<lambda>(pkg, a). pkg \<noteq> self_package \<and> (ac_java a \<or> nr_enabled (ac_native a) \<or> ac_app_hiding a \<or> ac_ports a))
       (cc_apps config)"

definition self_target :: "app_config \<Rightarrow> app_config" where
  "self_target app =
     app\<lparr>ac_java := True, ac_java_hooks := None,
         ac_native := \<lparr>nr_enabled = True, nr_kernel = None, nr_zygisk = None\<rparr>,
         ac_hidden := True, ac_ports := False, ac_port_policy := None\<rparr>"

definition with_self_target :: "canonical_config \<Rightarrow> string \<Rightarrow> canonical_config" where
  "with_self_target config self_package =
     config\<lparr>cc_apps := bt_update self_package default_app self_target (cc_apps config)\<rparr>"

definition import_roles :: "legacy_roles \<Rightarrow> app_config \<Rightarrow> app_config" where
  "import_roles roles a =
     (let a1 = (if \<not> ac_java a then a\<lparr>ac_java_hooks := None\<rparr> else a);
          a2 = a1\<lparr>ac_java := ac_java a1 \<or> lr_java roles\<rparr>;
          a3 = (if \<not> nr_enabled (ac_native a2) \<and> lr_native roles
                then a2\<lparr>ac_native := \<lparr>nr_enabled = True, nr_kernel = None, nr_zygisk = None\<rparr>\<rparr> else a2);
          a4 = (if \<not> ac_ports a3 then a3\<lparr>ac_port_policy := None\<rparr> else a3);
          a5 = a4\<lparr>ac_ports := ac_ports a4 \<or> lr_ports roles\<rparr>;
          a6 = a5\<lparr>ac_app_hiding := ac_app_hiding a5 \<or> lr_app_hiding roles\<rparr>
      in a6\<lparr>ac_hidden := ac_hidden a6 \<or> lr_hidden roles\<rparr>)"

definition replace_base :: "canonical_config \<Rightarrow> canonical_config" where
  "replace_base base =
     base\<lparr>cc_apps := map (\<lambda>(pkg, a). (pkg, default_app\<lparr>ac_hidden := True\<rparr>))
       (filter (\<lambda>(pkg, a). ac_hidden a \<and> pkg \<in> set (st_auto_hidden_packages (cc_settings base))) (cc_apps base))\<rparr>"

definition apply_legacy :: "canonical_config \<Rightarrow> legacy_candidate \<Rightarrow> import_mode \<Rightarrow> string \<Rightarrow> canonical_config" where
  "apply_legacy base candidate mode self_package =
     (let next = (if mode = ModeReplace then replace_base base else base);
          next1 = next\<lparr>cc_apps := fold (\<lambda>(pkg, roles). bt_update pkg default_app (import_roles roles))
                        (lc_roles candidate) (cc_apps next)\<rparr>
      in with_self_target next1 self_package)"


section \<open>What the sources say\<close>

definition roles_of :: "legacy_candidate \<Rightarrow> string \<Rightarrow> legacy_roles" where
  "roles_of c p = (case bt_get (lc_roles c) p of None \<Rightarrow> no_roles | Some r \<Rightarrow> r)"

definition join_roles :: "legacy_roles \<Rightarrow> legacy_roles \<Rightarrow> legacy_roles" where
  "join_roles a b =
     \<lparr>lr_java = lr_java a \<or> lr_java b, lr_native = lr_native a \<or> lr_native b,
      lr_app_hiding = lr_app_hiding a \<or> lr_app_hiding b, lr_ports = lr_ports a \<or> lr_ports b,
      lr_hidden = lr_hidden a \<or> lr_hidden b\<rparr>"

text \<open>The roles a list of (source, line) pairs gives a package.\<close>

definition marks :: "(source_role \<times> string) list \<Rightarrow> string \<Rightarrow> legacy_roles" where
  "marks ps p =
     (if valid_package p then
        \<lparr>lr_java = (SrcJava, p) \<in> set ps,
         lr_native = (SrcKmod, p) \<in> set ps \<or> (SrcKpm, p) \<in> set ps \<or> (SrcZygisk, p) \<in> set ps,
         lr_app_hiding = False, lr_ports = (SrcPorts, p) \<in> set ps, lr_hidden = (SrcHidden, p) \<in> set ps\<rparr>
      else no_roles)"

definition source_lines :: "(source_role, string) bmap \<Rightarrow> (source_role \<times> string) list" where
  "source_lines sources = concat (map (\<lambda>(role, raw). map (Pair role) (legacy_lines raw)) sources)"

abbreviation parse_pairs :: "(source_role \<times> string) list \<Rightarrow> legacy_candidate \<times> u32 list \<Rightarrow> legacy_candidate \<times> u32 list" where
  "parse_pairs \<equiv> fold (\<lambda>(role, line). parse_line role line)"

lemma parse_sources_pairs: "fold parse_source sources st = parse_pairs (source_lines sources) st"
  by (induction sources arbitrary: st) (auto simp: source_lines_def parse_source_def fold_map comp_def)

lemma roles_of_update:
  assumes "bt_wf (lc_roles c)"
  shows "roles_of (c\<lparr>lc_roles := bt_update q no_roles f (lc_roles c)\<rparr>) p = (if p = q then f (roles_of c p) else roles_of c p)"
  using assms by (simp add: roles_of_def bt_get_update)

lemma legacy_roles_eqI:
  "lr_java a = lr_java b \<Longrightarrow> lr_native a = lr_native b \<Longrightarrow> lr_app_hiding a = lr_app_hiding b \<Longrightarrow>
   lr_ports a = lr_ports b \<Longrightarrow> lr_hidden a = lr_hidden b \<Longrightarrow> a = (b :: legacy_roles)"
  by (rule legacy_roles.equality) simp_all

lemma parse_line_roles:
  assumes "bt_wf (lc_roles c)"
  shows "bt_wf (lc_roles (fst (parse_line role line (c, u))))"
    "roles_of (fst (parse_line role line (c, u))) p = join_roles (roles_of c p) (marks [(role, line)] p)"
proof -
  have same: "roles_of (c\<lparr>lc_invalid_lines := n\<rparr>) p = roles_of c p" for n by (simp add: roles_of_def)
  show "bt_wf (lc_roles (fst (parse_line role line (c, u))))"
    using assms by (auto simp: parse_line_def Let_def split: option.splits)
  show "roles_of (fst (parse_line role line (c, u))) p = join_roles (roles_of c p) (marks [(role, line)] p)"
  proof (cases "role = SrcObserverUids \<or> \<not> valid_package line")
    case True
    then have "roles_of (fst (parse_line role line (c, u))) p = roles_of c p"
      by (auto simp: parse_line_def Let_def same split: option.splits)
    moreover have "marks [(role, line)] p = no_roles"
      using True by (auto simp: marks_def no_roles_def intro!: legacy_roles_eqI)
    ultimately show ?thesis by (simp add: join_roles_def no_roles_def)
  next
    case False
    then have "fst (parse_line role line (c, u)) = c\<lparr>lc_roles := bt_update line no_roles (mark_role role) (lc_roles c)\<rparr>"
      by (simp add: parse_line_def)
    then have "roles_of (fst (parse_line role line (c, u))) p =
        (if p = line then mark_role role (roles_of c p) else roles_of c p)"
      by (simp add: roles_of_update [OF assms])
    with False show ?thesis
      by (cases role) (auto simp: marks_def join_roles_def no_roles_def intro!: legacy_roles_eqI)
  qed
qed

lemma marks_Cons: "marks (x # ps) p = join_roles (marks [x] p) (marks ps p)"
  by (cases x) (auto simp: marks_def join_roles_def no_roles_def intro!: legacy_roles_eqI)

lemma join_roles_assoc: "join_roles (join_roles a b) c = join_roles a (join_roles b c)"
  by (auto simp: join_roles_def)

lemma parse_pairs_roles:
  "bt_wf (lc_roles (fst st)) \<Longrightarrow>
   bt_wf (lc_roles (fst (parse_pairs ps st))) \<and> roles_of (fst (parse_pairs ps st)) p = join_roles (roles_of (fst st) p) (marks ps p)"
proof (induction ps arbitrary: st)
  case Nil
  then show ?case by (auto simp: marks_def join_roles_def no_roles_def intro!: legacy_roles_eqI)
next
  case (Cons x ps)
  obtain role line c u where x: "x = (role, line)" "st = (c, u)" by force
  from Cons.prems x have "bt_wf (lc_roles c)" by simp
  from parse_line_roles [OF this] Cons.IH [of "parse_line role line (c, u)"] x
  show ?case by (simp add: marks_Cons [of _ ps] join_roles_assoc)
qed

text \<open>The observer uids of the source file, in order and without duplicates.\<close>

definition observer_uids :: "(source_role \<times> string) list \<Rightarrow> u32 set" where
  "observer_uids ps = {uid. uid \<noteq> - 1 \<and> (\<exists>line. (SrcObserverUids, line) \<in> set ps \<and> map_option of_nat (from_str_radix 32 10 line) = Some uid)}"

lemma parse_pairs_uids: "set (snd (parse_pairs ps st)) = set (snd st) \<union> observer_uids ps"
proof (induction ps arbitrary: st)
  case (Cons x ps)
  have "set (snd (parse_line role line (c, u))) = set u \<union> observer_uids [(role, line)]" for role line c u
    by (auto simp: parse_line_def observer_uids_def Let_def split: option.splits if_splits)
  moreover have "observer_uids (x # ps) = observer_uids [x] \<union> observer_uids ps"
    by (auto simp: observer_uids_def)
  ultimately show ?case using Cons.IH by (cases x; cases st) auto
qed (simp add: observer_uids_def)

lemma resolve_uid_roles:
  assumes "bt_wf (lc_roles c)"
  shows "bt_wf (lc_roles (resolve_uid packages uid c))"
    "roles_of (resolve_uid packages uid c) p =
       (if p \<in> set (match_uid packages uid) then (roles_of c p)\<lparr>lr_app_hiding := True\<rparr> else roles_of c p)"
proof -
  let ?f = "\<lambda>pkg. bt_update pkg no_roles (lr_app_hiding_update (\<lambda>_. True))"
  have step: "bt_wf m \<Longrightarrow> bt_wf (fold ?f ps m)
      \<and> (case bt_get (fold ?f ps m) p of None \<Rightarrow> no_roles | Some r \<Rightarrow> r) =
          (if p \<in> set ps then (case bt_get m p of None \<Rightarrow> no_roles | Some r \<Rightarrow> r)\<lparr>lr_app_hiding := True\<rparr>
           else (case bt_get m p of None \<Rightarrow> no_roles | Some r \<Rightarrow> r))" for ps and m :: "(string, legacy_roles) bmap"
    by (induction ps arbitrary: m) (simp_all add: bt_get_update)
  from step [OF assms, of "match_uid packages uid"] assms
  show "bt_wf (lc_roles (resolve_uid packages uid c))"
    "roles_of (resolve_uid packages uid c) p =
       (if p \<in> set (match_uid packages uid) then (roles_of c p)\<lparr>lr_app_hiding := True\<rparr> else roles_of c p)"
    by (simp_all add: resolve_uid_def roles_of_def Let_def)
qed

lemma resolve_uids_roles:
  "bt_wf (lc_roles c) \<Longrightarrow> bt_wf (lc_roles (fold (resolve_uid packages) uids c))
   \<and> roles_of (fold (resolve_uid packages) uids c) p =
      join_roles (roles_of c p) (no_roles\<lparr>lr_app_hiding := \<exists>uid \<in> set uids. p \<in> set (match_uid packages uid)\<rparr>)"
proof (induction uids arbitrary: c)
  case Nil
  then show ?case by (simp add: join_roles_def no_roles_def)
next
  case (Cons uid uids)
  from Cons.IH [OF resolve_uid_roles(1) [OF Cons.prems, of packages uid]] resolve_uid_roles(2) [OF Cons.prems, of packages uid p]
  show ?case by (auto simp: join_roles_def no_roles_def)
qed

text \<open>
   Reading the legacy files loses and invents nothing: a package gets exactly the roles of the
  files that list it (native from any of the three native lists), app hiding exactly when one of
  its uids, or a clone of it in another profile when no package has the exact uid, is listed as an
  observer; commented, blank and invalid lines give no role.
\<close>

theorem parse_roles_exact:
  "roles_of (parse sources packages inventory_complete) p =
     \<lparr>lr_java = valid_package p \<and> (SrcJava, p) \<in> set (source_lines sources),
      lr_native = valid_package p \<and> ((SrcKmod, p) \<in> set (source_lines sources) \<or> (SrcKpm, p) \<in> set (source_lines sources)
                    \<or> (SrcZygisk, p) \<in> set (source_lines sources)),
      lr_app_hiding = (\<exists>uid \<in> observer_uids (source_lines sources). p \<in> set (match_uid packages uid)),
      lr_ports = valid_package p \<and> (SrcPorts, p) \<in> set (source_lines sources),
      lr_hidden = valid_package p \<and> (SrcHidden, p) \<in> set (source_lines sources)\<rparr>"
proof -
  define init where "init = \<lparr>lc_roles = [], lc_unresolved_observer_uids = [], lc_invalid_lines = 0,
      lc_complete = list_all (bt_contains sources) all_roles\<rparr>"
  obtain c uids where c: "parse_pairs (source_lines sources) (init, []) = (c, uids)" by force
  define c1 where "c1 = (if uids \<noteq> [] \<and> \<not> inventory_complete then c\<lparr>lc_complete := False\<rparr> else c)"
  have w: "bt_wf (lc_roles c)" "roles_of c p = join_roles no_roles (marks (source_lines sources) p)"
    using parse_pairs_roles [of "(init, [])" "source_lines sources" p] c
    by (simp_all add: init_def roles_of_def)
  have u: "set uids = observer_uids (source_lines sources)"
    using parse_pairs_uids [of "source_lines sources" "(init, [])"] c by simp
  have c1: "bt_wf (lc_roles c1)" "roles_of c1 p = roles_of c p" using w by (simp_all add: c1_def roles_of_def)
  have "parse sources packages inventory_complete = fold (resolve_uid packages) uids c1"
    by (simp add: parse_def parse_sources_pairs init_def [symmetric] c c1_def)
  with resolve_uids_roles [OF c1(1), of packages uids p] show ?thesis
    by (auto simp: c1(2) w(2) u join_roles_def no_roles_def marks_def intro!: legacy_roles_eqI)
qed


section \<open>Applying a candidate\<close>

lemma fold_bt_update:
  "distinct (map fst kvs) \<Longrightarrow> bt_wf m \<Longrightarrow>
   bt_wf (fold (\<lambda>(k, r). bt_update k d (f r)) kvs m)
   \<and> bt_get (fold (\<lambda>(k, r). bt_update k d (f r)) kvs m) p =
      (case bt_get kvs p of None \<Rightarrow> bt_get m p
       | Some r \<Rightarrow> Some (f r (case bt_get m p of None \<Rightarrow> d | Some v \<Rightarrow> v)))"
proof (induction kvs arbitrary: m)
  case (Cons x kvs)
  obtain k r where x: "x = (k, r)" by force
  have "bt_get kvs k = None" using Cons.prems(1) x by (auto simp: bt_get_None_iff image_iff)
  with Cons x show ?case by (auto simp: bt_get_update split: option.splits)
qed simp

text \<open>The roles of an app after the import, before the self target is put in.\<close>

definition import_opt :: "legacy_roles option \<Rightarrow> app_config \<Rightarrow> app_config" where
  "import_opt r a = (case r of None \<Rightarrow> a | Some r \<Rightarrow> import_roles r a)"

definition imported :: "canonical_config \<Rightarrow> legacy_candidate \<Rightarrow> import_mode \<Rightarrow> string \<Rightarrow> app_config" where
  "imported base c mode p =
     import_opt (bt_get (lc_roles c) p) (app_of (if mode = ModeReplace then replace_base base else base) p)"

lemma replace_base_wf: "bt_wf (cc_apps base) \<Longrightarrow> bt_wf (cc_apps (replace_base base))"
  by (simp add: replace_base_def bt_wf_def sorted_wrt_map sorted_wrt_filter case_prod_unfold comp_def)

lemma replace_base_get:
  assumes "bt_wf (cc_apps base)"
  shows "bt_get (cc_apps (replace_base base)) p =
    (case bt_get (cc_apps base) p of
       Some a \<Rightarrow> if ac_hidden a \<and> p \<in> set (st_auto_hidden_packages (cc_settings base))
                then Some (default_app\<lparr>ac_hidden := True\<rparr>) else None
     | None \<Rightarrow> None)"
proof -
  have d: "distinct (map fst m) \<Longrightarrow> bt_get (map (\<lambda>(pkg, a). (pkg, v)) (filter (\<lambda>(pkg, a). P pkg a) m)) p =
      (case bt_get m p of Some a \<Rightarrow> if P p a then Some v else None | None \<Rightarrow> None)"
    for m :: "(string, app_config) bmap" and P and v :: app_config
    by (induction m) (auto simp: map_of_eq_None_iff image_iff split: option.splits)
  show ?thesis using d [OF bt_wf_distinct [OF assms]] by (simp add: replace_base_def)
qed

lemma apply_legacy_app:
  assumes "bt_wf (cc_apps base)" "bt_wf (lc_roles c)"
  shows "bt_wf (cc_apps (apply_legacy base c mode self))"
    "app_of (apply_legacy base c mode self) p =
       (if p = self then self_target (imported base c mode p) else imported base c mode p)"
    "p = self \<or> bt_get (lc_roles c) p \<noteq> None \<Longrightarrow> bt_get (cc_apps (apply_legacy base c mode self)) p \<noteq> None"
    "p \<noteq> self \<Longrightarrow> bt_get (lc_roles c) p = None \<Longrightarrow> bt_get (cc_apps (apply_legacy base c mode self)) p =
       bt_get (cc_apps (if mode = ModeReplace then replace_base base else base)) p"
proof -
  let ?next = "if mode = ModeReplace then replace_base base else base"
  have w: "bt_wf (cc_apps ?next)" using assms(1) replace_base_wf by simp
  note f = fold_bt_update [OF bt_wf_distinct [OF assms(2)] w, of default_app import_roles]
  have apps: "cc_apps (apply_legacy base c mode self) =
      bt_update self default_app self_target (fold (\<lambda>(k, r). bt_update k default_app (import_roles r)) (lc_roles c) (cc_apps ?next))"
    by (simp add: apply_legacy_def with_self_target_def Let_def)
  have g: "bt_wf (fold (\<lambda>(k, r). bt_update k default_app (import_roles r)) (lc_roles c) (cc_apps ?next))" using f by blast
  show "bt_wf (cc_apps (apply_legacy base c mode self))" unfolding apps using g by simp
  show "app_of (apply_legacy base c mode self) p =
       (if p = self then self_target (imported base c mode p) else imported base c mode p)"
    using f by (auto simp: app_of_def apps bt_get_update [OF g] imported_def import_opt_def split: option.split)
  show "p = self \<or> bt_get (lc_roles c) p \<noteq> None \<Longrightarrow> bt_get (cc_apps (apply_legacy base c mode self)) p \<noteq> None"
    using f [of p] by (auto simp: apps bt_get_update [OF g] split: option.splits)
  show "p \<noteq> self \<Longrightarrow> bt_get (lc_roles c) p = None \<Longrightarrow> bt_get (cc_apps (apply_legacy base c mode self)) p =
       bt_get (cc_apps ?next) p"
    using f [of p] by (simp add: apps bt_get_update [OF g])
qed


lemma import_roles_fields:
  "ac_java (import_roles r a) = (ac_java a \<or> lr_java r)"
  "nr_enabled (ac_native (import_roles r a)) = (nr_enabled (ac_native a) \<or> lr_native r)"
  "ac_app_hiding (import_roles r a) = (ac_app_hiding a \<or> lr_app_hiding r)"
  "ac_ports (import_roles r a) = (ac_ports a \<or> lr_ports r)"
  "ac_hidden (import_roles r a) = (ac_hidden a \<or> lr_hidden r)"
  "ac_java_hooks (import_roles r a) = (if ac_java a then ac_java_hooks a else None)"
  "ac_port_policy (import_roles r a) = (if ac_ports a then ac_port_policy a else None)"
  "ac_native (import_roles r a) = (if \<not> nr_enabled (ac_native a) \<and> lr_native r
     then \<lparr>nr_enabled = True, nr_kernel = None, nr_zygisk = None\<rparr> else ac_native a)"
  by (auto simp: import_roles_def Let_def)

lemma import_roles_wf: "app_wf a \<Longrightarrow> app_wf (import_roles r a)"
  by (auto simp: app_wf_def import_roles_fields)

text \<open>Importing twice changes nothing of an app whose absent roles carry no details.\<close>

lemma import_roles_idem: "app_wf a \<Longrightarrow> import_roles r (import_roles r a) = import_roles r a"
  by (rule app_config.equality) (auto simp: import_roles_fields app_wf_def)

lemma self_target_wf: "app_wf (self_target a)" "has_any_role (self_target a)"
  by (simp_all add: app_wf_def self_target_def has_any_role_def)


text \<open>
  The app's own package is always made a managed target, without ports.  A legacy file that gives it
  the ports role is therefore never covered, whatever the mode, and its cleanup stays refused.
\<close>

lemma self_ports_never_covered:
  assumes "bt_wf (cc_apps base)" "bt_wf (lc_roles c)" "bt_get (lc_roles c) self = Some r" "lr_ports r"
  shows "\<not> covered_by c (apply_legacy base c mode self)"
proof -
  obtain a where a: "bt_get (cc_apps (apply_legacy base c mode self)) self = Some a"
    using apply_legacy_app(3) [OF assms(1,2), of self self mode] by blast
  then have "a = app_of (apply_legacy base c mode self) self" by (simp add: app_of_def)
  also have "\<dots> = self_target (imported base c mode self)" using apply_legacy_app(2) [OF assms(1,2)] by simp
  finally have "\<not> ac_ports a" by (simp add: self_target_def)
  then have "\<not> role_covered r a" using assms(4) by (simp add: role_covered_def)
  moreover have "(self, r) \<in> set (lc_roles c)" using assms(3) by (rule map_of_SomeD)
  ultimately show ?thesis using a by (fastforce simp: covered_by_def list_all_iff)
qed

lemma self_target_idem: "self_target (self_target a) = self_target a"
  by (simp add: self_target_def)

lemma self_target_import: "self_target (import_roles r (self_target a)) = self_target a\<lparr>ac_app_hiding := ac_app_hiding a \<or> lr_app_hiding r\<rparr>"
  by (rule app_config.equality) (simp_all add: import_roles_fields self_target_def)

definition roles_marked :: "legacy_candidate \<Rightarrow> bool" where
  "roles_marked c = (bt_wf (lc_roles c) \<and> (\<forall>p r. bt_get (lc_roles c) p = Some r \<longrightarrow> r \<noteq> no_roles))"

lemma mark_role_some: "role \<noteq> SrcObserverUids \<Longrightarrow> mark_role role r \<noteq> no_roles"
  by (cases role) (auto simp: no_roles_def dest: arg_cong [of _ _ lr_native] arg_cong [of _ _ lr_java]
      arg_cong [of _ _ lr_ports] arg_cong [of _ _ lr_hidden])

lemma marked_update:
  "roles_marked c \<Longrightarrow> (\<And>r. f r \<noteq> no_roles) \<Longrightarrow> roles_marked (c\<lparr>lc_roles := bt_update p no_roles f (lc_roles c)\<rparr>)"
  by (auto simp: roles_marked_def bt_get_update split: if_splits)

lemma marked_other [simp]:
  "roles_marked (c\<lparr>lc_invalid_lines := n\<rparr>) = roles_marked c"
  "roles_marked (c\<lparr>lc_complete := b\<rparr>) = roles_marked c"
  "roles_marked (c\<lparr>lc_unresolved_observer_uids := us\<rparr>) = roles_marked c"
  by (simp_all add: roles_marked_def)

lemma parse_line_marked: "roles_marked (fst st) \<Longrightarrow> roles_marked (fst (parse_line role line st))"
proof (cases "role \<noteq> SrcObserverUids \<and> valid_package line")
  case True
  assume "roles_marked (fst st)"
  with True marked_update [of "fst st" "mark_role role" line] mark_role_some [of role] show ?thesis
    by (simp add: parse_line_def split_def)
next
  case False
  assume "roles_marked (fst st)"
  with False show ?thesis by (auto simp: parse_line_def split_def Let_def split: option.splits)
qed

lemma parse_pairs_marked: "roles_marked (fst st) \<Longrightarrow> roles_marked (fst (parse_pairs ps st))"
proof (induction ps arbitrary: st)
  case (Cons x ps)
  from Cons.IH [OF parse_line_marked [OF Cons.prems]] show ?case by (simp add: split_def)
qed simp

lemma resolve_uid_marked: "roles_marked c \<Longrightarrow> roles_marked (resolve_uid packages uid c)"
proof -
  assume m: "roles_marked c"
  have "roles_marked d \<Longrightarrow>
      roles_marked (d\<lparr>lc_roles := fold (\<lambda>pkg. bt_update pkg no_roles (lr_app_hiding_update (\<lambda>_. True))) ps (lc_roles d)\<rparr>)" for ps d
  proof (induction ps arbitrary: d)
    case (Cons q ps)
    have "roles_marked (d\<lparr>lc_roles := bt_update q no_roles (lr_app_hiding_update (\<lambda>_. True)) (lc_roles d)\<rparr>)"
      using Cons.prems by (rule marked_update) (auto simp: no_roles_def dest: arg_cong [of _ _ lr_app_hiding])
    from Cons.IH [OF this] show ?case by simp
  qed simp
  then show ?thesis using m by (simp add: resolve_uid_def Let_def roles_marked_def)
qed

lemma parse_marked: "roles_marked (parse sources packages inventory_complete)"
proof -
  have fold: "roles_marked c \<Longrightarrow> roles_marked (fold (resolve_uid packages) uids c)" for uids c
    by (induction uids arbitrary: c) (auto simp: resolve_uid_marked)
  have "roles_marked (fst (parse_pairs (source_lines sources) (init, [])))" if "lc_roles init = []" for init
    using that by (intro parse_pairs_marked) (simp add: roles_marked_def)
  then show ?thesis
    unfolding parse_def Let_def parse_sources_pairs
    by (auto simp: split_def intro!: fold)
qed

lemma import_roles_some: "r \<noteq> no_roles \<Longrightarrow> has_any_role (import_roles r a)"
  unfolding has_any_role_def import_roles_fields(1-5) no_roles_def by (rule ccontr) (auto intro: legacy_roles_eqI)

lemma app_of_listed: "bt_get (cc_apps c) p = Some a \<Longrightarrow> app_of c p = a"
  by (simp add: app_of_def)

lemma replace_base_config_wf: "config_wf base \<Longrightarrow> config_wf (replace_base base)"
  unfolding config_wf_def
  by (auto simp: replace_base_wf replace_base_get split: option.splits if_splits)
     (simp_all add: replace_base_def app_wf_def has_any_role_def default_app_def)

lemma apply_legacy_wf:
  assumes "config_wf base" "roles_marked c"
  shows "config_wf (apply_legacy base c mode self)"
proof -
  let ?next = "if mode = ModeReplace then replace_base base else base"
  have nw: "config_wf ?next" using assms(1) replace_base_config_wf by simp
  have w: "bt_wf (cc_apps base)" "bt_wf (lc_roles c)" using assms by (simp_all add: config_wf_def roles_marked_def)
  note A = apply_legacy_app [OF w, where mode = mode and self = self]
  have "app_wf a \<and> has_any_role a" if a: "bt_get (cc_apps (apply_legacy base c mode self)) p = Some a" for p a
  proof -
    have e: "a = (if p = self then self_target (imported base c mode p) else imported base c mode p)"
      using A(2) [of p] app_of_listed [OF a] by simp
    consider "p = self" | "p \<noteq> self" "bt_get (lc_roles c) p = None"
      | r where "p \<noteq> self" "bt_get (lc_roles c) p = Some r" by force
    then show ?thesis
    proof cases
      case 1
      then show ?thesis using e self_target_wf by simp
    next
      case 2
      then have "bt_get (cc_apps ?next) p = Some a" using A(4) [of p] a by simp
      then show ?thesis using nw unfolding config_wf_def by blast
    next
      case 3
      then have "a = import_roles r (app_of ?next p)" using e by (simp add: imported_def import_opt_def)
      moreover have "r \<noteq> no_roles" using assms(2) 3 by (auto simp: roles_marked_def)
      ultimately show ?thesis using app_wf_app_of [OF nw] import_roles_wf import_roles_some by blast
    qed
  qed
  moreover have "cc_settings (apply_legacy base c mode self) = cc_settings base"
    by (simp add: apply_legacy_def with_self_target_def replace_base_def Let_def)
  ultimately show ?thesis using A(1) assms(1) unfolding config_wf_def by metis
qed


definition legacy_example :: "(source_role, string) bmap" where
  "legacy_example = [(SrcKmod, ''com.bank.app''), (SrcKpm, []), (SrcZygisk, []), (SrcJava, ''# none''), (SrcPorts, []),
     (SrcHidden, ''org.vpn.client''), (SrcObserverUids, [])]"


text \<open>Applying the same candidate twice.\<close>

lemma replace_base_app:
  assumes "bt_wf (cc_apps base)"
  shows "app_of (replace_base base) p =
    (if ac_hidden (app_of base p) \<and> p \<in> set (st_auto_hidden_packages (cc_settings base))
     then default_app\<lparr>ac_hidden := True\<rparr> else default_app)"
  using replace_base_get [OF assms, of p] by (auto simp: app_of_def default_app_def split: option.splits)

abbreviation hidden_app :: app_config where
  "hidden_app \<equiv> default_app\<lparr>ac_hidden := True\<rparr>"

lemma import_opt_idem: "app_wf a \<Longrightarrow> import_opt r (import_opt r a) = import_opt r a"
  by (simp add: import_opt_def import_roles_idem split: option.split)

lemma import_opt_self: "self_target (import_opt r (self_target (import_opt r a))) = self_target (import_opt r a)"
proof (cases r)
  case (Some q)
  show ?thesis
    unfolding Some import_opt_def option.case
    by (rule app_config.equality) (simp_all add: import_roles_fields self_target_def)
qed (simp add: import_opt_def self_target_idem)

lemma import_opt_hidden:
  "ac_hidden (import_opt r hidden_app)"
  "ac_hidden (import_opt r default_app) \<Longrightarrow> import_opt r hidden_app = import_opt r default_app"
  "self_target (import_opt r hidden_app) = self_target (import_opt r default_app)"
proof -
  show "ac_hidden (import_opt r hidden_app)" by (simp add: import_opt_def import_roles_fields split: option.split)
  show "ac_hidden (import_opt r default_app) \<Longrightarrow> import_opt r hidden_app = import_opt r default_app"
    by (cases r; rule app_config.equality)
       (simp_all add: import_opt_def import_roles_fields default_app_def default_native_def)
  show "self_target (import_opt r hidden_app) = self_target (import_opt r default_app)"
    by (cases r; rule app_config.equality)
       (simp_all add: import_opt_def import_roles_fields self_target_def default_app_def default_native_def)
qed

lemma imported_twice:
  fixes mode self
  assumes b: "config_wf base" and m: "roles_marked c"
  defines "nxt \<equiv> apply_legacy base c mode self"
  shows "(if p = self then self_target (imported nxt c mode p) else imported nxt c mode p) =
    (if p = self then self_target (imported base c mode p) else imported base c mode p)"
proof -
  have w: "bt_wf (cc_apps base)" "bt_wf (lc_roles c)" using b m by (simp_all add: config_wf_def roles_marked_def)
  note A = apply_legacy_app [OF w, where mode = mode and self = self, folded nxt_def]
  have set: "cc_settings nxt = cc_settings base"
    by (simp add: nxt_def apply_legacy_def with_self_target_def replace_base_def Let_def)
  let ?n = "app_of nxt p" and ?b = "app_of base p"
  have app: "?n = (if p = self then self_target (imported base c mode p) else imported base c mode p)" by (rule A(2))
  show ?thesis
  proof (cases "mode = ModeReplace")
    case False
    have i: "imported nxt c mode p = import_opt (bt_get (lc_roles c) p) ?n"
      "imported base c mode p = import_opt (bt_get (lc_roles c) p) ?b" using False by (simp_all add: imported_def)
    show ?thesis
    proof (cases "p = self")
      case True
      then have "?n = self_target (import_opt (bt_get (lc_roles c) p) ?b)" using app i(2) by simp
      then show ?thesis unfolding if_P [OF True] i by (simp only: import_opt_self)
    next
      case False
      then have "?n = import_opt (bt_get (lc_roles c) p) ?b" using app i(2) by simp
      then show ?thesis unfolding if_not_P [OF False] i by (simp only: import_opt_idem [OF app_wf_app_of [OF b]])
    qed
  next
    case True
    let ?r = "bt_get (lc_roles c) p" and ?auto = "p \<in> set (st_auto_hidden_packages (cc_settings base))"
    obtain a where a: "app_of (replace_base base) p = a" "a = default_app \<or> (a = hidden_app \<and> ?auto)"
      using replace_base_app [OF w(1), of p] by auto
    have n: "app_of (replace_base nxt) p = (if ac_hidden ?n \<and> ?auto then hidden_app else default_app)"
      using replace_base_app [OF A(1), of p] set by simp
    show ?thesis
    proof (cases "p = self")
      case True
      then show ?thesis
        using a n \<open>mode = ModeReplace\<close> by (auto simp: imported_def import_opt_hidden(3))
    next
      case False
      then have "?n = import_opt ?r a" using app a \<open>mode = ModeReplace\<close> by (simp add: imported_def)
      with a(2) n False \<open>mode = ModeReplace\<close> a(1) show ?thesis
        by (auto simp: imported_def import_opt_hidden(1) intro: import_opt_hidden(2))
    qed
  qed
qed

text \<open>
   Migration is repeatable: applying a parsed candidate to its own result changes nothing, in
  merge and in replace mode, so a retried or resumed migration cannot drift.
\<close>

theorem apply_legacy_idempotent:
  assumes "config_wf base"
  shows "let c = parse sources packages inv_complete
    in apply_legacy (apply_legacy base c mode self) c mode self = apply_legacy base c mode self"
proof -
  define c where "c = parse sources packages inv_complete"
  have m: "roles_marked c" unfolding c_def by (rule parse_marked)
  let ?next = "apply_legacy base c mode self"
  have wf: "config_wf ?next" by (rule apply_legacy_wf [OF assms m])
  have w: "bt_wf (cc_apps base)" "bt_wf (cc_apps ?next)" "bt_wf (lc_roles c)"
    using assms wf m by (simp_all add: config_wf_def roles_marked_def)
  have "apply_legacy ?next c mode self = ?next"
  proof (rule config_ext [OF apply_legacy_wf [OF wf m] wf])
    fix p
    show "app_of (apply_legacy ?next c mode self) p = app_of ?next p"
      using apply_legacy_app(2) [OF w(2,3), of mode self p] apply_legacy_app(2) [OF w(1,3), of mode self p]
        imported_twice [OF assms m, of p self mode] by simp
  qed (simp_all add: apply_legacy_def with_self_target_def replace_base_def Let_def)
  then show ?thesis by (simp add: c_def)
qed

theorem apply_legacy_idempotent_witness:
  "apply_legacy (apply_legacy default_canonical (parse legacy_example [] True) ModeReplace ''dev.app'')
     (parse legacy_example [] True) ModeReplace ''dev.app''
   = apply_legacy default_canonical (parse legacy_example [] True) ModeReplace ''dev.app''"
proof -
  have "config_wf default_canonical"
    by (simp add: config_wf_def default_canonical_def default_settings_def settings_wf_def bs_wf_def)
  from apply_legacy_idempotent [OF this, of legacy_example "[]" True ModeReplace "''dev.app''"] show ?thesis
    unfolding Let_def .
qed

end
