(* ===== verification/Journal_State.thy ===== *)
theory Journal_State
  imports Kernel_Payloads Operation_Plan Admission Migration_Policy
begin

text \<open>
  The durable operation journal (\<^verbatim>\<open>crates/core-daemon/src/journal.rs\<close> and its submodules): the data
  it keeps.  Field names carry a prefix per structure.  Facts of other subsystems that the journal
  only stores and hands back (image fences, manager identities, maintenance plans and reports) are types with no operations here.  An operation id is the unsigned counter Core
  issues.
\<close>

typedecl maintenance_plan
typedecl maintenance_report
typedecl image_fence
typedecl manager_identity
typedecl legacy_inventory
typedecl projection_descriptor
typedecl projection_staging
typedecl recipient_binding


section \<open>Backend choice and command intents\<close>

datatype backend_choice = ChoiceAuto | ChoiceFixed native_backend

datatype choice_warning = ProcessInjectionV1

record backend_choice_request =
  bq_expected_revision :: u64
  bq_choice :: backend_choice
  bq_acknowledged_warning :: "choice_warning option"

fun request_validate :: "backend_choice_request \<Rightarrow> string + unit" where
  "request_validate r =
     (case (bq_choice r, bq_acknowledged_warning r) of
        (ChoiceFixed NbZygisk, Some ProcessInjectionV1) \<Rightarrow> Inr ()
      | (ChoiceFixed NbZygisk, None) \<Rightarrow> Inl ''zygisk_injection_warning_required''
      | (_, None) \<Rightarrow> Inr ()
      | (_, Some _) \<Rightarrow> Inl ''unexpected_zygisk_warning_acknowledgement'')"

datatype command_intent =
    StageBackendChoice backend_choice_request
  | StageCoreReplacement string
  | CmdEdit
  | SetSuperkey bool
  | ClearSuperkey
  | CmdImport bool
  | MigrateLegacy import_mode
  | CleanupLegacy
  | PrepareSelfTargets
  | FullReset

record backend_choice_record =
  bc_revision :: u64
  bc_request :: backend_choice_request
  bc_operation :: u64
  bc_requested_in_boot :: string


section \<open>Receipts\<close>

record admission_fact =
  ad_from_revision :: u64
  ad_commit_revision :: u64
  ad_writes :: "string list"

record pending_persist =
  pp_admission :: "admission_fact option"
  pp_candidate :: "canonical_config option"
  pp_reset :: bool

record authorization_intent =
  ai_boot_id :: string
  ai_generation :: u64
  ai_directory_identity :: "u64 \<times> u64"

record native_intent =
  ni_backend :: native_backend
  ni_wire :: string
  ni_zygisk_module :: "string option"
  ni_zygisk_authorization :: "authorization_intent option"

record authority_record =
  za_operation :: u64
  za_intent :: native_intent

datatype family_outcome = FamConfirmed | FamFailedKnown | FamUnknown | FamNotAttempted

record ports_family_report =
  pr_ipv4 :: family_outcome
  pr_ipv6 :: family_outcome
  pr_target_count :: u32

record operation_record =
  or_op :: u64
  or_phases :: "phase_record list"
  or_settled :: "phase_outcome option"
  or_ports :: "ports_family_report option"

record journal_entry =
  je_maintenance :: "maintenance_plan option"
  je_maintenance_report :: "maintenance_report option"
  je_admission :: "admission_fact option"
  je_command :: "command_intent option"
  je_superseded_by :: "u64 option"
  je_superseded_phases :: "config_phase list"
  je_finalized_unknown :: bool
  je_base :: u64
  je_edit :: config_edit
  je_candidate :: "canonical_config option"
  je_native_intent :: "native_intent option"
  je_record :: operation_record


section \<open>Native startup\<close>

record payload_identity =
  pi_source :: string
  pi_sha256 :: string
  pi_bytes :: u64
  pi_init_contract :: "u32 option"

record bundle_identity =
  bi_root :: string
  bi_manifest_sha256 :: string
  bi_manifest_file_sha256 :: "string option"
  bi_source_commit :: string
  bi_root_identity :: "(u64 \<times> u64) option"
  bi_wire :: string
  bi_zygisk_recipient :: "recipient_binding option"

datatype transition_action = Observe | Adopt native_backend | Load native_backend

record transition_intent =
  ti_selection_evidence :: "selection_evidence option"
  ti_boot_id :: string
  ti_filesystem_hiding :: bool
  ti_action :: transition_action
  ti_payload :: "payload_identity option"
  ti_bundle :: "bundle_identity option"
  ti_retire_zygisk :: "string option"
  ti_retire_directory_identity :: "(u64 \<times> u64) option"

definition valid_selection_evidence :: "transition_intent \<Rightarrow> bool" where
  "valid_selection_evidence t =
     (case ti_selection_evidence t of
        None \<Rightarrow> True
      | Some e \<Rightarrow>
          evidence_valid e \<and> (se_module_hint e = None \<or> corroborates_record e)
          \<and> se_boot_id e = ti_boot_id t
          \<and> (case ti_bundle t of
               None \<Rightarrow> False
             | Some b \<Rightarrow> bi_manifest_sha256 b = se_manifest_sha256 e
                 \<and> bi_manifest_file_sha256 b = Some (se_manifest_file_sha256 e)
                 \<and> bi_source_commit b = se_source_commit e))"

definition possible_zygisk_exposure :: "transition_intent \<Rightarrow> bool" where
  "possible_zygisk_exposure t =
     (ti_action t = Adopt NbZygisk \<or> ti_action t = Load NbZygisk \<or> ti_retire_zygisk t \<noteq> None)"

datatype selection_mode = Adopted | Loaded | ModeAuthorized

record selection =
  sl_backend :: native_backend
  sl_mode :: selection_mode
  sl_filesystem_hiding :: "bool option"

datatype boot_outcome =
    BoSelected native_backend selection_mode "bool option"
  | BoConflict "native_backend list" "native_backend list" "native_backend list"
  | AwaitingAuthentication string
  | KpmUnverifiable string
  | KpmIncompatible "string option" string string
  | CapacityExceeded native_backend native_capacity_report
  | UnsupportedKernel native_backend string string
  | MissingArtifact native_backend string
  | LoadFailed native_backend "int option" string "string list" "bool option" bool
  | DeliveryFailed native_backend string
  | ForeignOwner u32
  | NoBackend
  | BoUnknown string

datatype zygisk_targets = NotInstalled | ZtPending | Published | Retired | RetireFailed string

record kmod_boot_report =
  kb_kprobes :: "bool option"
  kb_kretprobes :: "bool option"
  kb_gki_variant :: string
  kb_version :: string
  kb_uname :: string

datatype ports_source = PsBoot | PsBootRetry | PsEdit

record ports_status =
  pst_source :: ports_source
  pst_ipv4 :: family_outcome
  pst_ipv6 :: family_outcome
  pst_target_count :: u32
  pst_netd_ready :: "bool option"
  pst_detail :: string
  pst_at_ms :: u64

record boot_status =
  bs_selection_evidence :: "selection_evidence option"
  bs_selection_conflict :: "selection_evidence option"
  bs_boot_id :: string
  bs_decided_epoch :: u64
  bs_decided_at_ms :: u64
  bs_updated_at_ms :: u64
  bs_outcome :: boot_outcome
  bs_installed :: "native_backend list"
  bs_live :: "native_backend list"
  bs_staged :: "native_backend list"
  bs_kmod :: "kmod_boot_report option"
  bs_zygisk_targets :: zygisk_targets
  bs_ports :: "ports_status option"
  bs_obsolete_modules :: "string list"

datatype rejection_cause =
    KmodBeforeDispatch int | KpmBeforeDispatch | ArtifactAbsent | AndroidSignatureRejected int

record rejection_proof =
  rp_boot_id :: string
  rp_payload :: payload_identity
  rp_manifest_sha256 :: string
  rp_source_commit :: string
  rp_cause :: rejection_cause
  rp_ownership_checked_boot_ms :: u64

record startup_result =
  sr_status :: boot_status
  sr_selection :: "selection option"
  sr_rejection :: "rejection_proof option"

record native_startup =
  ns_boot_id :: string
  ns_config_revision :: u64
  ns_filesystem_hiding :: bool
  ns_intent :: "transition_intent option"
  ns_repair_op :: "u64 option"
  ns_completed :: "startup_result option"

record native_attempt =
  na_attempt :: native_startup
  na_superseded_by :: "u64 option"

record load_budget =
  lb_boot_id :: string
  lb_attempted :: "native_backend list"

record native_quarantine =
  nq_backend :: native_backend
  nq_sha256 :: string


section \<open>Retained maintenance work\<close>

datatype projection_failure =
    InterruptedBeforeDispatch | SourcesChangedBeforeSpawn | ManagerOutcomeUnknown | ReadbackUnknown

record projection_work =
  pw_operation :: u64
  pw_request :: backend_choice_request
  pw_boot_id :: string
  pw_descriptor :: projection_descriptor
  pw_source :: image_fence
  pw_manager :: manager_identity
  pw_dispatch_intent :: bool
  pw_outcome :: phase_outcome
  pw_failure :: "projection_failure option"
  pw_staging :: "projection_staging option"

record projection_bootstrap =
  pb_binding :: bundle_identity
  pb_authority :: authority_record
  pb_previous_authority :: "authority_record option"
  pb_publication_intent :: bool
  pb_outcome :: phase_outcome

datatype maintenance_stage =
    MAccepted | MDispatching | MVerifyingStaged | MRetiringLegacy | MPendingRestart | MVerified
  | MFailedKnown | MUnknown

datatype maintenance_failure =
    InvalidPackage | ManagerUnavailable | ManagerChanged | LiveImageChanged | StagedImageMissing
  | StagedImageInvalid | LegacyChanged | DispatchUncertain | StorageUncertain
  | MInterruptedBeforeDispatch | BootMismatch | RunningImageMismatch | Compatibility

record maintenance_status =
  ms_operation :: u64
  ms_target_commit :: string
  ms_stage :: maintenance_stage
  ms_failure :: "maintenance_failure option"

record replacement_request =
  rr_descriptor :: bytes
  rr_expected_commit :: string
  rr_expected_package_sha256 :: string
  rr_target_rpc :: u32

record replacement_work =
  rw_request :: replacement_request
  rw_status :: maintenance_status
  rw_boot_id :: string
  rw_before :: image_fence
  rw_manager :: manager_identity
  rw_legacy :: legacy_inventory
  rw_staged :: "image_fence option"
  rw_retired :: bool
  rw_dispatch_intent :: bool

datatype revocation_state = RvRunning | RvConfirmed | RvUnknown

record zygisk_revocation =
  zr_operation :: "u64 option"
  zr_current_boot :: string
  zr_authority :: authority_record
  zr_state :: revocation_state


section \<open>Loader preflights\<close>

datatype preflight_completion = CleanSentinel | CandidateRejected int | LoaderBlocked int

datatype preflight_state = PfRunning | PfFinished preflight_completion | PfUnknown "int option"

record preflight_attempt =
  pa_sha256 :: string
  pa_state :: preflight_state

record preflight_plan =
  pf_boot_id :: string
  pf_manifest_sha256 :: string
  pf_series :: linux_series
  pf_candidates :: "payload list"

record preflight_ledger =
  pg_plan :: preflight_plan
  pg_attempts :: "preflight_attempt list"


section \<open>The journal\<close>

datatype lease_owner = Forensic | Logcat

record debug_lease =
  dl_id :: u64
  dl_owner :: lease_owner
  dl_expires_at_ms :: u64

record journal =
  jr_zygisk_bootstrap :: "projection_bootstrap option"
  jr_zygisk_projection :: "projection_work option"
  jr_backend_choice :: "backend_choice_record option"
  jr_native_selection_evidence :: "selection_evidence option"
  jr_native_selection_conflict :: "selection_evidence option"
  jr_replacement :: "replacement_work option"
  jr_zygisk_authority :: "authority_record option"
  jr_prior_zygisk_authority :: "authority_record option"
  jr_zygisk_revocation :: "zygisk_revocation option"
  jr_version :: u32
  jr_kmod_preflights :: "preflight_ledger option"
  jr_native_startup :: "native_startup option"
  jr_native_attempts :: "native_attempt list"
  jr_native_load_budget :: "load_budget option"
  jr_native_quarantine :: "native_quarantine list"
  jr_zygisk_exposure_boot :: "string option"
  jr_zygisk_exposure_boots :: "string list"
  jr_config_revision :: u64
  jr_retain_settled :: nat
  jr_operations :: "journal_entry list"
  jr_retired_ids :: "u64 list"
  jr_issued_through :: u64
  jr_expired_through :: u64
  jr_conflict_floor :: u64
  jr_debug_leases :: "debug_lease list"
  jr_debug_restore :: "(bool \<times> bool) option"
  jr_debug_restore_op :: "u64 option"
  jr_expired_holds :: "config_phase list"
  jr_pending_persist :: "pending_persist option"
  jr_field_revisions :: "(string, u64) bmap"

definition DEFAULT_RETAIN_SETTLED :: nat where
  "DEFAULT_RETAIN_SETTLED = 64"

definition JOURNAL_VERSION :: u32 where
  "JOURNAL_VERSION = 19"

definition journal_default :: journal where
  "journal_default =
     \<lparr>jr_zygisk_bootstrap = None, jr_zygisk_projection = None, jr_backend_choice = None,
      jr_native_selection_evidence = None, jr_native_selection_conflict = None, jr_replacement = None,
      jr_zygisk_authority = None, jr_prior_zygisk_authority = None, jr_zygisk_revocation = None,
      jr_version = JOURNAL_VERSION, jr_kmod_preflights = None, jr_native_startup = None, jr_native_attempts = [],
      jr_native_load_budget = None, jr_native_quarantine = [], jr_zygisk_exposure_boot = None,
      jr_zygisk_exposure_boots = [], jr_config_revision = 0, jr_retain_settled = DEFAULT_RETAIN_SETTLED,
      jr_operations = [], jr_retired_ids = [], jr_issued_through = 0, jr_expired_through = 0,
      jr_conflict_floor = 0, jr_debug_leases = [], jr_debug_restore = None, jr_debug_restore_op = None,
      jr_expired_holds = [], jr_pending_persist = None, jr_field_revisions = []\<rparr>"

end
