(* ===== verification/Journal.thy ===== *)
theory Journal
  imports Journal_State
begin

text \<open>
  Operations of the durable journal (\<^verbatim>\<open>crates/core-daemon/src/journal.rs\<close>, \<^verbatim>\<open>journal/revocation.rs\<close>,
  \<^verbatim>\<open>journal/projection_bootstrap.rs\<close>, the retained work of \<^verbatim>\<open>maintenance/\<close>): which resources are
  held, the retention rule and restart fencing.  A journal update is a function from the journal to
  the new journal; the source mutates it in place under the single writer.
\<close>

section \<open>Entries\<close>

definition is_revocation_only_repair :: "journal_entry \<Rightarrow> bool" where
  "is_revocation_only_repair e =
     (je_command e = Some CmdEdit \<and> je_edit e = RepairActivation
      \<and> je_candidate e = None \<and> je_native_intent e = None
      \<and> length (or_phases (je_record e)) = 1
      \<and> phr_phase (or_phases (je_record e) ! 0) = PNative
      \<and> (case je_admission e of None \<Rightarrow> False
         | Some a \<Rightarrow> ad_from_revision a = ad_commit_revision a \<and> ad_writes a = []))"

definition unresolved :: "phase_outcome \<Rightarrow> bool" where
  "unresolved res = (res = OUnknown \<or> res = Running \<or> res = NotAttempted)"

definition held_phases :: "journal_entry \<Rightarrow> config_phase list" where
  "held_phases e =
     (if je_superseded_by e \<noteq> None \<or> or_settled (je_record e) \<noteq> Some OUnknown then []
      else
        (let open_phases = map phr_phase (filter (\<lambda>p. unresolved (phr_outcome p)) (or_phases (je_record e)));
             phases = (if open_phases = [] then map phr_phase (or_phases (je_record e)) else open_phases)
         in filter (\<lambda>p. p \<notin> set (je_superseded_phases e)) phases))"


section \<open>Retained work\<close>

definition bootstrap_held :: "projection_bootstrap \<Rightarrow> bool" where
  "bootstrap_held w = (pb_outcome w = Running \<or> pb_outcome w = OUnknown)"

definition bootstrap_fence :: "projection_bootstrap \<Rightarrow> projection_bootstrap" where
  "bootstrap_fence w =
     (if pb_outcome w = Running
      then w\<lparr>pb_outcome := (if pb_publication_intent w then OUnknown else OFailedKnown)\<rparr> else w)"

definition projection_permits_successor :: "projection_work \<Rightarrow> projection_work \<Rightarrow> bool" where
  "projection_permits_successor w nw =
     (w = nw
      \<or> (\<not> (pw_operation w \<noteq> pw_operation nw \<or> pw_request w \<noteq> pw_request nw \<or> pw_boot_id w \<noteq> pw_boot_id nw
             \<or> pw_descriptor w \<noteq> pw_descriptor nw \<or> pw_source w \<noteq> pw_source nw \<or> pw_manager w \<noteq> pw_manager nw
             \<or> (pw_dispatch_intent w \<and> \<not> pw_dispatch_intent nw) \<or> pw_outcome w \<noteq> Running)
         \<and> (if pw_dispatch_intent w
            then pw_outcome nw = OConfirmed \<or> pw_outcome nw = OUnknown \<or> pw_outcome nw = OFailedKnown
            else (pw_outcome nw = Running \<and> pw_dispatch_intent nw)
                 \<or> (pw_outcome nw = OFailedKnown \<and> \<not> pw_dispatch_intent nw))))"

definition projection_retained :: "projection_work \<Rightarrow> bool" where
  "projection_retained w = (pw_outcome w \<noteq> OFailedKnown)"

definition projection_blocks_runtime :: "projection_work \<Rightarrow> bool" where
  "projection_blocks_runtime w = (pw_outcome w = Running \<or> pw_outcome w = OUnknown)"

definition projection_fence :: "projection_work \<Rightarrow> projection_work" where
  "projection_fence w =
     (if pw_outcome w = Running
      then (if pw_dispatch_intent w
            then w\<lparr>pw_outcome := OUnknown, pw_failure := Some ManagerOutcomeUnknown\<rparr>
            else w\<lparr>pw_outcome := OFailedKnown, pw_failure := Some InterruptedBeforeDispatch\<rparr>)
      else w)"

definition replacement_retained :: "replacement_work \<Rightarrow> bool" where
  "replacement_retained w = (ms_stage (rw_status w) \<noteq> MVerified \<and> ms_stage (rw_status w) \<noteq> MFailedKnown)"

definition replacement_blocks_runtime :: "replacement_work \<Rightarrow> bool" where
  "replacement_blocks_runtime w = (replacement_retained w \<and> ms_stage (rw_status w) \<noteq> MPendingRestart)"

definition replacement_fence :: "replacement_work \<Rightarrow> replacement_work" where
  "replacement_fence w =
     (case ms_stage (rw_status w) of
        MAccepted \<Rightarrow>
          w\<lparr>rw_status := (rw_status w)\<lparr>ms_stage := MUnknown, ms_failure := Some MInterruptedBeforeDispatch\<rparr>\<rparr>
      | MDispatching \<Rightarrow>
          w\<lparr>rw_status := (rw_status w)\<lparr>ms_stage := MUnknown, ms_failure := Some DispatchUncertain\<rparr>\<rparr>
      | MVerifyingStaged \<Rightarrow>
          w\<lparr>rw_status := (rw_status w)\<lparr>ms_stage := MUnknown, ms_failure := Some DispatchUncertain\<rparr>\<rparr>
      | MRetiringLegacy \<Rightarrow>
          w\<lparr>rw_status := (rw_status w)\<lparr>ms_stage := MUnknown, ms_failure := Some DispatchUncertain\<rparr>\<rparr>
      | _ \<Rightarrow> w)"

definition revocation_open :: "zygisk_revocation \<Rightarrow> bool" where
  "revocation_open r = (zr_state r \<noteq> RvConfirmed)"

definition revocation_fence :: "zygisk_revocation \<Rightarrow> zygisk_revocation" where
  "revocation_fence r = (if zr_state r = RvRunning then r\<lparr>zr_state := RvUnknown\<rparr> else r)"

definition attempt_unresolved :: "preflight_attempt \<Rightarrow> bool" where
  "attempt_unresolved a = (case pa_state a of PfRunning \<Rightarrow> True | PfUnknown _ \<Rightarrow> True | PfFinished _ \<Rightarrow> False)"

definition ledger_uncertain :: "preflight_ledger \<Rightarrow> bool" where
  "ledger_uncertain l = list_ex attempt_unresolved (pg_attempts l)"

definition ledger_fence :: "preflight_ledger \<Rightarrow> preflight_ledger" where
  "ledger_fence l =
     l\<lparr>pg_attempts := map (\<lambda>a. if pa_state a = PfRunning then a\<lparr>pa_state := PfUnknown None\<rparr> else a) (pg_attempts l)\<rparr>"


section \<open>Rejection evidence\<close>

abbreviation "ENOKEY \<equiv> 126 :: int"
abbreviation "EKEYREJECTED \<equiv> 129 :: int"

definition retire_failed :: "zygisk_targets \<Rightarrow> bool" where
  "retire_failed t = (case t of RetireFailed _ \<Rightarrow> True | _ \<Rightarrow> False)"

definition rejection_valid_for :: "rejection_proof \<Rightarrow> native_startup \<Rightarrow> bool" where
  "rejection_valid_for p attempt =
     (case (ns_intent attempt, ns_completed attempt) of
        (Some intent, Some result) \<Rightarrow>
          (case ti_bundle intent of
             None \<Rightarrow> False
           | Some bundle \<Rightarrow>
               if rp_boot_id p \<noteq> ns_boot_id attempt
                  \<or> ti_payload intent \<noteq> Some (rp_payload p)
                  \<or> rp_manifest_sha256 p \<noteq> bi_manifest_sha256 bundle
                  \<or> rp_source_commit p \<noteq> bi_source_commit bundle
                  \<or> rp_ownership_checked_boot_ms p = 0
                  \<or> sr_selection result \<noteq> None
                  \<or> retire_failed (bs_zygisk_targets (sr_status result))
               then False
               else (case (ti_action intent, bs_outcome (sr_status result), rp_cause p) of
                       (Load NbKmod, LoadFailed NbKmod (Some code) _ _ _ _, KmodBeforeDispatch expected) \<Rightarrow> code = expected
                     | (Load NbKpm, LoadFailed NbKpm _ _ _ _ _, KpmBeforeDispatch) \<Rightarrow> True
                     | (Load NbKmod, LoadFailed NbKmod (Some code) _ _ _ _, AndroidSignatureRejected errno) \<Rightarrow>
                         code = errno \<and> (errno = ENOKEY \<or> errno = EKEYREJECTED)
                         \<and> pi_init_contract (rp_payload p) = Some 1
                     | (Load backend, MissingArtifact observed _, ArtifactAbsent) \<Rightarrow> backend = observed
                     | _ \<Rightarrow> False))
      | _ \<Rightarrow> False)"

definition is_load_failed :: "boot_outcome \<Rightarrow> bool" where
  "is_load_failed res = (case res of LoadFailed _ _ _ _ _ _ \<Rightarrow> True | _ \<Rightarrow> False)"

definition startup_uncertain :: "native_startup \<Rightarrow> bool" where
  "startup_uncertain s =
     (case ns_completed s of
        None \<Rightarrow> True
      | Some result \<Rightarrow>
          (is_load_failed (bs_outcome (sr_status result))
           \<and> \<not> (case sr_rejection result of None \<Rightarrow> False | Some p \<Rightarrow> rejection_valid_for p s))
          \<or> retire_failed (bs_zygisk_targets (sr_status result)))"


section \<open>Queries\<close>

definition bootstrap_uncertain :: "journal \<Rightarrow> bool" where
  "bootstrap_uncertain j = (case jr_zygisk_bootstrap j of None \<Rightarrow> False | Some w \<Rightarrow> bootstrap_held w)"

definition revocation_uncertain :: "journal \<Rightarrow> bool" where
  "revocation_uncertain j = (case jr_zygisk_revocation j of None \<Rightarrow> False | Some r \<Rightarrow> revocation_open r)"

definition preflight_uncertain :: "journal \<Rightarrow> bool" where
  "preflight_uncertain j = (case jr_kmod_preflights j of None \<Rightarrow> False | Some l \<Rightarrow> ledger_uncertain l)"

definition native_startup_uncertain :: "journal \<Rightarrow> bool" where
  "native_startup_uncertain j = (case jr_native_startup j of None \<Rightarrow> False | Some s \<Rightarrow> startup_uncertain s)"

definition native_lifecycle_uncertain :: "journal \<Rightarrow> bool" where
  "native_lifecycle_uncertain j =
     (native_startup_uncertain j \<or> preflight_uncertain j \<or> revocation_uncertain j)"

definition projection_blocked :: "journal \<Rightarrow> bool" where
  "projection_blocked j = (case jr_zygisk_projection j of None \<Rightarrow> False | Some w \<Rightarrow> projection_blocks_runtime w)"

definition replacement_blocked :: "journal \<Rightarrow> bool" where
  "replacement_blocked j = (case jr_replacement j of None \<Rightarrow> False | Some w \<Rightarrow> replacement_blocks_runtime w)"

definition journal_get :: "journal \<Rightarrow> u64 \<Rightarrow> journal_entry option" where
  "journal_get j op = find (\<lambda>e. or_op (je_record e) = op) (jr_operations j)"

definition is_retired :: "journal \<Rightarrow> u64 \<Rightarrow> bool" where
  "is_retired j op = (op \<le> jr_expired_through j \<or> op \<in> set (jr_retired_ids j))"

definition has_unknown :: "journal \<Rightarrow> bool" where
  "has_unknown j =
     (bootstrap_uncertain j \<or> native_lifecycle_uncertain j \<or> projection_blocked j
      \<or> jr_expired_holds j \<noteq> [] \<or> list_ex (\<lambda>e. held_phases e \<noteq> []) (jr_operations j))"

primrec phase_index :: "config_phase \<Rightarrow> nat" where
  "phase_index Persist = 0"
| "phase_index Secret = 1"
| "phase_index Cleanup = 2"
| "phase_index PNative = 3"
| "phase_index PPorts = 4"
| "phase_index Maintenance = 5"

definition sort_phases :: "config_phase list \<Rightarrow> config_phase list" where
  "sort_phases ps = remdups_adj (sort_key phase_index ps)"

definition held_resources :: "journal \<Rightarrow> config_phase list" where
  "held_resources j =
     sort_phases
       (jr_expired_holds j @ concat (map held_phases (jr_operations j))
        @ (if native_lifecycle_uncertain j \<or> bootstrap_uncertain j then [PNative] else [])
        @ (if replacement_blocked j then [Maintenance] else [])
        @ (if projection_blocked j then [Maintenance] else []))"


section \<open>Retention\<close>

definition revocation_op :: "journal \<Rightarrow> u64 option" where
  "revocation_op j =
     (case jr_zygisk_revocation j of None \<Rightarrow> None | Some r \<Rightarrow> if revocation_open r then zr_operation r else None)"

definition prunable :: "journal \<Rightarrow> journal_entry \<Rightarrow> bool" where
  "prunable j e =
     (let op = or_op (je_record e) in
      or_settled (je_record e) \<noteq> None
      \<and> Some op \<noteq> map_option (\<lambda>w. ms_operation (rw_status w)) (jr_replacement j)
      \<and> Some op \<noteq> map_option pw_operation (jr_zygisk_projection j)
      \<and> Some op \<noteq> jr_debug_restore_op j
      \<and> \<not> (Some op = revocation_op j \<and> is_revocation_only_repair e))"

definition expire_hold :: "config_phase \<Rightarrow> config_phase list \<Rightarrow> config_phase list" where
  "expire_hold phase holds = (if phase \<in> set holds then holds else holds @ [phase])"

definition expire_entry :: "journal_entry \<Rightarrow> journal \<Rightarrow> journal" where
  "expire_entry e j =
     (let held = held_phases e;
          j = (if Persist \<in> set held
               then j\<lparr>jr_pending_persist := Some \<lparr>pp_admission = je_admission e, pp_candidate = je_candidate e,
                                                  pp_reset = (je_command e = Some FullReset)\<rparr>\<rparr>
               else j);
          j = j\<lparr>jr_expired_holds := fold expire_hold held (jr_expired_holds j),
                jr_expired_through := max (jr_expired_through j) (or_op (je_record e))\<rparr>
      in case je_admission e of
           None \<Rightarrow> j
         | Some a \<Rightarrow> j\<lparr>jr_conflict_floor := max (jr_conflict_floor j) (min (ad_commit_revision a) (jr_config_revision j))\<rparr>)"

definition drain_step :: "nat list \<Rightarrow> nat \<times> journal_entry \<Rightarrow> journal \<times> journal_entry list \<Rightarrow> journal \<times> journal_entry list" where
  "drain_step drops ie st =
     (let (j, kept) = st in
      if fst ie \<in> set drops then (expire_entry (snd ie) j, kept) else (j, kept @ [snd ie]))"

definition prune :: "journal \<Rightarrow> journal" where
  "prune j =
     (let settled_idxs = filter (\<lambda>i. prunable j (jr_operations j ! i)) [0..<length (jr_operations j)]
      in if length settled_idxs \<le> jr_retain_settled j then j
         else
           (let drops = take (length settled_idxs - jr_retain_settled j) settled_idxs;
                (j1, kept) = fold (drain_step drops) (enumerate 0 (jr_operations j)) (j, [])
            in j1\<lparr>jr_operations := kept,
                  jr_field_revisions := filter (\<lambda>(_, revision). jr_conflict_floor j1 < revision) (jr_field_revisions j1)\<rparr>))"

fun replace_entry :: "journal_entry \<Rightarrow> journal_entry list \<Rightarrow> journal_entry list" where
  "replace_entry e [] = [e]"
| "replace_entry e (x # xs) =
     (if or_op (je_record x) = or_op (je_record e) then e # xs else x # replace_entry e xs)"

definition upsert :: "journal_entry \<Rightarrow> journal \<Rightarrow> journal" where
  "upsert e j =
     prune (j\<lparr>jr_issued_through := max (jr_issued_through j) (or_op (je_record e)),
              jr_operations := replace_entry e (jr_operations j)\<rparr>)"


section \<open>Restart fencing\<close>

fun update_first :: "('a \<Rightarrow> bool) \<Rightarrow> ('a \<Rightarrow> 'a) \<Rightarrow> 'a list \<Rightarrow> 'a list" where
  "update_first P f [] = []"
| "update_first P f (x # xs) = (if P x then f x # xs else x # update_first P f xs)"

definition settle_first :: "phase_outcome \<Rightarrow> journal_entry \<Rightarrow> journal_entry" where
  "settle_first res e =
     e\<lparr>je_record := (je_record e)\<lparr>or_phases := (or_phases (je_record e))[0 := (or_phases (je_record e) ! 0)\<lparr>phr_outcome := res\<rparr>],
                                   or_settled := Some res\<rparr>\<rparr>"

definition unfinished :: "journal_entry \<Rightarrow> bool" where
  "unfinished e = (\<not> je_finalized_unknown e \<and> or_settled (je_record e) = None)"

text \<open>
  The branch that proves the manager was never eligible to spawn.  The source indexes the first
  phase; the check on reading a journal (\<^verbatim>\<open>work::validate_journal\<close>) requires exactly one.
\<close>

definition fence_projection_entry :: "projection_work \<Rightarrow> journal_entry list \<Rightarrow> journal_entry list" where
  "fence_projection_entry w ops =
     (if pw_outcome w = OFailedKnown
      then update_first (\<lambda>e. or_op (je_record e) = pw_operation w)
             (\<lambda>e. if unfinished e then settle_first OFailedKnown e else e) ops
      else ops)"

text \<open>The exact subeffect completion is already durable.\<close>

definition fence_revocation_entry :: "zygisk_revocation \<Rightarrow> journal_entry list \<Rightarrow> journal_entry list" where
  "fence_revocation_entry r ops =
     (case zr_operation r of
        None \<Rightarrow> ops
      | Some op \<Rightarrow>
          if zr_state r = RvConfirmed
          then update_first (\<lambda>e. or_op (je_record e) = op)
                 (\<lambda>e. if is_revocation_only_repair e \<and> unfinished e then settle_first OConfirmed e else e) ops
          else ops)"

definition fence_phase :: "phase_record \<Rightarrow> phase_record" where
  "fence_phase p = (if phr_outcome p = Running then p\<lparr>phr_outcome := OUnknown\<rparr> else p)"

definition fence_entry :: "journal_entry \<Rightarrow> journal_entry" where
  "fence_entry e =
     (let r = je_record e;
          e = (if or_settled r = Some OUnknown then e\<lparr>je_finalized_unknown := True\<rparr> else e);
          unsure = (or_settled r = Some OUnknown \<or> or_settled r = None
                    \<or> list_ex (\<lambda>p. phr_outcome p = Running) (or_phases r));
          r = r\<lparr>or_phases := map fence_phase (or_phases r)\<rparr>
      in e\<lparr>je_record := (if unsure then r\<lparr>or_settled := Some OUnknown\<rparr> else r)\<rparr>)"

definition fence_unresolved :: "journal \<Rightarrow> journal" where
  "fence_unresolved j =
     (let projection = map_option projection_fence (jr_zygisk_projection j);
          ops = (case projection of None \<Rightarrow> jr_operations j | Some w \<Rightarrow> fence_projection_entry w (jr_operations j));
          ops = (case jr_zygisk_revocation j of None \<Rightarrow> ops | Some r \<Rightarrow> fence_revocation_entry r ops)
      in j\<lparr>jr_zygisk_bootstrap := map_option bootstrap_fence (jr_zygisk_bootstrap j),
           jr_zygisk_projection := projection,
           jr_replacement := map_option replacement_fence (jr_replacement j),
           jr_zygisk_revocation := map_option revocation_fence (jr_zygisk_revocation j),
           jr_kmod_preflights := map_option ledger_fence (jr_kmod_preflights j),
           jr_operations := map fence_entry ops\<rparr>)"

end
