(* ===== verification/Journal_Retention.thy ===== *)
theory Journal_Retention
  imports Journal Config_Edit
begin

text \<open>
  Bounded retention of receipts: dropping old receipts must not release a held resource, forget an
  operation identity or hide an edit conflict.
\<close>

section \<open>Sorting the held phases\<close>

lemma phase_index_inj: "phase_index p = phase_index q \<longleftrightarrow> p = q"
  by (cases p; cases q) simp_all

lemma sorted_key_remdups_adj_distinct:
  fixes f :: "'a \<Rightarrow> 'b::linorder"
  assumes "inj f" "sorted (map f xs)"
  shows "distinct (remdups_adj xs)"
proof -
  have "distinct (map f (remdups_adj xs))"
    using sorted_remdups_adj_strict [OF assms(2)] by (simp add: remdups_adj_map_injective [OF assms(1)])
  then show ?thesis by (simp add: distinct_map)
qed

text \<open>The canonical list only depends on the set of phases.\<close>

lemma sort_phases_cong: "set ps = set qs \<Longrightarrow> sort_phases ps = sort_phases qs"
proof -
  assume eq: "set ps = set qs"
  have inj: "inj phase_index" by (simp add: inj_def phase_index_inj)
  have canon: "sorted (map phase_index (sort_phases xs))" "distinct (sort_phases xs)" "set (sort_phases xs) = set xs" for xs
  proof -
    have s: "sorted (map phase_index (sort_key phase_index xs))" by simp
    then show "sorted (map phase_index (sort_phases xs))"
      by (simp add: sort_phases_def remdups_adj_map_injective [OF inj, symmetric] sorted_remdups_adj)
    show "distinct (sort_phases xs)"
      unfolding sort_phases_def using s by (rule sorted_key_remdups_adj_distinct [OF inj])
    show "set (sort_phases xs) = set xs" by (simp add: sort_phases_def)
  qed
  have "map phase_index (sort_phases ps) = map phase_index (sort_phases qs)"
    using canon [of ps] canon [of qs] eq
    by (intro sorted_distinct_set_unique) (simp_all add: distinct_map inj_on_def phase_index_inj)
  then show ?thesis using inj by (simp add: inj_map_eq_map)
qed


section \<open>What expiring a receipt keeps\<close>

lemma expire_frame [simp]:
  "jr_zygisk_bootstrap (expire_entry e j) = jr_zygisk_bootstrap j"
  "jr_zygisk_projection (expire_entry e j) = jr_zygisk_projection j"
  "jr_replacement (expire_entry e j) = jr_replacement j"
  "jr_zygisk_revocation (expire_entry e j) = jr_zygisk_revocation j"
  "jr_kmod_preflights (expire_entry e j) = jr_kmod_preflights j"
  "jr_native_startup (expire_entry e j) = jr_native_startup j"
  "jr_debug_restore_op (expire_entry e j) = jr_debug_restore_op j"
  "jr_retired_ids (expire_entry e j) = jr_retired_ids j"
  "jr_issued_through (expire_entry e j) = jr_issued_through j"
  "jr_config_revision (expire_entry e j) = jr_config_revision j"
  "jr_retain_settled (expire_entry e j) = jr_retain_settled j"
  "jr_field_revisions (expire_entry e j) = jr_field_revisions j"
  "jr_operations (expire_entry e j) = jr_operations j"
  by (simp_all add: expire_entry_def Let_def split: option.split)

lemma set_expire_hold: "set (fold expire_hold held holds) = set holds \<union> set held"
  by (induction held arbitrary: holds) (auto simp: expire_hold_def)

lemma expire_effect:
  "set (jr_expired_holds (expire_entry e j)) = set (jr_expired_holds j) \<union> set (held_phases e)"
  "jr_expired_through (expire_entry e j) = max (jr_expired_through j) (or_op (je_record e))"
  by (simp_all add: expire_entry_def Let_def set_expire_hold split: option.split)

lemma expire_floor: "jr_conflict_floor j \<le> jr_conflict_floor (expire_entry e j)"
  "jr_conflict_floor j \<le> jr_config_revision j \<Longrightarrow> jr_conflict_floor (expire_entry e j) \<le> jr_config_revision j"
  by (auto simp: expire_entry_def Let_def split: option.split)

lemma expires_frame [simp]:
  "jr_zygisk_bootstrap (fold expire_entry es j) = jr_zygisk_bootstrap j"
  "jr_zygisk_projection (fold expire_entry es j) = jr_zygisk_projection j"
  "jr_replacement (fold expire_entry es j) = jr_replacement j"
  "jr_zygisk_revocation (fold expire_entry es j) = jr_zygisk_revocation j"
  "jr_kmod_preflights (fold expire_entry es j) = jr_kmod_preflights j"
  "jr_native_startup (fold expire_entry es j) = jr_native_startup j"
  "jr_debug_restore_op (fold expire_entry es j) = jr_debug_restore_op j"
  "jr_retired_ids (fold expire_entry es j) = jr_retired_ids j"
  "jr_issued_through (fold expire_entry es j) = jr_issued_through j"
  "jr_config_revision (fold expire_entry es j) = jr_config_revision j"
  "jr_retain_settled (fold expire_entry es j) = jr_retain_settled j"
  "jr_field_revisions (fold expire_entry es j) = jr_field_revisions j"
  by (induction es arbitrary: j) simp_all

lemma expires_effect:
  "set (jr_expired_holds (fold expire_entry es j)) = set (jr_expired_holds j) \<union> (\<Union>e\<in>set es. set (held_phases e))"
  "jr_expired_through j \<le> jr_expired_through (fold expire_entry es j)"
  "e \<in> set es \<Longrightarrow> or_op (je_record e) \<le> jr_expired_through (fold expire_entry es j)"
  "jr_conflict_floor j \<le> jr_conflict_floor (fold expire_entry es j)"
  "jr_conflict_floor j \<le> jr_config_revision j \<Longrightarrow> jr_conflict_floor (fold expire_entry es j) \<le> jr_config_revision j"
proof (induction es arbitrary: j)
  case Nil
  { case 1 then show ?case by simp next case 2 then show ?case by simp next case 3 then show ?case by simp
  next case 4 then show ?case by simp next case 5 then show ?case by simp }
next
  case (Cons a es)
  { case 1 show ?case by (simp add: Cons.IH(1) expire_effect Un_assoc)
  next case 2 show ?case using Cons.IH(2) [of "expire_entry a j"] by (simp add: expire_effect)
  next case 3 then show ?case using Cons.IH(2,3) [of "expire_entry a j"] by (auto simp: expire_effect)
  next case 4 show ?case using Cons.IH(4) [of "expire_entry a j"] expire_floor(1) [of j a] by (simp add: order_trans)
  next case 5 then show ?case using Cons.IH(5) [of "expire_entry a j"] expire_floor(2) [of j a] by simp }
qed


section \<open>The drained receipts\<close>

lemma drain_fold:
  "fold (drain_step drops) xs (j, kept) =
     (fold expire_entry (map snd (filter (\<lambda>ie. fst ie \<in> set drops) xs)) j,
      kept @ map snd (filter (\<lambda>ie. fst ie \<notin> set drops) xs))"
  by (induction xs arbitrary: j kept) (simp_all add: drain_step_def)

lemma enumerate_nth: "enumerate 0 xs = map (\<lambda>i. (i, xs ! i)) [0..<length xs]"
  by (rule nth_equalityI) (simp_all add: nth_enumerate_eq)

lemma filter_not_take: "distinct xs \<Longrightarrow> filter (\<lambda>x. x \<notin> set (take k xs)) xs = drop k xs"
proof -
  assume d: "distinct xs"
  then have disj: "set (take k xs) \<inter> set (drop k xs) = {}"
    by (metis append_take_drop_id distinct_append)
  have "filter P xs = filter P (take k xs) @ filter P (drop k xs)" for P
    by (metis append_take_drop_id filter_append)
  moreover have "filter (\<lambda>x. x \<notin> set (take k xs)) (drop k xs) = drop k xs"
    using disj by (auto simp: filter_id_conv)
  ultimately show ?thesis by (simp add: filter_empty_conv)
qed

lemma prune_cases:
  obtains (fits) "length (filter (prunable j) (jr_operations j)) \<le> jr_retain_settled j" "prune j = j"
  | (drops) dropped kept where
      "set (jr_operations j) = set dropped \<union> set kept" "list_all (prunable j) dropped"
      "length (filter (prunable j) kept) = jr_retain_settled j"
      "prune j = (fold expire_entry dropped j)\<lparr>jr_operations := kept,
         jr_field_revisions := filter (\<lambda>(_, revision). jr_conflict_floor (fold expire_entry dropped j) < revision)
                                 (jr_field_revisions j)\<rparr>"
proof -
  let ?ops = "jr_operations j" let ?idx = "[0..<length ?ops]"
  let ?P = "\<lambda>i. prunable j (?ops ! i)"
  define idxs where "idxs = filter ?P ?idx"
  have ops: "map ((!) ?ops) ?idx = ?ops" by (rule map_nth)
  have len: "length idxs = length (filter (prunable j) ?ops)"
    unfolding idxs_def by (subst (2) ops [symmetric], simp only: filter_map length_map comp_def)
  show thesis
  proof (cases "length idxs \<le> jr_retain_settled j")
    case True
    then show thesis using fits len by (simp add: prune_def idxs_def)
  next
    case False
    define ds where "ds = take (length idxs - jr_retain_settled j) idxs"
    define dropped where "dropped = map ((!) ?ops) (filter (\<lambda>i. i \<in> set ds) ?idx)"
    define kept where "kept = map ((!) ?ops) (filter (\<lambda>i. i \<notin> set ds) ?idx)"
    have enum: "map snd (filter (\<lambda>ie. Q (fst ie)) (enumerate 0 ?ops)) = map ((!) ?ops) (filter Q ?idx)" for Q
      by (simp add: enumerate_nth filter_map comp_def)
    have dsP: "set ds \<subseteq> {i. i < length ?ops \<and> ?P i}"
      unfolding ds_def idxs_def using set_take_subset by fastforce
    have "set ?ops = (!) ?ops ` set ?idx" by (metis ops set_map)
    then have "set ?ops = set dropped \<union> set kept" by (auto simp: dropped_def kept_def)
    moreover have "list_all (prunable j) dropped" using dsP by (auto simp: dropped_def list_all_iff)
    moreover have "length (filter (prunable j) kept) = jr_retain_settled j"
    proof -
      have "length (filter (prunable j) kept) = length (filter (\<lambda>i. i \<notin> set ds) idxs)"
        by (simp add: kept_def idxs_def filter_map comp_def conj_commute)
      also have "filter (\<lambda>i. i \<notin> set ds) idxs = drop (length idxs - jr_retain_settled j) idxs"
        unfolding ds_def by (rule filter_not_take) (simp add: idxs_def)
      finally show ?thesis using False by simp
    qed
    moreover have "prune j = (fold expire_entry dropped j)\<lparr>jr_operations := kept,
         jr_field_revisions := filter (\<lambda>(_, revision). jr_conflict_floor (fold expire_entry dropped j) < revision)
                                 (jr_field_revisions j)\<rparr>"
      using False
      by (simp add: prune_def idxs_def [symmetric] ds_def [symmetric] Let_def drain_fold
          enum [of "\<lambda>i. i \<in> set ds"] enum [of "\<lambda>i. i \<notin> set ds"] dropped_def [symmetric] kept_def [symmetric])
    ultimately show thesis by (rule drops)
  qed
qed

text \<open>
  C28. Retention never releases a resource.  Whatever receipts are dropped, exactly the same
  resources stay held, and the journal reports unresolved uncertainty exactly as before.
\<close>

theorem prune_keeps_holds:
  "held_resources (prune j) = held_resources j \<and> has_unknown (prune j) = has_unknown j"
proof (cases rule: prune_cases [of j])
  case (drops dropped kept)
  have flags: "native_lifecycle_uncertain (prune j) = native_lifecycle_uncertain j"
    "bootstrap_uncertain (prune j) = bootstrap_uncertain j" "replacement_blocked (prune j) = replacement_blocked j"
    "projection_blocked (prune j) = projection_blocked j"
    unfolding drops(4)
    by (simp_all add: native_lifecycle_uncertain_def native_startup_uncertain_def preflight_uncertain_def
        revocation_uncertain_def bootstrap_uncertain_def replacement_blocked_def projection_blocked_def)
  have holds: "set (jr_expired_holds (prune j)) \<union> (\<Union>e\<in>set (jr_operations (prune j)). set (held_phases e)) =
      set (jr_expired_holds j) \<union> (\<Union>e\<in>set (jr_operations j). set (held_phases e))"
    unfolding drops(4) by (simp add: expires_effect(1) drops(1) Un_assoc)
  have "held_resources (prune j) = held_resources j"
    unfolding held_resources_def by (rule sort_phases_cong) (use holds in \<open>simp add: flags Un_assoc [symmetric]\<close>)
  moreover have iff: "(jr_expired_holds x \<noteq> [] \<or> list_ex (\<lambda>e. held_phases e \<noteq> []) (jr_operations x)) =
      (set (jr_expired_holds x) \<union> (\<Union>e\<in>set (jr_operations x). set (held_phases e)) \<noteq> {})" for x
    by (auto simp: list_ex_iff)
  have "has_unknown (prune j) = has_unknown j"
    unfolding has_unknown_def flags iff holds by (rule refl)
  ultimately show ?thesis by simp
qed simp


section \<open>Identities and conflicts\<close>

definition known :: "journal \<Rightarrow> u64 \<Rightarrow> bool" where
  "known j op = (journal_get j op \<noteq> None \<or> is_retired j op)"

lemma journal_get_iff: "journal_get j op \<noteq> None \<longleftrightarrow> op \<in> (\<lambda>e. or_op (je_record e)) ` set (jr_operations j)"
  by (auto simp: journal_get_def find_None_iff)

lemma known_iff:
  "known j op \<longleftrightarrow> op \<in> (\<lambda>e. or_op (je_record e)) ` set (jr_operations j) \<or> is_retired j op"
  unfolding known_def journal_get_iff ..

lemma prune_known: "known j op \<Longrightarrow> known (prune j) op"
proof (cases rule: prune_cases [of j])
  case (drops dropped kept)
  assume k: "known j op"
  have ret: "is_retired j op \<Longrightarrow> is_retired (prune j) op"
    unfolding drops(4) using expires_effect(2) [of j dropped] by (auto simp: is_retired_def)
  have "op \<in> (\<lambda>e. or_op (je_record e)) ` set (jr_operations (prune j)) \<or> is_retired (prune j) op"
    if "e \<in> set (jr_operations j)" "op = or_op (je_record e)" for e
    using that unfolding drops(4) by (auto simp: drops(1) is_retired_def expires_effect(3))
  with ret k show ?thesis unfolding known_iff by blast
qed simp

lemma prune_frame:
  "jr_retain_settled (prune j) = jr_retain_settled j \<and> jr_issued_through (prune j) = jr_issued_through j
      \<and> jr_config_revision (prune j) = jr_config_revision j \<and> prunable (prune j) = prunable j"
proof (cases rule: prune_cases [of j])
  case (drops dropped kept)
  show ?thesis
    unfolding drops(4) by (auto simp: prunable_def revocation_op_def fun_eq_iff)
qed simp

lemma prune_bound: "length (filter (prunable j) (jr_operations (prune j))) \<le> jr_retain_settled j"
  by (cases rule: prune_cases [of j]) simp_all

lemma prune_keeps_pinned: "e \<in> set (jr_operations j) \<Longrightarrow> \<not> prunable j e \<Longrightarrow> e \<in> set (jr_operations (prune j))"
  by (cases rule: prune_cases [of j]) (auto simp: list_all_iff)

lemma set_replace_entry: "e \<in> set (replace_entry e es)"
  "x \<in> set es \<Longrightarrow> or_op (je_record x) \<noteq> or_op (je_record e) \<Longrightarrow> x \<in> set (replace_entry e es)"
  by (induction es) auto

text \<open>
  C30. Accepting or updating an operation forgets no identity.  Every operation the journal knew is
  still answered from its receipt or reported as retired, so a command id is never accepted twice;
  the new receipt is stored; receipts beyond the retention bound are gone; and an unsettled or pinned
  entry is never dropped.
\<close>

theorem upsert_never_forgets:
  assumes "known j op \<or> op = or_op (je_record e)"
  shows "known (upsert e j) op
       \<and> or_op (je_record e) \<le> jr_issued_through (upsert e j)
       \<and> length (filter (prunable (upsert e j)) (jr_operations (upsert e j))) \<le> jr_retain_settled j
       \<and> {x \<in> set (jr_operations j). \<not> prunable j x \<and> or_op (je_record x) \<noteq> or_op (je_record e)}
           \<subseteq> set (jr_operations (upsert e j))"
proof -
  define j1 where "j1 = j\<lparr>jr_issued_through := max (jr_issued_through j) (or_op (je_record e)),
              jr_operations := replace_entry e (jr_operations j)\<rparr>"
  have u: "upsert e j = prune j1" by (simp add: upsert_def j1_def)
  have pr: "prunable j1 = prunable j" by (simp add: j1_def prunable_def revocation_op_def fun_eq_iff)
  have "known j1 op"
  proof (cases "op = or_op (je_record e)")
    case True
    then show ?thesis
      using set_replace_entry(1) [of e "jr_operations j"] by (auto simp: known_iff j1_def)
  next
    case False
    with assms have "known j op" by simp
    with False show ?thesis unfolding known_iff
      by (auto simp: j1_def is_retired_def intro!: image_eqI [OF _ set_replace_entry(2)])
  qed
  then have "known (upsert e j) op" unfolding u by (rule prune_known)
  moreover have "length (filter (prunable (upsert e j)) (jr_operations (upsert e j))) \<le> jr_retain_settled j"
    using prune_bound [of j1] prune_frame [of j1] by (simp add: u) (simp add: j1_def)
  moreover have "x \<in> set (jr_operations (upsert e j))"
    if "x \<in> set (jr_operations j)" "\<not> prunable j x" "or_op (je_record x) \<noteq> or_op (je_record e)" for x
    unfolding u by (rule prune_keeps_pinned) (use that in \<open>simp_all add: pr, simp add: j1_def set_replace_entry\<close>)
  moreover have "or_op (je_record e) \<le> jr_issued_through (upsert e j)" using prune_frame [of j1] by (simp add: u) (simp add: j1_def)
  ultimately show ?thesis by blast
qed

definition sample_entry :: "u64 \<Rightarrow> phase_outcome \<Rightarrow> phase_outcome option \<Rightarrow> journal_entry" where
  "sample_entry op res settled =
     \<lparr>je_maintenance = None, je_maintenance_report = None, je_admission = None, je_command = Some CmdEdit,
      je_superseded_by = None, je_superseded_phases = [], je_finalized_unknown = False, je_base = 0,
      je_edit = RepairActivation, je_candidate = None, je_native_intent = None,
      je_record = \<lparr>or_op = op, or_phases = [\<lparr>phr_phase = Persist, phr_outcome = res\<rparr>], or_settled = settled,
                   or_ports = None\<rparr>\<rparr>"

definition sample_journal :: "journal_entry list \<Rightarrow> journal" where
  "sample_journal es = journal_default\<lparr>jr_retain_settled := 1, jr_operations := es, jr_issued_through := 9\<rparr>"

lemmas sample_defs = sample_entry_def sample_journal_def journal_default_def

text \<open>A full journal: the oldest receipt is retired, and its unresolved phase stays held.\<close>

theorem upsert_never_forgets_witness:
  "known (upsert (sample_entry 2 OConfirmed (Some OConfirmed)) (sample_journal [sample_entry 1 OUnknown (Some OUnknown)])) 1
   \<and> journal_get (upsert (sample_entry 2 OConfirmed (Some OConfirmed)) (sample_journal [sample_entry 1 OUnknown (Some OUnknown)])) 1 = None"
proof -
  let ?j = "sample_journal [sample_entry 1 OUnknown (Some OUnknown)]" and ?e = "sample_entry 2 OConfirmed (Some OConfirmed)"
  have k: "known ?j 1 \<or> 1 = or_op (je_record ?e)" by (simp add: known_def journal_get_def sample_defs)
  have "journal_get (upsert ?e ?j) 1 = None"
    by (simp add: upsert_def prune_def Let_def prunable_def revocation_op_def drain_step_def expire_entry_def
        journal_get_def sample_defs upt_rec held_phases_def unresolved_def)
  with upsert_never_forgets [OF k] show ?thesis by blast
qed

text \<open>
  Compaction hides no conflict.  For every base the writer still admits, one not below the
  conflict floor, an edit conflicts with the compacted history exactly where it conflicted before;
  and the floor never exceeds the current revision, so a fresh base is always admitted.
\<close>

theorem prune_keeps_conflicts:
  assumes "jr_conflict_floor (prune j) \<le> base"
  shows "conflict_field base cur edit (jr_field_revisions (prune j)) = conflict_field base cur edit (jr_field_revisions j)
       \<and> jr_conflict_floor j \<le> jr_conflict_floor (prune j)
       \<and> (jr_conflict_floor j \<le> jr_config_revision j \<longrightarrow> jr_conflict_floor (prune j) \<le> jr_config_revision (prune j))"
  using assms
proof (cases rule: prune_cases [of j])
  case (drops dropped kept)
  let ?floor = "jr_conflict_floor (fold expire_entry dropped j)"
  have f: "jr_conflict_floor (prune j) = ?floor"
    "jr_field_revisions (prune j) = filter (\<lambda>(_, revision). ?floor < revision) (jr_field_revisions j)"
    unfolding drops(4) by simp_all
  have "list_ex (\<lambda>(written, rev). base < rev \<and> fields_overlap w written) (jr_field_revisions (prune j)) =
      list_ex (\<lambda>(written, rev). base < rev \<and> fields_overlap w written) (jr_field_revisions j)" for w
    using assms unfolding f by (fastforce simp: list_ex_iff)
  then have "conflict_field base cur edit (jr_field_revisions (prune j)) = conflict_field base cur edit (jr_field_revisions j)"
    by (simp add: conflict_field_def)
  with expires_effect(4,5) [of j dropped] show ?thesis using prune_frame [of j] by (simp add: f)
qed simp

theorem prune_keeps_conflicts_witness:
  "conflict_field 4 6 (RemoveApp ''a'')
     (jr_field_revisions (prune (journal_default\<lparr>jr_field_revisions := [(''apps/a'', 5)]\<rparr>))) = Some ''apps/a''"
proof -
  let ?j = "journal_default\<lparr>jr_field_revisions := [(''apps/a'', 5)]\<rparr>"
  have "prune ?j = ?j" by (simp add: prune_def journal_default_def)
  then have floor: "jr_conflict_floor (prune ?j) \<le> 4" by (simp add: journal_default_def)
  have "conflict_field 4 6 (RemoveApp ''a'') (jr_field_revisions ?j) = Some ''apps/a''" by code_simp
  with prune_keeps_conflicts [OF floor, of 6 "RemoveApp ''a''"] show ?thesis by simp
qed

end
