(* ===== verification/Journal_Recovery.thy ===== *)
theory Journal_Recovery
  imports Journal Zygisk_Activation
begin

text \<open>
  Restart recovery: what fencing leaves behind (\<^verbatim>\<open>Journal::fence_unresolved\<close>) and the one-time
  evidence readback of \<^verbatim>\<open>crates/core-daemon/src/recovery.rs\<close>.  The durable evidence, the
  configuration file and the Zygisk module directory, is a parameter: the record of what a read
  returns.
\<close>

section \<open>Evidence\<close>

text \<open>
  \<open>Inl\<close> is a read error.  \<open>ev_config\<close> is \<open>None\<close> when no configuration path is given;
  \<open>ev_recipient m\<close> is \<open>None\<close> when \<^verbatim>\<open>ZygiskTarget::open\<close> refuses the module directory.
\<close>

record recipient_view =
  rv_identity :: "string + u64 \<times> u64"
  rv_bundled :: "string + bool"
  rv_authorized :: "string \<Rightarrow> string + authorization option"

datatype targets_read = TxtMissing | TxtUnreadable | Txt string

record evidence_sources =
  ev_config :: "(string + canonical_config option) option"
  ev_boot_id :: string
  ev_recipient :: "string \<Rightarrow> recipient_view option"
  ev_targets :: "string \<Rightarrow> targets_read"

definition reconcile_persist :: "canonical_config \<Rightarrow> (string + canonical_config option) option \<Rightarrow> phase_outcome" where
  "reconcile_persist candidate config =
     (case config of
        None \<Rightarrow> OUnknown
      | Some (Inr (Some on_disk)) \<Rightarrow> if on_disk = candidate then OConfirmed else OFailedKnown
      | Some (Inr None) \<Rightarrow> OFailedKnown
      | Some (Inl _) \<Rightarrow> OUnknown)"

definition reconcile_reset :: "(string + canonical_config option) option \<Rightarrow> phase_outcome" where
  "reconcile_reset config =
     (case config of
        Some (Inr None) \<Rightarrow> OConfirmed
      | Some (Inr (Some _)) \<Rightarrow> OFailedKnown
      | _ \<Rightarrow> OUnknown)"

definition reconcile_bundled_publication ::
    "evidence_sources \<Rightarrow> string \<Rightarrow> string \<Rightarrow> authorization_intent \<Rightarrow> phase_outcome" where
  "reconcile_bundled_publication ev m wire intent =
     (if ev_boot_id ev \<noteq> ai_boot_id intent then OUnknown
      else case ev_recipient ev m of
        None \<Rightarrow> OUnknown
      | Some view \<Rightarrow>
          if res_ok (rv_identity view) \<noteq> Some (ai_directory_identity intent) then OUnknown
          else case rv_authorized view (ev_boot_id ev) of
            Inr (Some current) \<Rightarrow> if matches current (ai_generation intent) wire then OConfirmed else OUnknown
          | _ \<Rightarrow> OUnknown)"

definition reconcile_zygisk_publication :: "evidence_sources \<Rightarrow> string \<Rightarrow> string \<Rightarrow> phase_outcome" where
  "reconcile_zygisk_publication ev m expected_wire =
     (case ev_targets ev m of
        TxtMissing \<Rightarrow> OFailedKnown
      | TxtUnreadable \<Rightarrow> OUnknown
      | Txt on_disk \<Rightarrow> if expected_wire = on_disk then OConfirmed else OFailedKnown)"

definition reconcile_native :: "evidence_sources \<Rightarrow> native_intent option \<Rightarrow> phase_outcome" where
  "reconcile_native ev intent =
     (case intent of
        None \<Rightarrow> OUnknown
      | Some i \<Rightarrow>
          if ni_backend i = NbZygisk then
            (case ni_zygisk_module i of
               None \<Rightarrow> OUnknown
             | Some m \<Rightarrow>
                 (case ni_zygisk_authorization i of
                    Some a \<Rightarrow> reconcile_bundled_publication ev m (ni_wire i) a
                  | None \<Rightarrow>
                      if map_option rv_bundled (ev_recipient ev m) \<noteq> Some (Inr False) then OUnknown
                      else reconcile_zygisk_publication ev m (ni_wire i)))
          else OUnknown)"

definition settle_from_phases :: "phase_record list \<Rightarrow> phase_outcome" where
  "settle_from_phases phases =
     (if phases = [] then OUnknown
      else if list_ex (\<lambda>p. phr_outcome p = OUnknown \<or> phr_outcome p = Running) phases then OUnknown
      else if list_ex (\<lambda>p. phr_outcome p = OFailedKnown) phases then OFailedKnown
      else if list_ex (\<lambda>p. phr_outcome p = NotAttempted) phases then OUnknown
      else if list_all (\<lambda>p. phr_outcome p = OConfirmed) phases then OConfirmed
      else OUnknown)"

definition resolve_phase :: "evidence_sources \<Rightarrow> journal_entry \<Rightarrow> canonical_config \<Rightarrow> config_phase \<Rightarrow> phase_outcome" where
  "resolve_phase ev e candidate phase =
     (case phase of
        Persist \<Rightarrow> if je_command e = Some FullReset then reconcile_reset (ev_config ev)
                   else reconcile_persist candidate (ev_config ev)
      | PNative \<Rightarrow> reconcile_native ev (je_native_intent e)
      | _ \<Rightarrow> OUnknown)"

definition reconcile_phase ::
    "evidence_sources \<Rightarrow> journal_entry \<Rightarrow> canonical_config \<Rightarrow> phase_record \<Rightarrow> phase_record \<times> bool" where
  "reconcile_phase ev e candidate p =
     (if phr_outcome p \<noteq> OUnknown \<or> phr_phase p \<in> set (je_superseded_phases e) then (p, False)
      else (let resolved = resolve_phase ev e candidate (phr_phase p)
            in if resolved \<noteq> OUnknown then (p\<lparr>phr_outcome := resolved\<rparr>, True) else (p, False)))"

definition reconcile_entry :: "evidence_sources \<Rightarrow> journal_entry \<Rightarrow> journal_entry \<times> bool" where
  "reconcile_entry ev e =
     (let r = je_record e in
      if je_superseded_by e \<noteq> None \<or> je_finalized_unknown e then (e, False)
      else if (or_settled r = Some OConfirmed \<or> or_settled r = Some OFailedKnown)
              \<and> \<not> list_ex (\<lambda>p. phr_outcome p = OUnknown \<or> phr_outcome p = Running) (or_phases r)
      then (e, False)
      else case je_candidate e of
        None \<Rightarrow> (e, False)
      | Some candidate \<Rightarrow>
          (let steps = map (reconcile_phase ev e candidate) (or_phases r);
               phases = map fst steps;
               new_settled = settle_from_phases phases
           in (e\<lparr>je_record := r\<lparr>or_phases := phases, or_settled := Some new_settled\<rparr>\<rparr>,
               list_ex snd steps \<or> or_settled r \<noteq> Some new_settled)))"

definition persist_commit_observed :: "journal_entry \<Rightarrow> canonical_config option \<Rightarrow> bool" where
  "persist_commit_observed e durable =
     list_ex (\<lambda>p. phr_phase p = Persist
                  \<and> (phr_outcome p = OConfirmed
                     \<or> (phr_outcome p = OUnknown
                        \<and> (if je_command e = Some FullReset then durable = None
                           else je_candidate e \<noteq> None \<and> je_candidate e = durable))))
       (or_phases (je_record e))"

definition pending_persist_matches :: "pending_persist \<Rightarrow> canonical_config option \<Rightarrow> bool" where
  "pending_persist_matches expired durable =
     (if pp_reset expired then durable = None else pp_candidate expired \<noteq> None \<and> pp_candidate expired = durable)"

definition revision_after_reconcile :: "journal_entry \<Rightarrow> u64 \<Rightarrow> canonical_config option \<Rightarrow> u64" where
  "revision_after_reconcile e journal_revision durable =
     (if persist_commit_observed e durable then
        (case je_admission e of None \<Rightarrow> journal_revision | Some a \<Rightarrow> max journal_revision (ad_commit_revision a))
      else journal_revision)"


section \<open>Fencing\<close>

lemma length_update_first [simp]: "length (update_first P f xs) = length xs"
  by (induction xs) simp_all

lemma update_first_nth:
  "i < length xs \<Longrightarrow> update_first P f xs ! i = xs ! i \<or> P (xs ! i) \<and> update_first P f xs ! i = f (xs ! i)"
proof (induction xs arbitrary: i)
  case (Cons x xs)
  then show ?case by (cases i) auto
qed simp

lemma length_fence [simp]:
  "length (fence_projection_entry w ops) = length ops" "length (fence_revocation_entry r ops) = length ops"
  by (simp_all add: fence_projection_entry_def fence_revocation_entry_def split: option.split)

text \<open>
  The two proofs that let an interrupted operation settle definitely: managed preparation that was
  never dispatched, and an authorization revocation whose completion is already durable.
\<close>

definition never_dispatched :: "journal \<Rightarrow> journal_entry \<Rightarrow> bool" where
  "never_dispatched j e =
     (case jr_zygisk_projection j of
        None \<Rightarrow> False
      | Some w \<Rightarrow> pw_operation w = or_op (je_record e)
                  \<and> (pw_outcome w = OFailedKnown \<or> (pw_outcome w = Running \<and> \<not> pw_dispatch_intent w)))"

definition revocation_done :: "journal \<Rightarrow> journal_entry \<Rightarrow> bool" where
  "revocation_done j e =
     (is_revocation_only_repair e
      \<and> (case jr_zygisk_revocation j of
           None \<Rightarrow> False
         | Some r \<Rightarrow> zr_state r = RvConfirmed \<and> zr_operation r = Some (or_op (je_record e))))"

lemma fence_projection_nth:
  assumes "i < length ops"
  shows "fence_projection_entry w ops ! i = ops ! i
       \<or> pw_outcome w = OFailedKnown \<and> pw_operation w = or_op (je_record (ops ! i)) \<and> unfinished (ops ! i)
         \<and> fence_projection_entry w ops ! i = settle_first OFailedKnown (ops ! i)"
  using update_first_nth [OF assms, of "\<lambda>e. or_op (je_record e) = pw_operation w"
      "\<lambda>e. if unfinished e then settle_first OFailedKnown e else e"]
  by (auto simp: fence_projection_entry_def split: if_splits)

lemma fence_revocation_nth:
  assumes "i < length ops"
  shows "fence_revocation_entry r ops ! i = ops ! i
       \<or> zr_state r = RvConfirmed \<and> zr_operation r = Some (or_op (je_record (ops ! i))) \<and> unfinished (ops ! i)
         \<and> is_revocation_only_repair (ops ! i)
         \<and> fence_revocation_entry r ops ! i = settle_first OConfirmed (ops ! i)"
proof (cases "zr_operation r")
  case (Some op)
  then show ?thesis
    using update_first_nth [OF assms, of "\<lambda>e. or_op (je_record e) = op"
        "\<lambda>e. if is_revocation_only_repair e \<and> unfinished e then settle_first OConfirmed e else e"]
    by (auto simp: fence_revocation_entry_def split: if_splits)
qed (simp add: fence_revocation_entry_def)

lemma settle_first_not_unfinished: "\<not> unfinished (settle_first res e)"
  by (simp add: unfinished_def settle_first_def)

lemma projection_fence_failed:
  "pw_outcome (projection_fence w) = OFailedKnown \<longleftrightarrow>
     pw_outcome w = OFailedKnown \<or> (pw_outcome w = Running \<and> \<not> pw_dispatch_intent w)"
  "pw_operation (projection_fence w) = pw_operation w"
  by (auto simp: projection_fence_def)

text \<open>One entry before and after: plain fencing, or one of the two proofs first.\<close>

lemma fence_cases:
  assumes "i < length (jr_operations j)"
  obtains (plain) "jr_operations (fence_unresolved j) ! i = fence_entry (jr_operations j ! i)"
  | (failed) "unfinished (jr_operations j ! i)" "never_dispatched j (jr_operations j ! i)"
      "jr_operations (fence_unresolved j) ! i = fence_entry (settle_first OFailedKnown (jr_operations j ! i))"
  | (revoked) "unfinished (jr_operations j ! i)" "revocation_done j (jr_operations j ! i)"
      "jr_operations (fence_unresolved j) ! i = fence_entry (settle_first OConfirmed (jr_operations j ! i))"
proof -
  let ?ops = "jr_operations j"
  define ops1 where "ops1 = (case map_option projection_fence (jr_zygisk_projection j) of
      None \<Rightarrow> ?ops | Some w \<Rightarrow> fence_projection_entry w ?ops)"
  define ops2 where "ops2 = (case jr_zygisk_revocation j of None \<Rightarrow> ops1 | Some r \<Rightarrow> fence_revocation_entry r ops1)"
  have len: "length ops1 = length ?ops" "length ops2 = length ?ops"
    by (simp_all add: ops1_def ops2_def split: option.split)
  have "jr_operations (fence_unresolved j) = map fence_entry ops2"
    unfolding fence_unresolved_def Let_def ops2_def ops1_def by simp
  then have fin: "jr_operations (fence_unresolved j) ! i = fence_entry (ops2 ! i)"
    using assms len by simp
  have one: "ops1 ! i = ?ops ! i \<or>
      unfinished (?ops ! i) \<and> never_dispatched j (?ops ! i) \<and> ops1 ! i = settle_first OFailedKnown (?ops ! i)"
  proof (cases "jr_zygisk_projection j")
    case (Some w)
    then show ?thesis using fence_projection_nth [OF assms, of "projection_fence w"]
      by (auto simp: ops1_def never_dispatched_def projection_fence_failed)
  qed (simp add: ops1_def)
  have two: "ops2 ! i = ops1 ! i \<or> unfinished (ops1 ! i) \<and> revocation_done j (ops1 ! i) \<and> ops2 ! i = settle_first OConfirmed (ops1 ! i)"
  proof (cases "jr_zygisk_revocation j")
    case (Some r)
    then show ?thesis using assms len fence_revocation_nth [of i ops1 r] by (auto simp: ops2_def revocation_done_def)
  qed (simp add: ops2_def)
  from one two settle_first_not_unfinished show thesis
    by (metis fin plain failed revoked)
qed

lemma fence_entry_fields:
  "or_op (je_record (fence_entry e)) = or_op (je_record e)"
  "map phr_phase (or_phases (je_record (fence_entry e))) = map phr_phase (or_phases (je_record e))"
  "or_phases (je_record (fence_entry e)) = map fence_phase (or_phases (je_record e))"
  "je_superseded_by (fence_entry e) = je_superseded_by e" "je_superseded_phases (fence_entry e) = je_superseded_phases e"
  by (auto simp: fence_entry_def Let_def fence_phase_def)

lemma fence_entry_settled:
  "or_settled (je_record (fence_entry e)) =
     (if or_settled (je_record e) = None \<or> list_ex (\<lambda>p. phr_outcome p = Running) (or_phases (je_record e))
      then Some OUnknown else or_settled (je_record e))"
  by (auto simp: fence_entry_def Let_def)

lemma fence_phase_not_running: "phr_outcome (fence_phase p) \<noteq> Running"
  by (simp add: fence_phase_def)


definition entry_quiet :: "journal_entry \<Rightarrow> bool" where
  "entry_quiet e = (or_settled (je_record e) \<noteq> None \<and> list_all (\<lambda>p. phr_outcome p \<noteq> Running) (or_phases (je_record e)))"

definition quiescent :: "journal \<Rightarrow> bool" where
  "quiescent j =
     (list_all entry_quiet (jr_operations j)
      \<and> (\<forall>w. jr_zygisk_bootstrap j = Some w \<longrightarrow> pb_outcome w \<noteq> Running)
      \<and> (\<forall>w. jr_zygisk_projection j = Some w \<longrightarrow> pw_outcome w \<noteq> Running)
      \<and> (\<forall>w. jr_replacement j = Some w \<longrightarrow>
           ms_stage (rw_status w) \<notin> {MAccepted, MDispatching, MVerifyingStaged, MRetiringLegacy})
      \<and> (\<forall>r. jr_zygisk_revocation j = Some r \<longrightarrow> zr_state r \<noteq> RvRunning)
      \<and> (\<forall>l. jr_kmod_preflights j = Some l \<longrightarrow> list_all (\<lambda>a. pa_state a \<noteq> PfRunning) (pg_attempts l)))"

lemma fence_entry_quiet: "entry_quiet (fence_entry e)"
  by (auto simp: entry_quiet_def fence_entry_settled fence_entry_fields list_all_iff fence_phase_not_running)

lemma fence_entry_settled_same:
  assumes "or_settled (je_record e) \<noteq> None" "or_settled (je_record e) \<noteq> Some OUnknown"
    "list_all (\<lambda>p. phr_outcome p \<noteq> Running) (or_phases (je_record e))"
  shows "fence_entry e = e"
proof -
  have "map fence_phase (or_phases (je_record e)) = or_phases (je_record e)"
    using assms(3) by (induction "or_phases (je_record e)") (auto simp: fence_phase_def list_all_iff intro!: map_idI)
  moreover have "\<not> list_ex (\<lambda>p. phr_outcome p = Running) (or_phases (je_record e))"
    using assms(3) by (auto simp: list_all_iff list_ex_iff)
  ultimately show ?thesis using assms(1,2) by (auto simp: fence_entry_def Let_def)
qed

text \<open>A fenced entry holds every phase that had not settled.\<close>

lemma fence_entry_holds:
  assumes "or_settled (je_record e) = None" "je_superseded_by e = None"
    "p \<in> set (or_phases (je_record e))" "unresolved (phr_outcome p)" "phr_phase p \<notin> set (je_superseded_phases e)"
  shows "phr_phase p \<in> set (held_phases (fence_entry e))"
proof -
  have "fence_phase p \<in> set (or_phases (je_record (fence_entry e)))" "unresolved (phr_outcome (fence_phase p))"
    "phr_phase (fence_phase p) = phr_phase p"
    using assms(3,4) by (auto simp: fence_entry_fields fence_phase_def unresolved_def)
  with assms(1,2,5) show ?thesis
    by (auto simp: held_phases_def Let_def fence_entry_settled fence_entry_fields(4,5) filter_empty_conv
        intro!: rev_image_eqI [of "fence_phase p"])
qed

lemma fence_fields:
  "jr_zygisk_bootstrap (fence_unresolved j) = map_option bootstrap_fence (jr_zygisk_bootstrap j)"
  "jr_zygisk_projection (fence_unresolved j) = map_option projection_fence (jr_zygisk_projection j)"
  "jr_replacement (fence_unresolved j) = map_option replacement_fence (jr_replacement j)"
  "jr_zygisk_revocation (fence_unresolved j) = map_option revocation_fence (jr_zygisk_revocation j)"
  "jr_kmod_preflights (fence_unresolved j) = map_option ledger_fence (jr_kmod_preflights j)"
  "list_all entry_quiet (jr_operations (fence_unresolved j))"
  by (simp_all add: fence_unresolved_def Let_def list_all_iff fence_entry_quiet)

lemma fenced_work:
  "pb_outcome (bootstrap_fence b) \<noteq> Running" "pw_outcome (projection_fence w) \<noteq> Running"
  "ms_stage (rw_status (replacement_fence m)) \<notin> {MAccepted, MDispatching, MVerifyingStaged, MRetiringLegacy}"
  "list_all (\<lambda>a. pa_state a \<noteq> PfRunning) (pg_attempts (ledger_fence l))" "zr_state (revocation_fence r) \<noteq> RvRunning"
  by (auto simp: revocation_fence_def bootstrap_fence_def projection_fence_def replacement_fence_def ledger_fence_def list_all_iff
      split: maintenance_stage.split)

lemma fence_quiescent: "quiescent (fence_unresolved j)"
  unfolding quiescent_def fence_fields(1-5) using fence_fields(6) [of j] fenced_work by (auto split: if_splits)

text \<open>
  Restart fencing.  Afterwards nothing is running or unsettled anywhere in the journal.  A
  receipt that had settled definitely is untouched.  An interrupted operation becomes Unknown, with
  every phase that had not settled held, unless retained evidence proves that its effect was never
  dispatched (known failure) or that it completed (confirmed): fencing never invents an outcome.
\<close>

theorem fence_invents_nothing:
  assumes "i < length (jr_operations j)"
  shows "let e = jr_operations j ! i; e' = jr_operations (fence_unresolved j) ! i in
         quiescent (fence_unresolved j)
       \<and> or_op (je_record e') = or_op (je_record e)
       \<and> (or_settled (je_record e) \<in> {Some OConfirmed, Some OFailedKnown} \<and> entry_quiet e \<longrightarrow> e' = e)
       \<and> (or_settled (je_record e) = None \<longrightarrow>
            or_settled (je_record e') = Some OUnknown
            \<or> (or_settled (je_record e') = Some OFailedKnown \<and> never_dispatched j e)
            \<or> (or_settled (je_record e') = Some OConfirmed \<and> revocation_done j e))
       \<and> (or_settled (je_record e) = None \<and> je_superseded_by e = None
            \<and> \<not> never_dispatched j e \<and> \<not> revocation_done j e \<longrightarrow>
            phr_phase ` {p \<in> set (or_phases (je_record e)). unresolved (phr_outcome p)} - set (je_superseded_phases e)
              \<subseteq> set (held_phases e'))"
  using assms
proof (cases rule: fence_cases)
  case plain
  then show ?thesis
    using fence_entry_settled_same [of "jr_operations j ! i"] fence_entry_holds [of "jr_operations j ! i"]
    by (auto simp: Let_def fence_quiescent fence_entry_fields(1) fence_entry_settled entry_quiet_def)
next
  case failed
  then show ?thesis
    by (auto simp: Let_def fence_quiescent fence_entry_fields(1) fence_entry_settled settle_first_def unfinished_def)
next
  case revoked
  then show ?thesis
    by (auto simp: Let_def fence_quiescent fence_entry_fields(1) fence_entry_settled settle_first_def unfinished_def)
qed


definition interrupted_entry :: journal_entry where
  "interrupted_entry =
     \<lparr>je_maintenance = None, je_maintenance_report = None, je_admission = None, je_command = Some CmdEdit,
      je_superseded_by = None, je_superseded_phases = [], je_finalized_unknown = False, je_base = 0,
      je_edit = RepairActivation, je_candidate = None, je_native_intent = None,
      je_record = \<lparr>or_op = 7, or_phases = [\<lparr>phr_phase = Persist, phr_outcome = Running\<rparr>,
                                         \<lparr>phr_phase = PNative, phr_outcome = NotAttempted\<rparr>],
                   or_settled = None, or_ports = None\<rparr>\<rparr>"

text \<open>A crash during Persist: both phases are held after the restart.\<close>

theorem fence_invents_nothing_witness:
  "quiescent (fence_unresolved (journal_default\<lparr>jr_operations := [interrupted_entry]\<rparr>))
   \<and> {Persist, PNative} \<subseteq>
       set (held_phases (jr_operations (fence_unresolved (journal_default\<lparr>jr_operations := [interrupted_entry]\<rparr>)) ! 0))"
proof -
  let ?j = "journal_default\<lparr>jr_operations := [interrupted_entry]\<rparr>"
  have j: "jr_operations ?j = [interrupted_entry]" by simp
  have none: "jr_zygisk_projection ?j = None" "jr_zygisk_revocation ?j = None" by (simp_all add: journal_default_def)
  have nd: "\<not> never_dispatched ?j interrupted_entry" "\<not> revocation_done ?j interrupted_entry"
    unfolding never_dispatched_def revocation_done_def none by simp_all
  have e: "or_settled (je_record interrupted_entry) = None" "je_superseded_by interrupted_entry = None"
    by (simp_all add: interrupted_entry_def)
  have p: "phr_phase ` {p \<in> set (or_phases (je_record interrupted_entry)). unresolved (phr_outcome p)}
      - set (je_superseded_phases interrupted_entry) = {Persist, PNative}"
    by (force simp: interrupted_entry_def unresolved_def)
  have "0 < length (jr_operations ?j)" by simp
  from fence_invents_nothing [OF this, unfolded Let_def j nth_Cons_0] nd e show ?thesis unfolding p by simp
qed


section \<open>Readback\<close>

text \<open>
  The durable facts that may confirm a phase: the configuration file is the candidate (or is gone,
  for a reset), the module's authorization is the intended generation and policy, or the published
  targets are the intended wire.
\<close>

definition confirming_evidence :: "evidence_sources \<Rightarrow> journal_entry \<Rightarrow> config_phase \<Rightarrow> bool" where
  "confirming_evidence ev e phase =
     (case phase of
        Persist \<Rightarrow>
          (if je_command e = Some FullReset then ev_config ev = Some (Inr None)
           else je_candidate e \<noteq> None \<and> ev_config ev = Some (Inr (je_candidate e)))
      | PNative \<Rightarrow>
          (\<exists>i m. je_native_intent e = Some i \<and> ni_backend i = NbZygisk \<and> ni_zygisk_module i = Some m
             \<and> (case ni_zygisk_authorization i of
                  None \<Rightarrow> ev_targets ev m = Txt (ni_wire i)
                | Some a \<Rightarrow> ev_boot_id ev = ai_boot_id a
                    \<and> (\<exists>view current. ev_recipient ev m = Some view
                         \<and> rv_identity view = Inr (ai_directory_identity a)
                         \<and> rv_authorized view (ev_boot_id ev) = Inr (Some current)
                         \<and> matches current (ai_generation a) (ni_wire i))))
      | _ \<Rightarrow> False)"

lemma res_ok_Some: "res_ok r = Some x \<longleftrightarrow> r = Inr x"
  by (cases r) (simp_all add: res_ok_simps)

lemma resolve_phase_confirmed:
  assumes "je_candidate e = Some candidate" "resolve_phase ev e candidate phase = OConfirmed"
  shows "confirming_evidence ev e phase"
  using assms
  by (cases phase)
    (auto simp: resolve_phase_def confirming_evidence_def reconcile_reset_def reconcile_persist_def reconcile_native_def
      reconcile_bundled_publication_def reconcile_zygisk_publication_def res_ok_Some
      split: option.splits sum.splits if_splits targets_read.splits)

lemma resolve_phase_decided: "resolve_phase ev e candidate phase \<in> {OConfirmed, OFailedKnown, OUnknown}"
  by (cases phase)
    (auto simp: resolve_phase_def reconcile_reset_def reconcile_persist_def reconcile_native_def
      reconcile_bundled_publication_def reconcile_zygisk_publication_def
      split: option.splits sum.splits targets_read.splits)

lemma settle_confirmed: "settle_from_phases ps = OConfirmed \<longleftrightarrow> ps \<noteq> [] \<and> list_all (\<lambda>p. phr_outcome p = OConfirmed) ps"
  by (auto simp: settle_from_phases_def list_ex_iff list_all_iff)

lemma reconcile_phase_fst:
  "phr_phase (fst (reconcile_phase ev e c p)) = phr_phase p"
  "phr_outcome p \<noteq> OUnknown \<Longrightarrow> fst (reconcile_phase ev e c p) = p"
  "snd (reconcile_phase ev e c p) \<longleftrightarrow> fst (reconcile_phase ev e c p) \<noteq> p"
  by (auto simp: reconcile_phase_def Let_def) (metis phase_record.select_convs(2) phase_record.surjective phase_record.update_convs(2))

definition read_phases :: "evidence_sources \<Rightarrow> journal_entry \<Rightarrow> canonical_config \<Rightarrow> phase_record list" where
  "read_phases ev e candidate = map (\<lambda>p. fst (reconcile_phase ev e candidate p)) (or_phases (je_record e))"

lemma reconcile_cases:
  obtains (skip) "reconcile_entry ev e = (e, False)"
  | (read) candidate where "je_superseded_by e = None" "\<not> je_finalized_unknown e" "je_candidate e = Some candidate"
      "reconcile_entry ev e =
        (e\<lparr>je_record := (je_record e)\<lparr>or_phases := read_phases ev e candidate,
             or_settled := Some (settle_from_phases (read_phases ev e candidate))\<rparr>\<rparr>,
         read_phases ev e candidate \<noteq> or_phases (je_record e)
         \<or> or_settled (je_record e) \<noteq> Some (settle_from_phases (read_phases ev e candidate)))"
proof (cases "reconcile_entry ev e = (e, False)")
  case False
  then obtain candidate where c: "je_superseded_by e = None" "\<not> je_finalized_unknown e" "je_candidate e = Some candidate"
    and go: "\<not> ((or_settled (je_record e) = Some OConfirmed \<or> or_settled (je_record e) = Some OFailedKnown)
        \<and> \<not> list_ex (\<lambda>p. phr_outcome p = OUnknown \<or> phr_outcome p = Running) (or_phases (je_record e)))"
    unfolding reconcile_entry_def Let_def by (auto split: if_splits option.splits)
  have "list_ex snd (map (reconcile_phase ev e candidate) (or_phases (je_record e))) \<longleftrightarrow>
      read_phases ev e candidate \<noteq> or_phases (je_record e)"
    unfolding read_phases_def by (induction "or_phases (je_record e)") (auto simp: list_ex_iff reconcile_phase_fst(3) intro!: map_idI dest: map_eq_conv [THEN iffD1, of _ _ id, simplified])
  with c go show thesis
    by (intro read [of candidate]) (auto simp: reconcile_entry_def Let_def read_phases_def comp_def)
qed (rule skip)


lemma reconcile_phase_again:
  assumes "je_superseded_phases e' = je_superseded_phases e" "je_command e' = je_command e"
    "je_native_intent e' = je_native_intent e"
  shows "reconcile_phase ev e' c (fst (reconcile_phase ev e c p)) = (fst (reconcile_phase ev e c p), False)"
proof -
  have "resolve_phase ev e' c = resolve_phase ev e c"
    using assms by (simp add: resolve_phase_def fun_eq_iff split: config_phase.split)
  then show ?thesis using assms by (simp add: reconcile_phase_def Let_def)
qed

lemma reconcile_phase_outcome:
  fixes ev p
  assumes "je_candidate e = Some c"
  defines "q \<equiv> fst (reconcile_phase ev e c p)"
  shows "phr_phase q = phr_phase p"
    "q = p \<or> phr_outcome p = OUnknown \<and> phr_outcome q \<in> {OConfirmed, OFailedKnown} \<and> phr_phase p \<notin> set (je_superseded_phases e)"
    "phr_outcome q = OConfirmed \<Longrightarrow> phr_outcome p = OConfirmed \<or> confirming_evidence ev e (phr_phase p)"
  using resolve_phase_confirmed [OF assms(1), of ev "phr_phase p"] resolve_phase_decided [of ev e c "phr_phase p"]
  unfolding q_def by (auto simp: reconcile_phase_def Let_def split: if_splits)

lemma record_update_same:
  "e\<lparr>je_record := (je_record e)\<lparr>or_phases := ps, or_settled := s\<rparr>\<rparr> = e \<longleftrightarrow>
     ps = or_phases (je_record e) \<and> s = or_settled (je_record e)"
proof
  assume eq: "e\<lparr>je_record := (je_record e)\<lparr>or_phases := ps, or_settled := s\<rparr>\<rparr> = e"
  have "je_record e = (je_record e)\<lparr>or_phases := ps, or_settled := s\<rparr>"
    by (subst eq [symmetric]) simp
  then show "ps = or_phases (je_record e) \<and> s = or_settled (je_record e)"
    by (metis operation_record.ext_inject operation_record.surjective operation_record.update_convs(2,3))
qed simp

text \<open>
  C29. Readback only believes evidence.  A receipt whose uncertainty was already returned, or that was
  superseded, is never rewritten.  Otherwise only Unknown phases change; a phase becomes Confirmed
  only on the exact durable evidence; the operation counts as Confirmed only when every phase is;
  the change flag is exact; and reading the same evidence again changes nothing.
\<close>

theorem recovery_confirms_only_evidence:
  assumes "reconcile_entry ev e = (e', changed)"
  shows "changed = (e' \<noteq> e)
       \<and> (je_finalized_unknown e \<or> je_superseded_by e \<noteq> None \<longrightarrow> e' = e)
       \<and> list_all2 (\<lambda>p q. phr_phase q = phr_phase p
            \<and> (q = p \<or> phr_outcome p = OUnknown \<and> phr_phase p \<notin> set (je_superseded_phases e))
            \<and> (phr_outcome q = OConfirmed \<longrightarrow> phr_outcome p = OConfirmed \<or> confirming_evidence ev e (phr_phase p)))
           (or_phases (je_record e)) (or_phases (je_record e'))
       \<and> (or_settled (je_record e') = Some OConfirmed \<and> e' \<noteq> e \<longrightarrow>
            list_all (\<lambda>p. phr_outcome p = OConfirmed) (or_phases (je_record e')))
       \<and> reconcile_entry ev e' = (e', False)"
proof (cases rule: reconcile_cases [of ev e])
  case skip
  then show ?thesis using assms by (auto simp: list_all2_same)
next
  case (read c)
  let ?ps = "read_phases ev e c"
  have e': "e' = e\<lparr>je_record := (je_record e)\<lparr>or_phases := ?ps, or_settled := Some (settle_from_phases ?ps)\<rparr>\<rparr>"
    and ch: "changed = (?ps \<noteq> or_phases (je_record e) \<or> or_settled (je_record e) \<noteq> Some (settle_from_phases ?ps))"
    using assms read(4) by simp_all
  have "changed = (e' \<noteq> e)"
    unfolding ch e' record_update_same by auto
  moreover have "list_all2 (\<lambda>p q. phr_phase q = phr_phase p
            \<and> (q = p \<or> phr_outcome p = OUnknown \<and> phr_phase p \<notin> set (je_superseded_phases e))
            \<and> (phr_outcome q = OConfirmed \<longrightarrow> phr_outcome p = OConfirmed \<or> confirming_evidence ev e (phr_phase p)))
           (or_phases (je_record e)) ?ps"
    unfolding read_phases_def using reconcile_phase_outcome [OF read(3), of ev]
    by (simp add: list_all2_map2 list_all2_same) blast
  moreover have "reconcile_entry ev e' = (e', False)"
  proof (cases rule: reconcile_cases [of ev e'])
    case (read c')
    have [simp]: "c' = c" using read(3) \<open>je_candidate e = Some c\<close> by (simp add: e')
    have "read_phases ev e' c' = or_phases (je_record e')"
      using reconcile_phase_again [of e' e] by (simp add: read_phases_def) (simp add: e' read_phases_def)
    moreover have "or_settled (je_record e') = Some (settle_from_phases (or_phases (je_record e')))" by (simp add: e')
    ultimately show ?thesis unfolding read(4) by simp
  qed
  ultimately show ?thesis using read(1,2) settle_confirmed [of ?ps] by (auto simp: e')
qed

definition config_on_disk :: "canonical_config \<Rightarrow> evidence_sources" where
  "config_on_disk c =
     \<lparr>ev_config = Some (Inr (Some c)), ev_boot_id = [], ev_recipient = (\<lambda>_. None), ev_targets = (\<lambda>_. TxtMissing)\<rparr>"

definition fenced_persist :: journal_entry where
  "fenced_persist =
     fence_entry (interrupted_entry
       \<lparr>je_candidate := Some default_canonical,
        je_record := (je_record interrupted_entry)\<lparr>or_phases := [\<lparr>phr_phase = Persist, phr_outcome = Running\<rparr>]\<rparr>\<rparr>)"

text \<open>Persist landed before the crash: readback finds the candidate on disk.\<close>

theorem recovery_confirms_only_evidence_witness:
  "or_settled (je_record (fst (reconcile_entry (config_on_disk default_canonical) fenced_persist))) = Some OConfirmed
   \<and> reconcile_entry (config_on_disk default_canonical) (fst (reconcile_entry (config_on_disk default_canonical) fenced_persist)) =
       (fst (reconcile_entry (config_on_disk default_canonical) fenced_persist), False)"
proof -
  let ?ev = "config_on_disk default_canonical"
  have "or_settled (je_record (fst (reconcile_entry ?ev fenced_persist))) = Some OConfirmed"
    by (simp add: reconcile_entry_def fenced_persist_def fence_entry_def interrupted_entry_def fence_phase_def Let_def
        reconcile_phase_def resolve_phase_def reconcile_persist_def config_on_disk_def settle_from_phases_def)
  moreover have "reconcile_entry ?ev fenced_persist =
      (fst (reconcile_entry ?ev fenced_persist), snd (reconcile_entry ?ev fenced_persist))" by simp
  from recovery_confirms_only_evidence [OF this]
  have "reconcile_entry ?ev (fst (reconcile_entry ?ev fenced_persist)) = (fst (reconcile_entry ?ev fenced_persist), False)"
    by blast
  ultimately show ?thesis by blast
qed

end
