(* ===== verification/Write_Ahead.thy ===== *)
theory Write_Ahead
  imports Machines
begin

text \<open>
  The journal's durability rule as a machine: intent is written before an effect is dispatched, the
  result afterwards, and a restart resumes from what the disk holds, fenced.  A write may fail with
  the old or the new content on disk.  What a component must provide is the locale \<open>write_ahead\<close>:
  an admission that refuses barred requests and records a bar for what it admits, and updates that
  never lift one.  What it gets is a statement about every history of effects, crashes included.
\<close>

section \<open>The machine\<close>

datatype write_fate = Written | LostWrite | LandedError

record ('r, 'u, 'j) wal_ops =
  wo_begin :: "'r \<Rightarrow> 'j \<Rightarrow> 'j option"
  wo_update :: "'u \<Rightarrow> 'j \<Rightarrow> 'j option"
  wo_begin_failed :: "'j \<Rightarrow> 'j"
  wo_update_failed :: "'j \<Rightarrow> 'j \<Rightarrow> 'j"
  wo_fence :: "'j \<Rightarrow> 'j"

record ('r, 'j) wal_state =
  ws_memory :: 'j
  ws_disk :: 'j
  ws_log :: "'r list"

text \<open>
  \<open>WBegin\<close> admits a request, writes its intent and dispatches it if the write succeeded; \<open>WCrash\<close> stops
  after the write and before the dispatch; \<open>WUpdate\<close> records a result.  \<open>None\<close> is a refusal.
\<close>

datatype ('r, 'u) wal_event = WBegin 'r write_fate | WCrash 'r | WUpdate 'u write_fate | WRestart

definition written :: "write_fate \<Rightarrow> 'j \<Rightarrow> 'j \<Rightarrow> 'j" where
  "written fate old new = (if fate = LostWrite then old else new)"

fun wal_step :: "('r, 'u, 'j) wal_ops \<Rightarrow> ('r, 'j) wal_state \<Rightarrow> ('r, 'u) wal_event \<Rightarrow> ('r, 'j) wal_state" where
  "wal_step ops s (WBegin r fate) =
     (case wo_begin ops r (ws_memory s) of
        None \<Rightarrow> s
      | Some j \<Rightarrow>
          (if fate = Written then s\<lparr>ws_memory := j, ws_disk := j, ws_log := ws_log s @ [r]\<rparr>
           else s\<lparr>ws_memory := wo_begin_failed ops j, ws_disk := written fate (ws_disk s) j\<rparr>))"
| "wal_step ops s (WCrash r) =
     (case wo_begin ops r (ws_memory s) of
        None \<Rightarrow> s\<lparr>ws_memory := wo_fence ops (ws_disk s)\<rparr>
      | Some j \<Rightarrow> s\<lparr>ws_memory := wo_fence ops j, ws_disk := j\<rparr>)"
| "wal_step ops s (WUpdate u fate) =
     (case wo_update ops u (ws_memory s) of
        None \<Rightarrow> s
      | Some j \<Rightarrow>
          (if fate = Written then s\<lparr>ws_memory := j, ws_disk := j\<rparr>
           else s\<lparr>ws_memory := wo_update_failed ops (ws_memory s) j, ws_disk := written fate (ws_disk s) j\<rparr>))"
| "wal_step ops s WRestart = s\<lparr>ws_memory := wo_fence ops (ws_disk s)\<rparr>"

definition wal_start :: "'j \<Rightarrow> ('r, 'j) wal_state" where
  "wal_start j = \<lparr>ws_memory = j, ws_disk = j, ws_log = []\<rparr>"


text \<open>Every dispatched request was admitted.\<close>

lemma log_admitted:
  assumes "\<And>r j j'. wo_begin ops r j = Some j' \<Longrightarrow> P r" "list_all P (ws_log s)"
  shows "list_all P (ws_log (foldl (wal_step ops) s es))"
  using assms(2)
proof (induction es arbitrary: s)
  case (Cons e es)
  have "list_all P (ws_log (wal_step ops s e))"
    using Cons.prems by (cases e) (auto split: option.split dest: assms(1))
  then show ?case using Cons.IH by simp
qed simp


section \<open>The contract\<close>

locale write_ahead =
  fixes ops :: "('r, 'u, 'j) wal_ops"
    and barred :: "'j \<Rightarrow> 'r \<Rightarrow> bool"
    and excludes :: "'r \<Rightarrow> 'r \<Rightarrow> bool"
  assumes begin_free: "wo_begin ops r j = Some j' \<Longrightarrow> \<not> barred j r"
    and begin_bars: "wo_begin ops r j = Some j' \<Longrightarrow> excludes r q \<Longrightarrow> barred j' q"
    and begin_keeps: "wo_begin ops r j = Some j' \<Longrightarrow> barred j q \<Longrightarrow> barred j' q"
    and update_keeps: "wo_update ops u j = Some j' \<Longrightarrow> barred j q \<Longrightarrow> barred j' q"
    and begin_failed_keeps: "barred j q \<Longrightarrow> barred (wo_begin_failed ops j) q"
    and update_failed_keeps: "barred j q \<Longrightarrow> barred j' q \<Longrightarrow> barred (wo_update_failed ops j j') q"
    and fence_keeps: "barred j q \<Longrightarrow> barred (wo_fence ops j) q"
begin

text \<open>Everything excluded by the history is barred in memory and on disk.\<close>

definition covered :: "('r, 'j) wal_state \<Rightarrow> bool" where
  "covered s = (sorted_wrt (\<lambda>r q. \<not> excludes r q) (ws_log s)
     \<and> (\<forall>r q. r \<in> set (ws_log s) \<longrightarrow> excludes r q \<longrightarrow> barred (ws_memory s) q \<and> barred (ws_disk s) q))"

lemma covered_step:
  assumes "covered s"
  shows "covered (wal_step ops s e)"
proof -
  have barred: "barred (ws_memory s) q" "barred (ws_disk s) q" if "r \<in> set (ws_log s)" "excludes r q" for r q
    using assms that by (auto simp: covered_def)
  have sorted: "sorted_wrt (\<lambda>r q. \<not> excludes r q) (ws_log s)" using assms by (simp add: covered_def)
  show ?thesis
  proof (cases e)
    case (WBegin r fate)
    show ?thesis
    proof (cases "wo_begin ops r (ws_memory s)")
      case (Some j)
      have old: "barred j q" if "x \<in> set (ws_log s)" "excludes x q" for x q
        using begin_keeps [OF Some barred(1) [OF that]] .
      have "\<not> excludes x r" if "x \<in> set (ws_log s)" for x
        using begin_free [OF Some] barred(1) [OF that] by blast
      with Some WBegin sorted old barred(2) show ?thesis
        by (auto simp: covered_def written_def sorted_wrt_append begin_failed_keeps dest: begin_bars)
    qed (use WBegin assms in simp)
  next
    case (WCrash r)
    show ?thesis
    proof (cases "wo_begin ops r (ws_memory s)")
      case (Some j)
      have "barred j q" if "x \<in> set (ws_log s)" "excludes x q" for x q
        using begin_keeps [OF Some barred(1) [OF that]] .
      with Some WCrash sorted show ?thesis by (auto simp: covered_def fence_keeps)
    qed (use WCrash sorted barred in \<open>auto simp: covered_def fence_keeps\<close>)
  next
    case (WUpdate u fate)
    show ?thesis
    proof (cases "wo_update ops u (ws_memory s)")
      case (Some j)
      have "barred j q" if "x \<in> set (ws_log s)" "excludes x q" for x q
        using update_keeps [OF Some barred(1) [OF that]] .
      with Some WUpdate sorted barred show ?thesis by (auto simp: covered_def written_def update_failed_keeps)
    qed (use WUpdate assms in simp)
  next
    case WRestart
    with sorted barred show ?thesis by (auto simp: covered_def fence_keeps)
  qed
qed

end

sublocale write_ahead \<subseteq> machine "wal_step ops" covered
  by unfold_locales (rule covered_step)

context write_ahead
begin

text \<open>No dispatched request excludes a later one, whatever fails and whenever Core restarts.\<close>

lemma history_respects:
  "sorted_wrt (\<lambda>r q. \<not> excludes r q) (ws_log (foldl (wal_step ops) (wal_start j) es))"
proof -
  have "covered (wal_start j)" by (simp add: covered_def wal_start_def)
  from inv_run [OF this, of es] show ?thesis by (simp add: covered_def)
qed

end

end
