(* ===== verification/Native_Attempts.thy ===== *)
theory Native_Attempts
  imports Journal_Retention Write_Ahead
begin

text \<open>
  Native activation attempts: the journal's safety and budget checks
  (\<^verbatim>\<open>check_native_safety\<close>, \<^verbatim>\<open>check_native_attempt\<close>, \<^verbatim>\<open>backend_rejected\<close>), the recording of an attempt and
  of its result, and \<^verbatim>\<open>Prepared::admit\<close>, which composes them (\<^verbatim>\<open>crates/core-daemon/src/journal.rs\<close> and
  \<^verbatim>\<open>native_boot/prepared.rs\<close>).  Errors are the messages of the source.
\<close>

section \<open>Exposure and selection evidence\<close>

definition MAX_ZYGISK_EXPOSURE_BOOTS :: nat where
  "MAX_ZYGISK_EXPOSURE_BOOTS = 32"

definition MAX_NATIVE_ATTEMPTS :: nat where
  "MAX_NATIVE_ATTEMPTS = 16"

definition record_selection_evidence :: "selection_evidence \<Rightarrow> journal \<Rightarrow> journal" where
  "record_selection_evidence e j =
     (if evidence_valid e then
        (let j1 = (if se_conflicting_hints e then j\<lparr>jr_native_selection_conflict := Some e\<rparr>
                   else case jr_native_selection_conflict j of
                     Some previous \<Rightarrow> if supersedes_conflict e previous then j\<lparr>jr_native_selection_conflict := None\<rparr> else j
                   | None \<Rightarrow> j)
         in j1\<lparr>jr_native_selection_evidence := Some e\<rparr>)
      else j)"

definition note_zygisk_exposure :: "string \<Rightarrow> journal \<Rightarrow> journal" where
  "note_zygisk_exposure boot j =
     (let j1 = j\<lparr>jr_zygisk_exposure_boot := Some boot\<rparr>
      in if boot \<in> set (jr_zygisk_exposure_boots j1) then j1
         else (let boots = jr_zygisk_exposure_boots j1 @ [boot]
               in j1\<lparr>jr_zygisk_exposure_boots := drop (length boots - MAX_ZYGISK_EXPOSURE_BOOTS) boots\<rparr>))"

definition zygisk_exposed_in :: "journal \<Rightarrow> string \<Rightarrow> bool" where
  "zygisk_exposed_in j boot = (jr_zygisk_exposure_boot j = Some boot \<or> boot \<in> set (jr_zygisk_exposure_boots j))"

datatype loader_evidence =
    LePending | LeUncertain | LeBlocked | LeNoSentinel | LeOneSentinel string | LeMultipleSentinels "string list"

definition is_blocked :: "preflight_state \<Rightarrow> bool" where
  "is_blocked s = (case s of PfFinished (LoaderBlocked _) \<Rightarrow> True | _ \<Rightarrow> False)"

definition ledger_evidence :: "preflight_ledger \<Rightarrow> loader_evidence" where
  "ledger_evidence l =
     (if ledger_uncertain l then LeUncertain
      else if list_ex (\<lambda>a. is_blocked (pa_state a)) (pg_attempts l) then LeBlocked
      else if length (pg_attempts l) \<noteq> length (pf_candidates (pg_plan l)) then LePending
      else (let successes = map pa_sha256 (filter (\<lambda>a. pa_state a = PfFinished CleanSentinel) (pg_attempts l))
            in case successes of
                 [] \<Rightarrow> LeNoSentinel
               | [sha256] \<Rightarrow> LeOneSentinel sha256
               | _ \<Rightarrow> LeMultipleSentinels successes))"


section \<open>Admission checks\<close>

definition conflict_retained :: "journal \<Rightarrow> transition_intent \<Rightarrow> bool" where
  "conflict_retained j t =
     (case jr_native_selection_conflict j of
        None \<Rightarrow> False
      | Some previous \<Rightarrow>
          se_boot_id previous = ti_boot_id t \<and> se_conflicting_hints previous
          \<and> (case ti_selection_evidence t of None \<Rightarrow> True | Some e \<Rightarrow> \<not> supersedes_conflict e previous))"

definition preflight_mismatch :: "journal \<Rightarrow> transition_intent \<Rightarrow> bool" where
  "preflight_mismatch j t =
     (case jr_kmod_preflights j of
        None \<Rightarrow> False
      | Some ledger \<Rightarrow>
          pf_boot_id (pg_plan ledger) = ti_boot_id t
          \<and> \<not> (case ledger_evidence ledger of
                 LeOneSentinel sha256 \<Rightarrow> (case ti_payload t of None \<Rightarrow> False | Some p \<Rightarrow> pi_sha256 p = sha256)
               | _ \<Rightarrow> False))"

definition activates_kernel :: "transition_action \<Rightarrow> bool" where
  "activates_kernel a = (case a of Load b \<Rightarrow> b \<noteq> NbZygisk | Adopt b \<Rightarrow> b \<noteq> NbZygisk | Observe \<Rightarrow> False)"

definition check_native_safety :: "journal \<Rightarrow> transition_intent \<Rightarrow> string + unit" where
  "check_native_safety j t =
     (if \<not> valid_selection_evidence t then Inl ''invalid selection evidence binding''
      else if ti_action t = Load NbKmod \<and> conflict_retained j t
      then Inl ''retained current-boot KMI conflict requires fresh corroborated evidence before loading''
      else if bootstrap_uncertain j then Inl ''managed bootstrap publication is uncertain''
      else if revocation_uncertain j
      then Inl ''Zygisk authorization revocation is unresolved; reconcile it before native activation''
      else if preflight_uncertain j
      then Inl ''loader preflight outcome is unknown; native activation remains held''
      else if ti_action t = Load NbKmod \<and> preflight_mismatch j t
      then Inl ''current preflight evidence does not identify one matching real-load payload''
      else if activates_kernel (ti_action t) \<and> (zygisk_exposed_in j (ti_boot_id t) \<or> ti_retire_zygisk t \<noteq> None)
      then Inl ''Zygisk authorization may have been consumed in this boot; reboot before kernel backend activation''
      else Inr ())"

definition budget_spent :: "journal \<Rightarrow> string \<Rightarrow> native_backend \<Rightarrow> bool" where
  "budget_spent j boot backend =
     (case jr_native_load_budget j of None \<Rightarrow> False | Some b \<Rightarrow> lb_boot_id b = boot \<and> backend \<in> set (lb_attempted b))"

definition quarantined :: "journal \<Rightarrow> native_backend \<Rightarrow> payload_identity \<Rightarrow> bool" where
  "quarantined j backend p = list_ex (\<lambda>q. nq_backend q = backend \<and> nq_sha256 q = pi_sha256 p) (jr_native_quarantine j)"

definition check_native_attempt :: "journal \<Rightarrow> transition_intent \<Rightarrow> bool \<Rightarrow> string + unit" where
  "check_native_attempt j t explicit =
     and_then (check_native_safety j t) (\<lambda>_.
       case (ti_action t, ti_payload t) of
         (Load backend, Some p) \<Rightarrow>
           if budget_spent j (ti_boot_id t) backend
           then Inl ''this backend was already attempted in this boot; reboot before retrying''
           else if \<not> explicit \<and> quarantined j backend p
           then Inl ''previous payload activation was not confirmed; explicit RepairActivation is required''
           else Inr ()
       | _ \<Rightarrow> Inr ())"

definition startup_rejected :: "native_startup \<Rightarrow> bool" where
  "startup_rejected s =
     (case ns_completed s of
        None \<Rightarrow> False
      | Some r \<Rightarrow> (case sr_rejection r of None \<Rightarrow> False | Some p \<Rightarrow> rejection_valid_for p s))"

definition loads_backend :: "string \<Rightarrow> native_backend \<Rightarrow> native_startup \<Rightarrow> bool" where
  "loads_backend boot backend s =
     (ns_boot_id s = boot
      \<and> (case ns_intent s of None \<Rightarrow> False | Some i \<Rightarrow> ti_action i = Load backend \<and> ti_payload i \<noteq> None))"

definition backend_rejected :: "journal \<Rightarrow> string \<Rightarrow> native_backend \<Rightarrow> bool" where
  "backend_rejected j boot backend =
     (if \<not> budget_spent j boot backend then False
      else (let attempts = filter (loads_backend boot backend)
                  (map na_attempt (jr_native_attempts j)
                   @ (case jr_native_startup j of None \<Rightarrow> [] | Some s \<Rightarrow> [s]))
            in list_all startup_rejected attempts \<and> attempts \<noteq> []))"

definition admit :: "journal \<Rightarrow> transition_intent \<Rightarrow> bool \<Rightarrow> string + unit" where
  "admit j t explicit =
     and_then (check_native_safety j t) (\<lambda>_.
       if (case ti_action t of Load backend \<Rightarrow> backend_rejected j (ti_boot_id t) backend | _ \<Rightarrow> False)
       then Inl ''selected backend already rejected in this boot; no automatic successor''
       else check_native_attempt j t explicit)"


section \<open>Recording an attempt\<close>

definition complete_native_startup :: "startup_result \<Rightarrow> journal \<Rightarrow> journal" where
  "complete_native_startup result j =
     (case jr_native_startup j of
        None \<Rightarrow> j
      | Some attempt \<Rightarrow>
          (let j1 = (case map_option ti_action (ns_intent attempt) of
                       Some (Load backend) \<Rightarrow>
                         if map_option sl_backend (sr_selection result) = Some backend
                         then j\<lparr>jr_native_quarantine := filter (\<lambda>q. nq_backend q \<noteq> backend) (jr_native_quarantine j)\<rparr>
                         else j
                     | _ \<Rightarrow> j)
           in j1\<lparr>jr_native_startup := Some (attempt\<lparr>ns_completed := Some result\<rparr>)\<rparr>))"

definition spend_budget :: "string \<Rightarrow> native_backend \<Rightarrow> load_budget option \<Rightarrow> load_budget" where
  "spend_budget boot backend budget =
     (let b = (case budget of Some b \<Rightarrow> if lb_boot_id b = boot then b else \<lparr>lb_boot_id = boot, lb_attempted = []\<rparr>
               | None \<Rightarrow> \<lparr>lb_boot_id = boot, lb_attempted = []\<rparr>)
      in if backend \<in> set (lb_attempted b) then b else b\<lparr>lb_attempted := lb_attempted b @ [backend]\<rparr>)"

definition charge_load :: "transition_intent \<Rightarrow> journal \<Rightarrow> journal" where
  "charge_load t j =
     (case (ti_action t, ti_payload t) of
        (Load backend, Some p) \<Rightarrow>
          j\<lparr>jr_native_load_budget := Some (spend_budget (ti_boot_id t) backend (jr_native_load_budget j)),
            jr_native_quarantine := filter (\<lambda>q. nq_backend q \<noteq> backend) (jr_native_quarantine j)
                                    @ [\<lparr>nq_backend = backend, nq_sha256 = pi_sha256 p\<rparr>]\<rparr>
      | _ \<Rightarrow> j)"

definition replace_native_startup :: "native_startup \<Rightarrow> journal \<Rightarrow> journal" where
  "replace_native_startup attempt j =
     (let j1 = (case ns_intent attempt of
                  Some t \<Rightarrow> (case ti_selection_evidence t of Some e \<Rightarrow> record_selection_evidence e j | None \<Rightarrow> j)
                | None \<Rightarrow> j);
          j2 = (case ns_intent attempt of
                  Some t \<Rightarrow> if possible_zygisk_exposure t then note_zygisk_exposure (ns_boot_id attempt) j1 else j1
                | None \<Rightarrow> j1);
          j3 = (case ns_intent attempt of Some t \<Rightarrow> charge_load t j2 | None \<Rightarrow> j2);
          j4 = j3\<lparr>jr_native_startup := Some attempt\<rparr>
      in case jr_native_startup j3 of
           None \<Rightarrow> j4
         | Some previous \<Rightarrow>
             (let attempts = jr_native_attempts j4 @ [\<lparr>na_attempt = previous, na_superseded_by = ns_repair_op attempt\<rparr>]
              in j4\<lparr>jr_native_attempts := drop (length attempts - MAX_NATIVE_ATTEMPTS) attempts\<rparr>))"

text \<open>
  \<^verbatim>\<open>AttemptWriter::begin\<close> of \<^verbatim>\<open>server.rs\<close>: the journal record of a prepared intent, at the boot's own
  startup (\<open>repair = None\<close>) or for a repair operation.
\<close>

definition begin_attempt :: "transition_intent \<Rightarrow> u64 \<Rightarrow> u64 option \<Rightarrow> journal \<Rightarrow> journal" where
  "begin_attempt t revision repair j =
     replace_native_startup
       \<lparr>ns_boot_id = ti_boot_id t, ns_config_revision = revision, ns_filesystem_hiding = ti_filesystem_hiding t,
        ns_intent = Some t, ns_repair_op = repair, ns_completed = None\<rparr> j"


section \<open>One load per boot\<close>

text \<open>
  The attempts of one boot as a write-ahead machine.  A request is a prepared intent, whether it is
  explicit, its revision and its repair operation; between attempts Core records results and
  receipts.
\<close>

type_synonym attempt_request = "transition_intent \<times> bool \<times> u64 \<times> u64 option"

datatype native_update = RecordResult startup_result | RecordReceipt journal_entry

definition native_begin :: "string \<Rightarrow> attempt_request \<Rightarrow> journal \<Rightarrow> journal option" where
  "native_begin boot r j =
     (let (t, explicit, revision, repair) = r in
      if ti_boot_id t = boot \<and> is_ok (admit j t explicit) then Some (begin_attempt t revision repair j) else None)"

fun record_update :: "native_update \<Rightarrow> journal \<Rightarrow> journal option" where
  "record_update (RecordResult result) j = Some (complete_native_startup result j)"
| "record_update (RecordReceipt e) j = Some (upsert e j)"

definition native_ops :: "string \<Rightarrow> (attempt_request, native_update, journal) wal_ops" where
  "native_ops boot =
     \<lparr>wo_begin = native_begin boot, wo_update = record_update, wo_begin_failed = (\<lambda>j. j),
      wo_update_failed = (\<lambda>_ j. j), wo_fence = fence_unresolved\<rparr>"

definition loads_payload :: "transition_intent \<Rightarrow> native_backend \<Rightarrow> bool" where
  "loads_payload t backend = (ti_action t = Load backend \<and> ti_payload t \<noteq> None)"

definition attempt_barred :: "string \<Rightarrow> journal \<Rightarrow> attempt_request \<Rightarrow> bool" where
  "attempt_barred boot j r =
     (ti_boot_id (fst r) \<noteq> boot
      \<or> (\<exists>backend. loads_payload (fst r) backend \<and> budget_spent j boot backend)
      \<or> (activates_kernel (ti_action (fst r)) \<and> zygisk_exposed_in j boot))"

definition attempt_excludes :: "attempt_request \<Rightarrow> attempt_request \<Rightarrow> bool" where
  "attempt_excludes r q =
     ((\<exists>backend. loads_payload (fst r) backend \<and> loads_payload (fst q) backend)
      \<or> (possible_zygisk_exposure (fst r) \<and> activates_kernel (ti_action (fst q))))"

lemma selection_evidence_frame [simp]:
  "jr_native_load_budget (record_selection_evidence e j) = jr_native_load_budget j"
  "jr_zygisk_exposure_boot (record_selection_evidence e j) = jr_zygisk_exposure_boot j"
  "jr_zygisk_exposure_boots (record_selection_evidence e j) = jr_zygisk_exposure_boots j"
  by (simp_all add: record_selection_evidence_def Let_def split: option.split)

lemma exposure_noted [simp]:
  "zygisk_exposed_in (note_zygisk_exposure boot j) boot"
  "jr_native_load_budget (note_zygisk_exposure boot j) = jr_native_load_budget j"
  by (simp_all add: note_zygisk_exposure_def zygisk_exposed_in_def Let_def)

lemma charge_frame [simp]:
  "jr_zygisk_exposure_boot (charge_load t j) = jr_zygisk_exposure_boot j"
  "jr_zygisk_exposure_boots (charge_load t j) = jr_zygisk_exposure_boots j"
  by (simp_all add: charge_load_def split: transition_action.split option.split)

lemma charge_spent:
  "budget_spent (charge_load t j) (ti_boot_id t) backend \<longleftrightarrow>
     budget_spent j (ti_boot_id t) backend \<or> loads_payload t backend"
  by (auto simp: charge_load_def budget_spent_def spend_budget_def loads_payload_def Let_def
      split: transition_action.splits option.splits)

lemma begin_attempt_spent:
  "budget_spent (begin_attempt t rv rp j) (ti_boot_id t) backend \<longleftrightarrow>
     budget_spent j (ti_boot_id t) backend \<or> loads_payload t backend"
proof -
  have cong: "jr_native_load_budget a = jr_native_load_budget b \<Longrightarrow> budget_spent a boot x = budget_spent b boot x" for a b boot x
    by (simp add: budget_spent_def)
  obtain j2 where j2: "jr_native_load_budget j2 = jr_native_load_budget j"
    "jr_native_load_budget (begin_attempt t rv rp j) = jr_native_load_budget (charge_load t j2)"
    by (rule that [of "if possible_zygisk_exposure t
          then note_zygisk_exposure (ti_boot_id t) (case ti_selection_evidence t of Some e \<Rightarrow> record_selection_evidence e j | None \<Rightarrow> j)
          else (case ti_selection_evidence t of Some e \<Rightarrow> record_selection_evidence e j | None \<Rightarrow> j)"])
      (auto simp: begin_attempt_def replace_native_startup_def Let_def split: option.split)
  show ?thesis using charge_spent [of t j2 backend] cong [OF j2(1)] cong [OF j2(2)] by simp
qed

lemma begin_attempt_exposed:
  "zygisk_exposed_in (begin_attempt t rv rp j) (ti_boot_id t) \<longleftrightarrow>
     zygisk_exposed_in j (ti_boot_id t) \<or> possible_zygisk_exposure t"
proof -
  have "zygisk_exposed_in a boot = zygisk_exposed_in b boot"
    if "jr_zygisk_exposure_boot a = jr_zygisk_exposure_boot b" "jr_zygisk_exposure_boots a = jr_zygisk_exposure_boots b" for a b boot
    using that by (simp add: zygisk_exposed_in_def)
  then show ?thesis
    by (auto simp: begin_attempt_def replace_native_startup_def Let_def zygisk_exposed_in_def note_zygisk_exposure_def
        split: option.splits if_splits)
qed

lemma admit_guards:
  assumes "is_ok (admit j t explicit)"
  shows "loads_payload t backend \<Longrightarrow> \<not> budget_spent j (ti_boot_id t) backend"
    "activates_kernel (ti_action t) \<Longrightarrow> \<not> zygisk_exposed_in j (ti_boot_id t)"
proof -
  from assms have a: "check_native_safety j t = Inr ()" "check_native_attempt j t explicit = Inr ()"
    by (auto simp: admit_def is_ok_def and_then_Inr split: sum.splits if_splits)
  show "loads_payload t backend \<Longrightarrow> \<not> budget_spent j (ti_boot_id t) backend"
    using a by (auto simp: check_native_attempt_def loads_payload_def split: if_splits option.splits)
  show "activates_kernel (ti_action t) \<Longrightarrow> \<not> zygisk_exposed_in j (ti_boot_id t)"
    using a(1) by (auto simp: check_native_safety_def split: if_splits)
qed


text \<open>Receipts, results and fencing never refund a budget or clear an exposure.\<close>

lemma expire_native_frame [simp]:
  "jr_native_load_budget (expire_entry e j) = jr_native_load_budget j"
  "jr_zygisk_exposure_boot (expire_entry e j) = jr_zygisk_exposure_boot j"
  "jr_zygisk_exposure_boots (expire_entry e j) = jr_zygisk_exposure_boots j"
  by (simp_all add: expire_entry_def Let_def split: option.split)

lemma expires_native_frame [simp]:
  "jr_native_load_budget (fold expire_entry es j) = jr_native_load_budget j"
  "jr_zygisk_exposure_boot (fold expire_entry es j) = jr_zygisk_exposure_boot j"
  "jr_zygisk_exposure_boots (fold expire_entry es j) = jr_zygisk_exposure_boots j"
  by (induction es arbitrary: j) simp_all

lemma attempt_barred_cong:
  assumes "jr_native_load_budget j = jr_native_load_budget k" "jr_zygisk_exposure_boot j = jr_zygisk_exposure_boot k"
    "jr_zygisk_exposure_boots j = jr_zygisk_exposure_boots k"
  shows "attempt_barred boot j r = attempt_barred boot k r"
  using assms by (simp add: attempt_barred_def budget_spent_def zygisk_exposed_in_def)

lemma record_update_keeps:
  assumes "record_update u j = Some j'"
  shows "attempt_barred boot j' r = attempt_barred boot j r"
proof (cases u)
  case (RecordResult result)
  with assms show ?thesis
    by (intro attempt_barred_cong)
      (auto simp: complete_native_startup_def Let_def split: option.splits transition_action.splits)
next
  case (RecordReceipt e)
  define j1 where "j1 = j\<lparr>jr_issued_through := max (jr_issued_through j) (or_op (je_record e)),
              jr_operations := replace_entry e (jr_operations j)\<rparr>"
  have j': "j' = prune j1" using assms RecordReceipt by (simp add: upsert_def j1_def)
  have "attempt_barred boot (prune j1) r = attempt_barred boot j1 r"
  proof (cases rule: prune_cases [of j1])
    case (drops dropped kept)
    then show ?thesis by (intro attempt_barred_cong) simp_all
  qed simp
  moreover have "attempt_barred boot j1 r = attempt_barred boot j r"
    by (intro attempt_barred_cong) (simp_all add: j1_def)
  ultimately show ?thesis by (simp add: j')
qed

lemma fence_keeps_bars: "attempt_barred boot (fence_unresolved j) r = attempt_barred boot j r"
  by (rule attempt_barred_cong) (simp_all add: fence_unresolved_def Let_def)

interpretation attempts: write_ahead "native_ops boot" "attempt_barred boot" attempt_excludes for boot
proof (unfold_locales, simp_all add: native_ops_def fence_keeps_bars record_update_keeps)
  fix r q :: attempt_request and j j' :: journal
  assume b: "native_begin boot r j = Some j'"
  obtain t explicit rv rp where r: "r = (t, explicit, rv, rp)" by (cases r) auto
  from b have t: "ti_boot_id t = boot" "is_ok (admit j t explicit)" "j' = begin_attempt t rv rp j"
    by (auto simp: native_begin_def r split: if_splits)
  show "\<not> attempt_barred boot j r" using admit_guards [OF t(2)] t(1) by (auto simp: attempt_barred_def r)
  show "attempt_excludes r q \<Longrightarrow> attempt_barred boot j' q" "attempt_barred boot j q \<Longrightarrow> attempt_barred boot j' q"
    using begin_attempt_spent [of t rv rp j] begin_attempt_exposed [of t rv rp j]
    unfolding t(3) t(1) [symmetric] by (auto simp: attempt_barred_def attempt_excludes_def r)
qed

definition loaded_backend :: "attempt_request \<Rightarrow> native_backend list" where
  "loaded_backend r = (case (ti_action (fst r), ti_payload (fst r)) of (Load backend, Some _) \<Rightarrow> [backend] | _ \<Rightarrow> [])"

lemma set_loaded_backend: "backend \<in> set (loaded_backend r) \<longleftrightarrow> loads_payload (fst r) backend"
  by (cases "ti_action (fst r)"; cases "ti_payload (fst r)") (auto simp: loaded_backend_def loads_payload_def)

lemma distinct_loads:
  "sorted_wrt (\<lambda>r q. \<not> attempt_excludes r q) rs \<Longrightarrow> distinct (concat (map loaded_backend rs))"
proof (induction rs)
  case (Cons r rs)
  have "distinct (loaded_backend r)" by (auto simp: loaded_backend_def split: transition_action.split option.split)
  with Cons show ?case by (fastforce simp: set_loaded_backend attempt_excludes_def)
qed simp

text \<open>
  C7. Native activation across crashes.  In one boot, whatever attempts are admitted, explicit or
  not, whichever journal writes fail and whenever Core restarts: no backend is ever loaded twice, and
  once a Zygisk grant may have been consumed no kernel backend is activated.
\<close>

theorem native_load_once_per_boot:
  "distinct (concat (map loaded_backend (ws_log (foldl (wal_step (native_ops boot)) (wal_start j) es))))
   \<and> sorted_wrt (\<lambda>r q. \<not> (possible_zygisk_exposure (fst r) \<and> activates_kernel (ti_action (fst q))))
       (ws_log (foldl (wal_step (native_ops boot)) (wal_start j) es))"
proof -
  note h = attempts.history_respects [of boot j es]
  moreover from h have "sorted_wrt (\<lambda>r q. \<not> (possible_zygisk_exposure (fst r) \<and> activates_kernel (ti_action (fst q))))
       (ws_log (foldl (wal_step (native_ops boot)) (wal_start j) es))"
    by (rule sorted_wrt_mono_rel [rotated]) (auto simp: attempt_excludes_def)
  ultimately show ?thesis using distinct_loads by blast
qed


definition sample_load :: "string \<Rightarrow> transition_intent" where
  "sample_load boot =
     \<lparr>ti_selection_evidence = None, ti_boot_id = boot, ti_filesystem_hiding = False, ti_action = Load NbKmod,
      ti_payload = Some \<lparr>pi_source = ''/x'', pi_sha256 = ''ab'', pi_bytes = 1, pi_init_contract = None\<rparr>,
      ti_bundle = None, ti_retire_zygisk = None, ti_retire_directory_identity = None\<rparr>"

text \<open>The first load of a boot is dispatched; a second one is refused even after a restart.\<close>

lemma native_load_example:
  "ws_log (foldl (wal_step (native_ops ''b'')) (wal_start journal_default)
     [WBegin (sample_load ''b'', False, 0, None) Written, WRestart, WBegin (sample_load ''b'', True, 0, None) Written])
   = [(sample_load ''b'', False, 0, None)]"
proof -
  have ok: "is_ok (admit journal_default (sample_load ''b'') False)"
    by (simp add: admit_def check_native_attempt_def check_native_safety_def sample_load_def journal_default_def
        valid_selection_evidence_def conflict_retained_def bootstrap_uncertain_def revocation_uncertain_def
        preflight_uncertain_def preflight_mismatch_def activates_kernel_def zygisk_exposed_in_def backend_rejected_def
        budget_spent_def quarantined_def is_ok_def)
  let ?j = "begin_attempt (sample_load ''b'') 0 None journal_default"
  have "budget_spent ?j ''b'' NbKmod"
    using begin_attempt_spent [of "sample_load ''b''" 0 None journal_default NbKmod] by (simp add: sample_load_def loads_payload_def)
  then have "budget_spent (fence_unresolved ?j) ''b'' NbKmod"
    by (simp add: budget_spent_def fence_unresolved_def Let_def)
  then have "\<not> is_ok (admit (fence_unresolved ?j) (sample_load ''b'') True)"
    using admit_guards(1) [of "fence_unresolved ?j" "sample_load ''b''" True NbKmod] by (auto simp: sample_load_def loads_payload_def)
  with ok show ?thesis by (simp add: native_ops_def native_begin_def wal_start_def) (simp add: sample_load_def)
qed

end
