(* ===== verification/Journal_Records.thy ===== *)
theory Journal_Records
  imports Journal_Retention Journal_Recovery Native_Attempts
begin

text \<open>
  The durable records around one phase of a command (\<^verbatim>\<open>record_phase_running\<close> before its effect,
  \<^verbatim>\<open>record_settled\<close> at the end, \<^verbatim>\<open>crates/core-daemon/src/journal.rs\<close>) and what a crash between them
  leaves.  The SHA-256 digest and the readback of a published grant are parameters.
\<close>

section \<open>Authorities\<close>

record authorization_ref =
  zf_operation :: u64
  zf_boot_id :: string
  zf_generation :: u64
  zf_policy_sha256 :: string
  zf_directory_device :: u64
  zf_directory_inode :: u64

definition is_absolute :: "string \<Rightarrow> bool" where
  "is_absolute p = (case p of c # _ \<Rightarrow> c = CHR ''/'' | [] \<Rightarrow> False)"

definition authority_reference :: "(string \<Rightarrow> string) \<Rightarrow> authority_record \<Rightarrow> authorization_ref option" where
  "authority_reference sha256 r =
     (case ni_zygisk_authorization (za_intent r) of
        None \<Rightarrow> None
      | Some a \<Rightarrow>
          if ni_backend (za_intent r) \<noteq> NbZygisk
             \<or> \<not> (case ni_zygisk_module (za_intent r) of None \<Rightarrow> False | Some p \<Rightarrow> is_absolute p)
             \<or> snd (ai_directory_identity a) = 0
             \<or> za_operation r \<noteq> ai_generation a
             \<or> encode \<lparr>au_boot_id = ai_boot_id a, au_generation = ai_generation a, au_wire = ni_wire (za_intent r)\<rparr> = None
          then None
          else Some \<lparr>zf_operation = za_operation r, zf_boot_id = ai_boot_id a, zf_generation = ai_generation a,
                     zf_policy_sha256 = sha256 (ni_wire (za_intent r)),
                     zf_directory_device = fst (ai_directory_identity a),
                     zf_directory_inode = snd (ai_directory_identity a)\<rparr>)"

definition retained_zygisk_authorities :: "journal \<Rightarrow> authority_record list" where
  "retained_zygisk_authorities j =
     List.map_filter id
       [jr_zygisk_authority j, jr_prior_zygisk_authority j, map_option pb_authority (jr_zygisk_bootstrap j),
        Option.bind (jr_zygisk_bootstrap j) pb_previous_authority]"

definition revocation_valid :: "(string \<Rightarrow> string) \<Rightarrow> zygisk_revocation \<Rightarrow> u64 \<Rightarrow> bool" where
  "revocation_valid sha256 r issued =
     (zr_current_boot r \<noteq> [] \<and> length (zr_current_boot r) \<le> 128
      \<and> authority_reference sha256 (zr_authority r) \<noteq> None
      \<and> za_operation (zr_authority r) \<le> issued
      \<and> (case zr_operation r of None \<Rightarrow> True | Some op \<Rightarrow> 0 < op \<and> op \<le> issued))"


section \<open>Recording a phase\<close>

definition phase_progress ::
    "config_phase list \<Rightarrow> (config_phase \<times> phase_outcome) list \<Rightarrow> config_phase \<Rightarrow> phase_record list" where
  "phase_progress plan completed running =
     map (\<lambda>phase. \<lparr>phr_phase = phase,
            phr_outcome = (if phase = running then Running
                           else case find (\<lambda>(p, _). p = phase) completed of Some (_, res) \<Rightarrow> res | None \<Rightarrow> NotAttempted)\<rparr>) plan"

text \<open>
  \<open>published r\<close>: the grant \<open>r\<close> is still the one on disk, in the same directory, by the readback of
  \<^verbatim>\<open>ZygiskTarget\<close>.
\<close>

definition admit_authority :: "(authority_record \<Rightarrow> bool) \<Rightarrow> u64 \<Rightarrow> native_intent option \<Rightarrow> config_phase \<Rightarrow> journal \<Rightarrow> journal" where
  "admit_authority published op intent running j =
     (case intent of
        None \<Rightarrow> j
      | Some i \<Rightarrow>
          (case ni_zygisk_authorization i of
             None \<Rightarrow> j
           | Some authorization \<Rightarrow>
               (let j1 = note_zygisk_exposure (ai_boot_id authorization) j
                in if running = PNative then
                     (let j2 = (case jr_zygisk_authority j1 of
                                  Some previous \<Rightarrow>
                                    if published previous then j1\<lparr>jr_prior_zygisk_authority := Some previous\<rparr> else j1
                                | None \<Rightarrow> j1)
                      in j2\<lparr>jr_zygisk_authority := Some \<lparr>za_operation = op, za_intent = i\<rparr>\<rparr>)
                   else j1)))"

text \<open>What an update of a receipt carries over from the stored one.\<close>

definition carried_entry ::
    "journal \<Rightarrow> u64 \<Rightarrow> config_edit \<Rightarrow> canonical_config \<Rightarrow> native_intent option \<Rightarrow> bool \<Rightarrow> operation_record \<Rightarrow> journal_entry" where
  "carried_entry j base edit candidate intent finalized record =
     (let prior = journal_get j (or_op record)
      in \<lparr>je_maintenance = Option.bind prior je_maintenance,
          je_maintenance_report = Option.bind prior je_maintenance_report,
          je_admission = Option.bind prior je_admission,
          je_command = Option.bind prior je_command,
          je_superseded_by = Option.bind prior je_superseded_by,
          je_superseded_phases = (case prior of None \<Rightarrow> [] | Some e \<Rightarrow> je_superseded_phases e),
          je_finalized_unknown = finalized, je_base = base, je_edit = edit, je_candidate = Some candidate,
          je_native_intent = intent, je_record = record\<rparr>)"

definition stored_intent :: "journal \<Rightarrow> u64 \<Rightarrow> native_intent option" where
  "stored_intent j op = Option.bind (journal_get j op) je_native_intent"

definition record_phase_running ::
    "(authority_record \<Rightarrow> bool) \<Rightarrow> u64 \<Rightarrow> u64 \<Rightarrow> config_edit \<Rightarrow> canonical_config \<Rightarrow> config_phase list \<Rightarrow>
     (config_phase \<times> phase_outcome) list \<Rightarrow> config_phase \<Rightarrow> native_intent option \<Rightarrow> journal \<Rightarrow> journal" where
  "record_phase_running published op base edit candidate plan completed running native_intent j =
     (let intent = (case native_intent of Some i \<Rightarrow> Some i | None \<Rightarrow> stored_intent j op);
          j1 = admit_authority published op intent running j
      in upsert (carried_entry j1 base edit candidate intent False
            \<lparr>or_op = op, or_phases = phase_progress plan completed running, or_settled = None, or_ports = None\<rparr>) j1)"

definition record_settled ::
    "u64 \<Rightarrow> config_edit \<Rightarrow> canonical_config \<Rightarrow> operation_record \<Rightarrow> u64 \<Rightarrow> journal \<Rightarrow> journal" where
  "record_settled base edit candidate record config_revision j =
     (let j1 = j\<lparr>jr_config_revision := config_revision\<rparr>
      in upsert (carried_entry j1 base edit candidate (stored_intent j1 (or_op record))
            (or_settled record = Some OUnknown) record) j1)"


section \<open>A crash during a phase\<close>

abbreviation entry_op :: "journal_entry \<Rightarrow> u64" where
  "entry_op e \<equiv> or_op (je_record e)"

definition ids_distinct :: "journal \<Rightarrow> bool" where
  "ids_distinct j = distinct (map entry_op (jr_operations j))"

lemma replace_entry_ops:
  "map entry_op (replace_entry e es) = map entry_op es @ (if entry_op e \<in> entry_op ` set es then [] else [entry_op e])"
  by (induction es) auto

lemma journal_get_unique:
  assumes "ids_distinct j" "set (jr_operations k) \<subseteq> set (jr_operations j)" "e \<in> set (jr_operations k)"
  shows "journal_get k (entry_op e) = Some e"
proof (cases "journal_get k (entry_op e)")
  case None
  with assms(3) show ?thesis by (auto simp: journal_get_def find_None_iff)
next
  case (Some x)
  then have "x \<in> set (jr_operations k)" "entry_op x = entry_op e" by (auto simp: journal_get_def dest: find_SomeD)
  with assms show ?thesis using Some by (auto simp: ids_distinct_def distinct_map inj_on_def)
qed

lemma upsert_get:
  assumes "ids_distinct j" "or_settled (je_record e) = None"
  shows "journal_get (upsert e j) (entry_op e) = Some e"
proof -
  define j1 where "j1 = j\<lparr>jr_issued_through := max (jr_issued_through j) (entry_op e),
              jr_operations := replace_entry e (jr_operations j)\<rparr>"
  have d: "ids_distinct j1" using assms(1) by (auto simp: ids_distinct_def j1_def replace_entry_ops)
  have "e \<in> set (jr_operations (prune j1))"
    by (rule prune_keeps_pinned) (use assms(2) in \<open>simp_all add: j1_def set_replace_entry prunable_def\<close>)
  moreover have "set (jr_operations (prune j1)) \<subseteq> set (jr_operations j1)"
    by (cases rule: prune_cases [of j1]) auto
  ultimately show ?thesis using journal_get_unique [OF d] by (simp add: upsert_def j1_def)
qed

lemma fence_entry_op:
  assumes "i < length (jr_operations j)"
  shows "entry_op (jr_operations (fence_unresolved j) ! i) = entry_op (jr_operations j ! i)"
  using assms by (cases rule: fence_cases) (simp_all add: fence_entry_fields settle_first_def)

lemma length_fence_ops: "length (jr_operations (fence_unresolved j)) = length (jr_operations j)"
  by (simp add: fence_unresolved_def Let_def split: option.split)

lemma fence_get:
  assumes "journal_get j op = Some e" "\<not> never_dispatched j e" "\<not> revocation_done j e"
  shows "journal_get (fence_unresolved j) op = Some (fence_entry e)"
proof -
  from assms(1) obtain i where i: "i < length (jr_operations j)" "jr_operations j ! i = e" "entry_op e = op"
    "\<And>k. k < i \<Longrightarrow> entry_op (jr_operations j ! k) \<noteq> op"
    by (auto simp: journal_get_def find_Some_iff)
  have "jr_operations (fence_unresolved j) ! i = fence_entry e"
    using i(1) by (cases rule: fence_cases) (use assms(2,3) i(2) in simp_all)
  with i fence_entry_op [of _ j] show ?thesis
    by (auto simp: journal_get_def find_Some_iff length_fence_ops fence_entry_fields intro!: exI [of _ i])
qed

definition untouched :: "journal \<Rightarrow> u64 \<Rightarrow> bool" where
  "untouched j op =
     ((\<forall>w. jr_zygisk_projection j = Some w \<longrightarrow> pw_operation w \<noteq> op)
      \<and> (\<forall>r. jr_zygisk_revocation j = Some r \<longrightarrow> zr_operation r \<noteq> Some op)
      \<and> (\<forall>e. journal_get j op = Some e \<longrightarrow> je_superseded_by e = None \<and> je_superseded_phases e = []))"

lemma untouched_fence: "untouched j op \<Longrightarrow> entry_op e = op \<Longrightarrow> \<not> never_dispatched j e \<and> \<not> revocation_done j e"
  by (auto simp: untouched_def never_dispatched_def revocation_done_def split: option.splits)

lemma upsert_frame:
  "jr_zygisk_projection (upsert e j) = jr_zygisk_projection j" "jr_zygisk_revocation (upsert e j) = jr_zygisk_revocation j"
proof -
  let ?j = "j\<lparr>jr_issued_through := max (jr_issued_through j) (entry_op e), jr_operations := replace_entry e (jr_operations j)\<rparr>"
  have "jr_zygisk_projection (prune ?j) = jr_zygisk_projection ?j \<and> jr_zygisk_revocation (prune ?j) = jr_zygisk_revocation ?j"
    by (cases rule: prune_cases [of ?j]) simp_all
  then show "jr_zygisk_projection (upsert e j) = jr_zygisk_projection j" "jr_zygisk_revocation (upsert e j) = jr_zygisk_revocation j"
    by (simp_all add: upsert_def)
qed

lemma admit_authority_frame:
  "jr_operations (admit_authority published op intent running j) = jr_operations j"
  "jr_zygisk_projection (admit_authority published op intent running j) = jr_zygisk_projection j"
  "jr_zygisk_revocation (admit_authority published op intent running j) = jr_zygisk_revocation j"
  by (auto simp: admit_authority_def note_zygisk_exposure_def Let_def split: option.split)

lemma held_of_progress:
  assumes "running \<in> set plan" "\<forall>(p, res) \<in> set completed. res = OConfirmed \<or> res = OFailedKnown"
    "or_phases r = map fence_phase (phase_progress plan completed running)" "or_settled r = Some OUnknown"
    "je_record e = r" "je_superseded_by e = None" "je_superseded_phases e = []"
  shows "held_phases e = filter (\<lambda>p. p = running \<or> p \<notin> fst ` set completed) plan"
proof -
  let ?out = "\<lambda>phase. if phase = running then OUnknown
      else case find (\<lambda>(p, _). p = phase) completed of Some (_, res) \<Rightarrow> res | None \<Rightarrow> NotAttempted"
  have settled: "res = OConfirmed \<or> res = OFailedKnown" if "find (\<lambda>(p, _). p = phase) completed = Some (q, res)" for phase q res
    using that assms(2) by (auto dest!: find_SomeD)
  have none: "find (\<lambda>(p, _). p = phase) completed = None \<longleftrightarrow> phase \<notin> fst ` set completed" for phase
    by (force simp: find_None_iff)
  have phases: "or_phases r = map (\<lambda>phase. \<lparr>phr_phase = phase, phr_outcome = ?out phase\<rparr>) plan"
    unfolding assms(3) using settled by (auto simp: phase_progress_def fence_phase_def split: option.split)
  have open_iff: "unresolved (?out phase) \<longleftrightarrow> phase = running \<or> phase \<notin> fst ` set completed" for phase
    using settled none [of phase] by (auto simp: unresolved_def split: option.split)
  have "map phr_phase (filter (\<lambda>p. unresolved (phr_outcome p)) (or_phases r)) =
      filter (\<lambda>p. p = running \<or> p \<notin> fst ` set completed) plan"
    unfolding phases filter_map comp_def by (simp add: open_iff comp_def)
  moreover have "filter (\<lambda>p. p = running \<or> p \<notin> fst ` set completed) plan \<noteq> []"
    using assms(1) by (auto simp: filter_empty_conv)
  ultimately show ?thesis unfolding held_phases_def using assms(4-7) by (simp add: Let_def)
qed

text \<open>
  C10. A crash at any phase of a command.  Core stored that \<open>running\<close> is in flight after the phases in
  \<open>completed\<close> settled.  After the restart the receipt is still there, Unknown, and it holds exactly the
  phase in flight and the phases not reached; what had settled is not reopened.
\<close>

theorem crash_holds_unfinished_phases:
  assumes "ids_distinct j" "untouched j op" "running \<in> set plan"
    "\<forall>(p, res) \<in> set completed. res = OConfirmed \<or> res = OFailedKnown"
  shows "let k = fence_unresolved (record_phase_running published op base edit candidate plan completed running intent j)
         in \<exists>e. journal_get k op = Some e
              \<and> or_settled (je_record e) = Some OUnknown
              \<and> held_phases e = filter (\<lambda>p. p = running \<or> p \<notin> fst ` set completed) plan
              \<and> set (held_phases e) \<subseteq> set (held_resources k)"
proof -
  define i where "i = (case intent of Some i \<Rightarrow> Some i | None \<Rightarrow> stored_intent j op)"
  define j1 where "j1 = admit_authority published op i running j"
  define e where "e = carried_entry j1 base edit candidate i False
      \<lparr>or_op = op, or_phases = phase_progress plan completed running, or_settled = None, or_ports = None\<rparr>"
  have rec: "record_phase_running published op base edit candidate plan completed running intent j = upsert e j1"
    unfolding record_phase_running_def Let_def i_def j1_def e_def ..
  have op: "entry_op e = op" and unsettled: "or_settled (je_record e) = None"
    and ph: "or_phases (je_record e) = phase_progress plan completed running"
    by (simp_all add: e_def carried_entry_def Let_def)
  have get: "journal_get j1 x = journal_get j x" for x by (simp add: j1_def journal_get_def admit_authority_frame)
  have sup: "je_superseded_by e = None" "je_superseded_phases e = []"
    using assms(2) get [of op] by (auto simp: e_def carried_entry_def Let_def untouched_def split: option.split)
      (cases "journal_get j op"; simp)+
  have "ids_distinct j1" using assms(1) by (simp add: ids_distinct_def j1_def admit_authority_frame)
  from upsert_get [OF this unsettled] have stored: "journal_get (upsert e j1) op = Some e" by (simp add: op)
  have "\<not> never_dispatched (upsert e j1) e \<and> \<not> revocation_done (upsert e j1) e"
    using untouched_fence [OF assms(2) op]
    by (simp add: never_dispatched_def revocation_done_def upsert_frame admit_authority_frame j1_def)
  with fence_get [OF stored] have fin: "journal_get (fence_unresolved (upsert e j1)) op = Some (fence_entry e)" by blast
  have held: "held_phases (fence_entry e) = filter (\<lambda>p. p = running \<or> p \<notin> fst ` set completed) plan"
    by (rule held_of_progress [OF assms(3,4) _ _ refl])
      (simp_all add: fence_entry_fields fence_entry_settled unsettled ph sup)
  have "set (held_phases (fence_entry e)) \<subseteq> set (held_resources (fence_unresolved (upsert e j1)))"
    using fin by (auto simp: held_resources_def sort_phases_def journal_get_def dest: find_SomeD)
  with fin held show ?thesis by (simp add: rec fence_entry_settled unsettled)
qed

theorem crash_holds_unfinished_phases_witness:
  "\<exists>e. journal_get (fence_unresolved (record_phase_running (\<lambda>_. False) 3 0 RepairActivation default_canonical
            [Persist, PNative, PPorts] [(Persist, OConfirmed)] PNative None journal_default)) 3 = Some e
       \<and> held_phases e = [PNative, PPorts]"
proof -
  have "ids_distinct journal_default" "untouched journal_default 3"
    by (simp_all add: ids_distinct_def untouched_def journal_default_def journal_get_def)
  from crash_holds_unfinished_phases [OF this, of PNative "[Persist, PNative, PPorts]" "[(Persist, OConfirmed)]"
      "\<lambda>_. False" 0 RepairActivation default_canonical None] show ?thesis by (auto simp: Let_def)
qed

end
