(* ===== verification/Preflight.thy ===== *)
theory Preflight
  imports Native_Attempts
begin

text \<open>
  Loader preflights (\<^verbatim>\<open>crates/core-daemon/src/journal/preflight.rs\<close>): bounded experiments with candidate
  kernel modules.  The plan of a boot and its ledger, admission and completion of one attempt, and the
  run that wraps a syscall between two durable writes.  The journal write and the syscall are
  functions on an arbitrary world.
\<close>

section \<open>Plans and ledgers\<close>

definition valid_sha256 :: "string \<Rightarrow> bool" where
  "valid_sha256 value = (length value = 64 \<and> list_all (\<lambda>c. is_ascii_digit c \<or> byte_in c 97 102) value)"

abbreviation "EPERM \<equiv> 1 :: int"
abbreviation "ENOEXEC \<equiv> 8 :: int"
abbreviation "EACCES \<equiv> 13 :: int"
abbreviation "ENOSYS \<equiv> 38 :: int"

definition candidate_valid :: "linux_series \<Rightarrow> payload \<Rightarrow> bool" where
  "candidate_valid ser p =
     (case pl_implementation p of
        PkKmod kmi \<Rightarrow>
          kmi \<in> set KMIS
          \<and> (case split_once (CHR ''-'') kmi of None \<Rightarrow> False | Some (_, s) \<Rightarrow> series s = Some ser)
          \<and> pl_preflight_protocol p = Some 1 \<and> pl_control_version p = 2
          \<and> 0 < pl_bytes p \<and> pl_bytes p \<le> MAX_PAYLOAD_BYTES
          \<and> valid_sha256 (pl_sha256 p)
          \<and> length (pl_source_commit p) = 40 \<and> list_all is_ascii_hexdigit (pl_source_commit p)
          \<and> pl_version p \<noteq> [] \<and> length (pl_version p) \<le> 128 \<and> \<not> any_control (pl_version p)
      | _ \<Rightarrow> False)"

text \<open>The loop inserts each identity and hash into a set and stops at the first refusal.\<close>

fun candidates_valid :: "linux_series \<Rightarrow> payload list \<Rightarrow> payload_kind list \<Rightarrow> string list \<Rightarrow> bool" where
  "candidates_valid ser [] kinds hashes = True"
| "candidates_valid ser (p # ps) kinds hashes =
     (candidate_valid ser p \<and> pl_implementation p \<notin> set kinds \<and> pl_sha256 p \<notin> set hashes
      \<and> candidates_valid ser ps (pl_implementation p # kinds) (pl_sha256 p # hashes))"

definition plan_valid :: "preflight_plan \<Rightarrow> bool" where
  "plan_valid plan =
     (pf_boot_id plan \<noteq> [] \<and> length (pf_boot_id plan) \<le> 128 \<and> valid_sha256 (pf_manifest_sha256 plan)
      \<and> pf_candidates plan \<noteq> [] \<and> length (pf_candidates plan) \<le> length KMIS
      \<and> candidates_valid (pf_series plan) (pf_candidates plan) [] [])"

definition is_candidate :: "preflight_plan \<Rightarrow> string \<Rightarrow> bool" where
  "is_candidate plan sha256 = list_ex (\<lambda>p. pl_sha256 p = sha256) (pf_candidates plan)"

fun attempt_state_ok :: "bool \<Rightarrow> preflight_state \<Rightarrow> bool" where
  "attempt_state_ok is_last (PfFinished (CandidateRejected errno)) = (errno = ENOEXEC)"
| "attempt_state_ok is_last (PfFinished (LoaderBlocked errno)) =
     (is_last \<and> errno \<in> {EPERM, EACCES, ENOSYS, ENOKEY, EKEYREJECTED})"
| "attempt_state_ok is_last (PfUnknown (Some errno)) = (is_last \<and> 0 < errno \<and> errno \<le> 4095)"
| "attempt_state_ok is_last PfRunning = is_last"
| "attempt_state_ok is_last (PfUnknown None) = is_last"
| "attempt_state_ok is_last (PfFinished CleanSentinel) = True"

fun attempts_valid :: "preflight_plan \<Rightarrow> preflight_attempt list \<Rightarrow> string list \<Rightarrow> bool" where
  "attempts_valid plan [] hashes = True"
| "attempts_valid plan (a # as) hashes =
     (is_candidate plan (pa_sha256 a) \<and> pa_sha256 a \<notin> set hashes
      \<and> attempt_state_ok (as = []) (pa_state a) \<and> attempts_valid plan as (pa_sha256 a # hashes))"

definition ledger_valid :: "preflight_ledger \<Rightarrow> bool" where
  "ledger_valid l =
     (plan_valid (pg_plan l) \<and> length (pg_attempts l) \<le> length (pf_candidates (pg_plan l))
      \<and> attempts_valid (pg_plan l) (pg_attempts l) [])"


section \<open>Attempts\<close>

definition ledger_refuses :: "preflight_plan \<Rightarrow> string \<Rightarrow> preflight_ledger \<Rightarrow> string option" where
  "ledger_refuses plan sha256 l =
     (if ledger_uncertain l then Some ''unresolved preflight requires explicit reboot reconciliation''
      else if pf_boot_id (pg_plan l) = pf_boot_id plan then
        (if pg_plan l \<noteq> plan then Some ''preflight plan already frozen for this boot''
         else if list_ex (\<lambda>a. pa_sha256 a = sha256 \<or> is_blocked (pa_state a)) (pg_attempts l)
         then Some ''preflight budget consumed or loader blocked''
         else None)
      else None)"

definition begin_preflight :: "preflight_plan \<Rightarrow> string \<Rightarrow> journal \<Rightarrow> string + journal" where
  "begin_preflight plan sha256 j =
     (if \<not> plan_valid plan \<or> \<not> is_candidate plan sha256 then Inl ''invalid preflight payload identity''
      else if list_ex (\<lambda>p. p \<in> {Persist, PNative, Secret}) (held_resources j)
              \<or> zygisk_exposed_in j (pf_boot_id plan)
              \<or> (case jr_native_load_budget j of None \<Rightarrow> False
                 | Some b \<Rightarrow> lb_boot_id b = pf_boot_id plan \<and> lb_attempted b \<noteq> [])
      then Inl ''native ownership/effect uncertainty blocks preflight''
      else case (case jr_kmod_preflights j of None \<Rightarrow> None | Some l \<Rightarrow> ledger_refuses plan sha256 l) of
        Some refusal \<Rightarrow> Inl refusal
      | None \<Rightarrow>
          (let ledger = (case jr_kmod_preflights j of
                           Some l \<Rightarrow> if pf_boot_id (pg_plan l) \<noteq> pf_boot_id plan
                                     then \<lparr>pg_plan = plan, pg_attempts = []\<rparr> else l
                         | None \<Rightarrow> \<lparr>pg_plan = plan, pg_attempts = []\<rparr>)
           in if length (pf_candidates plan) \<le> length (pg_attempts ledger) then Inl ''preflight budget exhausted''
              else Inr (j\<lparr>jr_kmod_preflights :=
                     Some (ledger\<lparr>pg_attempts := pg_attempts ledger @ [\<lparr>pa_sha256 = sha256, pa_state = PfRunning\<rparr>]\<rparr>)\<rparr>)))"

definition complete_preflight :: "string \<Rightarrow> preflight_state \<Rightarrow> journal \<Rightarrow> string + journal" where
  "complete_preflight sha256 state j =
     (if state = PfRunning then Inl ''preflight completion is still running''
      else case jr_kmod_preflights j of
        None \<Rightarrow> Inl ''no preflight intent''
      | Some ledger \<Rightarrow>
          (case find (\<lambda>a. pa_sha256 a = sha256) (pg_attempts ledger) of
             None \<Rightarrow> Inl ''unknown preflight payload''
           | Some attempt \<Rightarrow>
               if pa_state attempt \<noteq> PfRunning then Inl ''preflight receipt is immutable''
               else
                 (let updated = ledger\<lparr>pg_attempts :=
                        update_first (\<lambda>a. pa_sha256 a = sha256) (\<lambda>a. a\<lparr>pa_state := state\<rparr>) (pg_attempts ledger)\<rparr>
                  in if \<not> ledger_valid updated then Inl ''invalid preflight result''
                     else Inr (j\<lparr>jr_kmod_preflights := Some updated\<rparr>))))"

text \<open>
  \<open>writer j w\<close> is \<^verbatim>\<open>write_atomic\<close>: \<open>Some\<close> is its error.  The result carries the journal the caller is
  left with.
\<close>

definition run_preflight_with ::
    "(journal \<Rightarrow> 'w \<Rightarrow> string option \<times> 'w) \<Rightarrow> journal \<Rightarrow> preflight_plan \<Rightarrow> string \<Rightarrow>
     ('w \<Rightarrow> preflight_state \<times> 'w) \<Rightarrow> 'w \<Rightarrow> (string + preflight_state) \<times> journal \<times> 'w" where
  "run_preflight_with writer j plan sha256 eff w =
     (case begin_preflight plan sha256 j of
        Inl e \<Rightarrow> (Inl e, j, w)
      | Inr running \<Rightarrow>
          (case writer running w of
             (Some err, w1) \<Rightarrow>
               (Inl (''preflight intent storage uncertain; no syscall dispatched: '' @ err), fence_unresolved running, w1)
           | (None, w1) \<Rightarrow>
               (let (state, w2) = eff w1
                in case complete_preflight sha256 state running of
                     Inl e \<Rightarrow> (Inl e, running, w2)
                   | Inr completed \<Rightarrow>
                       (case writer completed w2 of
                          (Some err, w3) \<Rightarrow>
                            (Inl (''preflight completion storage uncertain: '' @ err), fence_unresolved running, w3)
                        | (None, w3) \<Rightarrow> (Inr state, completed, w3)))))"


section \<open>Valid ledgers\<close>

definition ledger_ok :: "journal \<Rightarrow> bool" where
  "ledger_ok j = (case jr_kmod_preflights j of None \<Rightarrow> True | Some l \<Rightarrow> ledger_valid l)"

lemma attempts_valid_snoc:
  assumes "attempts_valid plan as hashes" "list_all (\<lambda>a. \<not> attempt_unresolved a \<and> \<not> is_blocked (pa_state a)) as"
    "is_candidate plan sha" "sha \<notin> set hashes" "sha \<notin> pa_sha256 ` set as"
  shows "attempts_valid plan (as @ [\<lparr>pa_sha256 = sha, pa_state = PfRunning\<rparr>]) hashes"
  using assms
proof (induction as arbitrary: hashes)
  case (Cons a as)
  have "attempt_state_ok False (pa_state a)" if "attempt_state_ok b (pa_state a)" for b
    using that Cons.prems(2)
    by (cases "(b, pa_state a)" rule: attempt_state_ok.cases) (auto simp: attempt_unresolved_def is_blocked_def)
  with Cons show ?case by auto
qed simp

lemma attempts_valid_fence:
  "attempts_valid plan as hashes \<Longrightarrow>
   attempts_valid plan (map (\<lambda>a. if pa_state a = PfRunning then a\<lparr>pa_state := PfUnknown None\<rparr> else a) as) hashes"
  by (induction as arbitrary: hashes) auto

lemma begin_preflight_cases:
  assumes "begin_preflight plan sha j = Inr j'"
  obtains l where "plan_valid plan" "is_candidate plan sha"
    "jr_kmod_preflights j' = Some (l\<lparr>pg_attempts := pg_attempts l @ [\<lparr>pa_sha256 = sha, pa_state = PfRunning\<rparr>]\<rparr>)"
    "pg_plan l = plan" "length (pg_attempts l) < length (pf_candidates plan)"
    "list_all (\<lambda>a. \<not> attempt_unresolved a \<and> \<not> is_blocked (pa_state a)) (pg_attempts l)"
    "sha \<notin> pa_sha256 ` set (pg_attempts l)"
    "jr_kmod_preflights j = Some l \<or> pg_attempts l = []
       \<and> (\<forall>k. jr_kmod_preflights j = Some k \<longrightarrow> pf_boot_id (pg_plan k) \<noteq> pf_boot_id plan)"
proof (cases "\<exists>l. jr_kmod_preflights j = Some l \<and> pf_boot_id (pg_plan l) = pf_boot_id plan")
  case True
  then obtain l where l: "jr_kmod_preflights j = Some l" "pf_boot_id (pg_plan l) = pf_boot_id plan" by blast
  from assms l have "plan_valid plan" "is_candidate plan sha"
    "jr_kmod_preflights j' = Some (l\<lparr>pg_attempts := pg_attempts l @ [\<lparr>pa_sha256 = sha, pa_state = PfRunning\<rparr>]\<rparr>)"
    "pg_plan l = plan" "length (pg_attempts l) < length (pf_candidates plan)"
    "\<not> ledger_uncertain l" "\<not> list_ex (\<lambda>a. pa_sha256 a = sha \<or> is_blocked (pa_state a)) (pg_attempts l)"
    by (auto simp: begin_preflight_def ledger_refuses_def Let_def split: if_splits option.splits)
  with l that [of l] show thesis by (auto simp: ledger_uncertain_def list_ex_iff list_all_iff)
next
  case False
  let ?l = "\<lparr>pg_plan = plan, pg_attempts = []\<rparr>"
  from assms False have "plan_valid plan" "is_candidate plan sha"
    "jr_kmod_preflights j' = Some (?l\<lparr>pg_attempts := pg_attempts ?l @ [\<lparr>pa_sha256 = sha, pa_state = PfRunning\<rparr>]\<rparr>)"
    "length (pg_attempts ?l) < length (pf_candidates plan)"
    by (auto simp: begin_preflight_def Let_def split: if_splits option.splits)
  with that [of ?l] False show thesis by auto
qed

lemma ledger_ok_begin: "ledger_ok j \<Longrightarrow> begin_preflight plan sha j = Inr j' \<Longrightarrow> ledger_ok j'"
  by (erule begin_preflight_cases) (auto simp: ledger_ok_def ledger_valid_def intro!: attempts_valid_snoc)

lemma ledger_ok_complete: "complete_preflight sha state j = Inr j' \<Longrightarrow> ledger_ok j'"
  by (auto simp: complete_preflight_def ledger_ok_def Let_def split: if_splits option.splits)

lemma ledger_ok_fence: "ledger_ok j \<Longrightarrow> ledger_ok (fence_unresolved j)"
  by (auto simp: ledger_ok_def fence_unresolved_def Let_def ledger_valid_def ledger_fence_def attempts_valid_fence
      split: option.splits)


section \<open>One syscall per candidate\<close>

definition attempted_shas :: "preflight_ledger \<Rightarrow> string list" where
  "attempted_shas l = map pa_sha256 (pg_attempts l)"

lemma attempted_shas_simps [simp]:
  "attempted_shas (l\<lparr>pg_attempts := pg_attempts l @ [a]\<rparr>) = attempted_shas l @ [pa_sha256 a]"
  "attempted_shas (ledger_fence l) = attempted_shas l" "pg_plan (ledger_fence l) = pg_plan l"
  "attempted_shas (l\<lparr>pg_attempts := update_first P (\<lambda>a. a\<lparr>pa_state := st\<rparr>) (pg_attempts l)\<rparr>) = attempted_shas l"
proof -
  have "map pa_sha256 (update_first P (\<lambda>a. a\<lparr>pa_state := st\<rparr>) as) = map pa_sha256 as" for as
    by (induction as) simp_all
  then show "attempted_shas (l\<lparr>pg_attempts := update_first P (\<lambda>a. a\<lparr>pa_state := st\<rparr>) (pg_attempts l)\<rparr>) = attempted_shas l"
    by (simp add: attempted_shas_def)
qed (simp_all add: attempted_shas_def ledger_fence_def)

type_synonym preflight_request = "preflight_plan \<times> string"

definition preflight_ops :: "string \<Rightarrow> (preflight_request, string \<times> preflight_state, journal) wal_ops" where
  "preflight_ops boot =
     \<lparr>wo_begin = (\<lambda>(plan, sha) j. if pf_boot_id plan = boot then res_ok (begin_preflight plan sha j) else None),
      wo_update = (\<lambda>(sha, state) j. res_ok (complete_preflight sha state j)),
      wo_begin_failed = fence_unresolved,
      wo_update_failed = (\<lambda>old _. fence_unresolved old),
      wo_fence = fence_unresolved\<rparr>"

definition preflight_barred :: "string \<Rightarrow> journal \<Rightarrow> preflight_request \<Rightarrow> bool" where
  "preflight_barred boot j r =
     (pf_boot_id (fst r) \<noteq> boot
      \<or> (\<exists>l. jr_kmod_preflights j = Some l \<and> pf_boot_id (pg_plan l) = boot
             \<and> (pg_plan l \<noteq> fst r \<or> snd r \<in> set (attempted_shas l))))"

definition preflight_excludes :: "preflight_request \<Rightarrow> preflight_request \<Rightarrow> bool" where
  "preflight_excludes r q = (fst r \<noteq> fst q \<or> snd r = snd q)"

lemma res_ok_eq_Some: "res_ok r = Some x \<longleftrightarrow> r = Inr x"
  by (cases r) (simp_all add: res_ok_simps)

lemma preflight_barred_fence: "preflight_barred boot (fence_unresolved j) r = preflight_barred boot j r"
  by (cases "jr_kmod_preflights j") (simp_all add: preflight_barred_def fence_unresolved_def Let_def)

lemma preflight_barred_complete:
  assumes "complete_preflight sha state j = Inr j'"
  shows "preflight_barred boot j' r = preflight_barred boot j r"
proof -
  from assms obtain l where "jr_kmod_preflights j = Some l"
    "jr_kmod_preflights j' = Some (l\<lparr>pg_attempts := update_first (\<lambda>a. pa_sha256 a = sha) (\<lambda>a. a\<lparr>pa_state := state\<rparr>) (pg_attempts l)\<rparr>)"
    by (auto simp: complete_preflight_def Let_def split: if_splits option.splits)
  then show ?thesis by (simp add: preflight_barred_def)
qed

lemma preflight_begin_bars:
  assumes "begin_preflight plan sha j = Inr j'" "pf_boot_id plan = boot"
  shows "\<not> preflight_barred boot j (plan, sha)"
    "preflight_barred boot j' q \<longleftrightarrow> preflight_barred boot j q \<or> preflight_excludes (plan, sha) q"
proof -
  from assms(1) obtain l where l: "jr_kmod_preflights j' = Some (l\<lparr>pg_attempts := pg_attempts l @ [\<lparr>pa_sha256 = sha, pa_state = PfRunning\<rparr>]\<rparr>)"
    "pg_plan l = plan" "sha \<notin> pa_sha256 ` set (pg_attempts l)"
    "jr_kmod_preflights j = Some l \<or> pg_attempts l = []
       \<and> (\<forall>k. jr_kmod_preflights j = Some k \<longrightarrow> pf_boot_id (pg_plan k) \<noteq> pf_boot_id plan)"
    by (rule begin_preflight_cases)
  have sha: "sha \<notin> set (attempted_shas l)" using l(3) by (simp add: attempted_shas_def)
  show "\<not> preflight_barred boot j (plan, sha)" 
  proof (cases "jr_kmod_preflights j = Some l")
    case False
    with l(4) show ?thesis unfolding preflight_barred_def using assms(2) by auto
  qed (use sha l(2) assms(2) in \<open>simp add: preflight_barred_def\<close>)
  have after: "preflight_barred boot j' q \<longleftrightarrow>
      pf_boot_id (fst q) \<noteq> boot \<or> plan \<noteq> fst q \<or> snd q \<in> set (attempted_shas l) \<or> snd q = sha"
    unfolding preflight_barred_def l(1) using assms(2) l(2) by auto
  show "preflight_barred boot j' q \<longleftrightarrow> preflight_barred boot j q \<or> preflight_excludes (plan, sha) q"
  proof (cases "jr_kmod_preflights j = Some l")
    case True
    then have "preflight_barred boot j q \<longleftrightarrow> pf_boot_id (fst q) \<noteq> boot \<or> plan \<noteq> fst q \<or> snd q \<in> set (attempted_shas l)"
      unfolding preflight_barred_def using l(2) assms(2) by simp
    then show ?thesis unfolding after preflight_excludes_def by auto
  next
    case False
    with l(4) have "set (attempted_shas l) = {}" "preflight_barred boot j q \<longleftrightarrow> pf_boot_id (fst q) \<noteq> boot"
      unfolding preflight_barred_def using assms(2) by (auto simp: attempted_shas_def)
    then show ?thesis unfolding after preflight_excludes_def by auto
  qed
qed

interpretation preflights: write_ahead "preflight_ops boot" "preflight_barred boot" preflight_excludes for boot
proof (unfold_locales, simp_all add: preflight_ops_def preflight_barred_fence split_def res_ok_eq_Some preflight_barred_complete)
  fix r q :: preflight_request and j j' :: journal
  assume b: "(if pf_boot_id (fst r) = boot then res_ok (begin_preflight (fst r) (snd r) j) else None) = Some j'"
  then have "begin_preflight (fst r) (snd r) j = Inr j'" "pf_boot_id (fst r) = boot"
    by (auto simp: res_ok_eq_Some split: if_splits)
  from preflight_begin_bars [OF this] show "\<not> preflight_barred boot j r"
    "preflight_excludes r q \<Longrightarrow> preflight_barred boot j' q" "preflight_barred boot j q \<Longrightarrow> preflight_barred boot j' q"
    by auto
qed

text \<open>
  C33. Loader experiments across crashes.  In one boot, whatever syscall results are recorded,
  whichever journal writes fail and whenever Core restarts: every dispatched syscall belongs to one
  frozen plan, each candidate is tried at most once, and there are at most seven of them.
\<close>

theorem preflight_once_per_boot:
  "sorted_wrt (\<lambda>r q. fst r = fst q \<and> snd r \<noteq> snd q)
     (ws_log (foldl (wal_step (preflight_ops boot)) (wal_start j) es))
   \<and> length (ws_log (foldl (wal_step (preflight_ops boot)) (wal_start j) es)) \<le> 7"
proof -
  let ?log = "ws_log (foldl (wal_step (preflight_ops boot)) (wal_start j) es)"
  have sw: "sorted_wrt (\<lambda>r q. fst r = fst q \<and> snd r \<noteq> snd q) ?log"
    by (rule sorted_wrt_mono_rel [rotated, OF preflights.history_respects]) (auto simp: preflight_excludes_def)
  have adm: "list_all (\<lambda>r. plan_valid (fst r) \<and> is_candidate (fst r) (snd r)) ?log"
    by (rule log_admitted)
      (auto simp: preflight_ops_def wal_start_def res_ok_eq_Some split: if_splits elim: begin_preflight_cases)
  have "length ?log \<le> 7"
  proof (cases ?log)
    case (Cons r rs)
    have "distinct (map snd rs)" if "sorted_wrt (\<lambda>r q. fst r = fst q \<and> snd r \<noteq> snd q) rs" for rs :: "preflight_request list"
      using that by (induction rs) auto
    with sw have d: "distinct (map snd ?log)" by blast
    have "fst q = fst r" if "q \<in> set ?log" for q using sw that by (auto simp: Cons)
    then have "set (map snd ?log) \<subseteq> pl_sha256 ` set (pf_candidates (fst r))"
      using adm by (fastforce simp: list_all_iff is_candidate_def list_ex_iff)
    then have "card (set (map snd ?log)) \<le> card (pl_sha256 ` set (pf_candidates (fst r)))" by (rule card_mono [rotated]) simp
    also have "\<dots> \<le> length (pf_candidates (fst r))" by (meson card_image_le card_length finite_set order_trans)
    also have "\<dots> \<le> 7" using adm by (auto simp: Cons plan_valid_def KMIS_def)
    finally show ?thesis using distinct_card [OF d] by simp
  qed simp
  with sw show ?thesis by blast
qed


section \<open>The run refines the machine\<close>

text \<open>
  A world for \<open>run_preflight_with\<close>: the disk, the history of syscalls, and the fate of each coming
  journal write.
\<close>

record preflight_world =
  pw_disk :: journal
  pw_calls :: "preflight_request list"
  pw_fates :: "write_fate list"

definition world_writer :: "journal \<Rightarrow> preflight_world \<Rightarrow> string option \<times> preflight_world" where
  "world_writer j w =
     (let fate = (case pw_fates w of [] \<Rightarrow> Written | f # _ \<Rightarrow> f)
      in (if fate = Written then None else Some ''io'',
          w\<lparr>pw_disk := written fate (pw_disk w) j, pw_fates := tl (pw_fates w)\<rparr>))"

definition world_call :: "preflight_request \<Rightarrow> preflight_state \<Rightarrow> preflight_world \<Rightarrow> preflight_state \<times> preflight_world" where
  "world_call r state w = (state, w\<lparr>pw_calls := pw_calls w @ [r]\<rparr>)"

definition run_events :: "journal \<Rightarrow> preflight_request \<Rightarrow> preflight_state \<Rightarrow> write_fate \<Rightarrow> write_fate \<Rightarrow>
    (preflight_request, string \<times> preflight_state) wal_event list" where
  "run_events j r state f1 f2 =
     (if is_ok (begin_preflight (fst r) (snd r) j) \<and> f1 = Written
      then [WBegin r f1, WUpdate (snd r, state) f2] else [WBegin r f1])"

text \<open>
  C34. Every preflight run is a run of the write-ahead machine: the journal in memory, the disk and
  the syscalls made are those of admitting the candidate and, if the intent was stored, recording its
  result.  What holds of all histories of the machine holds of the code.
\<close>

theorem run_preflight_refines:
  assumes "run_preflight_with world_writer j plan sha (world_call (plan, sha) state)
             \<lparr>pw_disk = disk, pw_calls = calls, pw_fates = [f1, f2]\<rparr> = (result, j', w')"
  shows "\<lparr>ws_memory = j', ws_disk = pw_disk w', ws_log = pw_calls w'\<rparr> =
         foldl (wal_step (preflight_ops (pf_boot_id plan))) \<lparr>ws_memory = j, ws_disk = disk, ws_log = calls\<rparr>
           (run_events j (plan, sha) state f1 f2)"
proof (cases "begin_preflight plan sha j")
  case (Inl e)
  with assms show ?thesis by (auto simp: run_preflight_with_def run_events_def is_ok_def preflight_ops_def res_ok_simps)
next
  case (Inr running)
  note b = Inr
  show ?thesis
  proof (cases "f1 = Written")
    case False
    with assms b show ?thesis
      by (auto simp: run_preflight_with_def run_events_def is_ok_def preflight_ops_def res_ok_simps world_writer_def Let_def)
  next
    case True
    show ?thesis
    proof (cases "complete_preflight sha state running")
      case (Inl e)
      with assms b True show ?thesis
        by (auto simp: run_preflight_with_def run_events_def is_ok_def preflight_ops_def res_ok_simps world_writer_def
            world_call_def written_def Let_def)
    next
      case (Inr completed)
      with assms b True show ?thesis
        by (cases f2) (auto simp: run_preflight_with_def run_events_def is_ok_def preflight_ops_def res_ok_simps
            world_writer_def world_call_def written_def Let_def)
    qed
  qed
qed

definition sample_candidate :: payload where
  "sample_candidate =
     (sample_payload (PkKmod ''android13-5.10''))\<lparr>pl_preflight_protocol := Some 1\<rparr>"

definition sample_plan :: preflight_plan where
  "sample_plan =
     \<lparr>pf_boot_id = ''boot'', pf_manifest_sha256 = replicate 64 (CHR ''c''),
      pf_series = \<lparr>ls_major = 5, ls_minor = 10\<rparr>, pf_candidates = [sample_candidate]\<rparr>"

lemma sample_plan_valid: "plan_valid sample_plan" "is_candidate sample_plan (pl_sha256 sample_candidate)"
  by code_simp+

lemma sample_plan_begins: "\<exists>running. begin_preflight sample_plan (pl_sha256 sample_candidate) journal_default = Inr running"
  using sample_plan_valid
  by (simp add: begin_preflight_def held_resources_def sort_phases_def journal_default_def native_lifecycle_uncertain_def
      native_startup_uncertain_def preflight_uncertain_def revocation_uncertain_def bootstrap_uncertain_def
      replacement_blocked_def projection_blocked_def zygisk_exposed_in_def)
    (simp add: sample_plan_def)

text \<open>The syscall's result cannot be stored: the call was made once and its receipt stays unresolved.\<close>

theorem run_preflight_refines_witness:
  "\<exists>result j' w'.
     run_preflight_with world_writer journal_default sample_plan (pl_sha256 sample_candidate)
       (world_call (sample_plan, pl_sha256 sample_candidate) (PfFinished CleanSentinel))
       \<lparr>pw_disk = journal_default, pw_calls = [], pw_fates = [Written, LostWrite]\<rparr> = (result, j', w')
     \<and> pw_calls w' = [(sample_plan, pl_sha256 sample_candidate)]
     \<and> j' = ws_memory (foldl (wal_step (preflight_ops (pf_boot_id sample_plan))) (wal_start journal_default)
              (run_events journal_default (sample_plan, pl_sha256 sample_candidate) (PfFinished CleanSentinel) Written LostWrite))"
proof -
  let ?sha = "pl_sha256 sample_candidate" let ?w = "\<lparr>pw_disk = journal_default, pw_calls = [], pw_fates = [Written, LostWrite]\<rparr>"
  obtain result j' w' where run: "run_preflight_with world_writer journal_default sample_plan ?sha
       (world_call (sample_plan, ?sha) (PfFinished CleanSentinel)) ?w = (result, j', w')" by (metis prod_cases3)
  obtain running where b: "begin_preflight sample_plan ?sha journal_default = Inr running" using sample_plan_begins by blast
  from run b have "pw_calls w' = [(sample_plan, ?sha)]"
    by (cases "complete_preflight ?sha (PfFinished CleanSentinel) running")
      (auto simp: run_preflight_with_def world_writer_def world_call_def Let_def)
  moreover have "j' = ws_memory (foldl (wal_step (preflight_ops (pf_boot_id sample_plan))) (wal_start journal_default)
              (run_events journal_default (sample_plan, ?sha) (PfFinished CleanSentinel) Written LostWrite))"
    using run_preflight_refines [OF run] by (simp add: wal_start_def) (metis wal_state.select_convs(1))
  ultimately show ?thesis using run by blast
qed

text \<open>
  The ledger the journal accepts on reading is the one it writes: admitting an attempt, recording
  a result and restart fencing all keep it valid, so a journal written by Core is never refused for
  its preflights.
\<close>

theorem preflight_ledger_valid:
  assumes "ledger_ok j"
  shows "ledger_ok (fence_unresolved j)
       \<and> (\<forall>j'. begin_preflight plan sha j = Inr j' \<longrightarrow> ledger_ok j')
       \<and> (\<forall>j'. complete_preflight sha state j = Inr j' \<longrightarrow> ledger_ok j')"
  using assms by (auto intro: ledger_ok_fence ledger_ok_begin ledger_ok_complete)

theorem preflight_ledger_valid_witness:
  "\<exists>j'. begin_preflight sample_plan (pl_sha256 sample_candidate) journal_default = Inr j' \<and> ledger_ok j'"
proof -
  have "ledger_ok journal_default" by (simp add: ledger_ok_def journal_default_def)
  from preflight_ledger_valid [OF this] sample_plan_begins show ?thesis by blast
qed

end
