(* ===== verification/Elf_Image.thy ===== *)
theory Elf_Image
  imports Kernel_Payloads
begin

text \<open>
  The bounded reader of kernel module images (\<^verbatim>\<open>crates/artifact-model/src/elf.rs\<close>): checked slices
  and little-endian fields, the section table, module metadata, and GNU build-ID notes.

  An unsigned 64-bit value is a \<^typ>\<open>nat\<close> read from at most eight bytes; where the source computes
  with such values the range check is written out.  \<^verbatim>\<open>usize\<close> is 64 bits wide, so the conversions
  between the two never fail.  Errors are the messages of the source; a UTF-8 error has no message
  of its own there and is \<open>''utf8''\<close> here.
\<close>

section \<open>Loops that may return early\<close>

text \<open>A \<^verbatim>\<open>for\<close> loop whose body uses \<^verbatim>\<open>?\<close>, and \<^verbatim>\<open>collect::<Result<Vec<_>, _>>()\<close>.\<close>

fun try_fold :: "('s \<Rightarrow> 'a \<Rightarrow> 'e + 's) \<Rightarrow> 's \<Rightarrow> 'a list \<Rightarrow> 'e + 's" where
  "try_fold f s [] = Inr s"
| "try_fold f s (x # xs) = and_then (f s x) (\<lambda>s'. try_fold f s' xs)"

fun try_map :: "('a \<Rightarrow> 'e + 'b) \<Rightarrow> 'a list \<Rightarrow> 'e + 'b list" where
  "try_map f [] = Inr []"
| "try_map f (x # xs) = and_then (f x) (\<lambda>y. and_then (try_map f xs) (\<lambda>ys. Inr (y # ys)))"

text \<open>
  A guard \<^verbatim>\<open>if a || b? || ... { return Err }\<close>: the conditions are read from the left, the first one
  that holds gives the guard's message and the first one that cannot be read gives its own.
\<close>

fun refuse_if :: "('e + bool) list \<Rightarrow> 'e \<Rightarrow> 'e + unit" where
  "refuse_if [] e = Inr ()"
| "refuse_if (c # cs) e = and_then c (\<lambda>b. if b then Inl e else refuse_if cs e)"

definition tested :: "('a \<Rightarrow> bool) \<Rightarrow> 'e + 'a \<Rightarrow> 'e + bool" where
  "tested P r = and_then r (\<lambda>x. Inr (P x))"

lemma try_fold_append: "try_fold f s (xs @ ys) = and_then (try_fold f s xs) (\<lambda>s'. try_fold f s' ys)"
proof (induction xs arbitrary: s)
  case (Cons x xs)
  then show ?case by (cases "f s x") simp_all
qed simp

lemma try_fold_invariant:
  assumes "try_fold f s xs = Inr t" "P [] s"
    and step: "\<And>ys y u v. P ys u \<Longrightarrow> y \<in> set xs \<Longrightarrow> f u y = Inr v \<Longrightarrow> P (ys @ [y]) v"
  shows "P xs t"
  using assms(1) step
proof (induction xs arbitrary: t rule: rev_induct)
  case Nil
  with assms(2) show ?case by simp
next
  case (snoc x xs)
  then obtain u where "try_fold f s xs = Inr u" "f u x = Inr t"
    by (auto simp: try_fold_append and_then_Inr)
  then show ?case using snoc by (metis Un_iff in_set_conv_decomp set_append)
qed

lemma try_map_Inr: "try_map f xs = Inr ys \<longleftrightarrow> list_all2 (\<lambda>x y. f x = Inr y) xs ys"
  by (induction xs arbitrary: ys) (auto simp: and_then_Inr list_all2_Cons1)

lemma try_map_ok: "try_map f xs = Inr ys \<Longrightarrow> x \<in> set xs \<Longrightarrow> \<exists>y \<in> set ys. f x = Inr y"
  by (induction xs arbitrary: ys) (auto simp: and_then_Inr)

lemma refuse_if_Inr: "refuse_if cs e = Inr u \<longleftrightarrow> (\<forall>c \<in> set cs. c = Inr False)"
  by (induction cs) (auto simp: and_then_Inr split: if_splits)

lemma tested_Inr: "tested P r = Inr b \<longleftrightarrow> (\<exists>x. r = Inr x \<and> b = P x)"
  by (auto simp: tested_def and_then_Inr)

declare refuse_if.simps [simp del]

lemmas try_simps = and_then_Inr refuse_if_Inr tested_Inr


section \<open>Checked slices and fields\<close>

definition U64 :: nat where
  "U64 = 18446744073709551616"

definition elf_bytes :: "bytes \<Rightarrow> nat \<Rightarrow> nat \<Rightarrow> string + bytes" where
  "elf_bytes data offset len =
     (if U64 \<le> offset + len then Inl ''ELF range overflow''
      else if offset + len \<le> length data then Inr (take len (drop offset data))
      else Inl ''ELF range outside file'')"

text \<open>\<^verbatim>\<open>u64::from_le_bytes\<close> of a slice padded with zeros.\<close>

definition le_nat :: "bytes \<Rightarrow> nat" where
  "le_nat bs = horner_sum of_char 256 bs"

definition number :: "bytes \<Rightarrow> nat \<Rightarrow> nat \<Rightarrow> string + nat" where
  "number data offset len = and_then (elf_bytes data offset len) (\<lambda>bs. Inr (le_nat bs))"

definition is_ascii :: "string \<Rightarrow> bool" where
  "is_ascii s = list_all (\<lambda>c. byte_in c 0 127) s"

definition elf_string :: "bytes \<Rightarrow> nat \<Rightarrow> string + string" where
  "elf_string data offset =
     (if length data < offset then Inl ''ELF string offset''
      else
        let window = take 257 (drop offset data);
            value = takeWhile (\<lambda>c. c \<noteq> CHR 0x00) window
        in if CHR 0x00 \<notin> set window then Inl ''unterminated ELF string''
           else if \<not> utf8_ok value then Inl ''utf8''
           else if \<not> is_ascii value then Inl ''non-ASCII ELF metadata''
           else Inr value)"

text \<open>\<^verbatim>\<open>as_chunks\<close> and \<^verbatim>\<open>chunks_exact\<close>: whole chunks only, a shorter rest is left out.\<close>

function chunks_exact :: "nat \<Rightarrow> 'a list \<Rightarrow> 'a list list" where
  "chunks_exact n xs = (if n = 0 \<or> length xs < n then [] else take n xs # chunks_exact n (drop n xs))"
  by auto
termination by (relation "measure (\<lambda>(n, xs). length xs)") auto

declare chunks_exact.simps [simp del]

lemma length_chunks_exact: "length (chunks_exact n xs) = (if n = 0 then 0 else length xs div n)"
proof (induction n xs rule: chunks_exact.induct)
  case (1 n xs)
  show ?case
  proof (cases "n = 0 \<or> length xs < n")
    case False
    then have "length xs div n = Suc ((length xs - n) div n)" by (simp add: le_div_geq)
    with False 1 show ?thesis by (simp add: chunks_exact.simps [of n xs])
  qed (auto simp: chunks_exact.simps [of n xs])
qed

lemma chunks_exact_length: "c \<in> set (chunks_exact n xs) \<Longrightarrow> length c = n"
  by (induction n xs rule: chunks_exact.induct) (subst (asm) (2) chunks_exact.simps, auto split: if_splits)

lemma le_nat_Cons [simp]: "le_nat (b # bs) = of_char b + 256 * le_nat bs" and le_nat_Nil [simp]: "le_nat [] = 0"
  by (simp_all add: le_nat_def mult.commute)

lemma le_nat_less: "le_nat bs < 256 ^ length bs"
proof (induction bs)
  case (Cons b bs)
  have "of_char b < (256 :: nat)" by (rule nat_of_char_less_256)
  moreover have "256 * (le_nat bs + 1) \<le> 256 * 256 ^ length bs" using Cons by simp
  ultimately have "of_char b + 256 * le_nat bs < 256 * 256 ^ length bs" unfolding distrib_left by linarith
  then show ?case by simp
qed simp

lemma elf_bytes_Inr:
  "elf_bytes d o' n = Inr bs \<longleftrightarrow> o' + n < U64 \<and> o' + n \<le> length d \<and> bs = take n (drop o' d)"
  by (auto simp: elf_bytes_def)

lemma length_elf_bytes: "elf_bytes d o' n = Inr bs \<Longrightarrow> length bs = n"
  by (auto simp: elf_bytes_Inr)

lemma number_Inr: "number d o' n = Inr v \<longleftrightarrow> o' + n < U64 \<and> o' + n \<le> length d \<and> v = le_nat (take n (drop o' d))"
  by (auto simp: number_def and_then_Inr elf_bytes_Inr)

lemma number_less: "number d o' n = Inr v \<Longrightarrow> v < 256 ^ n"
  using le_nat_less [of "take n (drop o' d)"] by (auto simp: number_Inr)


lemma is_ascii_utf8: "is_ascii s \<Longrightarrow> utf8_ok s"
  by (rule utf8_ok_ascii) (simp add: is_ascii_def list_all_iff)

lemma elf_string_Inr:
  "elf_string d o' = Inr s \<longleftrightarrow>
     o' \<le> length d \<and> length s \<le> 256 \<and> is_ascii s \<and> CHR 0x00 \<notin> set s
     \<and> (\<exists>rest. drop o' d = s @ CHR 0x00 # rest)"
proof
  let ?w = "take 257 (drop o' d)" and ?z = "\<lambda>c. c \<noteq> CHR 0x00"
  assume "elf_string d o' = Inr s"
  then have a: "o' \<le> length d" "CHR 0x00 \<in> set ?w" "s = takeWhile ?z ?w" "is_ascii s"
    by (auto simp: elf_string_def Let_def split: if_splits)
  have n: "dropWhile ?z ?w \<noteq> []" using a(2) by (auto simp: dropWhile_eq_Nil_conv)
  then obtain rest where "dropWhile ?z ?w = CHR 0x00 # rest"
    using hd_dropWhile [OF n] by (cases "dropWhile ?z ?w") auto
  then have w: "?w = s @ CHR 0x00 # rest" using a(3) by (metis takeWhile_dropWhile_id)
  then have "length s < length ?w" by simp
  moreover have "drop o' d = s @ CHR 0x00 # rest @ drop 257 (drop o' d)"
    using w by (metis append_Cons append_assoc append_take_drop_id)
  moreover have "CHR 0x00 \<notin> set s" using a(3) set_takeWhileD by fastforce
  ultimately show "o' \<le> length d \<and> length s \<le> 256 \<and> is_ascii s \<and> CHR 0x00 \<notin> set s
     \<and> (\<exists>rest. drop o' d = s @ CHR 0x00 # rest)" using a by auto
next
  assume "o' \<le> length d \<and> length s \<le> 256 \<and> is_ascii s \<and> CHR 0x00 \<notin> set s
     \<and> (\<exists>rest. drop o' d = s @ CHR 0x00 # rest)"
  then obtain rest where b: "o' \<le> length d" "length s \<le> 256" "is_ascii s" "CHR 0x00 \<notin> set s"
    "drop o' d = s @ CHR 0x00 # rest" by blast
  have "take 257 (drop o' d) = s @ CHR 0x00 # take (256 - length s) rest"
    using b(2,5) by (simp add: take_Cons' Suc_diff_le) 
  moreover have "takeWhile (\<lambda>c. c \<noteq> CHR 0x00) (s @ CHR 0x00 # ys) = s" for ys
    using b(4) by (induction s) auto
  ultimately show "elf_string d o' = Inr s"
    using b by (auto simp: elf_string_def Let_def is_ascii_utf8)
qed


section \<open>The section table\<close>

record elf_section =
  sec_index :: nat
  sec_header :: bytes
  sec_kind :: nat
  sec_size :: nat
  sec_content :: bytes

type_synonym elf_sections = "(string, elf_section) bmap"

definition section_content :: "bytes \<Rightarrow> bytes \<Rightarrow> nat \<Rightarrow> nat \<Rightarrow> string + bytes" where
  "section_content data header kind sz =
     (if kind = 8 then Inr [] else and_then (number header 24 8) (\<lambda>at. elf_bytes data at sz))"

definition read_section :: "bytes \<Rightarrow> bytes \<Rightarrow> bytes \<Rightarrow> elf_sections \<Rightarrow> nat \<Rightarrow> string + elf_sections" where
  "read_section data table names result index =
     and_then (elf_bytes table (index * 64) 64) (\<lambda>header.
     and_then (number header 0 4) (\<lambda>name_at.
     and_then (elf_string names name_at) (\<lambda>name.
     and_then (number header 4 4) (\<lambda>kind.
     and_then (number header 32 8) (\<lambda>size.
     and_then (section_content data header kind size) (\<lambda>content.
     if bt_contains result name then Inl ''duplicate ELF section''
     else Inr (bt_insert name
            \<lparr>sec_index = index, sec_header = header, sec_kind = kind, sec_size = size, sec_content = content\<rparr>
            result)))))))"

definition sections :: "bytes \<Rightarrow> string + elf_sections" where
  "sections data =
     and_then (refuse_if
       [Inr (length data < 64),
        Inr (unat MAX_PAYLOAD_BYTES < length data),
        Inr (take 7 data \<noteq> CHR 0x7F # ''ELF'' @ [CHR 0x02, CHR 0x01, CHR 0x01]),
        tested (\<lambda>n. n \<noteq> 1) (number data 16 2),
        tested (\<lambda>n. n \<noteq> 183) (number data 18 2),
        tested (\<lambda>n. n \<noteq> 1) (number data 20 4)]
       ''expected bounded AArch64 ELF64 relocatable'') (\<lambda>_.
     and_then (number data 40 8) (\<lambda>offset.
     and_then (number data 60 2) (\<lambda>count.
     and_then (number data 62 2) (\<lambda>names_index.
     and_then (refuse_if
       [tested (\<lambda>n. n \<noteq> 64) (number data 58 2),
        Inr (\<not> (1 \<le> count \<and> count \<le> 4096)),
        Inr (names_index = 0),
        Inr (count \<le> names_index)]
       ''unsupported ELF section table'') (\<lambda>_.
     and_then (elf_bytes data offset (count * 64)) (\<lambda>table.
     and_then (elf_bytes table (names_index * 64) 64) (\<lambda>names_header.
     and_then (number names_header 32 8) (\<lambda>names_size.
     and_then (refuse_if
       [tested (\<lambda>n. n \<noteq> 3) (number names_header 4 4),
        Inr (1024 * 1024 < names_size)]
       ''invalid section names'') (\<lambda>_.
     and_then (number names_header 24 8) (\<lambda>names_at.
     and_then (elf_bytes data names_at names_size) (\<lambda>names.
     try_fold (read_section data table names) [] [1..<count])))))))))))"

definition header_index :: "elf_sections \<Rightarrow> nat \<Rightarrow> string + elf_section" where
  "header_index secs index =
     ok_or (List.find (\<lambda>s. sec_index s = index) (map snd secs)) ''invalid linked section''"

definition shared_object_header :: "bytes \<Rightarrow> u64 \<Rightarrow> abi \<Rightarrow> string + unit" where
  "shared_object_header data file_bytes abi =
     (let (class, machine, minimum) =
            (case abi of Arm64 \<Rightarrow> (2, 183, 64) | Arm32 \<Rightarrow> (1, 40, 52)) :: nat \<times> nat \<times> u64
      in if length data < 20
            \<or> file_bytes < minimum
            \<or> MAX_PAYLOAD_BYTES < file_bytes
            \<or> take 4 data \<noteq> CHR 0x7F # ''ELF''
            \<or> of_char (data ! 4) \<noteq> class
            \<or> data ! 5 \<noteq> CHR 0x01
            \<or> data ! 6 \<noteq> CHR 0x01
            \<or> le_nat [data ! 16, data ! 17] \<noteq> 3
            \<or> le_nat [data ! 18, data ! 19] \<noteq> machine
         then Inl ''incompatible shared library class/type/architecture''
         else Inr ())"

text \<open>
  What a section table that was read promises: a section lies in the file and is described by its own
  64-byte header; only \<^verbatim>\<open>SHT_NOBITS\<close> sections have no content.
\<close>

definition section_ok :: "bytes \<Rightarrow> string \<Rightarrow> elf_section \<Rightarrow> bool" where
  "section_ok data name s \<longleftrightarrow>
     0 < sec_index s \<and> sec_index s < 4096 \<and> length (sec_header s) = 64
     \<and> sec_kind s = le_nat (take 4 (drop 4 (sec_header s)))
     \<and> sec_size s = le_nat (take 8 (drop 32 (sec_header s)))
     \<and> is_ascii name \<and> length name \<le> 256
     \<and> (if sec_kind s = 8 then sec_content s = []
        else let at = le_nat (take 8 (drop 24 (sec_header s)))
             in at + sec_size s \<le> length data \<and> sec_content s = take (sec_size s) (drop at data))"

definition table_ok :: "bytes \<Rightarrow> elf_sections \<Rightarrow> bool" where
  "table_ok data secs \<longleftrightarrow>
     bt_wf secs \<and> distinct (map (sec_index \<circ> snd) secs) \<and> (\<forall>(name, s) \<in> set secs. section_ok data name s)"

lemma header_index_Inr:
  assumes "header_index secs i = Inr s"
  shows "sec_index s = i" "\<exists>name. (name, s) \<in> set secs"
proof -
  have f: "List.find (\<lambda>s. sec_index s = i) (map snd secs) = Some s" using assms by (simp add: header_index_def)
  from find_SomeD [OF this] show "sec_index s = i" "\<exists>name. (name, s) \<in> set secs" by force+
qed

lemma read_section_Inr:
  assumes "read_section data table names result i = Inr r"
  obtains name s where "bt_get result name = None" "r = bt_insert name s result" "sec_index s = i"
    "i < 4096 \<Longrightarrow> 0 < i \<Longrightarrow> section_ok data name s"
proof -
  from assms obtain header at name kind size content where
    h: "elf_bytes table (i * 64) 64 = Inr header" "number header 4 4 = Inr kind" "number header 32 8 = Inr size"
    and n: "elf_string names at = Inr name"
    and c: "section_content data header kind size = Inr content"
    and b: "bt_get result name = None"
    and r: "r = bt_insert name \<lparr>sec_index = i, sec_header = header, sec_kind = kind, sec_size = size,
                                sec_content = content\<rparr> result"
    by (auto simp: read_section_def and_then_Inr bt_contains_def split: if_split_asm)
  show thesis
  proof (rule that [OF b r])
    show "section_ok data name \<lparr>sec_index = i, sec_header = header, sec_kind = kind, sec_size = size,
            sec_content = content\<rparr>" if "i < 4096" "0 < i"
    proof -
      have "length header = 64" "length name \<le> 256" "is_ascii name"
        using h(1) n by (simp_all add: length_elf_bytes elf_string_Inr)
      moreover have "kind = le_nat (take 4 (drop 4 header))" "size = le_nat (take 8 (drop 32 header))"
        using h(2,3) by (simp_all only: number_Inr)
      moreover have "if kind = 8 then content = [] else
          (let at = le_nat (take 8 (drop 24 header))
           in at + size \<le> length data \<and> content = take size (drop at data))"
        using c by (simp add: section_content_def and_then_Inr number_Inr elf_bytes_Inr Let_def split: if_split_asm)
      ultimately show ?thesis using that unfolding section_ok_def elf_section.simps by blast
    qed
  qed simp
qed


lemma table_ok_insert:
  assumes "table_ok data secs" "bt_get secs name = None" "\<forall>s' \<in> set (map snd secs). sec_index s' \<noteq> sec_index s"
    "section_ok data name s"
  shows "table_ok data (bt_insert name s secs)"
proof -
  have "distinct (map (sec_index \<circ> snd) secs)" using assms(1) by (simp add: table_ok_def)
  then have "distinct (map (sec_index \<circ> snd) (bt_insert name s secs))"
    using assms(2,3)
    by (induction secs) (auto simp: image_iff dest!: subsetD [OF set_bt_insert_subset])
  then show ?thesis
    using assms(1,4) set_bt_insert_subset [of name s secs] by (fastforce simp: table_ok_def)
qed

lemma read_sections_ok:
  assumes "try_fold (read_section data table names) [] [1..<n] = Inr secs" "n \<le> 4096"
  shows "table_ok data secs \<and> sec_index ` snd ` set secs = {1..<n}"
  using assms
proof (induction n arbitrary: secs)
  case 0
  then show ?case by (simp add: table_ok_def)
next
  case (Suc n)
  show ?case
  proof (cases "n = 0")
    case True
    with Suc.prems show ?thesis by (simp add: table_ok_def)
  next
    case False
    then have u: "[1..<Suc n] = [1..<n] @ [n]" "{1..<Suc n} = insert n {1..<n}" by auto
    with Suc.prems obtain r where r: "try_fold (read_section data table names) [] [1..<n] = Inr r"
      "read_section data table names r n = Inr secs" by (auto simp: try_fold_append and_then_Inr)
    from r(2) obtain name s where s: "bt_get r name = None" "secs = bt_insert name s r" "sec_index s = n"
      "section_ok data name s" using Suc.prems(2) False by (auto elim!: read_section_Inr)
    have IH: "table_ok data r" "sec_index ` snd ` set r = {1..<n}" using Suc.IH [OF r(1)] Suc.prems(2) by simp_all
    have "\<forall>s' \<in> set (map snd r). sec_index s' \<noteq> sec_index s" using IH(2) s(3) by force
    then have "table_ok data secs" using table_ok_insert [OF IH(1) s(1) _ s(4)] s(2) by simp
    moreover have "set secs = insert (name, s) (set r)"
      using s(1,2) by (induction r arbitrary: secs) (auto split: if_splits)
    ultimately show ?thesis using IH(2) s(3) u(2) by simp
  qed
qed

lemma sections_table_ok:
  assumes "sections data = Inr secs"
  shows "table_ok data secs"
proof -
  from assms obtain count table names where "count \<le> 4096"
    and "try_fold (read_section data table names) [] [1..<count] = Inr secs"
    by (auto simp: sections_def and_then_Inr refuse_if_Inr)
  then show ?thesis using read_sections_ok by blast
qed



section \<open>Build-ID notes\<close>

definition note_align :: "nat \<Rightarrow> string + nat" where
  "note_align n = (if n + 3 < U64 then Inr ((n + 3) div 4 * 4) else Inl ''note range overflow'')"

definition usize_add :: "nat \<Rightarrow> nat \<Rightarrow> string + nat" where
  "usize_add a b = (if a + b < U64 then Inr (a + b) else Inl ''note range overflow'')"

text \<open>One round of the loop: the offset of the next note, and the identifier found so far.\<close>

definition note_round :: "bytes \<Rightarrow> nat \<Rightarrow> bytes option \<Rightarrow> string + (nat \<times> bytes option)" where
  "note_round bs offset found =
     and_then (number bs offset 4) (\<lambda>names.
     and_then (number bs (offset + 4) 4) (\<lambda>desc.
     and_then (number bs (offset + 8) 4) (\<lambda>kind.
     and_then (usize_add offset 12) (\<lambda>start.
     and_then (note_align names) (\<lambda>names'.
     and_then (usize_add start names') (\<lambda>descriptor.
     and_then (note_align desc) (\<lambda>desc'.
     and_then (usize_add descriptor desc') (\<lambda>end'.
     if length bs < end' then Inl ''truncated module build-ID note''
     else
       and_then (elf_bytes bs start names) (\<lambda>name.
       and_then (elf_bytes bs descriptor desc) (\<lambda>value.
       if name = ''GNU'' @ [CHR 0x00] \<and> kind = 3 then
         if \<not> (4 \<le> desc \<and> desc \<le> 64) \<or> found \<noteq> None then Inl ''invalid or duplicate GNU build ID''
         else Inr (end', Some value)
       else Inr (end', found)))))))))))"

text \<open>The \<^verbatim>\<open>while\<close> loop, with \<open>None\<close> for a loop that did not end within the given number of rounds.\<close>

fun note_loop :: "nat \<Rightarrow> bytes \<Rightarrow> nat \<Rightarrow> bytes option \<Rightarrow> (string + bytes) option" where
  "note_loop 0 bs offset found = None"
| "note_loop (Suc n) bs offset found =
     (if offset < length bs then
        (case note_round bs offset found of
           Inl e \<Rightarrow> Some (Inl e)
         | Inr (offset', found') \<Rightarrow> note_loop n bs offset' found')
      else Some (ok_or found ''missing GNU build ID''))"

definition NOTE_ROUNDS :: nat where
  "NOTE_ROUNDS = 4096 div 12 + 1"

definition gnu_build_id :: "bytes \<Rightarrow> string + bytes" where
  "gnu_build_id bs =
     (if 4096 < length bs then Inl ''module build-ID note too large''
      else (case note_loop NOTE_ROUNDS bs 0 None of Some r \<Rightarrow> r | None \<Rightarrow> Inl ''no result''))"

lemma note_round_advances:
  assumes "note_round bs offset found = Inr (offset', found')"
  shows "offset + 12 \<le> offset'" "offset' \<le> length bs"
  using assms by (auto simp: note_round_def and_then_Inr usize_add_def split: if_split_asm)

lemma note_loop_returns:
  "offset \<le> length bs \<Longrightarrow> (length bs - offset) div 12 < n \<Longrightarrow> \<exists>r. note_loop n bs offset found = Some r"
proof (induction n arbitrary: offset found)
  case (Suc n)
  show ?case
  proof (cases "note_round bs offset found")
    case (Inr p)
    obtain offset' found' where p: "p = (offset', found')" by (cases p)
    note a = note_round_advances [OF Inr [unfolded p]]
    then have "12 + (length bs - offset') \<le> length bs - offset" by linarith
    then have "Suc ((length bs - offset') div 12) \<le> (length bs - offset) div 12"
      using div_le_mono [of "(length bs - offset') + 12" "length bs - offset" 12]
      by (simp only: div_add_self2 add.commute)
    then have "(length bs - offset') div 12 < n" using Suc.prems(2) by linarith
    then show ?thesis using Suc.IH [of offset' found'] a(2) Inr p by simp
  qed simp
qed simp

lemma note_loop_mono: "note_loop n bs offset found = Some r \<Longrightarrow> n \<le> m \<Longrightarrow> note_loop m bs offset found = Some r"
proof (induction n arbitrary: m offset found)
  case (Suc n)
  then obtain m' where "m = Suc m'" "n \<le> m'" by (cases m) auto
  with Suc show ?case by (auto split: if_splits sum.splits prod.splits)
qed simp

lemma gnu_build_id_terminates_aux:
  "\<exists>r. (\<forall>n > length bs div 12. note_loop n bs 0 None = Some r)
             \<and> gnu_build_id bs = (if 4096 < length bs then Inl ''module build-ID note too large'' else r)"
proof -
  obtain r where r: "note_loop (Suc (length bs div 12)) bs 0 None = Some r"
    using note_loop_returns [of 0 bs "Suc (length bs div 12)" None] by auto
  then have all: "note_loop n bs 0 None = Some r" if "length bs div 12 < n" for n
    using note_loop_mono that by (metis Suc_leI)
  moreover have "length bs div 12 < NOTE_ROUNDS" if "length bs \<le> 4096"
    using div_le_mono [OF that, of 12] by (simp add: NOTE_ROUNDS_def)
  ultimately show ?thesis by (auto simp: gnu_build_id_def intro!: exI [of _ r])
qed


text \<open>
  C32. Reading the notes of a module always ends.  A file of \<open>n\<close> bytes is scanned in at most \<open>n div 12 + 1\<close>
  rounds, for every content, well formed or not; more rounds never change the result; and the bound
  that the size limit gives is enough for every accepted size.
\<close>

theorem gnu_build_id_terminates:
  "\<exists>r. (\<forall>n > length bs div 12. note_loop n bs 0 None = Some r)
             \<and> gnu_build_id bs = (if 4096 < length bs then Inl ''module build-ID note too large'' else r)"
  by (rule gnu_build_id_terminates_aux)

theorem gnu_build_id_terminates_witness:
  "note_loop 3 [CHR 0x01, CHR 0x02] 0 None = Some (Inl ''ELF range outside file'')"
proof -
  obtain r where r: "\<forall>n > length [CHR 0x01, CHR 0x02] div 12. note_loop n [CHR 0x01, CHR 0x02] 0 None = Some r"
    using gnu_build_id_terminates [of "[CHR 0x01, CHR 0x02]"] by blast
  have "note_loop 3 [CHR 0x01, CHR 0x02] 0 None = Some r" by (rule r [rule_format]) simp
  moreover have "note_loop 1 [CHR 0x01, CHR 0x02] 0 None = Some r" by (rule r [rule_format]) simp
  moreover have "note_loop 1 [CHR 0x01, CHR 0x02] 0 None = Some (Inl ''ELF range outside file'')"
    by (simp add: note_round_def number_def elf_bytes_def U64_def)
  ultimately show ?thesis by simp
qed

text \<open>
  The format that the reader is meant to accept: a note is its three length and type fields, the
  name and the descriptor, each filled up to a multiple of four with bytes of any value.
\<close>

fun le_bytes :: "nat \<Rightarrow> nat \<Rightarrow> bytes" where
  "le_bytes 0 n = []"
| "le_bytes (Suc k) n = char_of n # le_bytes k (n div 256)"

lemma length_le_bytes [simp]: "length (le_bytes k n) = k"
  by (induction k arbitrary: n) simp_all

lemma le_nat_le_bytes: "n < 256 ^ k \<Longrightarrow> le_nat (le_bytes k n) = n"
proof (induction k arbitrary: n)
  case (Suc k)
  then have "n div 256 < 256 ^ k" by (simp add: less_mult_imp_div_less mult.commute)
  with Suc.IH show ?case by (simp add: of_char_of)
qed simp

lemma le_bytes_le_nat: "le_bytes (length bs) (le_nat bs) = bs"
proof (induction bs)
  case (Cons b bs)
  have "(of_char b + 256 * le_nat bs) mod 256 = (of_char b :: nat)" by simp
  then have "char_of (of_char b + 256 * le_nat bs) = b" by (metis char_of_mod_256 char_of_char)
  with Cons show ?case by simp
qed simp

lemma number_le_bytes: "number d o' n = Inr v \<Longrightarrow> le_bytes n v = take n (drop o' d)"
proof -
  assume a: "number d o' n = Inr v"
  then have "length (take n (drop o' d)) = n" by (auto simp: number_Inr)
  with a show ?thesis using le_bytes_le_nat [of "take n (drop o' d)"] by (metis number_Inr)
qed

record elf_note =
  nt_name :: bytes
  nt_name_pad :: bytes
  nt_desc :: bytes
  nt_desc_pad :: bytes
  nt_kind :: nat

definition note_ok :: "elf_note \<Rightarrow> bool" where
  "note_ok n \<longleftrightarrow>
     nt_kind n < 2 ^ 32 \<and> length (nt_name n) < 2 ^ 32 \<and> length (nt_desc n) < 2 ^ 32
     \<and> length (nt_name_pad n) < 4 \<and> 4 dvd length (nt_name n @ nt_name_pad n)
     \<and> length (nt_desc_pad n) < 4 \<and> 4 dvd length (nt_desc n @ nt_desc_pad n)"

definition note_bytes :: "elf_note \<Rightarrow> bytes" where
  "note_bytes n =
     le_bytes 4 (length (nt_name n)) @ le_bytes 4 (length (nt_desc n)) @ le_bytes 4 (nt_kind n)
     @ nt_name n @ nt_name_pad n @ nt_desc n @ nt_desc_pad n"

definition is_build_id :: "elf_note \<Rightarrow> bool" where
  "is_build_id n \<longleftrightarrow> nt_name n = ''GNU'' @ [CHR 0x00] \<and> nt_kind n = 3"


lemma pad4:
  assumes "p < 4" "4 dvd n + p"
  shows "(n + 3) div 4 * 4 = n + (p :: nat)"
proof -
  obtain k where k: "n + p = 4 * k" using assms(2) by (auto elim: dvdE)
  with assms(1) have "(n + 3) div 4 = k" by (intro div_nat_eqI) simp_all
  with k show ?thesis by simp
qed

lemma note_round_ok:
  assumes d: "drop offset bs = note_bytes n @ rest" and "note_ok n" "offset \<le> length bs" "length bs + 3 < U64"
  shows "note_round bs offset found =
           (if is_build_id n then
              if \<not> (4 \<le> length (nt_desc n) \<and> length (nt_desc n) \<le> 64) \<or> found \<noteq> None
              then Inl ''invalid or duplicate GNU build ID''
              else Inr (offset + length (note_bytes n), Some (nt_desc n))
            else Inr (offset + length (note_bytes n), found))"
proof -
  let ?n = "length (nt_name n)" and ?p = "length (nt_name_pad n)" and ?m = "length (nt_desc n)"
    and ?q = "length (nt_desc_pad n)"
  have len: "length bs = offset + (12 + ?n + ?p + ?m + ?q + length rest)"
    using arg_cong [OF d, of length] assms(3) by (simp add: note_bytes_def)
  have dd: "drop (offset + k) bs = drop k (note_bytes n @ rest)" for k
    using d by (metis add.commute drop_drop)
  have f: "number bs offset 4 = Inr ?n" "number bs (offset + 4) 4 = Inr ?m" "number bs (offset + 8) 4 = Inr (nt_kind n)"
    using len assms(2,4) dd [of 4] dd [of 8] d
    by (simp_all add: number_Inr note_bytes_def le_nat_le_bytes note_ok_def U64_def)
  have al: "note_align ?n = Inr (?n + ?p)" "note_align ?m = Inr (?m + ?q)"
    using len assms(2,4) by (simp_all add: note_align_def note_ok_def pad4)
  have sl: "elf_bytes bs (offset + 12) ?n = Inr (nt_name n)"
    "elf_bytes bs (offset + 12 + (?n + ?p)) ?m = Inr (nt_desc n)"
    using len assms(4) dd [of 12] dd [of "12 + (?n + ?p)"]
    by (simp_all add: elf_bytes_Inr note_bytes_def add.assoc)
  have "length (note_bytes n) = 12 + (?n + ?p) + (?m + ?q)" by (simp add: note_bytes_def)
  then show ?thesis
    using len assms(4) f al sl by (simp add: note_round_def usize_add_def is_build_id_def add.assoc)
qed

lemma note_round_Inr:
  assumes "note_round bs offset found = Inr (offset', found')"
  shows "\<exists>n. note_ok n \<and> drop offset bs = note_bytes n @ drop offset' bs"
proof -
  from assms obtain names desc kind where
    f: "number bs offset 4 = Inr names" "number bs (offset + 4) 4 = Inr desc" "number bs (offset + 8) 4 = Inr kind"
    and e: "offset' = offset + 12 + (names + 3) div 4 * 4 + (desc + 3) div 4 * 4" "offset' \<le> length bs"
    by (auto simp: note_round_def and_then_Inr usize_add_def note_align_def split: if_split_asm)
  let ?b = "drop offset bs"
  obtain N D where al: "names \<le> N" "N < names + 4" "4 dvd N" "desc \<le> D" "D < desc + 4" "4 dvd D"
    and e': "offset' = offset + 12 + N + D"
    by (rule that [of "(names + 3) div 4 * 4" "(desc + 3) div 4 * 4"]) (simp_all add: e(1))
  define n where "n = \<lparr>nt_name = take names (drop 12 ?b), nt_name_pad = take (N - names) (drop (12 + names) ?b),
    nt_desc = take desc (drop (12 + N) ?b), nt_desc_pad = take (D - desc) (drop (12 + N + desc) ?b),
    nt_kind = kind\<rparr>"
  have len: "length (nt_name n) = names" "length (nt_name_pad n) = N - names"
    "length (nt_desc n) = desc" "length (nt_desc_pad n) = D - desc" using e(2) e' al by (auto simp: n_def min_def)
  have lb: "le_bytes 4 names = take 4 ?b" "le_bytes 4 desc = take 4 (drop 4 ?b)" "le_bytes 4 kind = take 4 (drop 8 ?b)"
    using f [THEN number_le_bytes] by (simp_all add: add.commute)
  have "note_ok n" using f [THEN number_less] len al by (simp add: note_ok_def n_def less_diff_conv2)
  moreover have "take (12 + N + D) ?b = note_bytes n"
  proof -
    have "take (12 + N + D) ?b = take 4 ?b @ take 4 (drop 4 ?b) @ take 4 (drop 8 ?b) @ take names (drop 12 ?b)
        @ take (N - names) (drop (12 + names) ?b) @ take desc (drop (12 + N) ?b)
        @ take (D - desc) (drop (12 + N + desc) ?b)"
    proof -
      have e: "12 + N + D = 4 + (4 + (4 + (names + ((N - names) + (desc + (D - desc))))))" using al(1,4) by simp
      show ?thesis unfolding e take_add drop_drop using al(1,4) by (simp add: add.commute add.left_commute)
    qed
    then show ?thesis using lb len by (simp add: note_bytes_def n_def)
  qed
  then have "?b = note_bytes n @ drop offset' bs"
    using append_take_drop_id [of "12 + N + D" ?b] e' by (simp add: add.commute add.left_commute)
  ultimately show ?thesis by blast
qed


fun scan_notes :: "elf_note list \<Rightarrow> bytes option \<Rightarrow> string + bytes" where
  "scan_notes [] found = ok_or found ''missing GNU build ID''"
| "scan_notes (n # ns) found =
     (if is_build_id n then
        if \<not> (4 \<le> length (nt_desc n) \<and> length (nt_desc n) \<le> 64) \<or> found \<noteq> None
        then Inl ''invalid or duplicate GNU build ID''
        else scan_notes ns (Some (nt_desc n))
      else scan_notes ns found)"

lemma scan_notes_Inr:
  "scan_notes ns found = Inr v \<longleftrightarrow>
     (case found of
        Some f \<Rightarrow> filter is_build_id ns = [] \<and> v = f
      | None \<Rightarrow> \<exists>n. filter is_build_id ns = [n] \<and> nt_desc n = v \<and> 4 \<le> length v \<and> length v \<le> 64)"
  by (induction ns arbitrary: found) (auto split: option.splits)

lemma note_loop_scan:
  assumes "drop offset bs = concat (map note_bytes ns)" "\<forall>n \<in> set ns. note_ok n" "offset \<le> length bs"
    "length bs + 3 < U64" "length ns < k"
  shows "note_loop k bs offset found = Some (scan_notes ns found)"
  using assms
proof (induction ns arbitrary: k offset found)
  case Nil
  then obtain k' where "k = Suc k'" by (cases k) auto
  with Nil show ?case by simp
next
  case (Cons n ns)
  then obtain k' where k: "k = Suc k'" "length ns < k'" by (cases k) auto
  let ?b = "note_bytes n" and ?o = "offset + length (note_bytes n)"
  have d: "drop offset bs = ?b @ concat (map note_bytes ns)" using Cons.prems(1) by simp
  have "drop ?o bs = drop (length ?b) (drop offset bs)" by (simp add: add.commute)
  then have d': "drop ?o bs = concat (map note_bytes ns)" using d by simp
  have "0 < length ?b" by (simp add: note_bytes_def)
  then have o: "?o \<le> length bs" "offset < length bs"
    using arg_cong [OF d, of length] Cons.prems(3) by (simp_all only: length_append length_drop)
  have IH: "note_loop k' bs ?o f = Some (scan_notes ns f)" for f
    using Cons.IH [OF d' _ o(1) Cons.prems(4) k(2)] Cons.prems(2) by simp
  show ?case
    using note_round_ok [OF d _ Cons.prems(3,4), of found] Cons.prems(2) o(2) k(1) IH by simp
qed

lemma note_loop_notes:
  assumes "note_loop k bs offset found = Some (Inr v)" "offset \<le> length bs"
  shows "\<exists>ns. (\<forall>n \<in> set ns. note_ok n) \<and> drop offset bs = concat (map note_bytes ns)"
  using assms
proof (induction k arbitrary: offset found)
  case (Suc k)
  show ?case
  proof (cases "offset < length bs")
    case True
    with Suc.prems obtain offset' found' where r: "note_round bs offset found = Inr (offset', found')"
      "note_loop k bs offset' found' = Some (Inr v)" by (auto split: sum.splits)
    obtain ns where ns: "\<forall>n \<in> set ns. note_ok n" "drop offset' bs = concat (map note_bytes ns)"
      using Suc.IH [OF r(2) note_round_advances(2) [OF r(1)]] by blast
    obtain n where "note_ok n" "drop offset bs = note_bytes n @ drop offset' bs"
      using note_round_Inr [OF r(1)] by blast
    with ns show ?thesis by (intro exI [of _ "n # ns"]) simp
  next
    case False
    with Suc.prems(2) show ?thesis by (intro exI [of _ "[]"]) simp
  qed
qed simp

text \<open>
  The build ID of a module is read exactly from a file of at most 4096 bytes that is a sequence of
  complete notes among which exactly one is the GNU build-ID note, with a descriptor of 4 to 64
  bytes, and it is that descriptor.  Any other file, truncated, padded wrongly or with two such
  notes, is refused.
\<close>

theorem gnu_build_id_exact:
  "gnu_build_id bs = Inr v \<longleftrightarrow>
     length bs \<le> 4096
     \<and> (\<exists>ns. bs = concat (map note_bytes ns) \<and> (\<forall>n \<in> set ns. note_ok n)
           \<and> (\<exists>n. filter is_build_id ns = [n] \<and> nt_desc n = v \<and> 4 \<le> length v \<and> length v \<le> 64))"
proof -
  have scan: "note_loop k bs 0 None = Some (scan_notes ns None)"
    if "bs = concat (map note_bytes ns)" "\<forall>n \<in> set ns. note_ok n" "length bs \<le> 4096"
       "k > length bs div 12" for ns k
  proof -
    have "length bs = sum_list (map (length \<circ> note_bytes) ns)" using that(1) by (simp add: length_concat)
    moreover have "12 * length ns \<le> sum_list (map (length \<circ> note_bytes) ns)"
      by (induction ns) (auto simp: note_bytes_def)
    ultimately have "length ns \<le> length bs div 12" by simp
    then show ?thesis using note_loop_scan [of 0 bs ns k None] that by (simp add: U64_def)
  qed
  obtain r where r: "\<forall>n > length bs div 12. note_loop n bs 0 None = Some r"
    and g: "gnu_build_id bs = (if 4096 < length bs then Inl ''module build-ID note too large'' else r)"
    using gnu_build_id_terminates_aux [of bs] by blast
  show ?thesis
  proof
    assume "gnu_build_id bs = Inr v"
    then have l: "length bs \<le> 4096" and v: "note_loop (Suc (length bs div 12)) bs 0 None = Some (Inr v)"
      using g r by (auto split: if_splits)
    then obtain ns where ns: "\<forall>n \<in> set ns. note_ok n" "bs = concat (map note_bytes ns)"
      using note_loop_notes [OF v] by auto
    then show "length bs \<le> 4096
     \<and> (\<exists>ns. bs = concat (map note_bytes ns) \<and> (\<forall>n \<in> set ns. note_ok n)
           \<and> (\<exists>n. filter is_build_id ns = [n] \<and> nt_desc n = v \<and> 4 \<le> length v \<and> length v \<le> 64))"
      using scan [OF ns(2,1) l, of "Suc (length bs div 12)"] v l scan_notes_Inr [of ns None v] by auto
  next
    assume a: "length bs \<le> 4096
     \<and> (\<exists>ns. bs = concat (map note_bytes ns) \<and> (\<forall>n \<in> set ns. note_ok n)
           \<and> (\<exists>n. filter is_build_id ns = [n] \<and> nt_desc n = v \<and> 4 \<le> length v \<and> length v \<le> 64))"
    then obtain ns where ns: "bs = concat (map note_bytes ns)" "\<forall>n \<in> set ns. note_ok n"
      and "\<exists>n. filter is_build_id ns = [n] \<and> nt_desc n = v \<and> 4 \<le> length v \<and> length v \<le> 64" by blast
    then have "scan_notes ns None = Inr v" by (simp add: scan_notes_Inr)
    moreover have l: "length bs \<le> 4096" using a by blast
    ultimately have "note_loop (Suc (length bs div 12)) bs 0 None = Some (Inr v)"
      using scan [OF ns l] by (simp only: lessI)
    moreover have "note_loop (Suc (length bs div 12)) bs 0 None = Some r" using r by blast
    ultimately show "gnu_build_id bs = Inr v" using g l by simp
  qed
qed


theorem gnu_build_id_exact_witness:
  "gnu_build_id (le_bytes 4 4 @ le_bytes 4 5 @ le_bytes 4 3 @ ''GNU'' @ [CHR 0x00]
     @ [CHR 0x01, CHR 0x02, CHR 0x03, CHR 0x04, CHR 0x05] @ [CHR 0x00, CHR 0x00, CHR 0x00])
   = Inr [CHR 0x01, CHR 0x02, CHR 0x03, CHR 0x04, CHR 0x05]"
proof -
  let ?n = "\<lparr>nt_name = ''GNU'' @ [CHR 0x00], nt_name_pad = [],
    nt_desc = [CHR 0x01, CHR 0x02, CHR 0x03, CHR 0x04, CHR 0x05],
    nt_desc_pad = [CHR 0x00, CHR 0x00, CHR 0x00], nt_kind = 3\<rparr>"
  have "note_ok ?n" "is_build_id ?n" by (simp_all add: note_ok_def is_build_id_def dvd_eq_mod_eq_0)
  moreover have "note_bytes ?n = le_bytes 4 4 @ le_bytes 4 5 @ le_bytes 4 3 @ ''GNU'' @ [CHR 0x00]
     @ [CHR 0x01, CHR 0x02, CHR 0x03, CHR 0x04, CHR 0x05] @ [CHR 0x00, CHR 0x00, CHR 0x00]" by code_simp
  ultimately show ?thesis
    by (intro gnu_build_id_exact [THEN iffD2] conjI exI [of _ "[?n]"]) simp_all
qed


section \<open>Module metadata\<close>

definition metadata_record :: "bytes \<Rightarrow> string + string" where
  "metadata_record r =
     (if \<not> utf8_ok r then Inl ''utf8''
      else if \<not> is_ascii r then Inl ''non-ASCII module metadata'' else Inr r)"

definition modinfo :: "elf_sections \<Rightarrow> string + string list" where
  "modinfo secs =
     (case bt_get secs ''.modinfo'' of
        None \<Rightarrow> Inr []
      | Some metadata \<Rightarrow>
          if sec_kind metadata \<noteq> 1 \<or> 64 * 1024 < sec_size metadata
             \<or> sec_content metadata = [] \<or> last (sec_content metadata) \<noteq> CHR 0x00
          then Inl ''invalid module metadata''
          else try_map metadata_record
                 (filter (\<lambda>r. r \<noteq> []) (split_on (\<lambda>c. c = CHR 0x00) (sec_content metadata))))"

definition unique_metadata :: "string list \<Rightarrow> string \<Rightarrow> nat \<Rightarrow> string + string option" where
  "unique_metadata records key max_len =
     (case List.map_filter (strip_prefix key) records of
        [] \<Rightarrow> Inr None
      | [v] \<Rightarrow>
          if v = [] \<or> max_len < length v \<or> list_ex is_ascii_control v
          then Inl ''duplicate or invalid module identity metadata'' else Inr (Some v)
      | _ \<Rightarrow> Inl ''duplicate or invalid module identity metadata'')"

definition build_id_of :: "elf_sections \<Rightarrow> string + u8 list option" where
  "build_id_of secs =
     (case bt_get secs ''.note.gnu.build-id'' of
        None \<Rightarrow> Inr None
      | Some n \<Rightarrow>
          if sec_kind n \<noteq> 7 then Inl ''invalid module build-ID section''
          else and_then (gnu_build_id (sec_content n)) (\<lambda>bs. Inr (Some (map of_char bs))))"

definition module_metadata_of :: "bytes \<Rightarrow> string + module_metadata" where
  "module_metadata_of data =
     and_then (sections data) (\<lambda>secs.
     and_then (modinfo secs) (\<lambda>records.
     and_then (unique_metadata records ''name='' 63) (\<lambda>name_opt.
     and_then (ok_or name_opt ''missing module name'') (\<lambda>name.
     if \<not> list_all (\<lambda>c. is_ascii_alnum c \<or> c = CHR ''_'' \<or> c = CHR ''-'') name
     then Inl ''invalid module name''
     else
       and_then (unique_metadata records ''vermagic='' 1024) (\<lambda>vermagic_opt.
       and_then (ok_or vermagic_opt ''missing module vermagic'') (\<lambda>vermagic.
       and_then (unique_metadata records ''srcversion='' 64) (\<lambda>srcversion.
       if (case srcversion of None \<Rightarrow> False | Some v \<Rightarrow> \<not> list_all is_ascii_hexdigit v)
       then Inl ''invalid module source version''
       else
         and_then (build_id_of secs) (\<lambda>build_id.
         Inr \<lparr>mm_name = name, mm_vermagic = vermagic, mm_srcversion = srcversion, mm_build_id = build_id\<rparr>))))))))"

lemma unique_metadata_Some:
  "unique_metadata records key m = Inr (Some v) \<longleftrightarrow>
     List.map_filter (strip_prefix key) records = [v] \<and> v \<noteq> [] \<and> length v \<le> m \<and> \<not> list_ex is_ascii_control v"
  by (auto simp: unique_metadata_def split: list.splits if_splits)

lemma unique_metadata_None:
  "unique_metadata records key m = Inr None \<longleftrightarrow> (\<forall>r \<in> set records. strip_prefix key r = None)"
proof -
  have "unique_metadata records key m = Inr None \<longleftrightarrow> List.map_filter (strip_prefix key) records = []"
    by (auto simp: unique_metadata_def split: list.splits if_splits)
  also have "\<dots> \<longleftrightarrow> (\<forall>r \<in> set records. strip_prefix key r = None)"
    by (induction records) (auto split: option.splits)
  finally show ?thesis .
qed

end
