(* ===== verification/Elf_Capabilities.thy ===== *)
theory Elf_Capabilities
  imports Elf_Image
begin

text \<open>
  What a kernel module image may be trusted to do (\<^verbatim>\<open>crates/artifact-model/src/elf.rs\<close>): the closed
  scalar parameter layout, the preflight and init contracts, the inspection of imports and symbol
  versions, and the comparison of two modules.  The digest of an image (crate \<^verbatim>\<open>sha2\<close>) is an
  argument.
\<close>

unbundle bit_operations_syntax

section \<open>Parameters of the init contract\<close>

type_synonym param_row = "string option \<times> string option \<times> (nat \<times> nat) option"

record param_state =
  ps_offsets :: "nat list"
  ps_names :: "string list"
  ps_ops :: "string list"
  ps_rows :: "(nat, param_row) bmap"

record param_tables =
  pt_secs :: elf_sections
  pt_params :: elf_section
  pt_symbols :: elf_section
  pt_strings :: elf_section

definition scalar_names :: "string list" where
  "scalar_names = [''preflight_only'', ''filesystem_hiding'', ''probe_mask'']"

definition param_setter ::
  "bytes \<Rightarrow> string \<Rightarrow> nat \<Rightarrow> nat \<Rightarrow> param_state \<Rightarrow> nat \<Rightarrow> param_row \<Rightarrow> string + param_state" where
  "param_setter symbol name section_index addend st key row =
     and_then (refuse_if
       [Inr (section_index \<noteq> 0),
        tested (\<lambda>n. n div 16 \<noteq> 1) (number symbol 4 1),
        Inr (addend \<noteq> 0),
        Inr (name \<noteq> ''param_ops_bool'' \<and> name \<noteq> ''param_ops_uint'')]
       ''own or unrecognized parameter callback'') (\<lambda>_.
     Inr (st\<lparr>ps_ops := ps_ops st @ [name],
             ps_rows := bt_insert key (fst row, Some name, snd (snd row)) (ps_rows st)\<rparr>))"

definition param_owner ::
  "elf_sections \<Rightarrow> bytes \<Rightarrow> string \<Rightarrow> nat \<Rightarrow> nat \<Rightarrow> param_state \<Rightarrow> nat \<Rightarrow> param_row \<Rightarrow> string + param_state" where
  "param_owner secs symbol name section_index addend st key row =
     and_then (refuse_if
       [Inr (name \<noteq> ''__this_module''),
        Inr (addend \<noteq> 0),
        tested (\<lambda>n. n \<noteq> 17) (number symbol 4 1),
        tested (\<lambda>n. n \<noteq> 0) (number symbol 8 8),
        Inr (case bt_get secs ''.gnu.linkonce.this_module'' of None \<Rightarrow> True | Some s \<Rightarrow> sec_index s \<noteq> section_index),
        tested (\<lambda>n. n = 0) (number symbol 16 8),
        and_then (number symbol 16 8) (\<lambda>n. tested (\<lambda>s. sec_size s < n) (header_index secs section_index))]
       ''invalid parameter module owner'') (\<lambda>_.
     Inr (st\<lparr>ps_rows := bt_insert key row (ps_rows st)\<rparr>))"

definition in_named :: "elf_sections \<Rightarrow> string list \<Rightarrow> nat \<Rightarrow> bool" where
  "in_named secs names index =
     list_ex (\<lambda>n. case bt_get secs n of None \<Rightarrow> False | Some s \<Rightarrow> sec_index s = index) names"

definition param_data ::
  "elf_sections \<Rightarrow> bytes \<Rightarrow> nat \<Rightarrow> nat \<Rightarrow> bool \<Rightarrow> param_state \<Rightarrow> nat \<Rightarrow> param_row \<Rightarrow> string + param_state" where
  "param_data secs symbol section_index addend is_name st key row =
     and_then (header_index secs section_index) (\<lambda>target.
     and_then (number symbol 8 8) (\<lambda>value.
     and_then (if value + addend < U64 then Inr (value + addend) else Inl ''parameter address overflow'') (\<lambda>start.
     and_then (refuse_if
       [Inr (sec_size target \<le> start),
        tested (\<lambda>flags. flags AND 4 \<noteq> 0) (number (sec_header target) 8 8)]
       ''parameter points outside safe data'') (\<lambda>_.
     if is_name then
       and_then (elf_string (sec_content target) start) (\<lambda>name.
       if name \<notin> set scalar_names \<or> name \<in> set (ps_names st) then Inl ''unexpected parameter name''
       else Inr (st\<lparr>ps_names := bs_insert name (ps_names st),
                    ps_rows := bt_insert key (Some name, snd row) (ps_rows st)\<rparr>))
     else
       and_then (refuse_if
         [Inr (sec_kind target \<noteq> 1 \<and> sec_kind target \<noteq> 8),
          tested (\<lambda>flags. flags AND 1 = 0) (number (sec_header target) 8 8),
          Inr (\<not> in_named secs [''.data'', ''.bss''] section_index)]
         ''parameter argument is not writable scalar storage'') (\<lambda>_.
       Inr (st\<lparr>ps_rows := bt_insert key (fst row, fst (snd row), Some (section_index, start)) (ps_rows st)\<rparr>))))))"

definition param_relocation :: "param_tables \<Rightarrow> param_state \<Rightarrow> bytes \<Rightarrow> string + param_state" where
  "param_relocation t st relocation =
     and_then (number relocation 0 8) (\<lambda>offset.
     and_then (number relocation 8 8) (\<lambda>info.
     and_then (number relocation 16 8) (\<lambda>addend.
     and_then (refuse_if
       [Inr (sec_size (pt_params t) \<le> offset),
        Inr (offset mod 40 \<notin> {0, 8, 16, 32}),
        Inr (offset \<in> set (ps_offsets st)),
        Inr (info mod 2 ^ 32 \<noteq> 257),
        tested (list_ex (\<lambda>b. b \<noteq> CHR 0x00)) (elf_bytes (sec_content (pt_params t)) offset 8)]
       ''invalid parameter relocation'') (\<lambda>_.
     and_then (if info div 2 ^ 32 * 24 < U64 then Inr (info div 2 ^ 32 * 24) else Inl ''symbol overflow'') (\<lambda>at.
     and_then (elf_bytes (sec_content (pt_symbols t)) at 24) (\<lambda>symbol.
     and_then (number symbol 0 4) (\<lambda>name_at.
     and_then (elf_string (sec_content (pt_strings t)) name_at) (\<lambda>name.
     and_then (number symbol 6 2) (\<lambda>section_index.
     let st' = st\<lparr>ps_offsets := bs_insert offset (ps_offsets st)\<rparr>;
         key = offset div 40;
         row = (case bt_get (ps_rows st) key of None \<Rightarrow> (None, None, None) | Some r \<Rightarrow> r)
     in if offset mod 40 = 16 then param_setter symbol name section_index addend st' key row
        else if offset mod 40 = 8 then param_owner (pt_secs t) symbol name section_index addend st' key row
        else param_data (pt_secs t) symbol section_index addend (offset mod 40 = 0) st' key row)))))))))"

definition scalar_size :: "string \<Rightarrow> nat" where
  "scalar_size name = (if name = ''probe_mask'' then 4 else 1)"

definition matching_symbol :: "bytes \<Rightarrow> string \<Rightarrow> bytes \<Rightarrow> string + (nat \<times> nat \<times> nat \<times> nat) option" where
  "matching_symbol strings name symbol =
     and_then (number symbol 0 4) (\<lambda>at.
     and_then (elf_string strings at) (\<lambda>found.
     if found = name then
       and_then (number symbol 4 1) (\<lambda>info.
       and_then (number symbol 6 2) (\<lambda>section_index.
       and_then (number symbol 8 8) (\<lambda>value.
       and_then (number symbol 16 8) (\<lambda>size.
       Inr (Some (info, section_index, value, size))))))
     else Inr None))"

definition relocation_entry :: "nat \<Rightarrow> nat \<Rightarrow> unit \<Rightarrow> bytes \<Rightarrow> string + unit" where
  "relocation_entry start sz u entry =
     and_then (number entry 0 8) (\<lambda>offset.
     if offset < start + sz \<and> start < min (offset + 16) (U64 - 1)
     then Inl ''relocation overlaps parameter scalar'' else Inr ())"

definition storage_relocations :: "nat \<Rightarrow> nat \<Rightarrow> nat \<Rightarrow> unit \<Rightarrow> elf_section \<Rightarrow> string + unit" where
  "storage_relocations section_index start sz u relocation =
     and_then (number (sec_header relocation) 44 4) (\<lambda>info.
     if info \<noteq> section_index then Inr ()
     else
       let stride = (if sec_kind relocation = 4 then 24 else 16)
       in and_then (refuse_if
            [tested (\<lambda>n. n \<noteq> stride) (number (sec_header relocation) 56 8),
             Inr (sec_size relocation mod stride \<noteq> 0)]
            ''invalid scalar storage relocation'') (\<lambda>_.
          try_fold (relocation_entry start sz) () (chunks_exact stride (sec_content relocation))))"

definition param_scalar ::
  "param_tables \<Rightarrow> (nat \<times> nat \<times> nat) list \<Rightarrow> param_row \<Rightarrow> string + (nat \<times> nat \<times> nat) list" where
  "param_scalar t scalars row =
     (case row of (name_opt, ops, argument) \<Rightarrow>
     and_then (ok_or name_opt ''missing parameter name'') (\<lambda>name.
     let sz = scalar_size name
     in if ops \<noteq> Some (if sz = 4 then ''param_ops_uint'' else ''param_ops_bool'')
        then Inl ''mismatched scalar setter''
        else
          and_then (ok_or argument ''missing scalar argument'') (\<lambda>(section_index, start).
          and_then (header_index (pt_secs t) section_index) (\<lambda>target.
          if start mod sz \<noteq> 0 \<or> U64 \<le> start + sz \<or> sec_size target < start + sz
          then Inl ''scalar crosses storage boundary''
          else
            and_then (try_map (matching_symbol (sec_content (pt_strings t)) name)
                        (chunks_exact 24 (sec_content (pt_symbols t)))) (\<lambda>matches.
            if List.map_filter id matches \<noteq> [(1, section_index, start, sz)]
            then Inl ''parameter argument differs from its exact local scalar''
            else if list_ex (\<lambda>(ss, other, len). ss = section_index \<and> start < other + len \<and> other < start + sz) scalars
            then Inl ''overlapping scalar storage''
            else
              and_then (try_fold (storage_relocations section_index start sz) ()
                          (filter (\<lambda>s. sec_kind s = 4 \<or> sec_kind s = 9) (map snd (pt_secs t)))) (\<lambda>_.
              Inr (scalars @ [(section_index, start, sz)])))))))"

definition other_relocation_source :: "elf_section \<Rightarrow> elf_section \<Rightarrow> unit \<Rightarrow> elf_section \<Rightarrow> string + unit" where
  "other_relocation_source params relocations u s =
     (if (sec_kind s = 4 \<or> sec_kind s = 9) \<and> sec_index s \<noteq> sec_index relocations then
        and_then (number (sec_header s) 44 4) (\<lambda>info.
        if info = sec_index params then Inl ''multiple parameter relocation sources'' else Inr ())
      else Inr ())"

definition standard_parameters :: "elf_sections \<Rightarrow> string + unit" where
  "standard_parameters secs =
     and_then (ok_or (bt_get secs ''__param'') ''missing kernel parameters'') (\<lambda>params.
     and_then (ok_or (bt_get secs ''.symtab'') ''missing symbol table'') (\<lambda>symbols.
     and_then (ok_or (bt_get secs ''.rela__param'') ''missing parameter relocations'') (\<lambda>relocations.
     and_then (number (sec_header symbols) 40 4) (\<lambda>link.
     and_then (header_index secs link) (\<lambda>strings.
     and_then (refuse_if
       [Inr (sec_kind params \<noteq> 1),
        Inr (sec_size params \<noteq> 120),
        Inr (sec_kind symbols \<noteq> 2),
        tested (\<lambda>n. n \<noteq> 24) (number (sec_header symbols) 56 8),
        Inr (sec_size symbols mod 24 \<noteq> 0),
        Inr (262144 < sec_size symbols div 24),
        Inr (sec_kind strings \<noteq> 3),
        Inr (16 * 1024 * 1024 < sec_size strings),
        Inr (sec_kind relocations \<noteq> 4),
        Inr (sec_size relocations \<noteq> 12 * 24),
        tested (\<lambda>n. n \<noteq> 24) (number (sec_header relocations) 56 8),
        tested (\<lambda>n. n \<noteq> sec_index symbols) (number (sec_header relocations) 40 4),
        tested (\<lambda>n. n \<noteq> sec_index params) (number (sec_header relocations) 44 4)]
       ''unsupported scalar parameter layout'') (\<lambda>_.
     and_then (try_fold (other_relocation_source params relocations) () (map snd secs)) (\<lambda>_.
     let t = \<lparr>pt_secs = secs, pt_params = params, pt_symbols = symbols, pt_strings = strings\<rparr>
     in and_then (try_fold (param_relocation t)
                    \<lparr>ps_offsets = [], ps_names = [], ps_ops = [], ps_rows = []\<rparr>
                    (chunks_exact 24 (sec_content relocations))) (\<lambda>st.
        if sort (ps_ops st) \<noteq> [''param_ops_bool'', ''param_ops_bool'', ''param_ops_uint'']
           \<or> length (ps_names st) \<noteq> 3
        then Inl ''incomplete scalar parameters''
        else and_then (try_fold (param_scalar t) [] (map snd (ps_rows st))) (\<lambda>_. Inr ())))))))))"



section \<open>What the parameter check establishes\<close>

definition field :: "bytes \<Rightarrow> nat \<Rightarrow> nat \<Rightarrow> nat" where
  "field bs at n = le_nat (take n (drop at bs))"

lemma number_field: "number d at n = Inr v \<Longrightarrow> v = field d at n"
  by (simp add: number_Inr field_def)

definition rel_symbol :: "param_tables \<Rightarrow> bytes \<Rightarrow> bytes" where
  "rel_symbol t r = take 24 (drop (field r 8 8 div 2 ^ 32 * 24) (sec_content (pt_symbols t)))"

definition rel_name :: "param_tables \<Rightarrow> bytes \<Rightarrow> string + string" where
  "rel_name t r = elf_string (sec_content (pt_strings t)) (field (rel_symbol t r) 0 4)"

definition rel_address :: "param_tables \<Rightarrow> bytes \<Rightarrow> nat" where
  "rel_address t r = field (rel_symbol t r) 8 8 + field r 16 8"

definition executable :: "elf_section \<Rightarrow> bool" where
  "executable s \<longleftrightarrow> field (sec_header s) 8 8 AND 4 \<noteq> 0"

definition writable :: "elf_section \<Rightarrow> bool" where
  "writable s \<longleftrightarrow> field (sec_header s) 8 8 AND 1 \<noteq> 0"

text \<open>The four pointers of a kernel parameter: its name, its owner, its setter and its storage.\<close>

definition names_slot :: "param_tables \<Rightarrow> bytes \<Rightarrow> string \<Rightarrow> bool" where
  "names_slot t r name \<longleftrightarrow>
     name \<in> set scalar_names
     \<and> (\<exists>target. header_index (pt_secs t) (field (rel_symbol t r) 6 2) = Inr target \<and> \<not> executable target
           \<and> elf_string (sec_content target) (rel_address t r) = Inr name)"

definition owner_slot :: "param_tables \<Rightarrow> bytes \<Rightarrow> bool" where
  "owner_slot t r \<longleftrightarrow>
     rel_name t r = Inr ''__this_module'' \<and> rel_address t r = 0
     \<and> (\<exists>s. bt_get (pt_secs t) ''.gnu.linkonce.this_module'' = Some s
           \<and> sec_index s = field (rel_symbol t r) 6 2)"

definition setter_slot :: "param_tables \<Rightarrow> bytes \<Rightarrow> string \<Rightarrow> bool" where
  "setter_slot t r ops \<longleftrightarrow>
     rel_name t r = Inr ops \<and> ops \<in> {''param_ops_bool'', ''param_ops_uint''} \<and> field r 16 8 = 0
     \<and> field (rel_symbol t r) 6 2 = 0 \<and> field (rel_symbol t r) 4 1 div 16 = 1"

definition storage_slot :: "param_tables \<Rightarrow> bytes \<Rightarrow> nat \<times> nat \<Rightarrow> bool" where
  "storage_slot t r a \<longleftrightarrow>
     a = (field (rel_symbol t r) 6 2, rel_address t r) \<and> in_named (pt_secs t) [''.data'', ''.bss''] (fst a)
     \<and> (\<exists>target. header_index (pt_secs t) (fst a) = Inr target \<and> \<not> executable target \<and> writable target)"

definition row_ok :: "param_tables \<Rightarrow> bytes list \<Rightarrow> nat \<Rightarrow> param_row \<Rightarrow> bool" where
  "row_ok t rs k row \<longleftrightarrow>
     (\<forall>name. fst row = Some name \<longrightarrow> (\<exists>r \<in> set rs. field r 0 8 = 40 * k \<and> names_slot t r name))
     \<and> (\<forall>ops. fst (snd row) = Some ops \<longrightarrow> (\<exists>r \<in> set rs. field r 0 8 = 40 * k + 16 \<and> setter_slot t r ops))
     \<and> (\<forall>a. snd (snd row) = Some a \<longrightarrow> (\<exists>r \<in> set rs. field r 0 8 = 40 * k + 32 \<and> storage_slot t r a))"

definition slots :: "nat set" where
  "slots = (\<lambda>(k, j). 40 * k + j) ` ({0, 1, 2} \<times> {0, 8, 16, 32})"

definition relocs_inv :: "param_tables \<Rightarrow> bytes list \<Rightarrow> param_state \<Rightarrow> bool" where
  "relocs_inv t rs st \<longleftrightarrow>
     distinct (map (\<lambda>r. field r 0 8) rs) \<and> set (ps_offsets st) = (\<lambda>r. field r 0 8) ` set rs
     \<and> (\<forall>r \<in> set rs. field r 0 8 \<in> slots \<and> (field r 0 8 mod 40 = 8 \<longrightarrow> owner_slot t r))
     \<and> bt_wf (ps_rows st) \<and> fst ` set (ps_rows st) = (\<lambda>r. field r 0 8 div 40) ` set rs
     \<and> (\<forall>k row. bt_get (ps_rows st) k = Some row \<longrightarrow> row_ok t rs k row)
     \<and> (\<forall>k row name. bt_get (ps_rows st) k = Some row \<longrightarrow> fst row = Some name \<longrightarrow> name \<in> set (ps_names st))
     \<and> (\<forall>k k' row row' name. bt_get (ps_rows st) k = Some row \<longrightarrow> bt_get (ps_rows st) k' = Some row' \<longrightarrow>
           fst row = Some name \<longrightarrow> fst row' = Some name \<longrightarrow> k = k')"

lemma slots_iff: "o' \<in> slots \<longleftrightarrow> o' < 120 \<and> o' mod 40 \<in> {0, 8, 16, 32}"
proof
  assume a: "o' < 120 \<and> o' mod 40 \<in> {0, 8, 16, 32}"
  have "o' div 40 \<in> {0, 1, 2}" using a by auto
  moreover have "o' = 40 * (o' div 40) + o' mod 40" by simp
  ultimately show "o' \<in> slots" using a unfolding slots_def by (metis (no_types, lifting) SigmaI case_prod_conv imageI)
qed (auto simp: slots_def)

lemma row_ok_mono: "row_ok t rs k row \<Longrightarrow> set rs \<subseteq> set rs' \<Longrightarrow> row_ok t rs' k row"
  unfolding row_ok_def by blast

text \<open>A step extends one row with what its relocation points to.\<close>

lemma relocs_inv_step:
  assumes inv: "relocs_inv t rs st"
    and r: "field r 0 8 \<in> slots" "field r 0 8 \<notin> set (ps_offsets st)" "field r 0 8 mod 40 = 8 \<longrightarrow> owner_slot t r"
    and row: "row = (case bt_get (ps_rows st) (field r 0 8 div 40) of None \<Rightarrow> (None, None, None) | Some r \<Rightarrow> r)"
    and st': "ps_offsets st' = bs_insert (field r 0 8) (ps_offsets st)"
      "ps_rows st' = bt_insert (field r 0 8 div 40) row' (ps_rows st)"
    and ok: "row_ok t (rs @ [r]) (field r 0 8 div 40) row \<Longrightarrow> row_ok t (rs @ [r]) (field r 0 8 div 40) row'"
    and nm: "set (ps_names st) \<subseteq> set (ps_names st')"
      "fst row' = fst row \<or> (\<exists>name. fst row' = Some name \<and> name \<in> set (ps_names st') \<and> name \<notin> set (ps_names st))"
  shows "relocs_inv t (rs @ [r]) st'"
proof -
  let ?k = "field r 0 8 div 40"
  have mono: "row_ok t rs k x \<Longrightarrow> row_ok t (rs @ [r]) k x" for k x by (rule row_ok_mono) auto
  have "row_ok t (rs @ [r]) ?k row"
    using inv row by (auto simp: relocs_inv_def row_ok_def split: option.splits)
  then have new: "row_ok t (rs @ [r]) ?k row'" by (rule ok)
  have g: "bt_get (ps_rows st') k = (if k = ?k then Some row' else bt_get (ps_rows st) k)" for k
    using st'(2) inv by (simp add: bt_get_insert relocs_inv_def)
  have old: "fst row = Some name \<Longrightarrow> \<exists>x. bt_get (ps_rows st) ?k = Some x \<and> fst x = Some name" for name
    using row by (cases "bt_get (ps_rows st) ?k") auto
  have names: "bt_get (ps_rows st') k = Some x \<Longrightarrow> fst x = Some name \<Longrightarrow> name \<in> set (ps_names st')" for k x name
    using inv nm old unfolding g relocs_inv_def by (metis (no_types, lifting) option.inject subsetD)
  have inj: "k = k'" if "bt_get (ps_rows st') k = Some x" "bt_get (ps_rows st') k' = Some x'"
    "fst x = Some name" "fst x' = Some name" for k k' x x' name
    using inv nm(2) old that unfolding g relocs_inv_def by (smt (verit, best) option.inject)
  have "distinct (map (\<lambda>r. field r 0 8) (rs @ [r]))" "set (ps_offsets st') = (\<lambda>r. field r 0 8) ` set (rs @ [r])"
    "\<forall>x \<in> set (rs @ [r]). field x 0 8 \<in> slots \<and> (field x 0 8 mod 40 = 8 \<longrightarrow> owner_slot t x)"
    using inv r st'(1) by (auto simp: relocs_inv_def)
  moreover have "bt_wf (ps_rows st')" "fst ` set (ps_rows st') = (\<lambda>r. field r 0 8 div 40) ` set (rs @ [r])"
    using inv st'(2) by (auto simp: relocs_inv_def fst_bt_insert)
  moreover have "row_ok t (rs @ [r]) k x" if "bt_get (ps_rows st') k = Some x" for k x
  proof (cases "k = ?k")
    case True
    with that new show ?thesis by (simp add: g)
  next
    case False
    with that have "bt_get (ps_rows st) k = Some x" by (simp add: g)
    with inv have "row_ok t rs k x" unfolding relocs_inv_def by blast
    then show ?thesis by (rule mono)
  qed
  then have "\<forall>k x. bt_get (ps_rows st') k = Some x \<longrightarrow> row_ok t (rs @ [r]) k x" by blast
  moreover have "\<forall>k row name. bt_get (ps_rows st') k = Some row \<longrightarrow> fst row = Some name \<longrightarrow> name \<in> set (ps_names st')"
    using names by blast
  moreover have "\<forall>k k' row row' name. bt_get (ps_rows st') k = Some row \<longrightarrow> bt_get (ps_rows st') k' = Some row' \<longrightarrow>
           fst row = Some name \<longrightarrow> fst row' = Some name \<longrightarrow> k = k'" using inj by blast
  ultimately show ?thesis unfolding relocs_inv_def by - (intro conjI; assumption)
qed


lemma row_ok_new:
  assumes "row_ok t (rs @ [r]) k row"
  shows "field r 0 8 = 40 * k \<Longrightarrow> names_slot t r name \<Longrightarrow> row_ok t (rs @ [r]) k (Some name, snd row)"
    and "field r 0 8 = 40 * k + 16 \<Longrightarrow> setter_slot t r ops \<Longrightarrow> row_ok t (rs @ [r]) k (fst row, Some ops, snd (snd row))"
    and "field r 0 8 = 40 * k + 32 \<Longrightarrow> storage_slot t r a \<Longrightarrow> row_ok t (rs @ [r]) k (fst row, fst (snd row), Some a)"
  using assms unfolding row_ok_def by auto

text \<open>The facts that every accepted relocation gives.\<close>

lemma param_relocation_Inr:
  assumes "param_relocation t st r = Inr st'"
  obtains name st1 row where "field r 0 8 < sec_size (pt_params t)" "field r 0 8 mod 40 \<in> {0, 8, 16, 32}"
    "field r 0 8 \<notin> set (ps_offsets st)" "rel_name t r = Inr name" 
    "st1 = st\<lparr>ps_offsets := bs_insert (field r 0 8) (ps_offsets st)\<rparr>"
    "row = (case bt_get (ps_rows st) (field r 0 8 div 40) of None \<Rightarrow> (None, None, None) | Some r \<Rightarrow> r)"
    "(if field r 0 8 mod 40 = 16
      then param_setter (rel_symbol t r) name (field (rel_symbol t r) 6 2) (field r 16 8) st1 (field r 0 8 div 40) row
      else if field r 0 8 mod 40 = 8
      then param_owner (pt_secs t) (rel_symbol t r) name (field (rel_symbol t r) 6 2) (field r 16 8) st1 (field r 0 8 div 40) row
      else param_data (pt_secs t) (rel_symbol t r) (field (rel_symbol t r) 6 2) (field r 16 8)
             (field r 0 8 mod 40 = 0) st1 (field r 0 8 div 40) row) = Inr st'"
proof -
  from assms obtain offset info addend u at symbol name_at name section_index where
    n: "number r 0 8 = Inr offset" "number r 8 8 = Inr info" "number r 16 8 = Inr addend"
    and g: "refuse_if
       [Inr (sec_size (pt_params t) \<le> offset),
        Inr (offset mod 40 \<notin> {0, 8, 16, 32}),
        Inr (offset \<in> set (ps_offsets st)),
        Inr (info mod 2 ^ 32 \<noteq> 257),
        tested (list_ex (\<lambda>b. b \<noteq> CHR 0x00)) (elf_bytes (sec_content (pt_params t)) offset 8)]
       ''invalid parameter relocation'' = Inr u"
    and a: "(if info div 2 ^ 32 * 24 < U64 then Inr (info div 2 ^ 32 * 24) else Inl ''symbol overflow'') = Inr at"
    and s: "elf_bytes (sec_content (pt_symbols t)) at 24 = Inr symbol"
    and m: "number symbol 0 4 = Inr name_at" "elf_string (sec_content (pt_strings t)) name_at = Inr name"
      "number symbol 6 2 = Inr section_index"
    and b: "(let st' = st\<lparr>ps_offsets := bs_insert offset (ps_offsets st)\<rparr>; key = offset div 40;
         row = (case bt_get (ps_rows st) key of None \<Rightarrow> (None, None, None) | Some r \<Rightarrow> r)
     in if offset mod 40 = 16 then param_setter symbol name section_index addend st' key row
        else if offset mod 40 = 8 then param_owner (pt_secs t) symbol name section_index addend st' key row
        else param_data (pt_secs t) symbol section_index addend (offset mod 40 = 0) st' key row) = Inr st'"
    unfolding param_relocation_def and_then_Inr by blast
  have "at = info div 2 ^ 32 * 24" using a by (simp split: if_split_asm)
  then have sym: "symbol = rel_symbol t r"
    using s number_field [OF n(2)] by (simp add: rel_symbol_def elf_bytes_Inr)
  have rn: "rel_name t r = Inr name" using m sym number_field [OF m(1)] by (simp add: rel_name_def)
  have f: "offset = field r 0 8" "addend = field r 16 8" "section_index = field symbol 6 2"
    by (fact number_field [OF n(1)] number_field [OF n(3)] number_field [OF m(3)])+
  show thesis
  proof (rule that [OF _ _ _ rn refl refl])
    show "field r 0 8 < sec_size (pt_params t)" "field r 0 8 mod 40 \<in> {0, 8, 16, 32}"
      "field r 0 8 \<notin> set (ps_offsets st)" using g unfolding refuse_if_Inr f(1) by simp_all
  qed (use b in \<open>unfold Let_def f sym\<close>)
qed


lemma scale40: "o' mod 40 = j \<Longrightarrow> o' = 40 * (o' div 40) + (j :: nat)"
  by (metis mult_div_mod_eq)

lemma param_setter_Inr:
  assumes "param_setter (rel_symbol t r) name (field (rel_symbol t r) 6 2) (field r 16 8) st k row = Inr st'"
    "rel_name t r = Inr name"
  shows "setter_slot t r name" "ps_offsets st' = ps_offsets st" "ps_names st' = ps_names st"
    "ps_rows st' = bt_insert k (fst row, Some name, snd (snd row)) (ps_rows st)"
  using assms by (auto simp: param_setter_def setter_slot_def try_simps dest: number_field)

lemma param_owner_Inr:
  assumes "param_owner (pt_secs t) (rel_symbol t r) name (field (rel_symbol t r) 6 2) (field r 16 8) st k row = Inr st'"
    "rel_name t r = Inr name"
  shows "owner_slot t r" "ps_offsets st' = ps_offsets st" "ps_names st' = ps_names st"
    "ps_rows st' = bt_insert k row (ps_rows st)"
  using assms by (auto simp: param_owner_def owner_slot_def rel_address_def try_simps dest: number_field
      split: option.splits)

lemma param_data_Inr:
  assumes "param_data (pt_secs t) (rel_symbol t r) (field (rel_symbol t r) 6 2) (field r 16 8) is_name st k row = Inr st'"
  shows "is_name \<Longrightarrow> \<exists>name. names_slot t r name \<and> name \<notin> set (ps_names st)
            \<and> st' = st\<lparr>ps_names := bs_insert name (ps_names st), ps_rows := bt_insert k (Some name, snd row) (ps_rows st)\<rparr>"
    and "\<not> is_name \<Longrightarrow> \<exists>a. storage_slot t r a
            \<and> st' = st\<lparr>ps_rows := bt_insert k (fst row, fst (snd row), Some a) (ps_rows st)\<rparr>"
proof -
  from assms obtain target val start u where h: "header_index (pt_secs t) (field (rel_symbol t r) 6 2) = Inr target"
    and v: "number (rel_symbol t r) 8 8 = Inr val"
    and st: "(if val + field r 16 8 < U64 then Inr (val + field r 16 8) else Inl ''parameter address overflow'') = Inr start"
    and g: "refuse_if [Inr (sec_size target \<le> start), tested (\<lambda>flags. flags AND 4 \<noteq> 0) (number (sec_header target) 8 8)]
       ''parameter points outside safe data'' = Inr u"
    and rest: "(if is_name then
       and_then (elf_string (sec_content target) start) (\<lambda>name.
       if name \<notin> set scalar_names \<or> name \<in> set (ps_names st) then Inl ''unexpected parameter name''
       else Inr (st\<lparr>ps_names := bs_insert name (ps_names st),
                    ps_rows := bt_insert k (Some name, snd row) (ps_rows st)\<rparr>))
     else
       and_then (refuse_if
         [Inr (sec_kind target \<noteq> 1 \<and> sec_kind target \<noteq> 8),
          tested (\<lambda>flags. flags AND 1 = 0) (number (sec_header target) 8 8),
          Inr (\<not> in_named (pt_secs t) [''.data'', ''.bss''] (field (rel_symbol t r) 6 2))]
         ''parameter argument is not writable scalar storage'') (\<lambda>_.
       Inr (st\<lparr>ps_rows := bt_insert k (fst row, fst (snd row), Some (field (rel_symbol t r) 6 2, start))
                 (ps_rows st)\<rparr>))) = Inr st'"
    unfolding param_data_def and_then_Inr
    by blast
  have a: "start = rel_address t r" using st number_field [OF v] by (simp add: rel_address_def split: if_split_asm)
  have x: "\<not> executable target" using g by (auto simp: try_simps executable_def dest!: number_field)
  show "\<exists>name. names_slot t r name \<and> name \<notin> set (ps_names st)
      \<and> st' = st\<lparr>ps_names := bs_insert name (ps_names st), ps_rows := bt_insert k (Some name, snd row) (ps_rows st)\<rparr>"
    if is_name
    using rest that h x unfolding a names_slot_def by (auto simp: and_then_Inr split: if_split_asm)
  show "\<exists>a. storage_slot t r a
      \<and> st' = st\<lparr>ps_rows := bt_insert k (fst row, fst (snd row), Some a) (ps_rows st)\<rparr>" if "\<not> is_name"
    using rest that h x unfolding a storage_slot_def
    by (auto simp: try_simps writable_def dest!: number_field)
qed

lemma param_relocation_inv:
  assumes "relocs_inv t rs st" "param_relocation t st r = Inr st'" "sec_size (pt_params t) = 120"
  shows "relocs_inv t (rs @ [r]) st'"
proof -
  let ?o = "field r 0 8"
  obtain name st1 row where f: "?o < sec_size (pt_params t)" "?o mod 40 \<in> {0, 8, 16, 32}"
    "?o \<notin> set (ps_offsets st)" "rel_name t r = Inr name" 
    "st1 = st\<lparr>ps_offsets := bs_insert ?o (ps_offsets st)\<rparr>"
    "row = (case bt_get (ps_rows st) (?o div 40) of None \<Rightarrow> (None, None, None) | Some r \<Rightarrow> r)"
    and b: "(if ?o mod 40 = 16
      then param_setter (rel_symbol t r) name (field (rel_symbol t r) 6 2) (field r 16 8) st1 (?o div 40) row
      else if ?o mod 40 = 8
      then param_owner (pt_secs t) (rel_symbol t r) name (field (rel_symbol t r) 6 2) (field r 16 8) st1 (?o div 40) row
      else param_data (pt_secs t) (rel_symbol t r) (field (rel_symbol t r) 6 2) (field r 16 8)
             (?o mod 40 = 0) st1 (?o div 40) row) = Inr st'"
    by (rule param_relocation_Inr [OF assms(2)])
  have s: "?o \<in> slots" using f(1,2) assms(3) by (simp add: slots_iff)
  consider (setter) "?o mod 40 = 16" | (owner) "?o mod 40 = 8" | (named) "?o mod 40 = 0" | (storage) "?o mod 40 = 32"
    using f(2) by auto
  then show ?thesis
  proof cases
    case setter
    note p = param_setter_Inr [OF _ f(4), of st1 "?o div 40" row st'] and o = scale40 [OF setter]
    show ?thesis
      by (rule relocs_inv_step [OF assms(1) s f(3) _ f(6), where row' = "(fst row, Some name, snd (snd row))"]) (use p b setter o row_ok_new(2) f(5) in auto)
  next
    case owner
    note p = param_owner_Inr [OF _ f(4), of st1 "?o div 40" row st']
    show ?thesis
      by (rule relocs_inv_step [OF assms(1) s f(3) _ f(6), where row' = "row"]) (use p b owner f(5) in auto)
  next
    case named
    with b obtain name where n: "names_slot t r name" "name \<notin> set (ps_names st)"
      "st' = st1\<lparr>ps_names := bs_insert name (ps_names st1), ps_rows := bt_insert (?o div 40) (Some name, snd row) (ps_rows st1)\<rparr>"
      using param_data_Inr(1) [of t r True st1 "?o div 40" row st'] f(5) by auto
    show ?thesis
      by (rule relocs_inv_step [OF assms(1) s f(3) _ f(6), where row' = "(Some name, snd row)"])
         (use n named scale40 [OF named] row_ok_new(1) f(5) in auto)
  next
    case storage
    with b obtain a where n: "storage_slot t r a"
      "st' = st1\<lparr>ps_rows := bt_insert (?o div 40) (fst row, fst (snd row), Some a) (ps_rows st1)\<rparr>"
      using param_data_Inr(2) [of t r False st1 "?o div 40" row st'] by auto
    show ?thesis
      by (rule relocs_inv_step [OF assms(1) s f(3) _ f(6), where row' = "(fst row, fst (snd row), Some a)"])
         (use n storage scale40 [OF storage] row_ok_new(3) f(5) in auto)
  qed
qed


text \<open>
  Twelve accepted relocations with different offsets fill the twelve slots of the table, so that no
  pointer of a parameter is left to the image's own bytes.
\<close>

lemma card_slots: "finite slots" "card slots = 12"
  by (simp_all add: slots_def)

lemma relocs_cover:
  assumes "relocs_inv t rs st" "length rs = 12"
  shows "(\<lambda>r. field r 0 8) ` set rs = slots" "map fst (ps_rows st) = [0, 1, 2]"
proof -
  have "card ((\<lambda>r. field r 0 8) ` set rs) = 12" "(\<lambda>r. field r 0 8) ` set rs \<subseteq> slots"
    using assms distinct_card [of "map (\<lambda>r. field r 0 8) rs"] by (auto simp: relocs_inv_def)
  then show c: "(\<lambda>r. field r 0 8) ` set rs = slots"
    by (simp add: card_subset_eq card_slots)
  have "fst ` set (ps_rows st) = (\<lambda>n. n div 40) ` (\<lambda>r. field r 0 8) ` set rs"
    using assms(1) by (simp add: relocs_inv_def image_image)
  also have "\<dots> = {0, 1, 2}" unfolding c by (auto simp: slots_def image_iff)
  finally have "set (map fst (ps_rows st)) = set [0, 1, 2]" by simp
  moreover have "sorted_wrt (<) (map fst (ps_rows st))" using assms(1) by (simp add: relocs_inv_def bt_wf_def)
  moreover have "sorted_wrt (<) [0, 1, 2 :: nat]" by simp
  ultimately show "map fst (ps_rows st) = [0, 1, 2]"
    using strict_sorted_equal by blast
qed

definition untouched :: "elf_sections \<Rightarrow> nat \<Rightarrow> nat \<Rightarrow> nat \<Rightarrow> bool" where
  "untouched secs section_index start sz \<longleftrightarrow>
     (\<forall>rel \<in> snd ` set secs. (sec_kind rel = 4 \<or> sec_kind rel = 9) \<longrightarrow> field (sec_header rel) 44 4 = section_index \<longrightarrow>
        (\<forall>e \<in> set (chunks_exact (if sec_kind rel = 4 then 24 else 16) (sec_content rel)).
           field e 0 8 + 16 \<le> start \<or> start + sz \<le> field e 0 8))"

definition setter_of :: "string \<Rightarrow> string" where
  "setter_of name = (if name = ''probe_mask'' then ''param_ops_uint'' else ''param_ops_bool'')"

definition scalar_ok :: "param_tables \<Rightarrow> param_row \<Rightarrow> nat \<times> nat \<times> nat \<Rightarrow> bool" where
  "scalar_ok t row x \<longleftrightarrow>
     (case x of (section_index, start, sz) \<Rightarrow>
        \<exists>name target. row = (Some name, Some (setter_of name), Some (section_index, start)) \<and> sz = scalar_size name
          \<and> header_index (pt_secs t) section_index = Inr target \<and> start + sz \<le> sec_size target
          \<and> start mod sz = 0 \<and> untouched (pt_secs t) section_index start sz)"

definition apart :: "nat \<times> nat \<times> nat \<Rightarrow> nat \<times> nat \<times> nat \<Rightarrow> bool" where
  "apart x y \<longleftrightarrow>
     (case (x, y) of ((s, a, n), (s', a', n')) \<Rightarrow> s = s' \<longrightarrow> a + n \<le> a' \<or> a' + n' \<le> a)"

lemma try_fold_unit: "try_fold f () xs = Inr u \<Longrightarrow> x \<in> set xs \<Longrightarrow> f () x = Inr ()"
  by (induction xs) (auto simp: and_then_Inr)

lemma storage_relocations_untouched:
  assumes "try_fold (storage_relocations section_index start sz) ()
             (filter (\<lambda>s. sec_kind s = 4 \<or> sec_kind s = 9) (map snd secs)) = Inr u" "start + sz < U64" "0 < sz"
  shows "untouched secs section_index start sz"
  unfolding untouched_def
proof (intro ballI impI)
  fix rel e
  assume rel: "rel \<in> snd ` set secs" "sec_kind rel = 4 \<or> sec_kind rel = 9" "field (sec_header rel) 44 4 = section_index"
    and e: "e \<in> set (chunks_exact (if sec_kind rel = 4 then 24 else 16) (sec_content rel))"
  have "storage_relocations section_index start sz () rel = Inr ()"
    using try_fold_unit [OF assms(1)] rel by auto
  then have "try_fold (relocation_entry start sz) ()
      (chunks_exact (if sec_kind rel = 4 then 24 else 16) (sec_content rel)) = Inr ()"
    using rel(3) by (auto simp: storage_relocations_def try_simps Let_def dest!: number_field)
  from try_fold_unit [OF this e] have "\<not> (field e 0 8 < start + sz \<and> start < min (field e 0 8 + 16) (U64 - 1))"
    by (auto simp: relocation_entry_def and_then_Inr dest!: number_field split: if_split_asm)
  then show "field e 0 8 + 16 \<le> start \<or> start + sz \<le> field e 0 8" using assms(2,3) by (auto simp: min_def split: if_splits)
qed

lemma scalar_size_pos [simp]: "0 < scalar_size name"
  by (simp add: scalar_size_def)

lemma param_scalar_Inr:
  assumes "param_scalar t scalars row = Inr scalars'"
  shows "\<exists>x. scalars' = scalars @ [x] \<and> scalar_ok t row x \<and> (\<forall>y \<in> set scalars. apart y x)"
proof -
  obtain name_opt ops argument where row: "row = (name_opt, ops, argument)" by (cases row)
  obtain name section_index start target u where
    r: "name_opt = Some name" "argument = Some (section_index, start)"
    and o: "ops = Some (if scalar_size name = 4 then ''param_ops_uint'' else ''param_ops_bool'')"
    and h: "header_index (pt_secs t) section_index = Inr target"
    and b: "start mod scalar_size name = 0" "start + scalar_size name < U64" "start + scalar_size name \<le> sec_size target"
    and d: "\<not> list_ex (\<lambda>(ss, other, len). ss = section_index \<and> start < other + len \<and> other < start + scalar_size name) scalars"
    and f: "try_fold (storage_relocations section_index start (scalar_size name)) ()
              (filter (\<lambda>s. sec_kind s = 4 \<or> sec_kind s = 9) (map snd (pt_secs t))) = Inr u"
    and s': "scalars' = scalars @ [(section_index, start, scalar_size name)]"
    using assms unfolding param_scalar_def row prod.case
    by (auto simp: and_then_Inr Let_def split: if_split_asm)
  have "untouched (pt_secs t) section_index start (scalar_size name)"
    by (rule storage_relocations_untouched [OF f b(2)]) simp
  moreover have "ops = Some (setter_of name)" using o by (simp add: setter_of_def scalar_size_def)
  moreover have "\<forall>y \<in> set scalars. apart y (section_index, start, scalar_size name)"
    using d by (fastforce simp: apart_def list_ex_iff)
  ultimately show ?thesis using r h b s' by (auto simp: row scalar_ok_def)
qed

lemma param_scalars:
  assumes "try_fold (param_scalar t) [] rows = Inr scalars"
  shows "list_all2 (scalar_ok t) rows scalars \<and> sorted_wrt apart scalars"
proof (rule try_fold_invariant [OF assms, where P = "\<lambda>rows scalars. list_all2 (scalar_ok t) rows scalars \<and> sorted_wrt apart scalars"])
  fix ys y u v
  assume "list_all2 (scalar_ok t) ys u \<and> sorted_wrt apart u" "param_scalar t u y = Inr v"
  then show "list_all2 (scalar_ok t) (ys @ [y]) v \<and> sorted_wrt apart v"
    by (auto dest!: param_scalar_Inr simp: sorted_wrt_append intro: list_all2_appendI)
qed simp



section \<open>Capabilities and inspection\<close>

record kmod_capabilities =
  kc_preflight_protocol :: "u32 option"
  kc_init_contract :: "u32 option"

definition constructors :: "elf_sections \<Rightarrow> bool" where
  "constructors secs =
     list_ex (\<lambda>(name, s). sec_size s \<noteq> 0
                \<and> (name \<in> {''.ctors'', ''.init_array'', ''.preinit_array''} \<or> sec_kind s = 14 \<or> sec_kind s = 16)) secs"

definition starts_with :: "string \<Rightarrow> string \<Rightarrow> bool" where
  "starts_with p s = (strip_prefix p s \<noteq> None)"

definition init_parameters :: "string list" where
  "init_parameters = [''parmtype=filesystem_hiding:bool'', ''parmtype=preflight_only:bool'', ''parmtype=probe_mask:uint'']"

definition preflight_capability :: "string list \<Rightarrow> string list \<Rightarrow> bool \<Rightarrow> string + u32 option" where
  "preflight_capability preflight parameters ctors =
     (if preflight = [] then Inr None
      else if preflight \<noteq> [''1'']
              \<or> filter (starts_with ''parmtype=preflight_only:'') parameters \<noteq> [''parmtype=preflight_only:bool'']
              \<or> ctors
      then Inl ''unverified preflight capability''
      else Inr (Some 1))"

definition init_capability :: "elf_sections \<Rightarrow> string list \<Rightarrow> string list \<Rightarrow> bool \<Rightarrow> string + u32 option" where
  "init_capability secs init parameters ctors =
     (if init = [] then Inr None
      else if init \<noteq> [''1''] \<or> ctors \<or> sort parameters \<noteq> init_parameters
      then Inl ''unverified closed init contract''
      else and_then (standard_parameters secs) (\<lambda>_. Inr (Some 1)))"

definition capabilities_in :: "elf_sections \<Rightarrow> string + kmod_capabilities" where
  "capabilities_in secs =
     and_then (modinfo secs) (\<lambda>records.
     let preflight = List.map_filter (strip_prefix ''vpnhide_preflight='') records;
         init = List.map_filter (strip_prefix ''vpnhide_init_contract='') records;
         parameters = filter (starts_with ''parmtype='') records
     in and_then (preflight_capability preflight parameters (constructors secs)) (\<lambda>protocol.
        and_then (init_capability secs init parameters (constructors secs)) (\<lambda>contract.
        Inr \<lparr>kc_preflight_protocol = protocol, kc_init_contract = contract\<rparr>)))"

definition capabilities :: "bytes \<Rightarrow> string + kmod_capabilities" where
  "capabilities data = and_then (sections data) capabilities_in"

definition preflight_protocol :: "bytes \<Rightarrow> string + u32 option" where
  "preflight_protocol data = and_then (capabilities data) (\<lambda>c. Inr (kc_preflight_protocol c))"

record kmod_inspection =
  ki_sha256 :: string
  ki_bytes :: nat
  ki_preflight_protocol :: "u32 option"
  ki_init_contract :: "u32 option"
  ki_constructors :: bool
  ki_imports :: "string list"
  ki_versions :: "(string, string) bmap"
  ki_extended_versions :: bool

definition content :: "elf_sections \<Rightarrow> string \<Rightarrow> string + bytes" where
  "content secs name =
     (case bt_get secs name of
        None \<Rightarrow> Inr []
      | Some s \<Rightarrow> if sec_kind s \<noteq> 8 then Inr (sec_content s) else Inl ''metadata cannot use SHT_NOBITS'')"

definition import_symbol :: "bytes \<Rightarrow> string list \<Rightarrow> bytes \<Rightarrow> string + string list" where
  "import_symbol strings imports symbol =
     and_then (number symbol 0 4) (\<lambda>name.
     and_then (number symbol 6 2) (\<lambda>section_index.
     if section_index = 0 \<and> name \<noteq> 0 then
       and_then (number symbol 4 1) (\<lambda>info.
       if info div 16 = 1 \<or> info div 16 = 2
       then and_then (elf_string strings name) (\<lambda>s. Inr (bs_insert s imports))
       else Inr imports)
     else Inr imports))"

text \<open>\<^verbatim>\<open>&sections[".symtab"]\<close> cannot be missing where its content is not empty.\<close>

definition read_imports :: "elf_sections \<Rightarrow> bytes \<Rightarrow> string + string list" where
  "read_imports secs symbols =
     (if symbols = [] then Inr []
      else
        and_then (ok_or (bt_get secs ''.symtab'') ''missing .symtab'') (\<lambda>header.
        and_then (refuse_if
          [Inr (sec_kind header \<noteq> 2),
           tested (\<lambda>n. n \<noteq> 24) (number (sec_header header) 56 8),
           Inr (length symbols mod 24 \<noteq> 0),
           Inr (262144 < length symbols div 24)]
          ''invalid symbol table'') (\<lambda>_.
        and_then (number (sec_header header) 40 4) (\<lambda>link.
        and_then (header_index secs link) (\<lambda>strings.
        if sec_kind strings \<noteq> 3 \<or> 16 * 1024 * 1024 < sec_size strings then Inl ''invalid symbol strings''
        else try_fold (import_symbol (sec_content strings)) [] (chunks_exact 24 symbols))))))"

definition version_row :: "(string, string) bmap \<Rightarrow> bytes \<Rightarrow> string + (string, string) bmap" where
  "version_row versions row =
     and_then (number row 0 8) (\<lambda>crc.
     and_then (elf_string (drop 8 row) 0) (\<lambda>name.
     if name = [] \<or> 2 ^ 32 \<le> crc \<or> bt_contains versions name
     then Inl ''invalid or duplicate modversion''
     else Inr (bt_insert name (pad_zero 8 (hex_str crc)) versions)))"

definition read_versions :: "bytes \<Rightarrow> string + (string, string) bmap" where
  "read_versions raw =
     (if length raw mod 64 \<noteq> 0 then Inl ''unsupported modversion record size''
      else try_fold version_row [] (chunks_exact 64 raw))"

definition inspect :: "(bytes \<Rightarrow> string) \<Rightarrow> bytes \<Rightarrow> string + kmod_inspection" where
  "inspect sha256 data =
     and_then (sections data) (\<lambda>secs.
     and_then (capabilities_in secs) (\<lambda>capability.
     and_then (content secs ''.symtab'') (\<lambda>symbols.
     and_then (read_imports secs symbols) (\<lambda>imports.
     and_then (content secs ''__versions'') (\<lambda>raw.
     and_then (read_versions raw) (\<lambda>versions.
     and_then (content secs ''__version_ext_names'') (\<lambda>ext_names.
     and_then (if ext_names \<noteq> [] then Inr True else tested (\<lambda>c. c \<noteq> []) (content secs ''__version_ext_crcs'')) (\<lambda>extended.
     Inr \<lparr>ki_sha256 = sha256 data, ki_bytes = length data,
          ki_preflight_protocol = kc_preflight_protocol capability,
          ki_init_contract = kc_init_contract capability,
          ki_constructors = constructors secs, ki_imports = imports, ki_versions = versions,
          ki_extended_versions = extended\<rparr>))))))))"

definition inspect_gki :: "(bytes \<Rightarrow> string) \<Rightarrow> bytes \<Rightarrow> string + kmod_inspection" where
  "inspect_gki sha256 data =
     and_then (inspect sha256 data) (\<lambda>inspected.
     if ki_extended_versions inspected then Inl ''unsupported extended GKI modversion contract''
     else if \<not> bt_contains (ki_versions inspected) ''module_layout''
             \<or> list_ex (\<lambda>name. \<not> bt_contains (ki_versions inspected) name) (ki_imports inspected)
     then Inl ''GKI payload lacks complete loader symbol CRCs''
     else Inr inspected)"

record kmod_comparison =
  cmp_left_sha256 :: string
  cmp_right_sha256 :: string
  cmp_common_imports :: "string list"
  cmp_crc_evidence_available :: bool
  cmp_common_version_records :: nat
  cmp_left_only_imports :: "string list"
  cmp_right_only_imports :: "string list"
  cmp_changed_crcs :: "(string, string \<times> string) bmap"
  cmp_left_only_versions :: "string list"
  cmp_right_only_versions :: "string list"
  cmp_missing_import_crcs :: "(string, string list) bmap"
  cmp_private_abi_proven :: bool

definition bs_inter :: "'a list \<Rightarrow> 'a list \<Rightarrow> 'a list" where
  "bs_inter a b = filter (\<lambda>x. x \<in> set b) a"

definition bs_diff :: "'a list \<Rightarrow> 'a list \<Rightarrow> 'a list" where
  "bs_diff a b = filter (\<lambda>x. x \<notin> set b) a"

definition compare :: "kmod_inspection \<Rightarrow> kmod_inspection \<Rightarrow> kmod_comparison" where
  "compare left right =
     (let a = bt_keys (ki_versions left);
          b = bt_keys (ki_versions right);
          common = bs_inter a b;
          crc = (\<lambda>m n. the (bt_get (ki_versions m) n))
      in \<lparr>cmp_left_sha256 = ki_sha256 left, cmp_right_sha256 = ki_sha256 right,
          cmp_common_imports = bs_inter (ki_imports left) (ki_imports right),
          cmp_crc_evidence_available = (ki_versions left \<noteq> [] \<and> ki_versions right \<noteq> []),
          cmp_common_version_records = length common,
          cmp_left_only_imports = bs_diff (ki_imports left) (ki_imports right),
          cmp_right_only_imports = bs_diff (ki_imports right) (ki_imports left),
          cmp_changed_crcs = bt_of_list (map (\<lambda>n. (n, (crc left n, crc right n)))
                               (filter (\<lambda>n. crc left n \<noteq> crc right n) common)),
          cmp_left_only_versions = bs_diff a b, cmp_right_only_versions = bs_diff b a,
          cmp_missing_import_crcs = bt_of_list [(''left'', bs_diff (ki_imports left) a),
                                                (''right'', bs_diff (ki_imports right) b)],
          cmp_private_abi_proven = False\<rparr>)"



section \<open>The closed init contract\<close>

definition sections_sized :: "elf_sections \<Rightarrow> bool" where
  "sections_sized secs = list_all (\<lambda>(_, s). sec_kind s = 8 \<or> length (sec_content s) = sec_size s) secs"

lemma sections_sized: "sections data = Inr secs \<Longrightarrow> sections_sized secs"
proof -
  assume "sections data = Inr secs"
  then have "\<forall>(name, s) \<in> set secs. section_ok data name s" using sections_table_ok by (simp add: table_ok_def)
  moreover have "section_ok data name s \<Longrightarrow> sec_kind s = 8 \<or> length (sec_content s) = sec_size s" for name s
    by (auto simp: section_ok_def Let_def split: if_splits)
  ultimately show ?thesis unfolding sections_sized_def list_all_iff by fast
qed

definition standard_scalar :: "param_tables \<Rightarrow> bytes list \<Rightarrow> nat \<Rightarrow> string \<times> nat \<times> nat \<Rightarrow> bool" where
  "standard_scalar t rs k x \<longleftrightarrow>
     (case x of (name, section_index, start) \<Rightarrow>
        (\<exists>r \<in> set rs. field r 0 8 = 40 * k \<and> names_slot t r name)
        \<and> (\<exists>r \<in> set rs. field r 0 8 = 40 * k + 8 \<and> owner_slot t r)
        \<and> (\<exists>r \<in> set rs. field r 0 8 = 40 * k + 16 \<and> setter_slot t r (setter_of name))
        \<and> (\<exists>r \<in> set rs. field r 0 8 = 40 * k + 32 \<and> storage_slot t r (section_index, start))
        \<and> (\<exists>target. header_index (pt_secs t) section_index = Inr target
              \<and> start + scalar_size name \<le> sec_size target)
        \<and> start mod scalar_size name = 0 \<and> untouched (pt_secs t) section_index start (scalar_size name))"

definition closed_parameters :: "param_tables \<Rightarrow> bytes list \<Rightarrow> (string \<times> nat \<times> nat) list \<Rightarrow> bool" where
  "closed_parameters t rs ss \<longleftrightarrow>
     distinct (map (\<lambda>r. field r 0 8) rs) \<and> (\<lambda>r. field r 0 8) ` set rs = slots
     \<and> length ss = 3 \<and> distinct (map fst ss) \<and> set (map fst ss) = set scalar_names
     \<and> (\<forall>k < 3. standard_scalar t rs k (ss ! k))
     \<and> sorted_wrt apart (map (\<lambda>(name, section_index, start). (section_index, start, scalar_size name)) ss)"

definition pick_scalar :: "param_row \<Rightarrow> nat \<times> nat \<times> nat \<Rightarrow> string \<times> nat \<times> nat" where
  "pick_scalar row x = (the (fst row), fst x, fst (snd x))"

lemma pick_scalar_ok:
  assumes inv: "relocs_inv t rs st" and len: "length rs = 12"
    and g: "bt_get (ps_rows st) k = Some row" and ok: "scalar_ok t row x" and k: "k < 3"
  shows "standard_scalar t rs k (pick_scalar row x)" "fst row = Some (fst (pick_scalar row x))"
    "(case pick_scalar row x of (name, section_index, start) \<Rightarrow> (section_index, start, scalar_size name)) = x"
    "fst (pick_scalar row x) \<in> set scalar_names"
proof -
  obtain section_index start sz where x: "x = (section_index, start, sz)" by (cases x)
  from ok x obtain name target where n: "row = (Some name, Some (setter_of name), Some (section_index, start))"
    "sz = scalar_size name" "header_index (pt_secs t) section_index = Inr target" "start + sz \<le> sec_size target"
    "start mod sz = 0" "untouched (pt_secs t) section_index start sz" by (auto simp: scalar_ok_def)
  have row: "row_ok t rs k row" using inv g unfolding relocs_inv_def by blast
  have "k = 0 \<or> k = 1 \<or> k = 2" using k by linarith
  then have "40 * k + 8 \<in> slots" by (auto simp: slots_iff)
  then have "40 * k + 8 \<in> (\<lambda>r. field r 0 8) ` set rs" by (simp only: relocs_cover(1) [OF inv len])
  then obtain r where r: "r \<in> set rs" "field r 0 8 = 40 * k + 8" by (elim imageE) simp
  then have "owner_slot t r" using inv unfolding relocs_inv_def by simp
  moreover have "\<exists>r \<in> set rs. field r 0 8 = 40 * k \<and> names_slot t r name"
    "\<exists>r \<in> set rs. field r 0 8 = 40 * k + 16 \<and> setter_slot t r (setter_of name)"
    "\<exists>r \<in> set rs. field r 0 8 = 40 * k + 32 \<and> storage_slot t r (section_index, start)"
    using row n(1) by (simp_all only: row_ok_def fst_conv snd_conv option.inject)
  moreover have p: "pick_scalar row x = (name, section_index, start)" using n(1) x by (simp add: pick_scalar_def)
  ultimately show "standard_scalar t rs k (pick_scalar row x)"
    unfolding standard_scalar_def p prod.case using r n(2-6) by blast
  show "fst row = Some (fst (pick_scalar row x))"
    "(case pick_scalar row x of (name, section_index, start) \<Rightarrow> (section_index, start, scalar_size name)) = x"
    "fst (pick_scalar row x) \<in> set scalar_names"
    using n(1,2) x p row by (auto simp: row_ok_def names_slot_def)
qed

lemma rows_closed:
  assumes inv: "relocs_inv t rs st" and len: "length rs = 12"
    and sc: "try_fold (param_scalar t) [] (map snd (ps_rows st)) = Inr scalars"
  shows "\<exists>ss. closed_parameters t rs ss"
proof -
  note cover = relocs_cover [OF inv len]
  obtain r0 r1 r2 where rows: "ps_rows st = [(0, r0), (1, r1), (2, r2)]"
    using cover(2) by (auto simp: map_eq_Cons_conv)
  have P: "list_all2 (scalar_ok t) [r0, r1, r2] scalars" "sorted_wrt apart scalars"
    using param_scalars [OF sc] by (simp_all add: rows)
  then obtain x0 x1 x2 where xs: "scalars = [x0, x1, x2]" and ok: "scalar_ok t r0 x0" "scalar_ok t r1 x1" "scalar_ok t r2 x2"
    by (auto simp: list_all2_Cons1)
  have get: "bt_get (ps_rows st) 0 = Some r0" "bt_get (ps_rows st) 1 = Some r1" "bt_get (ps_rows st) 2 = Some r2"
    by (simp_all add: rows)
  note p0 = pick_scalar_ok [OF inv len get(1) ok(1)] and p1 = pick_scalar_ok [OF inv len get(2) ok(2)]
    and p2 = pick_scalar_ok [OF inv len get(3) ok(3)]
  let ?ss = "[pick_scalar r0 x0, pick_scalar r1 x1, pick_scalar r2 x2]"
  have one: "k = k'" if "bt_get (ps_rows st) k = Some row" "bt_get (ps_rows st) k' = Some row'"
    "fst row = Some n" "fst row' = Some n" for k k' row row' n using inv that unfolding relocs_inv_def by blast
  have nodup: "fst r0 \<noteq> fst r1" "fst r0 \<noteq> fst r2" "fst r1 \<noteq> fst r2"
    using one [OF get(1,2)] one [OF get(1,3)] one [OF get(2,3)] p0(2) p1(2) by auto
  have d: "distinct (map fst ?ss)"
    using nodup p0(2) p1(2) p2(2) by auto
  moreover have sub: "set (map fst ?ss) \<subseteq> set scalar_names"
    using p0(4) p1(4) p2(4) by simp
  moreover have "card (set (map fst ?ss)) = card (set scalar_names)"
    using distinct_card [OF d] by (simp add: scalar_names_def)
  then have "set (map fst ?ss) = set scalar_names" using card_subset_eq sub by blast
  moreover have "\<forall>k < 3. standard_scalar t rs k (?ss ! k)"
    using p0(1) p1(1) p2(1)
    by (auto simp: less_Suc_eq numeral_3_eq_3 numeral_2_eq_2)
  moreover have "map (\<lambda>(name, section_index, start). (section_index, start, scalar_size name)) ?ss = scalars"
    using p0(3) p1(3) p2(3) xs by simp
  moreover have "distinct (map (\<lambda>r. field r 0 8) rs)" using inv by (simp add: relocs_inv_def)
  ultimately have "closed_parameters t rs ?ss"
    unfolding closed_parameters_def using cover(1) P(2) by (simp del: list.map)
  then show ?thesis by blast
qed


text \<open>
  C13. A module image is granted the init contract only when loading it can run no code of its own before
  its init function, through constructors or parameter setters: there is no constructor section; all
  twelve pointers of the parameter table are relocated, each exactly once and by this one relocation
  section; the setters are the kernel's own scalar setters, imported and fitting their parameter; and
  the three parameters write to aligned, separate scalars inside the module's writable,
  non-executable \<^verbatim>\<open>.data\<close> or \<^verbatim>\<open>.bss\<close>, which no relocation touches.
\<close>

theorem init_contract_closed:
  assumes "capabilities_in secs = Inr c" "kc_init_contract c \<noteq> None" "sections_sized secs"
  shows "\<not> constructors secs
    \<and> (\<exists>t relocations ss.
         pt_secs t = secs \<and> bt_get secs ''__param'' = Some (pt_params t)
         \<and> bt_get secs ''.symtab'' = Some (pt_symbols t)
         \<and> header_index secs (field (sec_header (pt_symbols t)) 40 4) = Inr (pt_strings t)
         \<and> bt_get secs ''.rela__param'' = Some relocations
         \<and> (\<forall>s \<in> snd ` set secs. sec_kind s = 4 \<or> sec_kind s = 9 \<longrightarrow> sec_index s \<noteq> sec_index relocations \<longrightarrow>
               field (sec_header s) 44 4 \<noteq> sec_index (pt_params t))
         \<and> closed_parameters t (chunks_exact 24 (sec_content relocations)) ss)"
proof -
  obtain u where std: "standard_parameters secs = Inr u" and ctors: "\<not> constructors secs"
    using assms(1,2) by (auto simp: capabilities_in_def init_capability_def Let_def and_then_Inr split: if_split_asm)
  obtain params symbols relocations link strings where
    g: "bt_get secs ''__param'' = Some params" "bt_get secs ''.symtab'' = Some symbols"
       "bt_get secs ''.rela__param'' = Some relocations"
    and l: "number (sec_header symbols) 40 4 = Inr link" "header_index secs link = Inr strings"
    and k: "sec_size params = 120" "sec_kind relocations = 4" "sec_size relocations = 12 * 24"
    and o: "try_fold (other_relocation_source params relocations) () (map snd secs) = Inr ()"
    and f: "\<exists>st scalars. try_fold (param_relocation \<lparr>pt_secs = secs, pt_params = params, pt_symbols = symbols, pt_strings = strings\<rparr>)
            \<lparr>ps_offsets = [], ps_names = [], ps_ops = [], ps_rows = []\<rparr> (chunks_exact 24 (sec_content relocations)) = Inr st
          \<and> try_fold (param_scalar \<lparr>pt_secs = secs, pt_params = params, pt_symbols = symbols, pt_strings = strings\<rparr>) []
             (map snd (ps_rows st)) = Inr scalars"
    using std unfolding standard_parameters_def Let_def
    by (auto simp: and_then_Inr refuse_if_Inr split: if_split_asm)
  define t where "t = \<lparr>pt_secs = secs, pt_params = params, pt_symbols = symbols, pt_strings = strings\<rparr>"
  let ?rs = "chunks_exact 24 (sec_content relocations)"
  obtain st scalars where f': "try_fold (param_relocation t)
      \<lparr>ps_offsets = [], ps_names = [], ps_ops = [], ps_rows = []\<rparr> ?rs = Inr st"
    "try_fold (param_scalar t) [] (map snd (ps_rows st)) = Inr scalars" using f unfolding t_def by blast
  have inv: "relocs_inv t ?rs st"
  proof (rule try_fold_invariant [OF f'(1)])
    show "relocs_inv t [] \<lparr>ps_offsets = [], ps_names = [], ps_ops = [], ps_rows = []\<rparr>" by (simp add: relocs_inv_def)
  qed (erule param_relocation_inv, assumption, simp add: t_def k(1))
  have "length (sec_content relocations) = 288"
    using assms(3) map_of_SomeD [OF g(3)] k(2,3) by (auto simp: sections_sized_def list_all_iff)
  then have "length ?rs = 12" by (simp add: length_chunks_exact)
  then obtain ss where ss: "closed_parameters t ?rs ss" using rows_closed [OF inv _ f'(2)] by blast
  have "field (sec_header s) 44 4 \<noteq> sec_index params"
    if "s \<in> snd ` set secs" "sec_kind s = 4 \<or> sec_kind s = 9" "sec_index s \<noteq> sec_index relocations" for s
    using try_fold_unit [OF o, of s] that
    by (auto simp: other_relocation_source_def and_then_Inr dest!: number_field split: if_split_asm)
  then show ?thesis
    using ctors g l(2) ss number_field [OF l(1)] by (intro conjI exI [of _ t] exI [of _ relocations] exI [of _ ss]) (auto simp: t_def)
qed


text \<open>A small module with the three parameters, by its sections.\<close>

definition sample_section :: "nat \<Rightarrow> nat \<Rightarrow> nat \<Rightarrow> nat \<Rightarrow> nat \<Rightarrow> nat \<Rightarrow> bytes \<Rightarrow> elf_section" where
  "sample_section index kind flags link info entry bs =
     \<lparr>sec_index = index,
      sec_header = le_bytes 4 0 @ le_bytes 4 kind @ le_bytes 8 flags @ le_bytes 8 0 @ le_bytes 8 0
        @ le_bytes 8 (length bs) @ le_bytes 4 link @ le_bytes 4 info @ le_bytes 8 1 @ le_bytes 8 entry,
      sec_kind = kind, sec_size = length bs, sec_content = bs\<rparr>"

definition sample_symbol :: "nat \<Rightarrow> nat \<Rightarrow> nat \<Rightarrow> nat \<Rightarrow> nat \<Rightarrow> bytes" where
  "sample_symbol name info section_index val sz =
     le_bytes 4 name @ le_bytes 1 info @ le_bytes 1 0 @ le_bytes 2 section_index @ le_bytes 8 val @ le_bytes 8 sz"

definition sample_relocation :: "nat \<Rightarrow> nat \<Rightarrow> nat \<Rightarrow> bytes" where
  "sample_relocation offset symbol addend = le_bytes 8 offset @ le_bytes 8 (symbol * 2 ^ 32 + 257) @ le_bytes 8 addend"

definition sample_text :: "string list \<Rightarrow> bytes" where
  "sample_text = concat \<circ> map (\<lambda>s. s @ [CHR 0x00])"

definition sample_module :: elf_sections where
  "sample_module =
     [(''.data'', sample_section 8 1 3 0 0 0 (replicate 8 (CHR 0x00))),
      (''.gnu.linkonce.this_module'', sample_section 9 1 3 0 0 0 (replicate 64 (CHR 0x00))),
      (''.modinfo'', sample_section 2 1 0 0 0 0 (sample_text
         [''vpnhide_init_contract=1'', ''parmtype=preflight_only:bool'', ''parmtype=filesystem_hiding:bool'',
          ''parmtype=probe_mask:uint''])),
      (''.rela__param'', sample_section 6 4 0 4 3 24 (concat
         [sample_relocation 0 4 0, sample_relocation 8 3 0, sample_relocation 16 1 0, sample_relocation 32 5 0,
          sample_relocation 40 4 15, sample_relocation 48 3 0, sample_relocation 56 1 0, sample_relocation 72 5 1,
          sample_relocation 80 4 33, sample_relocation 88 3 0, sample_relocation 96 2 0, sample_relocation 112 5 4])),
      (''.rodata'', sample_section 7 1 2 0 0 0 (sample_text scalar_names)),
      (''.strtab'', sample_section 5 3 0 0 0 0 (sample_text
         ([] # ''param_ops_bool'' # ''param_ops_uint'' # ''__this_module'' # scalar_names))),
      (''.symtab'', sample_section 4 2 0 5 0 24 (concat
         [sample_symbol 0 0 0 0 0, sample_symbol 1 16 0 0 0, sample_symbol 16 16 0 0 0, sample_symbol 31 17 9 0 64,
          sample_symbol 0 3 7 0 0, sample_symbol 0 3 8 0 0, sample_symbol 45 1 8 0 1, sample_symbol 60 1 8 1 1,
          sample_symbol 78 1 8 4 4])),
      (''__param'', sample_section 3 1 0 0 0 0 (replicate 120 (CHR 0x00)))]"

lemma sample_capabilities:
  "capabilities_in sample_module = Inr \<lparr>kc_preflight_protocol = None, kc_init_contract = Some 1\<rparr>"
  by code_simp

lemma sample_sized: "sections_sized sample_module"
  by code_simp

theorem init_contract_closed_witness:
  "\<not> constructors sample_module \<and> (\<exists>t rs ss. pt_secs t = sample_module \<and> closed_parameters t rs ss)"
  using init_contract_closed [OF sample_capabilities _ sample_sized] by auto


section \<open>Imports of a distributed module\<close>

text \<open>An undefined global or weak symbol with a name.\<close>

definition imported :: "bytes \<Rightarrow> bool" where
  "imported sm \<longleftrightarrow> field sm 6 2 = 0 \<and> field sm 0 4 \<noteq> 0 \<and> field sm 4 1 div 16 \<in> {1, 2}"

lemma import_symbol_Inr:
  assumes "import_symbol strings imports sm = Inr imports'"
  shows "if imported sm then \<exists>s. elf_string strings (field sm 0 4) = Inr s \<and> imports' = bs_insert s imports
         else imports' = imports"
proof -
  obtain name section_index where n: "number sm 0 4 = Inr name" "number sm 6 2 = Inr section_index"
    using assms unfolding import_symbol_def and_then_Inr by blast
  have f: "name = field sm 0 4" "section_index = field sm 6 2" by (fact number_field [OF n(1)] number_field [OF n(2)])+
  show ?thesis
  proof (cases "section_index = 0 \<and> name \<noteq> 0")
    case True
    then obtain info where "number sm 4 1 = Inr info" using assms n by (auto simp: import_symbol_def and_then_Inr)
    with True show ?thesis using assms n f number_field [of sm 4 1 info]
      by (auto simp: import_symbol_def imported_def and_then_Inr split: if_split_asm)
  next
    case False
    then show ?thesis using assms n f by (auto simp: import_symbol_def imported_def)
  qed
qed

lemma import_symbols_Inr:
  assumes "try_fold (import_symbol strings) [] syms = Inr imports"
  shows "set imports = {s. \<exists>sm \<in> set syms. imported sm \<and> elf_string strings (field sm 0 4) = Inr s}
         \<and> (\<forall>sm \<in> set syms. imported sm \<longrightarrow> (\<exists>s. elf_string strings (field sm 0 4) = Inr s))"
proof (rule try_fold_invariant [OF assms, where P = "\<lambda>syms imports.
    set imports = {s. \<exists>sm \<in> set syms. imported sm \<and> elf_string strings (field sm 0 4) = Inr s}
    \<and> (\<forall>sm \<in> set syms. imported sm \<longrightarrow> (\<exists>s. elf_string strings (field sm 0 4) = Inr s))"])
  fix ys y u v
  assume "set u = {s. \<exists>sm \<in> set ys. imported sm \<and> elf_string strings (field sm 0 4) = Inr s}
      \<and> (\<forall>sm \<in> set ys. imported sm \<longrightarrow> (\<exists>s. elf_string strings (field sm 0 4) = Inr s))"
    "import_symbol strings u y = Inr v"
  then show "set v = {s. \<exists>sm \<in> set (ys @ [y]). imported sm \<and> elf_string strings (field sm 0 4) = Inr s}
      \<and> (\<forall>sm \<in> set (ys @ [y]). imported sm \<longrightarrow> (\<exists>s. elf_string strings (field sm 0 4) = Inr s))"
    using import_symbol_Inr [of strings u y v] by (cases "imported y") auto
qed simp

text \<open>
  A module accepted for distribution has a loader CRC for \<^verbatim>\<open>module_layout\<close> and for every symbol that its
  symbol table leaves to the kernel.
\<close>

lemma inspect_gki_versions:
  assumes "inspect_gki sha256 data = Inr i"
  obtains secs symbols where "sections data = Inr secs" "content secs ''.symtab'' = Inr symbols"
    "read_imports secs symbols = Inr (ki_imports i)" "\<not> ki_extended_versions i"
    "\<forall>name \<in> insert ''module_layout'' (set (ki_imports i)). bt_get (ki_versions i) name \<noteq> None"
  using assms that
  by (auto simp: inspect_gki_def inspect_def and_then_Inr bt_contains_def list_ex_iff split: if_split_asm)

end
