(* ===== verification/Diag_Base.thy ===== *)
theory Diag_Base
  imports Route_Probe Elf_Image
begin

text \<open>
  The common ground of the diagnostic evaluators (\<^verbatim>\<open>crates/diagnostic-model/src/lib.rs\<close>): samples, the
  description of the fixture that Core creates for one run, reasons for withholding a proof, and the
  result record that every evaluator of a group of checks fills.

  Every check follows one protocol over five samples: the fixture must be absent before it is
  created (negative), visible to root once it is (start), is looked for by the app's worker
  (worker), must still be visible to root afterwards (end) and gone at the end (cleanup).  What the
  evaluators promise about that protocol is the locale \<open>scoped_evaluator\<close>, stated once for all of
  them.
\<close>

section \<open>Samples and identities\<close>

definition MAX_INTERFACES :: nat where
  "MAX_INTERFACES = 256"

definition I32_MAX :: u32 where
  "I32_MAX = 2147483647"

datatype native_read_actor = Libc | Syscall

definition all_actors :: "native_read_actor list" where
  "all_actors = [Libc, Syscall]"

datatype 'a sample = Value 'a | Failed probe_error

primrec value_of :: "'a sample \<Rightarrow> 'a option" where
  "value_of (Value v) = Some v"
| "value_of (Failed _) = None"

abbreviation some_and :: "('a \<Rightarrow> bool) \<Rightarrow> 'a option \<Rightarrow> bool" where
  "some_and P x \<equiv> (case x of None \<Rightarrow> False | Some v \<Rightarrow> P v)"

record interface_id =
  if_name :: string
  if_index :: u32

record ifaddr_metadata =
  im_families :: "u16 list"
  im_flags :: "u32 list"
  im_has_null_address :: bool

record observed_interface =
  oi_name :: string
  oi_index :: "u32 option"
  oi_ifaddrs :: "ifaddr_metadata option"

definition oi_matches :: "observed_interface \<Rightarrow> interface_id \<Rightarrow> bool" where
  "oi_matches o' i = (oi_name o' = if_name i \<and> oi_index o' = Some (if_index i))"

definition oi_from :: "interface_id \<Rightarrow> observed_interface" where
  "oi_from i = \<lparr>oi_name = if_name i, oi_index = Some (if_index i), oi_ifaddrs = None\<rparr>"

record ordinary_control =
  oc_interface :: interface_id
  oc_flags :: u32
  oc_mtu :: u32

record native_fixture_spec =
  sp_session :: u64
  sp_interface :: interface_id
  sp_flags :: u32
  sp_mtu :: u32
  sp_ordinary :: ordinary_control

definition is_lower_hex :: "char \<Rightarrow> bool" where
  "is_lower_hex c = (is_ascii_hexdigit c \<and> \<not> byte_in c 65 90)"

definition tun_name :: "string \<Rightarrow> bool" where
  "tun_name name = (length name = 15 \<and> take 3 name = ''tun'' \<and> list_all is_lower_hex (drop 3 name))"

definition spec_valid :: "native_fixture_spec \<Rightarrow> bool" where
  "spec_valid s =
     (sp_session s \<noteq> 0
      \<and> 0 < if_index (sp_interface s) \<and> if_index (sp_interface s) \<le> I32_MAX
      \<and> tun_name (if_name (sp_interface s))
      \<and> \<not> bit (sp_flags s) 0
      \<and> 0 < sp_mtu s \<and> sp_mtu s \<le> I32_MAX
      \<and> if_name (oc_interface (sp_ordinary s)) = ''lo''
      \<and> 0 < if_index (oc_interface (sp_ordinary s))
      \<and> if_index (oc_interface (sp_ordinary s)) \<noteq> if_index (sp_interface s)
      \<and> 0 < oc_mtu (sp_ordinary s))"

text \<open>The check on interface names that every sample reader repeats.\<close>

definition name_bounded :: "string \<Rightarrow> bool" where
  "name_bounded n = (n \<noteq> [] \<and> length n \<le> 15 \<and> is_ascii n \<and> \<not> list_ex is_ascii_control n)"


section \<open>Results\<close>

datatype control_failure =
    InvalidSpec | MissingNegativeControl | MissingPositiveControl | FixtureChanged
  | OrdinaryObjectsChanged | ProbeUnavailable | CleanupUnconfirmed

text \<open>
  The result records of the address, binding, proc, sys, filesystem and route evaluators have the
  same three fields over their own kind of check.
\<close>

record 'c scoped =
  sr_proven :: "'c list"
  sr_leaked :: "'c list"
  sr_controls :: "control_failure list"

definition scoped_default :: "'c scoped" where
  "scoped_default = \<lparr>sr_proven = [], sr_leaked = [], sr_controls = []\<rparr>"

definition problem :: "control_failure \<Rightarrow> 'c scoped \<Rightarrow> 'c scoped" where
  "problem f r = (if f \<in> set (sr_controls r) then r else r\<lparr>sr_controls := sr_controls r @ [f]\<rparr>)"

definition leak :: "'c \<Rightarrow> 'c scoped \<Rightarrow> 'c scoped" where
  "leak c r = r\<lparr>sr_leaked := sr_leaked r @ [c]\<rparr>"

definition prove :: "'c \<Rightarrow> 'c scoped \<Rightarrow> 'c scoped" where
  "prove c r = r\<lparr>sr_proven := sr_proven r @ [c]\<rparr>"

definition complete_for :: "'c list \<Rightarrow> 'c scoped \<Rightarrow> bool" where
  "complete_for required r =
     (sr_controls r = [] \<and> sr_leaked r = [] \<and> list_all (\<lambda>c. c \<in> set (sr_proven r)) required)"

definition later_control_failures :: "'a option \<Rightarrow> control_failure \<Rightarrow> ('a \<Rightarrow> bool) \<Rightarrow> control_failure list" where
  "later_control_failures s failure valid =
     (if s = None then [ProbeUnavailable] else []) @ (if some_and valid s then [] else [failure])"

text \<open>The five samples of a run.\<close>

record 'a five =
  s_negative :: 'a
  s_start :: 'a
  s_worker :: 'a
  s_end :: 'a
  s_cleanup :: 'a

definition map5 :: "('a \<Rightarrow> 'b) \<Rightarrow> 'a five \<Rightarrow> 'b five" where
  "map5 f s = \<lparr>s_negative = f (s_negative s), s_start = f (s_start s), s_worker = f (s_worker s),
              s_end = f (s_end s), s_cleanup = f (s_cleanup s)\<rparr>"

definition any3 :: "('a \<Rightarrow> bool) \<Rightarrow> 'a five \<Rightarrow> bool" where
  "any3 P s = (P (s_negative s) \<or> P (s_start s) \<or> P (s_worker s))"

definition any2 :: "('a \<Rightarrow> bool) \<Rightarrow> 'a five \<Rightarrow> bool" where
  "any2 P s = (P (s_end s) \<or> P (s_cleanup s))"

lemma map5_sel [simp]:
  "s_negative (map5 f s) = f (s_negative s)" "s_start (map5 f s) = f (s_start s)"
  "s_worker (map5 f s) = f (s_worker s)" "s_end (map5 f s) = f (s_end s)" "s_cleanup (map5 f s) = f (s_cleanup s)"
  by (simp_all add: map5_def)

text \<open>\<^verbatim>\<open>let [Some(n), Some(s), Some(w), e, c] = samples else { ... }\<close>\<close>

definition three :: "'a option five \<Rightarrow> ('a \<times> 'a \<times> 'a) option" where
  "three s =
     (case (s_negative s, s_start s, s_worker s) of (Some n, Some st, Some w) \<Rightarrow> Some (n, st, w) | _ \<Rightarrow> None)"

lemma three_Some: "three s = Some (n, st, w) \<longleftrightarrow> s_negative s = Some n \<and> s_start s = Some st \<and> s_worker s = Some w"
  by (auto simp: three_def split: option.splits)

lemma problem_sel [simp]:
  "sr_proven (problem f r) = sr_proven r" "sr_leaked (problem f r) = sr_leaked r"
  "set (sr_controls (problem f r)) = insert f (set (sr_controls r))"
  by (auto simp: problem_def)

lemma fold_problem [simp]:
  "sr_proven (fold problem fs r) = sr_proven r" "sr_leaked (fold problem fs r) = sr_leaked r"
  "set (sr_controls (fold problem fs r)) = set fs \<union> set (sr_controls r)"
  by (induction fs arbitrary: r) auto

lemma leak_prove_sel [simp]:
  "sr_proven (leak c r) = sr_proven r" "sr_leaked (leak c r) = sr_leaked r @ [c]" "sr_controls (leak c r) = sr_controls r"
  "sr_proven (prove c r) = sr_proven r @ [c]" "sr_leaked (prove c r) = sr_leaked r" "sr_controls (prove c r) = sr_controls r"
  by (simp_all add: leak_def prove_def)

lemma scoped_default_sel [simp]:
  "sr_proven scoped_default = []" "sr_leaked scoped_default = []" "sr_controls scoped_default = []"
  by (simp_all add: scoped_default_def)

lemma later_control_failures_Nil: "later_control_failures s f valid = [] \<longleftrightarrow> some_and valid s"
  by (auto simp: later_control_failures_def split: option.splits)


section \<open>What an evaluator promises\<close>

text \<open>
  An evaluator judges one check after the other.  \<open>leaks c\<close> and \<open>proves c\<close> are the verdicts that the
  samples support; a judgement records exactly them, never drops a reason found before, and when it
  records neither verdict, gives a reason.
\<close>

locale scoped_evaluator =
  fixes judge :: "'c \<Rightarrow> 'c scoped \<Rightarrow> 'c scoped"
    and leaks :: "'c \<Rightarrow> bool"
    and proves :: "'c \<Rightarrow> bool"
  assumes judge_leaked: "sr_leaked (judge c r) = sr_leaked r @ (if leaks c then [c] else [])"
    and judge_proven: "sr_proven (judge c r) = sr_proven r @ (if proves c then [c] else [])"
    and judge_controls: "set (sr_controls r) \<subseteq> set (sr_controls (judge c r))"
    and judge_reason: "\<not> proves c \<Longrightarrow> \<not> leaks c \<Longrightarrow> sr_controls (judge c r) \<noteq> []"
    and proves_clean: "proves c \<Longrightarrow> \<not> leaks c"
begin

lemma fold_leaked: "sr_leaked (fold judge cs r) = sr_leaked r @ filter leaks cs"
  by (induction cs arbitrary: r) (simp_all add: judge_leaked)

lemma fold_proven: "sr_proven (fold judge cs r) = sr_proven r @ filter proves cs"
  by (induction cs arbitrary: r) (simp_all add: judge_proven)

lemma fold_controls: "set (sr_controls r) \<subseteq> set (sr_controls (fold judge cs r))"
proof (induction cs arbitrary: r)
  case (Cons c cs)
  then show ?case using judge_controls by fastforce
qed simp

lemma fold_reason:
  assumes "c \<in> set cs" "\<not> proves c" "\<not> leaks c"
  shows "sr_controls (fold judge cs r) \<noteq> []"
  using assms(1)
proof (induction cs arbitrary: r)
  case (Cons d cs)
  then show ?case
    using judge_reason [OF assms(2,3), of r] fold_controls [of "judge d r" cs] by (cases "c = d") auto
qed simp

text \<open>No check is both proven and leaked, and a complete result proves every check.\<close>

lemma fold_disjoint:
  "c \<in> set (sr_proven (fold judge cs scoped_default)) \<Longrightarrow> c \<notin> set (sr_leaked (fold judge cs scoped_default))"
  by (auto simp: fold_proven fold_leaked proves_clean)

lemma fold_accounted:
  assumes "c \<in> set cs"
  shows "c \<in> set (sr_proven (fold judge cs r)) \<or> c \<in> set (sr_leaked (fold judge cs r))
         \<or> sr_controls (fold judge cs r) \<noteq> []"
  using fold_reason [OF assms] assms by (auto simp: fold_proven fold_leaked)

lemma fold_complete:
  "complete_for cs (fold judge cs scoped_default) \<longleftrightarrow>
     sr_controls (fold judge cs scoped_default) = [] \<and> (\<forall>c \<in> set cs. proves c)"
  by (auto simp: complete_for_def fold_proven fold_leaked list_all_iff filter_empty_conv dest: proves_clean)

end


text \<open>The shape in which every judgement of the evaluators can be written.\<close>

definition verdict :: "'c \<Rightarrow> bool \<Rightarrow> bool \<Rightarrow> control_failure list \<Rightarrow> 'c scoped \<Rightarrow> 'c scoped" where
  "verdict c l p fs r =
     (let r1 = fold problem fs (if l then leak c r else r) in if p then prove c r1 else r1)"

lemma verdict_sel [simp]:
  "sr_leaked (verdict c l p fs r) = sr_leaked r @ (if l then [c] else [])"
  "sr_proven (verdict c l p fs r) = sr_proven r @ (if p then [c] else [])"
  "set (sr_controls (verdict c l p fs r)) = set fs \<union> set (sr_controls r)"
  by (simp_all add: verdict_def Let_def)

locale verdict_evaluator =
  fixes judge :: "'c \<Rightarrow> 'c scoped \<Rightarrow> 'c scoped"
    and leaks :: "'c \<Rightarrow> bool"
    and proves :: "'c \<Rightarrow> bool"
    and reasons :: "'c \<Rightarrow> control_failure list"
  assumes judge_verdict: "judge c r = verdict c (leaks c) (proves c) (reasons c) r"
    and proves_not_leaks: "proves c \<Longrightarrow> \<not> leaks c"
    and neither_reasons: "\<not> proves c \<Longrightarrow> \<not> leaks c \<Longrightarrow> reasons c \<noteq> []"

sublocale verdict_evaluator \<subseteq> scoped_evaluator judge leaks proves
proof
  fix c r
  assume "\<not> proves c" "\<not> leaks c"
  then have "set (sr_controls (judge c r)) \<noteq> {}" using neither_reasons by (auto simp: judge_verdict)
  then show "sr_controls (judge c r) \<noteq> []" by auto
qed (auto simp: judge_verdict proves_not_leaks)

context verdict_evaluator
begin

lemma fold_all_controls:
  "set (sr_controls (fold judge cs r)) = set (sr_controls r) \<union> (\<Union>c \<in> set cs. set (reasons c))"
  by (induction cs arbitrary: r) (auto simp: judge_verdict)

end

end
