(* ===== verification/Diag_Address.thy ===== *)
theory Diag_Address
  imports Diag_Base
begin

text \<open>
  The address checks of a diagnostic run (\<^verbatim>\<open>crates/diagnostic-model/src/address.rs\<close>): ioctl getters, the
  interface configuration ioctl by content and by size, netlink address dumps and \<^verbatim>\<open>getifaddrs\<close>.  A
  \<^verbatim>\<open>BTreeSet\<close> that is only compared or tested for emptiness is a set.
\<close>

unbundle bit_operations_syntax

section \<open>Observations\<close>

definition MAX_ADDRESSES :: nat where
  "MAX_ADDRESSES = 1024"

datatype address_ioctl = Address | Netmask | Broadcast | Destination

definition all_ioctls :: "address_ioctl list" where
  "all_ioctls = [Address, Netmask, Broadcast, Destination]"

datatype address_vector =
    IoctlAddress | IoctlNetmask | IoctlBroadcast | IoctlDestination | IfconfData | IfconfSize
  | GetifaddrsIpv4 | GetifaddrsIpv6 | AddrNetlinkIpv4 | AddrNetlinkIpv6

definition all_vectors :: "address_vector list" where
  "all_vectors = [IoctlAddress, IoctlNetmask, IoctlBroadcast, IoctlDestination, IfconfData, IfconfSize,
                  GetifaddrsIpv4, GetifaddrsIpv6, AddrNetlinkIpv4, AddrNetlinkIpv6]"

record address_check =
  ac_actor :: native_read_actor
  ac_vector :: address_vector

definition address_required :: "address_check list" where
  "address_required =
     concat (map (\<lambda>actor. map (\<lambda>v. \<lparr>ac_actor = actor, ac_vector = v\<rparr>)
       (filter (\<lambda>v. actor = Libc \<or> v \<noteq> GetifaddrsIpv4 \<and> v \<noteq> GetifaddrsIpv6) all_vectors)) all_actors)"

record observed_address =
  oa_name :: "string option"
  oa_index :: "u32 option"
  oa_address :: bytes
  oa_prefix :: "u8 option"

definition address_valid :: "observed_address \<Rightarrow> bool" where
  "address_valid a =
     ((length (oa_address a) = 4 \<or> length (oa_address a) = 16)
      \<and> none_or (\<lambda>p. unat p \<le> length (oa_address a) * 8) (oa_prefix a)
      \<and> none_or name_bounded (oa_name a)
      \<and> none_or (\<lambda>i. 0 < i \<and> i \<le> I32_MAX) (oa_index a))"

definition valid_entries :: "observed_address list \<Rightarrow> bool" where
  "valid_entries es = (length es \<le> MAX_ADDRESSES \<and> list_all address_valid es \<and> distinct es)"

record ioctl_observation =
  io_kind :: address_ioctl
  io_fixture :: "bytes sample"
  io_ordinary :: "bytes sample"

record ifconf_observation =
  ic_entries :: "observed_address list"
  ic_record_bytes :: u32
  ic_used_bytes :: u32
  ic_size_before :: u32
  ic_size_after :: u32

definition ifconf_bounded :: "ifconf_observation \<Rightarrow> bool" where
  "ifconf_bounded v =
     ((ic_record_bytes v = 32 \<or> ic_record_bytes v = 40)
      \<and> unat (ic_used_bytes v) = length (ic_entries v) * unat (ic_record_bytes v)
      \<and> ic_size_before v \<le> of_nat MAX_ADDRESSES * ic_record_bytes v
      \<and> ic_size_after v \<le> of_nat MAX_ADDRESSES * ic_record_bytes v
      \<and> valid_entries (ic_entries v))"

definition ifconf_consistent :: "ifconf_observation \<Rightarrow> bool" where
  "ifconf_consistent v = (ic_size_before v = ic_used_bytes v \<and> ic_size_after v = ic_used_bytes v)"

record address_actor_measurement =
  am_actor :: native_read_actor
  am_ioctls :: "ioctl_observation list"
  am_ifconf :: "ifconf_observation sample"
  am_netlink :: "observed_address list sample"

definition actor_bounded :: "address_actor_measurement \<Rightarrow> bool" where
  "actor_bounded m =
     (length (am_ioctls m) \<le> length all_ioctls
      \<and> distinct (map io_kind (am_ioctls m))
      \<and> list_all (\<lambda>v. none_or (\<lambda>b. length b = 4) (value_of (io_fixture v))
                    \<and> none_or (\<lambda>b. length b = 4) (value_of (io_ordinary v))) (am_ioctls m)
      \<and> none_or ifconf_bounded (value_of (am_ifconf m))
      \<and> none_or valid_entries (value_of (am_netlink m)))"

record address_measurement =
  ad_actors :: "address_actor_measurement list"
  ad_ifaddrs :: "observed_address list sample"

definition address_bounded :: "address_measurement \<Rightarrow> bool" where
  "address_bounded m =
     (length (ad_actors m) \<le> length all_actors
      \<and> distinct (map am_actor (ad_actors m)) \<and> list_all actor_bounded (ad_actors m)
      \<and> none_or valid_entries (value_of (ad_ifaddrs m)))"

text \<open>\<^verbatim>\<open>session.to_be_bytes()\<close>, by byte position.\<close>

definition be_byte :: "u64 \<Rightarrow> nat \<Rightarrow> nat" where
  "be_byte session i = unat (drop_bit (8 * (7 - i)) session) mod 256"

definition fixture_addresses :: "u64 \<Rightarrow> bytes \<times> bytes" where
  "fixture_addresses session =
     (map char_of [198 :: nat, 18 OR (be_byte session 5 AND 1), be_byte session 6, be_byte session 7],
      map char_of ([0xfd :: nat, 0x76, 0x70, 0x6e, 0x68, 0x69, 0x64, 0x65] @ map (be_byte session) [2, 3, 4, 5, 6, 7] @ [0, 1]))"


section \<open>Evaluation\<close>

definition ioctl_absent :: "bytes sample \<Rightarrow> bool" where
  "ioctl_absent s = (s = Failed (Errno 19) \<or> s = Failed (Errno 6))"

definition family_address :: "native_fixture_spec \<Rightarrow> nat \<Rightarrow> bytes" where
  "family_address spec family =
     (if family = 4 then fst (fixture_addresses (sp_session spec)) else snd (fixture_addresses (sp_session spec)))"

definition addr_marker :: "native_fixture_spec \<Rightarrow> nat \<Rightarrow> observed_address \<Rightarrow> bool" where
  "addr_marker spec family e =
     (length (oa_address e) = family
      \<and> (oa_index e = Some (if_index (sp_interface spec))
         \<or> oa_name e = Some (if_name (sp_interface spec))
         \<or> oa_address e = family_address spec family))"

definition addr_positive :: "native_fixture_spec \<Rightarrow> nat \<Rightarrow> observed_address list \<Rightarrow> bool" where
  "addr_positive spec family es =
     list_ex (\<lambda>e. oa_index e = Some (if_index (sp_interface spec)) \<and> oa_address e = family_address spec family) es"

definition addr_ordinary :: "nat \<Rightarrow> observed_address list \<Rightarrow> observed_address set" where
  "addr_ordinary family es = set (filter (\<lambda>e. oa_name e = Some ''lo'' \<and> length (oa_address e) = family) es)"

definition without_fixture :: "native_fixture_spec \<Rightarrow> observed_address list \<Rightarrow> observed_address set" where
  "without_fixture spec es = set (filter (\<lambda>a. \<not> addr_marker spec 4 a) es)"

definition visible_other :: "native_fixture_spec \<Rightarrow> ifconf_observation \<Rightarrow> u32" where
  "visible_other spec w = of_nat (length (filter (\<lambda>a. \<not> addr_marker spec 4 a) (ic_entries w))) * ic_record_bytes w"

definition ifconf_end_ok :: "native_fixture_spec \<Rightarrow> ifconf_observation \<Rightarrow> ifconf_observation \<Rightarrow> bool" where
  "ifconf_end_ok spec n e =
     (ifconf_consistent e \<and> addr_positive spec 4 (ic_entries e)
      \<and> without_fixture spec (ic_entries n) = without_fixture spec (ic_entries e))"

definition ifconf_cleanup_ok :: "native_fixture_spec \<Rightarrow> ifconf_observation \<Rightarrow> ifconf_observation \<Rightarrow> bool" where
  "ifconf_cleanup_ok spec n c =
     (ifconf_consistent c \<and> \<not> list_ex (addr_marker spec 4) (ic_entries c)
      \<and> without_fixture spec (ic_entries n) = without_fixture spec (ic_entries c))"

definition ifconf_size :: "native_fixture_spec \<Rightarrow> address_check \<Rightarrow> ifconf_observation option five \<Rightarrow>
    address_check scoped \<Rightarrow> address_check scoped" where
  "ifconf_size spec check samples r =
     (case three samples of
        Some (n, s, w) \<Rightarrow>
          if \<not> (ifconf_consistent n \<and> ifconf_consistent s) \<or> ic_size_before w \<noteq> ic_size_after w
          then problem ProbeUnavailable r
          else if list_ex (addr_marker spec 4) (ic_entries n)
               \<or> \<not> addr_positive spec 4 (ic_entries s)
               \<or> addr_ordinary 4 (ic_entries n) = {}
               \<or> without_fixture spec (ic_entries n) \<noteq> without_fixture spec (ic_entries s)
               \<or> addr_ordinary 4 (ic_entries w) \<noteq> addr_ordinary 4 (ic_entries n)
          then problem FixtureChanged r
          else
            let other = visible_other spec w;
                leaked = other < ic_size_before w;
                r1 = (if leaked then leak check r else r);
                es = later_control_failures (s_end samples) FixtureChanged (ifconf_end_ok spec n);
                cs = later_control_failures (s_cleanup samples) CleanupUnconfirmed (ifconf_cleanup_ok spec n);
                r2 = fold problem (es @ cs) r1
            in if \<not> leaked \<and> ic_size_before w = other \<and> es = [] \<and> cs = [] then prove check r2
               else if ic_size_before w < other then problem ProbeUnavailable r2
               else r2
      | None \<Rightarrow> problem ProbeUnavailable r)"

definition addr_lists :: "native_fixture_spec \<Rightarrow> address_check \<Rightarrow> nat \<Rightarrow> observed_address list option five \<Rightarrow>
    address_check scoped \<Rightarrow> address_check scoped" where
  "addr_lists spec check family samples r =
     (case three samples of
        Some (n, s, w) \<Rightarrow>
          if list_ex (addr_marker spec family) n \<or> addr_ordinary family n = {}
          then problem MissingNegativeControl r
          else if \<not> addr_positive spec family s \<or> addr_ordinary family s \<noteq> addr_ordinary family n
          then problem MissingPositiveControl r
          else
            let leaked = list_ex (addr_marker spec family) w;
                r1 = (if leaked then leak check r else r);
                same = (addr_ordinary family w = addr_ordinary family s);
                r2 = (if same then r1 else problem OrdinaryObjectsChanged r1);
                es = later_control_failures (s_end samples) FixtureChanged
                       (\<lambda>e. addr_positive spec family e \<and> addr_ordinary family e = addr_ordinary family s);
                cs = later_control_failures (s_cleanup samples) CleanupUnconfirmed
                       (\<lambda>c. \<not> list_ex (addr_marker spec family) c \<and> addr_ordinary family c = addr_ordinary family n);
                r3 = fold problem (es @ cs) r2
            in if \<not> leaked \<and> same \<and> es = [] \<and> cs = [] then prove check r3 else r3
      | None \<Rightarrow> problem ProbeUnavailable r)"

fun ioctl_expected :: "native_fixture_spec \<Rightarrow> address_ioctl \<Rightarrow> bytes" where
  "ioctl_expected spec Address = fst (fixture_addresses (sp_session spec))"
| "ioctl_expected spec Destination = fst (fixture_addresses (sp_session spec))"
| "ioctl_expected spec Netmask = replicate 4 (CHR 0xFF)"
| "ioctl_expected spec Broadcast = replicate 4 (CHR 0x00)"

fun ioctl_vector :: "address_ioctl \<Rightarrow> address_vector" where
  "ioctl_vector Address = IoctlAddress"
| "ioctl_vector Netmask = IoctlNetmask"
| "ioctl_vector Broadcast = IoctlBroadcast"
| "ioctl_vector Destination = IoctlDestination"

definition ioctl_judge :: "native_fixture_spec \<Rightarrow> address_check \<Rightarrow> address_ioctl \<Rightarrow> ioctl_observation option five \<Rightarrow>
    address_check scoped \<Rightarrow> address_check scoped" where
  "ioctl_judge spec check kind obs r =
     (case three obs of
        Some (n, s, w) \<Rightarrow>
          if \<not> ioctl_absent (io_fixture n) \<or> value_of (io_ordinary n) = None
          then problem MissingNegativeControl r
          else if value_of (io_fixture s) \<noteq> Some (ioctl_expected spec kind) \<or> io_ordinary s \<noteq> io_ordinary n
          then problem MissingPositiveControl r
          else
            let leaked = (value_of (io_fixture w) \<noteq> None);
                r1 = (if leaked then leak check r else r);
                same = (io_ordinary w = io_ordinary s);
                r2 = (if same then r1 else problem OrdinaryObjectsChanged r1);
                es = later_control_failures (s_end obs) FixtureChanged
                       (\<lambda>e. io_fixture e = io_fixture s \<and> io_ordinary e = io_ordinary s);
                cs = later_control_failures (s_cleanup obs) CleanupUnconfirmed
                       (\<lambda>c. ioctl_absent (io_fixture c) \<and> io_ordinary c = io_ordinary n);
                r3 = fold problem (es @ cs) r2;
                denied = (\<not> leaked \<and> \<not> ioctl_absent (io_fixture w));
                r4 = (if denied then problem ProbeUnavailable r3 else r3)
            in if \<not> leaked \<and> same \<and> es = [] \<and> cs = [] \<and> \<not> denied then prove check r4 else r4
      | None \<Rightarrow> problem ProbeUnavailable r)"

definition evaluate_actor :: "native_fixture_spec \<Rightarrow> native_read_actor \<Rightarrow> address_actor_measurement option five \<Rightarrow>
    address_check scoped \<Rightarrow> address_check scoped" where
  "evaluate_actor spec actor samples r =
     (let check = (\<lambda>v. \<lparr>ac_actor = actor, ac_vector = v\<rparr>);
          r1 = fold (\<lambda>kind. ioctl_judge spec (check (ioctl_vector kind)) kind
                 (map5 (\<lambda>m. Option.bind m (\<lambda>m. List.find (\<lambda>o'. io_kind o' = kind) (am_ioctls m))) samples)) all_ioctls r;
          netlink = map5 (\<lambda>m. Option.bind m (\<lambda>m. value_of (am_netlink m))) samples;
          r2 = addr_lists spec (check AddrNetlinkIpv4) 4 netlink r1;
          r3 = addr_lists spec (check AddrNetlinkIpv6) 16 netlink r2;
          ifconf = map5 (\<lambda>m. Option.bind m (\<lambda>m. value_of (am_ifconf m))) samples;
          r4 = addr_lists spec (check IfconfData) 4 (map5 (map_option ic_entries) ifconf) r3
      in ifconf_size spec (check IfconfSize) ifconf r4)"

definition actor_samples :: "native_read_actor \<Rightarrow> address_measurement option five \<Rightarrow> address_actor_measurement option five" where
  "actor_samples actor = map5 (\<lambda>m. Option.bind m (\<lambda>m. List.find (\<lambda>v. am_actor v = actor) (ad_actors m)))"

definition start_result :: "'a option five \<Rightarrow> 'c scoped" where
  "start_result samples =
     (if any3 (\<lambda>m. m = None) samples \<or> any2 (\<lambda>m. m = None) samples
      then problem InvalidSpec scoped_default else scoped_default)"

definition evaluate_address_fixture :: "native_fixture_spec \<Rightarrow> address_measurement five \<Rightarrow> address_check scoped" where
  "evaluate_address_fixture spec ms =
     (if \<not> spec_valid spec \<or> any3 (\<lambda>m. \<not> address_bounded m) ms then problem InvalidSpec scoped_default
      else
        let samples = map5 (\<lambda>m. if address_bounded m then Some m else None) ms;
            r1 = fold (\<lambda>actor. evaluate_actor spec actor (actor_samples actor samples)) all_actors (start_result samples);
            ifaddrs = map5 (\<lambda>m. Option.bind m (\<lambda>m. value_of (ad_ifaddrs m))) samples;
            r2 = addr_lists spec \<lparr>ac_actor = Libc, ac_vector = GetifaddrsIpv4\<rparr> 4 ifaddrs r1
        in addr_lists spec \<lparr>ac_actor = Libc, ac_vector = GetifaddrsIpv6\<rparr> 16 ifaddrs r2)"

definition address_unavailable :: address_measurement where
  "address_unavailable = \<lparr>ad_actors = [], ad_ifaddrs = Failed Unsupported\<rparr>"

text \<open>The component of each native measurement, where it was collected.\<close>

definition evaluate_native_address_fixture :: "native_fixture_spec \<Rightarrow> address_measurement option five \<Rightarrow> address_check scoped" where
  "evaluate_native_address_fixture spec ms =
     (case three ms of
        Some (n, s, w) \<Rightarrow>
          evaluate_address_fixture spec
            \<lparr>s_negative = n, s_start = s, s_worker = w,
             s_end = (case s_end ms of Some e \<Rightarrow> e | None \<Rightarrow> address_unavailable),
             s_cleanup = (case s_cleanup ms of Some c \<Rightarrow> c | None \<Rightarrow> address_unavailable)\<rparr>
      | None \<Rightarrow> scoped_default\<lparr>sr_controls := [ProbeUnavailable]\<rparr>)"



section \<open>Verdicts\<close>

text \<open>
  What the samples of one check support.  A check is qualified once the fixture was absent before
  and seen by root, with the ordinary objects the same; a leak needs nothing more than that and the
  worker's observation.
\<close>

definition lists_qualified :: "native_fixture_spec \<Rightarrow> nat \<Rightarrow> observed_address list \<Rightarrow> observed_address list \<Rightarrow> bool" where
  "lists_qualified spec family n s =
     (\<not> list_ex (addr_marker spec family) n \<and> addr_ordinary family n \<noteq> {}
      \<and> addr_positive spec family s \<and> addr_ordinary family s = addr_ordinary family n)"

definition lists_leaks :: "native_fixture_spec \<Rightarrow> nat \<Rightarrow> observed_address list option five \<Rightarrow> bool" where
  "lists_leaks spec family samples =
     some_and (\<lambda>(n, s, w). lists_qualified spec family n s \<and> list_ex (addr_marker spec family) w) (three samples)"

definition lists_proves :: "native_fixture_spec \<Rightarrow> nat \<Rightarrow> observed_address list option five \<Rightarrow> bool" where
  "lists_proves spec family samples =
     some_and (\<lambda>(n, s, w). lists_qualified spec family n s
       \<and> \<not> list_ex (addr_marker spec family) w \<and> addr_ordinary family w = addr_ordinary family n
       \<and> some_and (\<lambda>e. addr_positive spec family e \<and> addr_ordinary family e = addr_ordinary family n) (s_end samples)
       \<and> some_and (\<lambda>c. \<not> list_ex (addr_marker spec family) c \<and> addr_ordinary family c = addr_ordinary family n)
           (s_cleanup samples)) (three samples)"

definition lists_reasons :: "native_fixture_spec \<Rightarrow> nat \<Rightarrow> observed_address list option five \<Rightarrow> control_failure list" where
  "lists_reasons spec family samples =
     (case three samples of
        Some (n, s, w) \<Rightarrow>
          if list_ex (addr_marker spec family) n \<or> addr_ordinary family n = {} then [MissingNegativeControl]
          else if \<not> lists_qualified spec family n s then [MissingPositiveControl]
          else (if addr_ordinary family w = addr_ordinary family n then [] else [OrdinaryObjectsChanged])
            @ later_control_failures (s_end samples) FixtureChanged
                (\<lambda>e. addr_positive spec family e \<and> addr_ordinary family e = addr_ordinary family n)
            @ later_control_failures (s_cleanup samples) CleanupUnconfirmed
                (\<lambda>c. \<not> list_ex (addr_marker spec family) c \<and> addr_ordinary family c = addr_ordinary family n)
      | None \<Rightarrow> [ProbeUnavailable])"

lemmas lists_defs = lists_leaks_def lists_proves_def lists_reasons_def lists_qualified_def

lemma addr_lists_verdict:
  "addr_lists spec c family samples r =
     verdict c (lists_leaks spec family samples) (lists_proves spec family samples) (lists_reasons spec family samples) r"
proof (cases "three samples")
  case (Some t)
  then show ?thesis
    by (cases t) (simp add: addr_lists_def verdict_def lists_defs later_control_failures_Nil Let_def)
qed (simp add: addr_lists_def verdict_def lists_defs)

lemma lists_verdict_ok:
  "lists_proves spec family samples \<Longrightarrow> \<not> lists_leaks spec family samples"
  "\<not> lists_proves spec family samples \<Longrightarrow> \<not> lists_leaks spec family samples \<Longrightarrow> lists_reasons spec family samples \<noteq> []"
  by (cases "three samples"; auto simp: lists_defs later_control_failures_Nil split: if_splits)+

definition ioctl_qualified :: "native_fixture_spec \<Rightarrow> address_ioctl \<Rightarrow> ioctl_observation \<Rightarrow> ioctl_observation \<Rightarrow> bool" where
  "ioctl_qualified spec kind n s =
     (ioctl_absent (io_fixture n) \<and> value_of (io_ordinary n) \<noteq> None
      \<and> value_of (io_fixture s) = Some (ioctl_expected spec kind) \<and> io_ordinary s = io_ordinary n)"

definition ioctl_leaks :: "native_fixture_spec \<Rightarrow> address_ioctl \<Rightarrow> ioctl_observation option five \<Rightarrow> bool" where
  "ioctl_leaks spec kind obs =
     some_and (\<lambda>(n, s, w). ioctl_qualified spec kind n s \<and> value_of (io_fixture w) \<noteq> None) (three obs)"

definition ioctl_proves :: "native_fixture_spec \<Rightarrow> address_ioctl \<Rightarrow> ioctl_observation option five \<Rightarrow> bool" where
  "ioctl_proves spec kind obs =
     some_and (\<lambda>(n, s, w). ioctl_qualified spec kind n s
       \<and> ioctl_absent (io_fixture w) \<and> io_ordinary w = io_ordinary n
       \<and> some_and (\<lambda>e. io_fixture e = io_fixture s \<and> io_ordinary e = io_ordinary n) (s_end obs)
       \<and> some_and (\<lambda>c. ioctl_absent (io_fixture c) \<and> io_ordinary c = io_ordinary n) (s_cleanup obs)) (three obs)"

definition ioctl_reasons :: "native_fixture_spec \<Rightarrow> address_ioctl \<Rightarrow> ioctl_observation option five \<Rightarrow> control_failure list" where
  "ioctl_reasons spec kind obs =
     (case three obs of
        Some (n, s, w) \<Rightarrow>
          if \<not> ioctl_absent (io_fixture n) \<or> value_of (io_ordinary n) = None then [MissingNegativeControl]
          else if \<not> ioctl_qualified spec kind n s then [MissingPositiveControl]
          else (if io_ordinary w = io_ordinary n then [] else [OrdinaryObjectsChanged])
            @ later_control_failures (s_end obs) FixtureChanged
                (\<lambda>e. io_fixture e = io_fixture s \<and> io_ordinary e = io_ordinary n)
            @ later_control_failures (s_cleanup obs) CleanupUnconfirmed
                (\<lambda>c. ioctl_absent (io_fixture c) \<and> io_ordinary c = io_ordinary n)
            @ (if value_of (io_fixture w) = None \<and> \<not> ioctl_absent (io_fixture w) then [ProbeUnavailable] else [])
      | None \<Rightarrow> [ProbeUnavailable])"

lemmas ioctl_defs = ioctl_leaks_def ioctl_proves_def ioctl_reasons_def ioctl_qualified_def

lemma ioctl_absent_None: "ioctl_absent s \<Longrightarrow> value_of s = None"
  by (auto simp: ioctl_absent_def)

lemma ioctl_judge_verdict:
  "ioctl_judge spec c kind obs r =
     verdict c (ioctl_leaks spec kind obs) (ioctl_proves spec kind obs) (ioctl_reasons spec kind obs) r"
proof (cases "three obs")
  case (Some t)
  then show ?thesis
    by (cases t) (auto simp: ioctl_judge_def verdict_def ioctl_defs later_control_failures_Nil Let_def
        dest: ioctl_absent_None)
qed (simp add: ioctl_judge_def verdict_def ioctl_defs)

lemma ioctl_verdict_ok:
  "ioctl_proves spec kind obs \<Longrightarrow> \<not> ioctl_leaks spec kind obs"
  "\<not> ioctl_proves spec kind obs \<Longrightarrow> \<not> ioctl_leaks spec kind obs \<Longrightarrow> ioctl_reasons spec kind obs \<noteq> []"
  by (cases "three obs"; auto simp: ioctl_defs later_control_failures_Nil dest: ioctl_absent_None split: if_splits)+

definition ifconf_qualified :: "native_fixture_spec \<Rightarrow> ifconf_observation \<Rightarrow> ifconf_observation \<Rightarrow> ifconf_observation \<Rightarrow> bool" where
  "ifconf_qualified spec n s w =
     (ifconf_consistent n \<and> ifconf_consistent s \<and> ic_size_before w = ic_size_after w
      \<and> \<not> list_ex (addr_marker spec 4) (ic_entries n) \<and> addr_positive spec 4 (ic_entries s)
      \<and> addr_ordinary 4 (ic_entries n) \<noteq> {}
      \<and> without_fixture spec (ic_entries n) = without_fixture spec (ic_entries s)
      \<and> addr_ordinary 4 (ic_entries w) = addr_ordinary 4 (ic_entries n))"

definition ifconf_leaks :: "native_fixture_spec \<Rightarrow> ifconf_observation option five \<Rightarrow> bool" where
  "ifconf_leaks spec samples =
     some_and (\<lambda>(n, s, w). ifconf_qualified spec n s w \<and> visible_other spec w < ic_size_before w) (three samples)"

definition ifconf_proves :: "native_fixture_spec \<Rightarrow> ifconf_observation option five \<Rightarrow> bool" where
  "ifconf_proves spec samples =
     some_and (\<lambda>(n, s, w). ifconf_qualified spec n s w \<and> ic_size_before w = visible_other spec w
       \<and> some_and (ifconf_end_ok spec n) (s_end samples) \<and> some_and (ifconf_cleanup_ok spec n) (s_cleanup samples))
       (three samples)"

definition ifconf_reasons :: "native_fixture_spec \<Rightarrow> ifconf_observation option five \<Rightarrow> control_failure list" where
  "ifconf_reasons spec samples =
     (case three samples of
        Some (n, s, w) \<Rightarrow>
          if \<not> (ifconf_consistent n \<and> ifconf_consistent s) \<or> ic_size_before w \<noteq> ic_size_after w then [ProbeUnavailable]
          else if \<not> ifconf_qualified spec n s w then [FixtureChanged]
          else later_control_failures (s_end samples) FixtureChanged (ifconf_end_ok spec n)
            @ later_control_failures (s_cleanup samples) CleanupUnconfirmed (ifconf_cleanup_ok spec n)
            @ (if ic_size_before w < visible_other spec w then [ProbeUnavailable] else [])
      | None \<Rightarrow> [ProbeUnavailable])"

lemmas ifconf_defs = ifconf_leaks_def ifconf_proves_def ifconf_reasons_def ifconf_qualified_def

lemma ifconf_size_verdict:
  "ifconf_size spec c samples r =
     verdict c (ifconf_leaks spec samples) (ifconf_proves spec samples) (ifconf_reasons spec samples) r"
proof (cases "three samples")
  case (Some t)
  obtain n s w where t: "three samples = Some (n, s, w)" using Some by (cases t) auto
  show ?thesis
  proof (cases "ifconf_qualified spec n s w")
    case True
    then have c: "ifconf_consistent n" "ifconf_consistent s" "ic_size_before w = ic_size_after w"
      and "\<not> list_ex (addr_marker spec 4) (ic_entries n)" "addr_positive spec 4 (ic_entries s)"
      "addr_ordinary 4 (ic_entries n) \<noteq> {}" "without_fixture spec (ic_entries n) = without_fixture spec (ic_entries s)"
      "addr_ordinary 4 (ic_entries w) = addr_ordinary 4 (ic_entries n)" by (simp_all add: ifconf_qualified_def)
    moreover have "ic_size_before w < visible_other spec w \<or> ic_size_before w = visible_other spec w
        \<or> visible_other spec w < ic_size_before w" by (rule less_linear)
    ultimately show ?thesis
      using True by (elim disjE) (auto simp: ifconf_size_def verdict_def ifconf_leaks_def ifconf_proves_def
          ifconf_reasons_def t later_control_failures_Nil Let_def)
  next
    case False
    then show ?thesis
      by (simp add: ifconf_size_def verdict_def ifconf_leaks_def ifconf_proves_def ifconf_reasons_def t)
         (auto simp: ifconf_qualified_def)
  qed
qed (simp add: ifconf_size_def verdict_def ifconf_defs)

lemma ifconf_verdict_ok:
  "ifconf_proves spec samples \<Longrightarrow> \<not> ifconf_leaks spec samples"
  "\<not> ifconf_proves spec samples \<Longrightarrow> \<not> ifconf_leaks spec samples \<Longrightarrow> ifconf_reasons spec samples \<noteq> []"
  by (cases "three samples"; auto simp: ifconf_defs later_control_failures_Nil split: if_splits)+


text \<open>All address checks as judgements on one list of checks, in the order of the source.\<close>

fun vector_ioctl :: "address_vector \<Rightarrow> address_ioctl option" where
  "vector_ioctl IoctlAddress = Some Address"
| "vector_ioctl IoctlNetmask = Some Netmask"
| "vector_ioctl IoctlBroadcast = Some Broadcast"
| "vector_ioctl IoctlDestination = Some Destination"
| "vector_ioctl _ = None"

definition ioctl_samples :: "address_ioctl \<Rightarrow> native_read_actor \<Rightarrow> address_measurement option five \<Rightarrow> ioctl_observation option five" where
  "ioctl_samples kind actor samples =
     map5 (\<lambda>m. Option.bind m (\<lambda>m. List.find (\<lambda>o'. io_kind o' = kind) (am_ioctls m))) (actor_samples actor samples)"

definition ifconf_samples :: "native_read_actor \<Rightarrow> address_measurement option five \<Rightarrow> ifconf_observation option five" where
  "ifconf_samples actor samples = map5 (\<lambda>m. Option.bind m (\<lambda>m. value_of (am_ifconf m))) (actor_samples actor samples)"

definition list_samples :: "address_check \<Rightarrow> address_measurement option five \<Rightarrow> observed_address list option five" where
  "list_samples c samples =
     (if ac_vector c = IfconfData then map5 (map_option ic_entries) (ifconf_samples (ac_actor c) samples)
      else if ac_vector c = AddrNetlinkIpv4 \<or> ac_vector c = AddrNetlinkIpv6
      then map5 (\<lambda>m. Option.bind m (\<lambda>m. value_of (am_netlink m))) (actor_samples (ac_actor c) samples)
      else map5 (\<lambda>m. Option.bind m (\<lambda>m. value_of (ad_ifaddrs m))) samples)"

definition vector_family :: "address_vector \<Rightarrow> nat" where
  "vector_family v = (if v = AddrNetlinkIpv6 \<or> v = GetifaddrsIpv6 then 16 else 4)"

definition address_verdict :: "(address_ioctl \<Rightarrow> ioctl_observation option five \<Rightarrow> 'a) \<Rightarrow> (ifconf_observation option five \<Rightarrow> 'a) \<Rightarrow>
    (nat \<Rightarrow> observed_address list option five \<Rightarrow> 'a) \<Rightarrow> address_measurement option five \<Rightarrow> address_check \<Rightarrow> 'a" where
  "address_verdict f g h samples c =
     (case vector_ioctl (ac_vector c) of
        Some kind \<Rightarrow> f kind (ioctl_samples kind (ac_actor c) samples)
      | None \<Rightarrow>
          if ac_vector c = IfconfSize then g (ifconf_samples (ac_actor c) samples)
          else h (vector_family (ac_vector c)) (list_samples c samples))"

definition address_judge :: "native_fixture_spec \<Rightarrow> address_measurement option five \<Rightarrow> address_check \<Rightarrow>
    address_check scoped \<Rightarrow> address_check scoped" where
  "address_judge spec samples c =
     address_verdict (ioctl_judge spec c) (ifconf_size spec c) (addr_lists spec c) samples c"

definition address_leaks :: "native_fixture_spec \<Rightarrow> address_measurement option five \<Rightarrow> address_check \<Rightarrow> bool" where
  "address_leaks spec = address_verdict (ioctl_leaks spec) (ifconf_leaks spec) (lists_leaks spec)"

definition address_proves :: "native_fixture_spec \<Rightarrow> address_measurement option five \<Rightarrow> address_check \<Rightarrow> bool" where
  "address_proves spec = address_verdict (ioctl_proves spec) (ifconf_proves spec) (lists_proves spec)"

definition address_reasons :: "native_fixture_spec \<Rightarrow> address_measurement option five \<Rightarrow> address_check \<Rightarrow> control_failure list" where
  "address_reasons spec = address_verdict (ioctl_reasons spec) (ifconf_reasons spec) (lists_reasons spec)"

interpretation address: verdict_evaluator "address_judge spec samples" "address_leaks spec samples"
    "address_proves spec samples" "address_reasons spec samples" for spec samples
  by unfold_locales
     (auto simp: address_judge_def address_leaks_def address_proves_def address_reasons_def address_verdict_def
        ioctl_judge_verdict ifconf_size_verdict addr_lists_verdict
        dest: ioctl_verdict_ok ifconf_verdict_ok lists_verdict_ok split: option.splits if_splits)

definition address_order :: "address_check list" where
  "address_order =
     concat (map (\<lambda>actor. map (\<lambda>v. \<lparr>ac_actor = actor, ac_vector = v\<rparr>)
        [IoctlAddress, IoctlNetmask, IoctlBroadcast, IoctlDestination, AddrNetlinkIpv4, AddrNetlinkIpv6,
         IfconfData, IfconfSize]) all_actors)
     @ map (\<lambda>v. \<lparr>ac_actor = Libc, ac_vector = v\<rparr>) [GetifaddrsIpv4, GetifaddrsIpv6]"

lemma evaluate_actor_judge:
  "evaluate_actor spec actor (actor_samples actor samples) r =
     fold (address_judge spec samples) (map (\<lambda>v. \<lparr>ac_actor = actor, ac_vector = v\<rparr>)
        [IoctlAddress, IoctlNetmask, IoctlBroadcast, IoctlDestination, AddrNetlinkIpv4, AddrNetlinkIpv6,
         IfconfData, IfconfSize]) r"
  by (simp add: evaluate_actor_def address_judge_def address_verdict_def all_ioctls_def ioctl_samples_def
      ifconf_samples_def list_samples_def vector_family_def Let_def)

lemma getifaddrs_judge:
  "addr_lists spec \<lparr>ac_actor = Libc, ac_vector = GetifaddrsIpv4\<rparr> 4
     (map5 (\<lambda>m. Option.bind m (\<lambda>m. value_of (ad_ifaddrs m))) samples) =
   address_judge spec samples \<lparr>ac_actor = Libc, ac_vector = GetifaddrsIpv4\<rparr>"
  "addr_lists spec \<lparr>ac_actor = Libc, ac_vector = GetifaddrsIpv6\<rparr> 16
     (map5 (\<lambda>m. Option.bind m (\<lambda>m. value_of (ad_ifaddrs m))) samples) =
   address_judge spec samples \<lparr>ac_actor = Libc, ac_vector = GetifaddrsIpv6\<rparr>"
  by (simp_all add: address_judge_def address_verdict_def list_samples_def vector_family_def)

lemma start_result_sel [simp]: "sr_proven (start_result s) = []" "sr_leaked (start_result s) = []"
  by (simp_all add: start_result_def)

lemma evaluate_address_fixture_judge:
  assumes "spec_valid spec" "\<not> any3 (\<lambda>m. \<not> address_bounded m) ms"
    and s: "samples = map5 (\<lambda>m. if address_bounded m then Some m else None) ms"
  shows "evaluate_address_fixture spec ms = fold (address_judge spec samples) address_order (start_result samples)"
  using assms(1,2) unfolding evaluate_address_fixture_def Let_def s [symmetric] getifaddrs_judge evaluate_actor_judge
  by (simp add: address_order_def all_actors_def)

lemma set_address_order: "set address_order = set address_required"
  by (auto simp: address_order_def address_required_def all_actors_def all_vectors_def)

end
