(* ===== verification/Diag_Interfaces.thy ===== *)
theory Diag_Interfaces
  imports Diag_Address
begin

text \<open>
  The interface checks that read files (\<^verbatim>\<open>proc_interfaces.rs\<close>, \<^verbatim>\<open>sys_interfaces.rs\<close> and
  \<^verbatim>\<open>filesystem.rs\<close> of \<^verbatim>\<open>crates/diagnostic-model/src/\<close>): the proc device and address tables, directory
  enumeration, and path lookups.
\<close>

section \<open>A controlled observation\<close>

text \<open>\<^verbatim>\<open>controlled\<close> of the proc evaluator; the loop body of the directory evaluator is the same.\<close>

definition controlled :: "'c \<Rightarrow> 'a option five \<Rightarrow> ('a \<Rightarrow> bool) \<Rightarrow> ('a \<Rightarrow> bool) \<Rightarrow> ('a \<Rightarrow> bool) \<Rightarrow> 'c scoped \<Rightarrow> 'c scoped" where
  "controlled check samples has_fixture positive ordinary r =
     (case three samples of
        None \<Rightarrow> problem ProbeUnavailable r
      | Some (n, s, w) \<Rightarrow>
          if has_fixture n \<or> \<not> ordinary n then problem MissingNegativeControl r
          else if \<not> positive s \<or> \<not> ordinary s then problem MissingPositiveControl r
          else
            let leaked = has_fixture w;
                r1 = (if leaked then leak check r else r);
                r2 = (if ordinary w then r1 else problem OrdinaryObjectsChanged r1);
                es = later_control_failures (s_end samples) FixtureChanged (\<lambda>e. positive e \<and> ordinary e);
                cs = later_control_failures (s_cleanup samples) CleanupUnconfirmed (\<lambda>c. \<not> has_fixture c \<and> ordinary c);
                r3 = fold problem (es @ cs) r2
            in if ordinary w \<and> es = [] \<and> cs = [] \<and> \<not> leaked then prove check r3 else r3)"

definition controlled_qualified :: "('a \<Rightarrow> bool) \<Rightarrow> ('a \<Rightarrow> bool) \<Rightarrow> ('a \<Rightarrow> bool) \<Rightarrow> 'a \<Rightarrow> 'a \<Rightarrow> bool" where
  "controlled_qualified has_fixture positive ordinary n s =
     (\<not> has_fixture n \<and> ordinary n \<and> positive s \<and> ordinary s)"

definition controlled_leaks :: "('a \<Rightarrow> bool) \<Rightarrow> ('a \<Rightarrow> bool) \<Rightarrow> ('a \<Rightarrow> bool) \<Rightarrow> 'a option five \<Rightarrow> bool" where
  "controlled_leaks has_fixture positive ordinary samples =
     some_and (\<lambda>(n, s, w). controlled_qualified has_fixture positive ordinary n s \<and> has_fixture w) (three samples)"

definition controlled_proves :: "('a \<Rightarrow> bool) \<Rightarrow> ('a \<Rightarrow> bool) \<Rightarrow> ('a \<Rightarrow> bool) \<Rightarrow> 'a option five \<Rightarrow> bool" where
  "controlled_proves has_fixture positive ordinary samples =
     some_and (\<lambda>(n, s, w). controlled_qualified has_fixture positive ordinary n s \<and> \<not> has_fixture w \<and> ordinary w
       \<and> some_and (\<lambda>e. positive e \<and> ordinary e) (s_end samples)
       \<and> some_and (\<lambda>c. \<not> has_fixture c \<and> ordinary c) (s_cleanup samples)) (three samples)"

definition controlled_reasons :: "('a \<Rightarrow> bool) \<Rightarrow> ('a \<Rightarrow> bool) \<Rightarrow> ('a \<Rightarrow> bool) \<Rightarrow> 'a option five \<Rightarrow> control_failure list" where
  "controlled_reasons has_fixture positive ordinary samples =
     (case three samples of
        None \<Rightarrow> [ProbeUnavailable]
      | Some (n, s, w) \<Rightarrow>
          if has_fixture n \<or> \<not> ordinary n then [MissingNegativeControl]
          else if \<not> positive s \<or> \<not> ordinary s then [MissingPositiveControl]
          else (if ordinary w then [] else [OrdinaryObjectsChanged])
            @ later_control_failures (s_end samples) FixtureChanged (\<lambda>e. positive e \<and> ordinary e)
            @ later_control_failures (s_cleanup samples) CleanupUnconfirmed (\<lambda>c. \<not> has_fixture c \<and> ordinary c))"

lemmas controlled_defs = controlled_leaks_def controlled_proves_def controlled_reasons_def controlled_qualified_def

lemma controlled_verdict:
  "controlled c samples f p o' r =
     verdict c (controlled_leaks f p o' samples) (controlled_proves f p o' samples) (controlled_reasons f p o' samples) r"
proof (cases "three samples")
  case (Some t)
  then show ?thesis
    by (cases t) (auto simp: controlled_def verdict_def controlled_defs later_control_failures_Nil Let_def)
qed (simp add: controlled_def verdict_def controlled_defs)

lemma controlled_verdict_ok:
  "controlled_proves f p o' samples \<Longrightarrow> \<not> controlled_leaks f p o' samples"
  "\<not> controlled_proves f p o' samples \<Longrightarrow> \<not> controlled_leaks f p o' samples \<Longrightarrow> controlled_reasons f p o' samples \<noteq> []"
  by (cases "three samples"; auto simp: controlled_defs later_control_failures_Nil split: if_splits)+


section \<open>Proc tables\<close>

datatype proc_surface = DeviceStats | Ipv6Addresses

definition all_proc_surfaces :: "proc_surface list" where
  "all_proc_surfaces = [DeviceStats, Ipv6Addresses]"

record proc_check =
  pc_actor :: native_read_actor
  pc_surface :: proc_surface

definition proc_required :: "proc_check list" where
  "proc_required =
     concat (map (\<lambda>actor. map (\<lambda>s. \<lparr>pc_actor = actor, pc_surface = s\<rparr>) all_proc_surfaces) all_actors)"

record proc_actor_measurement =
  pm_actor :: native_read_actor
  pm_devices :: "string list sample"
  pm_ipv6 :: "observed_address list sample"

definition proc_actor_bounded :: "proc_actor_measurement \<Rightarrow> bool" where
  "proc_actor_bounded m =
     (none_or (\<lambda>v. length v \<le> MAX_INTERFACES \<and> distinct v \<and> list_all name_bounded v) (value_of (pm_devices m))
      \<and> none_or (\<lambda>v. length v \<le> MAX_ADDRESSES \<and> distinct v
                    \<and> list_all (\<lambda>a. address_valid a \<and> length (oa_address a) = 16) v) (value_of (pm_ipv6 m)))"

definition proc_bounded :: "proc_actor_measurement list \<Rightarrow> bool" where
  "proc_bounded actors =
     (length actors \<le> length all_actors \<and> distinct (map pm_actor actors) \<and> list_all proc_actor_bounded actors)"

definition has_name :: "native_fixture_spec \<Rightarrow> string list \<Rightarrow> bool" where
  "has_name spec entries = (if_name (sp_interface spec) \<in> set entries)"

definition ipv6_marker :: "native_fixture_spec \<Rightarrow> observed_address list \<Rightarrow> bool" where
  "ipv6_marker spec v =
     list_ex (\<lambda>a. oa_address a = snd (fixture_addresses (sp_session spec))
               \<or> oa_name a = Some (if_name (sp_interface spec))
               \<or> oa_index a = Some (if_index (sp_interface spec))) v"

definition ipv6_positive :: "native_fixture_spec \<Rightarrow> observed_address list \<Rightarrow> bool" where
  "ipv6_positive spec v =
     list_ex (\<lambda>a. oa_address a = snd (fixture_addresses (sp_session spec))
               \<and> oa_index a = Some (if_index (sp_interface spec))
               \<and> oa_name a = Some (if_name (sp_interface spec))) v"

definition ipv6_ordinary :: "native_fixture_spec \<Rightarrow> observed_address list \<Rightarrow> bool" where
  "ipv6_ordinary spec v =
     list_ex (\<lambda>a. oa_address a = replicate 15 (CHR 0x00) @ [CHR 0x01]
               \<and> oa_index a = Some (if_index (oc_interface (sp_ordinary spec)))
               \<and> oa_name a = Some ''lo'' \<and> oa_prefix a = Some 128) v"

definition proc_samples :: "native_read_actor \<Rightarrow> proc_actor_measurement list option five \<Rightarrow> proc_actor_measurement option five" where
  "proc_samples actor = map5 (\<lambda>m. Option.bind m (List.find (\<lambda>a. pm_actor a = actor)))"

definition proc_actor :: "native_fixture_spec \<Rightarrow> proc_actor_measurement list option five \<Rightarrow> native_read_actor \<Rightarrow>
    proc_check scoped \<Rightarrow> proc_check scoped" where
  "proc_actor spec samples actor r =
     controlled \<lparr>pc_actor = actor, pc_surface = Ipv6Addresses\<rparr>
       (map5 (\<lambda>m. Option.bind m (\<lambda>m. value_of (pm_ipv6 m))) (proc_samples actor samples))
       (ipv6_marker spec) (ipv6_positive spec) (ipv6_ordinary spec)
       (controlled \<lparr>pc_actor = actor, pc_surface = DeviceStats\<rparr>
         (map5 (\<lambda>m. Option.bind m (\<lambda>m. value_of (pm_devices m))) (proc_samples actor samples))
         (has_name spec) (has_name spec) (\<lambda>v. ''lo'' \<in> set v) r)"

definition evaluate_proc_interface_fixture :: "native_fixture_spec \<Rightarrow> proc_actor_measurement list five \<Rightarrow> proc_check scoped" where
  "evaluate_proc_interface_fixture spec ms =
     (if \<not> spec_valid spec \<or> any3 (\<lambda>m. \<not> proc_bounded m) ms then problem InvalidSpec scoped_default
      else
        let samples = map5 (\<lambda>m. if proc_bounded m then Some m else None) ms
        in fold (proc_actor spec samples) all_actors (start_result samples))"

definition evaluate_native_proc_interface_fixture ::
    "native_fixture_spec \<Rightarrow> proc_actor_measurement list option five \<Rightarrow> proc_check scoped" where
  "evaluate_native_proc_interface_fixture spec ms =
     (case three ms of
        None \<Rightarrow> scoped_default\<lparr>sr_controls := [ProbeUnavailable]\<rparr>
      | Some (n, s, w) \<Rightarrow>
          evaluate_proc_interface_fixture spec
            \<lparr>s_negative = n, s_start = s, s_worker = w,
             s_end = (case s_end ms of Some e \<Rightarrow> e | None \<Rightarrow> []),
             s_cleanup = (case s_cleanup ms of Some c \<Rightarrow> c | None \<Rightarrow> [])\<rparr>)"

text \<open>As judgements on a list of checks.\<close>

definition proc_verdict :: "(string list option five \<Rightarrow> 'a) \<Rightarrow> (observed_address list option five \<Rightarrow> 'a) \<Rightarrow>
    proc_actor_measurement list option five \<Rightarrow> proc_check \<Rightarrow> 'a" where
  "proc_verdict f g samples c =
     (case pc_surface c of
        DeviceStats \<Rightarrow> f (map5 (\<lambda>m. Option.bind m (\<lambda>m. value_of (pm_devices m))) (proc_samples (pc_actor c) samples))
      | Ipv6Addresses \<Rightarrow> g (map5 (\<lambda>m. Option.bind m (\<lambda>m. value_of (pm_ipv6 m))) (proc_samples (pc_actor c) samples)))"

definition proc_judge :: "native_fixture_spec \<Rightarrow> proc_actor_measurement list option five \<Rightarrow> proc_check \<Rightarrow>
    proc_check scoped \<Rightarrow> proc_check scoped" where
  "proc_judge spec samples c =
     proc_verdict (\<lambda>s. controlled c s (has_name spec) (has_name spec) (\<lambda>v. ''lo'' \<in> set v))
       (\<lambda>s. controlled c s (ipv6_marker spec) (ipv6_positive spec) (ipv6_ordinary spec)) samples c"

definition proc_leaks :: "native_fixture_spec \<Rightarrow> proc_actor_measurement list option five \<Rightarrow> proc_check \<Rightarrow> bool" where
  "proc_leaks spec =
     proc_verdict (controlled_leaks (has_name spec) (has_name spec) (\<lambda>v. ''lo'' \<in> set v))
       (controlled_leaks (ipv6_marker spec) (ipv6_positive spec) (ipv6_ordinary spec))"

definition proc_proves :: "native_fixture_spec \<Rightarrow> proc_actor_measurement list option five \<Rightarrow> proc_check \<Rightarrow> bool" where
  "proc_proves spec =
     proc_verdict (controlled_proves (has_name spec) (has_name spec) (\<lambda>v. ''lo'' \<in> set v))
       (controlled_proves (ipv6_marker spec) (ipv6_positive spec) (ipv6_ordinary spec))"

definition proc_reasons :: "native_fixture_spec \<Rightarrow> proc_actor_measurement list option five \<Rightarrow> proc_check \<Rightarrow> control_failure list" where
  "proc_reasons spec =
     proc_verdict (controlled_reasons (has_name spec) (has_name spec) (\<lambda>v. ''lo'' \<in> set v))
       (controlled_reasons (ipv6_marker spec) (ipv6_positive spec) (ipv6_ordinary spec))"

interpretation procs: verdict_evaluator "proc_judge spec samples" "proc_leaks spec samples"
    "proc_proves spec samples" "proc_reasons spec samples" for spec samples
  by unfold_locales
     (auto simp: proc_judge_def proc_leaks_def proc_proves_def proc_reasons_def proc_verdict_def controlled_verdict
        dest: controlled_verdict_ok split: proc_surface.splits)

lemma evaluate_proc_judge:
  assumes "spec_valid spec" "\<not> any3 (\<lambda>m. \<not> proc_bounded m) ms"
    and s: "samples = map5 (\<lambda>m. if proc_bounded m then Some m else None) ms"
  shows "evaluate_proc_interface_fixture spec ms = fold (proc_judge spec samples) proc_required (start_result samples)"
  using assms(1,2) unfolding evaluate_proc_interface_fixture_def Let_def s [symmetric]
  by (simp add: proc_required_def all_actors_def all_proc_surfaces_def proc_actor_def proc_judge_def proc_verdict_def)


section \<open>Directories\<close>

datatype sys_surface = SysClassNet | ProcIpv4Conf | ProcIpv6Conf

definition all_sys_surfaces :: "sys_surface list" where
  "all_sys_surfaces = [SysClassNet, ProcIpv4Conf, ProcIpv6Conf]"

record sys_check =
  sc_actor :: native_read_actor
  sc_surface :: sys_surface

definition sys_required :: "sys_check list" where
  "sys_required =
     concat (map (\<lambda>actor. map (\<lambda>s. \<lparr>sc_actor = actor, sc_surface = s\<rparr>) all_sys_surfaces) all_actors)"

record sys_observation =
  so_check :: sys_check
  so_names :: "string list sample"

definition sys_bounded :: "sys_observation list \<Rightarrow> bool" where
  "sys_bounded entries =
     (length entries \<le> length sys_required \<and> distinct (map so_check entries)
      \<and> list_all (\<lambda>e. none_or (\<lambda>names. length names \<le> MAX_INTERFACES + 2 \<and> distinct names
             \<and> list_all (\<lambda>n. name_bounded n \<and> CHR ''/'' \<notin> set n) names) (value_of (so_names e))) entries)"

definition sys_names :: "sys_check \<Rightarrow> sys_observation list \<Rightarrow> string list option" where
  "sys_names check entries = Option.bind (List.find (\<lambda>e. so_check e = check) entries) (\<lambda>e. value_of (so_names e))"

definition sys_samples :: "sys_check \<Rightarrow> sys_observation list option five \<Rightarrow> string list option five" where
  "sys_samples check = map5 (\<lambda>m. Option.bind m (\<lambda>m. if sys_bounded m then sys_names check m else None))"

definition sys_judge :: "native_fixture_spec \<Rightarrow> sys_observation list option five \<Rightarrow> sys_check \<Rightarrow>
    sys_check scoped \<Rightarrow> sys_check scoped" where
  "sys_judge spec samples check =
     controlled check (sys_samples check samples) (has_name spec) (has_name spec)
       (\<lambda>names. if_name (oc_interface (sp_ordinary spec)) \<in> set names)"

definition unbounded_later :: "('a \<Rightarrow> bool) \<Rightarrow> 'a option five \<Rightarrow> 'c scoped" where
  "unbounded_later bounded ms =
     (if any2 (\<lambda>m. some_and (\<lambda>m. \<not> bounded m) m) ms then problem InvalidSpec scoped_default else scoped_default)"

definition evaluate_sys_interface_fixture :: "native_fixture_spec \<Rightarrow> sys_observation list option five \<Rightarrow> sys_check scoped" where
  "evaluate_sys_interface_fixture spec ms =
     (if \<not> spec_valid spec \<or> any3 (\<lambda>m. some_and (\<lambda>m. \<not> sys_bounded m) m) ms then problem InvalidSpec scoped_default
      else fold (sys_judge spec ms) sys_required (unbounded_later sys_bounded ms))"

definition sys_leaks :: "native_fixture_spec \<Rightarrow> sys_observation list option five \<Rightarrow> sys_check \<Rightarrow> bool" where
  "sys_leaks spec samples check =
     controlled_leaks (has_name spec) (has_name spec)
       (\<lambda>names. if_name (oc_interface (sp_ordinary spec)) \<in> set names) (sys_samples check samples)"

definition sys_proves :: "native_fixture_spec \<Rightarrow> sys_observation list option five \<Rightarrow> sys_check \<Rightarrow> bool" where
  "sys_proves spec samples check =
     controlled_proves (has_name spec) (has_name spec)
       (\<lambda>names. if_name (oc_interface (sp_ordinary spec)) \<in> set names) (sys_samples check samples)"

interpretation sys: verdict_evaluator "sys_judge spec samples" "sys_leaks spec samples" "sys_proves spec samples"
    "\<lambda>check. controlled_reasons (has_name spec) (has_name spec)
       (\<lambda>names. if_name (oc_interface (sp_ordinary spec)) \<in> set names) (sys_samples check samples)" for spec samples
  by unfold_locales
     (simp_all add: sys_judge_def sys_leaks_def sys_proves_def controlled_verdict controlled_verdict_ok)


section \<open>Path lookups\<close>

datatype fs_vector = Stat | Access | OpenDirectory

definition all_fs_vectors :: "fs_vector list" where
  "all_fs_vectors = [Stat, Access, OpenDirectory]"

record fs_check =
  fc_actor :: native_read_actor
  fc_surface :: sys_surface
  fc_vector :: fs_vector

definition fs_required :: "fs_check list" where
  "fs_required =
     concat (map (\<lambda>actor. concat (map (\<lambda>s. map (\<lambda>v. \<lparr>fc_actor = actor, fc_surface = s, fc_vector = v\<rparr>) all_fs_vectors)
       all_sys_surfaces)) all_actors)"

record fs_observation =
  fo_check :: fs_check
  fo_fixture :: "bool sample"
  fo_ordinary :: "bool sample"

definition fs_bounded :: "fs_observation list \<Rightarrow> bool" where
  "fs_bounded entries = (length entries \<le> length fs_required \<and> distinct (map fo_check entries))"

definition fs_values :: "fs_observation option \<Rightarrow> (bool \<times> bool) option" where
  "fs_values o' =
     Option.bind o' (\<lambda>o'. Option.bind (value_of (fo_fixture o')) (\<lambda>f. Option.bind (value_of (fo_ordinary o')) (\<lambda>r. Some (f, r))))"

definition fs_samples :: "fs_check \<Rightarrow> fs_observation list option five \<Rightarrow> fs_observation option five" where
  "fs_samples check =
     map5 (\<lambda>m. Option.bind m (\<lambda>m. if fs_bounded m then List.find (\<lambda>e. fo_check e = check) m else None))"

definition fs_judge :: "native_fixture_spec \<Rightarrow> fs_observation list option five \<Rightarrow> fs_check \<Rightarrow>
    fs_check scoped \<Rightarrow> fs_check scoped" where
  "fs_judge spec ms check r =
     (let obs = fs_samples check ms
      in case (fs_values (s_negative obs), fs_values (s_start obs), s_worker obs) of
           (Some n, Some s, Some w) \<Rightarrow>
             if n \<noteq> (False, True) then problem MissingNegativeControl r
             else if s \<noteq> (True, True) then problem MissingPositiveControl r
             else
               let leaked = (value_of (fo_fixture w) = Some True);
                   r1 = (if leaked then leak check r else r);
                   unread = (value_of (fo_fixture w) = None \<or> value_of (fo_ordinary w) = None);
                   r2 = (if unread then problem ProbeUnavailable r1 else r1);
                   changed = (value_of (fo_ordinary w) = Some False);
                   r3 = (if changed then problem OrdinaryObjectsChanged r2 else r2);
                   fs = later_control_failures (fs_values (s_end obs)) FixtureChanged (\<lambda>v. v = (True, True))
                        @ later_control_failures (fs_values (s_cleanup obs)) CleanupUnconfirmed (\<lambda>v. v = (False, True));
                   r4 = fold problem fs r3
               in if \<not> unread \<and> \<not> changed \<and> fs = [] \<and> \<not> leaked then prove check r4 else r4
         | _ \<Rightarrow> problem ProbeUnavailable r)"

definition evaluate_filesystem_fixture :: "native_fixture_spec \<Rightarrow> fs_observation list option five \<Rightarrow> fs_check scoped" where
  "evaluate_filesystem_fixture spec ms =
     (if \<not> spec_valid spec \<or> any3 (\<lambda>m. some_and (\<lambda>m. \<not> fs_bounded m) m) ms then problem InvalidSpec scoped_default
      else fold (fs_judge spec ms) fs_required (unbounded_later fs_bounded ms))"

definition fs_leaks :: "fs_observation list option five \<Rightarrow> fs_check \<Rightarrow> bool" where
  "fs_leaks ms check =
     (let obs = fs_samples check ms
      in fs_values (s_negative obs) = Some (False, True) \<and> fs_values (s_start obs) = Some (True, True)
         \<and> some_and (\<lambda>w. value_of (fo_fixture w) = Some True) (s_worker obs))"

definition fs_proves :: "fs_observation list option five \<Rightarrow> fs_check \<Rightarrow> bool" where
  "fs_proves ms check =
     (map5 fs_values (fs_samples check ms) =
        \<lparr>s_negative = Some (False, True), s_start = Some (True, True), s_worker = Some (False, True),
         s_end = Some (True, True), s_cleanup = Some (False, True)\<rparr>)"

definition fs_reasons :: "fs_observation list option five \<Rightarrow> fs_check \<Rightarrow> control_failure list" where
  "fs_reasons ms check =
     (let obs = fs_samples check ms
      in case (fs_values (s_negative obs), fs_values (s_start obs), s_worker obs) of
           (Some n, Some s, Some w) \<Rightarrow>
             if n \<noteq> (False, True) then [MissingNegativeControl]
             else if s \<noteq> (True, True) then [MissingPositiveControl]
             else (if value_of (fo_fixture w) = None \<or> value_of (fo_ordinary w) = None then [ProbeUnavailable] else [])
               @ (if value_of (fo_ordinary w) = Some False then [OrdinaryObjectsChanged] else [])
               @ later_control_failures (fs_values (s_end obs)) FixtureChanged (\<lambda>v. v = (True, True))
               @ later_control_failures (fs_values (s_cleanup obs)) CleanupUnconfirmed (\<lambda>v. v = (False, True))
         | _ \<Rightarrow> [ProbeUnavailable])"

lemma fs_values_Some:
  "fs_values o' = Some (f, r) \<longleftrightarrow> (\<exists>w. o' = Some w \<and> value_of (fo_fixture w) = Some f \<and> value_of (fo_ordinary w) = Some r)"
  by (cases o') (auto simp: fs_values_def bind_eq_Some_conv)

lemma fs_proves_iff:
  "fs_proves ms check \<longleftrightarrow>
     (let obs = fs_samples check ms
      in fs_values (s_negative obs) = Some (False, True) \<and> fs_values (s_start obs) = Some (True, True)
         \<and> fs_values (s_worker obs) = Some (False, True) \<and> fs_values (s_end obs) = Some (True, True)
         \<and> fs_values (s_cleanup obs) = Some (False, True))"
  by (auto simp: fs_proves_def map5_def Let_def)

lemma some_and_eq: "some_and (\<lambda>v. v = c) x \<longleftrightarrow> x = Some c"
  by (auto split: option.splits)

lemma fs_judge_verdict: "fs_judge spec ms c r = verdict c (fs_leaks ms c) (fs_proves ms c) (fs_reasons ms c) r"
proof -
  define obs where "obs = fs_samples c ms"
  show ?thesis
  proof (cases "fs_values (s_negative obs) = Some (False, True) \<and> fs_values (s_start obs) = Some (True, True)
      \<and> s_worker obs \<noteq> None")
    case True
    then obtain w where q: "fs_values (s_negative obs) = Some (False, True)" "fs_values (s_start obs) = Some (True, True)"
      "s_worker obs = Some w" by blast
    have v: "fs_values (Some w) = Some (False, True) \<longleftrightarrow>
        value_of (fo_fixture w) = Some False \<and> value_of (fo_ordinary w) = Some True" by (simp add: fs_values_Some)
    show ?thesis
      using q by (cases "value_of (fo_fixture w)"; cases "value_of (fo_ordinary w)")
        (auto simp: fs_judge_def fs_leaks_def fs_proves_iff fs_reasons_def verdict_def Let_def v
          later_control_failures_Nil some_and_eq simp flip: obs_def)
  next
    case False
    have w: "fs_values (s_worker obs) = Some (False, True) \<Longrightarrow> s_worker obs \<noteq> None" by (auto simp: fs_values_Some)
    have l: "\<not> fs_leaks ms c" "\<not> fs_proves ms c"
      using False w by (auto simp: fs_leaks_def fs_proves_iff Let_def simp flip: obs_def split: option.splits)
    show ?thesis
      using False by (cases "fs_values (s_negative obs)"; cases "fs_values (s_start obs)"; cases "s_worker obs")
        (auto simp: fs_judge_def fs_reasons_def verdict_def l Let_def simp flip: obs_def)
  qed
qed

interpretation fs: verdict_evaluator "fs_judge spec ms" "fs_leaks ms" "fs_proves ms" "fs_reasons ms" for spec ms
proof
  fix c r
  show "fs_judge spec ms c r = verdict c (fs_leaks ms c) (fs_proves ms c) (fs_reasons ms c) r"
    by (rule fs_judge_verdict)
  show "fs_proves ms c \<Longrightarrow> \<not> fs_leaks ms c"
    by (auto simp: fs_leaks_def fs_proves_iff Let_def fs_values_Some)
  show "\<not> fs_proves ms c \<Longrightarrow> \<not> fs_leaks ms c \<Longrightarrow> fs_reasons ms c \<noteq> []"
    by (auto simp: fs_leaks_def fs_proves_iff fs_reasons_def Let_def fs_values_Some later_control_failures_Nil
        some_and_eq split: option.splits if_splits)
qed

end
