(* ===== verification/Diag_Native.thy ===== *)
theory Diag_Native
  imports Diag_Interfaces
begin

text \<open>
  The native measurement of one run and its evaluation (\<^verbatim>\<open>lib.rs\<close>, \<^verbatim>\<open>binding.rs\<close>, \<^verbatim>\<open>native_raw.rs\<close> and
  \<^verbatim>\<open>native_pair.rs\<close> of \<^verbatim>\<open>crates/diagnostic-model/src/\<close>): interface ioctls and lists, socket binding, and
  the pairing of the root-controlled evaluation with the worker's own unfiltered sample.
\<close>

section \<open>Socket binding observations\<close>

datatype bind_actor = BindLibc | BindSyscall

definition all_bind_actors :: "bind_actor list" where
  "all_bind_actors = [BindLibc, BindSyscall]"

record bind_attempt =
  ba_initial :: "string sample"
  ba_set :: "u32 sample"
  ba_final :: "string sample"

definition attempt_bounded :: "bind_attempt \<Rightarrow> bool" where
  "attempt_bounded a =
     list_all (\<lambda>v. none_or (\<lambda>name. length name \<le> 15 \<and> is_ascii name \<and> \<not> list_ex is_ascii_control name) (value_of v))
       [ba_initial a, ba_final a]"

definition starts_unbound :: "bind_attempt \<Rightarrow> bool" where
  "starts_unbound a = (value_of (ba_initial a) = Some [])"

definition bound_to :: "string \<Rightarrow> bind_attempt \<Rightarrow> bool" where
  "bound_to name a = (starts_unbound a \<and> value_of (ba_set a) = Some 0 \<and> value_of (ba_final a) = Some name)"

definition no_device :: "'a sample \<Rightarrow> bool" where
  "no_device s = (s = Failed (Errno 19) \<or> s = Failed (Errno 6))"

definition attempt_absent :: "bind_attempt \<Rightarrow> bool" where
  "attempt_absent a = (starts_unbound a \<and> value_of (ba_final a) = Some [] \<and> no_device (ba_set a))"

definition attempt_protected :: "bind_attempt \<Rightarrow> bool" where
  "attempt_protected a =
     (starts_unbound a \<and> value_of (ba_final a) = Some [] \<and> (value_of (ba_set a) = Some 0 \<or> no_device (ba_set a)))"

record bind_measurement =
  bm_libc_fixture :: bind_attempt
  bm_libc_ordinary :: bind_attempt
  bm_syscall_fixture :: bind_attempt
  bm_syscall_ordinary :: bind_attempt

definition bind_bounded :: "bind_measurement \<Rightarrow> bool" where
  "bind_bounded m =
     list_all attempt_bounded [bm_libc_fixture m, bm_libc_ordinary m, bm_syscall_fixture m, bm_syscall_ordinary m]"

fun bind_of :: "bind_measurement \<Rightarrow> bind_actor \<Rightarrow> bind_attempt \<times> bind_attempt" where
  "bind_of m BindLibc = (bm_libc_fixture m, bm_libc_ordinary m)"
| "bind_of m BindSyscall = (bm_syscall_fixture m, bm_syscall_ordinary m)"


section \<open>The measurement\<close>

record native_measurement =
  nm_filesystem :: "fs_observation list option"
  nm_sys_interfaces :: "sys_observation list option"
  nm_proc_interfaces :: "proc_actor_measurement list option"
  nm_addresses :: "address_measurement option"
  nm_binding :: "bind_measurement option"
  nm_flags :: "u32 sample"
  nm_mtu :: "u32 sample"
  nm_ifaddrs :: "observed_interface list sample"
  nm_links :: "observed_interface list sample"
  nm_ordinary_flags :: "u32 sample"
  nm_ordinary_mtu :: "u32 sample"

definition nm_unavailable :: "probe_error \<Rightarrow> native_measurement" where
  "nm_unavailable e =
     \<lparr>nm_filesystem = None, nm_sys_interfaces = None, nm_proc_interfaces = None, nm_addresses = None,
      nm_binding = None, nm_flags = Failed e, nm_mtu = Failed e, nm_ifaddrs = Failed e, nm_links = Failed e,
      nm_ordinary_flags = Failed e, nm_ordinary_mtu = Failed e\<rparr>"

definition coherent :: "observed_interface list \<Rightarrow> bool" where
  "coherent entries = (distinct (map oi_name entries) \<and> distinct (List.map_filter oi_index entries))"

definition interfaces_bounded :: "observed_interface list \<Rightarrow> bool" where
  "interfaces_bounded entries =
     (length entries \<le> MAX_INTERFACES \<and> coherent entries
      \<and> list_all (\<lambda>e. name_bounded (oi_name e) \<and> none_or (\<lambda>i. 0 < i \<and> i \<le> I32_MAX) (oi_index e)
           \<and> none_or (\<lambda>m. length (im_families m) \<le> 32 \<and> length (im_flags m) \<le> 8) (oi_ifaddrs e)) entries)"

definition nm_bounded :: "native_measurement \<Rightarrow> bool" where
  "nm_bounded m =
     (none_or fs_bounded (nm_filesystem m) \<and> none_or sys_bounded (nm_sys_interfaces m)
      \<and> none_or proc_bounded (nm_proc_interfaces m) \<and> none_or address_bounded (nm_addresses m)
      \<and> none_or bind_bounded (nm_binding m)
      \<and> list_all (\<lambda>s. none_or interfaces_bounded (value_of s)) [nm_ifaddrs m, nm_links m])"

datatype native_check = IoctlFlags | IoctlMtu | Getifaddrs | NetlinkGetlink

definition all_native_checks :: "native_check list" where
  "all_native_checks = [IoctlFlags, IoctlMtu, Getifaddrs, NetlinkGetlink]"

datatype scoped_native =
    NativeProven "native_check list"
  | NativeLeaked "native_check list" "control_failure list"
  | NativeUnverified control_failure "native_check list"

definition absent_lists :: "native_fixture_spec \<Rightarrow> native_measurement \<Rightarrow> bool" where
  "absent_lists spec m =
     list_all (\<lambda>s. some_and (list_all (\<lambda>e. oi_name e \<noteq> if_name (sp_interface spec)
         \<and> oi_index e \<noteq> Some (if_index (sp_interface spec)))) (value_of s)) [nm_ifaddrs m, nm_links m]"

definition ordinary_preserved :: "native_fixture_spec \<Rightarrow> native_measurement \<Rightarrow> bool" where
  "ordinary_preserved spec m =
     (value_of (nm_ordinary_flags m) = Some (oc_flags (sp_ordinary spec))
      \<and> value_of (nm_ordinary_mtu m) = Some (oc_mtu (sp_ordinary spec))
      \<and> list_all (\<lambda>s. some_and (list_ex (\<lambda>e. oi_matches e (oc_interface (sp_ordinary spec)))) (value_of s))
          [nm_ifaddrs m, nm_links m])"

definition native_positive :: "native_fixture_spec \<Rightarrow> native_measurement \<Rightarrow> bool" where
  "native_positive spec m =
     (value_of (nm_flags m) = Some (sp_flags spec) \<and> value_of (nm_mtu m) = Some (sp_mtu spec)
      \<and> list_all (\<lambda>s. some_and (list_ex (\<lambda>e. oi_matches e (sp_interface spec))) (value_of s)) [nm_ifaddrs m, nm_links m]
      \<and> ordinary_preserved spec m)"

definition cleanup_confirmed :: "native_fixture_spec \<Rightarrow> native_measurement \<Rightarrow> bool" where
  "cleanup_confirmed spec m =
     (spec_valid spec \<and> nm_bounded m \<and> no_device (nm_flags m) \<and> no_device (nm_mtu m)
      \<and> absent_lists spec m \<and> ordinary_preserved spec m)"


section \<open>Interface checks\<close>

type_synonym native_findings = "native_check list \<times> control_failure list"

definition add_reason :: "control_failure \<Rightarrow> control_failure list \<Rightarrow> control_failure list" where
  "add_reason f fs = (if f \<in> set fs then fs else fs @ [f])"

definition native_scalar :: "native_check \<Rightarrow> u32 sample \<Rightarrow> native_findings \<Rightarrow> native_findings" where
  "native_scalar check s p =
     (case p of (leaked, incomplete) \<Rightarrow>
        if no_device s then p
        else if value_of s \<noteq> None then (leaked @ [check], incomplete)
        else (leaked, add_reason ProbeUnavailable incomplete))"

definition native_list :: "native_fixture_spec \<Rightarrow> native_check \<Rightarrow> observed_interface list sample \<Rightarrow> native_findings \<Rightarrow> native_findings" where
  "native_list spec check s p =
     (case p of (leaked, incomplete) \<Rightarrow>
        (case value_of s of
           None \<Rightarrow> (leaked, add_reason ProbeUnavailable incomplete)
         | Some entries \<Rightarrow>
             ((if list_ex (\<lambda>e. oi_name e = if_name (sp_interface spec) \<or> oi_index e = Some (if_index (sp_interface spec))) entries
               then leaked @ [check] else leaked),
              (if list_ex (\<lambda>e. oi_index e = None) entries then add_reason ProbeUnavailable incomplete else incomplete))))"

definition worker_control :: "native_fixture_spec \<Rightarrow> native_measurement \<Rightarrow> control_failure list \<Rightarrow> control_failure list" where
  "worker_control spec worker incomplete =
     (if value_of (nm_ordinary_flags worker) = None \<or> value_of (nm_ordinary_mtu worker) = None
         \<or> value_of (nm_ifaddrs worker) = None \<or> value_of (nm_links worker) = None
      then add_reason ProbeUnavailable incomplete
      else if \<not> ordinary_preserved spec worker then add_reason OrdinaryObjectsChanged incomplete
      else incomplete)"

definition native_findings :: "native_fixture_spec \<Rightarrow> native_measurement \<Rightarrow> native_measurement \<Rightarrow> native_findings" where
  "native_findings spec worker cleanup =
     native_list spec NetlinkGetlink (nm_links worker)
       (native_list spec Getifaddrs (nm_ifaddrs worker)
         (native_scalar IoctlMtu (nm_mtu worker)
           (native_scalar IoctlFlags (nm_flags worker)
             ([], worker_control spec worker (if cleanup_confirmed spec cleanup then [] else [CleanupUnconfirmed])))))"

definition evaluate_native_fixture :: "native_fixture_spec \<Rightarrow> native_measurement five \<Rightarrow> scoped_native" where
  "evaluate_native_fixture spec ms =
     (if \<not> spec_valid spec \<or> any3 (\<lambda>m. \<not> nm_bounded m) ms then NativeUnverified InvalidSpec []
      else if \<not> no_device (nm_flags (s_negative ms)) \<or> \<not> no_device (nm_mtu (s_negative ms))
              \<or> \<not> absent_lists spec (s_negative ms) \<or> \<not> ordinary_preserved spec (s_negative ms)
      then NativeUnverified MissingNegativeControl []
      else if \<not> native_positive spec (s_start ms) then NativeUnverified MissingPositiveControl []
      else
        (case native_findings spec (s_worker ms) (s_cleanup ms) of (leaked, incomplete) \<Rightarrow>
           if any2 (\<lambda>m. \<not> nm_bounded m) ms then NativeUnverified InvalidSpec leaked
           else if \<not> native_positive spec (s_end ms) then NativeUnverified FixtureChanged leaked
           else if leaked \<noteq> [] then NativeLeaked leaked incomplete
           else (case incomplete of reason # _ \<Rightarrow> NativeUnverified reason []
                 | [] \<Rightarrow> NativeProven all_native_checks)))"


section \<open>Socket binding\<close>

definition bind_judge :: "native_fixture_spec \<Rightarrow> native_measurement five \<Rightarrow> bind_measurement \<times> bind_measurement \<times> bind_measurement \<Rightarrow>
    bind_actor \<Rightarrow> bind_actor scoped \<Rightarrow> bind_actor scoped" where
  "bind_judge spec ms t actor r =
     (case t of (negative, start, worker) \<Rightarrow>
      case (bind_of negative actor, bind_of start actor, bind_of worker actor) of ((n, no), (s, so), (w, wo)) \<Rightarrow>
        if \<not> attempt_absent n \<or> \<not> bound_to ''lo'' no then problem MissingNegativeControl r
        else if \<not> native_positive spec (s_start ms) \<or> \<not> bound_to (if_name (sp_interface spec)) s \<or> \<not> bound_to ''lo'' so
        then problem MissingPositiveControl r
        else
          let leaked = list_ex (\<lambda>v. value_of v = Some (if_name (sp_interface spec))) [ba_initial w, ba_final w];
              r1 = (if leaked then leak actor r else r);
              r2 = (if starts_unbound w then r1 else problem ProbeUnavailable r1);
              end_valid = (native_positive spec (s_end ms)
                 \<and> some_and (\<lambda>e. bind_bounded e \<and> bound_to (if_name (sp_interface spec)) (fst (bind_of e actor))
                                 \<and> bound_to ''lo'' (snd (bind_of e actor))) (nm_binding (s_end ms)));
              r3 = (if end_valid then r2 else problem FixtureChanged r2);
              cleanup_valid = (cleanup_confirmed spec (s_cleanup ms)
                 \<and> some_and (\<lambda>c. bind_bounded c \<and> attempt_absent (fst (bind_of c actor))
                                 \<and> bound_to ''lo'' (snd (bind_of c actor))) (nm_binding (s_cleanup ms)));
              r4 = (if cleanup_valid then r3 else problem CleanupUnconfirmed r3);
              available = (value_of (ba_initial wo) \<noteq> None \<and> value_of (ba_final wo) \<noteq> None \<and> value_of (ba_set wo) = Some 0);
              r5 = (if bound_to ''lo'' wo then r4
                    else problem (if available then OrdinaryObjectsChanged else ProbeUnavailable) r4);
              unclear = (\<not> leaked \<and> \<not> attempt_protected w);
              r6 = (if unclear then problem ProbeUnavailable r5 else r5)
          in if starts_unbound w \<and> end_valid \<and> cleanup_valid \<and> bound_to ''lo'' wo \<and> \<not> unclear \<and> \<not> leaked
             then prove actor r6 else r6)"

definition evaluate_bind_fixture :: "native_fixture_spec \<Rightarrow> native_measurement five \<Rightarrow> bind_actor scoped" where
  "evaluate_bind_fixture spec ms =
     (if \<not> spec_valid spec then problem InvalidSpec scoped_default
      else
        (case three (map5 nm_binding ms) of
           None \<Rightarrow> problem ProbeUnavailable scoped_default
         | Some (n, s, w) \<Rightarrow>
             if \<not> bind_bounded n \<or> \<not> bind_bounded s \<or> \<not> bind_bounded w then problem InvalidSpec scoped_default
             else fold (bind_judge spec ms (n, s, w)) all_bind_actors scoped_default))"


section \<open>Pairing with the worker's unfiltered sample\<close>

record paired_native =
  pn_filesystem :: "fs_check scoped"
  pn_sys_interfaces :: "sys_check scoped"
  pn_native :: scoped_native
  pn_addresses :: "address_check scoped"
  pn_binding :: "bind_actor scoped"
  pn_proc_interfaces :: "proc_check scoped"

definition push_new :: "'a list \<Rightarrow> 'a list \<Rightarrow> 'a list" where
  "push_new = fold (\<lambda>v xs. if v \<in> set xs then xs else xs @ [v])"

definition merge :: "'c scoped \<Rightarrow> 'c scoped \<Rightarrow> 'c scoped" where
  "merge root app =
     (let leaked = push_new (sr_leaked app) (sr_leaked root)
      in \<lparr>sr_proven = filter (\<lambda>v. v \<notin> set leaked) (filter (\<lambda>v. v \<in> set (sr_proven app)) (sr_proven root)),
          sr_leaked = leaked,
          sr_controls = push_new (sr_controls app) (sr_controls root)\<rparr>)"

fun native_leaks :: "scoped_native \<Rightarrow> native_check list" where
  "native_leaks (NativeProven _) = []"
| "native_leaks (NativeLeaked checks _) = checks"
| "native_leaks (NativeUnverified _ observed) = observed"

fun native_controls :: "scoped_native \<Rightarrow> control_failure list" where
  "native_controls (NativeProven _) = []"
| "native_controls (NativeLeaked _ incomplete) = incomplete"
| "native_controls (NativeUnverified reason _) = [reason]"

fun native_merge :: "scoped_native \<Rightarrow> scoped_native \<Rightarrow> scoped_native" where
  "native_merge (NativeProven checks) app =
     (case app of NativeProven app_checks \<Rightarrow> NativeProven (filter (\<lambda>c. c \<in> set app_checks) checks) | other \<Rightarrow> other)"
| "native_merge (NativeLeaked checks incomplete) app =
     NativeLeaked (push_new (native_leaks app) checks) (push_new (native_controls app) incomplete)"
| "native_merge (NativeUnverified reason observed) app =
     NativeUnverified reason (push_new (native_leaks app) observed)"

definition with_raw :: "native_measurement five \<Rightarrow> native_measurement option \<Rightarrow> native_measurement five" where
  "with_raw samples app_raw =
     samples\<lparr>s_start := (case app_raw of Some m \<Rightarrow> m | None \<Rightarrow> nm_unavailable Unsupported)\<rparr>"

definition evaluate_paired_native_fixture ::
    "native_fixture_spec \<Rightarrow> native_measurement five \<Rightarrow> native_measurement option \<Rightarrow> paired_native" where
  "evaluate_paired_native_fixture spec samples app_raw =
     (let app = with_raw samples app_raw
      in \<lparr>pn_filesystem = merge (evaluate_filesystem_fixture spec (map5 nm_filesystem samples))
                                 (evaluate_filesystem_fixture spec (map5 nm_filesystem app)),
          pn_sys_interfaces = merge (evaluate_sys_interface_fixture spec (map5 nm_sys_interfaces samples))
                                    (evaluate_sys_interface_fixture spec (map5 nm_sys_interfaces app)),
          pn_native = native_merge (evaluate_native_fixture spec samples) (evaluate_native_fixture spec app),
          pn_addresses = merge (evaluate_native_address_fixture spec (map5 nm_addresses samples))
                               (evaluate_native_address_fixture spec (map5 nm_addresses app)),
          pn_binding = merge (evaluate_bind_fixture spec samples) (evaluate_bind_fixture spec app),
          pn_proc_interfaces = merge (evaluate_native_proc_interface_fixture spec (map5 nm_proc_interfaces samples))
                                     (evaluate_native_proc_interface_fixture spec (map5 nm_proc_interfaces app))\<rparr>)"

record thread_identity =
  ti_uid :: u32
  ti_pid :: u32
  ti_process_start_ticks :: u64
  ti_tid :: u32
  ti_thread_start_ticks :: u64

datatype native_raw_stage = Arm | Registration | Activation | Measurement | Revocation

datatype native_raw_receipt =
    UnsupportedBackend thread_identity
  | CapabilityAbsent thread_identity
  | RawFailed thread_identity native_raw_stage "native_measurement option"
  | Paired thread_identity native_measurement

fun qualified_sample :: "native_raw_receipt \<Rightarrow> native_measurement option" where
  "qualified_sample (Paired i m) =
     (if 10000 \<le> ti_uid i \<and> 0 < ti_pid i \<and> 0 < ti_tid i \<and> 0 < ti_process_start_ticks i
         \<and> 0 < ti_thread_start_ticks i \<and> nm_bounded m
      then Some m else None)"
| "qualified_sample _ = None"



section \<open>What the interface evaluation establishes\<close>

text \<open>The worker saw the fixture through this check.\<close>

fun worker_sees :: "native_fixture_spec \<Rightarrow> native_measurement \<Rightarrow> native_check \<Rightarrow> bool" where
  "worker_sees spec w IoctlFlags = (value_of (nm_flags w) \<noteq> None)"
| "worker_sees spec w IoctlMtu = (value_of (nm_mtu w) \<noteq> None)"
| "worker_sees spec w Getifaddrs =
     some_and (list_ex (\<lambda>e. oi_name e = if_name (sp_interface spec) \<or> oi_index e = Some (if_index (sp_interface spec))))
       (value_of (nm_ifaddrs w))"
| "worker_sees spec w NetlinkGetlink =
     some_and (list_ex (\<lambda>e. oi_name e = if_name (sp_interface spec) \<or> oi_index e = Some (if_index (sp_interface spec))))
       (value_of (nm_links w))"

text \<open>The fixture was absent before it was created and visible to root once it was.\<close>

definition native_qualified :: "native_fixture_spec \<Rightarrow> native_measurement five \<Rightarrow> bool" where
  "native_qualified spec ms \<longleftrightarrow>
     spec_valid spec \<and> \<not> any3 (\<lambda>m. \<not> nm_bounded m) ms
     \<and> no_device (nm_flags (s_negative ms)) \<and> no_device (nm_mtu (s_negative ms))
     \<and> absent_lists spec (s_negative ms) \<and> ordinary_preserved spec (s_negative ms)
     \<and> native_positive spec (s_start ms)"

text \<open>The worker's view is complete, keeps the ordinary objects, and lacks the fixture.\<close>

definition worker_clean :: "native_fixture_spec \<Rightarrow> native_measurement \<Rightarrow> bool" where
  "worker_clean spec w \<longleftrightarrow>
     no_device (nm_flags w) \<and> no_device (nm_mtu w) \<and> absent_lists spec w \<and> ordinary_preserved spec w
     \<and> list_all (\<lambda>s. some_and (list_all (\<lambda>e. oi_index e \<noteq> None)) (value_of s)) [nm_ifaddrs w, nm_links w]"

lemma no_device_None: "no_device s \<Longrightarrow> value_of s = None"
  by (auto simp: no_device_def)

lemma native_scalar_simp:
  "native_scalar c s (l, i) =
     (l @ (if value_of s \<noteq> None then [c] else []),
      if value_of s = None \<and> \<not> no_device s then add_reason ProbeUnavailable i else i)"
  by (auto simp: native_scalar_def dest: no_device_None)

lemma native_list_simp:
  "native_list spec c s (l, i) =
     (l @ (if some_and (list_ex (\<lambda>e. oi_name e = if_name (sp_interface spec)
                \<or> oi_index e = Some (if_index (sp_interface spec)))) (value_of s) then [c] else []),
      if some_and (list_all (\<lambda>e. oi_index e \<noteq> None)) (value_of s) then i else add_reason ProbeUnavailable i)"
  by (cases "value_of s") (auto simp: native_list_def list_ex_iff list_all_iff)

lemma add_reason_not_Nil [simp]: "add_reason f i \<noteq> []"
  by (auto simp: add_reason_def)

lemma native_findings_leaked: "fst (native_findings spec w c) = filter (worker_sees spec w) all_native_checks"
  by (simp add: native_findings_def native_scalar_simp native_list_simp all_native_checks_def)

lemma ordinary_preserved_read:
  "ordinary_preserved spec w \<Longrightarrow> value_of (nm_ordinary_flags w) \<noteq> None \<and> value_of (nm_ordinary_mtu w) \<noteq> None
     \<and> value_of (nm_ifaddrs w) \<noteq> None \<and> value_of (nm_links w) \<noteq> None"
  by (auto simp: ordinary_preserved_def split: option.splits)

lemma worker_control_Nil:
  "worker_control spec w i = [] \<longleftrightarrow> i = [] \<and> ordinary_preserved spec w"
  using ordinary_preserved_read [of spec w] by (auto simp: worker_control_def)

lemma native_findings_empty:
  "native_findings spec w c = ([], []) \<longleftrightarrow> cleanup_confirmed spec c \<and> worker_clean spec w"
proof -
  have neg: "list_ex (\<lambda>e. oi_name e = n \<or> oi_index e = Some k) es \<longleftrightarrow> \<not> list_all (\<lambda>e. oi_name e \<noteq> n \<and> oi_index e \<noteq> Some k) es"
    for n k es by (auto simp: list_ex_iff list_all_iff)
  show ?thesis
    by (cases "value_of (nm_ifaddrs w)"; cases "value_of (nm_links w)")
       (auto simp: native_findings_def native_scalar_simp native_list_simp worker_control_Nil worker_clean_def
          absent_lists_def neg dest: no_device_None split: if_splits)
qed

lemma evaluate_native_qualified:
  assumes "native_qualified spec ms" "native_findings spec (s_worker ms) (s_cleanup ms) = (l, i)"
  shows "evaluate_native_fixture spec ms =
     (if any2 (\<lambda>m. \<not> nm_bounded m) ms then NativeUnverified InvalidSpec l
      else if \<not> native_positive spec (s_end ms) then NativeUnverified FixtureChanged l
      else if l \<noteq> [] then NativeLeaked l i
      else (case i of reason # _ \<Rightarrow> NativeUnverified reason [] | [] \<Rightarrow> NativeProven all_native_checks))"
  using assms by (auto simp: evaluate_native_fixture_def native_qualified_def)

lemma evaluate_native_unqualified:
  "\<not> native_qualified spec ms \<Longrightarrow> \<exists>reason. evaluate_native_fixture spec ms = NativeUnverified reason []"
  by (auto simp: evaluate_native_fixture_def native_qualified_def)

lemma native_leaks_exact:
  "native_leaks (evaluate_native_fixture spec ms) =
     (if native_qualified spec ms then filter (worker_sees spec (s_worker ms)) all_native_checks else [])"
proof (cases "native_qualified spec ms")
  case True
  obtain l i where f: "native_findings spec (s_worker ms) (s_cleanup ms) = (l, i)" by (cases "native_findings spec (s_worker ms) (s_cleanup ms)")
  then have "l = filter (worker_sees spec (s_worker ms)) all_native_checks"
    using native_findings_leaked [of spec "s_worker ms" "s_cleanup ms"] by simp
  then show ?thesis using True by (simp add: evaluate_native_qualified [OF True f] split: list.splits)
qed (auto dest: evaluate_native_unqualified)

text \<open>
  C14. The verdict on the four interface checks.  Once the fixture is qualified, exactly the checks
  through which the worker saw it are reported as leaks, whatever the later samples of the run are,
  even when they are malformed; and a proof is given exactly when in addition the worker's view is
  complete and clean, root still saw the fixture at the end, and its removal was confirmed.
\<close>

theorem native_verdict_exact:
  "native_leaks (evaluate_native_fixture spec ms) =
     (if native_qualified spec ms then filter (worker_sees spec (s_worker ms)) all_native_checks else [])
   \<and> ((\<exists>cs. evaluate_native_fixture spec ms = NativeProven cs) \<longleftrightarrow>
       native_qualified spec ms \<and> worker_clean spec (s_worker ms) \<and> nm_bounded (s_end ms)
       \<and> native_positive spec (s_end ms) \<and> cleanup_confirmed spec (s_cleanup ms))"
proof (rule conjI [OF native_leaks_exact])
  obtain l i where f: "native_findings spec (s_worker ms) (s_cleanup ms) = (l, i)" by (cases "native_findings spec (s_worker ms) (s_cleanup ms)")
  have e: "l = [] \<and> i = [] \<longleftrightarrow> cleanup_confirmed spec (s_cleanup ms) \<and> worker_clean spec (s_worker ms)"
    using native_findings_empty [of spec "s_worker ms" "s_cleanup ms"] f by simp
  have b: "cleanup_confirmed spec (s_cleanup ms) \<Longrightarrow> nm_bounded (s_cleanup ms)" by (simp add: cleanup_confirmed_def)
  show "(\<exists>cs. evaluate_native_fixture spec ms = NativeProven cs) \<longleftrightarrow>
       native_qualified spec ms \<and> worker_clean spec (s_worker ms) \<and> nm_bounded (s_end ms)
       \<and> native_positive spec (s_end ms) \<and> cleanup_confirmed spec (s_cleanup ms)"
  proof (cases "native_qualified spec ms")
    case True
    then show ?thesis using b e by (auto simp: evaluate_native_qualified [OF True f] any2_def split: list.splits)
  qed (auto dest: evaluate_native_unqualified)
qed


section \<open>Later samples and pairing\<close>

definition agree3 :: "'a five \<Rightarrow> 'a five \<Rightarrow> bool" where
  "agree3 s s' \<longleftrightarrow> s_negative s = s_negative s' \<and> s_start s = s_start s' \<and> s_worker s = s_worker s'"

lemma agree3_map5: "agree3 s s' \<Longrightarrow> agree3 (map5 f s) (map5 f s')"
  by (simp add: agree3_def)

lemma agree3_three: "agree3 s s' \<Longrightarrow> three s = three s'"
  by (simp add: agree3_def three_def)

lemma agree3_any3: "agree3 s s' \<Longrightarrow> any3 P s = any3 P s'"
  by (simp add: agree3_def any3_def)

lemmas agree3_intros = agree3_map5 agree3_three agree3_any3

lemma address_leaks_agree: "agree3 s s' \<Longrightarrow> address_leaks spec s = address_leaks spec s'"
  by (rule ext) (auto simp: address_leaks_def address_verdict_def ioctl_leaks_def ifconf_leaks_def lists_leaks_def
      ioctl_samples_def ifconf_samples_def list_samples_def actor_samples_def
      agree3_three [OF agree3_map5 [OF agree3_map5]] agree3_three [OF agree3_map5 [OF agree3_map5 [OF agree3_map5]]]
      agree3_three [OF agree3_map5] split: option.splits)

lemma proc_leaks_agree: "agree3 s s' \<Longrightarrow> proc_leaks spec s = proc_leaks spec s'"
  by (rule ext) (auto simp: proc_leaks_def proc_verdict_def controlled_leaks_def proc_samples_def
      agree3_three [OF agree3_map5 [OF agree3_map5]] split: proc_surface.splits)

lemma sys_leaks_agree: "agree3 s s' \<Longrightarrow> sys_leaks spec s = sys_leaks spec s'"
  by (rule ext) (simp add: sys_leaks_def controlled_leaks_def sys_samples_def agree3_three [OF agree3_map5])

lemma fs_leaks_agree: "agree3 s s' \<Longrightarrow> fs_leaks s = fs_leaks s'"
  by (rule ext) (simp add: fs_leaks_def fs_samples_def agree3_def Let_def)

lemma unbounded_later_sel [simp]: "sr_proven (unbounded_later b ms) = []" "sr_leaked (unbounded_later b ms) = []"
  by (simp_all add: unbounded_later_def)

lemma address_leaked:
  "sr_leaked (evaluate_address_fixture spec ms) =
     (if spec_valid spec \<and> \<not> any3 (\<lambda>m. \<not> address_bounded m) ms
      then filter (address_leaks spec (map5 (\<lambda>m. if address_bounded m then Some m else None) ms)) address_order else [])"
  using address.fold_leaked by (auto simp: evaluate_address_fixture_judge [OF _ _ refl])
     (auto simp: evaluate_address_fixture_def)

lemma proc_leaked:
  "sr_leaked (evaluate_proc_interface_fixture spec ms) =
     (if spec_valid spec \<and> \<not> any3 (\<lambda>m. \<not> proc_bounded m) ms
      then filter (proc_leaks spec (map5 (\<lambda>m. if proc_bounded m then Some m else None) ms)) proc_required else [])"
  using procs.fold_leaked by (auto simp: evaluate_proc_judge [OF _ _ refl])
     (auto simp: evaluate_proc_interface_fixture_def)


type_synonym bind_three = "bind_measurement \<times> bind_measurement \<times> bind_measurement"

definition bind_qualified :: "native_fixture_spec \<Rightarrow> native_measurement \<Rightarrow> bind_three \<Rightarrow> bind_actor \<Rightarrow> bool" where
  "bind_qualified spec start t actor =
     (case t of (n, s, _) \<Rightarrow>
        attempt_absent (fst (bind_of n actor)) \<and> bound_to ''lo'' (snd (bind_of n actor))
        \<and> native_positive spec start \<and> bound_to (if_name (sp_interface spec)) (fst (bind_of s actor))
        \<and> bound_to ''lo'' (snd (bind_of s actor)))"

definition bind_sees :: "native_fixture_spec \<Rightarrow> bind_three \<Rightarrow> bind_actor \<Rightarrow> bool" where
  "bind_sees spec t actor =
     (case t of (_, _, w) \<Rightarrow>
        value_of (ba_initial (fst (bind_of w actor))) = Some (if_name (sp_interface spec))
        \<or> value_of (ba_final (fst (bind_of w actor))) = Some (if_name (sp_interface spec)))"

definition bind_leaks :: "native_fixture_spec \<Rightarrow> native_measurement five \<Rightarrow> bind_three \<Rightarrow> bind_actor \<Rightarrow> bool" where
  "bind_leaks spec ms t actor = (bind_qualified spec (s_start ms) t actor \<and> bind_sees spec t actor)"

definition bind_end_valid :: "native_fixture_spec \<Rightarrow> native_measurement five \<Rightarrow> bind_actor \<Rightarrow> bool" where
  "bind_end_valid spec ms actor =
     (native_positive spec (s_end ms)
      \<and> some_and (\<lambda>e. bind_bounded e \<and> bound_to (if_name (sp_interface spec)) (fst (bind_of e actor))
                      \<and> bound_to ''lo'' (snd (bind_of e actor))) (nm_binding (s_end ms)))"

definition bind_cleanup_valid :: "native_fixture_spec \<Rightarrow> native_measurement five \<Rightarrow> bind_actor \<Rightarrow> bool" where
  "bind_cleanup_valid spec ms actor =
     (cleanup_confirmed spec (s_cleanup ms)
      \<and> some_and (\<lambda>c. bind_bounded c \<and> attempt_absent (fst (bind_of c actor))
                      \<and> bound_to ''lo'' (snd (bind_of c actor))) (nm_binding (s_cleanup ms)))"

definition bind_proves :: "native_fixture_spec \<Rightarrow> native_measurement five \<Rightarrow> bind_three \<Rightarrow> bind_actor \<Rightarrow> bool" where
  "bind_proves spec ms t actor =
     (bind_qualified spec (s_start ms) t actor \<and> \<not> bind_sees spec t actor
      \<and> bind_end_valid spec ms actor \<and> bind_cleanup_valid spec ms actor
      \<and> (case t of (_, _, w) \<Rightarrow> attempt_protected (fst (bind_of w actor)) \<and> bound_to ''lo'' (snd (bind_of w actor))))"

definition bind_reasons :: "native_fixture_spec \<Rightarrow> native_measurement five \<Rightarrow> bind_three \<Rightarrow> bind_actor \<Rightarrow> control_failure list" where
  "bind_reasons spec ms t actor =
     (case t of (n, s, w) \<Rightarrow>
        if \<not> attempt_absent (fst (bind_of n actor)) \<or> \<not> bound_to ''lo'' (snd (bind_of n actor)) then [MissingNegativeControl]
        else if \<not> bind_qualified spec (s_start ms) t actor then [MissingPositiveControl]
        else
          let f = fst (bind_of w actor); wo = snd (bind_of w actor)
          in (if starts_unbound f then [] else [ProbeUnavailable])
             @ (if bind_end_valid spec ms actor then [] else [FixtureChanged])
             @ (if bind_cleanup_valid spec ms actor then [] else [CleanupUnconfirmed])
             @ (if bound_to ''lo'' wo then []
                else [if value_of (ba_initial wo) \<noteq> None \<and> value_of (ba_final wo) \<noteq> None \<and> value_of (ba_set wo) = Some 0
                      then OrdinaryObjectsChanged else ProbeUnavailable])
             @ (if \<not> bind_sees spec t actor \<and> \<not> attempt_protected f then [ProbeUnavailable] else []))"

lemmas bind_valid_defs = bind_end_valid_def bind_cleanup_valid_def

lemma attempt_protected_unbound: "attempt_protected a \<Longrightarrow> starts_unbound a"
  by (simp add: attempt_protected_def)

lemma bind_judge_verdict:
  "bind_judge spec ms t c r = verdict c (bind_leaks spec ms t c) (bind_proves spec ms t c) (bind_reasons spec ms t c) r"
proof -
  obtain n s w where t: "t = (n, s, w)" by (cases t)
  obtain a b d e f g where d: "bind_of n c = (a, b)" "bind_of s c = (d, e)" "bind_of w c = (f, g)"
    by (cases "bind_of n c"; cases "bind_of s c"; cases "bind_of w c")
  show ?thesis
  proof (cases "bind_qualified spec (s_start ms) t c")
    case True
    then have q: "attempt_absent a" "bound_to ''lo'' b" "native_positive spec (s_start ms)"
      "bound_to (if_name (sp_interface spec)) d" "bound_to ''lo'' e" by (simp_all add: bind_qualified_def t d)
    have l: "bind_sees spec t c = list_ex (\<lambda>v. value_of v = Some (if_name (sp_interface spec))) [ba_initial f, ba_final f]"
      by (simp add: bind_sees_def t d)
    have "bind_judge spec ms t c r =
       (let leaked = bind_sees spec t c;
            r1 = (if leaked then leak c r else r);
            r2 = (if starts_unbound f then r1 else problem ProbeUnavailable r1);
            end_valid = bind_end_valid spec ms c;
            r3 = (if end_valid then r2 else problem FixtureChanged r2);
            cleanup_valid = bind_cleanup_valid spec ms c;
            r4 = (if cleanup_valid then r3 else problem CleanupUnconfirmed r3);
            available = (value_of (ba_initial g) \<noteq> None \<and> value_of (ba_final g) \<noteq> None \<and> value_of (ba_set g) = Some 0);
            r5 = (if bound_to ''lo'' g then r4
                  else problem (if available then OrdinaryObjectsChanged else ProbeUnavailable) r4);
            unclear = (\<not> leaked \<and> \<not> attempt_protected f);
            r6 = (if unclear then problem ProbeUnavailable r5 else r5)
        in if starts_unbound f \<and> end_valid \<and> cleanup_valid \<and> bound_to ''lo'' g \<and> \<not> unclear \<and> \<not> leaked
           then prove c r6 else r6)"
      unfolding bind_judge_def l bind_valid_defs
      by (simp only: t prod.case d q not_True_eq_False simp_thms if_False)
    moreover have "bind_leaks spec ms t c = bind_sees spec t c"
      using True by (simp add: bind_leaks_def)
    moreover have "bind_proves spec ms t c =
       (\<not> bind_sees spec t c \<and> bind_end_valid spec ms c \<and> bind_cleanup_valid spec ms c
        \<and> attempt_protected f \<and> bound_to ''lo'' g)"
      using True by (simp add: bind_proves_def t d)
    moreover have "bind_reasons spec ms t c =
       (if starts_unbound f then [] else [ProbeUnavailable])
       @ (if bind_end_valid spec ms c then [] else [FixtureChanged])
       @ (if bind_cleanup_valid spec ms c then [] else [CleanupUnconfirmed])
       @ (if bound_to ''lo'' g then []
          else [if value_of (ba_initial g) \<noteq> None \<and> value_of (ba_final g) \<noteq> None \<and> value_of (ba_set g) = Some 0
                then OrdinaryObjectsChanged else ProbeUnavailable])
       @ (if \<not> bind_sees spec t c \<and> \<not> attempt_protected f then [ProbeUnavailable] else [])"
      using True q by (simp add: bind_reasons_def t d Let_def)
    ultimately show ?thesis
      using attempt_protected_unbound [of f] unfolding verdict_def Let_def
      by (cases "bind_sees spec t c"; cases "attempt_protected f"; cases "starts_unbound f") simp_all
  next
    case False
    then show ?thesis
      by (auto simp: bind_judge_def bind_leaks_def bind_proves_def bind_reasons_def bind_qualified_def verdict_def t d)
  qed
qed

interpretation bind: verdict_evaluator "bind_judge spec ms t" "bind_leaks spec ms t" "bind_proves spec ms t"
    "bind_reasons spec ms t" for spec ms t
proof
  fix c r
  show "bind_judge spec ms t c r = verdict c (bind_leaks spec ms t c) (bind_proves spec ms t c) (bind_reasons spec ms t c) r"
    by (rule bind_judge_verdict)
  show "bind_proves spec ms t c \<Longrightarrow> \<not> bind_leaks spec ms t c"
    by (simp add: bind_proves_def bind_leaks_def)
  show "\<not> bind_proves spec ms t c \<Longrightarrow> \<not> bind_leaks spec ms t c \<Longrightarrow> bind_reasons spec ms t c \<noteq> []"
    by (cases t) (auto simp: bind_proves_def bind_leaks_def bind_reasons_def Let_def split: if_splits)
qed


lemma filesystem_leaked_agree:
  "agree3 s s' \<Longrightarrow> sr_leaked (evaluate_filesystem_fixture spec s) = sr_leaked (evaluate_filesystem_fixture spec s')"
  by (simp add: evaluate_filesystem_fixture_def fs.fold_leaked agree3_any3 fs_leaks_agree)

lemma sys_leaked_agree:
  "agree3 s s' \<Longrightarrow> sr_leaked (evaluate_sys_interface_fixture spec s) = sr_leaked (evaluate_sys_interface_fixture spec s')"
  by (simp add: evaluate_sys_interface_fixture_def sys.fold_leaked agree3_any3 sys_leaks_agree)

lemma address_fixture_leaked_agree:
  assumes "agree3 s s'"
  shows "sr_leaked (evaluate_address_fixture spec s) = sr_leaked (evaluate_address_fixture spec s')"
  unfolding address_leaked agree3_any3 [OF assms] address_leaks_agree [OF agree3_map5 [OF assms]] ..

lemma address_leaked_agree:
  assumes "agree3 s s'"
  shows "sr_leaked (evaluate_native_address_fixture spec s) = sr_leaked (evaluate_native_address_fixture spec s')"
  unfolding evaluate_native_address_fixture_def agree3_three [OF assms]
  by (cases "three s'") (auto simp: agree3_def intro!: address_fixture_leaked_agree)

lemma proc_fixture_leaked_agree:
  assumes "agree3 s s'"
  shows "sr_leaked (evaluate_proc_interface_fixture spec s) = sr_leaked (evaluate_proc_interface_fixture spec s')"
  unfolding proc_leaked agree3_any3 [OF assms] proc_leaks_agree [OF agree3_map5 [OF assms]] ..

lemma proc_leaked_agree:
  assumes "agree3 s s'"
  shows "sr_leaked (evaluate_native_proc_interface_fixture spec s) = sr_leaked (evaluate_native_proc_interface_fixture spec s')"
  unfolding evaluate_native_proc_interface_fixture_def agree3_three [OF assms]
  by (cases "three s'") (auto simp: agree3_def intro!: proc_fixture_leaked_agree)

lemma bind_leaks_agree: "agree3 s s' \<Longrightarrow> bind_leaks spec s = bind_leaks spec s'"
  by (intro ext) (simp add: bind_leaks_def agree3_def)

lemma bind_leaked_agree:
  "agree3 s s' \<Longrightarrow> sr_leaked (evaluate_bind_fixture spec s) = sr_leaked (evaluate_bind_fixture spec s')"
  by (simp add: evaluate_bind_fixture_def bind.fold_leaked agree3_three [OF agree3_map5] bind_leaks_agree split: option.split)

lemma native_leaked_agree:
  "agree3 s s' \<Longrightarrow> native_leaks (evaluate_native_fixture spec s) = native_leaks (evaluate_native_fixture spec s')"
  using agree3_any3 [of s s' "\<lambda>m. \<not> nm_bounded m"]
  by (simp add: native_leaks_exact native_qualified_def agree3_def)

lemmas leaked_agree = filesystem_leaked_agree sys_leaked_agree address_leaked_agree proc_leaked_agree
  bind_leaked_agree native_leaked_agree

lemma set_push_new [simp]: "set (push_new vs xs) = set vs \<union> set xs"
  by (induction vs arbitrary: xs) (auto simp: push_new_def)

lemma merge_sel [simp]:
  "set (sr_leaked (merge root app)) = set (sr_leaked app) \<union> set (sr_leaked root)"
  "set (sr_proven (merge root app)) = set (sr_proven root) \<inter> set (sr_proven app) - set (sr_leaked app) - set (sr_leaked root)"
  "set (sr_controls (merge root app)) = set (sr_controls app) \<union> set (sr_controls root)"
  by (auto simp: merge_def Let_def)

lemma set_native_merge_leaks:
  "set (native_leaks (native_merge root app)) = set (native_leaks app) \<union> set (native_leaks root)"
  by (cases root; cases app) auto

lemma agree3_with_raw: "agree3 ms ms' \<Longrightarrow> agree3 (with_raw ms raw) (with_raw ms' raw)"
  by (simp add: agree3_def with_raw_def)

text \<open>All leaks of a paired result.\<close>

definition paired_leaks where
  "paired_leaks p =
     (set (sr_leaked (pn_filesystem p)), set (sr_leaked (pn_sys_interfaces p)), set (native_leaks (pn_native p)),
      set (sr_leaked (pn_addresses p)), set (sr_leaked (pn_binding p)), set (sr_leaked (pn_proc_interfaces p)))"

text \<open>
  What a run reports as leaked is settled by the samples taken up to the worker's own.  Two runs that
  agree on them report the same leaks in all six groups, whether or not the fixture could be read and
  removed afterwards, and whatever the two later samples hold.
\<close>

theorem late_samples_keep_leaks:
  assumes "agree3 ms ms'"
  shows "paired_leaks (evaluate_paired_native_fixture spec ms raw) =
         paired_leaks (evaluate_paired_native_fixture spec ms' raw)"
proof -
  note r = assms and a = agree3_with_raw [OF assms, of raw]
  show ?thesis
    unfolding paired_leaks_def evaluate_paired_native_fixture_def Let_def
    by (simp add: set_native_merge_leaks filesystem_leaked_agree [OF agree3_map5 [OF r]] filesystem_leaked_agree [OF agree3_map5 [OF a]]
        sys_leaked_agree [OF agree3_map5 [OF r]] sys_leaked_agree [OF agree3_map5 [OF a]]
        address_leaked_agree [OF agree3_map5 [OF r]] address_leaked_agree [OF agree3_map5 [OF a]]
        proc_leaked_agree [OF agree3_map5 [OF r]] proc_leaked_agree [OF agree3_map5 [OF a]]
        bind_leaked_agree [OF r] bind_leaked_agree [OF a] native_leaked_agree [OF r] native_leaked_agree [OF a])
qed

text \<open>A run in which every worker reading shows the fixture, and one that differs after the worker's sample.\<close>

definition sample_spec :: native_fixture_spec where
  "sample_spec =
     \<lparr>sp_session = 7, sp_interface = \<lparr>if_name = ''tun0123456789ab'', if_index = 12\<rparr>, sp_flags = 4240, sp_mtu = 1400,
      sp_ordinary = \<lparr>oc_interface = \<lparr>if_name = ''lo'', if_index = 1\<rparr>, oc_flags = 73, oc_mtu = 65536\<rparr>\<rparr>"

definition sample_measurement :: "bool \<Rightarrow> native_measurement" where
  "sample_measurement shown =
     (let lo = oi_from (oc_interface (sp_ordinary sample_spec)); tun = oi_from (sp_interface sample_spec);
          rows = (if shown then [lo, tun] else [lo])
      in (nm_unavailable Unsupported)\<lparr>
           nm_flags := (if shown then Value 4240 else Failed (Errno 19)),
           nm_mtu := (if shown then Value 1400 else Failed (Errno 19)),
           nm_ifaddrs := Value rows, nm_links := Value rows,
           nm_ordinary_flags := Value 73, nm_ordinary_mtu := Value 65536\<rparr>)"

definition sample_run :: "bool \<Rightarrow> native_measurement five" where
  "sample_run seen =
     \<lparr>s_negative = sample_measurement False, s_start = sample_measurement True, s_worker = sample_measurement seen,
      s_end = sample_measurement True, s_cleanup = sample_measurement False\<rparr>"

lemma sample_spec_valid [simp]: "spec_valid sample_spec"
  by code_simp

theorem late_samples_keep_leaks_witness:
  "paired_leaks (evaluate_paired_native_fixture sample_spec (sample_run True) (Some (sample_measurement True))) =
   paired_leaks (evaluate_paired_native_fixture sample_spec
     ((sample_run True)\<lparr>s_end := nm_unavailable Unsupported, s_cleanup := nm_unavailable Unsupported\<rparr>)
     (Some (sample_measurement True)))
   \<and> set (native_leaks (pn_native (evaluate_paired_native_fixture sample_spec (sample_run True) (Some (sample_measurement True)))))
     = {IoctlFlags, IoctlMtu, Getifaddrs, NetlinkGetlink}"
proof
  show "paired_leaks (evaluate_paired_native_fixture sample_spec (sample_run True) (Some (sample_measurement True))) =
   paired_leaks (evaluate_paired_native_fixture sample_spec
     ((sample_run True)\<lparr>s_end := nm_unavailable Unsupported, s_cleanup := nm_unavailable Unsupported\<rparr>)
     (Some (sample_measurement True)))"
    by (rule late_samples_keep_leaks) (simp add: agree3_def)
  have "native_leaks (pn_native (evaluate_paired_native_fixture sample_spec (sample_run True) (Some (sample_measurement True))))
     = [IoctlFlags, IoctlMtu, Getifaddrs, NetlinkGetlink]"
    by code_simp
  then show "set (native_leaks (pn_native (evaluate_paired_native_fixture sample_spec (sample_run True) (Some (sample_measurement True)))))
     = {IoctlFlags, IoctlMtu, Getifaddrs, NetlinkGetlink}" by simp
qed


text \<open>What a paired result proves.\<close>

fun native_proofs :: "scoped_native \<Rightarrow> native_check list" where
  "native_proofs (NativeProven cs) = cs"
| "native_proofs _ = []"

definition paired_proofs where
  "paired_proofs p =
     (set (sr_proven (pn_filesystem p)), set (sr_proven (pn_sys_interfaces p)), set (native_proofs (pn_native p)),
      set (sr_proven (pn_addresses p)), set (sr_proven (pn_binding p)), set (sr_proven (pn_proc_interfaces p)))"

lemma fs_none_proves: "s_start ms = None \<Longrightarrow> sr_proven (evaluate_filesystem_fixture spec ms) = []"
  by (simp add: evaluate_filesystem_fixture_def fs.fold_proven filter_empty_conv fs_proves_iff fs_samples_def fs_values_def Let_def)

lemma three_start_None: "s_start ms = None \<Longrightarrow> three ms = None"
  by (auto simp: three_def split: option.splits)

lemma sys_none_proves: "s_start ms = None \<Longrightarrow> sr_proven (evaluate_sys_interface_fixture spec ms) = []"
  by (simp add: evaluate_sys_interface_fixture_def sys.fold_proven filter_empty_conv sys_proves_def controlled_proves_def
      sys_samples_def three_start_None)

lemma native_unavailable_proves: "native_proofs (evaluate_native_fixture spec (ms\<lparr>s_start := nm_unavailable e\<rparr>)) = []"
  using evaluate_native_unqualified [of spec "ms\<lparr>s_start := nm_unavailable e\<rparr>"]
  by (auto simp: native_qualified_def native_positive_def nm_unavailable_def)

lemma set_native_merge_proofs:
  "set (native_proofs (native_merge root app)) = set (native_proofs root) \<inter> set (native_proofs app)"
  by (cases root; cases app) auto

lemma address_none_proves: "s_start ms = None \<Longrightarrow> sr_proven (evaluate_native_address_fixture spec ms) = []"
  by (simp add: evaluate_native_address_fixture_def three_start_None)

lemma proc_none_proves: "s_start ms = None \<Longrightarrow> sr_proven (evaluate_native_proc_interface_fixture spec ms) = []"
  by (simp add: evaluate_native_proc_interface_fixture_def three_start_None)

lemma bind_none_proves: "nm_binding (s_start ms) = None \<Longrightarrow> sr_proven (evaluate_bind_fixture spec ms) = []"
  by (simp add: evaluate_bind_fixture_def three_start_None)

lemmas unpaired_proofs = fs_none_proves sys_none_proves native_unavailable_proves address_none_proves
  proc_none_proves bind_none_proves

lemma nm_unavailable_sel [simp]:
  "nm_filesystem (nm_unavailable e) = None" "nm_sys_interfaces (nm_unavailable e) = None"
  "nm_proc_interfaces (nm_unavailable e) = None" "nm_addresses (nm_unavailable e) = None"
  "nm_binding (nm_unavailable e) = None"
  by (simp_all add: nm_unavailable_def)

lemma native_merge_disjoint:
  "set (native_proofs (native_merge root app)) \<inter> set (native_leaks (native_merge root app)) = {}"
  by (cases root; cases app) auto

text \<open>
  Nothing is proven from root's samples alone: without the worker's own unfiltered sample no check
  of any group is proven, however clean the run is.  With one, a check that leaked under either
  control is never reported as proven.
\<close>

theorem unpaired_proves_nothing:
  "paired_proofs (evaluate_paired_native_fixture spec ms None) = ({}, {}, {}, {}, {}, {})
   \<and> (let (a, b, c, d, e, f) = paired_proofs (evaluate_paired_native_fixture spec ms raw);
           (a', b', c', d', e', f') = paired_leaks (evaluate_paired_native_fixture spec ms raw)
       in a \<inter> a' = {} \<and> b \<inter> b' = {} \<and> c \<inter> c' = {} \<and> d \<inter> d' = {} \<and> e \<inter> e' = {} \<and> f \<inter> f' = {})"
proof
  show "paired_proofs (evaluate_paired_native_fixture spec ms None) = ({}, {}, {}, {}, {}, {})"
    by (simp add: paired_proofs_def evaluate_paired_native_fixture_def Let_def with_raw_def set_native_merge_proofs unpaired_proofs)
  show "let (a, b, c, d, e, f) = paired_proofs (evaluate_paired_native_fixture spec ms raw);
           (a', b', c', d', e', f') = paired_leaks (evaluate_paired_native_fixture spec ms raw)
       in a \<inter> a' = {} \<and> b \<inter> b' = {} \<and> c \<inter> c' = {} \<and> d \<inter> d' = {} \<and> e \<inter> e' = {} \<and> f \<inter> f' = {}"
    unfolding paired_proofs_def paired_leaks_def Let_def prod.case evaluate_paired_native_fixture_def paired_native.select_convs
    using native_merge_disjoint by (intro conjI) auto
qed

end
