(* ===== verification/Diag_Route.thy ===== *)
theory Diag_Route
  imports Diag_Native
begin

text \<open>
  Route observations and their evaluation (\<^verbatim>\<open>crates/diagnostic-model/src/route.rs\<close>).  The fixture is a
  pair of exact-address routes, one through the VPN interface and one through an ordinary interface;
  a check is one actor reading one surface.  A worker sends only the rows that concern the fixture
  (\<open>scoped\<close>), and what that projection does to the verdict is proved here.
\<close>

section \<open>Observations\<close>

definition MAX_SCOPED_ROUTES :: nat where
  "MAX_SCOPED_ROUTES = 16"

definition all_surfaces :: "route_surface list" where
  "all_surfaces = [NetlinkIpv4, NetlinkIpv6, ProcIpv4, ProcIpv6]"

record route_check =
  rc_actor :: native_read_actor
  rc_surface :: route_surface

definition route_required :: "route_check list" where
  "route_required = concat (map (\<lambda>a. map (\<lambda>s. \<lparr>rc_actor = a, rc_surface = s\<rparr>) all_surfaces) all_actors)"

record route_observation =
  ro_check :: route_check
  ro_routes :: "observed_route list"
  ro_error :: "probe_error option"

type_synonym route_measurement = "route_observation list"

definition route_bounded :: "route_measurement \<Rightarrow> bool" where
  "route_bounded m =
     (length m \<le> length route_required \<and> distinct (map ro_check m)
      \<and> list_all (\<lambda>v. length (ro_routes v) \<le> MAX_ROUTES
           \<and> list_all (\<lambda>r. route_valid r (rc_surface (ro_check v))) (ro_routes v)) m)"


section \<open>The fixture\<close>

record route_fixture_spec =
  rs_session :: u64
  rs_vpn :: interface_id
  rs_ordinary :: interface_id

definition role_session :: "route_fixture_spec \<Rightarrow> bool \<Rightarrow> u64" where
  "role_session spec ordinary = rs_session spec XOR (if ordinary then 0x8000 else 0x4000)"

definition role_name :: "string \<Rightarrow> u64 \<Rightarrow> string" where
  "role_name role session = role @ pad_zero 12 (hex_str (unat (session AND 0xffffffffffff)))"

definition route_spec_valid :: "route_fixture_spec \<Rightarrow> bool" where
  "route_spec_valid spec =
     (rs_session spec \<noteq> 0 \<and> role_session spec False \<noteq> 0 \<and> role_session spec True \<noteq> 0
      \<and> 0 < if_index (rs_vpn spec) \<and> 0 < if_index (rs_ordinary spec)
      \<and> if_index (rs_vpn spec) \<le> I32_MAX \<and> if_index (rs_ordinary spec) \<le> I32_MAX
      \<and> if_index (rs_vpn spec) \<noteq> if_index (rs_ordinary spec)
      \<and> if_name (rs_vpn spec) = role_name ''tun'' (role_session spec False)
      \<and> if_name (rs_ordinary spec) = role_name ''vhr'' (role_session spec True))"

definition destination :: "route_fixture_spec \<Rightarrow> bool \<Rightarrow> route_surface \<Rightarrow> bytes" where
  "destination spec ordinary surface =
     (case fixture_addresses (role_session spec ordinary) of (v4, v6) \<Rightarrow> if address_bytes surface = 4 then v4 else v6)"

definition metric :: "bool \<Rightarrow> u32" where
  "metric ordinary = (if ordinary then 54322 else 54321)"

definition route_exposes :: "route_fixture_spec \<Rightarrow> observed_route \<Rightarrow> bool \<Rightarrow> route_surface \<Rightarrow> bool" where
  "route_exposes spec row ordinary surface =
     (let interface = (if ordinary then rs_ordinary spec else rs_vpn spec)
      in or_destination row = destination spec ordinary surface
         \<or> or_output_index row = Some (if_index interface)
         \<or> or_output_name row = Some (if_name interface))"

definition route_positive :: "route_fixture_spec \<Rightarrow> observed_route \<Rightarrow> bool \<Rightarrow> route_surface \<Rightarrow> bool" where
  "route_positive spec row ordinary surface =
     (let interface = (if ordinary then rs_ordinary spec else rs_vpn spec)
      in or_destination row = destination spec ordinary surface
         \<and> or_source_prefix row = 0
         \<and> unat (or_prefix row) = address_bytes surface * 8
         \<and> or_metric row = metric ordinary
         \<and> (if surface_netlink surface
            then or_output_index row = Some (if_index interface) \<and> or_table row = Some 254
                 \<and> or_protocol row = Some 242 \<and> or_kind row = Some 1
            else or_output_name row = Some (if_name interface)))"

definition observation :: "route_measurement option \<Rightarrow> route_check \<Rightarrow> route_observation option" where
  "observation m check =
     (case m of None \<Rightarrow> None
      | Some v \<Rightarrow> if route_bounded v then List.find (\<lambda>o'. ro_check o' = check) v else None)"

definition route_absent :: "route_fixture_spec \<Rightarrow> route_surface \<Rightarrow> route_observation \<Rightarrow> bool" where
  "route_absent spec surface v =
     (ro_error v = None
      \<and> \<not> list_ex (\<lambda>r. route_exposes spec r False surface \<or> route_exposes spec r True surface) (ro_routes v))"

definition route_shown :: "route_fixture_spec \<Rightarrow> route_surface \<Rightarrow> route_observation \<Rightarrow> bool" where
  "route_shown spec surface v =
     (ro_error v = None
      \<and> list_all (\<lambda>ordinary. list_ex (\<lambda>r. route_positive spec r ordinary surface) (ro_routes v)) [False, True])"

definition route_negative :: "route_fixture_spec \<Rightarrow> route_measurement \<Rightarrow> bool" where
  "route_negative spec m =
     (route_bounded m
      \<and> list_all (\<lambda>check. some_and (route_absent spec (rc_surface check)) (observation (Some m) check)) route_required)"

definition positive_measurement :: "route_fixture_spec \<Rightarrow> route_measurement \<Rightarrow> bool" where
  "positive_measurement spec m =
     (route_spec_valid spec \<and> route_bounded m
      \<and> list_all (\<lambda>check. some_and (route_shown spec (rc_surface check)) (observation (Some m) check)) route_required)"

text \<open>The projection that a worker sends.\<close>

definition scope_observation :: "route_fixture_spec \<Rightarrow> route_observation \<Rightarrow> route_observation" where
  "scope_observation spec v =
     (let rows = filter (\<lambda>row. route_exposes spec row False (rc_surface (ro_check v))
                            \<or> route_exposes spec row True (rc_surface (ro_check v))) (ro_routes v);
          overflow = (drop MAX_SCOPED_ROUTES rows \<noteq> [])
      in \<lparr>ro_check = ro_check v, ro_routes = take MAX_SCOPED_ROUTES rows,
          ro_error = (case ro_error v of Some e \<Rightarrow> Some e | None \<Rightarrow> if overflow then Some TooLarge else None)\<rparr>)"

definition scoped :: "route_fixture_spec \<Rightarrow> route_measurement \<Rightarrow> route_measurement" where
  "scoped spec m =
     (if \<not> route_spec_valid spec \<or> \<not> route_bounded m
      then map (\<lambda>check. \<lparr>ro_check = check, ro_routes = [], ro_error = Some Malformed\<rparr>) route_required
      else map (scope_observation spec) m)"


section \<open>Evaluation\<close>

definition read_failed :: "route_observation option \<Rightarrow> bool" where
  "read_failed v = none_or (\<lambda>v. ro_error v \<noteq> None) v"

definition route_judge :: "route_fixture_spec \<Rightarrow> route_measurement option five \<Rightarrow> bool \<Rightarrow> route_check \<Rightarrow>
    route_check scoped \<Rightarrow> route_check scoped" where
  "route_judge spec ms interfaces_clean check r =
     (let surface = rc_surface check;
          obs = map5 (\<lambda>m. observation m check) ms;
          absent = route_absent spec surface;
          positive = route_shown spec surface;
          unavailable = (\<lambda>v r. if read_failed v then problem ProbeUnavailable r else r)
      in if none_or (\<lambda>v. \<not> absent v) (s_negative obs)
         then unavailable (s_negative obs) (problem MissingNegativeControl r)
         else if none_or (\<lambda>v. \<not> positive v) (s_start obs)
         then unavailable (s_start obs) (problem MissingPositiveControl r)
         else
           let leaked = some_and (\<lambda>v. list_ex (\<lambda>r. route_exposes spec r False surface) (ro_routes v)) (s_worker obs);
               r1 = (if leaked then leak check r else r);
               worker_available = some_and (\<lambda>v. ro_error v = None) (s_worker obs);
               r2 = (if worker_available then r1 else problem ProbeUnavailable r1);
               ordinary_ok = some_and (\<lambda>v. list_ex (\<lambda>r. route_positive spec r True surface) (ro_routes v)) (s_worker obs);
               r3 = (if ordinary_ok then r2 else problem OrdinaryObjectsChanged r2);
               end_ok = some_and positive (s_end obs);
               r4 = (if end_ok then r3 else unavailable (s_end obs) (problem FixtureChanged r3));
               cleaned = (interfaces_clean \<and> some_and absent (s_cleanup obs));
               r5 = (if cleaned then r4 else unavailable (s_cleanup obs) (problem CleanupUnconfirmed r4))
           in if \<not> leaked \<and> worker_available \<and> ordinary_ok \<and> end_ok \<and> cleaned then prove check r5 else r5)"

definition evaluate_route_fixture :: "route_fixture_spec \<Rightarrow> route_measurement option five \<Rightarrow> bool \<Rightarrow> route_check scoped" where
  "evaluate_route_fixture spec ms interfaces_clean =
     (if \<not> route_spec_valid spec then problem InvalidSpec scoped_default
      else fold (route_judge spec ms interfaces_clean) route_required scoped_default)"

definition evaluate_paired_route_fixture ::
    "route_fixture_spec \<Rightarrow> route_measurement option five \<Rightarrow> route_measurement option \<Rightarrow> bool \<Rightarrow> route_check scoped" where
  "evaluate_paired_route_fixture spec ms raw interfaces_clean =
     (let result = evaluate_route_fixture spec ms interfaces_clean;
          qualified = filter (\<lambda>check. some_and (route_shown spec (rc_surface check)) (observation raw check)) route_required;
          result = result\<lparr>sr_proven := filter (\<lambda>c. c \<in> set qualified) (sr_proven result)\<rparr>
      in if length qualified \<noteq> length route_required then problem MissingPositiveControl result else result)"


section \<open>Verdicts\<close>

definition route_qualified :: "route_fixture_spec \<Rightarrow> route_measurement option five \<Rightarrow> route_check \<Rightarrow> bool" where
  "route_qualified spec ms check \<longleftrightarrow>
     some_and (route_absent spec (rc_surface check)) (observation (s_negative ms) check)
     \<and> some_and (route_shown spec (rc_surface check)) (observation (s_start ms) check)"

definition route_sees :: "route_fixture_spec \<Rightarrow> route_measurement option \<Rightarrow> route_check \<Rightarrow> bool" where
  "route_sees spec w check \<longleftrightarrow>
     some_and (\<lambda>v. list_ex (\<lambda>r. route_exposes spec r False (rc_surface check)) (ro_routes v)) (observation w check)"

definition route_keeps :: "route_fixture_spec \<Rightarrow> route_measurement option \<Rightarrow> route_check \<Rightarrow> bool" where
  "route_keeps spec w check \<longleftrightarrow>
     some_and (\<lambda>v. ro_error v = None \<and> list_ex (\<lambda>r. route_positive spec r True (rc_surface check)) (ro_routes v))
       (observation w check)"

definition route_leaks :: "route_fixture_spec \<Rightarrow> route_measurement option five \<Rightarrow> route_check \<Rightarrow> bool" where
  "route_leaks spec ms check \<longleftrightarrow> route_qualified spec ms check \<and> route_sees spec (s_worker ms) check"

definition route_proves :: "route_fixture_spec \<Rightarrow> route_measurement option five \<Rightarrow> bool \<Rightarrow> route_check \<Rightarrow> bool" where
  "route_proves spec ms clean check \<longleftrightarrow>
     route_qualified spec ms check \<and> \<not> route_sees spec (s_worker ms) check \<and> route_keeps spec (s_worker ms) check
     \<and> some_and (route_shown spec (rc_surface check)) (observation (s_end ms) check)
     \<and> clean \<and> some_and (route_absent spec (rc_surface check)) (observation (s_cleanup ms) check)"

definition failed_reason :: "route_observation option \<Rightarrow> control_failure list" where
  "failed_reason v = (if read_failed v then [ProbeUnavailable] else [])"

definition route_reasons :: "route_fixture_spec \<Rightarrow> route_measurement option five \<Rightarrow> bool \<Rightarrow> route_check \<Rightarrow> control_failure list" where
  "route_reasons spec ms clean check =
     (let surface = rc_surface check; obs = map5 (\<lambda>m. observation m check) ms
      in if \<not> some_and (route_absent spec surface) (s_negative obs)
         then MissingNegativeControl # failed_reason (s_negative obs)
         else if \<not> some_and (route_shown spec surface) (s_start obs)
         then MissingPositiveControl # failed_reason (s_start obs)
         else (if some_and (\<lambda>v. ro_error v = None) (s_worker obs) then [] else [ProbeUnavailable])
           @ (if some_and (\<lambda>v. list_ex (\<lambda>r. route_positive spec r True surface) (ro_routes v)) (s_worker obs) then []
              else [OrdinaryObjectsChanged])
           @ (if some_and (route_shown spec surface) (s_end obs) then [] else FixtureChanged # failed_reason (s_end obs))
           @ (if clean \<and> some_and (route_absent spec surface) (s_cleanup obs) then []
              else CleanupUnconfirmed # failed_reason (s_cleanup obs)))"

lemma none_or_not: "none_or (\<lambda>v. \<not> P v) x \<longleftrightarrow> \<not> some_and P x"
  by (simp add: none_or_def split: option.split)

lemma fold_problem_failed:
  "fold problem (failed_reason v) r = (if read_failed v then problem ProbeUnavailable r else r)"
  by (simp add: failed_reason_def)

lemma some_and_conj: "some_and P x \<and> some_and Q x \<longleftrightarrow> some_and (\<lambda>v. P v \<and> Q v) x"
  by (simp split: option.split)

lemma route_judge_verdict:
  "route_judge spec ms clean c r =
     verdict c (route_leaks spec ms c) (route_proves spec ms clean c) (route_reasons spec ms clean c) r"
proof (cases "route_qualified spec ms c")
  case True
  then show ?thesis
    unfolding route_judge_def Let_def none_or_not
    by (simp add: route_qualified_def route_leaks_def route_proves_def route_reasons_def route_sees_def route_keeps_def
        verdict_def fold_problem_failed Let_def some_and_conj [symmetric])
next
  case False
  then show ?thesis
    by (auto simp: route_judge_def none_or_not route_qualified_def route_leaks_def route_proves_def route_reasons_def
        verdict_def fold_problem_failed Let_def)
qed

interpretation routes: verdict_evaluator "route_judge spec ms clean" "route_leaks spec ms" "route_proves spec ms clean"
    "route_reasons spec ms clean" for spec ms clean
proof
  fix c r
  show "route_judge spec ms clean c r =
     verdict c (route_leaks spec ms c) (route_proves spec ms clean c) (route_reasons spec ms clean c) r"
    by (rule route_judge_verdict)
  show "route_proves spec ms clean c \<Longrightarrow> \<not> route_leaks spec ms c"
    by (simp add: route_proves_def route_leaks_def)
  show "\<not> route_proves spec ms clean c \<Longrightarrow> \<not> route_leaks spec ms c \<Longrightarrow> route_reasons spec ms clean c \<noteq> []"
    by (auto simp: route_proves_def route_leaks_def route_reasons_def route_qualified_def route_keeps_def Let_def
        some_and_conj [symmetric])
qed



section \<open>The worker's projection\<close>

lemma positive_exposes: "route_positive spec row ordinary surface \<Longrightarrow> route_exposes spec row ordinary surface"
  by (simp add: route_positive_def route_exposes_def Let_def)

lemma take_no_overflow: "drop n xs = [] \<Longrightarrow> take n xs = xs"
  by simp

definition fixture_rows :: "route_fixture_spec \<Rightarrow> route_observation \<Rightarrow> observed_route list" where
  "fixture_rows spec v =
     filter (\<lambda>row. route_exposes spec row False (rc_surface (ro_check v)) \<or> route_exposes spec row True (rc_surface (ro_check v)))
       (ro_routes v)"

lemma scope_observation_rows:
  "scope_observation spec v =
     \<lparr>ro_check = ro_check v, ro_routes = take MAX_SCOPED_ROUTES (fixture_rows spec v),
      ro_error = (case ro_error v of Some e \<Rightarrow> Some e
                  | None \<Rightarrow> if MAX_SCOPED_ROUTES < length (fixture_rows spec v) then Some TooLarge else None)\<rparr>"
  by (simp add: scope_observation_def fixture_rows_def Let_def not_le)

lemma scope_bounded: "route_bounded m \<Longrightarrow> route_bounded (map (scope_observation spec) m)"
  by (auto simp: route_bounded_def list_all_iff scope_observation_rows fixture_rows_def MAX_ROUTES_def MAX_SCOPED_ROUTES_def comp_def
      dest!: in_set_takeD)

lemma find_scope:
  "List.find (\<lambda>o'. ro_check o' = c) (map (scope_observation spec) m) =
     map_option (scope_observation spec) (List.find (\<lambda>o'. ro_check o' = c) m)"
  by (induction m) (simp_all add: scope_observation_rows)

lemma observation_scoped:
  assumes "route_spec_valid spec" "route_bounded m"
  shows "observation (Some (scoped spec m)) c = map_option (scope_observation spec) (observation (Some m) c)"
  using assms by (simp add: observation_def scoped_def scope_bounded find_scope)

lemma find_malformed:
  "List.find (\<lambda>o'. ro_check o' = c) (map (\<lambda>check. \<lparr>ro_check = check, ro_routes = [], ro_error = Some Malformed\<rparr>) cs) = Some v \<Longrightarrow>
     ro_routes v = [] \<and> ro_error v = Some Malformed"
  by (induction cs) (auto split: if_splits)

lemma observation_malformed:
  assumes "\<not> route_bounded m" "observation (Some (scoped spec m)) c = Some v"
  shows "ro_routes v = [] \<and> ro_error v = Some Malformed"
  using assms find_malformed by (auto simp: observation_def scoped_def split: if_splits)

lemma observation_check: "observation m c = Some v \<Longrightarrow> ro_check v = c"
  by (auto simp: observation_def find_Some_iff split: option.splits if_splits)

definition fits :: "route_fixture_spec \<Rightarrow> route_measurement option \<Rightarrow> route_check \<Rightarrow> bool" where
  "fits spec w c \<longleftrightarrow> none_or (\<lambda>v. length (fixture_rows spec v) \<le> MAX_SCOPED_ROUTES) (observation w c)"

lemma scoped_sees_mono:
  assumes "route_spec_valid spec" "route_sees spec (Some (scoped spec m)) c"
  shows "route_sees spec (Some m) c"
proof (cases "route_bounded m")
  case True
  then show ?thesis
    using assms(2) observation_scoped [OF assms(1) True, of c]
    by (auto simp: route_sees_def scope_observation_rows fixture_rows_def list_ex_iff split: option.splits dest!: in_set_takeD)
next
  case False
  then show ?thesis
    using assms(2) observation_malformed [OF False] by (auto simp: route_sees_def split: option.splits)
qed

lemma scoped_keeps_iff:
  assumes "route_spec_valid spec"
  shows "route_keeps spec (Some (scoped spec m)) c \<longleftrightarrow> route_keeps spec (Some m) c \<and> fits spec (Some m) c"
proof (cases "route_bounded m")
  case True
  show ?thesis
  proof (cases "observation (Some m) c")
    case (Some v)
    have c: "ro_check v = c" by (rule observation_check [OF Some])
    have "list_ex (\<lambda>r. route_positive spec r True (rc_surface c)) (fixture_rows spec v) =
          list_ex (\<lambda>r. route_positive spec r True (rc_surface c)) (ro_routes v)"
      by (auto simp: fixture_rows_def list_ex_iff c intro: positive_exposes)
    then show ?thesis
      using observation_scoped [OF assms True, of c] Some
      by (auto simp: route_keeps_def fits_def none_or_def scope_observation_rows split: option.splits if_splits)
  qed (use observation_scoped [OF assms True, of c] in \<open>simp add: route_keeps_def\<close>)
next
  case False
  then show ?thesis
    using observation_malformed [OF False] by (auto simp: route_keeps_def observation_def [of "Some m"] split: option.splits)
qed

lemma scoped_sees_fits:
  assumes "route_spec_valid spec" "fits spec (Some m) c"
  shows "route_sees spec (Some (scoped spec m)) c \<longleftrightarrow> route_sees spec (Some m) c"
proof (cases "route_bounded m")
  case True
  show ?thesis
  proof (cases "observation (Some m) c")
    case (Some v)
    have c: "ro_check v = c" by (rule observation_check [OF Some])
    show ?thesis
      using observation_scoped [OF assms(1) True, of c] Some assms(2)
      by (auto simp: route_sees_def fits_def none_or_def scope_observation_rows fixture_rows_def c list_ex_iff)
  qed (use observation_scoped [OF assms(1) True, of c] in \<open>simp add: route_sees_def\<close>)
next
  case False
  then show ?thesis
    using observation_malformed [OF False] by (auto simp: route_sees_def observation_def [of "Some m"] split: option.splits)
qed

lemma evaluate_route_sel:
  "sr_leaked (evaluate_route_fixture spec ms clean) = (if route_spec_valid spec then filter (route_leaks spec ms) route_required else [])"
  "sr_proven (evaluate_route_fixture spec ms clean) = (if route_spec_valid spec then filter (route_proves spec ms clean) route_required else [])"
  by (simp_all add: evaluate_route_fixture_def routes.fold_leaked routes.fold_proven)

text \<open>The run as Core receives it: the worker's measurement is replaced by its projection.\<close>

definition sent :: "route_fixture_spec \<Rightarrow> route_measurement option five \<Rightarrow> route_measurement option five" where
  "sent spec ms = ms\<lparr>s_worker := map_option (scoped spec) (s_worker ms)\<rparr>"

lemma sent_verdicts:
  assumes "route_spec_valid spec"
  shows "route_leaks spec (sent spec ms) c \<Longrightarrow> route_leaks spec ms c"
    and "fits spec (s_worker ms) c \<Longrightarrow> route_leaks spec (sent spec ms) c \<longleftrightarrow> route_leaks spec ms c"
    and "route_proves spec (sent spec ms) clean c \<longleftrightarrow> route_proves spec ms clean c \<and> fits spec (s_worker ms) c"
proof -
  have q: "route_qualified spec (sent spec ms) c = route_qualified spec ms c"
    by (simp add: route_qualified_def sent_def)
  have w: "s_worker (sent spec ms) = map_option (scoped spec) (s_worker ms)" by (simp add: sent_def)
  show "route_leaks spec (sent spec ms) c \<Longrightarrow> route_leaks spec ms c"
    using scoped_sees_mono [OF assms] by (cases "s_worker ms") (auto simp: route_leaks_def q w)
  show "fits spec (s_worker ms) c \<Longrightarrow> route_leaks spec (sent spec ms) c \<longleftrightarrow> route_leaks spec ms c"
    using scoped_sees_fits [OF assms] by (cases "s_worker ms") (auto simp: route_leaks_def q w)
  have e: "s_end (sent spec ms) = s_end ms" "s_cleanup (sent spec ms) = s_cleanup ms" by (simp_all add: sent_def)
  show "route_proves spec (sent spec ms) clean c \<longleftrightarrow> route_proves spec ms clean c \<and> fits spec (s_worker ms) c"
  proof (cases "s_worker ms")
    case None
    then show ?thesis by (simp add: route_proves_def q w route_keeps_def observation_def)
  next
    case (Some m)
    then show ?thesis
      unfolding route_proves_def q w e using scoped_keeps_iff [OF assms, of m c] scoped_sees_fits [OF assms, of m c] by auto
  qed
qed

text \<open>
  C31. What the worker's projection does to the verdict.  No leak is invented, and no proof is gained: a
  check is proven from the projected rows exactly when it is proven from all rows and the fixture's
  rows fit the limit.  A check whose rows fit keeps its leak; one whose rows do not may lose it, but
  then it is not proven either, because the overflow is carried as an error.
\<close>

theorem scoped_worker_verdict:
  "set (sr_leaked (evaluate_route_fixture spec (sent spec ms) clean)) \<subseteq> set (sr_leaked (evaluate_route_fixture spec ms clean))
   \<and> set (sr_proven (evaluate_route_fixture spec (sent spec ms) clean)) =
       {c \<in> set (sr_proven (evaluate_route_fixture spec ms clean)). fits spec (s_worker ms) c}
   \<and> {c \<in> set (sr_leaked (evaluate_route_fixture spec ms clean)). fits spec (s_worker ms) c}
       \<subseteq> set (sr_leaked (evaluate_route_fixture spec (sent spec ms) clean))
   \<and> set (sr_leaked (evaluate_route_fixture spec ms clean)) \<inter> set (sr_proven (evaluate_route_fixture spec (sent spec ms) clean)) = {}"
  using sent_verdicts [of spec ms] routes.proves_not_leaks [of spec ms clean]
  by (auto simp: evaluate_route_sel)

text \<open>
  A route check is proven only if the worker itself saw both fixture routes in its unfiltered sample,
  and in a run without one nothing is proven and the missing control is reported; leaks are kept.
\<close>

theorem paired_routes_exact:
  "set (sr_proven (evaluate_paired_route_fixture spec ms raw clean)) =
     {c \<in> set (sr_proven (evaluate_route_fixture spec ms clean)).
        some_and (route_shown spec (rc_surface c)) (observation raw c)}
   \<and> sr_leaked (evaluate_paired_route_fixture spec ms raw clean) = sr_leaked (evaluate_route_fixture spec ms clean)
   \<and> sr_proven (evaluate_paired_route_fixture spec ms None clean) = []
   \<and> MissingPositiveControl \<in> set (sr_controls (evaluate_paired_route_fixture spec ms None clean))
   \<and> (complete_for route_required (evaluate_paired_route_fixture spec ms raw clean) \<longleftrightarrow>
        complete_for route_required (evaluate_route_fixture spec ms clean)
        \<and> list_all (\<lambda>c. some_and (route_shown spec (rc_surface c)) (observation raw c)) route_required)"
proof -
  define good where "good r c = some_and (route_shown spec (rc_surface c)) (observation r c)" for r c
  have g: "\<not> good None c" for c by (simp add: good_def observation_def)
  have n: "length (filter P route_required) = length route_required \<longleftrightarrow> list_all P route_required" for P :: "route_check \<Rightarrow> bool"
    by (auto simp: list_all_iff filter_id_conv) (metis filter_id_conv length_filter_less less_irrefl)
  let ?r = "evaluate_route_fixture spec ms clean"
  have p: "filter (\<lambda>c. c \<in> set route_required \<and> P c) (sr_proven ?r) = filter P (sr_proven ?r)" for P
    by (auto simp: evaluate_route_sel intro!: filter_cong)
  have e: "evaluate_paired_route_fixture spec ms r clean =
      (let result = ?r\<lparr>sr_proven := filter (good r) (sr_proven ?r)\<rparr>
       in if list_all (good r) route_required then result else problem MissingPositiveControl result)" for r
    by (simp add: evaluate_paired_route_fixture_def good_def [symmetric] n p Let_def)
  have none: "\<not> list_all (good None) route_required" by (simp add: g route_required_def all_actors_def all_surfaces_def)
  show ?thesis
    unfolding good_def [symmetric] using none
    by (auto simp: e Let_def complete_for_def list_all_iff g)
qed

end
