(* ===== verification/Diag_Framework.thy ===== *)
theory Diag_Framework
  imports Diag_Base
begin

text \<open>
  The framework fixture (\<^verbatim>\<open>framework.rs\<close> and \<^verbatim>\<open>framework_legacy.rs\<close> of \<^verbatim>\<open>crates/diagnostic-model/src/\<close>):
  the hook in \<^verbatim>\<open>system_server\<close> injects a VPN network and an ordinary one into the answers that one worker
  process gets, in four phases.  Prepared and Revoked must not show them, Raw must show both, and in
  Protected the production hiding path must have removed the VPN one.
\<close>

section \<open>Envelope\<close>

definition FRAMEWORK_PROTOCOL :: u32 where
  "FRAMEWORK_PROTOCOL = 2"

definition FRAMEWORK_LEASE_MS :: u64 where
  "FRAMEWORK_LEASE_MS = 25000"

definition I64_MAX :: u64 where
  "I64_MAX = 9223372036854775807"

datatype framework_phase = Prepared | Raw | Protected | Revoked

fun phase_generation :: "framework_phase \<Rightarrow> u32" where
  "phase_generation Prepared = 0"
| "phase_generation Raw = 1"
| "phase_generation Protected = 2"
| "phase_generation Revoked = 3"

definition lower_digest :: "string \<Rightarrow> bool" where
  "lower_digest s = (length s = 64 \<and> list_all is_lower_hex s)"

record framework_fixture_spec =
  ff_vpn_net_id :: u32
  ff_ordinary_net_id :: u32
  ff_interface_name :: string
  ff_mtu :: u32
  ff_ordinary_interface_name :: string
  ff_ordinary_mtu :: u32

definition framework_fixture_valid :: "framework_fixture_spec \<Rightarrow> bool" where
  "framework_fixture_valid f =
     (65535 < ff_vpn_net_id f \<and> ff_vpn_net_id f \<le> I32_MAX
      \<and> 65535 < ff_ordinary_net_id f \<and> ff_ordinary_net_id f \<le> I32_MAX
      \<and> ff_vpn_net_id f \<noteq> ff_ordinary_net_id f
      \<and> tun_name (ff_interface_name f)
      \<and> 1 \<le> ff_mtu f \<and> ff_mtu f \<le> 65535
      \<and> take 5 (ff_ordinary_interface_name f) = ''ipsec''
      \<and> length (ff_ordinary_interface_name f) \<le> 15
      \<and> list_all is_ascii_alnum (ff_ordinary_interface_name f)
      \<and> 1 \<le> ff_ordinary_mtu f \<and> ff_ordinary_mtu f \<le> 65535)"

record framework_envelope =
  fe_version :: u32
  fe_session :: u64
  fe_core_epoch :: u64
  fe_boot_id :: string
  fe_nonce :: string
  fe_expected_hook_sha256 :: string
  fe_worker_uid :: u32
  fe_worker_pid :: u32
  fe_worker_start_ticks :: u64
  fe_expires_boot_ms :: u64
  fe_generation :: u32
  fe_phase :: framework_phase
  fe_fixture :: framework_fixture_spec

definition boot_id_ok :: "string \<Rightarrow> bool" where
  "boot_id_ok s =
     (length s = 36
      \<and> list_all (\<lambda>(i, b). if i \<in> {8, 13, 18, 23} then b = CHR ''-'' else is_lower_hex b) (enumerate 0 s))"

definition envelope_valid :: "framework_envelope \<Rightarrow> bool" where
  "envelope_valid e =
     (fe_version e = FRAMEWORK_PROTOCOL
      \<and> 0 < fe_session e \<and> fe_session e \<le> I64_MAX
      \<and> 0 < fe_core_epoch e \<and> fe_core_epoch e \<le> I64_MAX
      \<and> boot_id_ok (fe_boot_id e)
      \<and> lower_digest (fe_nonce e)
      \<and> lower_digest (fe_expected_hook_sha256 e)
      \<and> 10000 \<le> fe_worker_uid e \<and> fe_worker_uid e \<le> I32_MAX
      \<and> 1 < fe_worker_pid e \<and> fe_worker_pid e \<le> I32_MAX
      \<and> 0 < fe_worker_start_ticks e
      \<and> 0 < fe_expires_boot_ms e \<and> fe_expires_boot_ms e \<le> I64_MAX
      \<and> fe_generation e = phase_generation (fe_phase e)
      \<and> framework_fixture_valid (fe_fixture e))"

definition permits :: "framework_envelope \<Rightarrow> string \<Rightarrow> u32 \<Rightarrow> u32 \<Rightarrow> u64 \<Rightarrow> u64 \<Rightarrow> bool" where
  "permits e boot uid pid start now =
     (envelope_valid e \<and> fe_boot_id e = boot \<and> fe_worker_uid e = uid \<and> fe_worker_pid e = pid
      \<and> fe_worker_start_ticks e = start \<and> now < fe_expires_boot_ms e
      \<and> fe_expires_boot_ms e - now \<le> FRAMEWORK_LEASE_MS)"

definition for_phase :: "framework_envelope \<Rightarrow> framework_phase \<Rightarrow> framework_envelope" where
  "for_phase e phase = e\<lparr>fe_phase := phase, fe_generation := phase_generation phase\<rparr>"


section \<open>Legacy evidence\<close>

record legacy_network_info =
  li_network_type :: int
  li_state :: string
  li_detailed_state :: string
  li_fixture :: bool

definition info_bounded :: "legacy_network_info \<Rightarrow> bool" where
  "info_bounded i =
     (length (li_state i) \<le> 32 \<and> length (li_detailed_state i) \<le> 32
      \<and> list_all (\<lambda>b. byte_in b 65 90 \<or> b = CHR ''_'') (li_state i @ li_detailed_state i))"

definition info_positive :: "legacy_network_info \<Rightarrow> bool" where
  "info_positive i =
     (li_network_type i = 17 \<and> li_fixture i \<and> li_state i = ''CONNECTED'' \<and> li_detailed_state i = ''CONNECTED'')"

definition info_inactive :: "legacy_network_info \<Rightarrow> bool" where
  "info_inactive i =
     (li_network_type i = 17 \<and> \<not> li_fixture i \<and> li_state i = ''DISCONNECTED''
      \<and> (li_detailed_state i = ''DISCONNECTED'' \<or> li_detailed_state i = ''BLOCKED''))"

definition exposes_vpn :: "legacy_network_info \<Rightarrow> bool" where
  "exposes_vpn i = (li_network_type i = 17 \<and> \<not> info_inactive i)"

record legacy_ordinary =
  lo_count :: u32
  lo_sha256 :: string
  lo_fixture_present :: bool

definition ordinary_bounded :: "legacy_ordinary \<Rightarrow> bool" where
  "ordinary_bounded o' = (lo_count o' \<le> 256 \<and> lower_digest (lo_sha256 o'))"

record legacy_call_window =
  cw_started_boot_ns :: u64
  cw_finished_boot_ns :: u64

definition window_bounded :: "legacy_call_window \<Rightarrow> bool" where
  "window_bounded w =
     (0 < cw_started_boot_ns w \<and> cw_started_boot_ns w < cw_finished_boot_ns w
      \<and> cw_finished_boot_ns w \<le> I64_MAX \<and> cw_finished_boot_ns w - cw_started_boot_ns w \<le> 25000000000)"

definition window_contains :: "legacy_call_window \<Rightarrow> u64 \<Rightarrow> bool" where
  "window_contains w observed =
     (window_bounded w \<and> cw_started_boot_ns w \<le> observed \<and> observed \<le> cw_finished_boot_ns w)"

record legacy_source_evidence =
  ls_type_calls :: u32
  ls_enumeration_calls :: u32
  ls_type_started_boot_ns :: u64
  ls_enumeration_started_boot_ns :: u64
  ls_type_source :: bool
  ls_enumeration_source :: bool
  ls_type_normalized :: bool
  ls_enumeration_normalized :: bool
  ls_enumeration_count :: "u32 option"
  ls_ordinary :: "legacy_ordinary option"

definition legacy_quiet :: "legacy_source_evidence \<Rightarrow> bool" where
  "legacy_quiet s =
     (ls_type_calls s = 1 \<and> ls_enumeration_calls s = 1 \<and> \<not> ls_type_source s \<and> \<not> ls_enumeration_source s
      \<and> \<not> ls_type_normalized s \<and> \<not> ls_enumeration_normalized s
      \<and> ls_enumeration_count s = None \<and> ls_ordinary s = None)"

definition evidence_bounded :: "legacy_source_evidence \<Rightarrow> bool" where
  "evidence_bounded s =
     (ls_type_calls s \<le> 2 \<and> ls_enumeration_calls s \<le> 2
      \<and> none_or (\<lambda>n. n \<le> 256) (ls_enumeration_count s) \<and> none_or ordinary_bounded (ls_ordinary s))"

record legacy_observation =
  lg_type_window :: "legacy_call_window option"
  lg_enumeration_window :: "legacy_call_window option"
  lg_type_info :: "legacy_network_info option sample"
  lg_enumeration :: "legacy_network_info list sample"
  lg_ordinary :: "legacy_ordinary sample"

definition legacy_unavailable :: legacy_observation where
  "legacy_unavailable =
     \<lparr>lg_type_window = None, lg_enumeration_window = None, lg_type_info = Failed Unsupported,
      lg_enumeration = Failed Unsupported, lg_ordinary = Failed Unsupported\<rparr>"

definition legacy_bounded :: "legacy_observation \<Rightarrow> bool" where
  "legacy_bounded l =
     (none_or window_bounded (lg_type_window l) \<and> none_or window_bounded (lg_enumeration_window l)
      \<and> none_or (none_or info_bounded) (value_of (lg_type_info l))
      \<and> none_or (\<lambda>v. length v \<le> 256 \<and> list_all info_bounded v) (value_of (lg_enumeration l))
      \<and> none_or ordinary_bounded (value_of (lg_ordinary l)))"

definition type_absent :: "legacy_observation \<Rightarrow> bool" where
  "type_absent l = some_and (none_or (\<lambda>v. \<not> li_fixture v)) (value_of (lg_type_info l))"

definition enumeration_absent :: "legacy_observation \<Rightarrow> bool" where
  "enumeration_absent l =
     (some_and (list_all (\<lambda>v. \<not> li_fixture v)) (value_of (lg_enumeration l))
      \<and> some_and (\<lambda>v. \<not> lo_fixture_present v) (value_of (lg_ordinary l)))"


section \<open>Acknowledgement and observation\<close>

record framework_source_identity =
  fs_vpn_handle :: u64
  fs_ordinary_handle :: u64
  fs_profile_sha256 :: string

record framework_acknowledgement =
  fa_version :: u32
  fa_session :: u64
  fa_core_epoch :: u64
  fa_nonce :: string
  fa_generation :: u32
  fa_phase :: framework_phase
  fa_worker_uid :: u32
  fa_worker_pid :: u32
  fa_worker_start_ticks :: u64
  fa_sources :: framework_source_identity
  fa_fixture :: framework_fixture_spec
  fa_system_server_pid :: u32
  fa_system_server_start_ticks :: u64
  fa_hook_sha256 :: string
  fa_networks_source :: bool
  fa_capabilities_source :: bool
  fa_properties_source :: bool
  fa_networks_filtered :: bool
  fa_capabilities_filtered :: bool
  fa_properties_filtered :: bool
  fa_legacy :: legacy_source_evidence

definition ack_matches :: "framework_acknowledgement \<Rightarrow> framework_envelope \<Rightarrow> bool" where
  "ack_matches a e =
     (envelope_valid e \<and> evidence_bounded (fa_legacy a)
      \<and> fa_version a = FRAMEWORK_PROTOCOL \<and> fa_session a = fe_session e \<and> fa_core_epoch a = fe_core_epoch e
      \<and> fa_nonce a = fe_nonce e \<and> fa_generation a = fe_generation e \<and> fa_phase a = fe_phase e
      \<and> fa_worker_uid a = fe_worker_uid e \<and> fa_worker_pid a = fe_worker_pid e
      \<and> fa_worker_start_ticks a = fe_worker_start_ticks e \<and> fa_fixture a = fe_fixture e
      \<and> 1 < fa_system_server_pid a \<and> 0 < fa_system_server_start_ticks a
      \<and> fa_hook_sha256 a = fe_expected_hook_sha256 e
      \<and> fs_vpn_handle (fa_sources a) \<noteq> 0 \<and> fs_ordinary_handle (fa_sources a) \<noteq> 0
      \<and> fs_vpn_handle (fa_sources a) \<noteq> fs_ordinary_handle (fa_sources a)
      \<and> lower_digest (fs_profile_sha256 (fa_sources a)))"

record framework_observation =
  fo_networks :: "u64 list sample"
  fo_vpn_capabilities_present :: "bool sample"
  fo_vpn_transport :: "bool sample"
  fo_vpn_properties_present :: "bool sample"
  fo_vpn_interface :: "string option sample"
  fo_ordinary_capabilities_sha256 :: "string sample"
  fo_ordinary_properties_sha256 :: "string sample"
  fo_legacy :: legacy_observation

definition framework_bounded :: "framework_observation \<Rightarrow> bool" where
  "framework_bounded o' =
     (legacy_bounded (fo_legacy o')
      \<and> none_or (\<lambda>v. length v \<le> 256 \<and> list_all (\<lambda>h. h \<noteq> 0) v \<and> distinct v) (value_of (fo_networks o'))
      \<and> none_or (none_or (\<lambda>n. length n \<le> 64 \<and> \<not> any_control n)) (value_of (fo_vpn_interface o'))
      \<and> list_all (\<lambda>v. none_or (\<lambda>s. length s = 64 \<and> list_all is_ascii_hexdigit s) (value_of v))
          [fo_ordinary_capabilities_sha256 o', fo_ordinary_properties_sha256 o'])"

definition framework_unavailable :: framework_observation where
  "framework_unavailable =
     \<lparr>fo_networks = Failed Unsupported, fo_vpn_capabilities_present = Failed Unsupported,
      fo_vpn_transport = Failed Unsupported, fo_vpn_properties_present = Failed Unsupported,
      fo_vpn_interface = Failed Unsupported, fo_ordinary_capabilities_sha256 = Failed Unsupported,
      fo_ordinary_properties_sha256 = Failed Unsupported, fo_legacy = legacy_unavailable\<rparr>"

datatype framework_check = Networks | Capabilities | LinkProperties | LegacyTypeVpn | LegacyEnumeration

datatype framework_control =
    InvalidEnvelope | IdentityChanged | FwMissingNegative | FwMissingPositive | SourceChanged
  | ProductionPathNotObserved | FwOrdinaryChanged | FwProbeUnavailable | FwCleanupUnconfirmed

fun check_index :: "framework_check \<Rightarrow> nat" where
  "check_index Networks = 0"
| "check_index Capabilities = 1"
| "check_index LinkProperties = 2"
| "check_index LegacyTypeVpn = 3"
| "check_index LegacyEnumeration = 4"

fun control_index :: "framework_control \<Rightarrow> nat" where
  "control_index InvalidEnvelope = 0"
| "control_index IdentityChanged = 1"
| "control_index FwMissingNegative = 2"
| "control_index FwMissingPositive = 3"
| "control_index SourceChanged = 4"
| "control_index ProductionPathNotObserved = 5"
| "control_index FwOrdinaryChanged = 6"
| "control_index FwProbeUnavailable = 7"
| "control_index FwCleanupUnconfirmed = 8"

lemma check_index_inj: "check_index a = check_index b \<longleftrightarrow> a = b"
  by (cases a; cases b) simp_all

lemma control_index_inj: "control_index a = control_index b \<longleftrightarrow> a = b"
  by (cases a; cases b) simp_all

instantiation framework_check :: linorder
begin

definition less_eq_framework_check :: "framework_check \<Rightarrow> framework_check \<Rightarrow> bool" where
  "less_eq_framework_check a b = (check_index a \<le> check_index b)"

definition less_framework_check :: "framework_check \<Rightarrow> framework_check \<Rightarrow> bool" where
  "less_framework_check a b = (check_index a < check_index b)"

instance
  by standard (auto simp: less_eq_framework_check_def less_framework_check_def check_index_inj)

end

instantiation framework_control :: linorder
begin

definition less_eq_framework_control :: "framework_control \<Rightarrow> framework_control \<Rightarrow> bool" where
  "less_eq_framework_control a b = (control_index a \<le> control_index b)"

definition less_framework_control :: "framework_control \<Rightarrow> framework_control \<Rightarrow> bool" where
  "less_framework_control a b = (control_index a < control_index b)"

instance
  by standard (auto simp: less_eq_framework_control_def less_framework_control_def control_index_inj)

end

text \<open>\<^verbatim>\<open>sort()\<close> followed by \<^verbatim>\<open>dedup()\<close>.\<close>

definition sort_dedup :: "'a::linorder list \<Rightarrow> 'a list" where
  "sort_dedup xs = remdups_adj (sort xs)"

lemma set_sort_dedup [simp]: "set (sort_dedup xs) = set xs"
  by (simp add: sort_dedup_def)

lemma sort_dedup_Nil [simp]: "sort_dedup xs = [] \<longleftrightarrow> xs = []"
  using set_sort_dedup [of xs] by (metis set_empty)

record framework_phase_evidence =
  fp_envelope :: framework_envelope
  fp_ack :: framework_acknowledgement
  fp_obs :: framework_observation

record framework_attribution =
  ft_session :: u64
  ft_core_epoch :: u64
  ft_boot_id :: string
  ft_worker_uid :: u32
  ft_worker_pid :: u32
  ft_worker_start_ticks :: u64
  ft_system_server_pid :: u32
  ft_system_server_start_ticks :: u64
  ft_hook_source_sha256 :: string
  ft_source_profile_sha256 :: string

record scoped_framework =
  fr_attribution :: "framework_attribution option"
  fr_proven :: "framework_check list"
  fr_leaked :: "framework_check list"
  fr_controls :: "framework_control list"



section \<open>Legacy evaluation\<close>

definition invocation_current :: "framework_phase_evidence \<Rightarrow> bool \<Rightarrow> bool" where
  "invocation_current phase type_query =
     (let (window, observed) =
            (if type_query then (lg_type_window (fo_legacy (fp_obs phase)), ls_type_started_boot_ns (fa_legacy (fp_ack phase)))
             else (lg_enumeration_window (fo_legacy (fp_obs phase)), ls_enumeration_started_boot_ns (fa_legacy (fp_ack phase))))
      in some_and (\<lambda>w. window_contains w observed) window)"

definition type_shown :: "framework_phase_evidence \<Rightarrow> framework_phase_evidence \<Rightarrow> bool" where
  "type_shown raw protected =
     (ls_type_source (fa_legacy (fp_ack raw)) \<and> ls_type_source (fa_legacy (fp_ack protected))
      \<and> some_and (some_and info_positive) (value_of (lg_type_info (fo_legacy (fp_obs raw)))))"

definition enumeration_shown :: "framework_phase_evidence \<Rightarrow> framework_phase_evidence \<Rightarrow> bool" where
  "enumeration_shown raw protected =
     (ls_enumeration_source (fa_legacy (fp_ack raw)) \<and> ls_enumeration_source (fa_legacy (fp_ack protected))
      \<and> some_and (list_ex info_positive) (value_of (lg_enumeration (fo_legacy (fp_obs raw)))))"

definition legacy_observed_leaks :: "framework_phase_evidence \<Rightarrow> framework_phase_evidence \<Rightarrow> framework_check list" where
  "legacy_observed_leaks raw protected =
     (let type_positive = (invocation_current raw True \<and> invocation_current protected True \<and> type_shown raw protected);
          enum_positive = (invocation_current raw False \<and> invocation_current protected False \<and> enumeration_shown raw protected)
      in (if type_positive \<and> some_and (some_and exposes_vpn) (value_of (lg_type_info (fo_legacy (fp_obs protected))))
          then [LegacyTypeVpn] else [])
         @ (if enum_positive \<and> some_and (list_ex exposes_vpn) (value_of (lg_enumeration (fo_legacy (fp_obs protected))))
            then [LegacyEnumeration] else []))"

definition legacy_preserved :: "framework_phase_evidence \<Rightarrow> bool" where
  "legacy_preserved phase =
     (let baseline = fa_legacy (fp_ack phase); seen = fo_legacy (fp_obs phase)
      in some_and (\<lambda>v. 0 < lo_count v \<and> lo_fixture_present v) (ls_ordinary baseline)
         \<and> value_of (lg_ordinary seen) = ls_ordinary baseline
         \<and> some_and (\<lambda>v. Some (word_of_nat (length v)) = ls_enumeration_count baseline) (value_of (lg_enumeration seen)))"

definition legacy_step :: "bool \<Rightarrow> framework_check \<times> bool \<times> bool \<times> bool \<times> bool option \<times> bool \<Rightarrow>
    scoped_framework \<Rightarrow> scoped_framework" where
  "legacy_step cleanup row r =
     (case row of (vector, negative, positive, production, clean, preserved) \<Rightarrow>
        case (if \<not> negative then Some FwMissingNegative
              else if \<not> positive then Some FwMissingPositive
              else if \<not> preserved then Some FwOrdinaryChanged
              else if clean \<noteq> Some True then Some FwProbeUnavailable
              else if \<not> production then Some ProductionPathNotObserved else None) of
          Some control \<Rightarrow> r\<lparr>fr_controls := fr_controls r @ [control]\<rparr>
        | None \<Rightarrow> if cleanup then r\<lparr>fr_proven := fr_proven r @ [vector]\<rparr> else r)"

definition framework_default :: scoped_framework where
  "framework_default = \<lparr>fr_attribution = None, fr_proven = [], fr_leaked = [], fr_controls = []\<rparr>"

definition legacy_rows :: "framework_phase_evidence \<Rightarrow> framework_phase_evidence \<Rightarrow> framework_phase_evidence \<Rightarrow>
    framework_phase_evidence \<Rightarrow> (framework_check \<times> bool \<times> bool \<times> bool \<times> bool option \<times> bool) list" where
  "legacy_rows prepared raw protected revoked =
     (let once = (\<lambda>calls. calls (fa_legacy (fp_ack raw)) = (1 :: u32) \<and> calls (fa_legacy (fp_ack protected)) = 1);
          type_positive = (invocation_current raw True \<and> invocation_current protected True
                           \<and> once ls_type_calls \<and> type_shown raw protected);
          enum_positive = (invocation_current raw False \<and> invocation_current protected False
                           \<and> once ls_enumeration_calls \<and> enumeration_shown raw protected);
          negative_source = (legacy_quiet (fa_legacy (fp_ack prepared)) \<and> legacy_quiet (fa_legacy (fp_ack revoked)));
          type_negative = (negative_source \<and> invocation_current prepared True \<and> invocation_current revoked True
                           \<and> type_absent (fo_legacy (fp_obs prepared)) \<and> type_absent (fo_legacy (fp_obs revoked)));
          enum_negative = (negative_source \<and> invocation_current prepared False \<and> invocation_current revoked False
                           \<and> enumeration_absent (fo_legacy (fp_obs prepared)) \<and> enumeration_absent (fo_legacy (fp_obs revoked)));
          ordinary = list_all legacy_preserved [raw, protected];
          clean_type = map_option (some_and info_inactive) (value_of (lg_type_info (fo_legacy (fp_obs protected))));
          clean_enum = map_option (\<lambda>v. list_ex (\<lambda>i. li_network_type i = 17) v
                          \<and> list_all info_inactive (filter (\<lambda>i. li_network_type i = 17) v))
                        (value_of (lg_enumeration (fo_legacy (fp_obs protected))))
      in [(LegacyTypeVpn, type_negative, type_positive, ls_type_normalized (fa_legacy (fp_ack protected)), clean_type, True),
          (LegacyEnumeration, enum_negative, enum_positive, ls_enumeration_normalized (fa_legacy (fp_ack protected)),
             clean_enum, ordinary)])"

definition evaluate_legacy :: "framework_phase_evidence list \<Rightarrow> bool \<Rightarrow> scoped_framework" where
  "evaluate_legacy phases cleanup =
     (case phases of
        [prepared, raw, protected, revoked] \<Rightarrow>
          let start = framework_default\<lparr>fr_controls := (if cleanup then [] else [FwCleanupUnconfirmed]),
                                       fr_leaked := legacy_observed_leaks raw protected\<rparr>;
              r = fold (legacy_step cleanup) (legacy_rows prepared raw protected revoked) start
          in r\<lparr>fr_controls := sort_dedup (fr_controls r)\<rparr>
      | _ \<Rightarrow> framework_default)"


section \<open>Evaluation\<close>

definition fw_absent :: "framework_observation \<Rightarrow> framework_source_identity \<Rightarrow> bool" where
  "fw_absent observed source =
     (some_and (\<lambda>v. fs_vpn_handle source \<notin> set v \<and> fs_ordinary_handle source \<notin> set v) (value_of (fo_networks observed))
      \<and> value_of (fo_vpn_capabilities_present observed) = Some False
      \<and> value_of (fo_vpn_properties_present observed) = Some False)"

definition fw_phase_ok :: "framework_phase_evidence \<Rightarrow> framework_phase_evidence \<Rightarrow> framework_phase \<Rightarrow> bool" where
  "fw_phase_ok prepared e phase =
     (fp_envelope e = for_phase (fp_envelope prepared) phase \<and> ack_matches (fp_ack e) (fp_envelope e)
      \<and> framework_bounded (fp_obs e))"

definition networks_leak :: "framework_phase_evidence \<Rightarrow> framework_phase_evidence \<Rightarrow> framework_source_identity \<Rightarrow> bool" where
  "networks_leak raw protected source =
     (fa_networks_source (fp_ack raw) \<and> fa_networks_source (fp_ack protected)
      \<and> some_and (\<lambda>v. fs_vpn_handle source \<in> set v) (value_of (fo_networks (fp_obs raw)))
      \<and> some_and (\<lambda>v. fs_vpn_handle source \<in> set v) (value_of (fo_networks (fp_obs protected))))"

definition capabilities_leak :: "framework_phase_evidence \<Rightarrow> framework_phase_evidence \<Rightarrow> bool" where
  "capabilities_leak raw protected =
     (fa_capabilities_source (fp_ack raw) \<and> fa_capabilities_source (fp_ack protected)
      \<and> value_of (fo_vpn_capabilities_present (fp_obs raw)) = Some True
      \<and> value_of (fo_vpn_transport (fp_obs raw)) = Some True
      \<and> value_of (fo_vpn_capabilities_present (fp_obs protected)) = Some True)"

definition properties_leak :: "framework_phase_evidence \<Rightarrow> framework_phase_evidence \<Rightarrow> bool" where
  "properties_leak raw protected =
     (fa_properties_source (fp_ack raw) \<and> fa_properties_source (fp_ack protected)
      \<and> value_of (fo_vpn_properties_present (fp_obs raw)) = Some True
      \<and> value_of (fo_vpn_interface (fp_obs raw)) = Some (Some (ff_interface_name (fe_fixture (fp_envelope raw))))
      \<and> value_of (fo_vpn_properties_present (fp_obs protected)) = Some True)"

definition fw_observed_leaks :: "framework_phase_evidence list \<Rightarrow> framework_check list" where
  "fw_observed_leaks phases =
     (case phases of
        prepared # raw # protected # _ \<Rightarrow>
          let identity = fp_ack prepared
          in if list_ex (\<lambda>(e, phase). \<not> fw_phase_ok prepared e phase \<or> fa_sources (fp_ack e) \<noteq> fa_sources identity
                    \<or> fa_system_server_pid (fp_ack e) \<noteq> fa_system_server_pid identity
                    \<or> fa_system_server_start_ticks (fp_ack e) \<noteq> fa_system_server_start_ticks identity)
                  (zip [prepared, raw, protected] [Prepared, Raw, Protected])
             then []
             else (if networks_leak raw protected (fa_sources identity) then [Networks] else [])
                @ (if capabilities_leak raw protected then [Capabilities] else [])
                @ (if properties_leak raw protected then [LinkProperties] else [])
                @ legacy_observed_leaks raw protected
      | _ \<Rightarrow> [])"

definition attribution_of :: "framework_phase_evidence list \<Rightarrow> framework_attribution option" where
  "attribution_of phases =
     (case phases of
        [] \<Rightarrow> None
      | e # _ \<Rightarrow>
          if fe_phase (fp_envelope e) = Prepared \<and> ack_matches (fp_ack e) (fp_envelope e)
          then Some \<lparr>ft_session = fe_session (fp_envelope e), ft_core_epoch = fe_core_epoch (fp_envelope e),
                     ft_boot_id = fe_boot_id (fp_envelope e), ft_worker_uid = fe_worker_uid (fp_envelope e),
                     ft_worker_pid = fe_worker_pid (fp_envelope e),
                     ft_worker_start_ticks = fe_worker_start_ticks (fp_envelope e),
                     ft_system_server_pid = fa_system_server_pid (fp_ack e),
                     ft_system_server_start_ticks = fa_system_server_start_ticks (fp_ack e),
                     ft_hook_source_sha256 = fa_hook_sha256 (fp_ack e),
                     ft_source_profile_sha256 = fs_profile_sha256 (fa_sources (fp_ack e))\<rparr>
          else None)"

definition fw_quiet :: "framework_acknowledgement \<Rightarrow> bool" where
  "fw_quiet a =
     (\<not> fa_networks_source a \<and> \<not> fa_capabilities_source a \<and> \<not> fa_properties_source a
      \<and> \<not> fa_networks_filtered a \<and> \<not> fa_capabilities_filtered a \<and> \<not> fa_properties_filtered a)"

definition fw_ordinary :: "framework_phase_evidence \<Rightarrow> framework_phase_evidence \<Rightarrow> framework_source_identity \<Rightarrow> bool" where
  "fw_ordinary raw protected source =
     (value_of (fo_ordinary_capabilities_sha256 (fp_obs raw)) \<noteq> None
      \<and> value_of (fo_ordinary_properties_sha256 (fp_obs raw)) \<noteq> None
      \<and> fo_ordinary_capabilities_sha256 (fp_obs raw) = fo_ordinary_capabilities_sha256 (fp_obs protected)
      \<and> fo_ordinary_properties_sha256 (fp_obs raw) = fo_ordinary_properties_sha256 (fp_obs protected)
      \<and> some_and (\<lambda>v. fs_ordinary_handle source \<in> set v) (value_of (fo_networks (fp_obs protected))))"

text \<open>One row per vector: positive, injected, production path observed, and clean.\<close>

definition fw_rows :: "framework_phase_evidence \<Rightarrow> framework_phase_evidence \<Rightarrow> framework_source_identity \<Rightarrow>
    (framework_check \<times> bool \<times> bool \<times> bool \<times> bool option) list" where
  "fw_rows raw protected source =
     [(Networks,
        fa_networks_source (fp_ack raw)
          \<and> some_and (\<lambda>v. fs_vpn_handle source \<in> set v \<and> fs_ordinary_handle source \<in> set v) (value_of (fo_networks (fp_obs raw))),
        fa_networks_source (fp_ack protected), fa_networks_filtered (fp_ack protected),
        map_option (\<lambda>v. fs_vpn_handle source \<notin> set v) (value_of (fo_networks (fp_obs protected)))),
      (Capabilities,
        fa_capabilities_source (fp_ack raw) \<and> value_of (fo_vpn_capabilities_present (fp_obs raw)) = Some True
          \<and> value_of (fo_vpn_transport (fp_obs raw)) = Some True,
        fa_capabilities_source (fp_ack protected), fa_capabilities_filtered (fp_ack protected),
        map_option Not (value_of (fo_vpn_capabilities_present (fp_obs protected)))),
      (LinkProperties,
        fa_properties_source (fp_ack raw) \<and> value_of (fo_vpn_properties_present (fp_obs raw)) = Some True
          \<and> value_of (fo_vpn_interface (fp_obs raw)) = Some (Some (ff_interface_name (fe_fixture (fp_envelope raw)))),
        fa_properties_source (fp_ack protected), fa_properties_filtered (fp_ack protected),
        map_option Not (value_of (fo_vpn_properties_present (fp_obs protected))))]"

definition fw_control :: "framework_control \<Rightarrow> scoped_framework \<Rightarrow> scoped_framework" where
  "fw_control f r = r\<lparr>fr_controls := fr_controls r @ [f]\<rparr>"

definition fw_step :: "framework_check \<times> bool \<times> bool \<times> bool \<times> bool option \<Rightarrow> scoped_framework \<Rightarrow> scoped_framework" where
  "fw_step row r =
     (case row of (vector, positive, injected, production, clean) \<Rightarrow>
        if \<not> positive \<or> \<not> injected then fw_control FwMissingPositive r
        else (case clean of
                Some False \<Rightarrow> r\<lparr>fr_leaked := fr_leaked r @ [vector]\<rparr>
              | Some True \<Rightarrow> if production then r\<lparr>fr_proven := fr_proven r @ [vector]\<rparr>
                             else fw_control ProductionPathNotObserved r
              | None \<Rightarrow> fw_control FwProbeUnavailable r))"

definition evaluate_framework :: "framework_phase_evidence list \<Rightarrow> bool \<Rightarrow> scoped_framework" where
  "evaluate_framework phases cleanup =
     (let r0 = \<lparr>fr_attribution = attribution_of phases, fr_proven = [], fr_leaked = fw_observed_leaks phases,
               fr_controls = (if cleanup then [] else [FwCleanupUnconfirmed])\<rparr>
      in case phases of
           [prepared, raw, protected, revoked] \<Rightarrow>
             if list_ex (\<lambda>(e, phase). \<not> fw_phase_ok prepared e phase) (zip phases [Prepared, Raw, Protected, Revoked])
             then fw_control InvalidEnvelope r0
             else
               let original = fp_ack prepared
               in if list_ex (\<lambda>e. fa_system_server_pid (fp_ack e) \<noteq> fa_system_server_pid original
                        \<or> fa_system_server_start_ticks (fp_ack e) \<noteq> fa_system_server_start_ticks original
                        \<or> fa_hook_sha256 (fp_ack e) \<noteq> fa_hook_sha256 original) phases
                  then fw_control IdentityChanged r0
                  else if list_ex (\<lambda>e. fa_sources (fp_ack e) \<noteq> fa_sources original) phases
                  then fw_control SourceChanged r0
                  else
                    let source = fa_sources original;
                        r1 = (if \<not> fw_absent (fp_obs prepared) source \<or> \<not> fw_absent (fp_obs revoked) source
                                 \<or> \<not> fw_quiet (fp_ack prepared) \<or> \<not> fw_quiet (fp_ack revoked)
                              then fw_control FwMissingNegative r0 else r0);
                        r2 = (if fw_ordinary raw protected source then r1 else fw_control FwOrdinaryChanged r1);
                        r3 = fold fw_step (fw_rows raw protected source) r2;
                        r4 = r3\<lparr>fr_leaked := sort_dedup (fr_leaked r3), fr_controls := sort_dedup (fr_controls r3)\<rparr>;
                        r5 = (if fr_controls r4 \<noteq> [] then r4\<lparr>fr_proven := []\<rparr> else r4);
                        legacy = evaluate_legacy phases cleanup
                    in r5\<lparr>fr_proven := fr_proven r5 @ fr_proven legacy,
                          fr_leaked := sort_dedup (fr_leaked r5 @ fr_leaked legacy),
                          fr_controls := sort_dedup (fr_controls r5 @ fr_controls legacy)\<rparr>
         | _ \<Rightarrow> fw_control FwMissingNegative r0)"



section \<open>What the framework evaluation establishes\<close>

text \<open>Four phases of one run: one envelope, one \<^verbatim>\<open>system_server\<close>, one hook and one pair of sources.\<close>

definition fw_chain :: "framework_phase_evidence list \<Rightarrow> bool" where
  "fw_chain phases \<longleftrightarrow>
     (case phases of
        [p, raw, q, v] \<Rightarrow>
          fw_phase_ok p p Prepared \<and> fw_phase_ok p raw Raw \<and> fw_phase_ok p q Protected \<and> fw_phase_ok p v Revoked
          \<and> (\<forall>e \<in> {raw, q, v}. fa_system_server_pid (fp_ack e) = fa_system_server_pid (fp_ack p)
               \<and> fa_system_server_start_ticks (fp_ack e) = fa_system_server_start_ticks (fp_ack p)
               \<and> fa_hook_sha256 (fp_ack e) = fa_hook_sha256 (fp_ack p) \<and> fa_sources (fp_ack e) = fa_sources (fp_ack p))
      | _ \<Rightarrow> False)"

text \<open>
  The worker saw the injected object in the Raw phase, the production path reports that it removed
  it in the Protected phase, and the worker no longer saw it then.
\<close>

fun fw_hidden :: "framework_phase_evidence \<Rightarrow> framework_phase_evidence \<Rightarrow> framework_source_identity \<Rightarrow> framework_check \<Rightarrow> bool" where
  "fw_hidden raw q source Networks \<longleftrightarrow>
     some_and (\<lambda>v. fs_vpn_handle source \<in> set v) (value_of (fo_networks (fp_obs raw))) \<and> fa_networks_filtered (fp_ack q)
     \<and> some_and (\<lambda>v. fs_vpn_handle source \<notin> set v \<and> fs_ordinary_handle source \<in> set v) (value_of (fo_networks (fp_obs q)))"
| "fw_hidden raw q source Capabilities \<longleftrightarrow>
     value_of (fo_vpn_capabilities_present (fp_obs raw)) = Some True \<and> value_of (fo_vpn_transport (fp_obs raw)) = Some True
     \<and> fa_capabilities_filtered (fp_ack q) \<and> value_of (fo_vpn_capabilities_present (fp_obs q)) = Some False"
| "fw_hidden raw q source LinkProperties \<longleftrightarrow>
     value_of (fo_vpn_properties_present (fp_obs raw)) = Some True
     \<and> value_of (fo_vpn_interface (fp_obs raw)) = Some (Some (ff_interface_name (fe_fixture (fp_envelope raw))))
     \<and> fa_properties_filtered (fp_ack q) \<and> value_of (fo_vpn_properties_present (fp_obs q)) = Some False"
| "fw_hidden raw q source LegacyTypeVpn \<longleftrightarrow>
     some_and (some_and info_positive) (value_of (lg_type_info (fo_legacy (fp_obs raw)))) \<and> ls_type_normalized (fa_legacy (fp_ack q))
     \<and> some_and (some_and info_inactive) (value_of (lg_type_info (fo_legacy (fp_obs q))))"
| "fw_hidden raw q source LegacyEnumeration \<longleftrightarrow>
     some_and (list_ex info_positive) (value_of (lg_enumeration (fo_legacy (fp_obs raw))))
     \<and> ls_enumeration_normalized (fa_legacy (fp_ack q)) \<and> legacy_preserved q
     \<and> some_and (\<lambda>v. list_ex info_inactive v \<and> \<not> list_ex exposes_vpn v) (value_of (lg_enumeration (fo_legacy (fp_obs q))))"

definition row_leaks :: "framework_check \<times> bool \<times> bool \<times> bool \<times> bool option \<Rightarrow> bool" where
  "row_leaks = (\<lambda>(c, positive, injected, production, clean). positive \<and> injected \<and> clean = Some False)"

definition row_proves :: "framework_check \<times> bool \<times> bool \<times> bool \<times> bool option \<Rightarrow> bool" where
  "row_proves = (\<lambda>(c, positive, injected, production, clean). positive \<and> injected \<and> clean = Some True \<and> production)"

lemma fw_step_sel:
  "fr_leaked (fw_step row r) = fr_leaked r @ (if row_leaks row then [fst row] else [])"
  "fr_proven (fw_step row r) = fr_proven r @ (if row_proves row then [fst row] else [])"
  "\<exists>fs. fr_controls (fw_step row r) = fr_controls r @ fs"
  by (auto simp: fw_step_def row_leaks_def row_proves_def fw_control_def split: prod.splits option.splits bool.splits)

lemma fold_fw_step:
  "fr_leaked (fold fw_step rows r) = fr_leaked r @ map fst (filter row_leaks rows)"
  "fr_proven (fold fw_step rows r) = fr_proven r @ map fst (filter row_proves rows)"
  "\<exists>fs. fr_controls (fold fw_step rows r) = fr_controls r @ fs"
proof (induction rows arbitrary: r)
  case (Cons row rows)
  { case 1 then show ?case by (simp add: Cons fw_step_sel)
  next case 2 then show ?case by (simp add: Cons fw_step_sel)
  next case 3 then show ?case using Cons(3) [of "fw_step row r"] fw_step_sel(3) [of row r] by auto }
qed simp_all

definition legacy_row_proves :: "framework_check \<times> bool \<times> bool \<times> bool \<times> bool option \<times> bool \<Rightarrow> bool" where
  "legacy_row_proves = (\<lambda>(c, negative, positive, production, clean, preserved).
     negative \<and> positive \<and> production \<and> clean = Some True \<and> preserved)"

lemma legacy_step_sel:
  "fr_leaked (legacy_step cleanup row r) = fr_leaked r"
  "fr_proven (legacy_step cleanup row r) = fr_proven r @ (if cleanup \<and> legacy_row_proves row then [fst row] else [])"
  by (auto simp: legacy_step_def legacy_row_proves_def split: prod.splits)

lemma fold_legacy_step:
  "fr_leaked (fold (legacy_step cleanup) rows r) = fr_leaked r"
  "fr_proven (fold (legacy_step cleanup) rows r) = fr_proven r @ (if cleanup then map fst (filter legacy_row_proves rows) else [])"
  by (induction rows arbitrary: r) (simp_all add: legacy_step_sel)

lemma evaluate_legacy_sel:
  "fr_leaked (evaluate_legacy [p, raw, q, v] cleanup) = legacy_observed_leaks raw q"
  "fr_proven (evaluate_legacy [p, raw, q, v] cleanup) =
     (if cleanup then map fst (filter legacy_row_proves (legacy_rows p raw q v)) else [])"
  by (simp_all add: evaluate_legacy_def fold_legacy_step framework_default_def Let_def)

lemma evaluate_framework_chain:
  fixes cleanup :: bool
  assumes "fw_chain [p, raw, q, v]"
  defines "r \<equiv> evaluate_framework [p, raw, q, v] cleanup"
    and "source \<equiv> fa_sources (fp_ack p)"
  shows "set (fr_leaked r) = set (fw_observed_leaks [p, raw, q, v])
           \<union> fst ` {row \<in> set (fw_rows raw q source). row_leaks row} \<union> set (legacy_observed_leaks raw q)"
    and "set (fr_proven r) \<subseteq> {c. cleanup \<and> fw_ordinary raw q source \<and> c \<in> fst ` {row \<in> set (fw_rows raw q source). row_proves row}}
           \<union> {c. cleanup \<and> c \<in> fst ` {row \<in> set (legacy_rows p raw q v). legacy_row_proves row}}"
proof -
  define r0 where "r0 = \<lparr>fr_attribution = attribution_of [p, raw, q, v], fr_proven = [], fr_leaked = fw_observed_leaks [p, raw, q, v],
               fr_controls = (if cleanup then [] else [FwCleanupUnconfirmed])\<rparr>"
  define r1 where "r1 = (if \<not> fw_absent (fp_obs p) source \<or> \<not> fw_absent (fp_obs v) source
                                 \<or> \<not> fw_quiet (fp_ack p) \<or> \<not> fw_quiet (fp_ack v)
                              then fw_control FwMissingNegative r0 else r0)"
  define r2 where "r2 = (if fw_ordinary raw q source then r1 else fw_control FwOrdinaryChanged r1)"
  define r3 where "r3 = fold fw_step (fw_rows raw q source) r2"
  have ok: "list_all (\<lambda>(e, phase). fw_phase_ok p e phase) (zip [p, raw, q, v] [Prepared, Raw, Protected, Revoked])"
    "\<not> list_ex (\<lambda>e. fa_system_server_pid (fp_ack e) \<noteq> fa_system_server_pid (fp_ack p)
        \<or> fa_system_server_start_ticks (fp_ack e) \<noteq> fa_system_server_start_ticks (fp_ack p)
        \<or> fa_hook_sha256 (fp_ack e) \<noteq> fa_hook_sha256 (fp_ack p)) [p, raw, q, v]"
    "\<not> list_ex (\<lambda>e. fa_sources (fp_ack e) \<noteq> fa_sources (fp_ack p)) [p, raw, q, v]"
    using assms(1) by (simp_all add: fw_chain_def)
  have r: "r = (let r4 = r3\<lparr>fr_leaked := sort_dedup (fr_leaked r3), fr_controls := sort_dedup (fr_controls r3)\<rparr>;
                    r5 = (if fr_controls r4 \<noteq> [] then r4\<lparr>fr_proven := []\<rparr> else r4);
                    legacy = evaluate_legacy [p, raw, q, v] cleanup
                in r5\<lparr>fr_proven := fr_proven r5 @ fr_proven legacy,
                      fr_leaked := sort_dedup (fr_leaked r5 @ fr_leaked legacy),
                      fr_controls := sort_dedup (fr_controls r5 @ fr_controls legacy)\<rparr>)"
    unfolding r_def r3_def r2_def r1_def r0_def evaluate_framework_def source_def
    using ok by (simp add: Let_def)
  have l2: "fr_leaked r2 = fw_observed_leaks [p, raw, q, v]" "fr_proven r2 = []"
    by (simp_all add: r2_def r1_def r0_def fw_control_def)
  have c2: "fr_controls r2 = [] \<Longrightarrow> cleanup \<and> fw_ordinary raw q source"
    by (auto simp: r2_def r1_def r0_def fw_control_def split: if_splits)
  have c3: "fr_controls r3 = [] \<Longrightarrow> fr_controls r2 = []" using fold_fw_step(3) [of "fw_rows raw q source" r2] by (auto simp: r3_def)
  show "set (fr_leaked r) = set (fw_observed_leaks [p, raw, q, v])
           \<union> fst ` {row \<in> set (fw_rows raw q source). row_leaks row} \<union> set (legacy_observed_leaks raw q)"
    by (auto simp: r Let_def r3_def fold_fw_step(1) l2 evaluate_legacy_sel)
  show "set (fr_proven r) \<subseteq> {c. cleanup \<and> fw_ordinary raw q source \<and> c \<in> fst ` {row \<in> set (fw_rows raw q source). row_proves row}}
           \<union> {c. cleanup \<and> c \<in> fst ` {row \<in> set (legacy_rows p raw q v). legacy_row_proves row}}"
    using c2 c3 by (auto simp: r Let_def r3_def fold_fw_step(2) l2 evaluate_legacy_sel)
qed

lemma map_Not_Some [simp]: "map_option Not x = Some b \<longleftrightarrow> x = Some (\<not> b)" "Some b = map_option Not x \<longleftrightarrow> x = Some (\<not> b)"
  by (cases x; auto)+

lemma fst_image_iff: "c \<in> fst ` {row \<in> A. P row} \<longleftrightarrow> (\<exists>row \<in> A. fst row = c \<and> P row)"
  by auto

lemma fw_observed_chain:
  "fw_chain [p, raw, q, v] \<Longrightarrow>
     fw_observed_leaks [p, raw, q, v] =
       (if networks_leak raw q (fa_sources (fp_ack p)) then [Networks] else [])
       @ (if capabilities_leak raw q then [Capabilities] else [])
       @ (if properties_leak raw q then [LinkProperties] else []) @ legacy_observed_leaks raw q"
  by (simp add: fw_chain_def fw_observed_leaks_def Let_def)

lemma fw_rows_leaks:
  assumes "c \<in> fst ` {row \<in> set (fw_rows raw q source). row_leaks row}"
  shows "c = Networks \<and> networks_leak raw q source \<or> c = Capabilities \<and> capabilities_leak raw q
         \<or> c = LinkProperties \<and> properties_leak raw q"
  using assms unfolding fst_image_iff fw_rows_def
  by (cases c; auto simp: row_leaks_def networks_leak_def capabilities_leak_def properties_leak_def split: option.splits)

lemma fw_rows_hidden:
  assumes "fw_ordinary raw q source" "c \<in> fst ` {row \<in> set (fw_rows raw q source). row_proves row}"
  shows "fw_hidden raw q source c"
proof -
  from assms(1) have "some_and (\<lambda>v. fs_ordinary_handle source \<in> set v) (value_of (fo_networks (fp_obs q)))"
    by (simp add: fw_ordinary_def)
  then show ?thesis
    using assms(2) unfolding fst_image_iff fw_rows_def by (cases c; simp add: row_proves_def split: option.splits)
qed

lemma all_inactive:
  "list_ex (\<lambda>i. li_network_type i = 17) v \<and> list_all info_inactive (filter (\<lambda>i. li_network_type i = 17) v) \<longleftrightarrow>
     list_ex info_inactive v \<and> \<not> list_ex exposes_vpn v"
  by (auto simp: list_ex_iff list_all_iff exposes_vpn_def info_inactive_def)

lemma map_some_and: "map_option P x = Some True \<longleftrightarrow> some_and P x" "Some True = map_option P x \<longleftrightarrow> some_and P x"
  by (cases x; auto)+

lemma legacy_rows_hidden:
  assumes "c \<in> fst ` {row \<in> set (legacy_rows p raw q v). legacy_row_proves row}"
  shows "fw_hidden raw q source c"
  using assms unfolding fst_image_iff legacy_rows_def Let_def all_inactive
  by (cases c; auto simp: legacy_row_proves_def type_shown_def enumeration_shown_def map_some_and split: option.split)

lemma hidden_not_leaked:
  assumes "fw_hidden raw q (fa_sources (fp_ack p)) c"
  shows "c \<notin> set (fw_observed_leaks (p # raw # q # rest))"
proof -
  have "\<not> (some_and (some_and info_inactive) t \<and> some_and (some_and exposes_vpn) t)" for t
    by (auto simp: exposes_vpn_def split: option.splits)
  then show ?thesis
    using assms
    by (cases c) (auto simp: fw_observed_leaks_def networks_leak_def capabilities_leak_def properties_leak_def
        legacy_observed_leaks_def Let_def split: option.splits if_splits)
qed

lemma evaluate_framework_broken:
  assumes "\<not> fw_chain phases"
  shows "fr_leaked (evaluate_framework phases cleanup) = fw_observed_leaks phases \<and> fr_proven (evaluate_framework phases cleanup) = []"
proof (cases "\<exists>p raw q v. phases = [p, raw, q, v]")
  case True
  then obtain p raw q v where ph: "phases = [p, raw, q, v]" by blast
  show ?thesis
    using assms unfolding ph evaluate_framework_def Let_def fw_chain_def
    by (auto simp: fw_control_def)
next
  case False
  then show ?thesis
    by (auto simp: evaluate_framework_def fw_control_def Let_def split: list.splits)
qed

text \<open>
  C16. The verdict of the framework fixture.  The leaks are exactly those seen in the first three phases:
  the revocation, the cleanup and the ordinary networks do not change them.  Nothing is proven unless
  cleanup was confirmed and all four phases belong to one run, and then only checks whose injected
  object was visible raw, was removed by the production path and was not seen; so no check is both.
\<close>

theorem framework_verdict:
  "set (fr_leaked (evaluate_framework phases cleanup)) = set (fw_observed_leaks phases)
   \<and> set (fr_proven (evaluate_framework phases cleanup)) \<subseteq>
       {c. cleanup \<and> fw_chain phases \<and> fw_hidden (phases ! 1) (phases ! 2) (fa_sources (fp_ack (hd phases))) c}
   \<and> set (fr_proven (evaluate_framework phases cleanup)) \<inter> set (fr_leaked (evaluate_framework phases cleanup)) = {}"
proof (cases "fw_chain phases")
  case True
  then obtain p raw q v where ph: "phases = [p, raw, q, v]" by (auto simp: fw_chain_def split: list.splits)
  note e = evaluate_framework_chain [OF True [unfolded ph], of cleanup]
  have l: "set (fr_leaked (evaluate_framework phases cleanup)) = set (fw_observed_leaks phases)"
    using e(1) fw_rows_leaks [of _ raw q "fa_sources (fp_ack p)"] fw_observed_chain [OF True [unfolded ph]] unfolding ph by auto
  moreover have h: "set (fr_proven (evaluate_framework phases cleanup)) \<subseteq>
       {c. cleanup \<and> fw_chain phases \<and> fw_hidden raw q (fa_sources (fp_ack p)) c}"
    using e(2) fw_rows_hidden [of raw q "fa_sources (fp_ack p)"] legacy_rows_hidden [of _ p raw q v] True unfolding ph by blast
  moreover have "set (fr_proven (evaluate_framework phases cleanup)) \<inter> set (fr_leaked (evaluate_framework phases cleanup)) = {}"
    using h hidden_not_leaked [of raw q p _ "[v]"] unfolding l unfolding ph by blast
  ultimately show ?thesis by (simp add: ph)
next
  case False
  then show ?thesis by (simp add: evaluate_framework_broken)
qed

end
