(* ===== verification/Diag_Run.thy ===== *)
theory Diag_Run
  imports Diag_Native Diag_Framework
begin

text \<open>
  A diagnostic run and the assessment that is read from it (\<^verbatim>\<open>run.rs\<close> and \<^verbatim>\<open>assessment.rs\<close> of
  \<^verbatim>\<open>crates/diagnostic-model/src/\<close>): the checks that a supported product must pass, the identity of the
  run, the results recorded so far, and which required checks are proven, leaked or unverified.
\<close>

section \<open>The plan\<close>

definition DIAGNOSTIC_CONTRACT :: u32 where
  "DIAGNOSTIC_CONTRACT = 9"

datatype required_check =
    RqIoctlFlags | RqIoctlMtu | RqGetifaddrs | RqNetlinkLinks | RqIoctlAddresses | RqBindToDevice
  | RqNetlinkAddresses | RqNetlinkRoutes | RqNetlinkRules | RqProcRoutes | RqProcInterfaces | RqSysInterfaces
  | RqFrameworkNetworks | RqFrameworkDefaultNetwork | RqFrameworkCapabilities | RqFrameworkLinkProperties
  | RqFrameworkLegacyInfo | RqFrameworkCallbacks | RqFrameworkPendingIntent | RqPackageVisibility
  | RqPorts | RqFilesystem

fun required_index :: "required_check \<Rightarrow> nat" where
  "required_index RqIoctlFlags = 0"
| "required_index RqIoctlMtu = 1"
| "required_index RqGetifaddrs = 2"
| "required_index RqNetlinkLinks = 3"
| "required_index RqIoctlAddresses = 4"
| "required_index RqBindToDevice = 5"
| "required_index RqNetlinkAddresses = 6"
| "required_index RqNetlinkRoutes = 7"
| "required_index RqNetlinkRules = 8"
| "required_index RqProcRoutes = 9"
| "required_index RqProcInterfaces = 10"
| "required_index RqSysInterfaces = 11"
| "required_index RqFrameworkNetworks = 12"
| "required_index RqFrameworkDefaultNetwork = 13"
| "required_index RqFrameworkCapabilities = 14"
| "required_index RqFrameworkLinkProperties = 15"
| "required_index RqFrameworkLegacyInfo = 16"
| "required_index RqFrameworkCallbacks = 17"
| "required_index RqFrameworkPendingIntent = 18"
| "required_index RqPackageVisibility = 19"
| "required_index RqPorts = 20"
| "required_index RqFilesystem = 21"

definition required_of :: "nat \<Rightarrow> required_check" where
  "required_of i =
     [RqIoctlFlags, RqIoctlMtu, RqGetifaddrs, RqNetlinkLinks, RqIoctlAddresses, RqBindToDevice,
      RqNetlinkAddresses, RqNetlinkRoutes, RqNetlinkRules, RqProcRoutes, RqProcInterfaces, RqSysInterfaces,
      RqFrameworkNetworks, RqFrameworkDefaultNetwork, RqFrameworkCapabilities, RqFrameworkLinkProperties,
      RqFrameworkLegacyInfo, RqFrameworkCallbacks, RqFrameworkPendingIntent, RqPackageVisibility, RqPorts, RqFilesystem] ! i"

lemma required_of_index: "required_of (required_index c) = c"
  by (cases c) (simp_all add: required_of_def)

lemma required_index_inj: "required_index a = required_index b \<longleftrightarrow> a = b"
  using required_of_index by metis

instantiation required_check :: linorder
begin

definition less_eq_required_check :: "required_check \<Rightarrow> required_check \<Rightarrow> bool" where
  "less_eq_required_check a b = (required_index a \<le> required_index b)"

definition less_required_check :: "required_check \<Rightarrow> required_check \<Rightarrow> bool" where
  "less_required_check a b = (required_index a < required_index b)"

instance
  by standard (auto simp: less_eq_required_check_def less_required_check_def required_index_inj)

end

record diagnostic_plan =
  dp_contract :: u32
  dp_required :: "required_check list"

definition plan_base :: "required_check list" where
  "plan_base =
     [RqIoctlFlags, RqIoctlMtu, RqGetifaddrs, RqNetlinkLinks, RqIoctlAddresses, RqBindToDevice, RqNetlinkAddresses,
      RqNetlinkRoutes, RqNetlinkRules, RqProcRoutes, RqProcInterfaces, RqFrameworkNetworks, RqFrameworkDefaultNetwork,
      RqFrameworkCapabilities, RqFrameworkLinkProperties, RqFrameworkLegacyInfo, RqFrameworkCallbacks,
      RqFrameworkPendingIntent]"

definition supported :: "bool \<Rightarrow> bool \<Rightarrow> bool \<Rightarrow> diagnostic_plan" where
  "supported filesystem packages ports =
     (let required = plan_base @ (if filesystem then [RqSysInterfaces, RqFilesystem] else [])
            @ (if packages then [RqPackageVisibility] else []) @ (if ports then [RqPorts] else [])
      in \<lparr>dp_contract = DIAGNOSTIC_CONTRACT, dp_required = sort required\<rparr>)"


section \<open>Identity\<close>

record diagnostic_fingerprint =
  df_boot_id :: string
  df_core_epoch :: u64
  df_policy_sha256 :: string
  df_runtime_sha256 :: string
  df_platform_sha256 :: "string option"
  df_loaded_generations_sha256 :: "string option"
  df_loaded_generations_complete :: bool

definition digest :: "string \<Rightarrow> bool" where
  "digest s = (length s = 64 \<and> list_all is_ascii_hexdigit s)"

definition reusable :: "diagnostic_fingerprint \<Rightarrow> bool" where
  "reusable f =
     (df_boot_id f \<noteq> [] \<and> df_core_epoch f \<noteq> 0 \<and> digest (df_policy_sha256 f) \<and> digest (df_runtime_sha256 f)
      \<and> df_loaded_generations_complete f \<and> some_and digest (df_platform_sha256 f)
      \<and> some_and digest (df_loaded_generations_sha256 f))"

datatype diagnostic_outcome =
    Running
  | Incomplete scoped_native "required_check list"
  | Infrastructure string "scoped_native option" "bool option"

record diagnostic_run =
  dr_filesystem :: "fs_check scoped option"
  dr_sys_interfaces :: "sys_check scoped option"
  dr_native_raw :: "native_raw_receipt option"
  dr_proc_interfaces :: "proc_check scoped option"
  dr_addresses :: "address_check scoped option"
  dr_binding :: "bind_actor scoped option"
  dr_session :: u64
  dr_fingerprint :: diagnostic_fingerprint
  dr_plan :: diagnostic_plan
  dr_outcome :: diagnostic_outcome
  dr_framework :: "scoped_framework option"
  dr_stale :: bool


section \<open>Assessment\<close>

datatype assessment_phase = PhRunning | PhIncomplete | PhInfrastructure

datatype reuse_blocker =
    ConditionsChanged | LoadedGenerationsIncomplete | PlatformUnknown | LoadedGenerationsUnknown
  | InvalidFingerprint | UnsupportedPlan

record diagnostic_assessment =
  da_phase :: assessment_phase
  da_required :: "required_check list"
  da_proven :: "required_check list"
  da_leaked :: "required_check list"
  da_unverified :: "required_check list"
  da_native_controls :: "control_failure list"
  da_framework_controls :: "framework_control list"
  da_reuse_blockers :: "reuse_blocker list"
  da_infrastructure_detail :: "string option"
  da_cleanup_confirmed :: "bool option"

fun native_required :: "native_check \<Rightarrow> required_check" where
  "native_required IoctlFlags = RqIoctlFlags"
| "native_required IoctlMtu = RqIoctlMtu"
| "native_required Getifaddrs = RqGetifaddrs"
| "native_required NetlinkGetlink = RqNetlinkLinks"

definition address_group :: "address_check \<Rightarrow> required_check" where
  "address_group check =
     (case ac_vector check of
        GetifaddrsIpv4 \<Rightarrow> RqGetifaddrs | GetifaddrsIpv6 \<Rightarrow> RqGetifaddrs
      | AddrNetlinkIpv4 \<Rightarrow> RqNetlinkAddresses | AddrNetlinkIpv6 \<Rightarrow> RqNetlinkAddresses
      | _ \<Rightarrow> RqIoctlAddresses)"

definition framework_insert :: "framework_check list \<Rightarrow> bool \<Rightarrow> framework_check \<Rightarrow> required_check set \<Rightarrow> required_check set" where
  "framework_insert checks require_both_legacy check result =
     (let legacy = (if \<not> require_both_legacy \<or> list_all (\<lambda>c. c \<in> set checks) [LegacyTypeVpn, LegacyEnumeration]
                    then insert RqFrameworkLegacyInfo result else result)
      in case check of
           Networks \<Rightarrow> insert RqFrameworkNetworks result
         | Capabilities \<Rightarrow> insert RqFrameworkCapabilities result
         | LinkProperties \<Rightarrow> insert RqFrameworkLinkProperties result
         | LegacyTypeVpn \<Rightarrow> legacy
         | LegacyEnumeration \<Rightarrow> legacy)"

definition framework_checks :: "framework_check list \<Rightarrow> bool \<Rightarrow> required_check set" where
  "framework_checks checks require_both_legacy = fold (framework_insert checks require_both_legacy) checks {}"

definition reuse_blockers :: "diagnostic_run \<Rightarrow> required_check list \<Rightarrow> reuse_blocker list" where
  "reuse_blockers run required =
     (let f = dr_fingerprint run;
          b = (if dr_stale run then [ConditionsChanged] else [])
              @ (if df_loaded_generations_complete f then [] else [LoadedGenerationsIncomplete])
              @ (if df_platform_sha256 f = None then [PlatformUnknown] else [])
              @ (if df_loaded_generations_sha256 f = None then [LoadedGenerationsUnknown] else []);
          b = (if \<not> reusable f \<and> b = [] then [InvalidFingerprint] else b)
      in if dp_contract (dr_plan run) \<noteq> DIAGNOSTIC_CONTRACT \<or> dp_required (dr_plan run) \<noteq> required
         then b @ [UnsupportedPlan] else b)"

fun outcome_parts :: "diagnostic_outcome \<Rightarrow> assessment_phase \<times> scoped_native option \<times> string option \<times> bool option" where
  "outcome_parts Running = (PhRunning, None, None, None)"
| "outcome_parts (Incomplete native _) = (PhIncomplete, Some native, None, None)"
| "outcome_parts (Infrastructure detail native cleaned) = (PhInfrastructure, native, Some detail, cleaned)"

text \<open>The three accumulators of the assessment: proven, leaked, native controls.\<close>

type_synonym tally = "required_check set \<times> required_check set \<times> control_failure list"

definition native_tally :: "scoped_native option \<Rightarrow> tally" where
  "native_tally result =
     (case result of
        Some (NativeProven checks) \<Rightarrow> (set (map native_required (filter (\<lambda>c. c \<noteq> Getifaddrs) checks)), {}, [])
      | Some (NativeLeaked checks incomplete) \<Rightarrow> ({}, set (map native_required checks), incomplete)
      | Some (NativeUnverified reason observed_leaks) \<Rightarrow> ({}, set (map native_required observed_leaks), [reason])
      | None \<Rightarrow> ({}, {}, []))"

definition interface_getifaddrs :: "scoped_native option \<Rightarrow> bool" where
  "interface_getifaddrs result = (case result of Some (NativeProven checks) \<Rightarrow> Getifaddrs \<in> set checks | _ \<Rightarrow> False)"

definition address_tally :: "bool \<Rightarrow> address_check scoped option \<Rightarrow> tally \<Rightarrow> tally" where
  "address_tally getifaddrs addresses t =
     (case addresses of
        None \<Rightarrow> t
      | Some a \<Rightarrow>
          (case t of (proven, leaked, controls) \<Rightarrow>
             (fold (\<lambda>g p. if (g \<noteq> RqGetifaddrs \<or> getifaddrs)
                             \<and> list_all (\<lambda>c. c \<in> set (sr_proven a)) (filter (\<lambda>c. address_group c = g) address_required)
                          then insert g p else p)
                [RqIoctlAddresses, RqNetlinkAddresses, RqGetifaddrs] proven,
              leaked \<union> set (map address_group (sr_leaked a)),
              push_new (sr_controls a) controls)))"

text \<open>What a group with one required check contributes.\<close>

definition group_tally :: "required_check \<Rightarrow> 'c list \<Rightarrow> 'c scoped option \<Rightarrow> tally \<Rightarrow> tally" where
  "group_tally check required result t =
     (case result of
        None \<Rightarrow> t
      | Some r \<Rightarrow>
          (case t of (proven, leaked, controls) \<Rightarrow>
             (if complete_for required r then insert check proven else proven,
              if sr_leaked r \<noteq> [] then insert check leaked else leaked,
              push_new (sr_controls r) controls)))"

definition assessment :: "diagnostic_run \<Rightarrow> diagnostic_assessment" where
  "assessment run =
     (let planned = (\<lambda>c. c \<in> set (dp_required (dr_plan run)));
          required = dp_required (supported (planned RqFilesystem) (planned RqPackageVisibility) (planned RqPorts));
          (phase, result, detail, cleaned) = outcome_parts (dr_outcome run);
          t = native_tally result;
          t = address_tally (interface_getifaddrs result) (dr_addresses run) t;
          t = group_tally RqProcInterfaces proc_required (dr_proc_interfaces run) t;
          t = (if planned RqFilesystem then group_tally RqFilesystem fs_required (dr_filesystem run) t else t);
          t = (if planned RqSysInterfaces then group_tally RqSysInterfaces sys_required (dr_sys_interfaces run) t else t);
          (proven, leaked, controls) = group_tally RqBindToDevice all_bind_actors (dr_binding run) t;
          unpaired = (Option.bind (dr_native_raw run) qualified_sample = None);
          proven = (if unpaired then {} else proven);
          controls = (if unpaired \<and> phase \<noteq> PhRunning \<and> MissingPositiveControl \<notin> set controls
                      then controls @ [MissingPositiveControl] else controls);
          (proven, leaked, framework_controls) =
            (case dr_framework run of
               Some r \<Rightarrow> (proven \<union> framework_checks (fr_proven r) True, leaked \<union> framework_checks (fr_leaked r) False, fr_controls r)
             | None \<Rightarrow> (proven, leaked, []));
          proven = {c \<in> proven. c \<notin> leaked}
      in \<lparr>da_phase = phase, da_required = required,
          da_proven = sorted_list_of_set proven, da_leaked = sorted_list_of_set leaked,
          da_unverified = filter (\<lambda>c. c \<notin> proven \<and> c \<notin> leaked) required,
          da_native_controls = controls, da_framework_controls = framework_controls,
          da_reuse_blockers = reuse_blockers run required,
          da_infrastructure_detail = detail, da_cleanup_confirmed = cleaned\<rparr>)"


section \<open>Recording\<close>

definition refresh_missing :: "diagnostic_run \<Rightarrow> diagnostic_run" where
  "refresh_missing run =
     (let a = assessment run
      in case dr_outcome run of
           Incomplete native _ \<Rightarrow>
             run\<lparr>dr_outcome := Incomplete native (filter (\<lambda>r. r \<notin> set (da_proven a)) (da_required a))\<rparr>
         | _ \<Rightarrow> run)"

definition record_filesystem :: "fs_check scoped \<Rightarrow> diagnostic_run \<Rightarrow> diagnostic_run" where
  "record_filesystem r run = refresh_missing (run\<lparr>dr_filesystem := Some r\<rparr>)"

definition record_sys_interfaces :: "sys_check scoped \<Rightarrow> diagnostic_run \<Rightarrow> diagnostic_run" where
  "record_sys_interfaces r run = refresh_missing (run\<lparr>dr_sys_interfaces := Some r\<rparr>)"

definition record_addresses :: "address_check scoped \<Rightarrow> diagnostic_run \<Rightarrow> diagnostic_run" where
  "record_addresses r run = refresh_missing (run\<lparr>dr_addresses := Some r\<rparr>)"

definition record_proc_interfaces :: "proc_check scoped \<Rightarrow> diagnostic_run \<Rightarrow> diagnostic_run" where
  "record_proc_interfaces r run = refresh_missing (run\<lparr>dr_proc_interfaces := Some r\<rparr>)"

definition record_binding :: "bind_actor scoped \<Rightarrow> diagnostic_run \<Rightarrow> diagnostic_run" where
  "record_binding r run = refresh_missing (run\<lparr>dr_binding := Some r\<rparr>)"

definition record_framework :: "scoped_framework \<Rightarrow> diagnostic_run \<Rightarrow> diagnostic_run" where
  "record_framework r run = refresh_missing (run\<lparr>dr_framework := Some r\<rparr>)"

definition record_native :: "scoped_native \<Rightarrow> diagnostic_run \<Rightarrow> diagnostic_run" where
  "record_native r run = refresh_missing (run\<lparr>dr_outcome := Incomplete r []\<rparr>)"



section \<open>What an assessment says\<close>

lemma finite_required [simp]: "finite (A :: required_check set)"
proof -
  have "c \<in> required_of ` {..<22}" for c
    by (rule image_eqI [of _ _ "required_index c"]) (simp_all add: required_of_index, cases c, simp_all)
  then show ?thesis by (meson finite_imageI finite_lessThan finite_subset subsetI)
qed

abbreviation planned :: "diagnostic_run \<Rightarrow> required_check \<Rightarrow> bool" where
  "planned run c \<equiv> c \<in> set (dp_required (dr_plan run))"

definition required_for :: "diagnostic_run \<Rightarrow> required_check list" where
  "required_for run = dp_required (supported (planned run RqFilesystem) (planned run RqPackageVisibility) (planned run RqPorts))"

text \<open>The verdicts of the native groups, before pairing and the framework result.\<close>

definition native_groups :: "diagnostic_run \<Rightarrow> tally" where
  "native_groups run =
     (let result = fst (snd (outcome_parts (dr_outcome run)));
          t = group_tally RqProcInterfaces proc_required (dr_proc_interfaces run)
                (address_tally (interface_getifaddrs result) (dr_addresses run) (native_tally result));
          t = (if planned run RqFilesystem then group_tally RqFilesystem fs_required (dr_filesystem run) t else t);
          t = (if planned run RqSysInterfaces then group_tally RqSysInterfaces sys_required (dr_sys_interfaces run) t else t)
      in group_tally RqBindToDevice all_bind_actors (dr_binding run) t)"

definition paired_run :: "diagnostic_run \<Rightarrow> bool" where
  "paired_run run \<longleftrightarrow> Option.bind (dr_native_raw run) qualified_sample \<noteq> None"

definition run_leaks :: "diagnostic_run \<Rightarrow> required_check set" where
  "run_leaks run =
     fst (snd (native_groups run)) \<union> (case dr_framework run of Some r \<Rightarrow> framework_checks (fr_leaked r) False | None \<Rightarrow> {})"

definition run_proofs :: "diagnostic_run \<Rightarrow> required_check set" where
  "run_proofs run =
     ((if paired_run run then fst (native_groups run) else {})
      \<union> (case dr_framework run of Some r \<Rightarrow> framework_checks (fr_proven r) True | None \<Rightarrow> {})) - run_leaks run"

lemma assessment_sel:
  "da_required (assessment run) = required_for run"
  "set (da_proven (assessment run)) = run_proofs run"
  "set (da_leaked (assessment run)) = run_leaks run"
  "da_unverified (assessment run) = filter (\<lambda>c. c \<notin> run_proofs run \<and> c \<notin> run_leaks run) (required_for run)"
  "da_reuse_blockers (assessment run) = reuse_blockers run (required_for run)"
proof -
  obtain ph res de cl where o: "outcome_parts (dr_outcome run) = (ph, res, de, cl)" by (metis surj_pair)
  obtain p l c where g: "native_groups run = (p, l, c)" by (metis surj_pair)
  have g': "group_tally RqBindToDevice all_bind_actors (dr_binding run)
      (let t = group_tally RqProcInterfaces proc_required (dr_proc_interfaces run)
                (address_tally (interface_getifaddrs res) (dr_addresses run) (native_tally res));
           t = (if planned run RqFilesystem then group_tally RqFilesystem fs_required (dr_filesystem run) t else t)
       in if planned run RqSysInterfaces then group_tally RqSysInterfaces sys_required (dr_sys_interfaces run) t else t) = (p, l, c)"
    using g by (simp add: native_groups_def o Let_def)
  note d = assessment_def o prod.case Let_def required_for_def
  show "da_required (assessment run) = required_for run"
    "set (da_proven (assessment run)) = run_proofs run"
    "set (da_leaked (assessment run)) = run_leaks run"
    "da_unverified (assessment run) = filter (\<lambda>c. c \<notin> run_proofs run \<and> c \<notin> run_leaks run) (required_for run)"
    "da_reuse_blockers (assessment run) = reuse_blockers run (required_for run)"
    unfolding d g' [unfolded Let_def] run_proofs_def run_leaks_def paired_run_def g
    by (auto split: option.splits intro!: filter_cong)
qed

definition framework_group :: "required_check set" where
  "framework_group = {RqFrameworkNetworks, RqFrameworkCapabilities, RqFrameworkLinkProperties, RqFrameworkLegacyInfo}"

lemma framework_checks_group: "framework_checks cs b \<subseteq> framework_group"
proof -
  have "fold (framework_insert all b) cs A \<subseteq> A \<union> framework_group" for all A
  proof (induction cs arbitrary: A)
    case (Cons c cs)
    have "framework_insert all b c A \<subseteq> A \<union> framework_group"
      by (cases c) (auto simp: framework_insert_def framework_group_def Let_def)
    then show ?case using Cons [of "framework_insert all b c A"] by auto
  qed simp
  then show ?thesis by (auto simp: framework_checks_def)
qed

text \<open>The checks that no evaluator of the model can settle yet.\<close>

definition unsettled :: "required_check set" where
  "unsettled = {RqNetlinkRoutes, RqNetlinkRules, RqProcRoutes, RqFrameworkDefaultNetwork, RqFrameworkCallbacks,
               RqFrameworkPendingIntent}"

definition settled :: "tally \<Rightarrow> bool" where
  "settled t \<longleftrightarrow> fst t \<inter> unsettled = {} \<and> fst (snd t) \<inter> unsettled = {}"

lemma settled_native: "settled (native_tally r)"
proof -
  have "native_required c \<notin> unsettled" for c by (cases c) (simp_all add: unsettled_def)
  then show ?thesis by (auto simp: settled_def native_tally_def split: option.splits scoped_native.splits)
qed

lemma unsettled_names:
  "RqIoctlAddresses \<notin> unsettled" "RqNetlinkAddresses \<notin> unsettled" "RqGetifaddrs \<notin> unsettled" "RqProcInterfaces \<notin> unsettled"
  "RqFilesystem \<notin> unsettled" "RqSysInterfaces \<notin> unsettled" "RqBindToDevice \<notin> unsettled"
  by (simp_all add: unsettled_def)

lemma settled_address:
  assumes "settled t"
  shows "settled (address_tally g a t)"
proof -
  have "address_group c \<notin> unsettled" for c
    by (simp add: address_group_def unsettled_names split: address_vector.split)
  then have "set (map address_group cs) \<inter> unsettled = {}" for cs by auto
  then show ?thesis
    using assms unsettled_names by (cases t; cases a) (auto simp: settled_def address_tally_def simp del: set_map)
qed

lemma settled_group: "check \<notin> unsettled \<Longrightarrow> settled t \<Longrightarrow> settled (group_tally check required r t)"
  by (cases t) (auto simp: settled_def group_tally_def split: option.splits if_splits)

lemma settled_groups: "settled (native_groups run)"
  by (simp add: native_groups_def Let_def settled_group settled_address settled_native unsettled_names)

lemma unsettled_open:
  assumes "c \<in> unsettled"
  shows "c \<notin> run_proofs run \<and> c \<notin> run_leaks run"
proof -
  have "c \<notin> framework_group" using assms by (auto simp: framework_group_def unsettled_def)
  then have "c \<notin> framework_checks cs b" for cs b using framework_checks_group by blast
  moreover have "c \<notin> fst (native_groups run)" "c \<notin> fst (snd (native_groups run))"
    using settled_groups [of run] assms by (auto simp: settled_def)
  ultimately show ?thesis by (simp add: run_proofs_def run_leaks_def split: option.split)
qed

lemma unsettled_required: "unsettled \<subseteq> set (required_for run)"
  unfolding required_for_def supported_def Let_def diagnostic_plan.select_convs set_sort set_append
  by (rule le_supI1) (simp add: unsettled_def plan_base_def)

text \<open>
  C15. The assessment accounts for every required check exactly once: proven, leaked or unverified.  It
  never reports a full pass: routes, rules, the default network, callbacks and pending intents are
  required in every plan and stay unverified whatever was recorded.  And without a qualified
  unfiltered sample of the worker no native check is proven, only framework ones can be.
\<close>

theorem assessment_accounts:
  "set (da_required (assessment run)) \<subseteq>
     set (da_proven (assessment run)) \<union> set (da_leaked (assessment run)) \<union> set (da_unverified (assessment run))
   \<and> set (da_proven (assessment run)) \<inter> set (da_leaked (assessment run)) = {}
   \<and> set (da_unverified (assessment run)) \<inter> (set (da_proven (assessment run)) \<union> set (da_leaked (assessment run))) = {}
   \<and> unsettled \<subseteq> set (da_unverified (assessment run))
   \<and> (paired_run run \<or> set (da_proven (assessment run)) \<subseteq> framework_group)"
proof -
  have "unsettled \<subseteq> set (da_unverified (assessment run))"
    using unsettled_open [of _ run] unsettled_required [of run] by (auto simp: assessment_sel)
  moreover have "paired_run run \<or> run_proofs run \<subseteq> framework_group"
    using framework_checks_group by (fastforce simp: run_proofs_def split: option.splits)
  ultimately show ?thesis by (auto simp: assessment_sel run_proofs_def)
qed

text \<open>
  A retained run may be reused exactly when nothing changed since, its fingerprint identifies boot,
  epoch, policy, runtime, platform and loaded generations, and its plan is the supported one.
\<close>

theorem reuse_exact:
  "da_reuse_blockers (assessment run) = [] \<longleftrightarrow>
     \<not> dr_stale run \<and> reusable (dr_fingerprint run) \<and> dp_contract (dr_plan run) = DIAGNOSTIC_CONTRACT
     \<and> dp_required (dr_plan run) = required_for run"
  by (auto simp: assessment_sel reuse_blockers_def Let_def reusable_def split: option.splits)

text \<open>The invariant of a run's outcome: what is missing is what is required and not proven.\<close>

fun missing_exact :: "diagnostic_run \<Rightarrow> bool" where
  "missing_exact run \<longleftrightarrow>
     (case dr_outcome run of
        Incomplete _ missing \<Rightarrow> missing = filter (\<lambda>c. c \<notin> set (da_proven (assessment run))) (da_required (assessment run))
      | _ \<Rightarrow> True)"

lemma refresh_keeps:
  "run_proofs (refresh_missing run) = run_proofs run" "run_leaks (refresh_missing run) = run_leaks run"
  "required_for (refresh_missing run) = required_for run"
proof -
  have r: "dr_plan (refresh_missing run) = dr_plan run" "dr_framework (refresh_missing run) = dr_framework run"
    "dr_native_raw (refresh_missing run) = dr_native_raw run" "native_groups (refresh_missing run) = native_groups run"
    by (auto simp: refresh_missing_def native_groups_def Let_def split: diagnostic_outcome.splits)
  show "run_leaks (refresh_missing run) = run_leaks run" by (simp add: run_leaks_def r)
  then show "run_proofs (refresh_missing run) = run_proofs run" by (simp add: run_proofs_def paired_run_def r)
  show "required_for (refresh_missing run) = required_for run" by (simp add: required_for_def r)
qed

lemma refresh_missing_exact: "missing_exact (refresh_missing run)"
proof -
  have "dr_outcome (refresh_missing run) =
     (case dr_outcome run of Incomplete n _ \<Rightarrow> Incomplete n (filter (\<lambda>c. c \<notin> run_proofs run) (required_for run)) | out \<Rightarrow> out)"
    by (simp add: refresh_missing_def assessment_sel Let_def split: diagnostic_outcome.split)
  then show ?thesis by (simp add: assessment_sel refresh_keeps split: diagnostic_outcome.split)
qed

lemmas record_defs = record_filesystem_def record_sys_interfaces_def record_addresses_def record_proc_interfaces_def
  record_binding_def record_framework_def record_native_def

text \<open>
  Every recording leaves the list of missing checks exact, and since some required checks can never
  be proven here, the list of a run with an outcome is never empty.
\<close>

theorem recordings_exact:
  "missing_exact (record_filesystem a run) \<and> missing_exact (record_sys_interfaces b run) \<and> missing_exact (record_addresses c run)
   \<and> missing_exact (record_proc_interfaces d run) \<and> missing_exact (record_binding e run)
   \<and> missing_exact (record_framework f run) \<and> missing_exact (record_native n run)
   \<and> (\<exists>missing. dr_outcome (record_native n run) = Incomplete n missing \<and> unsettled \<subseteq> set missing)"
proof -
  have "\<exists>missing. dr_outcome (record_native n run) = Incomplete n missing \<and> unsettled \<subseteq> set missing"
    using unsettled_open [of _ "run\<lparr>dr_outcome := Incomplete n []\<rparr>"] unsettled_required [of "run\<lparr>dr_outcome := Incomplete n []\<rparr>"]
    by (auto simp: record_native_def refresh_missing_def assessment_sel Let_def)
  then show ?thesis by (simp add: record_defs refresh_missing_exact del: missing_exact.simps)
qed

end
