(* ===== verification/Io_Steps.thy ===== *)
theory Io_Steps
  imports Prelude
begin

text \<open>
  Fallible operations on a world outside the program: a result and the world after it.  Code that
  reads and writes files, sockets or a clock is written with these, over the operations of that
  world as parameters; nothing is assumed of what an operation returns.
\<close>

type_synonym ('w, 'e, 'a) io = "'w \<Rightarrow> ('e + 'a) \<times> 'w"

definition io_ok :: "'a \<Rightarrow> ('w, 'e, 'a) io" where
  "io_ok x w = (Inr x, w)"

definition io_err :: "'e \<Rightarrow> ('w, 'e, 'a) io" where
  "io_err e w = (Inl e, w)"

definition io_then :: "('w, 'e, 'a) io \<Rightarrow> ('a \<Rightarrow> ('w, 'e, 'b) io) \<Rightarrow> ('w, 'e, 'b) io" where
  "io_then m f w = (case m w of (Inl e, w') \<Rightarrow> (Inl e, w') | (Inr x, w') \<Rightarrow> f x w')"

text \<open>\<^verbatim>\<open>map_err\<close> on an operation, and a pure \<^verbatim>\<open>Result\<close> as one.\<close>

definition io_map_err :: "('e \<Rightarrow> 'f) \<Rightarrow> ('w, 'e, 'a) io \<Rightarrow> ('w, 'f, 'a) io" where
  "io_map_err g m w = (case m w of (Inl e, w') \<Rightarrow> (Inl (g e), w') | (Inr x, w') \<Rightarrow> (Inr x, w'))"

definition io_lift :: "'e + 'a \<Rightarrow> ('w, 'e, 'a) io" where
  "io_lift r w = (r, w)"

definition io_guard :: "bool \<Rightarrow> 'e \<Rightarrow> ('w, 'e, unit) io" where
  "io_guard c e = (if c then io_err e else io_ok ())"

lemma io_ok_Inr [simp]: "io_ok x w = (Inr y, w') \<longleftrightarrow> x = y \<and> w = w'" "io_ok x w \<noteq> (Inl e, w')"
  by (simp_all add: io_ok_def)

lemma io_err_Inr [simp]: "io_err e w \<noteq> (Inr y, w')" "io_err e w = (Inl e', w') \<longleftrightarrow> e = e' \<and> w = w'"
  by (simp_all add: io_err_def)

lemma io_then_Inr: "io_then m f w = (Inr y, w') \<longleftrightarrow> (\<exists>x v. m w = (Inr x, v) \<and> f x v = (Inr y, w'))"
  by (auto simp: io_then_def split: prod.splits sum.splits)

lemma io_map_err_Inr [simp]: "io_map_err g m w = (Inr y, w') \<longleftrightarrow> m w = (Inr y, w')"
  by (auto simp: io_map_err_def split: prod.splits sum.splits)

lemma io_lift_Inr [simp]: "io_lift r w = (Inr y, w') \<longleftrightarrow> r = Inr y \<and> w = w'"
  by (simp add: io_lift_def)

lemma io_guard_Inr [simp]: "io_guard c e w = (Inr u, w') \<longleftrightarrow> \<not> c \<and> w = w'"
  by (simp add: io_guard_def)

lemmas io_simps = io_then_Inr

end
