(* ===== verification/Os_World.thy ===== *)
theory Os_World
  imports Io_Steps
begin

text \<open>
  The operating system as a parameter: the calls that the daemon makes on files, directories, the
  boot clock and the random device, each returning any result and any next world.  And the
  code that stands directly on them: suspend-aware deadlines (\<^verbatim>\<open>crates/core-daemon/src/boot_time.rs\<close>) and
  descriptor-relative opening (\<^verbatim>\<open>payloads/mod.rs\<close>).
\<close>

datatype io_error = NotFound | IoError string

type_synonym handle = nat

record file_meta =
  fm_regular :: bool
  fm_dev :: u64
  fm_ino :: u64
  fm_len :: u64
  fm_uid :: u32
  fm_mode :: u32
  fm_nlink :: u64
  fm_mtime :: int
  fm_mtime_nsec :: int
  fm_ctime :: int
  fm_ctime_nsec :: int

record 'w os =
  os_clock :: "('w, io_error, int \<times> int) io"
  os_sleep :: "nat \<Rightarrow> 'w \<Rightarrow> 'w"
  os_random :: "nat \<Rightarrow> ('w, io_error, bytes) io"
  os_read_text :: "string \<Rightarrow> nat \<Rightarrow> ('w, io_error, string) io"
  os_open_dir :: "string \<Rightarrow> ('w, io_error, handle) io"
  os_openat :: "handle \<Rightarrow> string \<Rightarrow> bool \<Rightarrow> ('w, io_error, handle) io"
  os_reopen :: "handle \<Rightarrow> ('w, io_error, handle) io"
  os_stat :: "handle \<Rightarrow> ('w, io_error, file_meta) io"
  os_stat_path :: "string \<Rightarrow> ('w, io_error, file_meta) io"
  os_lstat_at :: "handle \<Rightarrow> string \<Rightarrow> ('w, io_error, file_meta) io"
  os_take :: "handle \<Rightarrow> nat \<Rightarrow> ('w, io_error, bytes) io"
  os_stage :: "handle \<Rightarrow> ('w, io_error, handle) io"
  os_write_all :: "handle \<Rightarrow> bytes \<Rightarrow> ('w, io_error, unit) io"
  os_chmod :: "handle \<Rightarrow> u32 \<Rightarrow> ('w, io_error, unit) io"
  os_chgrp :: "handle \<Rightarrow> u32 \<Rightarrow> ('w, io_error, unit) io"
  os_sync :: "handle \<Rightarrow> ('w, io_error, unit) io"
  os_persist :: "handle \<Rightarrow> handle \<Rightarrow> string \<Rightarrow> ('w, io_error, unit) io"
  os_discard :: "handle \<Rightarrow> 'w \<Rightarrow> 'w"
  os_process_id :: "'w \<Rightarrow> u32 \<times> 'w"
  os_list_dir :: "string \<Rightarrow> ('w, io_error, (io_error + string option) list) io"
  os_dup :: "int \<Rightarrow> 'w \<Rightarrow> handle option \<times> 'w"
  os_seals :: "handle \<Rightarrow> 'w \<Rightarrow> int \<times> 'w"
  os_read_exact_at :: "handle \<Rightarrow> nat \<Rightarrow> nat \<Rightarrow> ('w, io_error, bytes) io"
  os_monotonic :: "'w \<Rightarrow> nat \<times> 'w"
  os_remove_at :: "handle \<Rightarrow> string \<Rightarrow> ('w, io_error, unit) io"

definition invalid :: "string \<Rightarrow> io_error" where
  "invalid message = IoError message"

text \<open>\<^verbatim>\<open>bounded_text\<close> of \<^verbatim>\<open>crates/loader-ipc/src/image.rs\<close>: at most one byte beyond the limit is read.\<close>

definition bounded_text_of :: "'w os \<Rightarrow> string \<Rightarrow> nat \<Rightarrow> ('w, io_error, string) io" where
  "bounded_text_of os path limit =
     io_then (os_read_text os path (limit + 1)) (\<lambda>text.
       io_then (io_guard (limit < length text) (invalid ''process evidence exceeds budget'')) (\<lambda>_. io_ok text))"

text \<open>The same file, unchanged: device, inode, length, owner, mode and both times.\<close>

definition meta_identity :: "file_meta \<Rightarrow> u64 \<times> u64 \<times> u64 \<times> u32 \<times> u32 \<times> int \<times> int \<times> int \<times> int" where
  "meta_identity m =
     (fm_dev m, fm_ino m, fm_len m, fm_uid m, fm_mode m, fm_mtime m, fm_mtime_nsec m, fm_ctime m, fm_ctime_nsec m)"


section \<open>Boot clock\<close>

text \<open>An instant is a \<^verbatim>\<open>Duration\<close> since boot: nanoseconds, of which whole seconds fit 64 bits.\<close>

type_synonym instant = nat

definition NANOS :: nat where
  "NANOS = 1000000000"

definition duration_checked :: "nat \<Rightarrow> io_error + instant" where
  "duration_checked ns = (if ns < 2 ^ 64 * NANOS then Inr ns else Inl (invalid ''invalid boot clock''))"

definition from_timespec :: "int \<times> int \<Rightarrow> io_error + instant" where
  "from_timespec time =
     (case time of (sec, nsec) \<Rightarrow>
        if sec < 0 \<or> 2 ^ 64 \<le> sec then Inl (invalid ''invalid boot clock'')
        else if nsec < 0 \<or> 2 ^ 32 \<le> nsec then Inl (invalid ''invalid boot clock'')
        else if int NANOS \<le> nsec then Inl (invalid ''invalid boot clock'')
        else Inr (nat sec * NANOS + nat nsec))"

definition instant_now :: "'w os \<Rightarrow> ('w, io_error, instant) io" where
  "instant_now os = io_then (os_clock os) (\<lambda>time. io_lift (from_timespec time))"

definition instant_millis :: "instant \<Rightarrow> io_error + u64" where
  "instant_millis t =
     (if t div 1000000 < 2 ^ 64 then Inr (word_of_nat (t div 1000000)) else Inl (invalid ''invalid boot clock''))"

definition instant_ticks :: "instant \<Rightarrow> u64 \<Rightarrow> io_error + u64" where
  "instant_ticks t frequency =
     (if frequency = 0 then Inl (invalid ''invalid boot clock'')
      else if 2 ^ 128 \<le> t * unat frequency then Inl (invalid ''invalid boot clock'')
      else if 2 ^ 64 \<le> t * unat frequency div NANOS then Inl (invalid ''invalid boot clock'')
      else Inr (word_of_nat (t * unat frequency div NANOS)))"

record boot_deadline =
  bd_start :: instant
  bd_end :: instant

definition instant_after :: "instant \<Rightarrow> nat \<Rightarrow> io_error + boot_deadline" where
  "instant_after t duration = and_then (duration_checked (t + duration)) (\<lambda>e. Inr \<lparr>bd_start = t, bd_end = e\<rparr>)"

definition deadline_elapsed :: "boot_deadline \<Rightarrow> instant \<Rightarrow> io_error + nat" where
  "deadline_elapsed d now = (if now < bd_start d then Inl (invalid ''invalid boot clock'') else Inr (now - bd_start d))"

definition deadline_from_now :: "'w os \<Rightarrow> nat \<Rightarrow> ('w, io_error, boot_deadline) io" where
  "deadline_from_now os duration = io_then (instant_now os) (\<lambda>t. io_lift (instant_after t duration))"

definition expires_millis :: "boot_deadline \<Rightarrow> io_error + u64" where
  "expires_millis d = instant_millis (bd_end d)"

definition deadline_remaining :: "boot_deadline \<Rightarrow> instant \<Rightarrow> nat option" where
  "deadline_remaining d now =
     (if now < bd_start d then None
      else if bd_end d < now then None
      else if bd_end d - now = 0 then None else Some (bd_end d - now))"

definition deadline_expired :: "boot_deadline \<Rightarrow> instant \<Rightarrow> bool" where
  "deadline_expired d now = (deadline_remaining d now = None)"

definition wait_slice :: "boot_deadline \<Rightarrow> instant \<Rightarrow> nat option" where
  "wait_slice d now = map_option (\<lambda>r. min r 250000000) (deadline_remaining d now)"

text \<open>A deadline holds exactly from its start until its end; a clock that went back ends it.\<close>

lemma deadline_expired_iff: "\<not> deadline_expired d now \<longleftrightarrow> bd_start d \<le> now \<and> now < bd_end d"
  by (auto simp: deadline_expired_def deadline_remaining_def)

lemma wait_slice_bounded: "wait_slice d now = Some s \<Longrightarrow> 0 < s \<and> now + s \<le> bd_end d \<and> s \<le> 250000000"
  by (auto simp: wait_slice_def deadline_remaining_def split: if_splits)

definition boot_ms :: "'w os \<Rightarrow> ('w, io_error, u64) io" where
  "boot_ms os = io_then (instant_now os) (\<lambda>t. io_lift (instant_millis t))"


section \<open>Opening beneath a directory\<close>

text \<open>
  The copy of the root descriptor that the code works on is the root itself here: making one fails only
  with errors that the first opening may return as well.
\<close>

fun open_parts :: "'w os \<Rightarrow> handle \<Rightarrow> string list \<Rightarrow> ('w, io_error, handle) io" where
  "open_parts os dir [] = io_ok dir"
| "open_parts os dir (part # rest) =
     (if part = [] \<or> part = ''.'' \<or> part = ''..'' then io_err (invalid ''invalid relative path'')
      else if CHR 0x00 \<in> set part then io_err (invalid ''nul byte found in provided data'')
      else
        io_then (os_openat os dir part (rest \<noteq> [])) (\<lambda>next.
          if rest \<noteq> [] then open_parts os next rest
          else io_then (os_stat os next) (\<lambda>m.
                 io_then (io_guard (\<not> fm_regular m) (invalid ''not a regular file'')) (\<lambda>_. os_reopen os next))))"

definition open_beneath :: "'w os \<Rightarrow> handle \<Rightarrow> string \<Rightarrow> ('w, io_error, handle) io" where
  "open_beneath os root path = open_parts os root (split_on (\<lambda>c. c = CHR ''/'') path)"

lemma open_parts_file:
  "open_parts os dir parts w = (Inr h, w') \<Longrightarrow> parts \<noteq> [] \<Longrightarrow>
     list_all (\<lambda>p. p \<noteq> [] \<and> p \<noteq> ''.'' \<and> p \<noteq> ''..'') parts
     \<and> (\<exists>n m v v'. os_stat os n v = (Inr m, v') \<and> fm_regular m \<and> os_reopen os n v' = (Inr h, w'))"
proof (induction os dir parts arbitrary: w rule: open_parts.induct)
  case (2 os dir part rest)
  then show ?case by (cases "rest = []") (fastforce simp: io_simps split: if_splits)+
qed simp

end
