(* ===== verification/Diag_Raw.thy ===== *)
theory Diag_Raw
  imports Diag_Run Os_World
begin

text \<open>
  The raw interval of a worker: while Core holds a lease on the kernel's raw endpoint, one thread of
  the worker reads unfiltered.  The wire of that endpoint (\<^verbatim>\<open>crates/protocol/src/diagnostic_raw.rs\<close>), the
  lease (\<^verbatim>\<open>native_raw.rs\<close>) and the exchange with the worker (\<^verbatim>\<open>native_exchange.rs\<close>, both in
  \<^verbatim>\<open>crates/core-daemon/src/autonomous/\<close>).  The endpoint itself is a parameter: three operations of which
  nothing is assumed.
\<close>

section \<open>Wire\<close>

definition MAX_LEASE_MS :: u32 where
  "MAX_LEASE_MS = 5000"

definition MAX_COMMAND_BYTES :: nat where
  "MAX_COMMAND_BYTES = 128"

definition MAX_REPLY_BYTES :: nat where
  "MAX_REPLY_BYTES = 1024"

definition REGISTRATION_MARKER :: string where
  "REGISTRATION_MARKER = ''VHRAW1!''"

datatype raw_error = RawMalformed | RawUnsupported | RawTooLarge

datatype raw_phase = Released | Armed | Registered | Active

record raw_snapshot =
  sn_backend :: u32
  sn_max_ms :: u32
  sn_phase :: raw_phase
  sn_tid :: u32
  sn_uid :: u32
  sn_nonce :: u64
  sn_remaining_ms :: u32

definition registration_name :: "u64 \<Rightarrow> raw_error + bytes" where
  "registration_name token =
     (if token = 0 then Inl RawMalformed
      else Inr (map (\<lambda>i. char_of (unat (drop_bit (8 * i) token) mod 256 :: nat)) [0..<8] @ REGISTRATION_MARKER @ [CHR 0x00]))"

definition raw_header :: string where
  "raw_header = ''vpnhide diagnostic-raw 1''"

definition decimal :: "string \<Rightarrow> u32 option" where
  "decimal s =
     (if s \<noteq> [] \<and> list_all is_ascii_digit s then map_option word_of_nat (from_str_radix 32 10 s) else None)"

definition raw_nonce :: "string \<Rightarrow> u64 option" where
  "raw_nonce s =
     (if length s = 16 \<and> list_all is_lower_hex s then map_option word_of_nat (from_str_radix 64 16 s) else None)"

definition raw_phase_of :: "string \<Rightarrow> raw_phase option" where
  "raw_phase_of s =
     (if s = ''released'' then Some Released else if s = ''armed'' then Some Armed
      else if s = ''registered'' then Some Registered else if s = ''active'' then Some Active else None)"

record raw_fields =
  rf_backend :: "u32 option"
  rf_max_ms :: "u32 option"
  rf_phase :: "raw_phase option"
  rf_tid :: "u32 option"
  rf_uid :: "u32 option"
  rf_nonce :: "u64 option"
  rf_remaining :: "u32 option"

definition no_fields :: raw_fields where
  "no_fields = \<lparr>rf_backend = None, rf_max_ms = None, rf_phase = None, rf_tid = None, rf_uid = None, rf_nonce = None,
               rf_remaining = None\<rparr>"

text \<open>One match arm: the key must be new and its value readable.\<close>

definition raw_line :: "raw_fields \<Rightarrow> string \<Rightarrow> raw_error + raw_fields" where
  "raw_line f line =
     and_then (ok_or (split_once CHR '' '' line) RawMalformed) (\<lambda>(key, value).
       if key = ''backend'' \<and> rf_backend f = None
       then and_then (ok_or (decimal value) RawMalformed) (\<lambda>v. Inr (f\<lparr>rf_backend := Some v\<rparr>))
       else if key = ''max_ms'' \<and> rf_max_ms f = None
       then and_then (ok_or (decimal value) RawMalformed) (\<lambda>v. Inr (f\<lparr>rf_max_ms := Some v\<rparr>))
       else if key = ''phase'' \<and> rf_phase f = None
       then and_then (ok_or (raw_phase_of value) RawMalformed) (\<lambda>v. Inr (f\<lparr>rf_phase := Some v\<rparr>))
       else if key = ''tid'' \<and> rf_tid f = None
       then and_then (ok_or (decimal value) RawMalformed) (\<lambda>v. Inr (f\<lparr>rf_tid := Some v\<rparr>))
       else if key = ''uid'' \<and> rf_uid f = None
       then and_then (ok_or (decimal value) RawMalformed) (\<lambda>v. Inr (f\<lparr>rf_uid := Some v\<rparr>))
       else if key = ''nonce'' \<and> rf_nonce f = None
       then and_then (ok_or (raw_nonce value) RawMalformed) (\<lambda>v. Inr (f\<lparr>rf_nonce := Some v\<rparr>))
       else if key = ''remaining_ms'' \<and> rf_remaining f = None
       then and_then (ok_or (decimal value) RawMalformed) (\<lambda>v. Inr (f\<lparr>rf_remaining := Some v\<rparr>))
       else Inl RawMalformed)"

definition snapshot_of :: "raw_fields \<Rightarrow> raw_error + raw_snapshot" where
  "snapshot_of f =
     (case (rf_backend f, rf_max_ms f, rf_phase f, rf_tid f, rf_uid f, rf_nonce f, rf_remaining f) of
        (Some b, Some m, Some p, Some t, Some u, Some n, Some r) \<Rightarrow>
          Inr \<lparr>sn_backend = b, sn_max_ms = m, sn_phase = p, sn_tid = t, sn_uid = u, sn_nonce = n, sn_remaining_ms = r\<rparr>
      | _ \<Rightarrow> Inl RawMalformed)"

definition snapshot_check :: "raw_snapshot \<Rightarrow> raw_error + raw_snapshot" where
  "snapshot_check s =
     (if sn_max_ms s = 0 then Inl RawUnsupported
      else if MAX_LEASE_MS < sn_max_ms s \<or> sn_max_ms s < sn_remaining_ms s \<or> I32_MAX < sn_tid s then Inl RawMalformed
      else if (if sn_phase s = Released then sn_tid s \<noteq> 0 \<or> sn_uid s \<noteq> 0 \<or> sn_remaining_ms s \<noteq> 0
               else sn_tid s = 0 \<or> sn_uid s = 0 \<or> sn_nonce s = 0 \<or> sn_remaining_ms s = 0)
      then Inl RawMalformed
      else Inr s)"

definition snapshot_parse :: "bytes \<Rightarrow> raw_error + raw_snapshot" where
  "snapshot_parse bs =
     (if MAX_REPLY_BYTES < length bs then Inl RawTooLarge
      else if \<not> utf8_ok bs then Inl RawMalformed
      else if bs = [] \<or> last bs \<noteq> CHR 0x0A \<or> CHR 0x0D \<in> set bs then Inl RawMalformed
      else
        (case str_lines bs of
           [] \<Rightarrow> Inl RawUnsupported
         | first # rest \<Rightarrow>
             if first \<noteq> raw_header then Inl RawUnsupported
             else and_then (try_fold raw_line no_fields rest) (\<lambda>f. and_then (snapshot_of f) snapshot_check)))"

definition snapshot_matches :: "raw_snapshot \<Rightarrow> u32 \<Rightarrow> u32 \<Rightarrow> u32 \<Rightarrow> u64 \<Rightarrow> raw_phase \<Rightarrow> bool" where
  "snapshot_matches s backend tid uid token phase =
     (sn_backend s = backend \<and> sn_tid s = tid \<and> sn_uid s = uid \<and> sn_nonce s = token \<and> sn_phase s = phase
      \<and> (phase = Released \<or> 0 < sn_remaining_ms s))"

datatype raw_command = CmdArm u32 u32 u64 u32 | CmdActivate u64 | CmdRevoke u64

definition command_encode :: "raw_command \<Rightarrow> raw_error + string" where
  "command_encode c =
     (let hex = (\<lambda>nonce :: u64. pad_zero 16 (hex_str (unat nonce)));
          dec = (\<lambda>n :: u32. dec_str (unat n));
          encoded =
            (case c of
               CmdArm tid uid nonce duration_ms \<Rightarrow>
                 if tid = 0 \<or> I32_MAX < tid \<or> uid = 0 \<or> duration_ms = 0 \<or> MAX_LEASE_MS < duration_ms
                 then Inl RawMalformed
                 else Inr (nonce, ''v1 arm '' @ dec tid @ '' '' @ dec uid @ '' '' @ hex nonce @ '' '' @ dec duration_ms @ [CHR 0x0A])
             | CmdActivate nonce \<Rightarrow> Inr (nonce, ''v1 activate '' @ hex nonce @ [CHR 0x0A])
             | CmdRevoke nonce \<Rightarrow> Inr (nonce, ''v1 revoke '' @ hex nonce @ [CHR 0x0A]))
      in and_then encoded (\<lambda>(token, line).
           if token = 0 then Inl RawMalformed else if MAX_COMMAND_BYTES < length line then Inl RawTooLarge else Inr line))"


section \<open>Lease\<close>

text \<open>
  The endpoint: opening it with the checks on what was opened, one bounded read from the start, one
  write that reports how many bytes were taken, and eight random bytes.
\<close>

record 'w raw_node =
  rn_open :: "('w, io_error, unit) io"
  rn_read :: "('w, io_error, bytes) io"
  rn_write :: "bytes \<Rightarrow> ('w, io_error, nat) io"
  rn_random :: "('w, io_error, bytes) io"

record raw_lease =
  rl_backend :: u32
  rl_tid :: u32
  rl_uid :: u32
  rl_nonce :: u64

definition raw_read :: "'w raw_node \<Rightarrow> ('w, io_error, raw_snapshot) io" where
  "raw_read node = io_then (rn_read node) (\<lambda>bs. io_map_err (\<lambda>_. IoError ''snapshot'') (io_lift (snapshot_parse bs)))"

definition lease_command :: "'w raw_node \<Rightarrow> raw_command \<Rightarrow> ('w, io_error, unit) io" where
  "lease_command node c =
     io_then (io_map_err (\<lambda>_. IoError ''command'') (io_lift (command_encode c))) (\<lambda>bs.
       io_then (rn_write node bs) (\<lambda>n. io_guard (n \<noteq> length bs) (IoError ''uncertain short RAW command'')))"

definition lease_expect :: "'w raw_node \<Rightarrow> raw_lease \<Rightarrow> raw_phase \<Rightarrow> ('w, io_error, unit) io" where
  "lease_expect node l phase =
     io_then (raw_read node) (\<lambda>s.
       io_guard (\<not> snapshot_matches s (rl_backend l) (rl_tid l) (rl_uid l) (rl_nonce l) phase)
         (IoError ''RAW scope readback mismatch''))"

text \<open>Dropping a lease writes the revocation and ignores what becomes of it.\<close>

definition lease_drop :: "'w raw_node \<Rightarrow> raw_lease \<Rightarrow> 'w \<Rightarrow> 'w" where
  "lease_drop node l w = snd (lease_command node (CmdRevoke (rl_nonce l)) w)"

definition lease_arm :: "'w raw_node \<Rightarrow> u32 \<Rightarrow> u32 \<Rightarrow> u32 \<Rightarrow> u64 \<Rightarrow> ('w, io_error, raw_lease) io" where
  "lease_arm node backend tid uid nonce =
     io_then (rn_open node) (\<lambda>_.
     io_then (raw_read node) (\<lambda>capability.
     io_then (io_guard (sn_backend capability \<noteq> backend \<or> sn_phase capability \<noteq> Released)
                (IoError ''RAW endpoint not idle for this backend'')) (\<lambda>_ w.
       let l = \<lparr>rl_backend = backend, rl_tid = tid, rl_uid = uid, rl_nonce = nonce\<rparr>
       in case io_then (lease_command node (CmdArm tid uid nonce (sn_max_ms capability)))
                 (\<lambda>_. lease_expect node l Armed) w of
            (Inl e, w') \<Rightarrow> (Inl e, lease_drop node l w')
          | (Inr _, w') \<Rightarrow> (Inr l, w'))))"

definition lease_activate :: "'w raw_node \<Rightarrow> raw_lease \<Rightarrow> ('w, io_error, unit) io" where
  "lease_activate node l =
     io_then (lease_expect node l Registered) (\<lambda>_.
     io_then (lease_command node (CmdActivate (rl_nonce l))) (\<lambda>_. lease_expect node l Active))"

definition lease_finish :: "'w raw_node \<Rightarrow> raw_lease \<Rightarrow> ('w, io_error, bool) io" where
  "lease_finish node l w =
     (case lease_expect node l Active w of
        (r, w1) \<Rightarrow>
          io_then (lease_command node (CmdRevoke (rl_nonce l))) (\<lambda>_.
          io_then (raw_read node) (\<lambda>s.
          io_then (io_guard (sn_backend s \<noteq> rl_backend l \<or> sn_nonce s \<noteq> rl_nonce l \<or> sn_phase s \<noteq> Released)
                     (IoError ''RAW revocation unconfirmed'')) (\<lambda>_. io_ok (\<not> isl r)))) w1)"


section \<open>Exchange\<close>

datatype diagnostic_error = Disabled | Busy | WrongProcess | Expired | StaleSession | MalformedRequest

datatype native_worker_phase = WpPrepared | WpRegistered | WpRawMeasured native_measurement

datatype native_worker_instruction = InsRegister u64 | ObserveRaw | ObserveProtected

datatype exchange_phase = ExRegister | ExRaw | ExProtected | ExFailed

record native_exchange =
  nx_identity :: thread_identity
  nx_phase :: exchange_phase
  nx_grant :: "raw_lease option"
  nx_receipt :: native_raw_receipt

definition exchange_unsupported :: "thread_identity \<Rightarrow> native_raw_receipt \<Rightarrow> native_exchange" where
  "exchange_unsupported identity receipt =
     \<lparr>nx_identity = identity, nx_phase = ExProtected, nx_grant = None, nx_receipt = receipt\<rparr>"

definition exchange_armed :: "thread_identity \<Rightarrow> raw_lease \<Rightarrow> native_exchange" where
  "exchange_armed identity grant =
     \<lparr>nx_identity = identity, nx_phase = ExRegister, nx_grant = Some grant,
      nx_receipt = RawFailed identity Registration None\<rparr>"

definition exchange_failed :: "thread_identity \<Rightarrow> native_raw_stage \<Rightarrow> native_exchange" where
  "exchange_failed identity stage =
     \<lparr>nx_identity = identity, nx_phase = ExFailed, nx_grant = None, nx_receipt = RawFailed identity stage None\<rparr>"

definition protected_ready :: "native_exchange \<Rightarrow> bool" where
  "protected_ready x = (nx_phase x = ExProtected)"

definition exchange_begin :: "'w raw_node \<Rightarrow> thread_identity \<Rightarrow> u32 option \<Rightarrow>
    ('w, diagnostic_error, native_exchange \<times> native_worker_instruction) io" where
  "exchange_begin node identity backend =
     (case backend of
        None \<Rightarrow> io_ok (exchange_unsupported identity (UnsupportedBackend identity), ObserveProtected)
      | Some b \<Rightarrow>
          io_then (io_map_err (\<lambda>_. Disabled) (rn_random node)) (\<lambda>bs w.
            let nonce = ne_word bs
            in if nonce = 0 then (Inl Disabled, w)
               else (case lease_arm node b (ti_tid identity) (ti_uid identity) nonce w of
                       (Inr grant, w') \<Rightarrow> (Inr (exchange_armed identity grant, InsRegister nonce), w')
                     | (Inl NotFound, w') \<Rightarrow>
                         (Inr (exchange_unsupported identity (CapabilityAbsent identity), ObserveProtected), w')
                     | (Inl (IoError _), w') \<Rightarrow> (Inl Disabled, w'))))"

definition exchange_step :: "'w raw_node \<Rightarrow> thread_identity \<Rightarrow> native_worker_phase \<Rightarrow> native_exchange \<Rightarrow> 'w \<Rightarrow>
    (diagnostic_error + native_worker_instruction) \<times> native_exchange \<times> 'w" where
  "exchange_step node identity phase x w =
     (if identity \<noteq> nx_identity x then (Inl WrongProcess, x, w)
      else
        (case (nx_phase x, phase) of
           (ExRegister, WpRegistered) \<Rightarrow>
             let x1 = x\<lparr>nx_phase := ExFailed, nx_receipt := RawFailed identity Activation None\<rparr>
             in (case nx_grant x of
                   None \<Rightarrow> (Inl Disabled, x1, w)
                 | Some grant \<Rightarrow>
                     (case lease_activate node grant w of
                        (Inl _, w') \<Rightarrow> (Inl Disabled, x1, w')
                      | (Inr _, w') \<Rightarrow>
                          (Inr ObserveRaw, x1\<lparr>nx_phase := ExRaw, nx_receipt := RawFailed identity Measurement None\<rparr>, w')))
         | (ExRaw, WpRawMeasured native) \<Rightarrow>
             if \<not> nm_bounded native
             then (Inl MalformedRequest, x\<lparr>nx_phase := ExFailed, nx_receipt := RawFailed identity Measurement None\<rparr>, w)
             else
               let x1 = x\<lparr>nx_phase := ExFailed, nx_receipt := RawFailed identity Revocation (Some native)\<rparr>
               in (case nx_grant x of
                     None \<Rightarrow> (Inl Disabled, x1, w)
                   | Some grant \<Rightarrow>
                       (case lease_finish node grant w of
                          (Inl _, w') \<Rightarrow> (Inl Disabled, x1, w')
                        | (Inr qualified, w') \<Rightarrow>
                            (Inr ObserveProtected,
                             x1\<lparr>nx_receipt := (if qualified then Paired identity native
                                              else RawFailed identity Measurement (Some native)),
                                nx_grant := None, nx_phase := ExProtected\<rparr>,
                             lease_drop node grant w')))
         | _ \<Rightarrow> (Inl StaleSession, x, w)))"



section \<open>What an exchange establishes\<close>

text \<open>A parsed snapshot is within the limits of the endpoint, and names its holder exactly while a lease is held.\<close>

lemma snapshot_parse_ok:
  assumes "snapshot_parse bs = Inr s"
  shows "0 < sn_max_ms s \<and> sn_max_ms s \<le> MAX_LEASE_MS \<and> sn_remaining_ms s \<le> sn_max_ms s
         \<and> (sn_phase s = Released \<longleftrightarrow> sn_tid s = 0) \<and> (sn_phase s \<noteq> Released \<longrightarrow> sn_nonce s \<noteq> 0 \<and> 0 < sn_remaining_ms s)"
proof -
  from assms obtain t where "snapshot_check t = Inr s"
    by (auto simp: snapshot_parse_def and_then_Inr split: if_splits list.splits)
  then show ?thesis
    by (auto simp: snapshot_check_def word_gt_0 split: if_splits)
qed

lemma lease_expect_Inr:
  "lease_expect node l phase w = (Inr u, w') \<longleftrightarrow>
     (\<exists>bs s. rn_read node w = (Inr bs, w') \<and> snapshot_parse bs = Inr s
           \<and> snapshot_matches s (rl_backend l) (rl_tid l) (rl_uid l) (rl_nonce l) phase)"
  by (auto simp: lease_expect_def raw_read_def io_simps)

text \<open>
  A finished lease was released: the revocation of this nonce was written whole and the endpoint then
  read back as released with this nonce; and the interval qualifies only if the endpoint read back as
  active for this thread just before.
\<close>

lemma lease_finish_Inr:
  assumes "lease_finish node l w = (Inr q, w')"
  shows "\<exists>line bs s w1 w2.
     command_encode (CmdRevoke (rl_nonce l)) = Inr line \<and> rn_write node line w1 = (Inr (length line), w2)
     \<and> rn_read node w2 = (Inr bs, w') \<and> snapshot_parse bs = Inr s
     \<and> sn_backend s = rl_backend l \<and> sn_nonce s = rl_nonce l \<and> sn_phase s = Released
     \<and> w1 = snd (lease_expect node l Active w) \<and> (q \<longleftrightarrow> \<not> isl (fst (lease_expect node l Active w)))"
proof -
  obtain r w1 where e: "lease_expect node l Active w = (r, w1)" by (cases "lease_expect node l Active w")
  show ?thesis
    using assms by (auto simp: lease_finish_def e io_simps lease_command_def raw_read_def)
qed

text \<open>
  Every history of an exchange: it begins, worker requests arrive in any order and with any content,
  and between them the world changes in any way.  The instructions given to the worker are collected.
\<close>

inductive exchange_run :: "'w raw_node \<Rightarrow> native_worker_instruction list \<Rightarrow> native_exchange \<Rightarrow> 'w \<Rightarrow> bool" for node where
  begins: "exchange_begin node identity backend w = (Inr (x, i), w') \<Longrightarrow> exchange_run node [i] x w'"
| told: "exchange_run node is x w \<Longrightarrow> exchange_step node identity phase x w = (Inr i, x', w') \<Longrightarrow>
           exchange_run node (is @ [i]) x' w'"
| refused: "exchange_run node is x w \<Longrightarrow> exchange_step node identity phase x w = (Inl e, x', w') \<Longrightarrow>
           exchange_run node is x' w'"
| world: "exchange_run node is x w \<Longrightarrow> exchange_run node is x w'"

fun receipt_identity :: "native_raw_receipt \<Rightarrow> thread_identity" where
  "receipt_identity (UnsupportedBackend i) = i"
| "receipt_identity (CapabilityAbsent i) = i"
| "receipt_identity (RawFailed i _ _) = i"
| "receipt_identity (Paired i _) = i"

definition exchange_inv :: "native_worker_instruction list \<Rightarrow> native_exchange \<Rightarrow> bool" where
  "exchange_inv is x \<longleftrightarrow>
     receipt_identity (nx_receipt x) = nx_identity x
     \<and> (case nx_phase x of
          ExRegister \<Rightarrow> \<exists>l. nx_grant x = Some l \<and> is = [InsRegister (rl_nonce l)] \<and> rl_nonce l \<noteq> 0
                          \<and> rl_tid l = ti_tid (nx_identity x) \<and> rl_uid l = ti_uid (nx_identity x)
                          \<and> nx_receipt x = RawFailed (nx_identity x) Registration None
        | ExRaw \<Rightarrow> \<exists>l. nx_grant x = Some l \<and> is = [InsRegister (rl_nonce l), ObserveRaw] \<and> rl_nonce l \<noteq> 0
                     \<and> rl_tid l = ti_tid (nx_identity x) \<and> rl_uid l = ti_uid (nx_identity x)
                     \<and> nx_receipt x = RawFailed (nx_identity x) Measurement None
        | ExProtected \<Rightarrow> nx_grant x = None
            \<and> (is = [ObserveProtected] \<and> qualified_sample (nx_receipt x) = None
               \<or> (\<exists>nonce m. is = [InsRegister nonce, ObserveRaw, ObserveProtected] \<and> nonce \<noteq> 0 \<and> nm_bounded m
                     \<and> (nx_receipt x = Paired (nx_identity x) m \<or> nx_receipt x = RawFailed (nx_identity x) Measurement (Some m))))
        | ExFailed \<Rightarrow> (\<exists>stage m. nx_receipt x = RawFailed (nx_identity x) stage m)
            \<and> (\<exists>nonce. is = [InsRegister nonce] \<or> is = [InsRegister nonce, ObserveRaw]))"

lemma or_drop_Inr:
  "(case m of (Inl e, w') \<Rightarrow> (Inl e, f w') | (Inr u, w') \<Rightarrow> (Inr l0, w')) = (Inr l, w') \<longleftrightarrow> l = l0 \<and> (\<exists>u. m = (Inr u, w'))"
  by (cases m) (auto split: sum.splits)

lemma lease_arm_Inr: "lease_arm node b tid uid nonce w = (Inr l, w') \<Longrightarrow>
    l = \<lparr>rl_backend = b, rl_tid = tid, rl_uid = uid, rl_nonce = nonce\<rparr>"
  by (auto simp: lease_arm_def io_simps Let_def or_drop_Inr)

lemma begin_inv:
  assumes "exchange_begin node identity backend w = (Inr (x, i), w')"
  shows "exchange_inv [i] x"
proof (cases backend)
  case None
  with assms show ?thesis by (auto simp: exchange_begin_def exchange_inv_def exchange_unsupported_def)
next
  case (Some b)
  from assms obtain bs v where nz: "ne_word bs \<noteq> (0 :: u64)"
    and k: "(case lease_arm node b (ti_tid identity) (ti_uid identity) (ne_word bs) v of
              (Inr grant, w') \<Rightarrow> (Inr (exchange_armed identity grant, InsRegister (ne_word bs)), w')
            | (Inl NotFound, w') \<Rightarrow>
                (Inr (exchange_unsupported identity (CapabilityAbsent identity), ObserveProtected), w')
            | (Inl (IoError _), w') \<Rightarrow> (Inl Disabled, w')) = (Inr (x, i), w')"
    by (auto simp: exchange_begin_def Some io_simps Let_def split: if_splits)
  obtain r v' where arm: "lease_arm node b (ti_tid identity) (ti_uid identity) (ne_word bs) v = (r, v')"
    by (cases "lease_arm node b (ti_tid identity) (ti_uid identity) (ne_word bs) v")
  show ?thesis
  proof (cases r)
    case (Inl e)
    with k arm show ?thesis by (cases e) (auto simp: exchange_inv_def exchange_unsupported_def)
  next
    case (Inr l)
    with arm have "l = \<lparr>rl_backend = b, rl_tid = ti_tid identity, rl_uid = ti_uid identity, rl_nonce = ne_word bs\<rparr>"
      by (auto dest: lease_arm_Inr)
    with k arm Inr nz show ?thesis by (auto simp: exchange_inv_def exchange_armed_def)
  qed
qed

lemma step_inv:
  assumes "exchange_inv is x" "exchange_step node identity phase x w = (r, x', w')"
  shows "exchange_inv (case r of Inr i \<Rightarrow> is @ [i] | Inl _ \<Rightarrow> is) x'"
proof (cases "identity = nx_identity x")
  case True
  show ?thesis
  proof (cases "nx_phase x")
    case ExRegister
    with assms True show ?thesis
      by (cases phase) (auto simp: exchange_step_def exchange_inv_def Let_def split: prod.splits sum.splits)
  next
    case ExRaw
    with assms True show ?thesis
      by (cases phase) (auto simp: exchange_step_def exchange_inv_def Let_def split: prod.splits sum.splits if_splits)
  next
    case ExProtected
    with assms True show ?thesis by (auto simp: exchange_step_def)
  next
    case ExFailed
    with assms True show ?thesis by (auto simp: exchange_step_def)
  qed
next
  case False
  with assms show ?thesis by (auto simp: exchange_step_def)
qed

lemma exchange_run_inv: "exchange_run node is x w \<Longrightarrow> exchange_inv is x"
proof (induction rule: exchange_run.induct)
  case (told "is" x w identity phase i x' w')
  then show ?case using step_inv [OF told.IH told.hyps(2)] by simp
next
  case (refused "is" x w identity phase e x' w')
  then show ?case using step_inv [OF refused.IH refused.hyps(2)] by simp
qed (auto dest: begin_inv)

lemma step_protected:
  assumes "exchange_inv is x" "exchange_step node identity phase x w = (Inr ObserveProtected, x', w')"
  shows "\<exists>l q w2 m. w' = lease_drop node l w2 \<and> nx_phase x = ExRaw \<and> nx_grant x = Some l \<and> lease_finish node l w = (Inr q, w2)
           \<and> is = [InsRegister (rl_nonce l), ObserveRaw] \<and> rl_nonce l \<noteq> 0 \<and> nx_grant x' = None
           \<and> rl_tid l = ti_tid (nx_identity x) \<and> rl_uid l = ti_uid (nx_identity x)
           \<and> nx_receipt x' = (if q then Paired (nx_identity x) m else RawFailed (nx_identity x) Measurement (Some m))"
  using assms
  by (cases "nx_phase x"; cases phase)
    (auto simp: exchange_step_def exchange_inv_def Let_def split: prod.splits sum.splits if_splits)

text \<open>
  C9. A worker that was admitted to an unfiltered interval is told to take its protected sample only after
  the whole interval: it registered with the nonce of this lease, was told to read, and Core then wrote
  the complete revocation of that nonce and read the endpoint back as released by it.  The exchange
  holds no lease any more, and the receipt pairs the sample only if the endpoint still read back as
  active for this very thread right before the revocation.  Between the steps the endpoint and the
  worker may do anything.
\<close>

theorem protected_only_after_release:
  assumes "exchange_run node is x w" "exchange_step node identity phase x w = (Inr ObserveProtected, x', w')"
  shows "\<exists>lease line bs s w1 w2 w3.
     is = [InsRegister (rl_nonce lease), ObserveRaw] \<and> rl_nonce lease \<noteq> 0
     \<and> rl_tid lease = ti_tid identity \<and> rl_uid lease = ti_uid identity
     \<and> w1 = snd (lease_expect node lease Active w)
     \<and> command_encode (CmdRevoke (rl_nonce lease)) = Inr line \<and> rn_write node line w1 = (Inr (length line), w2)
     \<and> rn_read node w2 = (Inr bs, w3) \<and> snapshot_parse bs = Inr s \<and> sn_nonce s = rl_nonce lease \<and> sn_phase s = Released
     \<and> w' = lease_drop node lease w3 \<and> nx_grant x' = None
     \<and> (\<forall>i m. nx_receipt x' = Paired i m \<longrightarrow> i = identity \<and> lease_expect node lease Active w = (Inr (), w1))"
proof -
  have id: "nx_identity x = identity" using assms(2) by (auto simp: exchange_step_def split: if_splits)
  obtain l q w3 m where l: "w' = lease_drop node l w3" "lease_finish node l w = (Inr q, w3)"
      "is = [InsRegister (rl_nonce l), ObserveRaw]"
      "rl_nonce l \<noteq> 0" "nx_grant x' = None" "rl_tid l = ti_tid identity" "rl_uid l = ti_uid identity"
      "nx_receipt x' = (if q then Paired identity m else RawFailed identity Measurement (Some m))"
    using step_protected [OF exchange_run_inv [OF assms(1)] assms(2)] id by auto
  obtain line bs s w1 w2 where f:
      "command_encode (CmdRevoke (rl_nonce l)) = Inr line" "rn_write node line w1 = (Inr (length line), w2)"
      "rn_read node w2 = (Inr bs, w3)" "snapshot_parse bs = Inr s" "sn_nonce s = rl_nonce l" "sn_phase s = Released"
      and q: "w1 = snd (lease_expect node l Active w)" "q \<longleftrightarrow> \<not> isl (fst (lease_expect node l Active w))"
    using lease_finish_Inr [OF l(2)] by blast
  have "nx_receipt x' = Paired i m' \<Longrightarrow> i = identity \<and> lease_expect node l Active w = (Inr (), w1)" for i m'
    using l(8) q by (cases "lease_expect node l Active w"; cases "fst (lease_expect node l Active w)") (auto split: if_splits)
  with l f q(1) show ?thesis by blast
qed

text \<open>
  A concrete endpoint: its world is the list of replies still to be read, every write is taken whole.
\<close>

definition scripted_node :: "bytes list raw_node" where
  "scripted_node =
     \<lparr>rn_open = io_ok (),
      rn_read = (\<lambda>w. case w of [] \<Rightarrow> (Inl NotFound, []) | reply # rest \<Rightarrow> (Inr reply, rest)),
      rn_write = (\<lambda>bs. io_ok (length bs)),
      rn_random = io_ok [CHR 0x07, CHR 0x00, CHR 0x00, CHR 0x00, CHR 0x00, CHR 0x00, CHR 0x00, CHR 0x00]\<rparr>"

definition scripted_reply :: "string \<Rightarrow> string \<Rightarrow> string \<Rightarrow> string \<Rightarrow> string \<Rightarrow> bytes" where
  "scripted_reply phase tid uid nonce remaining =
     concat (map (\<lambda>l. l @ [CHR 0x0A])
       [raw_header, ''backend 1'', ''max_ms 5000'', ''phase '' @ phase, ''tid '' @ tid, ''uid '' @ uid,
        ''nonce '' @ nonce, ''remaining_ms '' @ remaining])"

definition scripted_identity :: thread_identity where
  "scripted_identity =
     \<lparr>ti_uid = 10000, ti_pid = 42, ti_process_start_ticks = 100, ti_tid = 43, ti_thread_start_ticks = 101\<rparr>"

definition held_reply :: "string \<Rightarrow> bytes" where
  "held_reply phase = scripted_reply phase ''43'' ''10000'' ''0000000000000007'' ''900''"

definition released_reply :: bytes where
  "released_reply = scripted_reply ''released'' ''0'' ''0'' ''0000000000000007'' ''0''"

definition scripted_lease :: raw_lease where
  "scripted_lease = \<lparr>rl_backend = 1, rl_tid = 43, rl_uid = 10000, rl_nonce = 7\<rparr>"

lemma scripted_begin:
  "exchange_begin scripted_node scripted_identity (Some 1) [released_reply, held_reply ''armed''] =
     (Inr (exchange_armed scripted_identity scripted_lease, InsRegister 7), [])"
  by code_simp

definition scripted_raw :: native_exchange where
  "scripted_raw =
     \<lparr>nx_identity = scripted_identity, nx_phase = ExRaw, nx_grant = Some scripted_lease,
      nx_receipt = RawFailed scripted_identity Measurement None\<rparr>"

lemma scripted_activate:
  "exchange_step scripted_node scripted_identity WpRegistered (exchange_armed scripted_identity scripted_lease)
     [held_reply ''registered'', held_reply ''active''] = (Inr ObserveRaw, scripted_raw, [])"
  by code_simp

definition scripted_end :: native_exchange where
  "scripted_end =
     \<lparr>nx_identity = scripted_identity, nx_phase = ExProtected, nx_grant = None,
      nx_receipt = Paired scripted_identity (nm_unavailable Unsupported)\<rparr>"

lemma scripted_finish:
  "exchange_step scripted_node scripted_identity (WpRawMeasured (nm_unavailable Unsupported)) scripted_raw
     [held_reply ''active'', released_reply] = (Inr ObserveProtected, scripted_end, [])"
  by code_simp

lemma scripted_run: "exchange_run scripted_node [InsRegister 7, ObserveRaw] scripted_raw [held_reply ''active'', released_reply]"
proof -
  have "exchange_run scripted_node [InsRegister 7] (exchange_armed scripted_identity scripted_lease)
          [held_reply ''registered'', held_reply ''active'']"
    by (rule exchange_run.world) (rule exchange_run.begins [OF scripted_begin])
  from exchange_run.told [OF this scripted_activate]
  have "exchange_run scripted_node [InsRegister 7, ObserveRaw] scripted_raw []" by simp
  then show ?thesis by (rule exchange_run.world)
qed

theorem protected_only_after_release_witness:
  "\<exists>lease line bs s w1 w2 w3.
     [InsRegister 7, ObserveRaw] = [InsRegister (rl_nonce lease), ObserveRaw]
     \<and> command_encode (CmdRevoke (rl_nonce lease)) = Inr line \<and> rn_write scripted_node line w1 = (Inr (length line), w2)
     \<and> rn_read scripted_node w2 = (Inr bs, w3) \<and> snapshot_parse bs = Inr s \<and> sn_phase s = Released
     \<and> lease_expect scripted_node lease Active [held_reply ''active'', released_reply] = (Inr (), w1)"
  using protected_only_after_release [OF scripted_run scripted_finish] unfolding scripted_end_def by fastforce

end
