(* ===== verification/Loader_Image.thy ===== *)
theory Loader_Image
  imports Package_Inventory Elf_Image Os_World
begin

text \<open>
  Which image a process has mapped (\<^verbatim>\<open>crates/loader-ipc/src/image.rs\<close>), and the messages of the loader
  channel (\<^verbatim>\<open>lib.rs\<close>).  The file system is the parameter of \<^verbatim>\<open>Os_World\<close>; SHA-256 and the split of a
  device number are parameters too.
\<close>

unbundle bit_operations_syntax

section \<open>Text of the process file system\<close>

text \<open>\<^verbatim>\<open>split_whitespace\<close> on Unicode white space.\<close>

function words_from :: "bytes \<Rightarrow> bytes \<Rightarrow> bytes list" where
  "words_from acc s =
     (case strip_any white_space s of
        Some r \<Rightarrow> (if acc = [] then [] else [rev acc]) @ words_from [] r
      | None \<Rightarrow>
          (case s of
             [] \<Rightarrow> if acc = [] then [] else [rev acc]
           | c # cs \<Rightarrow> words_from (c # acc) cs))"
  by pat_completeness auto
termination
  by (relation "measure (\<lambda>(acc, s). length s)") (auto dest: strip_any_shorter)

definition split_whitespace :: "string \<Rightarrow> string list" where
  "split_whitespace s = words_from [] s"

definition parse_dec_u64 :: "string \<Rightarrow> u64 option" where
  "parse_dec_u64 s = map_option word_of_nat (from_str_radix 64 10 s)"

definition from_hex_u64 :: "string \<Rightarrow> u64 option" where
  "from_hex_u64 s = map_option word_of_nat (from_str_radix 64 16 s)"

definition from_hex_u32 :: "string \<Rightarrow> u32 option" where
  "from_hex_u32 s = map_option word_of_nat (from_str_radix 32 16 s)"


section \<open>Process identity\<close>

record process_identity =
  pi_pid :: u32
  pi_start_ticks :: u64

definition path_join :: "string \<Rightarrow> string \<Rightarrow> string" where
  "path_join root name = root @ ''/'' @ name"

text \<open>The field after the command name, which may itself contain spaces and parentheses.\<close>

definition stat_start_ticks :: "u32 \<Rightarrow> string \<Rightarrow> io_error + u64" where
  "stat_start_ticks pid stat =
     (if strip_prefix (dec_str (unat pid) @ '' ('') stat = None then Inl (invalid ''process stat identity differs'')
      else
        and_then (ok_or (rsplit_once_str '') '' stat) (invalid ''invalid process stat'')) (\<lambda>(_, parts).
          let ws = split_whitespace parts
          in and_then (ok_or (if 19 < length ws then Some (ws ! 19) else None) (invalid ''missing process starttime''))
               (\<lambda>field. ok_or (parse_dec_u64 field) (invalid ''invalid process starttime''))))"

definition process_identity_of :: "'w os \<Rightarrow> string \<Rightarrow> u32 \<Rightarrow> ('w, io_error, process_identity) io" where
  "process_identity_of os proc_root pid =
     io_then (io_guard (pid = 0) (invalid ''invalid process id'')) (\<lambda>_.
     io_then (bounded_text_of os (path_join (path_join proc_root (dec_str (unat pid))) ''stat'') 8192) (\<lambda>stat.
     io_then (io_lift (stat_start_ticks pid stat)) (\<lambda>ticks. io_ok \<lparr>pi_pid = pid, pi_start_ticks = ticks\<rparr>)))"


section \<open>Mappings\<close>

definition MAX_MAPS :: nat where
  "MAX_MAPS = 1048576"

definition MAX_IMAGE :: nat where
  "MAX_IMAGE = 134217728"

record mapping =
  mp_start :: u64
  mp_end :: u64
  mp_major :: u32
  mp_minor :: u32
  mp_inode :: u64

text \<open>The interval and the permissions of a line, and what follows them.\<close>

definition line_interval :: "string \<Rightarrow> io_error + (u64 \<times> u64 \<times> string \<times> string list)" where
  "line_interval line =
     (if 8192 < length line then Inl (invalid ''mapping record exceeds budget'')
      else
        (case split_whitespace line of
           [] \<Rightarrow> Inl (invalid ''missing mapping interval'')
         | rng # parts \<Rightarrow>
             and_then (ok_or (split_once CHR ''-'' rng) (invalid ''invalid mapping interval'')) (\<lambda>(a, b).
             and_then (ok_or (from_hex_u64 a) (invalid ''invalid mapping address'')) (\<lambda>start.
             and_then (ok_or (from_hex_u64 b) (invalid ''invalid mapping address'')) (\<lambda>end.
               case parts of
                 [] \<Rightarrow> Inl (invalid ''missing mapping permissions'')
               | permissions # rest \<Rightarrow> Inr (start, end, permissions, rest))))))"

definition line_backing :: "u64 \<Rightarrow> u64 \<Rightarrow> string list \<Rightarrow> io_error + mapping" where
  "line_backing start end parts =
     (case parts of
        [] \<Rightarrow> Inl (invalid ''missing mapping offset'')
      | _ # parts \<Rightarrow>
          and_then (ok_or (case parts of [] \<Rightarrow> None | d # _ \<Rightarrow> split_once CHR '':'' d) (invalid ''missing mapping device''))
            (\<lambda>(major, minor).
             case tl parts of
               [] \<Rightarrow> Inl (invalid ''missing mapping inode'')
             | i # _ \<Rightarrow>
                 and_then (ok_or (parse_dec_u64 i) (invalid ''invalid mapping inode'')) (\<lambda>inode.
                   if inode = 0 then Inl (invalid ''anonymous executable mapping has no backing identity'')
                   else
                     and_then (ok_or (from_hex_u32 major) (invalid ''invalid mapping device'')) (\<lambda>major.
                     and_then (ok_or (from_hex_u32 minor) (invalid ''invalid mapping device'')) (\<lambda>minor.
                       Inr \<lparr>mp_start = start, mp_end = end, mp_major = major, mp_minor = minor, mp_inode = inode\<rparr>)))))"

definition byte_at :: "string \<Rightarrow> nat \<Rightarrow> char option" where
  "byte_at s i = (if i < length s then Some (s ! i) else None)"

definition mapping_line :: "u64 \<Rightarrow> mapping option \<Rightarrow> string \<Rightarrow> io_error + mapping option" where
  "mapping_line anchor found line =
     and_then (line_interval line) (\<lambda>(start, end, permissions, rest).
       if \<not> (start \<le> anchor \<and> anchor < end) then Inr found
       else if found \<noteq> None \<or> byte_at permissions 2 \<noteq> Some CHR ''x'' \<or> byte_at permissions 1 = Some CHR ''w''
       then Inl (invalid ''ambiguous or mutable executable mapping'')
       else and_then (line_backing start end rest) (\<lambda>m. Inr (Some m)))"

definition mapping_in :: "string \<Rightarrow> u64 \<Rightarrow> io_error + mapping" where
  "mapping_in text anchor =
     (if anchor = 0 \<or> MAX_MAPS < length text then Inl (invalid ''invalid executable mapping request'')
      else and_then (try_fold (mapping_line anchor) None (str_lines text)) (\<lambda>found.
             ok_or found (invalid ''executable anchor not mapped'')))"

definition mapping_of :: "'w os \<Rightarrow> string \<Rightarrow> u32 \<Rightarrow> u64 \<Rightarrow> ('w, io_error, mapping) io" where
  "mapping_of os proc_root pid anchor =
     io_then (bounded_text_of os (path_join (path_join proc_root (dec_str (unat pid))) ''maps'') MAX_MAPS) (\<lambda>text.
       io_lift (mapping_in text anchor))"

text \<open>\<^verbatim>\<open>major\<close> and \<^verbatim>\<open>minor\<close> of the C library, as the device number splits on this target.\<close>

definition image_matches :: "'w os \<Rightarrow> (u64 \<Rightarrow> u32) \<Rightarrow> (u64 \<Rightarrow> u32) \<Rightarrow> handle \<Rightarrow> mapping \<Rightarrow> ('w, io_error, bool) io" where
  "image_matches os major minor file m =
     io_then (os_stat os file) (\<lambda>meta.
       io_ok (fm_regular meta \<and> fm_ino meta = mp_inode m \<and> major (fm_dev meta) = mp_major m \<and> minor (fm_dev meta) = mp_minor m))"

definition fd_number :: "string option \<Rightarrow> int option" where
  "fd_number name =
     Option.bind name (\<lambda>n. Option.bind (parse_i32 n) (\<lambda>raw. if 0 \<le> raw then Some raw else None))"

fun find_backing :: "'w os \<Rightarrow> (u64 \<Rightarrow> u32) \<Rightarrow> (u64 \<Rightarrow> u32) \<Rightarrow> mapping \<Rightarrow> (io_error + string option) list \<Rightarrow>
    ('w, io_error, handle) io" where
  "find_backing os major minor m [] = io_err (invalid ''mapped backing descriptor unavailable'')"
| "find_backing os major minor m (entry # rest) =
     (case entry of
        Inl e \<Rightarrow> io_err e
      | Inr name \<Rightarrow>
          (case fd_number name of
             None \<Rightarrow> find_backing os major minor m rest
           | Some raw \<Rightarrow> (\<lambda>w.
               case os_dup os raw w of
                 (None, w') \<Rightarrow> find_backing os major minor m rest w'
               | (Some file, w') \<Rightarrow>
                   io_then (image_matches os major minor file m) (\<lambda>ok.
                     if ok then io_ok file else find_backing os major minor m rest) w')))"

definition own_backing_image :: "'w os \<Rightarrow> (u64 \<Rightarrow> u32) \<Rightarrow> (u64 \<Rightarrow> u32) \<Rightarrow> u64 \<Rightarrow> ('w, io_error, handle) io" where
  "own_backing_image os major minor anchor w =
     (case os_process_id os w of
        (pid, w') \<Rightarrow>
          io_then (mapping_of os ''/proc'' pid anchor) (\<lambda>expected.
          io_then (os_list_dir os ''/proc/self/fd'') (\<lambda>entries.
            find_backing os major minor expected (take 4096 entries))) w')"


section \<open>Image identity\<close>

datatype image_abi = ImgArm64 | ImgArm32

record image_identity =
  im_abi :: image_abi
  im_bytes :: u64
  im_sha256 :: bytes

definition F_SEAL_SHRINK :: int where "F_SEAL_SHRINK = 2"
definition F_SEAL_GROW :: int where "F_SEAL_GROW = 4"
definition F_SEAL_WRITE :: int where "F_SEAL_WRITE = 8"

definition image_protected :: "int \<Rightarrow> file_meta \<Rightarrow> io_error + unit" where
  "image_protected seals before =
     (let required = F_SEAL_WRITE OR F_SEAL_GROW OR F_SEAL_SHRINK
      in if 0 \<le> seals
         then (if seals AND required \<noteq> required then Inl (invalid ''mapped memfd lacks immutable seals'') else Inr ())
         else if fm_uid before \<noteq> 0 \<or> fm_mode before AND 18 \<noteq> 0 \<or> fm_nlink before = 0
         then Inl (invalid ''unsealed mapped image is not a protected root-owned file'')
         else Inr ())"

definition le16 :: "bytes \<Rightarrow> nat \<Rightarrow> nat" where
  "le16 h i = of_char (h ! i) + 256 * of_char (h ! (i + 1))"

definition image_header_abi :: "bytes \<Rightarrow> io_error + image_abi" where
  "image_header_abi h =
     (if take 4 h \<noteq> [CHR 0x7F, CHR ''E'', CHR ''L'', CHR ''F''] \<or> h ! 5 \<noteq> CHR 0x01 \<or> h ! 6 \<noteq> CHR 0x01 \<or> le16 h 16 \<noteq> 3
      then Inl (invalid ''mapped image is not a little-endian ELF shared object'')
      else if h ! 4 = CHR 0x02 \<and> le16 h 18 = 183 then Inr ImgArm64
      else if h ! 4 = CHR 0x01 \<and> le16 h 18 = 40 then Inr ImgArm32
      else Inl (invalid ''mapped image has unsupported architecture''))"

definition CHUNK :: nat where
  "CHUNK = 65536"

text \<open>The file in order, 64 KiB at a time; the digest is taken of what was read.\<close>

function read_image :: "'w os \<Rightarrow> handle \<Rightarrow> nat option \<Rightarrow> nat \<Rightarrow> nat \<Rightarrow> bytes \<Rightarrow> 'w \<Rightarrow> (io_error + bytes) \<times> 'w" where
  "read_image os file deadline len offset acc w =
     (if len \<le> offset then (Inr acc, w)
      else
        (let (late, w1) =
               (case deadline of None \<Rightarrow> (False, w) | Some d \<Rightarrow> (case os_monotonic os w of (t, w1) \<Rightarrow> (d \<le> t, w1)))
         in if late then (Inl (IoError ''loaded image inspection deadline''), w1)
            else
              (let count = min (len - offset) CHUNK
               in case os_read_exact_at os file offset count w1 of
                    (Inl e, w2) \<Rightarrow> (Inl e, w2)
                  | (Inr bs, w2) \<Rightarrow> read_image os file deadline len (offset + count) (acc @ bs) w2)))"
  by pat_completeness auto
termination
  by (relation "measure (\<lambda>(os, file, deadline, len, offset, acc, w). len - offset)") (auto simp: CHUNK_def)

declare read_image.simps [simp del]

definition inspect_before :: "'w os \<Rightarrow> (bytes \<Rightarrow> bytes) \<Rightarrow> handle \<Rightarrow> nat option \<Rightarrow> ('w, io_error, image_identity) io" where
  "inspect_before os sha256 file deadline =
     io_then (os_stat os file) (\<lambda>before.
     io_then (io_guard (\<not> fm_regular before \<or> fm_len before < 64 \<or> MAX_IMAGE < unat (fm_len before))
                (invalid ''invalid mapped image size/type'')) (\<lambda>_ w0.
       case os_seals os file w0 of
         (seals, w1) \<Rightarrow>
           io_then (io_lift (image_protected seals before)) (\<lambda>_.
           io_then (os_read_exact_at os file 0 20) (\<lambda>header.
           io_then (io_lift (image_header_abi header)) (\<lambda>abi.
           io_then (read_image os file deadline (unat (fm_len before)) 0 []) (\<lambda>content.
           io_then (os_stat os file) (\<lambda>after.
           io_then (io_guard (fm_len before \<noteq> fm_len after \<or> fm_dev before \<noteq> fm_dev after \<or> fm_ino before \<noteq> fm_ino after
                              \<or> fm_mtime before \<noteq> fm_mtime after \<or> fm_mtime_nsec before \<noteq> fm_mtime_nsec after
                              \<or> fm_ctime before \<noteq> fm_ctime after \<or> fm_ctime_nsec before \<noteq> fm_ctime_nsec after)
                      (invalid ''mapped image changed during observation'')) (\<lambda>_.
             io_ok \<lparr>im_abi = abi, im_bytes = fm_len before, im_sha256 = sha256 content\<rparr>)))))) w1))"

definition inspect_image :: "'w os \<Rightarrow> (bytes \<Rightarrow> bytes) \<Rightarrow> handle \<Rightarrow> ('w, io_error, image_identity) io" where
  "inspect_image os sha256 file = inspect_before os sha256 file None"


section \<open>Messages\<close>

definition LOADER_VERSION :: u32 where
  "LOADER_VERSION = 1"

definition MAX_FRAME :: nat where
  "MAX_FRAME = 4096"

record challenge =
  ch_version :: u32
  ch_nonce :: bytes
  ch_boot_id :: string
  ch_epoch :: u64

definition challenge_valid :: "challenge \<Rightarrow> bool" where
  "challenge_valid c =
     (ch_version c = LOADER_VERSION \<and> ch_nonce c \<noteq> replicate 32 CHR 0x00 \<and> ch_boot_id c \<noteq> []
      \<and> length (ch_boot_id c) \<le> 128 \<and> \<not> any_control (ch_boot_id c))"

record credentials =
  cr_pid :: u32
  cr_uid :: u32
  cr_gid :: u32

record callback =
  cb_version :: u32
  cb_nonce :: bytes
  cb_anchor :: u64
  cb_target_uid :: u32
  cb_process :: string
  cb_generation :: "u64 option"
  cb_policy_sha256 :: "bytes option"

definition callback_valid :: "callback \<Rightarrow> bool" where
  "callback_valid c =
     (cb_version c = LOADER_VERSION \<and> cb_nonce c \<noteq> replicate 32 CHR 0x00 \<and> cb_anchor c \<noteq> 0
      \<and> cb_target_uid c \<noteq> - 1 \<and> cb_process c \<noteq> [] \<and> length (cb_process c) \<le> 256 \<and> \<not> any_control (cb_process c)
      \<and> (cb_generation c \<noteq> None) = (cb_policy_sha256 c \<noteq> None))"

record companion_report =
  cp_child :: credentials
  cp_companion_anchor :: u64
  cp_callback :: callback

record loader_acknowledgement =
  ak_accepted :: bool
  ak_nonce :: bytes


section \<open>What a mapping names\<close>

text \<open>The lines of a mappings file that cover an address.\<close>

definition covers :: "u64 \<Rightarrow> string \<Rightarrow> bool" where
  "covers anchor line \<longleftrightarrow>
     (case line_interval line of Inr (start, end, _) \<Rightarrow> start \<le> anchor \<and> anchor < end | Inl _ \<Rightarrow> False)"

lemma mapping_line_step:
  assumes "mapping_line anchor found line = Inr found'"
  shows "(\<not> covers anchor line \<and> found' = found)
         \<or> (covers anchor line \<and> found = None \<and> (\<exists>m start end perms rest. found' = Some m
              \<and> line_interval line = Inr (start, end, perms, rest) \<and> line_backing start end rest = Inr m
              \<and> byte_at perms 2 = Some CHR ''x'' \<and> byte_at perms 1 \<noteq> Some CHR ''w''))"
  using assms by (auto simp: mapping_line_def covers_def and_then_Inr split: if_splits)

lemma mapping_lines:
  assumes "try_fold (mapping_line anchor) found lines = Inr found'"
  shows "filter (covers anchor) lines = [] \<and> found' = found
         \<or> (\<exists>line m start end perms rest. found = None \<and> filter (covers anchor) lines = [line] \<and> found' = Some m
              \<and> line_interval line = Inr (start, end, perms, rest) \<and> line_backing start end rest = Inr m
              \<and> byte_at perms 2 = Some CHR ''x'' \<and> byte_at perms 1 \<noteq> Some CHR ''w'')"
  using assms
proof (induction lines arbitrary: found)
  case Nil
  then show ?case by simp
next
  case (Cons l lines)
  then obtain f where f: "mapping_line anchor found l = Inr f" "try_fold (mapping_line anchor) f lines = Inr found'"
    by (auto simp: and_then_Inr)
  from mapping_line_step [OF f(1)] Cons.IH [OF f(2)] show ?case by (elim disjE) auto
qed

lemma line_backing_fields:
  "line_backing start end parts = Inr m \<Longrightarrow> mp_start m = start \<and> mp_end m = end \<and> mp_inode m \<noteq> 0"
  by (cases parts; cases "tl parts"; cases "tl (tl parts)") (auto simp: line_backing_def and_then_Inr split: if_splits)

text \<open>
  C39. The image an address belongs to is never guessed: a mapping is returned only if exactly one line
  of the whole file covers the address, that line is executable and not writable, and it is backed
  by a file (a non-zero inode); the interval returned contains the address.
\<close>

theorem mapping_unambiguous:
  assumes "mapping_in text anchor = Inr m"
  shows "mp_start m \<le> anchor \<and> anchor < mp_end m \<and> mp_inode m \<noteq> 0
         \<and> (\<exists>line perms rest. filter (covers anchor) (str_lines text) = [line]
              \<and> line_interval line = Inr (mp_start m, mp_end m, perms, rest)
              \<and> byte_at perms 2 = Some CHR ''x'' \<and> byte_at perms 1 \<noteq> Some CHR ''w'')"
proof -
  from assms have "try_fold (mapping_line anchor) None (str_lines text) = Inr (Some m)"
    by (auto simp: mapping_in_def and_then_Inr split: if_splits)
  from mapping_lines [OF this] obtain line start "end" perms rest where
    l: "filter (covers anchor) (str_lines text) = [line]" "line_interval line = Inr (start, end, perms, rest)"
       "line_backing start end rest = Inr m" "byte_at perms 2 = Some CHR ''x''" "byte_at perms 1 \<noteq> Some CHR ''w''"
    by auto
  have "covers anchor line" using arg_cong [OF l(1), of set] by auto
  with l line_backing_fields [OF l(3)] show ?thesis by (auto simp: covers_def)
qed

theorem mapping_unambiguous_witness:
  "\<exists>m. mapping_in (''1000-2000 r-xp 00000000 fe:01 77 /a b'' @ [CHR 0x0A] @ ''2000-3000 rw-p 00000000 00:00 0'') 0x1800 = Inr m
     \<and> mp_start m \<le> 0x1800 \<and> (0x1800 :: u64) < mp_end m"
proof -
  let ?t = "''1000-2000 r-xp 00000000 fe:01 77 /a b'' @ [CHR 0x0A] @ ''2000-3000 rw-p 00000000 00:00 0''"
  have "mapping_in ?t 0x1800 = Inr \<lparr>mp_start = 0x1000, mp_end = 0x2000, mp_major = 0xfe, mp_minor = 1, mp_inode = 77\<rparr>"
    by code_simp
  with mapping_unambiguous [OF this] show ?thesis by auto
qed


section \<open>What an inspected image is\<close>

lemma read_image_content:
  assumes content: "\<And>offset n w bs w'. os_read_exact_at os file offset n w = (Inr bs, w') \<Longrightarrow> bs = take n (drop offset content)"
  shows "read_image os file deadline len offset acc w = (Inr r, w') \<Longrightarrow> offset \<le> len \<Longrightarrow>
           acc = take offset content \<Longrightarrow> r = take len content"
proof (induction "len - offset" arbitrary: offset acc w rule: less_induct)
  case less
  show ?case
  proof (cases "len \<le> offset")
    case True
    with less.prems show ?thesis by (simp add: read_image.simps)
  next
    case False
    let ?n = "min (len - offset) CHUNK"
    have n: "0 < ?n" using False by (simp add: CHUNK_def)
    from less.prems(1) False obtain w1 bs w2 where
      bs: "os_read_exact_at os file offset ?n w1 = (Inr bs, w2)"
      and more: "read_image os file deadline len (offset + ?n) (acc @ bs) w2 = (Inr r, w')"
      by (subst (asm) read_image.simps) (auto simp: Let_def split: option.splits prod.splits if_splits sum.splits)
    have "acc @ bs = take (offset + ?n) content" using content [OF bs] less.prems(3) by (simp add: take_add)
    then show ?thesis using less.hyps [OF _ more] n False by auto
  qed
qed

text \<open>
  C40. The identity of an image covers the whole of it.  While the file has the bytes \<open>content\<close>, an image
  that was inspected is at most 128 MiB, is either a memory file sealed against writing, growing and
  shrinking or a file of root that nobody else may write, and the digest in its identity is that
  of its bytes from the first to the length reported.
\<close>

theorem inspected_image_whole:
  assumes "\<And>offset n w bs w'. os_read_exact_at os file offset n w = (Inr bs, w') \<Longrightarrow> bs = take n (drop offset content)"
    and "inspect_before os sha256 file deadline w = (Inr identity, w')"
  shows "unat (im_bytes identity) \<le> MAX_IMAGE \<and> 64 \<le> im_bytes identity
         \<and> im_sha256 identity = sha256 (take (unat (im_bytes identity)) content)
         \<and> image_header_abi (take 20 content) = Inr (im_abi identity)
         \<and> (\<exists>before v seals v'. os_stat os file w = (Inr before, v) \<and> os_seals os file v = (seals, v')
              \<and> (if 0 \<le> seals
                 then seals AND (F_SEAL_WRITE OR F_SEAL_GROW OR F_SEAL_SHRINK) = F_SEAL_WRITE OR F_SEAL_GROW OR F_SEAL_SHRINK
                 else fm_uid before = 0 \<and> fm_mode before AND 18 = 0 \<and> 0 < fm_nlink before))"
proof -
  from assms(2) obtain before seals header bs v v' v1 v2 v3 where
    b: "os_stat os file w = (Inr before, v)" "64 \<le> fm_len before" "unat (fm_len before) \<le> MAX_IMAGE"
    and s: "os_seals os file v = (seals, v')" "image_protected seals before = Inr ()"
    and h: "os_read_exact_at os file 0 20 v' = (Inr header, v1)" "image_header_abi header = Inr (im_abi identity)"
    and r: "read_image os file deadline (unat (fm_len before)) 0 [] v2 = (Inr bs, v3)"
    and i: "im_bytes identity = fm_len before" "im_sha256 identity = sha256 bs"
    by (auto simp: inspect_before_def io_simps not_less split_beta) (metis prod.collapse)
  have "bs = take (unat (fm_len before)) content" using read_image_content [OF assms(1) r] by simp
  moreover have "header = take 20 content" using assms(1) [OF h(1)] by simp
  moreover have "if 0 \<le> seals
                 then seals AND (F_SEAL_WRITE OR F_SEAL_GROW OR F_SEAL_SHRINK) = F_SEAL_WRITE OR F_SEAL_GROW OR F_SEAL_SHRINK
                 else fm_uid before = 0 \<and> fm_mode before AND 18 = 0 \<and> 0 < fm_nlink before"
    using s(2) by (auto simp: image_protected_def Let_def word_gt_0 split: if_splits)
  ultimately show ?thesis using b s(1) h i by auto
qed

text \<open>A system with one file of root in it and nothing else.\<close>

definition one_file_os :: "bytes \<Rightarrow> unit os" where
  "one_file_os content =
     \<lparr>os_clock = io_err NotFound, os_sleep = (\<lambda>_ w. w), os_random = (\<lambda>_. io_err NotFound),
      os_read_text = (\<lambda>_ _. io_err NotFound), os_open_dir = (\<lambda>_. io_err NotFound),
      os_openat = (\<lambda>_ _ _. io_err NotFound), os_reopen = (\<lambda>_. io_err NotFound),
      os_stat = (\<lambda>_. io_ok \<lparr>fm_regular = True, fm_dev = 1, fm_ino = 2, fm_len = word_of_nat (length content), fm_uid = 0,
                          fm_mode = 0x81A4, fm_nlink = 1, fm_mtime = 0, fm_mtime_nsec = 0, fm_ctime = 0, fm_ctime_nsec = 0\<rparr>),
      os_stat_path = (\<lambda>_. io_err NotFound), os_lstat_at = (\<lambda>_ _. io_err NotFound), os_take = (\<lambda>_ _. io_err NotFound),
      os_stage = (\<lambda>_. io_err NotFound), os_write_all = (\<lambda>_ _. io_err NotFound), os_chmod = (\<lambda>_ _. io_err NotFound),
      os_chgrp = (\<lambda>_ _. io_err NotFound), os_sync = (\<lambda>_. io_err NotFound), os_persist = (\<lambda>_ _ _. io_err NotFound),
      os_discard = (\<lambda>_ w. w), os_process_id = Pair 1, os_list_dir = (\<lambda>_. io_err NotFound), os_dup = (\<lambda>_. Pair None),
      os_seals = (\<lambda>_. Pair (- 1)), os_read_exact_at = (\<lambda>_ offset n. io_ok (take n (drop offset content))),
      os_monotonic = Pair 0, os_remove_at = (\<lambda>_ _. io_err NotFound)\<rparr>"

definition small_image :: bytes where
  "small_image =
     [CHR 0x7F, CHR ''E'', CHR ''L'', CHR ''F'', CHR 0x02, CHR 0x01, CHR 0x01] @ replicate 9 CHR 0x00
     @ [CHR 0x03, CHR 0x00, CHR 0xB7, CHR 0x00] @ replicate 44 CHR 0x00"

theorem inspected_image_whole_witness:
  "\<exists>identity. inspect_before (one_file_os small_image) id 0 None () = (Inr identity, ())
     \<and> im_sha256 identity = take (unat (im_bytes identity)) small_image"
proof -
  have i: "inspect_before (one_file_os small_image) id 0 None () = (Inr \<lparr>im_abi = ImgArm64, im_bytes = 64, im_sha256 = small_image\<rparr>, ())"
    by code_simp
  have "os_read_exact_at (one_file_os small_image) 0 offset n w = (Inr bs, w') \<Longrightarrow> bs = take n (drop offset small_image)"
    for offset n w bs w'
    by (simp add: one_file_os_def)
  from inspected_image_whole [OF this i] i show ?thesis by auto
qed

end
