(* ===== verification/Diag_Channel.thy ===== *)
theory Diag_Channel
  imports Diag_Raw Loader_Image
begin

text \<open>
  The framework channel (\<^verbatim>\<open>framework_fixture.rs\<close> and \<^verbatim>\<open>framework_run.rs\<close> of
  \<^verbatim>\<open>crates/core-daemon/src/autonomous/\<close>): Core publishes one envelope at a time in \<^verbatim>\<open>/data/system\<close>, the
  hook acknowledges it, and the worker's requests move the run through the phases whose
  evidence \<^const>\<open>evaluate_framework\<close> judges.  The JSON codec of the two files is a parameter.  Byte
  strings are little-endian in \<^const>\<open>ne_word\<close>, as on every supported target.
\<close>

section \<open>Store\<close>

definition ENVELOPE_FILE :: string where
  "ENVELOPE_FILE = ''vpnhide-diagnostic-framework.json''"

definition ACK_FILE :: string where
  "ACK_FILE = ''vpnhide-diagnostic-framework-ack.json''"

definition CHANNEL_MAX_BYTES :: nat where
  "CHANNEL_MAX_BYTES = 4096"

record framework_json =
  js_envelope :: "bytes \<Rightarrow> string + framework_envelope"
  js_ack :: "bytes \<Rightarrow> string + framework_acknowledgement"
  js_encode :: "framework_envelope \<Rightarrow> string + bytes"

record framework_store =
  st_directory :: handle
  st_path :: string
  st_owner :: u32
  st_ack_owner :: u32

definition store_open :: "'w os \<Rightarrow> string \<Rightarrow> u32 \<Rightarrow> u32 \<Rightarrow> ('w, io_error, framework_store) io" where
  "store_open os path owner ack_owner =
     io_then (os_open_dir os path) (\<lambda>directory.
       io_ok \<lparr>st_directory = directory, st_path = path, st_owner = owner, st_ack_owner = ack_owner\<rparr>)"

definition store_production :: "'w os \<Rightarrow> ('w, io_error, framework_store) io" where
  "store_production os = store_open os ''/data/system'' 0 1000"

definition store_revalidate :: "'w os \<Rightarrow> framework_store \<Rightarrow> ('w, io_error, unit) io" where
  "store_revalidate os st =
     io_then (os_open_dir os (st_path st)) (\<lambda>active.
     io_then (os_stat os active) (\<lambda>a.
     io_then (os_stat os (st_directory st)) (\<lambda>b.
       io_guard ((fm_dev a, fm_ino a) \<noteq> (fm_dev b, fm_ino b)) (invalid ''framework channel directory replaced''))))"

definition read_opened :: "'w os \<Rightarrow> framework_store \<Rightarrow> (bytes \<Rightarrow> string + 't) \<Rightarrow> string \<Rightarrow> u32 \<Rightarrow> handle \<Rightarrow>
    ('w, io_error, 't option) io" where
  "read_opened os st decode name owner file =
     io_then (os_stat os file) (\<lambda>before.
     io_then (io_guard (fm_uid before \<noteq> owner \<or> fm_nlink before \<noteq> 1 \<or> fm_mode before AND 18 \<noteq> 0
                        \<or> fm_len before = 0 \<or> CHANNEL_MAX_BYTES < unat (fm_len before))
                (invalid ''framework channel ownership/type/size is invalid'')) (\<lambda>_.
     io_then (os_take os file (CHANNEL_MAX_BYTES + 1)) (\<lambda>bs.
     io_then (io_guard (CHANNEL_MAX_BYTES < length bs) (invalid ''framework channel changed during read'')) (\<lambda>_.
     io_then (os_stat os file) (\<lambda>after.
     io_then (io_guard (meta_identity before \<noteq> meta_identity after) (invalid ''framework channel changed during read'')) (\<lambda>_.
     io_then (os_lstat_at os (st_directory st) name) (\<lambda>named.
     io_then (io_guard (meta_identity before \<noteq> meta_identity named) (invalid ''framework channel changed during read'')) (\<lambda>_.
     io_then (store_revalidate os st) (\<lambda>_.
       io_map_err invalid (io_then (io_lift (decode bs)) (\<lambda>v. io_ok (Some v))))))))))))"

definition store_read :: "'w os \<Rightarrow> framework_store \<Rightarrow> (bytes \<Rightarrow> string + 't) \<Rightarrow> string \<Rightarrow> u32 \<Rightarrow>
    ('w, io_error, 't option) io" where
  "store_read os st decode name owner =
     io_then (store_revalidate os st) (\<lambda>_ w.
       case open_beneath os (st_directory st) name w of
         (Inr file, w') \<Rightarrow> read_opened os st decode name owner file w'
       | (Inl NotFound, w') \<Rightarrow> (Inr None, w')
       | (Inl e, w') \<Rightarrow> (Inl e, w'))"

definition store_current :: "'w os \<Rightarrow> framework_json \<Rightarrow> framework_store \<Rightarrow> ('w, io_error, framework_envelope option) io" where
  "store_current os js st =
     io_then (store_read os st (js_envelope js) ENVELOPE_FILE (st_owner st)) (\<lambda>value.
     io_then (io_guard (some_and (\<lambda>v. \<not> envelope_valid v) value) (invalid ''invalid framework authority'')) (\<lambda>_. io_ok value))"

definition store_acknowledgement :: "'w os \<Rightarrow> framework_json \<Rightarrow> framework_store \<Rightarrow> framework_envelope \<Rightarrow>
    ('w, io_error, framework_acknowledgement option) io" where
  "store_acknowledgement os js st expected =
     io_then (store_read os st (js_ack js) ACK_FILE (st_ack_owner st)) (\<lambda>value.
       io_ok (if some_and (\<lambda>v. \<not> ack_matches v expected) value then None else value))"

text \<open>What follows the staged file: any failure before \<^verbatim>\<open>persist\<close> succeeds drops, and so deletes, it.\<close>

definition fill_staged :: "'w os \<Rightarrow> framework_json \<Rightarrow> framework_store \<Rightarrow> framework_envelope option \<Rightarrow> bytes \<Rightarrow> handle \<Rightarrow>
    ('w, io_error, unit) io" where
  "fill_staged os js st expected bs staged =
     io_then (os_write_all os staged bs) (\<lambda>_.
     io_then (os_chmod os staged 416) (\<lambda>_.
     io_then (os_stat os staged) (\<lambda>m.
     io_then (io_guard (fm_uid m \<noteq> st_owner st) (invalid ''framework writer is not its declared owner'')) (\<lambda>_.
     io_then (if st_owner st = 0 \<and> st_ack_owner st = 1000 then os_chgrp os staged 1000 else io_ok ()) (\<lambda>_.
     io_then (os_sync os staged) (\<lambda>_.
     io_then (store_revalidate os st) (\<lambda>_.
     io_then (store_current os js st) (\<lambda>now.
     io_then (io_guard (now \<noteq> expected) (invalid ''framework authority changed before publication'')) (\<lambda>_.
       os_persist os staged (st_directory st) ENVELOPE_FILE)))))))))"

definition store_publish :: "'w os \<Rightarrow> framework_json \<Rightarrow> framework_store \<Rightarrow> framework_envelope option \<Rightarrow> framework_envelope \<Rightarrow>
    ('w, io_error, unit) io" where
  "store_publish os js st expected next =
     io_then (io_guard (\<not> envelope_valid next) (invalid ''framework authority changed'')) (\<lambda>_.
     io_then (store_current os js st) (\<lambda>now.
     io_then (io_guard (now \<noteq> expected) (invalid ''framework authority changed'')) (\<lambda>_.
       if expected = Some next then io_ok ()
       else
         io_then (io_map_err invalid (io_lift (js_encode js next))) (\<lambda>bs.
         io_then (io_guard (CHANNEL_MAX_BYTES < length bs) (invalid ''framework envelope exceeds bound'')) (\<lambda>_.
         io_then (os_stage os (st_directory st)) (\<lambda>staged.
         io_then (\<lambda>w. case fill_staged os js st expected bs staged w of
                        (Inl e, w') \<Rightarrow> (Inl e, os_discard os staged w')
                      | (Inr _, w') \<Rightarrow> (Inr (), w')) (\<lambda>_.
         io_then (os_sync os (st_directory st)) (\<lambda>_.
         io_then (store_current os js st) (\<lambda>back.
           io_guard (back \<noteq> Some next) (invalid ''framework publication readback failed''))))))))))"

definition store_revoke :: "'w os \<Rightarrow> framework_json \<Rightarrow> framework_store \<Rightarrow> framework_envelope \<Rightarrow> ('w, io_error, unit) io" where
  "store_revoke os js st expected =
     io_then (store_current os js st) (\<lambda>now.
     io_then (io_guard (now \<noteq> Some expected) (invalid ''framework cleanup source changed'')) (\<lambda>_.
     io_then (os_remove_at os (st_directory st) ENVELOPE_FILE) (\<lambda>_.
     io_then (os_sync os (st_directory st)) (\<lambda>_.
     io_then (store_current os js st) (\<lambda>back.
     io_then (io_guard (back \<noteq> None) (invalid ''framework authorization still present'')) (\<lambda>_.
     io_then (store_acknowledgement os js st expected) (\<lambda>ack.
     io_then (if ack \<noteq> None
              then io_then (os_remove_at os (st_directory st) ACK_FILE) (\<lambda>_. os_sync os (st_directory st))
              else io_ok ()) (\<lambda>_.
       store_revalidate os st))))))))"

definition reconcile_orphan :: "'w os \<Rightarrow> framework_json \<Rightarrow> framework_store \<Rightarrow> u64 \<Rightarrow> string \<Rightarrow> u64 \<Rightarrow> ('w, io_error, unit) io" where
  "reconcile_orphan os js st epoch boot now =
     io_then (store_current os js st) (\<lambda>current.
       case current of
         None \<Rightarrow> io_ok ()
       | Some old \<Rightarrow>
           io_then (io_guard (fe_core_epoch old = epoch \<and> fe_boot_id old = boot \<and> now < fe_expires_boot_ms old)
                      (invalid ''a live framework lease still owns the channel'')) (\<lambda>_.
             store_revoke os js st old))"


section \<open>Run\<close>

datatype framework_worker_phase = FwPrepared | FwRaw | FwProtected | FwRevoked | FwFinished

fun authority_phase :: "framework_worker_phase \<Rightarrow> framework_phase option" where
  "authority_phase FwPrepared = Some Prepared"
| "authority_phase FwRaw = Some Raw"
| "authority_phase FwProtected = Some Protected"
| "authority_phase FwRevoked = Some Revoked"
| "authority_phase FwFinished = None"

record framework_worker_request =
  rq_session :: u64
  rq_core_epoch :: u64
  rq_hook_sha256 :: string
  rq_phase :: framework_worker_phase
  rq_previous :: "framework_observation option"

record framework_worker_task =
  wt_phase :: framework_worker_phase
  wt_vpn_handle :: u64
  wt_ordinary_handle :: u64
  wt_vpn_marker :: string
  wt_ordinary_marker :: string

record framework_run =
  fn_envelope :: framework_envelope
  fn_phases :: "framework_phase_evidence list"
  fn_last :: "framework_worker_request option"
  fn_finished :: bool
  fn_closed :: bool

definition io_disabled :: "('w, io_error, 'a) io \<Rightarrow> ('w, diagnostic_error, 'a) io" where
  "io_disabled m = io_map_err (\<lambda>_. Disabled) m"

definition BOOT_ID_PATH :: string where
  "BOOT_ID_PATH = ''/proc/sys/kernel/random/boot_id''"

definition recover_orphan :: "'w os \<Rightarrow> framework_json \<Rightarrow> u64 \<Rightarrow> ('w, diagnostic_error, unit) io" where
  "recover_orphan os js epoch =
     io_then (io_disabled (bounded_text_of os BOOT_ID_PATH 128)) (\<lambda>boot.
     io_then (io_disabled (store_production os)) (\<lambda>st.
     io_then (io_disabled (boot_ms os)) (\<lambda>now.
       io_disabled (reconcile_orphan os js st epoch (trim boot) now))))"

text \<open>What \<^verbatim>\<open>FrameworkRun::new\<close> takes from the worker's task: session, epoch, and the interface and MTU of its fixture.\<close>

record worker_task =
  tk_session :: u64
  tk_core_epoch :: u64
  tk_fixture :: native_fixture_spec

definition hex_byte :: "char \<Rightarrow> string" where
  "hex_byte b = pad_zero 2 (hex_str (of_char b))"

definition random_id :: "bytes \<Rightarrow> u32" where
  "random_id entropy = ne_word (take 4 entropy) AND 0x3fffffff"

definition new_envelope :: "worker_task \<Rightarrow> u32 \<times> u32 \<times> u64 \<Rightarrow> string \<Rightarrow> bytes \<Rightarrow> string \<Rightarrow> u64 \<Rightarrow> framework_envelope" where
  "new_envelope task worker hash entropy boot expires =
     \<lparr>fe_version = FRAMEWORK_PROTOCOL, fe_session = tk_session task, fe_core_epoch = tk_core_epoch task,
      fe_boot_id = trim boot, fe_nonce = concat (map hex_byte entropy), fe_expected_hook_sha256 = hash,
      fe_worker_uid = fst worker, fe_worker_pid = fst (snd worker), fe_worker_start_ticks = snd (snd worker),
      fe_expires_boot_ms = expires, fe_generation = 0, fe_phase = Prepared,
      fe_fixture =
        \<lparr>ff_vpn_net_id = 0x40000000 + (random_id entropy AND NOT 1),
         ff_ordinary_net_id = 0x40000001 + (random_id entropy AND NOT 1),
         ff_interface_name = if_name (sp_interface (tk_fixture task)), ff_mtu = sp_mtu (tk_fixture task),
         ff_ordinary_interface_name = ''ipsec'' @ pad_zero 10 (hex_str (unat (tk_session task AND 0xffffffffff))),
         ff_ordinary_mtu = 1519\<rparr>\<rparr>"

definition run_new :: "'w os \<Rightarrow> worker_task \<Rightarrow> u32 \<times> u32 \<times> u64 \<Rightarrow> string \<Rightarrow> boot_deadline \<Rightarrow> ('w, diagnostic_error, framework_run) io" where
  "run_new os task worker hash deadline =
     io_then (io_disabled (instant_now os)) (\<lambda>now.
     io_then (io_guard (deadline_expired deadline now) Expired) (\<lambda>_.
     io_then (io_disabled (os_random os 32)) (\<lambda>entropy.
     io_then (io_disabled (bounded_text_of os BOOT_ID_PATH 128)) (\<lambda>boot.
     io_then (io_disabled (io_lift (expires_millis deadline))) (\<lambda>expires.
     let envelope = new_envelope task worker hash entropy boot expires
     in io_then (io_guard (\<not> envelope_valid envelope) MalformedRequest) (\<lambda>_.
        io_then (io_disabled (instant_now os)) (\<lambda>now.
        io_then (io_guard (deadline_expired deadline now) Expired) (\<lambda>_.
          io_ok \<lparr>fn_envelope = envelope, fn_phases = [], fn_last = None, fn_finished = False, fn_closed = False\<rparr>))))))))"

text \<open>
  The process an acknowledgement names is \<^verbatim>\<open>system_server\<close>: owned by the system user, with that command
  line, and started when the acknowledgement says.
\<close>

definition io_test :: "('w, 'e, 'a) io \<Rightarrow> ('a \<Rightarrow> bool) \<Rightarrow> 'w \<Rightarrow> bool \<times> 'w" where
  "io_test m p w = (case m w of (Inl _, w') \<Rightarrow> (False, w') | (Inr x, w') \<Rightarrow> (p x, w'))"

definition system_server :: "'w os \<Rightarrow> framework_acknowledgement \<Rightarrow> 'w \<Rightarrow> bool \<times> 'w" where
  "system_server os ack w =
     (let dir = path_join ''/proc'' (dec_str (unat (fa_system_server_pid ack)))
      in case io_test (os_stat_path os dir) (\<lambda>m. fm_uid m = 1000) w of
           (False, w1) \<Rightarrow> (False, w1)
         | (True, w1) \<Rightarrow>
             (case io_test (bounded_text_of os (path_join dir ''cmdline'') 512)
                     (\<lambda>v. hd (split_on (\<lambda>c. c = CHR 0x00) v) = ''system_server'') w1 of
                (False, w2) \<Rightarrow> (False, w2)
              | (True, w2) \<Rightarrow>
                  io_test (process_identity_of os ''/proc'' (fa_system_server_pid ack))
                    (\<lambda>p. pi_start_ticks p = fa_system_server_start_ticks ack) w2))"

definition ack_of_run :: "framework_run \<Rightarrow> framework_acknowledgement \<Rightarrow> bool" where
  "ack_of_run run ack =
     (case fn_phases run of
        [] \<Rightarrow> True
      | first # _ \<Rightarrow>
          fa_sources (fp_ack first) = fa_sources ack
          \<and> fa_system_server_pid (fp_ack first) = fa_system_server_pid ack
          \<and> fa_system_server_start_ticks (fp_ack first) = fa_system_server_start_ticks ack)"

text \<open>One turn of the polling loop: an acknowledgement, a refusal, or nothing yet.\<close>

definition poll_once :: "'w os \<Rightarrow> framework_json \<Rightarrow> framework_store \<Rightarrow> (framework_acknowledgement \<Rightarrow> 'w \<Rightarrow> bool \<times> 'w) \<Rightarrow>
    framework_run \<Rightarrow> boot_deadline \<Rightarrow> ('w, diagnostic_error, framework_acknowledgement option) io" where
  "poll_once os js st validate run until =
     io_then (io_disabled (boot_ms os)) (\<lambda>now.
     io_then (io_guard (fe_expires_boot_ms (fn_envelope run) \<le> now) Expired) (\<lambda>_.
     io_then (io_disabled (store_current os js st)) (\<lambda>current.
     io_then (io_guard (current \<noteq> Some (fn_envelope run)) StaleSession) (\<lambda>_.
     io_then (io_disabled (store_acknowledgement os js st (fn_envelope run))) (\<lambda>value.
       case value of
         Some ack \<Rightarrow>
           io_then (\<lambda>w. map_prod Inr id (validate ack w)) (\<lambda>ok.
           io_then (io_guard (\<not> ok) WrongProcess) (\<lambda>_.
           io_then (io_guard (\<not> ack_of_run run ack) StaleSession) (\<lambda>_.
           io_then (io_disabled (boot_ms os)) (\<lambda>later.
           io_then (io_guard (fe_expires_boot_ms (fn_envelope run) \<le> later) Expired) (\<lambda>_.
             io_ok (Some ack))))))
       | None \<Rightarrow>
           io_then (io_disabled (instant_now os)) (\<lambda>t.
           io_then (io_guard (deadline_expired until t) Disabled) (\<lambda>_.
             io_ok None)))))))"

text \<open>The loop sleeps ten milliseconds between turns; \<^term>\<open>None\<close> if \<open>fuel\<close> turns did not end it.\<close>

fun poll :: "nat \<Rightarrow> 'w os \<Rightarrow> framework_json \<Rightarrow> framework_store \<Rightarrow> (framework_acknowledgement \<Rightarrow> 'w \<Rightarrow> bool \<times> 'w) \<Rightarrow>
    framework_run \<Rightarrow> boot_deadline \<Rightarrow> 'w \<Rightarrow> ((diagnostic_error + framework_acknowledgement) \<times> 'w) option" where
  "poll 0 os js st validate run until w = None"
| "poll (Suc fuel) os js st validate run until w =
     (case poll_once os js st validate run until w of
        (Inl e, w') \<Rightarrow> Some (Inl e, w')
      | (Inr (Some ack), w') \<Rightarrow> Some (Inr ack, w')
      | (Inr None, w') \<Rightarrow> poll fuel os js st validate run until (os_sleep os 10 w'))"

definition run_acknowledgement :: "nat \<Rightarrow> 'w os \<Rightarrow> framework_json \<Rightarrow> framework_store \<Rightarrow>
    (framework_acknowledgement \<Rightarrow> 'w \<Rightarrow> bool \<times> 'w) \<Rightarrow> framework_run \<Rightarrow> 'w \<Rightarrow>
    ((diagnostic_error + framework_acknowledgement) \<times> 'w) option" where
  "run_acknowledgement fuel os js st validate run w =
     (case io_disabled (deadline_from_now os 800000000) w of
        (Inl e, w') \<Rightarrow> Some (Inl e, w')
      | (Inr until, w') \<Rightarrow> poll fuel os js st validate run until w')"

fun phase_ordinal :: "framework_worker_phase \<Rightarrow> u32" where
  "phase_ordinal FwPrepared = 0"
| "phase_ordinal FwRaw = 1"
| "phase_ordinal FwProtected = 2"
| "phase_ordinal FwRevoked = 3"
| "phase_ordinal FwFinished = 4"

text \<open>What a call leaves behind: its result, the run and the world; \<^term>\<open>None\<close> while it still polls.\<close>

type_synonym ('w, 'a) run_stepped = "((diagnostic_error + 'a) \<times> framework_run \<times> 'w) option"

definition with_run :: "framework_run \<Rightarrow> (diagnostic_error + 'a) \<times> 'w \<Rightarrow> ('w, 'a) run_stepped" where
  "with_run run rw = Some (fst rw, run, snd rw)"

definition advance_first :: "'w os \<Rightarrow> framework_json \<Rightarrow> framework_store \<Rightarrow> framework_run \<Rightarrow> ('w, diagnostic_error, unit) io" where
  "advance_first os js st run =
     io_then (io_disabled (boot_ms os)) (\<lambda>now.
     io_then (io_disabled (reconcile_orphan os js st (fe_core_epoch (fn_envelope run)) (fe_boot_id (fn_envelope run)) now)) (\<lambda>_.
       io_disabled (store_publish os js st None (fn_envelope run))))"

definition advance_next :: "'w os \<Rightarrow> framework_json \<Rightarrow> framework_store \<Rightarrow> framework_run \<Rightarrow> framework_worker_phase \<Rightarrow>
    framework_phase_evidence \<Rightarrow> 'w \<Rightarrow> ('w, unit) run_stepped" where
  "advance_next os js st run phase evidence w =
     (case authority_phase phase of
        Some p \<Rightarrow>
          let nxt = for_phase (fn_envelope run) p
          in (case io_disabled (store_publish os js st (Some (fn_envelope run)) nxt) w of
                (Inl e, w') \<Rightarrow> Some (Inl e, run, w')
              | (Inr _, w') \<Rightarrow>
                  Some (Inr (), run\<lparr>fn_envelope := nxt, fn_phases := fn_phases run @ [evidence]\<rparr>, w'))
      | None \<Rightarrow>
          (case io_disabled (store_revoke os js st (fn_envelope run)) w of
             (Inl e, w') \<Rightarrow> Some (Inl e, run, w')
           | (Inr _, w') \<Rightarrow> Some (Inr (), run\<lparr>fn_finished := True, fn_phases := fn_phases run @ [evidence]\<rparr>, w')))"

definition run_advance :: "nat \<Rightarrow> 'w os \<Rightarrow> framework_json \<Rightarrow> framework_store \<Rightarrow> (framework_acknowledgement \<Rightarrow> 'w \<Rightarrow> bool \<times> 'w) \<Rightarrow>
    framework_worker_request \<Rightarrow> framework_run \<Rightarrow> 'w \<Rightarrow> ('w, unit) run_stepped" where
  "run_advance fuel os js st validate request run w =
     (if phase_ordinal (rq_phase request) = 0
      then if fn_last run \<noteq> None \<or> rq_previous request \<noteq> None then Some (Inl StaleSession, run, w)
           else with_run run (advance_first os js st run w)
      else if fn_last run = None \<or> phase_ordinal (rq_phase request) \<noteq> fe_generation (fn_envelope run) + 1
      then Some (Inl StaleSession, run, w)
      else
        (case rq_previous request of
           None \<Rightarrow> Some (Inl MalformedRequest, run, w)
         | Some observation \<Rightarrow>
             (case run_acknowledgement fuel os js st validate run w of
                None \<Rightarrow> None
              | Some (Inl e, w') \<Rightarrow> Some (Inl e, run, w')
              | Some (Inr ack, w') \<Rightarrow>
                  advance_next os js st run (rq_phase request)
                    \<lparr>fp_envelope = fn_envelope run, fp_ack = ack, fp_obs = observation\<rparr> w')))"

definition reply_task :: "nat \<Rightarrow> 'w os \<Rightarrow> framework_json \<Rightarrow> framework_store \<Rightarrow> (framework_acknowledgement \<Rightarrow> 'w \<Rightarrow> bool \<times> 'w) \<Rightarrow>
    framework_worker_request \<Rightarrow> framework_run \<Rightarrow> 'w \<Rightarrow> ('w, framework_worker_task option) run_stepped" where
  "reply_task fuel os js st validate request run w =
     (if fn_finished run then Some (Inr None, run, w)
      else
        (case run_acknowledgement fuel os js st validate run w of
           None \<Rightarrow> None
         | Some (Inl e, w') \<Rightarrow> Some (Inl e, run, w')
         | Some (Inr ack, w') \<Rightarrow>
             Some (Inr (Some \<lparr>wt_phase = rq_phase request, wt_vpn_handle = fs_vpn_handle (fa_sources ack),
                              wt_ordinary_handle = fs_ordinary_handle (fa_sources ack),
                              wt_vpn_marker = ff_interface_name (fe_fixture (fn_envelope run)),
                              wt_ordinary_marker = ff_ordinary_interface_name (fe_fixture (fn_envelope run))\<rparr>), run, w')))"

definition step_open :: "nat \<Rightarrow> 'w os \<Rightarrow> framework_json \<Rightarrow> framework_store \<Rightarrow> (framework_acknowledgement \<Rightarrow> 'w \<Rightarrow> bool \<times> 'w) \<Rightarrow>
    framework_worker_request \<Rightarrow> framework_run \<Rightarrow> 'w \<Rightarrow> ('w, framework_worker_task option) run_stepped" where
  "step_open fuel os js st validate request run w =
     (if rq_session request \<noteq> fe_session (fn_envelope run) \<or> rq_core_epoch request \<noteq> fe_core_epoch (fn_envelope run)
         \<or> rq_hook_sha256 request \<noteq> fe_expected_hook_sha256 (fn_envelope run)
      then Some (Inl StaleSession, run, w)
      else if some_and (\<lambda>v. \<not> framework_bounded v) (rq_previous request) then Some (Inl MalformedRequest, run, w)
      else if fn_last run \<noteq> Some request
      then (if fn_finished run then Some (Inl StaleSession, run, w)
            else
              (case run_advance fuel os js st validate request run w of
                 None \<Rightarrow> None
               | Some (Inl e, run', w') \<Rightarrow> Some (Inl e, run', w')
               | Some (Inr _, run', w') \<Rightarrow> reply_task fuel os js st validate request (run'\<lparr>fn_last := Some request\<rparr>) w'))
      else reply_task fuel os js st validate request run w)"

definition step_with :: "nat \<Rightarrow> 'w os \<Rightarrow> framework_json \<Rightarrow> framework_store \<Rightarrow> (framework_acknowledgement \<Rightarrow> 'w \<Rightarrow> bool \<times> 'w) \<Rightarrow>
    framework_worker_request \<Rightarrow> framework_run \<Rightarrow> 'w \<Rightarrow> ('w, framework_worker_task option) run_stepped" where
  "step_with fuel os js st validate request run w =
     (if fn_closed run
      then Some (if fn_finished run \<and> fn_last run = Some request then Inr None else Inl Expired, run, w)
      else
        (case io_disabled (boot_ms os) w of
           (Inl e, w') \<Rightarrow> Some (Inl e, run, w')
         | (Inr now, w') \<Rightarrow>
             if fe_expires_boot_ms (fn_envelope run) \<le> now then Some (Inl Expired, run, w')
             else step_open fuel os js st validate request run w'))"

definition run_step :: "nat \<Rightarrow> 'w os \<Rightarrow> framework_json \<Rightarrow> framework_worker_request \<Rightarrow> framework_run \<Rightarrow> 'w \<Rightarrow>
    ('w, framework_worker_task option) run_stepped" where
  "run_step fuel os js request run w =
     (case io_disabled (store_production os) w of
        (Inl e, w') \<Rightarrow> Some (Inl e, run, w')
      | (Inr st, w') \<Rightarrow> step_with fuel os js st (system_server os) request run w')"

definition cleanup_store :: "'w os \<Rightarrow> framework_json \<Rightarrow> framework_store \<Rightarrow> framework_run \<Rightarrow> ('w, io_error, bool) io" where
  "cleanup_store os js st run =
     io_then (store_current os js st) (\<lambda>current.
       case current of
         None \<Rightarrow> io_ok True
       | Some c \<Rightarrow>
           if fe_session c = fe_session (fn_envelope run) \<and> fe_core_epoch c = fe_core_epoch (fn_envelope run)
              \<and> fe_nonce c = fe_nonce (fn_envelope run)
           then io_then (store_revoke os js st c) (\<lambda>_. io_ok True)
           else io_ok False)"

definition run_cleanup :: "'w os \<Rightarrow> framework_json \<Rightarrow> framework_run \<Rightarrow> 'w \<Rightarrow> (scoped_framework \<times> bool) \<times> framework_run \<times> 'w" where
  "run_cleanup os js run w =
     (let run' = run\<lparr>fn_closed := True\<rparr>;
          (r, w') = io_then (store_production os) (\<lambda>st. cleanup_store os js st run') w;
          cleaned = (case r of Inr b \<Rightarrow> b | Inl _ \<Rightarrow> False)
      in ((evaluate_framework (fn_phases run') cleaned, cleaned), run', w'))"

end
