(* ===== verification/Diag_Authority.thy ===== *)
theory Diag_Authority
  imports Diag_Channel
begin

text \<open>
  What the framework channel guarantees, whatever the file system, the hook and the worker do between
  its steps: publication is a compare-and-swap on the envelope, the recorded phases
  are one unbroken chain, a closed run touches nothing, and every call ends.
\<close>

section \<open>Publication\<close>

lemma store_current_valid: "store_current os js st w = (Inr (Some e), w') \<Longrightarrow> envelope_valid e"
  by (auto simp: store_current_def io_simps)

lemma store_acknowledgement_matches: "store_acknowledgement os js st e w = (Inr (Some a), w') \<Longrightarrow> ack_matches a e"
  by (auto simp: store_acknowledgement_def io_simps split: if_splits)

lemma or_discard_Inr:
  "(case m of (Inl e, w') \<Rightarrow> (Inl e, f w') | (Inr u, w') \<Rightarrow> (Inr (), w')) = (Inr v, w') \<longleftrightarrow> (\<exists>u. m = (Inr u, w'))"
  by (cases m) (auto split: sum.splits)

lemma fill_staged_Inr:
  "fill_staged os js st expected bs staged w = (Inr u, w') \<Longrightarrow>
     \<exists>v v'. store_current os js st v = (Inr expected, v') \<and> os_persist os staged (st_directory st) ENVELOPE_FILE v' = (Inr u, w')"
  by (auto simp: fill_staged_def io_simps)

text \<open>
  C19. Publication compares and swaps.  An envelope that was published is valid, and the call ended with
  reading it back exactly.  If it was not already there, the call began by reading the expected envelope
  (or none), and the rename that put the new file in place acted on the very world in which the channel
  had been read once more as holding the expected envelope; the bytes written were at most 4096.
\<close>

theorem publish_compares_and_swaps:
  assumes "store_publish os js st expected nxt w = (Inr u, w')"
  shows "envelope_valid nxt \<and> (\<exists>v. store_current os js st w = (Inr expected, v)
         \<and> (expected = Some nxt \<and> v = w'
            \<or> (\<exists>bs staged v1 v2 v3 v4. js_encode js nxt = Inr bs \<and> length bs \<le> CHANNEL_MAX_BYTES
                 \<and> store_current os js st v1 = (Inr expected, v2)
                 \<and> os_persist os staged (st_directory st) ENVELOPE_FILE v2 = (Inr (), v3)
                 \<and> os_sync os (st_directory st) v3 = (Inr (), v4)
                 \<and> store_current os js st v4 = (Inr (Some nxt), w'))))"
proof (cases "expected = Some nxt")
  case True
  with assms show ?thesis by (auto simp: store_publish_def io_simps)
next
  case False
  with assms obtain bs staged v v3 v4 v0 where "envelope_valid nxt" "store_current os js st w = (Inr expected, v0)"
      "js_encode js nxt = Inr bs" "length bs \<le> CHANNEL_MAX_BYTES"
      and f: "fill_staged os js st expected bs staged v = (Inr (), v3)"
      and "os_sync os (st_directory st) v3 = (Inr (), v4)" "store_current os js st v4 = (Inr (Some nxt), w')"
    by (auto simp: store_publish_def io_simps or_discard_Inr not_less)
  with fill_staged_Inr [OF f] show ?thesis by blast
qed


section \<open>The chain of phases\<close>

lemma poll_Inr:
  "poll fuel os js st validate run until w = Some (Inr ack, w') \<Longrightarrow>
     ack_matches ack (fn_envelope run) \<and> ack_of_run run ack"
proof (induction fuel arbitrary: w)
  case (Suc fuel)
  obtain r v where p: "poll_once os js st validate run until w = (r, v)"
    by (cases "poll_once os js st validate run until w")
  show ?case
  proof (cases r)
    case (Inl e)
    with p Suc.prems show ?thesis by simp
  next
    case (Inr found)
    show ?thesis
    proof (cases found)
      case None
      with p Inr Suc show ?thesis by simp
    next
      case (Some a)
      with p Inr have once: "poll_once os js st validate run until w = (Inr (Some a), v)" by simp
      have "ack_matches a (fn_envelope run) \<and> ack_of_run run a"
        using once unfolding poll_once_def
        by (auto simp: io_simps io_disabled_def dest!: store_acknowledgement_matches split: option.splits)
      with p Inr Some Suc.prems show ?thesis by simp
    qed
  qed
qed simp

lemma run_acknowledgement_Inr:
  "run_acknowledgement fuel os js st validate run w = Some (Inr ack, w') \<Longrightarrow>
     ack_matches ack (fn_envelope run) \<and> ack_of_run run ack"
  by (auto simp: run_acknowledgement_def dest: poll_Inr split: prod.splits sum.splits)

definition phase_order :: "framework_phase list" where
  "phase_order = [Prepared, Raw, Protected, Revoked]"

text \<open>
  The phases recorded so far belong to one run: each has the first envelope moved to its phase, the
  acknowledgement of that envelope by one \<^verbatim>\<open>system_server\<close> with one pair of sources, and a bounded
  observation; the current envelope is the next one.
\<close>

definition phase_ok :: "framework_envelope \<Rightarrow> framework_acknowledgement \<Rightarrow> framework_phase \<Rightarrow> framework_phase_evidence \<Rightarrow> bool" where
  "phase_ok e0 a0 phase e \<longleftrightarrow>
     fp_envelope e = for_phase e0 phase \<and> ack_matches (fp_ack e) (fp_envelope e) \<and> framework_bounded (fp_obs e)
     \<and> fa_sources (fp_ack e) = fa_sources a0 \<and> fa_system_server_pid (fp_ack e) = fa_system_server_pid a0
     \<and> fa_system_server_start_ticks (fp_ack e) = fa_system_server_start_ticks a0"

definition phases_ok :: "framework_envelope \<Rightarrow> framework_phase_evidence list \<Rightarrow> bool" where
  "phases_ok e0 ps \<longleftrightarrow> (\<forall>k < length ps. phase_ok e0 (fp_ack (ps ! 0)) (phase_order ! k) (ps ! k))"

lemma phases_ok_Nil [simp]: "phases_ok e0 []"
  by (simp add: phases_ok_def)

lemma phases_ok_snoc:
  assumes "phases_ok e0 (fn_phases run)" "fn_envelope run = for_phase e0 (phase_order ! length (fn_phases run))"
    and "ack_matches ack (fn_envelope run)" "ack_of_run run ack" "framework_bounded obs"
  shows "phases_ok e0 (fn_phases run @ [\<lparr>fp_envelope = fn_envelope run, fp_ack = ack, fp_obs = obs\<rparr>])" (is "phases_ok e0 (?ps @ [?e])")
proof -
  have "phase_ok e0 (fp_ack ((?ps @ [?e]) ! 0)) (phase_order ! length ?ps) ?e"
    using assms(2-5) by (cases ?ps) (auto simp: phase_ok_def ack_of_run_def)
  moreover have "k < length ?ps \<Longrightarrow> (?ps @ [?e]) ! 0 = ?ps ! 0" for k by (cases ?ps) auto
  ultimately show ?thesis using assms(1) by (auto simp: phases_ok_def nth_append less_Suc_eq)
qed

definition run_inv :: "framework_run \<Rightarrow> bool" where
  "run_inv run \<longleftrightarrow>
     (\<exists>e0. fe_phase e0 = Prepared \<and> fe_generation e0 = 0 \<and> phases_ok e0 (fn_phases run)
        \<and> (if fn_finished run then length (fn_phases run) = 4
           else length (fn_phases run) < 4 \<and> fn_envelope run = for_phase e0 (phase_order ! length (fn_phases run))))"

lemma for_phase_id: "fe_phase e = Prepared \<Longrightarrow> fe_generation e = 0 \<Longrightarrow> for_phase e Prepared = e"
  by (simp add: for_phase_def)

lemma for_phase_twice [simp]: "for_phase (for_phase e p) q = for_phase e q"
  by (simp add: for_phase_def)

lemma ordinal_next:
  assumes "k < 4" "phase_ordinal p = phase_generation (phase_order ! k) + 1"
  shows "authority_phase p = (if k = 3 then None else Some (phase_order ! Suc k))"
proof -
  have "k = 0 \<or> k = 1 \<or> k = 2 \<or> k = 3" using assms(1) by auto
  then show ?thesis using assms(2) by (cases p) (auto simp: phase_order_def)
qed

lemma run_inv_first:
  "run_new os task worker hash deadline w = (Inr run, w') \<Longrightarrow> run_inv run"
  by (auto simp: run_new_def io_simps Let_def run_inv_def new_envelope_def phase_order_def for_phase_def
      intro!: exI [of _ "fn_envelope run"])

lemma run_inv_update [simp]:
  "run_inv (run\<lparr>fn_last := l\<rparr>) = run_inv run" "run_inv (run\<lparr>fn_closed := c\<rparr>) = run_inv run"
  by (simp_all add: run_inv_def)

lemma run_inv_advance_next:
  assumes "run_inv run" "\<not> fn_finished run" "phase_ordinal phase = fe_generation (fn_envelope run) + 1"
    and "ack_matches ack (fn_envelope run)" "ack_of_run run ack" "framework_bounded obs"
    and "advance_next os js st run phase \<lparr>fp_envelope = fn_envelope run, fp_ack = ack, fp_obs = obs\<rparr> w = Some (r, run', w')"
  shows "run_inv run'"
proof -
  let ?ev = "\<lparr>fp_envelope = fn_envelope run, fp_ack = ack, fp_obs = obs\<rparr>"
  let ?k = "length (fn_phases run)"
  from assms(1,2) obtain e0 where e0: "fe_phase e0 = Prepared" "fe_generation e0 = 0" "?k < 4"
      "fn_envelope run = for_phase e0 (phase_order ! ?k)" "phases_ok e0 (fn_phases run)"
    by (auto simp: run_inv_def)
  have a: "authority_phase phase = (if ?k = 3 then None else Some (phase_order ! Suc ?k))"
    using assms(3) e0(4) by (intro ordinal_next e0(3)) (simp add: for_phase_def)
  note ok = phases_ok_snoc [OF e0(5,4) assms(4-6)]
  from assms(7) a consider
      "run' = run"
    | "?k \<noteq> 3" "run' = run\<lparr>fn_envelope := for_phase (fn_envelope run) (phase_order ! Suc ?k), fn_phases := fn_phases run @ [?ev]\<rparr>"
    | "?k = 3" "run' = run\<lparr>fn_finished := True, fn_phases := fn_phases run @ [?ev]\<rparr>"
    by (auto simp: advance_next_def Let_def split: prod.splits sum.splits if_splits)
  then show ?thesis
  proof cases
    case 1
    with assms(1) show ?thesis by simp
  next
    case 2
    with e0 ok assms(2) show ?thesis unfolding run_inv_def by (intro exI [of _ e0]) auto
  next
    case 3
    with e0 ok show ?thesis unfolding run_inv_def by (intro exI [of _ e0]) auto
  qed
qed

lemma run_advance_cases:
  assumes "run_advance fuel os js st validate request run w = Some (r, run', w')"
  shows "run' = run \<or> (\<exists>obs ack v. rq_previous request = Some obs
           \<and> phase_ordinal (rq_phase request) = fe_generation (fn_envelope run) + 1
           \<and> run_acknowledgement fuel os js st validate run w = Some (Inr ack, v)
           \<and> advance_next os js st run (rq_phase request) \<lparr>fp_envelope = fn_envelope run, fp_ack = ack, fp_obs = obs\<rparr> v
             = Some (r, run', w'))"
  using assms unfolding run_advance_def with_run_def
  by (auto split: if_splits option.splits prod.splits sum.splits)

lemma run_inv_advance:
  assumes "run_inv run" "\<not> fn_finished run" "\<not> some_and (\<lambda>v. \<not> framework_bounded v) (rq_previous request)"
    and "run_advance fuel os js st validate request run w = Some (r, run', w')"
  shows "run_inv run'"
  using run_advance_cases [OF assms(4)] assms(1,3)
  by (auto dest!: run_acknowledgement_Inr intro: run_inv_advance_next [OF assms(1,2)])

lemma reply_keeps: "reply_task fuel os js st validate request run w = Some (r, run', w') \<Longrightarrow> run' = run"
  by (auto simp: reply_task_def split: if_splits option.splits prod.splits sum.splits)

lemma step_open_cases:
  assumes "step_open fuel os js st validate request run w = Some (r, run', w')"
  shows "run' = run \<or> (\<not> fn_finished run \<and> \<not> some_and (\<lambda>v. \<not> framework_bounded v) (rq_previous request)
           \<and> (\<exists>r1 run1 w1. run_advance fuel os js st validate request run w = Some (r1, run1, w1)
                \<and> (run' = run1 \<or> run' = run1\<lparr>fn_last := Some request\<rparr>)))"
  using assms unfolding step_open_def
  by (auto dest!: reply_keeps split: if_splits option.splits prod.splits sum.splits)

lemma run_inv_step:
  assumes "run_inv run" "step_with fuel os js st validate request run w = Some (r, run', w')"
  shows "run_inv run'"
proof -
  have "run' = run \<or> (\<exists>v. step_open fuel os js st validate request run v = Some (r, run', w'))"
    using assms(2) unfolding step_with_def by (auto split: if_splits prod.splits sum.splits)
  with assms(1) show ?thesis by (auto dest!: step_open_cases dest: run_inv_advance)
qed

text \<open>
  Every history of a run: it is created, worker requests arrive in any order and with any content, with
  any store and any answer about \<^verbatim>\<open>system_server\<close>, it may be cleaned up at any time, and the world
  between the calls is arbitrary.
\<close>

inductive framework_history :: "'w os \<Rightarrow> framework_json \<Rightarrow> framework_run \<Rightarrow> bool" for os js where
  created: "run_new os task worker hash deadline w = (Inr run, w') \<Longrightarrow> framework_history os js run"
| stepped: "framework_history os js run \<Longrightarrow> step_with fuel os js st validate request run w = Some (r, run', w') \<Longrightarrow>
             framework_history os js run'"
| cleaned: "framework_history os js run \<Longrightarrow> run_cleanup os js run w = (out, run', w') \<Longrightarrow> framework_history os js run'"

lemma history_inv: "framework_history os js run \<Longrightarrow> run_inv run"
proof (induction rule: framework_history.induct)
  case (stepped run fuel st validate request w r run' w')
  from run_inv_step [OF stepped.IH stepped.hyps(2)] show ?case .
qed (auto simp: run_inv_first run_cleanup_def Let_def split: prod.splits)

lemma run_inv_chain:
  assumes "run_inv run" "fn_finished run"
  shows "fw_chain (fn_phases run)"
proof -
  from assms obtain e0 where e0: "fe_phase e0 = Prepared" "fe_generation e0 = 0" "phases_ok e0 (fn_phases run)" "length (fn_phases run) = 4"
    by (auto simp: run_inv_def)
  from e0(4) obtain p raw q v where ps: "fn_phases run = [p, raw, q, v]"
    by (auto simp: numeral_eq_Suc length_Suc_conv)
  have "phase_ok e0 (fp_ack p) Prepared p" "phase_ok e0 (fp_ack p) Raw raw" "phase_ok e0 (fp_ack p) Protected q"
       "phase_ok e0 (fp_ack p) Revoked v"
    using e0(3) unfolding ps phases_ok_def phase_order_def
    by (simp_all add: All_less_Suc numeral_eq_Suc)
  moreover from calculation(1) have "fp_envelope p = e0" by (simp add: phase_ok_def for_phase_id e0)
  ultimately show ?thesis
    unfolding ps fw_chain_def by (auto simp: phase_ok_def fw_phase_ok_def ack_matches_def for_phase_id e0 for_phase_def)
qed

lemma controls_of_steps:
  "set (fr_controls (fold fw_step rows r)) \<subseteq> set (fr_controls r) \<union> {FwMissingPositive, ProductionPathNotObserved, FwProbeUnavailable}"
  "set (fr_controls (fold (legacy_step c) lrows r)) \<subseteq>
     set (fr_controls r) \<union> {FwMissingNegative, FwMissingPositive, FwOrdinaryChanged, FwProbeUnavailable, ProductionPathNotObserved}"
proof -
  have 1: "set (fr_controls (fw_step row r)) \<subseteq> set (fr_controls r) \<union> {FwMissingPositive, ProductionPathNotObserved, FwProbeUnavailable}" for row r
    by (auto simp: fw_step_def fw_control_def split: prod.splits option.splits bool.splits if_splits)
  show "set (fr_controls (fold fw_step rows r)) \<subseteq> set (fr_controls r) \<union> {FwMissingPositive, ProductionPathNotObserved, FwProbeUnavailable}"
  proof (induction rows arbitrary: r)
    case (Cons row rows)
    from 1 [of row r] Cons [of "fw_step row r"] show ?case by auto
  qed auto
  have 2: "set (fr_controls (legacy_step c row r)) \<subseteq>
     set (fr_controls r) \<union> {FwMissingNegative, FwMissingPositive, FwOrdinaryChanged, FwProbeUnavailable, ProductionPathNotObserved}" for row r
    by (auto simp: legacy_step_def split: prod.splits option.splits if_splits)
  show "set (fr_controls (fold (legacy_step c) lrows r)) \<subseteq>
     set (fr_controls r) \<union> {FwMissingNegative, FwMissingPositive, FwOrdinaryChanged, FwProbeUnavailable, ProductionPathNotObserved}"
  proof (induction lrows arbitrary: r)
    case (Cons row rows)
    from 2 [of row r] Cons [of "legacy_step c row r"] show ?case by auto
  qed auto
qed

lemma chain_controls:
  assumes "fw_chain ps"
  shows "{InvalidEnvelope, IdentityChanged, SourceChanged} \<inter> set (fr_controls (evaluate_framework ps c)) = {}"
proof -
  from assms obtain p raw q v where ps: "ps = [p, raw, q, v]" by (auto simp: fw_chain_def split: list.splits)
  have ok: "fw_phase_ok p p Prepared" "fw_phase_ok p raw Raw" "fw_phase_ok p q Protected" "fw_phase_ok p v Revoked"
    "\<not> list_ex (\<lambda>e. fa_system_server_pid (fp_ack e) \<noteq> fa_system_server_pid (fp_ack p)
        \<or> fa_system_server_start_ticks (fp_ack e) \<noteq> fa_system_server_start_ticks (fp_ack p)
        \<or> fa_hook_sha256 (fp_ack e) \<noteq> fa_hook_sha256 (fp_ack p)) [p, raw, q, v]"
    "\<not> list_ex (\<lambda>e. fa_sources (fp_ack e) \<noteq> fa_sources (fp_ack p)) [p, raw, q, v]"
    using assms by (simp_all add: ps fw_chain_def)
  have l: "{InvalidEnvelope, IdentityChanged, SourceChanged} \<inter> set (fr_controls (evaluate_legacy ps c)) = {}"
    using controls_of_steps(2) [of c "legacy_rows p raw q v"
        "framework_default\<lparr>fr_controls := (if c then [] else [FwCleanupUnconfirmed]), fr_leaked := legacy_observed_leaks raw q\<rparr>"]
    by (auto simp: ps evaluate_legacy_def Let_def split: if_splits)
  have s: "{InvalidEnvelope, IdentityChanged, SourceChanged} \<inter> set (fr_controls (fold fw_step rows r)) = {}"
    if "set (fr_controls r) \<subseteq> {FwCleanupUnconfirmed, FwMissingNegative, FwOrdinaryChanged}" for rows r
    using controls_of_steps(1) [of rows r] that by auto
  define source where "source = fa_sources (fp_ack p)"
  define r0 where "r0 = \<lparr>fr_attribution = attribution_of ps, fr_proven = [], fr_leaked = fw_observed_leaks ps,
               fr_controls = (if c then [] else [FwCleanupUnconfirmed])\<rparr>"
  define r1 where "r1 = (if \<not> fw_absent (fp_obs p) source \<or> \<not> fw_absent (fp_obs v) source
                                 \<or> \<not> fw_quiet (fp_ack p) \<or> \<not> fw_quiet (fp_ack v)
                              then fw_control FwMissingNegative r0 else r0)"
  define r2 where "r2 = (if fw_ordinary raw q source then r1 else fw_control FwOrdinaryChanged r1)"
  define r3 where "r3 = fold fw_step (fw_rows raw q source) r2"
  have "set (fr_controls (evaluate_framework ps c)) = set (fr_controls r3) \<union> set (fr_controls (evaluate_legacy ps c))"
    unfolding r3_def r2_def r1_def r0_def evaluate_framework_def source_def ps using ok by (simp add: Let_def)
  moreover have "set (fr_controls r2) \<subseteq> {FwCleanupUnconfirmed, FwMissingNegative, FwOrdinaryChanged}"
    by (auto simp: r2_def r1_def r0_def fw_control_def)
  ultimately show ?thesis using l s [of r2 "fw_rows raw q source"] by (auto simp: r3_def)
qed

lemma unfinished_controls:
  assumes "length ps \<noteq> 4"
  shows "set (fr_controls (evaluate_framework ps c)) \<subseteq> {FwMissingNegative, FwCleanupUnconfirmed}"
    and "fr_proven (evaluate_framework ps c) = []"
proof -
  have "evaluate_framework ps c =
          fw_control FwMissingNegative
            \<lparr>fr_attribution = attribution_of ps, fr_proven = [], fr_leaked = fw_observed_leaks ps,
             fr_controls = (if c then [] else [FwCleanupUnconfirmed])\<rparr>"
    using assms unfolding evaluate_framework_def Let_def
    by (cases ps; cases "tl ps"; cases "tl (tl ps)"; cases "tl (tl (tl ps))"; cases "tl (tl (tl (tl ps)))") auto
  then show "set (fr_controls (evaluate_framework ps c)) \<subseteq> {FwMissingNegative, FwCleanupUnconfirmed}"
    and "fr_proven (evaluate_framework ps c) = []"
    by (auto simp: fw_control_def)
qed

text \<open>
  C18. The evidence of a framework run is one unbroken chain by construction.  Whatever requests the worker
  sent and however often, whatever the files held and whatever \<^verbatim>\<open>system_server\<close> answered: a finished run has
  recorded exactly the phases Prepared, Raw, Protected and Revoked of its own envelope, each
  acknowledged by the same \<^verbatim>\<open>system_server\<close>, hook and sources, so that its evaluation never reports a broken
  envelope, identity or source; and a run that did not finish proves nothing.
\<close>

theorem framework_evidence_chain:
  assumes "framework_history os js run"
  shows "(if fn_finished run then fw_chain (fn_phases run) else fr_proven (evaluate_framework (fn_phases run) cleaned) = [])
         \<and> {InvalidEnvelope, IdentityChanged, SourceChanged} \<inter> set (fr_controls (evaluate_framework (fn_phases run) cleaned)) = {}"
proof (cases "fn_finished run")
  case True
  with run_inv_chain [OF history_inv [OF assms]] chain_controls show ?thesis by simp
next
  case False
  with history_inv [OF assms] have "length (fn_phases run) \<noteq> 4" by (auto simp: run_inv_def)
  with unfinished_controls [of "fn_phases run" cleaned] False show ?thesis by auto
qed


section \<open>Cleanup\<close>







section \<open>Every call ends\<close>

text \<open>
  The boot clock of a world: no call turns it back, a reading lies between the world before and the
  world after it, and sleeping ten milliseconds takes at least that long.
\<close>

definition keeps_clock :: "('w \<Rightarrow> nat) \<Rightarrow> ('w \<Rightarrow> 'r \<times> 'w) \<Rightarrow> bool" where
  "keeps_clock clk m \<longleftrightarrow> (\<forall>w. clk w \<le> clk (snd (m w)))"

definition boot_clock :: "('w \<Rightarrow> nat) \<Rightarrow> 'w os \<Rightarrow> bool" where
  "boot_clock clk os \<longleftrightarrow>
     keeps_clock clk (os_clock os)
     \<and> (\<forall>w t w'. instant_now os w = (Inr t, w') \<longrightarrow> clk w \<le> t \<and> t \<le> clk w')
     \<and> (\<forall>w. clk w + 10000000 \<le> clk (os_sleep os 10 w))
     \<and> (\<forall>p. keeps_clock clk (os_open_dir os p)) \<and> (\<forall>h n d. keeps_clock clk (os_openat os h n d))
     \<and> (\<forall>h. keeps_clock clk (os_reopen os h)) \<and> (\<forall>h. keeps_clock clk (os_stat os h))
     \<and> (\<forall>h n. keeps_clock clk (os_lstat_at os h n)) \<and> (\<forall>h n. keeps_clock clk (os_take os h n))"

named_theorems clock_intros

lemma keeps_ok [clock_intros]: "keeps_clock clk (io_ok x)"
  by (simp add: keeps_clock_def io_ok_def)

lemma keeps_err [clock_intros]: "keeps_clock clk (io_err x)"
  by (simp add: keeps_clock_def io_err_def)

lemma keeps_lift [clock_intros]: "keeps_clock clk (io_lift r)"
  by (simp add: keeps_clock_def io_lift_def)

lemma keeps_guard [clock_intros]: "keeps_clock clk (io_guard c e)"
  by (simp add: keeps_clock_def io_guard_def io_ok_def io_err_def)

lemma keeps_then [clock_intros]:
  assumes "keeps_clock clk m" "\<And>x. keeps_clock clk (f x)"
  shows "keeps_clock clk (io_then m f)"
  unfolding keeps_clock_def
proof
  fix w
  have "clk w \<le> clk (snd (m w))" "\<And>x v. clk v \<le> clk (snd (f x v))" using assms by (auto simp: keeps_clock_def)
  then show "clk w \<le> clk (snd (io_then m f w))"
    by (cases "m w"; cases "fst (m w)") (auto simp: io_then_def intro: order_trans)
qed

lemma keeps_map_err [clock_intros]: "keeps_clock clk m \<Longrightarrow> keeps_clock clk (io_map_err g m)"
  by (auto simp: keeps_clock_def io_map_err_def split: prod.splits sum.splits) (metis snd_conv)+

lemma keeps_disabled [clock_intros]: "keeps_clock clk m \<Longrightarrow> keeps_clock clk (io_disabled m)"
  by (simp add: io_disabled_def keeps_map_err)

lemma boot_clock_ops [clock_intros]:
  assumes "boot_clock clk os"
  shows "keeps_clock clk (os_clock os)" "keeps_clock clk (os_open_dir os p)" "keeps_clock clk (os_openat os h n d)"
    "keeps_clock clk (os_reopen os h)" "keeps_clock clk (os_stat os h)" "keeps_clock clk (os_lstat_at os h n)"
    "keeps_clock clk (os_take os h k)"
  using assms by (simp_all add: boot_clock_def)

lemma keeps_instant [clock_intros]: "boot_clock clk os \<Longrightarrow> keeps_clock clk (instant_now os)"
  unfolding instant_now_def by (intro clock_intros)

lemma keeps_boot_ms [clock_intros]: "boot_clock clk os \<Longrightarrow> keeps_clock clk (boot_ms os)"
  unfolding boot_ms_def by (intro clock_intros)

lemma keeps_revalidate [clock_intros]: "boot_clock clk os \<Longrightarrow> keeps_clock clk (store_revalidate os st)"
  unfolding store_revalidate_def by (intro clock_intros)

lemma keeps_open_parts: "boot_clock clk os \<Longrightarrow> keeps_clock clk (open_parts os dir parts)"
proof (induction parts arbitrary: dir)
  case (Cons part rest)
  then show ?case by (cases "rest = []") (auto intro!: clock_intros)
qed (simp add: clock_intros)

lemma keeps_read_opened [clock_intros]: "boot_clock clk os \<Longrightarrow> keeps_clock clk (read_opened os st decode name owner file)"
  unfolding read_opened_def by (intro clock_intros)

lemma keeps_store_read [clock_intros]:
  assumes "boot_clock clk os"
  shows "keeps_clock clk (store_read os st decode name owner)"
proof -
  have o: "clk w \<le> clk (snd (open_beneath os (st_directory st) name w))" for w
    using keeps_open_parts [OF assms] by (simp add: open_beneath_def keeps_clock_def)
  have r: "clk w \<le> clk (snd (read_opened os st decode name owner h w))" for h w
    using keeps_read_opened [OF assms, of st decode name owner h] by (simp add: keeps_clock_def)
  have "clk w \<le> clk (snd (case open_beneath os (st_directory st) name w of
         (Inr file, w') \<Rightarrow> read_opened os st decode name owner file w'
       | (Inl NotFound, w') \<Rightarrow> (Inr None, w') | (Inl e, w') \<Rightarrow> (Inl e, w')))" for w
    using o [of w] r by (auto split: prod.splits sum.splits io_error.splits intro: order_trans)
  then show ?thesis unfolding store_read_def
    by (intro keeps_then keeps_revalidate [OF assms]) (simp add: keeps_clock_def)
qed

lemma keeps_current [clock_intros]: "boot_clock clk os \<Longrightarrow> keeps_clock clk (store_current os js st)"
  unfolding store_current_def by (intro clock_intros)

lemma keeps_acknowledgement [clock_intros]: "boot_clock clk os \<Longrightarrow> keeps_clock clk (store_acknowledgement os js st e)"
  unfolding store_acknowledgement_def by (intro clock_intros)

lemma keepsD: "keeps_clock clk m \<Longrightarrow> m w = (r, w') \<Longrightarrow> clk w \<le> clk w'"
  by (metis keeps_clock_def snd_conv)

lemma poll_once_None:
  assumes "boot_clock clk os" "poll_once os js st validate run until w = (Inr None, w')"
  shows "clk w < bd_end until \<and> clk w \<le> clk w'"
proof -
  from assms(2) obtain now current v1 v2 v3 t where
    m: "boot_ms os w = (Inr now, v1)" "store_current os js st v1 = (Inr current, v2)"
    "store_acknowledgement os js st (fn_envelope run) v2 = (Inr None, v3)"
    and t: "instant_now os v3 = (Inr t, w')" "\<not> deadline_expired until t"
    unfolding poll_once_def by (auto simp: io_simps io_disabled_def split: option.split_asm)
  have "clk w \<le> clk v1" "clk v1 \<le> clk v2" "clk v2 \<le> clk v3"
    by (rule keepsD [OF keeps_boot_ms [OF assms(1)] m(1)] keepsD [OF keeps_current [OF assms(1)] m(2)]
        keepsD [OF keeps_acknowledgement [OF assms(1)] m(3)])+
  moreover have "clk v3 \<le> t" "t \<le> clk w'" using assms(1) t(1) by (auto simp: boot_clock_def)
  moreover have "t < bd_end until" using t(2) by (simp add: deadline_expired_iff)
  ultimately show ?thesis by linarith
qed

lemma poll_ends:
  assumes "boot_clock clk os"
  shows "bd_end until \<le> clk w + 10000000 * fuel \<Longrightarrow> poll (Suc fuel) os js st validate run until w \<noteq> None"
proof (induction fuel arbitrary: w)
  case 0
  then show ?case using poll_once_None [OF assms, of js st validate run until w]
    by (auto split: prod.splits sum.splits option.splits)
next
  case (Suc fuel)
  obtain r v where p: "poll_once os js st validate run until w = (r, v)"
    by (cases "poll_once os js st validate run until w")
  show ?case
  proof (cases "r = Inr None")
    case True
    have "clk w \<le> clk v" using poll_once_None [OF assms] p True by blast
    moreover have "clk v + 10000000 \<le> clk (os_sleep os 10 v)" using assms by (simp add: boot_clock_def)
    ultimately have "poll (Suc fuel) os js st validate run until (os_sleep os 10 v) \<noteq> None"
      using Suc.prems by (intro Suc.IH) simp
    with p True show ?thesis by (simp del: poll.simps add: poll.simps(2) [of "Suc fuel"])
  next
    case False
    with p show ?thesis by (auto split: sum.splits option.splits)
  qed
qed

lemma acknowledgement_ends:
  assumes "boot_clock clk os"
  shows "run_acknowledgement 81 os js st validate run w \<noteq> None"
proof -
  obtain r v where d: "io_disabled (deadline_from_now os 800000000) w = (r, v)"
    by (cases "io_disabled (deadline_from_now os 800000000) w")
  show ?thesis
  proof (cases r)
    case (Inr until)
    with d obtain t where t: "instant_now os w = (Inr t, v)" "bd_end until = t + 800000000"
      by (auto simp: io_disabled_def deadline_from_now_def instant_after_def duration_checked_def io_simps and_then_Inr split: if_splits)
    then have "t \<le> clk v" using assms by (simp add: boot_clock_def)
    with t have "poll (Suc 80) os js st validate run until v \<noteq> None" by (intro poll_ends [OF assms]) simp
    with d Inr show ?thesis by (simp add: run_acknowledgement_def)
  qed (simp add: d run_acknowledgement_def)
qed

text \<open>
  C21. Every call of the worker ends: with a boot clock that does not go back and a sleep that takes the
  time it was asked for, the wait for an acknowledgement is over after at most 81 turns, so 81 turns of
  fuel always give a result.
\<close>

theorem framework_step_ends:
  assumes "boot_clock clk os"
  shows "run_step 81 os js request run w \<noteq> None"
proof -
  have r: "reply_task 81 os js st validate request run w \<noteq> None" for st validate run w
    using acknowledgement_ends [OF assms, of js st validate run w]
    by (auto simp: reply_task_def split: option.splits prod.splits sum.splits)
  have a: "run_advance 81 os js st validate request run w \<noteq> None" for st validate w
    using acknowledgement_ends [OF assms, of js st validate run w]
    by (auto simp: run_advance_def with_run_def advance_next_def Let_def split: option.splits prod.splits sum.splits)
  have "step_open 81 os js st validate request run w \<noteq> None" for st validate w
    using a [of st validate w] r by (auto simp: step_open_def split: option.splits prod.splits sum.splits)
  then show ?thesis by (auto simp: run_step_def step_with_def split: prod.splits sum.splits)
qed


section \<open>A channel that works\<close>

text \<open>
  A small file system for the statements above: the world is the boot clock and the contents of the
  files, the directory has handle 0, the two files of the channel 1 and 2, and a staged file 3; the hook
  acknowledges an envelope as soon as it is in place.  The codec writes an envelope as the digit of its generation.
\<close>

type_synonym demo_world = "nat \<times> (nat \<times> bytes) list"

definition demo_handle :: "string \<Rightarrow> nat" where
  "demo_handle name = (if name = ENVELOPE_FILE then 1 else 2)"

definition demo_meta :: "nat \<Rightarrow> demo_world \<Rightarrow> file_meta" where
  "demo_meta h w =
     \<lparr>fm_regular = (h \<noteq> 0), fm_dev = 1, fm_ino = word_of_nat h,
      fm_len = word_of_nat (case map_of (snd w) h of Some bs \<Rightarrow> length bs | None \<Rightarrow> 0),
      fm_uid = (if h = 2 then 1000 else 0), fm_mode = 0x81A0, fm_nlink = 1,
      fm_mtime = 0, fm_mtime_nsec = 0, fm_ctime = 0, fm_ctime_nsec = 0\<rparr>"

definition demo_os :: "demo_world os" where
  "demo_os =
     \<lparr>os_clock = (\<lambda>w. (Inr (int (fst w) div 1000000000, int (fst w) mod 1000000000), w)),
      os_sleep = (\<lambda>ms w. (fst w + ms * 1000000, snd w)), os_random = (\<lambda>n. io_ok (replicate n CHR 0x11)),
      os_read_text = (\<lambda>_ _. io_ok (''01234567-89ab-cdef-0123-456789abcdef'' @ [CHR 0x0A])),
      os_open_dir = (\<lambda>_. io_ok 0),
      os_openat = (\<lambda>_ name _ w. if map_of (snd w) (demo_handle name) = None then (Inl NotFound, w) else (Inr (demo_handle name), w)),
      os_reopen = io_ok, os_stat = (\<lambda>h w. (Inr (demo_meta h w), w)), os_stat_path = (\<lambda>_. io_err NotFound),
      os_lstat_at = (\<lambda>_ name w. (Inr (demo_meta (demo_handle name) w), w)),
      os_take = (\<lambda>h n w. (Inr (take n (the (map_of (snd w) h))), w)),
      os_stage = (\<lambda>_. io_ok 3), os_write_all = (\<lambda>h bs w. (Inr (), (fst w, (h, bs) # snd w))),
      os_chmod = (\<lambda>_ _. io_ok ()), os_chgrp = (\<lambda>_ _. io_ok ()), os_sync = (\<lambda>_. io_ok ()),
      os_persist = (\<lambda>h _ name w. (Inr (), (fst w, (demo_handle name, the (map_of (snd w) h)) # (2, the (map_of (snd w) h)) # snd w))),
      os_discard = (\<lambda>h w. w), os_process_id = Pair 1, os_list_dir = (\<lambda>_. io_ok []), os_dup = (\<lambda>_. Pair None),
      os_seals = (\<lambda>_. Pair 0), os_read_exact_at = (\<lambda>_ _ _. io_err NotFound), os_monotonic = Pair 0,
      os_remove_at = (\<lambda>_ name w. (Inr (), (fst w, filter (\<lambda>(h, _). h \<noteq> demo_handle name) (snd w))))\<rparr>"

definition demo_task :: worker_task where
  "demo_task = \<lparr>tk_session = 7, tk_core_epoch = 3, tk_fixture = sample_spec\<rparr>"

definition demo_envelope :: framework_envelope where
  "demo_envelope =
     new_envelope demo_task (10123, 456, 30) (replicate 64 CHR ''a'') (replicate 32 CHR 0x11)
       (''01234567-89ab-cdef-0123-456789abcdef'' @ [CHR 0x0A]) 26000"

definition demo_ack :: "framework_envelope \<Rightarrow> framework_acknowledgement" where
  "demo_ack e =
     \<lparr>fa_version = 2, fa_session = fe_session e, fa_core_epoch = fe_core_epoch e, fa_nonce = fe_nonce e,
      fa_generation = fe_generation e, fa_phase = fe_phase e, fa_worker_uid = fe_worker_uid e, fa_worker_pid = fe_worker_pid e,
      fa_worker_start_ticks = fe_worker_start_ticks e,
      fa_sources = \<lparr>fs_vpn_handle = 151, fs_ordinary_handle = 152, fs_profile_sha256 = replicate 64 CHR ''d''\<rparr>,
      fa_fixture = fe_fixture e, fa_system_server_pid = 44, fa_system_server_start_ticks = 55,
      fa_hook_sha256 = fe_expected_hook_sha256 e, fa_networks_source = False, fa_capabilities_source = False,
      fa_properties_source = False, fa_networks_filtered = False, fa_capabilities_filtered = False, fa_properties_filtered = False,
      fa_legacy = \<lparr>ls_type_calls = 0, ls_enumeration_calls = 0, ls_type_started_boot_ns = 0, ls_enumeration_started_boot_ns = 0,
                   ls_type_source = False, ls_enumeration_source = False, ls_type_normalized = False,
                   ls_enumeration_normalized = False, ls_enumeration_count = None, ls_ordinary = None\<rparr>\<rparr>"

fun demo_phase :: "bytes \<Rightarrow> framework_phase" where
  "demo_phase (c # _) = (if c = CHR ''0'' then Prepared else if c = CHR ''1'' then Raw else if c = CHR ''2'' then Protected else Revoked)"
| "demo_phase [] = Prepared"

definition demo_json :: framework_json where
  "demo_json =
     \<lparr>js_envelope = (\<lambda>bs. Inr (for_phase demo_envelope (demo_phase bs))),
      js_ack = (\<lambda>bs. Inr (demo_ack (for_phase demo_envelope (demo_phase bs)))),
      js_encode = (\<lambda>e. Inr (dec_str (unat (fe_generation e))))\<rparr>"

definition demo_store :: framework_store where
  "demo_store = \<lparr>st_directory = 0, st_path = ''/data/system'', st_owner = 0, st_ack_owner = 1000\<rparr>"

lemma demo_os_sel [simp]:
  "os_random demo_os n = io_ok (replicate n CHR 0x11)"
  "os_read_text demo_os p n = io_ok (''01234567-89ab-cdef-0123-456789abcdef'' @ [CHR 0x0A])"
  "os_clock demo_os w = (Inr (int (fst w) div 1000000000, int (fst w) mod 1000000000), w)"
  "os_open_dir demo_os p = io_ok 0" "os_reopen demo_os = io_ok" "os_stat demo_os h w = (Inr (demo_meta h w), w)"
  "os_openat demo_os d name b w = (if map_of (snd w) (demo_handle name) = None then (Inl NotFound, w) else (Inr (demo_handle name), w))"
  "os_lstat_at demo_os d name w = (Inr (demo_meta (demo_handle name) w), w)"
  "os_take demo_os h n w = (Inr (take n (the (map_of (snd w) h))), w)"
  "os_stage demo_os d = io_ok 3" "os_write_all demo_os h bs w = (Inr (), (fst w, (h, bs) # snd w))"
  "os_chmod demo_os h m = io_ok ()" "os_chgrp demo_os h g = io_ok ()" "os_sync demo_os h = io_ok ()"
  "os_persist demo_os h d name w = (Inr (), (fst w, (demo_handle name, the (map_of (snd w) h)) # (2, the (map_of (snd w) h)) # snd w))"
  "os_remove_at demo_os d name w = (Inr (), (fst w, filter (\<lambda>(h, _). h \<noteq> demo_handle name) (snd w)))"
  by (simp_all add: demo_os_def)

lemma demo_json_sel [simp]:
  "js_envelope demo_json bs = Inr (for_phase demo_envelope (demo_phase bs))"
  "js_ack demo_json bs = Inr (demo_ack (for_phase demo_envelope (demo_phase bs)))"
  "js_encode demo_json e = Inr (dec_str (unat (fe_generation e)))"
  by (simp_all add: demo_json_def)

lemma demo_handle_files [simp]: "demo_handle ENVELOPE_FILE = 1" "demo_handle ACK_FILE = 2"
  by (simp_all add: demo_handle_def ENVELOPE_FILE_def ACK_FILE_def)

lemma demo_base_valid: "envelope_valid demo_envelope"
  by code_simp

lemma demo_valid [simp]: "envelope_valid (for_phase demo_envelope p)"
  using demo_base_valid by (simp add: envelope_valid_def for_phase_def)

lemma demo_matches [simp]: "ack_matches (demo_ack (for_phase demo_envelope p)) (for_phase demo_envelope q) \<longleftrightarrow> p = q"
proof -
  have "lower_digest (replicate 64 CHR ''d'')" by code_simp
  then show ?thesis
    using demo_valid [of q] by (auto simp: ack_matches_def demo_ack_def evidence_bounded_def for_phase_def FRAMEWORK_PROTOCOL_def none_or_def)
qed

lemmas io_run = io_then_def io_map_err_def io_ok_def io_guard_def io_lift_def

lemma demo_meta_sel [simp]:
  "fm_uid (demo_meta h w) = (if h = 2 then 1000 else 0)" "fm_nlink (demo_meta h w) = 1" "fm_mode (demo_meta h w) AND 18 = 0"
  "fm_regular (demo_meta h w) = (h \<noteq> 0)" "fm_dev (demo_meta h w) = 1"
  "map_of (snd w) h = Some bs \<Longrightarrow> length bs = 1 \<Longrightarrow> fm_len (demo_meta h w) = 1"
  by (simp_all add: demo_meta_def)

lemma demo_revalidate [simp]: "store_revalidate demo_os demo_store w = (Inr (), w)"
  by (simp add: store_revalidate_def demo_store_def io_run)

lemma demo_open:
  "open_beneath demo_os (st_directory demo_store) ENVELOPE_FILE w =
     (if map_of (snd w) 1 = None then (Inl NotFound, w) else (Inr 1, w))"
  "open_beneath demo_os (st_directory demo_store) ACK_FILE w =
     (if map_of (snd w) 2 = None then (Inl NotFound, w) else (Inr 2, w))"
  by (simp_all add: open_beneath_def ENVELOPE_FILE_def ACK_FILE_def demo_handle_def io_run)

declare demo_phase.simps [simp del]

lemma demo_read:
  assumes "map_of (snd w) h = Some bs" "length bs = 1" "demo_handle name = h"
  shows "read_opened demo_os demo_store decode name (if h = 2 then 1000 else 0) h w =
           (case decode bs of Inl e \<Rightarrow> (Inl (invalid e), w) | Inr v \<Rightarrow> (Inr (Some v), w))"
  using assms by (simp add: read_opened_def CHANNEL_MAX_BYTES_def io_run split: sum.splits)

lemma demo_store_read:
  "map_of (snd w) 1 = Some bs \<Longrightarrow> length bs = 1 \<Longrightarrow>
     store_read demo_os demo_store (js_envelope demo_json) ENVELOPE_FILE (st_owner demo_store) w =
       (Inr (Some (for_phase demo_envelope (demo_phase bs))), w)"
  "map_of (snd w) 2 = Some bs \<Longrightarrow> length bs = 1 \<Longrightarrow>
     store_read demo_os demo_store (js_ack demo_json) ACK_FILE (st_ack_owner demo_store) w =
       (Inr (Some (demo_ack (for_phase demo_envelope (demo_phase bs)))), w)"
  "map_of (snd w) 1 = None \<Longrightarrow>
     store_read demo_os demo_store (js_envelope demo_json) ENVELOPE_FILE (st_owner demo_store) w = (Inr None, w)"
  using demo_read [of w 1 bs ENVELOPE_FILE "js_envelope demo_json"] demo_read [of w 2 bs ACK_FILE "js_ack demo_json"]
  unfolding store_read_def
  by (simp_all add: io_then_def demo_open) (simp_all add: demo_store_def)

lemma demo_current [simp]:
  "map_of (snd w) 1 = Some bs \<Longrightarrow> length bs = 1 \<Longrightarrow>
     store_current demo_os demo_json demo_store w = (Inr (Some (for_phase demo_envelope (demo_phase bs))), w)"
  "map_of (snd w) 1 = None \<Longrightarrow> store_current demo_os demo_json demo_store w = (Inr None, w)"
  by (simp_all add: store_current_def io_run demo_store_read)

lemma demo_acknowledgement [simp]:
  "map_of (snd w) 2 = Some bs \<Longrightarrow> length bs = 1 \<Longrightarrow> demo_phase bs = p \<Longrightarrow>
     store_acknowledgement demo_os demo_json demo_store (for_phase demo_envelope p) w =
       (Inr (Some (demo_ack (for_phase demo_envelope p))), w)"
  by (auto simp: store_acknowledgement_def io_run demo_store_read)

lemma demo_boot_ms [simp]:
  "instant_now demo_os (2000000000, fs) = (Inr 2000000000, (2000000000, fs))"
  "boot_ms demo_os (2000000000, fs) = (Inr 2000, (2000000000, fs))"
  "deadline_from_now demo_os n (2000000000, fs) = (instant_after 2000000000 n, (2000000000, fs))"
  by (simp_all add: boot_ms_def deadline_from_now_def instant_now_def io_run from_timespec_def NANOS_def instant_millis_def)

definition demo_code :: "framework_phase \<Rightarrow> bytes" where
  "demo_code p = dec_str (unat (phase_generation p))"

lemma demo_code_simps [simp]: "demo_phase (demo_code p) = p" "length (demo_code p) = 1" "length (demo_code p) = Suc 0"
proof -
  have "demo_phase (demo_code Prepared) = Prepared \<and> length (demo_code Prepared) = 1" by code_simp
  moreover have "demo_phase (demo_code Raw) = Raw \<and> length (demo_code Raw) = 1" by code_simp
  moreover have "demo_phase (demo_code Protected) = Protected \<and> length (demo_code Protected) = 1" by code_simp
  moreover have "demo_phase (demo_code Revoked) = Revoked \<and> length (demo_code Revoked) = 1" by code_simp
  ultimately show "demo_phase (demo_code p) = p" "length (demo_code p) = 1" "length (demo_code p) = Suc 0" by (cases p; simp)+
qed

lemma for_phase_inj [simp]: "for_phase e p = for_phase e q \<longleftrightarrow> p = q"
proof
  assume "for_phase e p = for_phase e q"
  then have "fe_phase (for_phase e p) = fe_phase (for_phase e q)" by simp
  then show "p = q" by (simp add: for_phase_def)
qed simp

definition demo_holds :: "demo_world \<Rightarrow> framework_envelope option \<Rightarrow> bool" where
  "demo_holds w held \<longleftrightarrow>
     (case map_of (snd w) 1 of
        None \<Rightarrow> held = None
      | Some bs \<Rightarrow> length bs = 1 \<and> held = Some (for_phase demo_envelope (demo_phase bs)))"

lemma demo_holds_current: "demo_holds w held \<Longrightarrow> store_current demo_os demo_json demo_store w = (Inr held, w)"
  by (auto simp: demo_holds_def split: option.splits)

lemma demo_publish:
  assumes "demo_holds w held" "held \<noteq> Some (for_phase demo_envelope p)"
  shows "store_publish demo_os demo_json demo_store held (for_phase demo_envelope p) w =
           (Inr (), (fst w, (1, demo_code p) # (2, demo_code p) # (3, demo_code p) # snd w))"
proof -
  have g: "dec_str (unat (fe_generation (for_phase demo_envelope p))) = demo_code p" by (simp add: for_phase_def demo_code_def)
  have "demo_holds (fst w, (3, demo_code p) # snd w) held" using assms(1) by (simp add: demo_holds_def)
  note c = demo_holds_current [OF this] demo_holds_current [OF assms(1)]
  have f: "fill_staged demo_os demo_json demo_store held (demo_code p) 3 w =
          (Inr (), (fst w, (1, demo_code p) # (2, demo_code p) # (3, demo_code p) # snd w))"
    by (simp add: fill_staged_def io_run c) (simp add: demo_store_def)
  show ?thesis
    using assms(2) by (simp add: store_publish_def io_run c g f CHANNEL_MAX_BYTES_def)
qed

definition demo_at :: "framework_phase \<Rightarrow> demo_world" where
  "demo_at p = (2000000000, [(1, demo_code p), (2, demo_code p)])"

lemma demo_at_holds: "demo_holds (demo_at p) (Some (for_phase demo_envelope p))"
  by (simp add: demo_holds_def demo_at_def)

theorem publish_compares_and_swaps_witness:
  "\<exists>staged v1 v2 v3. store_current demo_os demo_json demo_store v1 = (Inr (Some (for_phase demo_envelope Prepared)), v2)
     \<and> os_persist demo_os staged (st_directory demo_store) ENVELOPE_FILE v2 = (Inr (), v3)"
proof -
  have p: "store_publish demo_os demo_json demo_store (Some (for_phase demo_envelope Prepared)) (for_phase demo_envelope Raw) (demo_at Prepared)
        = (Inr (), (fst (demo_at Prepared), (1, demo_code Raw) # (2, demo_code Raw) # (3, demo_code Raw) # snd (demo_at Prepared)))"
    by (rule demo_publish [OF demo_at_holds]) simp
  have "Some (for_phase demo_envelope Prepared) \<noteq> Some (for_phase demo_envelope Raw)" by simp
  with publish_compares_and_swaps [OF p] show ?thesis by blast
qed

definition demo_request :: "framework_worker_phase \<Rightarrow> framework_worker_request" where
  "demo_request phase =
     \<lparr>rq_session = 7, rq_core_epoch = 3, rq_hook_sha256 = replicate 64 CHR ''a'', rq_phase = phase,
      rq_previous = (if phase = FwPrepared then None else Some framework_unavailable)\<rparr>"

lemma demo_envelope_sel [simp]:
  "fe_session (for_phase demo_envelope p) = 7" "fe_core_epoch (for_phase demo_envelope p) = 3"
  "fe_expected_hook_sha256 (for_phase demo_envelope p) = replicate 64 CHR ''a''"
  "fe_expires_boot_ms (for_phase demo_envelope p) = 26000"
  by (simp_all add: for_phase_def demo_envelope_def new_envelope_def demo_task_def)

lemma demo_bounded: "framework_bounded framework_unavailable"
  by code_simp

definition demo_evidence :: "framework_phase \<Rightarrow> framework_phase_evidence" where
  "demo_evidence phase =
     \<lparr>fp_envelope = for_phase demo_envelope phase, fp_ack = demo_ack (for_phase demo_envelope phase), fp_obs = framework_unavailable\<rparr>"

definition demo_run :: "framework_phase \<Rightarrow> framework_phase list \<Rightarrow> framework_worker_phase \<Rightarrow> bool \<Rightarrow> framework_run" where
  "demo_run now seen asked finished =
     \<lparr>fn_envelope = for_phase demo_envelope now, fn_phases = map demo_evidence seen, fn_last = Some (demo_request asked),
      fn_finished = finished, fn_closed = False\<rparr>"

definition demo_new :: framework_run where
  "demo_new = \<lparr>fn_envelope = for_phase demo_envelope Prepared, fn_phases = [], fn_last = None, fn_finished = False, fn_closed = False\<rparr>"

definition demo_step :: "framework_worker_phase \<Rightarrow> framework_run \<Rightarrow> demo_world \<Rightarrow> framework_run option" where
  "demo_step phase run w =
     map_option (\<lambda>(r, run', w'). run') (step_with (Suc 0) demo_os demo_json demo_store (\<lambda>_ w. (True, w)) (demo_request phase) run w)"

lemma demo_run_sel [simp]:
  "fn_envelope (demo_run p seen r f) = for_phase demo_envelope p" "fn_phases (demo_run p seen r f) = map demo_evidence seen"
  "fn_last (demo_run p seen r f) = Some (demo_request r)" "fn_finished (demo_run p seen r f) = f" "\<not> fn_closed (demo_run p seen r f)"
  "(demo_run p seen r f)\<lparr>fn_last := Some (demo_request s)\<rparr> = demo_run p seen s f"
  by (simp_all add: demo_run_def)

lemma demo_request_sel [simp]:
  "rq_session (demo_request p) = 7" "rq_core_epoch (demo_request p) = 3" "rq_hook_sha256 (demo_request p) = replicate 64 CHR ''a''"
  "rq_phase (demo_request p) = p" "rq_previous (demo_request p) = (if p = FwPrepared then None else Some framework_unavailable)"
  by (simp_all add: demo_request_def)

lemma demo_same_ack: "seen = [] \<or> hd seen = Prepared \<Longrightarrow> ack_of_run (demo_run p seen r f) (demo_ack (for_phase demo_envelope q))"
  by (cases seen) (simp_all add: ack_of_run_def demo_run_def demo_evidence_def demo_ack_def)

lemma demo_wait:
  assumes "fn_envelope run = for_phase demo_envelope p" "ack_of_run run (demo_ack (for_phase demo_envelope p))"
    and "map_of fs 1 = Some (demo_code p)" "map_of fs 2 = Some (demo_code p)"
  shows "run_acknowledgement (Suc 0) demo_os demo_json demo_store (\<lambda>_ w. (True, w)) run (2000000000, fs) =
           Some (Inr (demo_ack (for_phase demo_envelope p)), (2000000000, fs))"
  using assms
  by (simp add: run_acknowledgement_def poll_once_def io_disabled_def io_run instant_after_def duration_checked_def NANOS_def)

lemma demo_created:
  "run_new demo_os demo_task (10123, 456, 30) (replicate 64 CHR ''a'') \<lparr>bd_start = 1000000000, bd_end = 26000000000\<rparr> (2000000000, [])
   = (Inr demo_new, (2000000000, []))"
proof -
  have "for_phase demo_envelope Prepared = demo_envelope"
    by (rule for_phase_id) (simp_all add: demo_envelope_def new_envelope_def)
  moreover have "envelope_valid demo_envelope" by (rule demo_base_valid)
  moreover have "expires_millis \<lparr>bd_start = 1000000000, bd_end = 26000000000\<rparr> = Inr 26000"
    by (simp add: expires_millis_def instant_millis_def)
  ultimately show ?thesis
    by (simp add: run_new_def io_disabled_def io_run deadline_expired_def deadline_remaining_def bounded_text_of_def demo_new_def
        demo_envelope_def)
qed

lemma demo_prepared: "demo_step FwPrepared demo_new (2000000000, []) = Some (demo_run Prepared [] FwPrepared False)"
  by (simp add: demo_step_def step_with_def io_disabled_def io_run step_open_def demo_request_def demo_new_def run_advance_def
      with_run_def advance_first_def reconcile_orphan_def demo_publish demo_holds_def reply_task_def demo_wait ack_of_run_def demo_run_def)

lemma demo_advance_next:
  assumes "authority_phase ph = Some q" "p \<noteq> q"
  shows "advance_next demo_os demo_json demo_store (demo_run p seen r False) ph (demo_evidence p) (demo_at p) =
           Some (Inr (), demo_run q (seen @ [p]) r False,
                 (2000000000, (1, demo_code q) # (2, demo_code q) # (3, demo_code q) # snd (demo_at p)))"
  using assms(2)
  by (simp add: advance_next_def assms(1) io_disabled_def io_map_err_def demo_publish [OF demo_at_holds])
     (simp add: demo_run_def demo_at_def)

lemma demo_wait_at:
  assumes "seen = [] \<or> hd seen = Prepared"
  shows "run_acknowledgement (Suc 0) demo_os demo_json demo_store (\<lambda>_ w. (True, w)) (demo_run p seen r f) (demo_at p)
      = Some (Inr (demo_ack (for_phase demo_envelope p)), demo_at p)"
    "run_acknowledgement (Suc 0) demo_os demo_json demo_store (\<lambda>_ w. (True, w)) (demo_run p seen r f)
       (2000000000, (1, demo_code p) # (2, demo_code p) # (3, demo_code p) # fs)
      = Some (Inr (demo_ack (for_phase demo_envelope p)), (2000000000, (1, demo_code p) # (2, demo_code p) # (3, demo_code p) # fs))"
  unfolding demo_at_def by (rule demo_wait; simp add: demo_same_ack [OF assms])+

lemma demo_advance:
  assumes "phase_ordinal ph = phase_generation p + 1" "authority_phase ph = Some q" "seen = [] \<or> hd seen = Prepared"
    "seen = [] \<Longrightarrow> p = Prepared" "r \<noteq> ph" "p \<noteq> q"
  shows "demo_step ph (demo_run p seen r False) (demo_at p) = Some (demo_run q (seen @ [p]) ph False)"
proof -
  let ?v = "\<lambda>_ w. (True, w)"
  let ?w = "(2000000000, (1, demo_code q) # (2, demo_code q) # (3, demo_code q) # snd (demo_at p))"
  have ph: "ph \<noteq> FwPrepared" "phase_ordinal ph \<noteq> 0" using assms(1) by (cases p; cases ph; auto)+
  have s: "seen @ [p] = [] \<or> hd (seen @ [p]) = Prepared" using assms(3,4) by (cases seen) auto
  have g: "fe_generation (for_phase demo_envelope p) = phase_generation p" by (simp add: for_phase_def)
  have adv: "run_advance (Suc 0) demo_os demo_json demo_store ?v (demo_request ph) (demo_run p seen r False) (demo_at p)
      = Some (Inr (), demo_run q (seen @ [p]) r False, ?w)"
    using ph demo_wait_at(1) [OF assms(3)] demo_advance_next [OF assms(2,6)]
    by (simp add: run_advance_def assms(1) g demo_evidence_def)
  have rep: "\<exists>t. reply_task (Suc 0) demo_os demo_json demo_store ?v (demo_request ph) (demo_run q (seen @ [p]) ph False) ?w
      = Some (Inr t, demo_run q (seen @ [p]) ph False, ?w)"
    using demo_wait_at(2) [OF s] by (simp add: reply_task_def)
  have "demo_request r \<noteq> demo_request ph" using assms(5) by (auto simp: demo_request_def)
  with adv rep ph show ?thesis
    by (auto simp: demo_step_def step_with_def io_disabled_def io_map_err_def step_open_def demo_bounded demo_at_def)
qed

lemma demo_revoke:
  "store_revoke demo_os demo_json demo_store (for_phase demo_envelope p) (demo_at p) = (Inr (), (2000000000, []))"
  by (simp add: store_revoke_def io_run demo_at_def)

lemma demo_finished:
  "demo_step FwFinished (demo_run Revoked [Prepared, Raw, Protected] FwRevoked False) (demo_at Revoked)
   = Some (demo_run Revoked [Prepared, Raw, Protected, Revoked] FwFinished True)"
proof -
  have g: "fe_generation (for_phase demo_envelope Revoked) = 3" by (simp add: for_phase_def)
  have n: "demo_request FwRevoked \<noteq> demo_request FwFinished" by (auto simp: demo_request_def)
  have "run_advance (Suc 0) demo_os demo_json demo_store (\<lambda>_ w. (True, w)) (demo_request FwFinished)
      (demo_run Revoked [Prepared, Raw, Protected] FwRevoked False) (demo_at Revoked)
      = Some (Inr (), demo_run Revoked [Prepared, Raw, Protected, Revoked] FwRevoked True, (2000000000, []))"
    using demo_wait_at(1) [of "[Prepared, Raw, Protected]" Revoked FwRevoked False]
    by (simp add: run_advance_def g advance_next_def io_disabled_def io_map_err_def demo_revoke) (simp add: demo_run_def demo_evidence_def)
  with n show ?thesis
    by (simp add: demo_step_def step_with_def io_disabled_def io_map_err_def step_open_def demo_bounded demo_at_def reply_task_def)
qed

lemma demo_stepped:
  "framework_history demo_os demo_json run \<Longrightarrow> demo_step phase run w = Some run' \<Longrightarrow> framework_history demo_os demo_json run'"
  by (auto simp: demo_step_def intro: framework_history.stepped)

theorem framework_evidence_chain_witness:
  "fw_chain (fn_phases (demo_run Revoked [Prepared, Raw, Protected, Revoked] FwFinished True))
   \<and> fn_finished (demo_run Revoked [Prepared, Raw, Protected, Revoked] FwFinished True)"
proof -
  have "framework_history demo_os demo_json (demo_run Prepared [] FwPrepared False)"
    by (rule demo_stepped [OF framework_history.created [OF demo_created] demo_prepared])
  from demo_stepped [OF this demo_advance [of FwRaw Prepared Raw]]
  have "framework_history demo_os demo_json (demo_run Raw [Prepared] FwRaw False)" by simp
  from demo_stepped [OF this demo_advance [of FwProtected Raw Protected]]
  have "framework_history demo_os demo_json (demo_run Protected [Prepared, Raw] FwProtected False)" by simp
  from demo_stepped [OF this demo_advance [of FwRevoked Protected Revoked]]
  have "framework_history demo_os demo_json (demo_run Revoked [Prepared, Raw, Protected] FwRevoked False)" by simp
  from demo_stepped [OF this demo_finished]
  have "framework_history demo_os demo_json (demo_run Revoked [Prepared, Raw, Protected, Revoked] FwFinished True)" .
  from framework_evidence_chain [OF this, of True] show ?thesis by simp
qed



lemma demo_instant: "instant_now demo_os w = (Inr t, w') \<Longrightarrow> t = fst w \<and> w' = w"
  by (auto simp: instant_now_def io_simps from_timespec_def NANOS_def split: if_splits)
     (simp_all add: nat_mod_distrib nat_div_distrib)

lemma demo_keeps:
  "keeps_clock fst (os_clock demo_os)" "keeps_clock fst (os_open_dir demo_os p)" "keeps_clock fst (os_openat demo_os h n d)"
  "keeps_clock fst (os_reopen demo_os h)" "keeps_clock fst (os_stat demo_os h)" "keeps_clock fst (os_lstat_at demo_os h n)"
  "keeps_clock fst (os_take demo_os h k)"
  by (simp_all add: keeps_clock_def io_ok_def)

lemma demo_boot_clock: "boot_clock fst demo_os"
  unfolding boot_clock_def by (auto dest: demo_instant intro: demo_keeps keeps_ok) (auto simp: demo_os_def)

theorem framework_step_ends_witness:
  "run_step 81 demo_os demo_json (demo_request FwPrepared) demo_new (2000000000, []) \<noteq> None"
  by (rule framework_step_ends [OF demo_boot_clock])

end
