(* ===== verification/Diag_Session.thy ===== *)
theory Diag_Session
  imports Diag_Authority
begin

text \<open>
  One diagnostic session and its worker (\<^verbatim>\<open>Active\<close> and the handlers of the worker's calls in
  \<^verbatim>\<open>crates/core-daemon/src/autonomous/coordinator.rs\<close> and \<^verbatim>\<open>coordinator/native_worker.rs\<close>).  Each handler runs under
  the lock of the coordinator; the step of a framework run, which holds a lock of its own instead, is one
  step here as well, with contention on that lock as an argument.
\<close>

section \<open>Who is calling\<close>

definition WORKER :: string where
  "WORKER = ''dev.okhsunrog.vpnhide:diagnostics''"

record peer_cred =
  pc_uid :: u32
  pc_gid :: u32
  pc_pid :: u32

record worker_identity =
  wi_process :: process_identity
  wi_uid :: u32
  wi_zygote :: process_identity
  wi_network_namespace :: "u64 \<times> u64"

definition io_wrong :: "('w, 'e, 'a) io \<Rightarrow> ('w, diagnostic_error, 'a) io" where
  "io_wrong m = io_map_err (\<lambda>_. WrongProcess) m"

definition io_require :: "('w \<Rightarrow> bool \<times> 'w) \<Rightarrow> 'e \<Rightarrow> ('w, 'e, unit) io" where
  "io_require t e w = (case t w of (True, w') \<Rightarrow> (Inr (), w') | (False, w') \<Rightarrow> (Inl e, w'))"

definition uid_is :: "'w os \<Rightarrow> string \<Rightarrow> u32 \<Rightarrow> 'w \<Rightarrow> bool \<times> 'w" where
  "uid_is os path uid = io_test (os_stat_path os path) (\<lambda>m. fm_uid m = uid)"

definition first_argument :: "string \<Rightarrow> string" where
  "first_argument cmdline = hd (split_on (\<lambda>c. c = CHR 0x00) cmdline)"

text \<open>\<^verbatim>\<open>parent_zygote\<close> of \<^verbatim>\<open>zygisk_loader.rs\<close>: the parent is a process of root named as a zygote.\<close>

definition stat_parent :: "string \<Rightarrow> io_error + u32" where
  "stat_parent stat =
     and_then (ok_or (rsplit_once_str '') '' stat) (invalid ''invalid child stat'')) (\<lambda>(_, rest).
       let ws = split_whitespace rest
       in and_then (ok_or (if 1 < length ws then Some (ws ! 1) else None) (invalid ''missing zygote parent''))
            (\<lambda>field. ok_or (parse_u32 field) (invalid ''invalid zygote parent'')))"

definition parent_zygote_owned :: "'w os \<Rightarrow> string \<Rightarrow> process_identity \<Rightarrow> u32 \<Rightarrow> ('w, io_error, process_identity) io" where
  "parent_zygote_owned os proc_root child owner =
     io_then (bounded_text_of os (path_join (path_join proc_root (dec_str (unat (pi_pid child)))) ''stat'') 8192) (\<lambda>stat.
     io_then (io_lift (stat_parent stat)) (\<lambda>parent.
     let path = path_join proc_root (dec_str (unat parent))
     in io_then (os_stat_path os path) (\<lambda>m.
        io_then (io_guard (fm_uid m \<noteq> owner) (invalid ''parent is not root zygote'')) (\<lambda>_.
        io_then (bounded_text_of os (path_join path ''cmdline'') 256) (\<lambda>cmdline.
        io_then (io_guard (first_argument cmdline \<notin> {''zygote'', ''zygote32'', ''zygote64''}) (invalid ''parent is not a zygote'')) (\<lambda>_.
          process_identity_of os proc_root parent))))))"

definition parent_zygote :: "'w os \<Rightarrow> string \<Rightarrow> process_identity \<Rightarrow> ('w, io_error, process_identity) io" where
  "parent_zygote os proc_root child = parent_zygote_owned os proc_root child 0"

definition namespace_identity :: "'w os \<Rightarrow> string \<Rightarrow> ('w, diagnostic_error, u64 \<times> u64) io" where
  "namespace_identity os path = io_then (io_wrong (os_stat_path os path)) (\<lambda>m. io_ok (fm_dev m, fm_ino m))"

definition shared_network_namespace :: "'w os \<Rightarrow> string \<Rightarrow> u32 \<Rightarrow> ('w, diagnostic_error, u64 \<times> u64) io" where
  "shared_network_namespace os root pid =
     io_then (namespace_identity os (path_join root ''self/ns/net'')) (\<lambda>ours.
     io_then (namespace_identity os (path_join (path_join root (dec_str (unat pid))) ''ns/net'')) (\<lambda>worker.
     io_then (io_guard (ours \<noteq> worker) WrongProcess) (\<lambda>_. io_ok ours)))"

definition worker_identity_of :: "'w os \<Rightarrow> string \<Rightarrow> string \<Rightarrow> peer_cred \<Rightarrow> ('w, diagnostic_error, worker_identity) io" where
  "worker_identity_of os root dir peer =
     io_then (io_guard (pc_uid peer < 10000) WrongProcess) (\<lambda>_.
     io_then (io_require (uid_is os dir (pc_uid peer)) WrongProcess) (\<lambda>_.
     let child = path_join root (dec_str (unat (pc_pid peer)))
     in io_then (io_require (uid_is os child (pc_uid peer)) WrongProcess) (\<lambda>_.
        io_then (io_require (io_test (bounded_text_of os (path_join child ''cmdline'') 512) (\<lambda>v. first_argument v = WORKER)) WrongProcess) (\<lambda>_.
        io_then (io_wrong (process_identity_of os root (pc_pid peer))) (\<lambda>process.
        io_then (io_wrong (parent_zygote os root process)) (\<lambda>zygote.
        io_then (shared_network_namespace os root (pc_pid peer)) (\<lambda>ns.
          io_ok \<lparr>wi_process = process, wi_uid = pc_uid peer, wi_zygote = zygote, wi_network_namespace = ns\<rparr>)))))))"

fun same_namespaces :: "'w os \<Rightarrow> string \<Rightarrow> string \<Rightarrow> string \<Rightarrow> string list \<Rightarrow> ('w, diagnostic_error, unit) io" where
  "same_namespaces os root process thread [] = io_ok ()"
| "same_namespaces os root process thread (n # ns) =
     io_then (namespace_identity os (path_join (path_join root ''self/ns'') n)) (\<lambda>own.
     io_then (namespace_identity os (path_join (path_join thread ''ns'') n)) (\<lambda>current.
     io_then (namespace_identity os (path_join (path_join process ''ns'') n)) (\<lambda>leader.
     io_then (io_guard (own \<noteq> current \<or> own \<noteq> leader) WrongProcess) (\<lambda>_.
       same_namespaces os root process thread ns))))"

definition thread_identity_of :: "'w os \<Rightarrow> string \<Rightarrow> worker_identity \<Rightarrow> u32 \<Rightarrow> ('w, diagnostic_error, thread_identity) io" where
  "thread_identity_of os root worker tid =
     (let process = path_join root (dec_str (unat (pi_pid (wi_process worker))));
          threads = path_join process ''task'';
          thread = path_join threads (dec_str (unat tid))
      in io_then (io_guard (tid = 0 \<or> I32_MAX < tid) WrongProcess) (\<lambda>_.
         io_then (io_require (uid_is os thread (wi_uid worker)) WrongProcess) (\<lambda>_.
         io_then (io_wrong (process_identity_of os threads tid)) (\<lambda>birth.
         io_then (io_guard (pi_start_ticks birth < pi_start_ticks (wi_process worker) \<or> pi_start_ticks birth = 0) WrongProcess) (\<lambda>_.
         io_then (same_namespaces os root process thread [''pid'', ''user'', ''net'']) (\<lambda>_.
         io_then (io_wrong (process_identity_of os root (pi_pid (wi_process worker)))) (\<lambda>again.
         io_then (io_guard (again \<noteq> wi_process worker) WrongProcess) (\<lambda>_.
           io_ok \<lparr>ti_uid = wi_uid worker, ti_pid = pi_pid (wi_process worker),
                  ti_process_start_ticks = pi_start_ticks (wi_process worker), ti_tid = tid,
                  ti_thread_start_ticks = pi_start_ticks birth\<rparr>))))))))"


section \<open>State\<close>

record active =
  av_session :: u64
  av_deadline :: boot_deadline
  av_task :: "worker_task option"
  av_worker :: "worker_identity option"
  av_report :: "native_measurement option"
  av_native :: "native_exchange option"
  av_finished :: bool
  av_minimum_birth_ticks :: "u64 option"
  av_framework :: "framework_run option"

record inner =
  in_app_dir :: "string option"
  in_next :: u64
  in_active :: "active option"
  in_last :: "diagnostic_run option"
  in_cancelled :: bool
  in_last_completed :: "diagnostic_run option"
  in_attempts :: "8 word"
  in_retry_at :: "boot_deadline option"
  in_pending_cleanup :: "native_fixture_spec option"
  in_unidentified_cleanup :: bool
  in_pending_framework :: "framework_run option"

record native_worker_request =
  nr_session :: u64
  nr_core_epoch :: u64
  nr_tid :: u32
  nr_phase :: native_worker_phase

record worker_report =
  wr_session :: u64
  wr_core_epoch :: u64
  wr_native :: native_measurement

definition active_claim :: "active \<Rightarrow> worker_identity \<Rightarrow> instant \<Rightarrow> (diagnostic_error + worker_task option) \<times> active" where
  "active_claim a identity now =
     (if deadline_expired (av_deadline a) now then (Inl Expired, a)
      else if some_and (\<lambda>ticks. pi_start_ticks (wi_process identity) < ticks) (av_minimum_birth_ticks a) then (Inl WrongProcess, a)
      else if some_and (\<lambda>previous. previous \<noteq> identity) (av_worker a) then (Inl WrongProcess, a)
      else (Inr (av_task a), if av_task a \<noteq> None then a\<lparr>av_worker := Some identity\<rparr> else a))"

definition active_ready :: "active \<Rightarrow> bool" where
  "active_ready a = some_and protected_ready (av_native a)"

definition active_accept :: "active \<Rightarrow> worker_identity \<Rightarrow> u64 \<Rightarrow> worker_report \<Rightarrow> instant \<Rightarrow> (diagnostic_error + unit) \<times> active" where
  "active_accept a identity epoch report now =
     (if deadline_expired (av_deadline a) now then (Inl Expired, a)
      else if av_session a \<noteq> wr_session report \<or> epoch \<noteq> wr_core_epoch report then (Inl StaleSession, a)
      else if av_worker a \<noteq> Some identity then (Inl WrongProcess, a)
      else if av_report a \<noteq> None then (Inl StaleSession, a)
      else if \<not> active_ready a then (Inl StaleSession, a)
      else if \<not> nm_bounded (wr_native report) then (Inl MalformedRequest, a)
      else (Inr (), a\<lparr>av_report := Some (wr_native report)\<rparr>))"

text \<open>What \<^verbatim>\<open>Active::finish\<close> checks before it authenticates the thread: the identity to authenticate.\<close>

definition active_finishing :: "active \<Rightarrow> worker_identity \<Rightarrow> u64 \<Rightarrow> u64 \<Rightarrow> instant \<Rightarrow> diagnostic_error + thread_identity" where
  "active_finishing a worker session epoch now =
     (if deadline_expired (av_deadline a) now then Inl Expired
      else if av_worker a \<noteq> Some worker then Inl WrongProcess
      else
        (case av_task a of
           None \<Rightarrow> Inl StaleSession
         | Some task \<Rightarrow>
             if tk_session task \<noteq> session \<or> tk_core_epoch task \<noteq> epoch \<or> av_finished a \<or> av_report a = None then Inl StaleSession
             else
               (case av_native a of
                  Some x \<Rightarrow> if protected_ready x then Inr (nx_identity x) else Inl StaleSession
                | None \<Rightarrow> Inl StaleSession)))"


section \<open>Handlers\<close>

text \<open>A handler leaves its result, the state and the world.\<close>

type_synonym ('w, 'a) handled = "(diagnostic_error + 'a) \<times> inner \<times> 'w"

definition handled_then :: "inner \<Rightarrow> (diagnostic_error + 'b) \<times> 'w \<Rightarrow> ('b \<Rightarrow> 'w \<Rightarrow> ('w, 'a) handled) \<Rightarrow> ('w, 'a) handled" where
  "handled_then inner rw k = (case rw of (Inl e, w) \<Rightarrow> (Inl e, inner, w) | (Inr x, w) \<Rightarrow> k x w)"

definition admit_worker :: "'w os \<Rightarrow> inner \<Rightarrow> peer_cred \<Rightarrow> ('w, diagnostic_error, worker_identity) io" where
  "admit_worker os inner peer =
     (case in_app_dir inner of None \<Rightarrow> io_err Disabled | Some dir \<Rightarrow> worker_identity_of os ''/proc'' dir peer)"

definition now_or_expired :: "'w os \<Rightarrow> ('w, diagnostic_error, instant) io" where
  "now_or_expired os = io_map_err (\<lambda>_. Expired) (instant_now os)"

definition session_join :: "'w os \<Rightarrow> peer_cred \<Rightarrow> inner \<Rightarrow> 'w \<Rightarrow> ('w, worker_task option) handled" where
  "session_join os peer inner w =
     handled_then inner (admit_worker os inner peer w) (\<lambda>identity w.
       if in_cancelled inner then (Inl Expired, inner, w)
       else
         (case in_active inner of
            None \<Rightarrow> (Inr None, inner, w)
          | Some a \<Rightarrow>
              handled_then inner (now_or_expired os w) (\<lambda>now w.
                case active_claim a identity now of (r, a') \<Rightarrow> (r, inner\<lparr>in_active := Some a'\<rparr>, w))))"

definition native_prepared :: "'w raw_node \<Rightarrow> u32 option \<Rightarrow> thread_identity \<Rightarrow> active \<Rightarrow> inner \<Rightarrow> 'w \<Rightarrow>
    ('w, native_worker_instruction) handled" where
  "native_prepared node backend identity a inner w =
     (if av_native a \<noteq> None then (Inl StaleSession, inner, w)
      else
        (let reserved = inner\<lparr>in_active := Some (a\<lparr>av_native := Some (exchange_failed identity Arm)\<rparr>)\<rparr>
         in handled_then reserved (exchange_begin node identity backend w) (\<lambda>(x, instruction) w.
              (Inr instruction, inner\<lparr>in_active := Some (a\<lparr>av_native := Some x\<rparr>)\<rparr>, w))))"

definition native_continue :: "'w raw_node \<Rightarrow> thread_identity \<Rightarrow> native_worker_phase \<Rightarrow> active \<Rightarrow> inner \<Rightarrow> 'w \<Rightarrow>
    ('w, native_worker_instruction) handled" where
  "native_continue node identity phase a inner w =
     (case av_native a of
        None \<Rightarrow> (Inl StaleSession, inner, w)
      | Some x \<Rightarrow>
          (case exchange_step node identity phase x w of
             (r, x', w') \<Rightarrow> (r, inner\<lparr>in_active := Some (a\<lparr>av_native := Some x'\<rparr>)\<rparr>, w')))"

definition native_step :: "'w os \<Rightarrow> 'w raw_node \<Rightarrow> peer_cred \<Rightarrow> u32 option \<Rightarrow> native_worker_request \<Rightarrow> inner \<Rightarrow> 'w \<Rightarrow>
    ('w, native_worker_instruction) handled" where
  "native_step os node peer backend request inner w =
     handled_then inner (admit_worker os inner peer w) (\<lambda>worker w.
       if in_cancelled inner then (Inl Expired, inner, w)
       else
         (case in_active inner of
            None \<Rightarrow> (Inl StaleSession, inner, w)
          | Some a \<Rightarrow>
              (case av_task a of
                 None \<Rightarrow> (Inl StaleSession, inner, w)
               | Some task \<Rightarrow>
                   handled_then inner (now_or_expired os w) (\<lambda>now w.
                     if deadline_expired (av_deadline a) now then (Inl Expired, inner, w)
                     else if av_worker a \<noteq> Some worker then (Inl WrongProcess, inner, w)
                     else if tk_session task \<noteq> nr_session request \<or> tk_core_epoch task \<noteq> nr_core_epoch request \<or> av_report a \<noteq> None
                     then (Inl StaleSession, inner, w)
                     else
                       handled_then inner (thread_identity_of os ''/proc'' worker (nr_tid request) w) (\<lambda>identity w.
                         if nr_phase request = WpPrepared then native_prepared node backend identity a inner w
                         else native_continue node identity (nr_phase request) a inner w)))))"

definition session_report :: "'w os \<Rightarrow> peer_cred \<Rightarrow> worker_report \<Rightarrow> inner \<Rightarrow> 'w \<Rightarrow> ('w, unit) handled" where
  "session_report os peer report inner w =
     handled_then inner (admit_worker os inner peer w) (\<lambda>identity w.
       case in_last inner of
         None \<Rightarrow> (Inl StaleSession, inner, w)
       | Some latest \<Rightarrow>
           (case in_active inner of
              None \<Rightarrow> (Inl StaleSession, inner, w)
            | Some a \<Rightarrow>
                (case av_native a of
                   None \<Rightarrow> (Inl StaleSession, inner, w)
                 | Some x \<Rightarrow>
                     if \<not> protected_ready x then (Inl StaleSession, inner, w)
                     else
                       handled_then inner (thread_identity_of os ''/proc'' identity (ti_tid (nx_identity x)) w) (\<lambda>thread w.
                         if thread \<noteq> nx_identity x then (Inl WrongProcess, inner, w)
                         else
                           handled_then inner (now_or_expired os w) (\<lambda>now w.
                             case active_accept a identity (df_core_epoch (dr_fingerprint latest)) report now of
                               (r, a') \<Rightarrow> (r, inner\<lparr>in_active := Some a'\<rparr>, w))))))"

definition finish_worker :: "'w os \<Rightarrow> peer_cred \<Rightarrow> u64 \<Rightarrow> u64 \<Rightarrow> inner \<Rightarrow> 'w \<Rightarrow> ('w, unit) handled" where
  "finish_worker os peer session epoch inner w =
     handled_then inner (admit_worker os inner peer w) (\<lambda>worker w.
       if in_cancelled inner then (Inl Expired, inner, w)
       else
         (case in_active inner of
            None \<Rightarrow> (Inl StaleSession, inner, w)
          | Some a \<Rightarrow>
              handled_then inner (now_or_expired os w) (\<lambda>now w.
              handled_then inner (active_finishing a worker session epoch now, w) (\<lambda>expected w.
              handled_then inner (thread_identity_of os ''/proc'' worker (ti_tid expected) w) (\<lambda>current w.
                if current \<noteq> expected then (Inl WrongProcess, inner, w)
                else (Inr (), inner\<lparr>in_active := Some (a\<lparr>av_finished := True\<rparr>)\<rparr>, w))))))"

text \<open>The run a framework request belongs to, created by the first one.\<close>

definition framework_admit :: "'w os \<Rightarrow> peer_cred \<Rightarrow> framework_worker_request \<Rightarrow> inner \<Rightarrow> 'w \<Rightarrow>
    ('w, active \<times> framework_run) handled" where
  "framework_admit os peer request inner w =
     handled_then inner (admit_worker os inner peer w) (\<lambda>identity w.
       if in_cancelled inner then (Inl Expired, inner, w)
       else
         (case in_active inner of
            None \<Rightarrow> (Inl StaleSession, inner, w)
          | Some a \<Rightarrow>
              (case av_task a of
                 None \<Rightarrow> (Inl StaleSession, inner, w)
               | Some task \<Rightarrow>
                   handled_then inner (now_or_expired os w) (\<lambda>now w.
                     if deadline_expired (av_deadline a) now then (Inl Expired, inner, w)
                     else if av_worker a \<noteq> Some identity then (Inl WrongProcess, inner, w)
                     else if tk_session task \<noteq> rq_session request \<or> tk_core_epoch task \<noteq> rq_core_epoch request
                             \<or> av_finished a \<or> av_report a = None
                     then (Inl StaleSession, inner, w)
                     else
                       (case av_framework a of
                          Some run \<Rightarrow> (Inr (a, run), inner, w)
                        | None \<Rightarrow>
                            if rq_phase request \<noteq> FwPrepared then (Inl StaleSession, inner, w)
                            else
                              handled_then inner
                                (run_new os task (wi_uid identity, pi_pid (wi_process identity), pi_start_ticks (wi_process identity))
                                   (rq_hook_sha256 request) (av_deadline a) w) (\<lambda>run w.
                                let a' = a\<lparr>av_framework := Some run\<rparr> in (Inr (a', run), inner\<lparr>in_active := Some a'\<rparr>, w)))))))"

definition framework_step :: "nat \<Rightarrow> 'w os \<Rightarrow> framework_json \<Rightarrow> bool \<Rightarrow> peer_cred \<Rightarrow> framework_worker_request \<Rightarrow> inner \<Rightarrow> 'w \<Rightarrow>
    ('w, framework_worker_task option) handled option" where
  "framework_step fuel os js contended peer request inner w =
     (case framework_admit os peer request inner w of
        (Inl e, inner', w') \<Rightarrow> Some (Inl e, inner', w')
      | (Inr (a, run), inner', w') \<Rightarrow>
          if contended then Some (Inl Busy, inner', w')
          else map_option (\<lambda>(r, run', w''). (r, inner'\<lparr>in_active := Some (a\<lparr>av_framework := Some run'\<rparr>)\<rparr>, w''))
                 (run_step fuel os js request run w'))"

text \<open>
  The dispatch of the worker in \<^verbatim>\<open>Coordinator::measure\<close>: the task becomes claimable, and only by a process
  born in a later clock tick than any that ran before.
\<close>

definition dispatch_worker :: "u64 \<Rightarrow> u64 \<Rightarrow> native_fixture_spec \<Rightarrow> u64 \<Rightarrow> instant \<Rightarrow> inner \<Rightarrow> string + inner" where
  "dispatch_worker session epoch spec birth now inner =
     (if in_cancelled inner then Inl ''diagnostic run cancelled''
      else
        (case in_active inner of
           None \<Rightarrow> Inl ''diagnostic session expired''
         | Some a \<Rightarrow>
             if av_session a \<noteq> session then Inl ''diagnostic session expired''
             else if deadline_expired (av_deadline a) now
             then Inl ''Android diagnostic worker deadline exceeded before dispatch''
             else Inr (inner\<lparr>in_active := Some (a\<lparr>av_minimum_birth_ticks := Some birth,
                     av_task := Some \<lparr>tk_session = session, tk_core_epoch = epoch, tk_fixture = spec\<rparr>\<rparr>)\<rparr>)))"

definition session_cancel :: "inner \<Rightarrow> inner" where
  "session_cancel inner = inner\<lparr>in_cancelled := True\<rparr>"


section \<open>What a session keeps\<close>

text \<open>The thread belongs to the worker's process, as it was when both were observed.\<close>

definition of_worker :: "worker_identity \<Rightarrow> thread_identity \<Rightarrow> bool" where
  "of_worker worker t \<longleftrightarrow>
     ti_uid t = wi_uid worker \<and> ti_pid t = pi_pid (wi_process worker)
     \<and> ti_process_start_ticks t = pi_start_ticks (wi_process worker) \<and> ti_process_start_ticks t \<le> ti_thread_start_ticks t
     \<and> 0 < ti_tid t \<and> 0 < ti_thread_start_ticks t"

definition native_ok :: "native_exchange \<Rightarrow> bool" where
  "native_ok x \<longleftrightarrow> (\<exists>is. exchange_inv is x) \<or> x = exchange_failed (nx_identity x) Arm"

definition active_inv :: "active \<Rightarrow> bool" where
  "active_inv a \<longleftrightarrow>
     (\<forall>task. av_task a = Some task \<longrightarrow> tk_session task = av_session a \<and> av_minimum_birth_ticks a \<noteq> None)
     \<and> (\<forall>worker. av_worker a = Some worker \<longrightarrow> av_task a \<noteq> None
          \<and> (\<forall>birth. av_minimum_birth_ticks a = Some birth \<longrightarrow> birth \<le> pi_start_ticks (wi_process worker)))
     \<and> (\<forall>x. av_native a = Some x \<longrightarrow> native_ok x \<and> (\<exists>worker. av_worker a = Some worker \<and> of_worker worker (nx_identity x)))
     \<and> (\<forall>m. av_report a = Some m \<longrightarrow> nm_bounded m \<and> active_ready a)
     \<and> (av_finished a \<longrightarrow> av_report a \<noteq> None)"

definition inner_inv :: "inner \<Rightarrow> bool" where
  "inner_inv inner \<longleftrightarrow> (\<forall>a. in_active inner = Some a \<longrightarrow> active_inv a)"

lemma handled_then_cases:
  assumes "handled_then inner rw k = (r, inner', w')"
  obtains (stop) e where "inner' = inner" "r = Inl e" | (go) x w where "rw = (Inr x, w)" "k x w = (r, inner', w')"
  using assms by (cases rw; cases "fst rw") (auto simp: handled_then_def)

lemma io_require_Inr: "io_require t e w = (Inr u, w') \<longleftrightarrow> t w = (True, w')"
  by (auto simp: io_require_def split: prod.splits bool.splits)

lemma thread_identity_worker:
  assumes "thread_identity_of os root worker tid w = (Inr t, w')"
  shows "of_worker worker t"
  using assms by (auto simp: thread_identity_of_def io_simps Let_def of_worker_def not_less word_gt_0)

lemma claim_inv:
  assumes "active_inv a" "active_claim a identity now = (r, a')"
  shows "active_inv a'"
proof -
  have "a' = a \<or> a' = a\<lparr>av_worker := Some identity\<rparr> \<and> av_task a \<noteq> None
      \<and> \<not> some_and (\<lambda>ticks. pi_start_ticks (wi_process identity) < ticks) (av_minimum_birth_ticks a)
      \<and> (av_worker a = None \<or> av_worker a = Some identity)"
    using assms(2) by (cases "av_worker a") (auto simp: active_claim_def split: if_splits)
  with assms(1) show ?thesis
    by (auto simp: active_inv_def active_ready_def not_less)
qed

lemma accept_inv:
  assumes "active_inv a" "active_accept a identity epoch report now = (r, a')"
  shows "active_inv a'"
  using assms by (auto simp: active_accept_def active_inv_def active_ready_def split: if_splits)

lemma native_ok_step:
  assumes "native_ok x" "exchange_step node identity phase x w = (r, x', w')"
  shows "native_ok x' \<and> nx_identity x' = nx_identity x"
proof -
  have "nx_identity x' = nx_identity x"
    using assms(2) by (cases "nx_phase x"; cases phase)
      (auto simp: exchange_step_def Let_def split: if_splits option.splits prod.splits sum.splits)
  moreover have "x' = x" if "x = exchange_failed (nx_identity x) Arm"
  proof -
    from that have "nx_phase x = ExFailed" by (metis exchange_failed_def native_exchange.select_convs(2))
    with assms(2) show ?thesis by (auto simp: exchange_step_def split: if_splits)
  qed
  ultimately show ?thesis using assms step_inv unfolding native_ok_def by metis
qed

lemma begin_identity:
  "exchange_begin node identity backend w = (Inr (x, i), w') \<Longrightarrow> nx_identity x = identity"
  by (auto simp: exchange_begin_def io_simps Let_def exchange_unsupported_def exchange_armed_def
      split: option.splits if_splits prod.splits sum.splits io_error.splits)

lemma inner_invI: "active_inv a \<Longrightarrow> inner_inv (inner\<lparr>in_active := Some a\<rparr>)"
  by (simp add: inner_inv_def)

lemma join_inv:
  assumes "inner_inv inner" "session_join os peer inner w = (r, inner', w')"
  shows "inner_inv inner'"
  using assms unfolding session_join_def
  by (auto elim!: handled_then_cases intro!: inner_invI simp: inner_inv_def split: if_splits option.splits prod.splits)
     (erule (1) claim_inv)

lemma active_native_inv:
  assumes "active_inv a" "native_ok x" "av_worker a = Some worker" "of_worker worker (nx_identity x)" "av_report a = None"
  shows "active_inv (a\<lparr>av_native := Some x\<rparr>)"
  using assms by (auto simp: active_inv_def)

lemma native_prepared_inv:
  assumes "inner_inv inner" "in_active inner = Some a" "av_worker a = Some worker" "of_worker worker identity" "av_report a = None"
    and "native_prepared node backend identity a inner w = (r, inner', w')"
  shows "inner_inv inner'"
proof -
  have a: "active_inv a" using assms(1,2) by (simp add: inner_inv_def)
  have f: "native_ok (exchange_failed identity Arm)" "nx_identity (exchange_failed identity Arm) = identity"
    by (simp_all add: native_ok_def exchange_failed_def)
  from assms(6) consider "inner' = inner" | "inner' = inner\<lparr>in_active := Some (a\<lparr>av_native := Some (exchange_failed identity Arm)\<rparr>)\<rparr>"
    | x i v where "exchange_begin node identity backend w = (Inr (x, i), v)" "inner' = inner\<lparr>in_active := Some (a\<lparr>av_native := Some x\<rparr>)\<rparr>"
    unfolding native_prepared_def Let_def by (auto elim!: handled_then_cases split: if_splits)
  then show ?thesis
  proof cases
    case 2
    with a f assms(3-5) show ?thesis by (auto intro!: inner_invI active_native_inv)
  next
    case 3
    then have "native_ok x" "nx_identity x = identity" by (auto simp: native_ok_def dest: begin_inv begin_identity)
    with 3 a assms(3-5) show ?thesis by (auto intro!: inner_invI active_native_inv)
  qed (use assms(1) in simp)
qed

lemma native_continue_inv:
  assumes "inner_inv inner" "in_active inner = Some a" "av_report a = None"
    and "native_continue node identity phase a inner w = (r, inner', w')"
  shows "inner_inv inner'"
proof (cases "av_native a")
  case None
  with assms show ?thesis by (simp add: native_continue_def)
next
  case (Some x)
  have a: "active_inv a" using assms(1,2) by (simp add: inner_inv_def)
  from assms(4) Some obtain x' where s: "exchange_step node identity phase x w = (r, x', w')"
      "inner' = inner\<lparr>in_active := Some (a\<lparr>av_native := Some x'\<rparr>)\<rparr>"
    by (auto simp: native_continue_def split: prod.splits)
  from a Some obtain worker where "native_ok x" "av_worker a = Some worker" "of_worker worker (nx_identity x)"
    by (auto simp: active_inv_def)
  with native_ok_step [OF _ s(1)] a s(2) assms(3) show ?thesis by (auto intro!: inner_invI active_native_inv)
qed

lemma native_step_inv:
  assumes "inner_inv inner" "native_step os node peer backend request inner w = (r, inner', w')"
  shows "inner_inv inner'"
  using assms unfolding native_step_def
  by (auto elim!: handled_then_cases dest!: thread_identity_worker split: if_splits option.splits prod.splits)
     (erule (5) native_prepared_inv, erule (3) native_continue_inv)

lemma report_inv:
  assumes "inner_inv inner" "session_report os peer report inner w = (r, inner', w')"
  shows "inner_inv inner'"
  using assms unfolding session_report_def
  by (auto elim!: handled_then_cases intro!: inner_invI simp: inner_inv_def split: if_splits option.splits prod.splits)
     (erule (1) accept_inv)

lemma finish_inv:
  assumes "inner_inv inner" "finish_worker os peer session epoch inner w = (r, inner', w')"
  shows "inner_inv inner'"
proof -
  have "active_finishing a worker session epoch now = Inr t \<Longrightarrow> active_inv a \<Longrightarrow> active_inv (a\<lparr>av_finished := True\<rparr>)" for a worker now t
    by (auto simp: active_finishing_def active_inv_def active_ready_def split: if_splits option.splits)
  with assms show ?thesis unfolding finish_worker_def
    by (auto elim!: handled_then_cases intro!: inner_invI simp: inner_inv_def split: if_splits option.splits prod.splits)
qed

lemma active_framework_inv [simp]: "active_inv (a\<lparr>av_framework := f\<rparr>) = active_inv a"
  by (simp add: active_inv_def active_ready_def)

lemma framework_admit_inv:
  assumes "inner_inv inner" "framework_admit os peer request inner w = (r, inner', w')"
  shows "inner_inv inner' \<and> (\<forall>a run. r = Inr (a, run) \<longrightarrow> active_inv a)"
  using assms unfolding framework_admit_def
  by (auto elim!: handled_then_cases simp: inner_inv_def Let_def split: if_splits option.splits prod.splits)

lemma framework_step_inv:
  assumes "inner_inv inner" "framework_step fuel os js contended peer request inner w = Some (r, inner', w')"
  shows "inner_inv inner'"
proof -
  obtain r1 i1 w1 where a: "framework_admit os peer request inner w = (r1, i1, w1)" by (cases "framework_admit os peer request inner w") auto
  note i = framework_admit_inv [OF assms(1) a]
  show ?thesis
  proof (cases r1)
    case (Inl e)
    with assms(2) a i show ?thesis by (simp add: framework_step_def)
  next
    case (Inr p)
    with assms(2) a i show ?thesis
      by (cases p) (auto simp: framework_step_def intro!: inner_invI split: if_splits)
  qed
qed

lemma dispatch_inv:
  assumes "inner_inv inner" "in_active inner = Some a" "av_task a = None" "dispatch_worker session epoch spec birth now inner = Inr inner'"
  shows "inner_inv inner'"
proof -
  have a: "active_inv a" using assms(1,2) by (simp add: inner_inv_def)
  with assms(3) have "av_worker a = None" by (auto simp: active_inv_def)
  with a assms show ?thesis
    by (auto simp: dispatch_worker_def active_inv_def active_ready_def intro!: inner_invI split: if_splits)
qed

end
