(* ===== verification/Diag_Coordinator.thy ===== *)
theory Diag_Coordinator
  imports Migration_Policy Diag_Session
begin

text \<open>
  Which runs there are (\<^verbatim>\<open>Coordinator::request\<close>, \<^verbatim>\<open>execute\<close>, \<^verbatim>\<open>reconcile_cleanup\<close> and \<^verbatim>\<open>monitor\<close> of
  \<^verbatim>\<open>crates/core-daemon/src/autonomous/coordinator.rs\<close>).  The measurement itself (the TUN fixture and the launch of the
  worker) is an argument of the completion; the fingerprint of the conditions is an argument of the
  request, as are the readings of the published snapshot.
\<close>

section \<open>Request\<close>

definition DEADLINE_NANOS :: nat where
  "DEADLINE_NANOS = 20000000000"

definition SELF_PACKAGE :: string where
  "SELF_PACKAGE = ''dev.okhsunrog.vpnhide''"

text \<open>What a request reads of the published snapshot.\<close>

record 'b published =
  pb_startup_error :: "string option"
  pb_storage_fault :: "string option"
  pb_mutation_held :: bool
  pb_operations_in_flight :: "string list"
  pb_config :: "canonical_config option"
  pb_applied :: "'b option"
  pb_selected :: "'b option"

definition not_ready :: "'b published \<Rightarrow> bool" where
  "not_ready s =
     (pb_startup_error s \<noteq> None \<or> pb_storage_fault s \<noteq> None \<or> pb_mutation_held s \<or> pb_operations_in_flight s \<noteq> []
      \<or> pb_config s = None \<or> some_and (\<lambda>c. with_self_target c SELF_PACKAGE \<noteq> c) (pb_config s)
      \<or> pb_applied s = None \<or> pb_applied s \<noteq> pb_selected s)"

definition plan_of :: "'b published \<Rightarrow> diagnostic_plan" where
  "plan_of s =
     (let config = (case pb_config s of Some c \<Rightarrow> c | None \<Rightarrow> default_canonical)
      in supported (''filesystem_iface_paths'' \<in> set (st_optional_features (cc_settings config)))
           (list_ex (\<lambda>(_, a). ac_app_hiding a) (cc_apps config)) (list_ex (\<lambda>(_, a). ac_ports a) (cc_apps config)))"

definition reconcile_framework :: "'w os \<Rightarrow> framework_json \<Rightarrow> bool \<Rightarrow> inner \<Rightarrow> 'w \<Rightarrow> ('w, unit) handled" where
  "reconcile_framework os js contended inner w =
     (case in_pending_framework inner of
        None \<Rightarrow> (Inr (), inner, w)
      | Some run \<Rightarrow>
          if contended then (Inl Busy, inner, w)
          else
            (case run_cleanup os js run w of
               ((_, clean), run', w') \<Rightarrow>
                 if \<not> clean then (Inl Busy, inner\<lparr>in_pending_framework := Some run'\<rparr>, w')
                 else (Inr (), inner\<lparr>in_pending_framework := None\<rparr>, w')))"

definition reconcile_fixture :: "(string \<Rightarrow> 'w \<Rightarrow> native_measurement \<times> 'w) \<Rightarrow> inner \<Rightarrow> 'w \<Rightarrow> ('w, unit) handled" where
  "reconcile_fixture observe inner w =
     (if in_unidentified_cleanup inner then (Inl Busy, inner, w)
      else
        (case in_pending_cleanup inner of
           None \<Rightarrow> (Inr (), inner, w)
         | Some spec \<Rightarrow>
             (case observe (if_name (sp_interface spec)) w of
                (seen, w') \<Rightarrow>
                  if \<not> cleanup_confirmed spec seen then (Inl Busy, inner, w')
                  else (Inr (), inner\<lparr>in_pending_cleanup := None\<rparr>, w'))))"

definition handled_bind :: "('w, 'b) handled \<Rightarrow> (inner \<Rightarrow> 'w \<Rightarrow> ('w, 'a) handled) \<Rightarrow> ('w, 'a) handled" where
  "handled_bind h k = (case h of (Inl e, inner, w) \<Rightarrow> (Inl e, inner, w) | (Inr _, inner, w) \<Rightarrow> k inner w)"

definition reconcile_cleanup :: "'w os \<Rightarrow> framework_json \<Rightarrow> (string \<Rightarrow> 'w \<Rightarrow> native_measurement \<times> 'w) \<Rightarrow> bool \<Rightarrow> inner \<Rightarrow> 'w \<Rightarrow>
    ('w, unit) handled" where
  "reconcile_cleanup os js observe contended inner w =
     handled_bind (reconcile_framework os js contended inner w) (reconcile_fixture observe)"

definition new_run :: "u64 \<Rightarrow> diagnostic_fingerprint \<Rightarrow> diagnostic_plan \<Rightarrow> diagnostic_run" where
  "new_run session fingerprint plan =
     \<lparr>dr_filesystem = None, dr_sys_interfaces = None, dr_native_raw = None, dr_proc_interfaces = None, dr_addresses = None,
      dr_binding = None, dr_session = session, dr_fingerprint = fingerprint, dr_plan = plan, dr_outcome = Running,
      dr_framework = None, dr_stale = False\<rparr>"

definition new_active :: "u64 \<Rightarrow> boot_deadline \<Rightarrow> active" where
  "new_active session deadline =
     \<lparr>av_session = session, av_deadline = deadline, av_task = None, av_worker = None, av_report = None, av_native = None,
      av_finished = False, av_minimum_birth_ticks = None, av_framework = None\<rparr>"

definition retained :: "diagnostic_fingerprint \<Rightarrow> diagnostic_plan \<Rightarrow> bool \<Rightarrow> inner \<Rightarrow> (diagnostic_error + diagnostic_run) option" where
  "retained fingerprint plan force inner =
     (case in_last inner of
        None \<Rightarrow> None
      | Some latest \<Rightarrow>
          if in_active inner \<noteq> None then Some (if dr_fingerprint latest = fingerprint then Inr latest else Inl Busy)
          else if \<not> force \<and> dr_fingerprint latest = fingerprint \<and> dr_plan latest = plan then Some (Inr latest)
          else None)"

text \<open>The reservation of a new session, and what is left of it when its thread cannot be started.\<close>

definition reserve :: "diagnostic_fingerprint \<Rightarrow> diagnostic_plan \<Rightarrow> boot_deadline \<Rightarrow> bool \<Rightarrow> inner \<Rightarrow>
    (diagnostic_error + diagnostic_run) \<times> inner" where
  "reserve fingerprint plan deadline spawned inner =
     (let counted = inner\<lparr>in_attempts := saturating_add (in_attempts inner) 1, in_retry_at := None\<rparr>
      in case checked_add (in_next inner) 1 of
           None \<Rightarrow> (Inl Expired, counted)
         | Some session \<Rightarrow>
             let run = new_run session fingerprint plan;
                 started = counted\<lparr>in_next := session, in_active := Some (new_active session deadline), in_last := Some run\<rparr>
             in if spawned then (Inr run, started)
                else (Inl Disabled,
                      started\<lparr>in_active := None,
                              in_last := Some (run\<lparr>dr_outcome := Infrastructure ''diagnostic thread unavailable'' None None\<rparr>)\<rparr>))"

definition admit_request :: "'w os \<Rightarrow> diagnostic_fingerprint \<Rightarrow> diagnostic_plan \<Rightarrow> bool \<Rightarrow> bool \<Rightarrow> inner \<Rightarrow> 'w \<Rightarrow>
    ('w, diagnostic_run) handled" where
  "admit_request os fingerprint plan force spawned inner w =
     (if in_app_dir inner = None \<or> in_cancelled inner then (Inl Disabled, inner, w)
      else
        (case retained fingerprint plan force inner of
           Some r \<Rightarrow> (r, inner, w)
         | None \<Rightarrow>
             let fresh = (if (case in_last inner of None \<Rightarrow> True | Some latest \<Rightarrow> dr_fingerprint latest \<noteq> fingerprint)
                          then inner\<lparr>in_attempts := 0\<rparr> else inner)
             in handled_then fresh (io_disabled (deadline_from_now os DEADLINE_NANOS) w) (\<lambda>deadline w.
                  case reserve fingerprint plan deadline spawned fresh of (r, inner') \<Rightarrow> (r, inner', w))))"

definition coordinator_request :: "'w os \<Rightarrow> framework_json \<Rightarrow> (string \<Rightarrow> 'w \<Rightarrow> native_measurement \<times> 'w) \<Rightarrow> bool \<Rightarrow> u64 \<Rightarrow> 'b published \<Rightarrow>
    diagnostic_fingerprint \<Rightarrow> bool \<Rightarrow> bool \<Rightarrow> inner \<Rightarrow> 'w \<Rightarrow> ('w, diagnostic_run) handled" where
  "coordinator_request os js observe contended epoch snapshot fingerprint force spawned inner w =
     handled_bind (reconcile_cleanup os js observe contended inner w) (\<lambda>inner w.
       if not_ready snapshot then (Inl Busy, inner, w)
       else
         handled_then inner (if in_active inner = None then recover_orphan os js epoch w else (Inr (), w)) (\<lambda>_ w.
           admit_request os fingerprint (plan_of snapshot) force spawned inner w))"

definition monitor_force :: "'w os \<Rightarrow> inner \<Rightarrow> 'w \<Rightarrow> bool \<times> 'w" where
  "monitor_force os inner w = io_test (instant_now os) (\<lambda>now. some_and (\<lambda>t. deadline_expired t now) (in_retry_at inner)) w"

definition monitor_tick :: "'w os \<Rightarrow> framework_json \<Rightarrow> (string \<Rightarrow> 'w \<Rightarrow> native_measurement \<times> 'w) \<Rightarrow> bool \<Rightarrow> u64 \<Rightarrow> 'b published \<Rightarrow>
    diagnostic_fingerprint \<Rightarrow> bool \<Rightarrow> inner \<Rightarrow> 'w \<Rightarrow> ('w, diagnostic_run) handled option" where
  "monitor_tick os js observe contended epoch snapshot fingerprint spawned inner w =
     (if in_cancelled inner then None
      else
        (case monitor_force os inner w of
           (force, w') \<Rightarrow> Some (coordinator_request os js observe contended epoch snapshot fingerprint force spawned inner w')))"


section \<open>Completion\<close>

record native_evidence =
  ne_filesystem :: "fs_check scoped"
  ne_sys_interfaces :: "sys_check scoped"
  ne_proc_interfaces :: "proc_check scoped"
  ne_addresses :: "address_check scoped"
  ne_native :: scoped_native
  ne_binding :: "bind_actor scoped"

record measurement_failure =
  mf_filesystem :: "fs_check scoped option"
  mf_sys_interfaces :: "sys_check scoped option"
  mf_proc_interfaces :: "proc_check scoped option"
  mf_addresses :: "address_check scoped option"
  mf_binding :: "bind_actor scoped option"
  mf_detail :: string
  mf_native :: "scoped_native option"
  mf_cleanup_confirmed :: "bool option"

definition record_result :: "measurement_failure + native_evidence \<Rightarrow> diagnostic_run \<Rightarrow> diagnostic_run" where
  "record_result result run =
     (case result of
        Inr e \<Rightarrow>
          record_binding (ne_binding e) (record_native (ne_native e) (record_addresses (ne_addresses e)
            (record_proc_interfaces (ne_proc_interfaces e) (record_sys_interfaces (ne_sys_interfaces e)
              (record_filesystem (ne_filesystem e) run)))))
      | Inl f \<Rightarrow>
          run\<lparr>dr_filesystem := mf_filesystem f, dr_sys_interfaces := mf_sys_interfaces f,
              dr_proc_interfaces := mf_proc_interfaces f, dr_addresses := mf_addresses f, dr_binding := mf_binding f,
              dr_outcome := Infrastructure (mf_detail f) (mf_native f) (mf_cleanup_confirmed f)\<rparr>)"

definition framework_closed :: "'w os \<Rightarrow> framework_json \<Rightarrow> inner \<Rightarrow> 'w \<Rightarrow> (scoped_framework \<times> bool) option \<times> inner \<times> 'w" where
  "framework_closed os js inner w =
     (case in_active inner of
        None \<Rightarrow> (None, inner, w)
      | Some a \<Rightarrow>
          (case av_framework a of
             None \<Rightarrow> (None, inner, w)
           | Some run \<Rightarrow>
               (case run_cleanup os js run w of
                  ((r, clean), run', w') \<Rightarrow>
                    let inner' = inner\<lparr>in_active := Some (a\<lparr>av_framework := Some run'\<rparr>)\<rparr>
                    in (Some (r, clean), if clean then inner' else inner'\<lparr>in_pending_framework := Some run'\<rparr>, w'))))"

definition retryable :: "measurement_failure + native_evidence \<Rightarrow> (scoped_framework \<times> bool) option \<Rightarrow> bool" where
  "retryable result framework =
     ((case result of Inl f \<Rightarrow> mf_cleanup_confirmed f = Some True | Inr _ \<Rightarrow> False)
      \<or> some_and (\<lambda>(r, clean). clean \<and> fr_controls r \<noteq> []) framework)"

definition completed_run :: "measurement_failure + native_evidence \<Rightarrow> (scoped_framework \<times> bool) option \<Rightarrow> native_raw_receipt option \<Rightarrow>
    diagnostic_fingerprint \<Rightarrow> diagnostic_run \<Rightarrow> diagnostic_run" where
  "completed_run result framework receipt current run =
     (let run1 = record_result result (run\<lparr>dr_native_raw := receipt\<rparr>);
          run2 = (case framework of Some (r, _) \<Rightarrow> record_framework r run1 | None \<Rightarrow> run1)
      in if dr_fingerprint run2 \<noteq> current then run2\<lparr>dr_stale := True\<rparr> else run2)"

text \<open>Giving up the slot drops the exchange, and with it a grant it still holds.\<close>

definition active_drop :: "'w raw_node \<Rightarrow> active \<Rightarrow> 'w \<Rightarrow> 'w" where
  "active_drop node a w =
     (case av_native a of
        None \<Rightarrow> w
      | Some x \<Rightarrow> (case nx_grant x of None \<Rightarrow> w | Some grant \<Rightarrow> lease_drop node grant w))"

definition is_incomplete :: "diagnostic_outcome \<Rightarrow> bool" where
  "is_incomplete o' = (case o' of Incomplete _ _ \<Rightarrow> True | _ \<Rightarrow> False)"

definition complete_session :: "'w os \<Rightarrow> 'w raw_node \<Rightarrow> framework_json \<Rightarrow> u64 \<Rightarrow> measurement_failure + native_evidence \<Rightarrow> diagnostic_fingerprint \<Rightarrow>
    inner \<Rightarrow> 'w \<Rightarrow> inner \<times> 'w" where
  "complete_session os node js session result current inner w =
     (case framework_closed os js inner w of
        (framework, inner1, w1) \<Rightarrow>
          (case in_active inner1 of
             None \<Rightarrow> (inner1, w1)
           | Some a \<Rightarrow>
               if av_session a \<noteq> session then (inner1, w1)
               else
                 (let receipt = map_option nx_receipt (av_native a);
                      inner2 = inner1\<lparr>in_active := None\<rparr>;
                      dropped = active_drop node a w1;
                      (inner3, w2) =
                        (if retryable result framework \<and> in_attempts inner2 < 3
                         then (case deadline_from_now os (30000000000 * unat (in_attempts inner2)) dropped of
                                 (r, w2) \<Rightarrow> (inner2\<lparr>in_retry_at := res_ok r\<rparr>, w2))
                         else (inner2, dropped))
                  in case in_last inner3 of
                       None \<Rightarrow> (inner3, w2)
                     | Some latest \<Rightarrow>
                         let run = completed_run result framework receipt current latest
                         in (inner3\<lparr>in_last := Some run,
                                    in_last_completed := (if is_incomplete (dr_outcome run) then Some run
                                                          else in_last_completed inner3)\<rparr>, w2))))"


section \<open>Histories\<close>

definition default_inner :: inner where
  "default_inner =
     \<lparr>in_app_dir = None, in_next = 0, in_active = None, in_last = None, in_cancelled = False, in_last_completed = None,
      in_attempts = 0, in_retry_at = None, in_pending_cleanup = None, in_unidentified_cleanup = False, in_pending_framework = None\<rparr>"

text \<open>
  Every interleaving of the calls: requests by clients and by the monitor, the worker's calls by any
  process, cancellation, the one dispatch of a session, a fixture that was left behind, and the completion with
  any result.  The world between two of them is arbitrary.
\<close>

inductive coordinated :: "'w os \<Rightarrow> 'w raw_node \<Rightarrow> framework_json \<Rightarrow> inner \<Rightarrow> bool" for os node js where
  start: "coordinated os node js (default_inner\<lparr>in_app_dir := dir\<rparr>)"
| request: "coordinated os node js i \<Longrightarrow>
    coordinator_request os js observe contended epoch (snapshot :: nat published) fingerprint force spawned i w = (r, i', w') \<Longrightarrow>
    coordinated os node js i'"
| dispatched: "coordinated os node js i \<Longrightarrow> in_active i = Some a \<Longrightarrow> av_task a = None \<Longrightarrow>
    dispatch_worker session epoch spec birth now i = Inr i' \<Longrightarrow> coordinated os node js i'"
| joined: "coordinated os node js i \<Longrightarrow> session_join os peer i w = (r, i', w') \<Longrightarrow> coordinated os node js i'"
| native: "coordinated os node js i \<Longrightarrow> native_step os node peer backend nrequest i w = (rn, i', w') \<Longrightarrow> coordinated os node js i'"
| reported: "coordinated os node js i \<Longrightarrow> session_report os peer report i w = (ru, i', w') \<Longrightarrow> coordinated os node js i'"
| finished: "coordinated os node js i \<Longrightarrow> finish_worker os peer session epoch i w = (ru, i', w') \<Longrightarrow> coordinated os node js i'"
| framework: "coordinated os node js i \<Longrightarrow> framework_step fuel os js contended peer frequest i w = Some (rf, i', w') \<Longrightarrow>
    coordinated os node js i'"
| cancelled: "coordinated os node js i \<Longrightarrow> coordinated os node js (session_cancel i)"
| left_behind: "coordinated os node js i \<Longrightarrow>
    coordinated os node js (i\<lparr>in_pending_cleanup := pending, in_unidentified_cleanup := unidentified\<rparr>)"
| completed: "coordinated os node js i \<Longrightarrow> complete_session os node js session result current i w = (i', w') \<Longrightarrow> coordinated os node js i'"

text \<open>The session in progress is the one of the last run, and a retry is only ever scheduled below three attempts.\<close>

definition slot_inv :: "inner \<Rightarrow> bool" where
  "slot_inv i \<longleftrightarrow>
     (\<forall>a. in_active i = Some a \<longrightarrow> (\<exists>run. in_last i = Some run \<and> dr_session run = av_session a \<and> dr_outcome run = Running))
     \<and> (\<forall>run. in_last i = Some run \<longrightarrow> dr_session run = in_next i)
     \<and> (in_retry_at i \<noteq> None \<longrightarrow> in_attempts i < 3)"

text \<open>Steps that only touch the session in progress: its number stays.\<close>

definition same_slot :: "inner \<Rightarrow> inner \<Rightarrow> bool" where
  "same_slot i i' \<longleftrightarrow>
     map_option av_session (in_active i') = map_option av_session (in_active i) \<and> in_last i' = in_last i \<and> in_next i' = in_next i
     \<and> in_retry_at i' = in_retry_at i \<and> in_attempts i' = in_attempts i"

lemma same_slot_inv: "slot_inv i \<Longrightarrow> same_slot i i' \<Longrightarrow> slot_inv i'"
  by (cases "in_active i") (auto simp: slot_inv_def same_slot_def)

lemma same_slot_refl [simp]: "same_slot i i"
  by (simp add: same_slot_def)

lemma same_slot_update [simp]:
  "in_active i = Some a \<Longrightarrow> same_slot i (i\<lparr>in_active := Some a'\<rparr>) \<longleftrightarrow> av_session a' = av_session a"
  by (auto simp: same_slot_def)

lemma claim_session: "active_claim a identity now = (r, a') \<Longrightarrow> av_session a' = av_session a"
  by (auto simp: active_claim_def split: if_splits)

lemma accept_session: "active_accept a identity epoch report now = (r, a') \<Longrightarrow> av_session a' = av_session a"
  by (auto simp: active_accept_def split: if_splits)

lemma join_slot: "session_join os peer i w = (r, i', w') \<Longrightarrow> same_slot i i'"
  unfolding session_join_def by (auto elim!: handled_then_cases split: if_splits option.splits prod.splits)
    (erule claim_session)

lemma native_slot: "native_step os node peer backend request i w = (r, i', w') \<Longrightarrow> same_slot i i'"
  unfolding native_step_def native_prepared_def native_continue_def Let_def
  by (auto elim!: handled_then_cases split: if_splits option.splits prod.splits)

lemma report_slot: "session_report os peer report i w = (r, i', w') \<Longrightarrow> same_slot i i'"
  unfolding session_report_def by (auto elim!: handled_then_cases split: if_splits option.splits prod.splits)
    (erule accept_session)

lemma finish_slot: "finish_worker os peer session epoch i w = (r, i', w') \<Longrightarrow> same_slot i i'"
  unfolding finish_worker_def by (auto elim!: handled_then_cases split: if_splits option.splits prod.splits)

lemma dispatch_slot: "dispatch_worker session epoch spec birth now i = Inr i' \<Longrightarrow> same_slot i i'"
  by (auto simp: dispatch_worker_def split: if_splits option.splits)

lemma framework_admit_slot:
  "framework_admit os peer request i w = (r, i', w') \<Longrightarrow> same_slot i i' \<and> (\<forall>a run. r = Inr (a, run) \<longrightarrow> in_active i' = Some a)"
  unfolding framework_admit_def Let_def by (auto elim!: handled_then_cases split: if_splits option.splits prod.splits)

lemma framework_slot:
  assumes "framework_step fuel os js contended peer request i w = Some (r, i', w')"
  shows "same_slot i i'"
proof -
  obtain r1 i1 w1 where a: "framework_admit os peer request i w = (r1, i1, w1)" by (cases "framework_admit os peer request i w") auto
  note s = framework_admit_slot [OF a]
  show ?thesis
  proof (cases r1)
    case (Inl e)
    with assms a s show ?thesis by (simp add: framework_step_def)
  next
    case (Inr p)
    with s obtain b run where "r1 = Inr (b, run)" "in_active i1 = Some b" by (cases p) auto
    with assms a s show ?thesis by (auto simp: framework_step_def same_slot_def split: if_splits)
  qed
qed

lemma reconcile_cleanup_cases:
  assumes "reconcile_cleanup os js observe contended i w = (r, i', w')"
  shows "in_active i' = in_active i \<and> same_slot i i'
         \<and> (r = Inr () \<longrightarrow> in_pending_framework i' = None \<and> in_pending_cleanup i' = None \<and> \<not> in_unidentified_cleanup i')"
  using assms unfolding reconcile_cleanup_def handled_bind_def reconcile_framework_def reconcile_fixture_def
  by (auto simp: same_slot_def split: prod.splits sum.splits option.splits if_splits)

lemma refresh_missing_sel [simp]:
  "dr_session (refresh_missing run) = dr_session run" "dr_native_raw (refresh_missing run) = dr_native_raw run"
  "dr_fingerprint (refresh_missing run) = dr_fingerprint run"
  by (simp_all add: refresh_missing_def Let_def split: diagnostic_outcome.split)

lemma completed_run_sel [simp]:
  "dr_session (completed_run result framework receipt current run) = dr_session run"
  "dr_native_raw (completed_run result framework receipt current run) = receipt"
  by (auto simp: completed_run_def record_result_def record_defs Let_def split: sum.splits option.splits)

lemma reserve_slot:
  assumes "slot_inv i" "reserve fingerprint plan deadline spawned i = (r, i')"
  shows "slot_inv i' \<and> (inner_inv i \<longrightarrow> inner_inv i')"
  using assms
  by (auto simp: reserve_def Let_def slot_inv_def inner_inv_def new_run_def new_active_def active_inv_def
      split: option.splits if_splits)

lemma admit_request_inv:
  assumes "slot_inv i" "inner_inv i" "admit_request os fingerprint plan force spawned i w = (r, i', w')"
  shows "slot_inv i' \<and> inner_inv i'"
proof -
  let ?fresh = "if (case in_last i of None \<Rightarrow> True | Some latest \<Rightarrow> dr_fingerprint latest \<noteq> fingerprint)
                then i\<lparr>in_attempts := 0\<rparr> else i"
  have f: "slot_inv ?fresh \<and> inner_inv ?fresh" using assms(1,2) by (auto simp: slot_inv_def inner_inv_def)
  from assms(3) have "i' = i \<or> i' = ?fresh \<or> (\<exists>d. reserve fingerprint plan d spawned ?fresh = (r, i'))"
    unfolding admit_request_def Let_def
    by (auto elim!: handled_then_cases split: if_splits option.splits prod.splits)
  with f assms(1,2) reserve_slot show ?thesis by blast
qed

lemma request_inv:
  assumes "slot_inv i" "inner_inv i"
    "coordinator_request os js observe contended epoch snapshot fingerprint force spawned i w = (r, i', w')"
  shows "slot_inv i' \<and> inner_inv i'"
proof -
  obtain r1 i1 w1 where c: "reconcile_cleanup os js observe contended i w = (r1, i1, w1)"
    by (cases "reconcile_cleanup os js observe contended i w") auto
  with reconcile_cleanup_cases [OF c] assms(1,2) have "slot_inv i1" "inner_inv i1" by (auto simp: inner_inv_def intro: same_slot_inv)
  with assms(3) c show ?thesis
    unfolding coordinator_request_def handled_bind_def
    by (auto elim!: handled_then_cases dest: admit_request_inv split: sum.splits if_splits)
qed

lemma complete_inv:
  assumes "slot_inv i" "inner_inv i" "complete_session os node js session result current i w = (i', w')"
  shows "slot_inv i' \<and> inner_inv i'"
proof -
  obtain fw i1 w1 where f: "framework_closed os js i w = (fw, i1, w1)" by (cases "framework_closed os js i w") auto
  then have "same_slot i i1 \<and> inner_inv i1"
    using assms(2) unfolding framework_closed_def Let_def
    by (auto simp: inner_inv_def same_slot_def split: option.splits prod.splits if_splits)
  with assms(1) have i1: "slot_inv i1" "inner_inv i1" by (auto intro: same_slot_inv)
  then show ?thesis
    using assms(3) f unfolding complete_session_def
    by (auto simp: Let_def slot_inv_def inner_inv_def split: option.splits if_splits prod.splits)
qed

lemma coordinated_inv: "coordinated os node js i \<Longrightarrow> slot_inv i \<and> inner_inv i"
proof (induction rule: coordinated.induct)
  case (start dir)
  show ?case by (simp add: slot_inv_def inner_inv_def default_inner_def)
next
  case (cancelled i)
  then show ?case by (simp add: slot_inv_def inner_inv_def session_cancel_def)
next
  case (left_behind i pending unidentified)
  then show ?case by (simp add: slot_inv_def inner_inv_def)
qed (metis request_inv complete_inv dispatch_inv dispatch_slot join_inv join_slot native_step_inv native_slot report_inv report_slot
      finish_inv finish_slot framework_step_inv framework_slot same_slot_inv)+


section \<open>What a completed run rests on\<close>





text \<open>
  C22. A session is over with a result only through its own worker: in every reachable state, a finished
  session has an accepted bounded report, its worker is the one process that claimed the task (born after
  the dispatch), and the exchange with one of its threads had reached the protected phase, with no lease held.
\<close>

theorem finished_session_reported:
  assumes "coordinated os node js i" "in_active i = Some a" "av_finished a"
  shows "\<exists>worker birth x m. av_worker a = Some worker \<and> av_minimum_birth_ticks a = Some birth
           \<and> birth \<le> pi_start_ticks (wi_process worker) \<and> av_report a = Some m \<and> nm_bounded m
           \<and> av_native a = Some x \<and> of_worker worker (nx_identity x) \<and> protected_ready x \<and> nx_grant x = None"
proof -
  have a: "active_inv a" using coordinated_inv [OF assms(1)] assms(2) by (simp add: inner_inv_def)
  with assms(3) obtain m x where m: "av_report a = Some m" "nm_bounded m" "av_native a = Some x" "protected_ready x"
    by (cases "av_native a") (auto simp: active_inv_def active_ready_def)
  with a obtain worker where w: "native_ok x" "av_worker a = Some worker" "of_worker worker (nx_identity x)"
    by (auto simp: active_inv_def)
  with a obtain birth where "av_minimum_birth_ticks a = Some birth" "birth \<le> pi_start_ticks (wi_process worker)"
    by (auto simp: active_inv_def)
  moreover have "nx_grant x = None"
    using w(1) m(4) by (auto simp: native_ok_def exchange_inv_def protected_ready_def) (metis exchange_failed_def native_exchange.select_convs(3))
  ultimately show ?thesis using m w by auto
qed


section \<open>Which runs are started\<close>




text \<open>
  C24. Automatic retries are bounded: once three runs were attempted under the same conditions, the monitor
  starts no further one for them, whatever their results were; it only returns the run that is there.
\<close>

theorem monitor_retries_bounded:
  assumes "coordinated os node js i" "3 \<le> in_attempts i"
    and "in_last i = Some latest" "dr_fingerprint latest = fingerprint" "dr_plan latest = plan_of snapshot"
    and "monitor_tick os js observe contended epoch snapshot fingerprint spawned i w = Some (r, i', w')"
  shows "in_next i' = in_next i \<and> in_active i' = in_active i \<and> in_last i' = in_last i"
proof -
  obtain force w0 where m: "monitor_force os i w = (force, w0)" by (cases "monitor_force os i w")
  have "in_retry_at i = None"
    using coordinated_inv [OF assms(1)] assms(2) by (auto simp: slot_inv_def)
  with m have force: "\<not> force" by (auto simp: monitor_force_def io_test_def split: prod.splits sum.splits)
  from assms(6) m have q: "coordinator_request os js observe contended epoch snapshot fingerprint force spawned i w0 = (r, i', w')"
    by (auto simp: monitor_tick_def split: if_splits)
  obtain r1 i1 w1 where c: "reconcile_cleanup os js observe contended i w0 = (r1, i1, w1)"
    by (cases "reconcile_cleanup os js observe contended i w0") auto
  note rc = reconcile_cleanup_cases [OF c]
  then have same: "in_active i1 = in_active i" "in_next i1 = in_next i" "in_last i1 = in_last i" by (auto simp: same_slot_def)
  then have "retained fingerprint (plan_of snapshot) force i1 \<noteq> None" using assms(3-5) force by (auto simp: retained_def)
  then have "admit_request os fingerprint (plan_of snapshot) force spawned i1 v = (r, i', w') \<Longrightarrow> i' = i1" for v
    by (auto simp: admit_request_def split: if_splits)
  with q c have "i' = i1"
    unfolding coordinator_request_def handled_bind_def by (auto elim!: handled_then_cases split: sum.splits if_splits)
  with same show ?thesis by simp
qed


section \<open>A run that works\<close>

text \<open>
  A process file system with one worker (42, of user 10000, child of the zygote 1) and its thread 43; the
  channel directory is empty.  The world is that of the scripted endpoint.
\<close>

definition proc_stat :: "string \<Rightarrow> string \<Rightarrow> string" where
  "proc_stat pid ticks = pid @ '' (x) S 1 '' @ concat (replicate 17 ''0 '') @ ticks @ '' 0''"

definition proc_text :: "string \<Rightarrow> string" where
  "proc_text path =
     (if path = ''/proc/42/cmdline'' then WORKER
      else if path = ''/proc/1/cmdline'' then ''zygote64''
      else if path = ''/proc/42/stat'' then proc_stat ''42'' ''100''
      else if path = ''/proc/42/task/43/stat'' then proc_stat ''43'' ''101''
      else if path = ''/proc/1/stat'' then proc_stat ''1'' ''5''
      else ''01234567-89ab-cdef-0123-456789abcdef'')"

definition proc_meta :: "u32 \<Rightarrow> file_meta" where
  "proc_meta uid =
     \<lparr>fm_regular = False, fm_dev = 1, fm_ino = 1, fm_len = 0, fm_uid = uid, fm_mode = 0, fm_nlink = 1,
      fm_mtime = 0, fm_mtime_nsec = 0, fm_ctime = 0, fm_ctime_nsec = 0\<rparr>"

definition proc_os :: "bytes list os" where
  "proc_os =
     \<lparr>os_clock = io_ok (1000, 0), os_sleep = (\<lambda>_ w. w), os_random = (\<lambda>_. io_err NotFound),
      os_read_text = (\<lambda>path _. io_ok (proc_text path)), os_open_dir = (\<lambda>_. io_ok 0),
      os_openat = (\<lambda>_ _ _. io_err NotFound), os_reopen = (\<lambda>_. io_err NotFound), os_stat = (\<lambda>_. io_ok (proc_meta 0)),
      os_stat_path = (\<lambda>path. io_ok (proc_meta (if path = ''/proc/1'' then 0 else 10000))),
      os_lstat_at = (\<lambda>_ _. io_err NotFound), os_take = (\<lambda>_ _. io_err NotFound),
      os_stage = (\<lambda>_. io_err NotFound), os_write_all = (\<lambda>_ _. io_err NotFound), os_chmod = (\<lambda>_ _. io_err NotFound),
      os_chgrp = (\<lambda>_ _. io_err NotFound), os_sync = (\<lambda>_. io_err NotFound), os_persist = (\<lambda>_ _ _. io_err NotFound),
      os_discard = (\<lambda>_ w. w), os_process_id = Pair 1, os_list_dir = (\<lambda>_. io_err NotFound), os_dup = (\<lambda>_. Pair None),
      os_seals = (\<lambda>_. Pair (- 1)), os_read_exact_at = (\<lambda>_ _ _. io_err NotFound),
      os_monotonic = Pair 0, os_remove_at = (\<lambda>_ _. io_err NotFound)\<rparr>"

definition proc_peer :: peer_cred where
  "proc_peer = \<lparr>pc_uid = 10000, pc_gid = 10000, pc_pid = 42\<rparr>"

definition proc_worker :: worker_identity where
  "proc_worker =
     \<lparr>wi_process = \<lparr>pi_pid = 42, pi_start_ticks = 100\<rparr>, wi_uid = 10000, wi_zygote = \<lparr>pi_pid = 1, pi_start_ticks = 5\<rparr>,
      wi_network_namespace = (1, 1)\<rparr>"

lemma proc_os_sel [simp]:
  "os_clock proc_os = io_ok (1000, 0)" "os_open_dir proc_os p = io_ok 0" "os_openat proc_os h n b = io_err NotFound"
  "os_stat proc_os h = io_ok (proc_meta 0)" "os_stat_path proc_os p = io_ok (proc_meta (if p = ''/proc/1'' then 0 else 10000))"
  by (simp_all add: proc_os_def)

lemma proc_meta_sel [simp]: "fm_uid (proc_meta u) = u" "fm_dev (proc_meta u) = 1" "fm_ino (proc_meta u) = 1"
  by (simp_all add: proc_meta_def)

lemma proc_stat_length: "length (proc_stat pid ticks) = length pid + length ticks + 45"
proof -
  have "length (concat (replicate 17 ''0 '')) = 34" by code_simp
  then show ?thesis by (simp add: proc_stat_def)
qed

lemma proc_texts:
  "bounded_text_of proc_os ''/proc/42/cmdline'' 512 w = (Inr WORKER, w)"
  "bounded_text_of proc_os ''/proc/1/cmdline'' 256 w = (Inr ''zygote64'', w)"
  "bounded_text_of proc_os ''/proc/42/stat'' 8192 w = (Inr (proc_stat ''42'' ''100''), w)"
  "bounded_text_of proc_os ''/proc/42/task/43/stat'' 8192 w = (Inr (proc_stat ''43'' ''101''), w)"
  "bounded_text_of proc_os ''/proc/1/stat'' 8192 w = (Inr (proc_stat ''1'' ''5''), w)"
  by (simp_all add: bounded_text_of_def proc_os_def proc_text_def WORKER_def proc_stat_length io_run)

lemma proc_parsed_worker: "stat_start_ticks 42 (proc_stat ''42'' ''100'') = Inr 100"
  by code_simp

lemma proc_parsed_thread: "stat_start_ticks 43 (proc_stat ''43'' ''101'') = Inr 101"
  by code_simp

lemma proc_parsed_zygote: "stat_start_ticks 1 (proc_stat ''1'' ''5'') = Inr 5"
  by code_simp

lemma proc_parsed_parent: "stat_parent (proc_stat ''42'' ''100'') = Inr 1"
  by code_simp

lemmas proc_parsed = proc_parsed_worker proc_parsed_thread proc_parsed_zygote proc_parsed_parent

lemma proc_numbers: "dec_str 42 = ''42''" "dec_str 43 = ''43''" "dec_str (Suc 0) = ''1''"
  by code_simp+

lemma proc_identity:
  "process_identity_of proc_os ''/proc'' 42 w = (Inr \<lparr>pi_pid = 42, pi_start_ticks = 100\<rparr>, w)"
  "process_identity_of proc_os ''/proc'' 1 w = (Inr \<lparr>pi_pid = 1, pi_start_ticks = 5\<rparr>, w)"
  "process_identity_of proc_os ''/proc/42/task'' 43 w = (Inr \<lparr>pi_pid = 43, pi_start_ticks = 101\<rparr>, w)"
  by (simp_all add: process_identity_of_def path_join_def proc_numbers io_run proc_texts proc_parsed)

lemma proc_namespace: "namespace_identity proc_os p w = (Inr (1, 1), w)"
  by (simp add: namespace_identity_def io_wrong_def io_run)

lemma proc_arguments: "first_argument WORKER = WORKER" "first_argument ''zygote64'' = ''zygote64''"
  by code_simp+

lemma proc_zygote: "parent_zygote proc_os ''/proc'' \<lparr>pi_pid = 42, pi_start_ticks = 100\<rparr> w = (Inr \<lparr>pi_pid = 1, pi_start_ticks = 5\<rparr>, w)"
  by (simp add: parent_zygote_def parent_zygote_owned_def Let_def path_join_def proc_numbers io_run
      proc_texts proc_parsed proc_identity proc_arguments)

lemma proc_admitted: "worker_identity_of proc_os ''/proc'' dir proc_peer w = (Inr proc_worker, w)"
  if "dir \<noteq> ''/proc/1''"
  using that
  by (simp add: worker_identity_of_def proc_peer_def Let_def path_join_def proc_numbers io_run io_require_def io_test_def uid_is_def io_wrong_def
      proc_texts proc_identity proc_arguments proc_zygote shared_network_namespace_def proc_namespace proc_worker_def)

lemma proc_thread: "thread_identity_of proc_os ''/proc'' proc_worker 43 w = (Inr scripted_identity, w)"
  by (simp add: thread_identity_of_def proc_worker_def Let_def path_join_def proc_numbers io_run io_require_def io_test_def uid_is_def io_wrong_def
      proc_identity proc_namespace I32_MAX_def scripted_identity_def)

lemma proc_now: "now_or_expired proc_os w = (Inr 1000000000000, w)"
  by (simp add: now_or_expired_def instant_now_def io_run from_timespec_def NANOS_def)

lemma proc_orphan: "recover_orphan proc_os js epoch w = (Inr (), w)"
proof -
  have r: "store_revalidate proc_os st v = (Inr (), v)" for st v by (simp add: store_revalidate_def io_run)
  have o: "open_beneath proc_os h ENVELOPE_FILE v = (Inl NotFound, v)" for h v
    by (simp add: open_beneath_def ENVELOPE_FILE_def io_then_def io_err_def)
  have c: "store_current proc_os js st v = (Inr None, v)" for st v
    by (simp add: store_current_def store_read_def io_run r o)
  have b: "bounded_text_of proc_os BOOT_ID_PATH 128 v = (Inr ''01234567-89ab-cdef-0123-456789abcdef'', v)" for v
    by (simp add: bounded_text_of_def proc_os_def proc_text_def BOOT_ID_PATH_def io_run)
  have m: "boot_ms proc_os v = (Inr 1000000, v)" for v
    by (simp add: boot_ms_def instant_now_def io_run from_timespec_def NANOS_def instant_millis_def)
  show ?thesis
    by (simp add: recover_orphan_def io_disabled_def io_run b m store_production_def store_open_def reconcile_orphan_def c)
qed

definition work_fingerprint :: diagnostic_fingerprint where
  "work_fingerprint =
     \<lparr>df_boot_id = ''b'', df_core_epoch = 3, df_policy_sha256 = [], df_runtime_sha256 = [], df_platform_sha256 = None,
      df_loaded_generations_sha256 = None, df_loaded_generations_complete = False\<rparr>"

definition work_snapshot :: "nat published" where
  "work_snapshot =
     \<lparr>pb_startup_error = None, pb_storage_fault = None, pb_mutation_held = False, pb_operations_in_flight = [],
      pb_config = Some (with_self_target default_canonical SELF_PACKAGE), pb_applied = Some 0, pb_selected = Some 0\<rparr>"

definition work_run :: diagnostic_run where
  "work_run = new_run 1 work_fingerprint (plan_of work_snapshot)"

definition work_start :: inner where
  "work_start = default_inner\<lparr>in_app_dir := Some ''/data/app''\<rparr>"

definition work :: "active \<Rightarrow> inner" where
  "work a = work_start\<lparr>in_next := 1, in_active := Some a, in_last := Some work_run, in_attempts := 1\<rparr>"

definition work_deadline :: boot_deadline where
  "work_deadline = \<lparr>bd_start = 1000000000000, bd_end = 1020000000000\<rparr>"

lemma work_sel [simp]:
  "in_app_dir (work a) = Some ''/data/app''" "in_active (work a) = Some a" "\<not> in_cancelled (work a)" "in_last (work a) = Some work_run"
  "(work a)\<lparr>in_active := Some b\<rparr> = work b" "in_attempts (work a) = 1"
  by (simp_all add: work_def work_start_def default_inner_def)

lemma work_live [simp]: "\<not> deadline_expired work_deadline 1000000000000"
  by (simp add: deadline_expired_def deadline_remaining_def work_deadline_def)

lemma work_admit [simp]: "admit_worker proc_os (work a) proc_peer w = (Inr proc_worker, w)"
  by (simp add: admit_worker_def proc_admitted)

lemma work_ready: "\<not> not_ready work_snapshot"
  by code_simp

lemma work_request:
  "coordinator_request proc_os js observe False 3 work_snapshot work_fingerprint True True work_start w =
     (Inr work_run, work (new_active 1 work_deadline), w)"
proof -
  have d: "deadline_from_now proc_os DEADLINE_NANOS w = (Inr work_deadline, w)"
    by (simp add: deadline_from_now_def instant_now_def io_run from_timespec_def NANOS_def DEADLINE_NANOS_def
        instant_after_def duration_checked_def work_deadline_def)
  have "reconcile_cleanup proc_os js observe False work_start w = (Inr (), work_start, w)"
    by (simp add: reconcile_cleanup_def handled_bind_def reconcile_framework_def reconcile_fixture_def work_start_def default_inner_def)
  then show ?thesis
    by (simp add: coordinator_request_def handled_bind_def work_ready)
       (simp add: handled_then_def proc_orphan admit_request_def retained_def io_disabled_def io_map_err_def d
        work_start_def default_inner_def reserve_def Let_def checked_add_def saturating_add_def work_def work_run_def new_run_def)
qed

definition work_task :: worker_task where
  "work_task = \<lparr>tk_session = 1, tk_core_epoch = 3, tk_fixture = sample_spec\<rparr>"

definition work_active :: "worker_identity option \<Rightarrow> native_exchange option \<Rightarrow> native_measurement option \<Rightarrow> bool \<Rightarrow> active" where
  "work_active worker native report finished =
     \<lparr>av_session = 1, av_deadline = work_deadline, av_task = Some work_task, av_worker = worker, av_report = report, av_native = native,
      av_finished = finished, av_minimum_birth_ticks = Some 50, av_framework = None\<rparr>"

lemma work_dispatch: "dispatch_worker 1 3 sample_spec 50 1000000000000 (work (new_active 1 work_deadline)) = Inr (work (work_active None None None False))"
  by (simp add: dispatch_worker_def new_active_def) (simp add: work_def work_active_def work_task_def)

lemma work_join:
  "session_join proc_os proc_peer (work (work_active None None None False)) w =
     (Inr (Some work_task), work (work_active (Some proc_worker) None None False), w)"
  by (simp add: session_join_def handled_then_def proc_now)
     (simp add: active_claim_def work_active_def proc_worker_def)

definition work_native :: "native_worker_phase \<Rightarrow> native_worker_request" where
  "work_native phase = \<lparr>nr_session = 1, nr_core_epoch = 3, nr_tid = 43, nr_phase = phase\<rparr>"

lemma work_native_step:
  "native_step proc_os scripted_node proc_peer (Some 1) (work_native phase) (work (work_active (Some proc_worker) native None False)) w =
     (if phase = WpPrepared
      then native_prepared scripted_node (Some 1) scripted_identity (work_active (Some proc_worker) native None False)
             (work (work_active (Some proc_worker) native None False)) w
      else native_continue scripted_node scripted_identity phase (work_active (Some proc_worker) native None False)
             (work (work_active (Some proc_worker) native None False)) w)"
  by (simp add: native_step_def handled_then_def proc_now proc_thread work_active_def work_task_def work_native_def)

lemma work_native_upd [simp]:
  "(work_active wk n r f)\<lparr>av_native := x\<rparr> = work_active wk x r f" "av_native (work_active wk n r f) = n"
  "(work_active wk n r f)\<lparr>av_report := y\<rparr> = work_active wk n y f" "(work_active wk n r f)\<lparr>av_finished := g\<rparr> = work_active wk n r g"
  by (simp_all add: work_active_def)

lemma work_prepared:
  "native_step proc_os scripted_node proc_peer (Some 1) (work_native WpPrepared) (work (work_active (Some proc_worker) None None False))
     [released_reply, held_reply ''armed''] =
   (Inr (InsRegister 7), work (work_active (Some proc_worker) (Some (exchange_armed scripted_identity scripted_lease)) None False), [])"
  by (simp add: work_native_step native_prepared_def handled_then_def scripted_begin)

lemma work_registered:
  "native_step proc_os scripted_node proc_peer (Some 1) (work_native WpRegistered)
     (work (work_active (Some proc_worker) (Some (exchange_armed scripted_identity scripted_lease)) None False))
     [held_reply ''registered'', held_reply ''active''] =
   (Inr ObserveRaw, work (work_active (Some proc_worker) (Some scripted_raw) None False), [])"
  by (simp add: work_native_step native_continue_def scripted_activate)

lemma work_measured:
  "native_step proc_os scripted_node proc_peer (Some 1) (work_native (WpRawMeasured (nm_unavailable Unsupported)))
     (work (work_active (Some proc_worker) (Some scripted_raw) None False)) [held_reply ''active'', released_reply] =
   (Inr ObserveProtected, work (work_active (Some proc_worker) (Some scripted_end) None False), [])"
  by (simp add: work_native_step native_continue_def scripted_finish)

definition work_reported :: active where
  "work_reported = work_active (Some proc_worker) (Some scripted_end) (Some (nm_unavailable Unsupported)) False"

definition work_finished :: active where
  "work_finished = work_active (Some proc_worker) (Some scripted_end) (Some (nm_unavailable Unsupported)) True"

lemma scripted_ready [simp]: "protected_ready scripted_end" "nx_identity scripted_end = scripted_identity" "ti_tid scripted_identity = 43"
  by (simp_all add: protected_ready_def scripted_end_def scripted_identity_def)

lemma work_bounded: "nm_bounded (nm_unavailable Unsupported)"
  by code_simp

lemma work_report:
  "session_report proc_os proc_peer \<lparr>wr_session = 1, wr_core_epoch = 3, wr_native = nm_unavailable Unsupported\<rparr>
     (work (work_active (Some proc_worker) (Some scripted_end) None False)) w = (Inr (), work work_reported, w)"
  by (simp add: session_report_def handled_then_def proc_thread proc_now)
     (simp add: active_accept_def active_ready_def work_bounded work_active_def work_reported_def work_run_def new_run_def work_fingerprint_def)

lemma work_finish: "finish_worker proc_os proc_peer 1 3 (work work_reported) w = (Inr (), work work_finished, w)"
  by (simp add: finish_worker_def handled_then_def proc_now)
     (simp add: active_finishing_def work_reported_def work_finished_def work_active_def work_task_def proc_thread)

lemma work_coordinated_start: "coordinated proc_os scripted_node demo_json work_start"
  unfolding work_start_def by (rule coordinated.start)

lemma work_coordinated: "coordinated proc_os scripted_node demo_json (work work_finished)"
proof -
  note c = coordinated.request [OF work_coordinated_start work_request]
  have "coordinated proc_os scripted_node demo_json (work (work_active None None None False))"
    by (rule coordinated.dispatched [OF c work_sel(2) _ work_dispatch]) (simp add: new_active_def)
  note c = coordinated.native [OF coordinated.joined [OF this work_join] work_prepared]
  note c = coordinated.native [OF coordinated.native [OF c work_registered] work_measured]
  show ?thesis by (rule coordinated.finished [OF coordinated.reported [OF c work_report] work_finish])
qed

theorem finished_session_reported_witness:
  "\<exists>m. av_report work_finished = Some m \<and> nm_bounded m \<and> av_worker work_finished = Some proc_worker"
proof -
  have "av_finished work_finished" by (simp add: work_finished_def work_active_def)
  from finished_session_reported [OF work_coordinated work_sel(2) this] show ?thesis
    by (auto simp: work_finished_def work_active_def)
qed








text \<open>Three runs whose thread could not be started.\<close>

definition work_failed :: "u64 \<Rightarrow> 8 word \<Rightarrow> inner" where
  "work_failed n k =
     work_start\<lparr>in_next := n, in_attempts := k,
       in_last := Some ((new_run n work_fingerprint (plan_of work_snapshot))
         \<lparr>dr_outcome := Infrastructure ''diagnostic thread unavailable'' None None\<rparr>)\<rparr>"

lemma work_unspawned:
  assumes "i = work_start \<or> i = work_failed m j" "checked_add (in_next i) 1 = Some n" "saturating_add (in_attempts i) 1 = k"
  shows "coordinator_request proc_os js observe False 3 work_snapshot work_fingerprint True False i w = (Inl Disabled, work_failed n k, w)"
proof -
  have d: "deadline_from_now proc_os DEADLINE_NANOS w = (Inr work_deadline, w)"
    by (simp add: deadline_from_now_def instant_now_def io_run from_timespec_def NANOS_def DEADLINE_NANOS_def
        instant_after_def duration_checked_def work_deadline_def)
  have i: "in_active i = None" "in_app_dir i = Some ''/data/app''" "\<not> in_cancelled i" "in_pending_framework i = None"
      "in_pending_cleanup i = None" "\<not> in_unidentified_cleanup i"
    using assms(1) by (auto simp: work_start_def work_failed_def default_inner_def)
  then have r: "reconcile_cleanup proc_os js observe False i w = (Inr (), i, w)"
    by (simp add: reconcile_cleanup_def handled_bind_def reconcile_framework_def reconcile_fixture_def)
  have "admit_request proc_os work_fingerprint (plan_of work_snapshot) True False i w = (Inl Disabled, work_failed n k, w)"
    using assms
    by (auto simp: admit_request_def retained_def io_disabled_def io_map_err_def d handled_then_def reserve_def Let_def
        work_start_def default_inner_def work_failed_def new_run_def)
  with i r show ?thesis
    by (simp add: coordinator_request_def handled_bind_def work_ready handled_then_def proc_orphan)
qed

lemma work_failed_sel: "in_next (work_failed m j) = m" "in_attempts (work_failed m j) = j" "in_next work_start = 0" "in_attempts work_start = 0"
  by (simp_all add: work_failed_def work_start_def default_inner_def)

lemma work_counts:
  "checked_add (0 :: u64) 1 = Some 1" "checked_add (1 :: u64) 1 = Some 2" "checked_add (2 :: u64) 1 = Some 3"
  "saturating_add (0 :: 8 word) 1 = 1" "saturating_add (1 :: 8 word) 1 = 2" "saturating_add (2 :: 8 word) 1 = 3"
  by code_simp+

lemma work_tired: "coordinated proc_os scripted_node demo_json (work_failed 3 3)"
proof -
  note step = coordinated.request [OF _ work_unspawned [where w = "[]" and observe = "\<lambda>_ w. (nm_unavailable Unsupported, w)"]]
  have "coordinated proc_os scripted_node demo_json (work_failed 1 1)"
    by (rule step [OF work_coordinated_start]) (rule disjI1, rule refl, simp_all only: work_failed_sel work_counts)
  then have "coordinated proc_os scripted_node demo_json (work_failed 2 2)"
    by (rule step) (rule disjI2, rule refl, simp_all only: work_failed_sel work_counts)
  then show ?thesis
    by (rule step) (rule disjI2, rule refl, simp_all only: work_failed_sel work_counts)
qed

theorem monitor_retries_bounded_witness:
  "\<exists>r i' w'. monitor_tick proc_os demo_json (\<lambda>_ w. (nm_unavailable Unsupported, w)) False 3 work_snapshot work_fingerprint True (work_failed 3 3) []
       = Some (r, i', w') \<and> in_next i' = 3"
proof -
  have "\<not> in_cancelled (work_failed 3 3)" by (simp add: work_failed_def work_start_def default_inner_def)
  then obtain t where "monitor_tick proc_os demo_json (\<lambda>_ w. (nm_unavailable Unsupported, w)) False 3 work_snapshot work_fingerprint True
      (work_failed 3 3) [] = Some t"
    by (cases "monitor_force proc_os (work_failed 3 3) []") (simp add: monitor_tick_def)
  then obtain r i' w' where t: "monitor_tick proc_os demo_json (\<lambda>_ w. (nm_unavailable Unsupported, w)) False 3 work_snapshot work_fingerprint True
      (work_failed 3 3) [] = Some (r, i', w')"
    by (cases t) auto
  let ?run = "(new_run 3 work_fingerprint (plan_of work_snapshot))
      \<lparr>dr_outcome := Infrastructure ''diagnostic thread unavailable'' None None\<rparr>"
  have l: "3 \<le> in_attempts (work_failed 3 3)" "in_last (work_failed 3 3) = Some ?run"
      "dr_fingerprint ?run = work_fingerprint" "dr_plan ?run = plan_of work_snapshot"
    by (simp_all add: work_failed_def new_run_def)
  from monitor_retries_bounded [OF work_tired l t] have "in_next i' = in_next (work_failed 3 3)" by blast
  with t show ?thesis by (auto simp: work_failed_def)
qed

end
