(* ===== verification/Spec2Isabelle.thy ===== *)
theory Spec2Isabelle
  imports Native_Policy Telemetry Canonical_Codec Reset_Session Operation_Plan Admission Route_Probe
    Journal_Records Preflight Elf_Capabilities Diag_Route Diag_Coordinator
begin

text \<open>
  A verification library for vpnhide, an Android system that hides VPN interfaces and packages from
  selected apps.  A root daemon, Core, owns one canonical configuration, an operation journal and the
  native back ends (a kernel module, a KernelPatch module, a built-in kernel patch, a Zygisk module);
  it projects the configuration to a text policy that the back ends parse; the back ends filter what
  a hidden-from app reads; probes check the result.  The Rust crates under \<^verbatim>\<open>src/crates/\<close> and
  \<^verbatim>\<open>src/zygisk/\<close> are modelled as functions and state machines on their own data.

  \<^bold>\<open>How the parts meet.\<close>  An edit arrives at Core (\<open>Admission\<close>), is checked against the writes
  since its base (\<open>Config_Edit\<close>), becomes a plan of phases (\<open>Operation_Plan\<close>) whose progress is stored
  before every effect (\<open>Journal_Records\<close>); its Persist phase writes the configuration
  (\<open>Canonical_Codec\<close>), its Native phase projects it (\<open>Native_Policy\<close>) onto the wire (\<open>Wire\<close>) for the
  selected back end, which was activated under the journal's budgets (\<open>Native_Attempts\<close>).  After a
  restart the journal is fenced and reconciled with what is on disk (\<open>Journal_Recovery\<close>).  Inside an
  app the Zygisk filters (\<open>Proc_Filter\<close>, \<open>Netlink_Filter\<close>) remove VPN records from what the app reads,
  and the route probe (\<open>Route_Probe\<close>) reads the same bytes to check it.

  \<^bold>\<open>Shared theories.\<close>

    \<^item> \<open>Prelude\<close>: byte strings and words, \<^verbatim>\<open>Result\<close> and the question mark operator, the string and
      number functions of the Rust library the code uses, the locale of partial codecs.
    \<^item> \<open>Ordered_Maps\<close>: \<^verbatim>\<open>BTreeMap\<close> and \<^verbatim>\<open>BTreeSet\<close> as ascending lists; locale \<open>ordered_map\<close>, interpreted
      as \<open>bt\<close>.
    \<^item> \<open>Machines\<close>: locales for event machines with an invariant and with a rank that never falls;
      interpreted by the reset session (\<open>reset\<close>) and the admission ticket (\<open>ticket\<close>).
    \<^item> \<open>Compaction\<close>: locales for in-place removal of records from a buffer; interpreted by the line
      filter (\<open>lines\<close>) and the netlink filter (\<open>nl\<close>).
    \<^item> \<open>Write_Ahead\<close>: the journal's durability rule as a machine with failing writes, crashes and
      restarts, and the locale of what a component must provide; interpreted by native attempts
      (\<open>attempts\<close>) and loader preflights (\<open>preflights\<close>).

  \<^bold>\<open>Configuration and wire.\<close>

    \<^item> \<open>Hook_Ids\<close>, \<open>Wire\<close>, \<open>Wire_Facts\<close>, \<open>Config_Wire\<close> model \<^verbatim>\<open>crates/protocol/src/lib.rs\<close> and its generated
      hook table: tokens, headers, hexadecimal numbers, the target table with its binary search, the
      config writer and parser.  The writer's output is read back exactly; every proper prefix of a
      payload is rejected; a parsed table is sorted and within capacity.
    \<^item> \<open>Telemetry\<close> models \<^verbatim>\<open>telemetry.rs\<close>: status and stats readers and writers, block extraction,
      clamping to whole lines, counter intervals.
    \<^item> \<open>Zygisk_Activation\<close> models \<^verbatim>\<open>zygisk_activation.rs\<close>: recipients and the authorization envelope,
      whose encoder and decoder are inverse.
    \<^item> \<open>Package_Inventory\<close> and \<open>Native_Policy\<close> model \<^verbatim>\<open>crates/native-policy\<close>: package dumps, the target
      set, the capacity report, projection.  Projection succeeds exactly when the set fits and the
      back end's parse of the payload is the set.
    \<^item> \<open>Canonical_Config\<close>, \<open>Config_Edit\<close>, \<open>Port_Policy\<close>, \<open>Canonical_Codec\<close> model \<^verbatim>\<open>config.rs\<close>, \<^verbatim>\<open>edit.rs\<close>,
      \<^verbatim>\<open>config_edit.rs\<close>, \<^verbatim>\<open>port_policy.rs\<close> and \<^verbatim>\<open>canonical.rs\<close> of \<^verbatim>\<open>crates/core-rpc\<close>: edits keep the
      configuration well formed, accepted edits are serializable, overlapping ones conflict, a diff
      reproduces its target, the disk format round-trips, imports are normal forms.
    \<^item> \<open>Migration_Policy\<close> models \<^verbatim>\<open>crates/migration-policy\<close>: what the 1.x files say is read exactly
      and none of it is lost.

  \<^bold>\<open>Commands and durability.\<close>

    \<^item> \<open>Operation_Plan\<close> models \<^verbatim>\<open>operation.rs\<close> and the dispatch fence of \<^verbatim>\<open>server.rs\<close>; \<open>Admission\<close> the
      ticket of \<^verbatim>\<open>command_engine.rs\<close>: a caller that reports busy was never executed.
    \<^item> \<open>Reset_Session\<close> models \<^verbatim>\<open>crates/maintenance-model\<close>.
    \<^item> \<open>Journal_State\<close> is the data of the journal; \<open>Journal\<close> its holds, retention and restart fencing;
      \<open>Journal_Retention\<close> shows that retention releases no hold, forgets no identity and hides no
      conflict; \<open>Journal_Recovery\<close> models \<^verbatim>\<open>recovery.rs\<close> and shows that neither fencing nor readback
      invents an outcome; \<open>Journal_Records\<close> the stored progress of a command and what a crash leaves.
    \<^item> \<open>Native_Attempts\<close> models the activation checks and budgets of \<^verbatim>\<open>journal.rs\<close> and
      \<^verbatim>\<open>native_boot/prepared.rs\<close>; \<open>Preflight\<close> models \<^verbatim>\<open>journal/preflight.rs\<close>.  Both are shown to act at most
      once per boot across every crash history.
    \<^item> \<open>Kernel_Payloads\<close> models \<^verbatim>\<open>artifact-model/src/manifest.rs\<close>, \<^verbatim>\<open>payloads/kmi.rs\<close> and the selection
      evidence: which kernel module a device may be offered.
    \<^item> \<open>Elf_Image\<close> and \<open>Elf_Capabilities\<close> model \<^verbatim>\<open>artifact-model/src/elf.rs\<close>: the bounded reader of module
      images, build-ID notes, module metadata, and the capabilities that an image is granted; a module
      with the init contract runs none of its own code before its init function.

  \<^bold>\<open>Filters and probes.\<close>

    \<^item> \<open>Iface_Names\<close>, \<open>Proc_Filter\<close>, \<open>Netlink_Filter\<close> model \<^verbatim>\<open>zygisk/src/filter.rs\<close> and its generated
      interface rules: in-place compaction leaves exactly the records that do not reveal a VPN.
    \<^item> \<open>Netlink_Wire\<close>, \<open>Route_Probe\<close> model \<^verbatim>\<open>netlink_wire.rs\<close> and \<^verbatim>\<open>route.rs\<close> of \<^verbatim>\<open>crates/checks\<close>: a probe that
      reads a filtered dump observes no route over a hidden interface.
    \<^item> \<open>Diag_Base\<close>, \<open>Diag_Address\<close>, \<open>Diag_Interfaces\<close>, \<open>Diag_Native\<close>, \<open>Diag_Route\<close>, \<open>Diag_Framework\<close> and
      \<open>Diag_Run\<close> model \<^verbatim>\<open>crates/diagnostic-model\<close>: how samples taken before, during and after a fixture
      exists are judged.  The locales \<open>scoped_evaluator\<close> and \<open>verdict_evaluator\<close> state what a judgement
      promises; they are interpreted by the address, proc, directory, path, binding and route
      evaluators (\<open>address\<close>, \<open>procs\<close>, \<open>sys\<close>, \<open>fs\<close>, \<open>bind\<close>, \<open>routes\<close>).  Leaks never depend on what happens
      after the worker's sample, nothing is proven without the worker's own unfiltered sample, and an
      assessment accounts for every required check.

  \<^bold>\<open>Autonomous diagnostics.\<close>  Core runs these checks by itself: a request reserves a session, a dedicated
  worker process of the app claims its task, takes an unfiltered sample under a lease of the kernel back
  end, then a protected one, drives the framework hooks through their phases, and Core completes the run.

    \<^item> \<open>Io_Steps\<close> and \<open>Os_World\<close>: operations that pass a world and may fail, the operating system as a
      record of such operations, the boot-time deadlines of \<^verbatim>\<open>boot_time.rs\<close>, and opening a file beneath a
      directory as in \<^verbatim>\<open>payloads/mod.rs\<close>.
    \<^item> \<open>Loader_Image\<close> models \<^verbatim>\<open>crates/loader-ipc/src/image.rs\<close> and the messages of its \<^verbatim>\<open>lib.rs\<close>: process
      identities, the one executable mapping of an address, the inspection of the image behind it.
    \<^item> \<open>Diag_Raw\<close> models \<^verbatim>\<open>protocol/src/diagnostic_raw.rs\<close>, \<^verbatim>\<open>autonomous/native_raw.rs\<close> and
      \<^verbatim>\<open>native_exchange.rs\<close>: the lease of an unfiltered interval.  A protected sample is asked for only after
      the lease was revoked and read back as released.
    \<^item> \<open>Diag_Channel\<close> models \<^verbatim>\<open>autonomous/framework_fixture.rs\<close> and \<^verbatim>\<open>framework_run.rs\<close>, the file channel to
      \<^verbatim>\<open>system_server\<close>; \<open>Diag_Authority\<close> shows that publication compares and swaps, that recorded evidence is
      one chain of the four phases, that cleanup is final, and that every call ends.
    \<^item> \<open>Diag_Session\<close> models the worker's calls of \<^verbatim>\<open>autonomous/coordinator.rs\<close> and
      \<^verbatim>\<open>coordinator/native_worker.rs\<close>; \<open>Diag_Coordinator\<close> requests, the monitor and completion, with the step
      relation \<open>coordinated\<close> of all interleavings.  Over all reachable states: a native check is proven only
      through one admitted worker and a whole unfiltered interval of it, there is one run at a time, and
      automatic retries are bounded.

  \<^bold>\<open>Conventions.\<close>  Integers are words of their width, except lengths and indices of \<^verbatim>\<open>usize\<close>, which are
  naturals (the code runs on 64-bit and 32-bit Android; every length it compares is far below
  \<open>2 ^ 32\<close>).  Native-endian reads are little-endian, as on every Android target.  Errors are values.
  All loops are total functions with termination proofs, except two that carry fuel: the scan of
  build-ID notes, whose bound of rounds is proved to be enough for every input, and the wait for an
  acknowledgement of \<^verbatim>\<open>system_server\<close> (800 ms in sleeps of 10 ms), for which 81 turns are proved to be enough
  when the boot clock does not go back and a sleep takes the time it was asked for.  Parameters stand
  for code outside the repository or for effects: the JSON text parser and printer, the phase runner and
  hook, the journal file write, the loader syscall, SHA-256, what a file read returns, the calls of the
  operating system and of the kernel endpoint of unfiltered intervals.  What they return and the world they
  leave are arbitrary unless a theorem names a hypothesis on them.  A call that holds one of Core's locks
  is one step; descriptors that are closed when a value goes out of scope are not part of the world.  Facts a component only
  stores, such as image fences and manager identities, are types without operations.

  \<^bold>\<open>Not modelled.\<close>  Sockets, threads and Android services of the daemon; the Zygisk hooks
  and every other use of raw memory; the archive readers; signature verification; UniFFI
  bindings and host tools; the C kernel back ends and the Kotlin app.  Of the journal, the reader
  with its schema migration.  Of the autonomous diagnostics, the TUN and route fixtures and the launch of
  the worker: the measurement a completed run is given is any value.  Of the loader, the socket
  transport and the registry of callbacks.
\<close>

end
